(* ===== verification/Go_Prelude.thy ===== *)
theory Go_Prelude
  imports Main "HOL-Library.Word" "HOL-Library.Sublist"
begin

text \<open>
  Shared vocabulary of the development: Go's fixed-width integers, durations, error values and
  the generic lemmas the component theories use.

  \<^item> \<open>uint64\<close> values are \<open>64 word\<close>; \<open>int64\<close> values (unix seconds, \<open>time.Duration\<close>
    nanoseconds) are \<open>int\<close>, and every arithmetic operation on them that the code performs is
    written with the two's complement wrap-around \<open>i64\<close>.
  \<^item> A Go \<open>error\<close> is a record: the message, the sentinel errors its \<open>%w\<close> chain wraps (what
    \<open>errors.Is\<close> sees) and the JSON-RPC code of an \<open>rpc.Error\<close> in the chain, if any (what
    \<open>errors.As\<close> sees). Numbers that the code interpolates into a message are left out of it.
\<close>

named_theorems go_simps "unfolding rules for the small Go helpers"

section \<open>Integers, durations, addresses\<close>

type_synonym u64 = "64 word"
type_synonym u32 = "32 word"
type_synonym address = "160 word"
type_synonym hash = "256 word"
type_synonym byte = "8 word"

definition i64 :: "int \<Rightarrow> int" where
  "i64 x = (x + 2 ^ 63) mod 2 ^ 64 - 2 ^ 63"

text \<open>Go's integer division truncates towards zero; the divisors here are positive constants.\<close>

definition go_div :: "int \<Rightarrow> int \<Rightarrow> int" where
  "go_div a b = (if a < 0 then - ((- a) div b) else a div b)"

abbreviation Millisecond :: int where "Millisecond \<equiv> 1000000"
abbreviation Second :: int where "Second \<equiv> 1000000000"
abbreviation Minute :: int where "Minute \<equiv> 60000000000"
abbreviation Hour :: int where "Hour \<equiv> 3600000000000"

definition in_i64 :: "int \<Rightarrow> bool" where
  "in_i64 x \<longleftrightarrow> - (2 ^ 63) \<le> x \<and> x < 2 ^ 63"

section \<open>Errors\<close>

datatype sentinel =
    ErrContractPaused
  | ErrSessionNotActive
  | ErrJobDoomed
  | SkipRetry
  | ErrAnswerDelivered
  | ErrCiphertextTooLarge
  | ErrIdentityMismatch
  | ErrSchemaVersionMismatch
  | ErrEmptySnapshot
  | ErrNotExist
  | ErrCtxDone
  | ErrEmptyGeneration
  | ErrInvalidSelfContained
  | ErrBadAudio

record go_error =
  err_msg :: string
  err_is :: "sentinel list"
  err_rpc :: "int option"

definition errorf :: "string \<Rightarrow> go_error" where
  "errorf m = \<lparr>err_msg = m, err_is = [], err_rpc = None\<rparr>"

definition sentinel_err :: "string \<Rightarrow> sentinel \<Rightarrow> go_error" where
  "sentinel_err m s = \<lparr>err_msg = m, err_is = [s], err_rpc = None\<rparr>"

text \<open>\<open>fmt.Errorf("prefix: %w", err)\<close>: the message grows, the chain stays.\<close>

definition wrapf :: "string \<Rightarrow> go_error \<Rightarrow> go_error" where
  "wrapf p e = e\<lparr>err_msg := p @ '': '' @ err_msg e\<rparr>"

text \<open>\<open>fmt.Errorf("%w: %w", err, sentinel)\<close>: both chains are visible.\<close>

definition wrap_also :: "go_error \<Rightarrow> sentinel \<Rightarrow> go_error" where
  "wrap_also e s = e\<lparr>err_is := err_is e @ [s]\<rparr>"

definition errors_Is :: "go_error \<Rightarrow> sentinel \<Rightarrow> bool" where
  "errors_Is e s \<longleftrightarrow> s \<in> set (err_is e)"

definition strings_Contains :: "string \<Rightarrow> string \<Rightarrow> bool" where
  "strings_Contains s sub \<longleftrightarrow> sublist sub s"

definition to_lower_char :: "char \<Rightarrow> char" where
  "to_lower_char c =
     (if 65 \<le> (of_char c :: nat) \<and> (of_char c :: nat) \<le> 90 then char_of ((of_char c :: nat) + 32) else c)"

definition strings_ToLower :: "string \<Rightarrow> string" where
  "strings_ToLower = map to_lower_char"

section \<open>Lemmas on integers\<close>

lemma i64_id [simp]: "in_i64 x \<Longrightarrow> i64 x = x"
  unfolding in_i64_def i64_def by (simp add: mod_pos_pos_trivial)

lemma i64_range: "in_i64 (i64 x)"
proof -
  have "0 \<le> (x + 2 ^ 63) mod (2 ^ 64 :: int)" "(x + 2 ^ 63) mod (2 ^ 64 :: int) < 2 ^ 64"
    by simp_all
  then show ?thesis unfolding in_i64_def i64_def by simp
qed

lemma i64_idem [simp]: "i64 (i64 x) = i64 x"
  by (rule i64_id [OF i64_range])

lemma i64_mod: "(i64 x) mod 2 ^ 64 = x mod 2 ^ 64"
proof -
  have "(i64 x) mod 2 ^ 64 = ((x + 2 ^ 63) - 2 ^ 63) mod 2 ^ 64"
    unfolding i64_def by (rule mod_diff_left_eq)
  then show ?thesis by simp
qed

lemma in_i64_le: "in_i64 b \<Longrightarrow> 0 \<le> a \<Longrightarrow> a \<le> b \<Longrightarrow> in_i64 a"
  unfolding in_i64_def by simp

lemma go_div_nonneg [simp]: "0 \<le> a \<Longrightarrow> go_div a b = a div b"
  by (simp add: go_div_def)

lemma int_div_le: "0 \<le> (a :: int) \<Longrightarrow> 0 < b \<Longrightarrow> 0 \<le> a div b \<and> a div b \<le> a"
  using zdiv_mono2 [of a 1 b] by (simp add: pos_imp_zdiv_nonneg_iff)

lemma go_div_in_i64: "in_i64 a \<Longrightarrow> 0 < b \<Longrightarrow> in_i64 (go_div a b)"
  using int_div_le [of a b] int_div_le [of "- a" b] by (auto simp: go_div_def in_i64_def)

section \<open>Lemmas on errors\<close>

lemma errors_Is_wrapf [simp]: "errors_Is (wrapf p e) s = errors_Is e s"
  by (simp add: errors_Is_def wrapf_def)

lemma errors_Is_wrap_also [simp]: "errors_Is (wrap_also e s) s' \<longleftrightarrow> errors_Is e s' \<or> s' = s"
  by (auto simp: errors_Is_def wrap_also_def)

lemma errors_Is_errorf [simp]: "\<not> errors_Is (errorf m) s"
  by (simp add: errors_Is_def errorf_def)

lemma errors_Is_sentinel [simp]: "errors_Is (sentinel_err m s) s' \<longleftrightarrow> s' = s"
  by (auto simp: errors_Is_def sentinel_err_def)

lemma err_rpc_wrapf [simp]: "err_rpc (wrapf p e) = err_rpc e"
  by (simp add: wrapf_def)

section \<open>Lemmas on lists and maps\<close>

lemma distinct_map_filter_fst: "distinct (map f xs) \<Longrightarrow> distinct (map f (filter P xs))"
  by (induction xs) auto

lemma set_remove1_distinct: "distinct xs \<Longrightarrow> set (remove1 x xs) = set xs - {x}"
  by (rule set_remove1_eq)

lemma length_filter_partition: "length (filter P xs) + length (filter (\<lambda>x. \<not> P x) xs) = length xs"
  by (rule sum_length_filter_compl)

section \<open>Lemmas on words\<close>

lemma unat_plus_one: "(n :: 'a::len word) \<noteq> - 1 \<Longrightarrow> unat (n + 1) = Suc (unat n)"
  by (metis add.commute eq_neg_iff_add_eq_0 unatSuc)

lemma word_less_Suc_top: "(n :: 'a::len word) \<noteq> - 1 \<Longrightarrow> m \<le> n \<Longrightarrow> m < n + 1"
  by (simp add: word_less_nat_alt word_le_nat_alt unat_plus_one)

lemma word_less_pred: "(m :: 'a::len word) < p \<Longrightarrow> m \<noteq> p - 1 \<Longrightarrow> m < p - 1"
proof -
  assume less: "m < p" and ne: "m \<noteq> p - 1"
  then have p: "unat (p - 1) = unat p - 1"
    by (metis unat_minus_one word_not_simps(1))
  have "unat m \<noteq> unat (p - 1)" using ne by (simp add: word_unat_eq_iff [symmetric])
  then show ?thesis using less p by (simp add: word_less_nat_alt)
qed

lemma word_le_pred_less: "(b :: 'a::len word) \<le> p - 1 \<Longrightarrow> p \<noteq> 0 \<Longrightarrow> b < p"
proof -
  assume le: "b \<le> p - 1" and p: "p \<noteq> 0"
  have "unat (p - 1) = unat p - 1" "0 < unat p" using p by (simp_all add: unat_minus_one unat_gt_0)
  then show ?thesis using le by (simp add: word_less_nat_alt word_le_nat_alt)
qed

lemma add_chunk:
  assumes "(lo :: u64) \<le> upper" "unat upper + unat chunk < 2 ^ 64"
  shows "unat (lo + chunk) = unat lo + unat chunk"
  using assms unat_add_lem [of lo chunk] by (simp add: word_le_nat_alt)

lemma word_succ_nonzero:
  assumes "(a :: 'a::len word) < b"
  shows "a + 1 \<noteq> 0"
proof
  assume "a + 1 = 0"
  then have "a = -1" by (simp add: eq_neg_iff_add_eq_0)
  then show False using assms word_n1_ge [of b] by (simp add: linorder_not_less [symmetric])
qed

end
