(* ===== verification/Nonce_Manager.thy ===== *)
theory Nonce_Manager
  imports Go_Prelude
begin

text \<open>
  The nonce manager of the signing account (internal/chain/nonce.go): a lazily seeded local counter
  whose values are handed out as leases. The record holds the fields of \<open>NonceManager\<close>; each method
  runs under the mutex, so it is one atomic state transformer. What the node answers to
  \<open>PendingNonceAt\<close> is the argument \<open>fetched\<close> of \<open>NextNonce\<close>, read only when the code calls it.

  The clients' view is the interface \<open>nonce_source\<close>: leases that are held at the same time are
  distinct and never repeat a nonce spent since the last seed, nor any spent nonce at all as long as
  the node's answers are ahead of what was spent. The step relation
  \<open>nonce_step\<close> interleaves the operations of any number of clients.
\<close>

section \<open>The manager\<close>

record nonce_mgr =
  pendingNonce :: u64
  initialized :: bool
  outstanding :: nat
  resetPending :: bool

definition NewNonceManager :: nonce_mgr where
  "NewNonceManager = \<lparr>pendingNonce = 0, initialized = False, outstanding = 0, resetPending = False\<rparr>"

definition NextNonce :: "go_error + u64 \<Rightarrow> nonce_mgr \<Rightarrow> (go_error + u64) \<times> nonce_mgr" where
  "NextNonce fetched nm =
     (case (if initialized nm then Inr nm
            else case fetched of
                Inl e \<Rightarrow> Inl (wrapf ''fetch initial pending nonce'' e)
              | Inr nonce \<Rightarrow> Inr (nm\<lparr>pendingNonce := nonce, initialized := True\<rparr>)) of
        Inl e \<Rightarrow> (Inl e, nm)
      | Inr nm1 \<Rightarrow>
          (Inr (pendingNonce nm1),
           nm1\<lparr>pendingNonce := pendingNonce nm1 + 1, outstanding := Suc (outstanding nm1)\<rparr>))"

definition applyPendingResetLocked :: "nonce_mgr \<Rightarrow> nonce_mgr" where
  "applyPendingResetLocked nm =
     (if \<not> resetPending nm \<or> outstanding nm > 0 then nm
      else nm\<lparr>initialized := False, pendingNonce := 0, resetPending := False\<rparr>)"

definition ReleaseNonce :: "u64 \<Rightarrow> bool \<Rightarrow> nonce_mgr \<Rightarrow> nonce_mgr" where
  "ReleaseNonce nonce consumed nm =
     (let nm1 = (if outstanding nm > 0 then nm\<lparr>outstanding := outstanding nm - 1\<rparr> else nm);
          nm2 = (if consumed then nm1
                 else if initialized nm1 \<and> pendingNonce nm1 > 0 \<and> nonce = pendingNonce nm1 - 1
                 then nm1\<lparr>pendingNonce := pendingNonce nm1 - 1\<rparr>
                 else nm1\<lparr>resetPending := True\<rparr>)
      in applyPendingResetLocked nm2)"

definition ResetNonce :: "nonce_mgr \<Rightarrow> nonce_mgr" where
  "ResetNonce nm = applyPendingResetLocked (nm\<lparr>resetPending := True\<rparr>)"

section \<open>Interleaved clients\<close>

text \<open>
  The account with all its clients: the manager, the leases handed out and not yet released
  (\<open>held\<close>), the nonces ever released as consumed (\<open>spent\<close>), those since the counter was last seeded
  (\<open>epoch\<close>), and whether the node ever answered a seed at or below a nonce that was consumed before
  (\<open>stale\<close>). A client releases only a lease it holds. The counter does not wrap: an account's nonce is below
  \<open>2 ^ 64 - 1\<close> (EIP-2681).
\<close>

record nonce_sys =
  mgr :: nonce_mgr
  held :: "u64 list"
  spent :: "u64 list"
  epoch :: "u64 list"
  stale :: bool

definition init_nonce_sys :: nonce_sys where
  "init_nonce_sys = \<lparr>mgr = NewNonceManager, held = [], spent = [], epoch = [], stale = False\<rparr>"

inductive nonce_step :: "nonce_sys \<Rightarrow> nonce_sys \<Rightarrow> bool" where
  next_ok: "NextNonce f (mgr s) = (Inr n, m') \<Longrightarrow> n \<noteq> - 1 \<Longrightarrow>
    nonce_step s (s\<lparr>mgr := m', held := n # held s,
                    epoch := (if initialized (mgr s) then epoch s else []),
                    stale := (stale s \<or> \<not> initialized (mgr s) \<and> list_ex (\<lambda>x. n \<le> x) (spent s))\<rparr>)"
| next_err: "NextNonce f (mgr s) = (Inl e, m') \<Longrightarrow> nonce_step s (s\<lparr>mgr := m'\<rparr>)"
| release: "n \<in> set (held s) \<Longrightarrow>
    nonce_step s (s\<lparr>mgr := ReleaseNonce n c (mgr s), held := remove1 n (held s),
                    spent := (if c then n # spent s else spent s),
                    epoch := (if c then n # epoch s else epoch s)\<rparr>)"
| reset: "nonce_step s (s\<lparr>mgr := ResetNonce (mgr s)\<rparr>)"

inductive nonce_reachable :: "nonce_sys \<Rightarrow> bool" where
  nonce_init: "nonce_reachable init_nonce_sys"
| nonce_next: "nonce_reachable s \<Longrightarrow> nonce_step s t \<Longrightarrow> nonce_reachable t"

definition nonce_inv :: "nonce_mgr \<Rightarrow> u64 list \<Rightarrow> u64 list \<Rightarrow> bool" where
  "nonce_inv m H S \<longleftrightarrow>
     outstanding m = length H \<and> distinct H \<and> set H \<inter> set S = {} \<and>
     (initialized m \<or> H = []) \<and>
     (initialized m \<longrightarrow> (\<forall>n \<in> set H \<union> set S. n < pendingNonce m))"

section \<open>The interface a client relies on\<close>

text \<open>
  \<open>inv m H S\<close>: manager state \<open>m\<close> with leases \<open>H\<close> out and \<open>S\<close> spent. These are the promises behind
  the Go interface \<open>blob.NonceManager\<close> (NextNonce, ReleaseNonce, ResetNonce).
\<close>

locale nonce_source =
  fixes inv :: "'m \<Rightarrow> u64 list \<Rightarrow> u64 list \<Rightarrow> bool"
    and seeded :: "'m \<Rightarrow> bool"
    and acquire :: "go_error + u64 \<Rightarrow> 'm \<Rightarrow> (go_error + u64) \<times> 'm"
    and release :: "u64 \<Rightarrow> bool \<Rightarrow> 'm \<Rightarrow> 'm"
    and reset :: "'m \<Rightarrow> 'm"
  assumes acquire_ok: "inv m H S \<Longrightarrow> acquire f m = (Inr n, m') \<Longrightarrow> n \<noteq> - 1 \<Longrightarrow>
      inv m' (n # H) (if seeded m then S else [])"
    and acquire_ahead: "inv m H S \<Longrightarrow> acquire f m = (Inr n, m') \<Longrightarrow> n \<noteq> - 1 \<Longrightarrow> seeded m \<or> list_all (\<lambda>x. x < n) S \<Longrightarrow>
      inv m' (n # H) S"
    and acquire_err: "inv m H S \<Longrightarrow> acquire f m = (Inl e, m') \<Longrightarrow> m' = m"
    and release_inv: "inv m H S \<Longrightarrow> n \<in> set H \<Longrightarrow>
      inv (release n c m) (remove1 n H) (if c then n # S else S)"
    and reset_inv: "inv m H S \<Longrightarrow> inv (reset m) H S"
    and inv_distinct: "inv m H S \<Longrightarrow> distinct H \<and> set H \<inter> set S = {}"
begin

text \<open>A lease obtained while others are out collides with none of them.\<close>

lemma acquire_fresh:
  assumes "inv m H S" "acquire f m = (Inr n, m')" "n \<noteq> - 1"
  shows "n \<notin> set H"
  using inv_distinct [OF acquire_ok [OF assms]] by simp

text \<open>The bracket every submitter uses: acquire, work, release on every exit path.\<close>

lemma bracket:
  assumes "inv m H S" "acquire f m = (Inr n, m')" "n \<noteq> - 1"
  shows "\<exists>S'. inv (release n c m') H S'"
  using release_inv [OF acquire_ok [OF assms], of n c] by auto

lemma bracket_reset:
  assumes "inv m H S" "acquire f m = (Inr n, m')" "n \<noteq> - 1"
  shows "\<exists>S'. inv (release n c (reset m')) H S'"
  using release_inv [OF reset_inv [OF acquire_ok [OF assms]], of n c] by auto

end

section \<open>Facts about the operations\<close>

lemmas nonce_defs = NextNonce_def applyPendingResetLocked_def ReleaseNonce_def ResetNonce_def

lemma NextNonce_initialized:
  "initialized nm \<Longrightarrow> NextNonce f nm =
     (Inr (pendingNonce nm), nm\<lparr>pendingNonce := pendingNonce nm + 1, outstanding := Suc (outstanding nm)\<rparr>)"
  by (simp add: NextNonce_def)

lemma NextNonce_uninitialized:
  "\<not> initialized nm \<Longrightarrow> NextNonce (Inr p) nm =
     (Inr p, nm\<lparr>pendingNonce := p + 1, initialized := True, outstanding := Suc (outstanding nm)\<rparr>)"
  by (simp add: NextNonce_def)

lemma NextNonce_Inl_same: "NextNonce f nm = (Inl e, nm') \<Longrightarrow> nm' = nm"
  by (auto simp: NextNonce_def split: if_splits sum.splits)

lemma NextNonce_InrD:
  "NextNonce f nm = (Inr n, nm') \<Longrightarrow>
     initialized nm' \<and> pendingNonce nm' = n + 1 \<and> outstanding nm' = Suc (outstanding nm) \<and>
     resetPending nm' = resetPending nm \<and> (initialized nm \<longrightarrow> n = pendingNonce nm)"
  by (auto simp: NextNonce_def split: if_splits sum.splits)

lemma ResetNonce_deferred:
  "outstanding nm > 0 \<Longrightarrow> ResetNonce nm = nm\<lparr>resetPending := True\<rparr>"
  by (simp add: ResetNonce_def applyPendingResetLocked_def)

section \<open>The invariant\<close>

lemma nonce_inv_init: "nonce_inv NewNonceManager [] []"
  by (simp add: nonce_inv_def NewNonceManager_def)

lemma nonce_inv_next:
  assumes "nonce_inv m H S" "NextNonce f m = (Inr n, m')" "n \<noteq> - 1"
  shows "nonce_inv m' (n # H) (if initialized m then S else [])"
proof (cases "initialized m")
  case True
  then have "n = pendingNonce m" "m' = m\<lparr>pendingNonce := pendingNonce m + 1, outstanding := Suc (outstanding m)\<rparr>"
    using assms(2) by (auto simp: NextNonce_initialized)
  with True assms show ?thesis
    by (auto simp: nonce_inv_def intro: word_less_Suc_top less_imp_le)
next
  case False
  with assms(1) have "H = []" by (simp add: nonce_inv_def)
  with False assms show ?thesis
    using NextNonce_InrD [OF assms(2)] by (auto simp: nonce_inv_def intro: word_less_Suc_top)
qed

lemma nonce_inv_ahead:
  assumes "nonce_inv m H S" "NextNonce f m = (Inr n, m')" "n \<noteq> - 1" "initialized m \<or> list_all (\<lambda>x. x < n) S"
  shows "nonce_inv m' (n # H) S"
proof (cases "initialized m")
  case True
  then show ?thesis using nonce_inv_next [OF assms(1-3)] by simp
next
  case False
  then have "H = []" "list_all (\<lambda>x. x < n) S" using assms(1,4) by (auto simp: nonce_inv_def)
  moreover have "x < n + 1" if "x < n \<or> x = n" for x
    using that word_less_Suc_top [OF assms(3), of x] by (auto simp: less_imp_le)
  ultimately show ?thesis
    using NextNonce_InrD [OF assms(2)] assms(1) by (auto simp: nonce_inv_def list_all_iff)
qed

lemma nonce_inv_apply: "nonce_inv m H S \<Longrightarrow> nonce_inv (applyPendingResetLocked m) H S"
  by (auto simp: nonce_inv_def applyPendingResetLocked_def)

lemma nonce_inv_resetPending: "nonce_inv m H S \<Longrightarrow> nonce_inv (m\<lparr>resetPending := b\<rparr>) H S"
  by (simp add: nonce_inv_def)

lemma nonce_inv_reset: "nonce_inv m H S \<Longrightarrow> nonce_inv (ResetNonce m) H S"
  by (simp add: ResetNonce_def nonce_inv_apply nonce_inv_resetPending)

lemma nonce_inv_drop:
  "nonce_inv m H S \<Longrightarrow> n \<in> set H \<Longrightarrow>
     nonce_inv (m\<lparr>outstanding := outstanding m - 1\<rparr>) (remove1 n H) (if c then n # S else S)"
  by (auto simp: nonce_inv_def length_remove1)

lemma nonce_inv_giveback:
  assumes "nonce_inv m H S" "n \<notin> set H" "n \<notin> set S" "n = pendingNonce m - 1"
  shows "nonce_inv (m\<lparr>pendingNonce := pendingNonce m - 1\<rparr>) H S"
  using assms by (auto simp: nonce_inv_def intro!: word_less_pred)

lemma nonce_inv_release:
  assumes inv: "nonce_inv m H S" and n: "n \<in> set H"
  shows "nonce_inv (ReleaseNonce n c m) (remove1 n H) (if c then n # S else S)"
proof -
  let ?m1 = "m\<lparr>outstanding := outstanding m - 1\<rparr>"
  have out: "outstanding m > 0" and notin: "n \<notin> set (remove1 n H)" "n \<notin> set S"
    using inv n by (auto simp: nonce_inv_def)
  have inv1: "nonce_inv ?m1 (remove1 n H) (if c then n # S else S)"
    by (rule nonce_inv_drop [OF inv n])
  consider (spent) c
    | (top) "\<not> c" "initialized m" "pendingNonce m > 0" "n = pendingNonce m - 1"
    | (gap) "\<not> c" "\<not> (initialized m \<and> pendingNonce m > 0 \<and> n = pendingNonce m - 1)"
    by blast
  then show ?thesis
  proof cases
    case spent
    with out nonce_inv_apply [OF inv1] show ?thesis by (simp add: ReleaseNonce_def)
  next
    case top
    then have "nonce_inv (?m1\<lparr>pendingNonce := pendingNonce ?m1 - 1\<rparr>) (remove1 n H) S"
      using inv1 notin by (intro nonce_inv_giveback) auto
    with top out nonce_inv_apply show ?thesis by (simp add: ReleaseNonce_def Let_def)
  next
    case gap
    with inv1 have "nonce_inv (?m1\<lparr>resetPending := True\<rparr>) (remove1 n H) S"
      by (simp add: nonce_inv_resetPending)
    with gap out nonce_inv_apply show ?thesis by (auto simp: ReleaseNonce_def Let_def)
  qed
qed

interpretation nonce_mgr: nonce_source nonce_inv initialized NextNonce ReleaseNonce ResetNonce
proof unfold_locales
  show "nonce_inv m' (n # H) (if initialized m then S else [])"
    if "nonce_inv m H S" "NextNonce f m = (Inr n, m')" "n \<noteq> - 1" for m H S f n m'
    using that by (rule nonce_inv_next)
  show "nonce_inv m' (n # H) S"
    if "nonce_inv m H S" "NextNonce f m = (Inr n, m')" "n \<noteq> - 1" "initialized m \<or> list_all (\<lambda>x. x < n) S" for m H S f n m'
    using that by (rule nonce_inv_ahead)
  show "m' = m" if "nonce_inv m H S" "NextNonce f m = (Inl e, m')" for m H S f e m'
    using that(2) by (rule NextNonce_Inl_same)
  show "nonce_inv (ReleaseNonce n c m) (remove1 n H) (if c then n # S else S)"
    if "nonce_inv m H S" "n \<in> set H" for m H S n c
    using that by (rule nonce_inv_release)
  show "nonce_inv (ResetNonce m) H S" if "nonce_inv m H S" for m H S
    using that by (rule nonce_inv_reset)
  show "distinct H \<and> set H \<inter> set S = {}" if "nonce_inv m H S" for m H S
    using that by (simp add: nonce_inv_def)
qed

definition sys_inv :: "nonce_sys \<Rightarrow> bool" where
  "sys_inv s \<longleftrightarrow> nonce_inv (mgr s) (held s) (epoch s) \<and> (\<not> stale s \<longrightarrow> nonce_inv (mgr s) (held s) (spent s))"

lemma nonce_step_inv: "nonce_step s t \<Longrightarrow> sys_inv s \<Longrightarrow> sys_inv t"
proof (induction rule: nonce_step.induct)
  case (next_ok f s n m')
  have "list_all (\<lambda>x. x < n) (spent s) \<longleftrightarrow> \<not> list_ex (\<lambda>x. n \<le> x) (spent s)" by (auto simp: list_all_iff list_ex_iff)
  then show ?case using next_ok nonce_mgr.acquire_ok nonce_mgr.acquire_ahead by (auto simp: sys_inv_def)
next
  case (next_err f s e m')
  then show ?case using NextNonce_Inl_same by (auto simp: sys_inv_def)
next
  case (release n s c)
  then show ?case
    using nonce_mgr.release_inv [of "mgr s" "held s" "epoch s" n c] nonce_mgr.release_inv [of "mgr s" "held s" "spent s" n c]
    by (auto simp: sys_inv_def)
next
  case (reset s)
  then show ?case using nonce_mgr.reset_inv by (auto simp: sys_inv_def)
qed

lemma nonce_reachable_inv: "nonce_reachable s \<Longrightarrow> sys_inv s"
proof (induction rule: nonce_reachable.induct)
  case nonce_init
  show ?case by (simp add: sys_inv_def init_nonce_sys_def nonce_inv_init)
next
  case (nonce_next s t)
  then show ?case by (blast intro: nonce_step_inv)
qed

section \<open>Properties\<close>

text \<open>
  C4. In every interleaving of NextNonce, ReleaseNonce and ResetNonce calls, by any number of
  goroutines that release only leases they hold and with any answers of the node, the leases held at
  the same time are pairwise distinct and their number is the manager's count; none repeats a nonce that was
  released as consumed since the counter was last seeded; and none repeats any nonce consumed so far, across
  all resets, unless the node answered some seed with a nonce at or below one that had been consumed.
\<close>

theorem nonce_leases_distinct:
  assumes "nonce_reachable s"
  shows "distinct (held s) \<and> outstanding (mgr s) = length (held s) \<and> set (held s) \<inter> set (epoch s) = {} \<and>
         (\<not> stale s \<longrightarrow> set (held s) \<inter> set (spent s) = {})"
  using nonce_reachable_inv [OF assms] by (simp add: sys_inv_def nonce_inv_def)

text \<open>A run with a re-seed: 7 is leased and consumed, the counter is reset, and the node answers 8.\<close>

lemma nonce_example_one:
  "nonce_reachable \<lparr>mgr = \<lparr>pendingNonce = 8, initialized = True, outstanding = 1, resetPending = False\<rparr>,
      held = [7], spent = [], epoch = [], stale = False\<rparr>"
  using nonce_reachable.nonce_next [OF nonce_reachable.nonce_init
      nonce_step.next_ok [of "Inr 7" init_nonce_sys 7]]
  by (simp add: init_nonce_sys_def NewNonceManager_def NextNonce_def)

lemma nonce_example_two:
  "nonce_reachable \<lparr>mgr = \<lparr>pendingNonce = 8, initialized = True, outstanding = 0, resetPending = False\<rparr>,
      held = [], spent = [7], epoch = [7], stale = False\<rparr>"
  using nonce_reachable.nonce_next [OF nonce_example_one nonce_step.release [of 7 _ True]]
  by (simp add: ReleaseNonce_def applyPendingResetLocked_def)

lemma nonce_example_three:
  "nonce_reachable \<lparr>mgr = \<lparr>pendingNonce = 0, initialized = False, outstanding = 0, resetPending = False\<rparr>,
      held = [], spent = [7], epoch = [7], stale = False\<rparr>"
  using nonce_reachable.nonce_next [OF nonce_example_two nonce_step.reset]
  by (simp add: ResetNonce_def applyPendingResetLocked_def)

lemma nonce_example_four:
  "nonce_reachable \<lparr>mgr = \<lparr>pendingNonce = 9, initialized = True, outstanding = 1, resetPending = False\<rparr>,
      held = [8], spent = [7], epoch = [], stale = False\<rparr>"
  using nonce_reachable.nonce_next [OF nonce_example_three nonce_step.next_ok [of "Inr 8" _ 8]]
  by (simp add: NextNonce_def)

theorem nonce_leases_distinct_witness:
  "nonce_reachable \<lparr>mgr = \<lparr>pendingNonce = 9, initialized = True, outstanding = 1, resetPending = False\<rparr>,
      held = [8], spent = [7], epoch = [], stale = False\<rparr> \<and> set [8] \<inter> set [7 :: u64] = {}"
  using nonce_leases_distinct [OF nonce_example_four] nonce_example_four by simp

text \<open>
  A reset requested while leases are out changes neither the counter nor the seeding: it is
  recorded, and the release of the last lease applies it, whatever that release reports, so that the
  next NextNonce hands out exactly what the node answers.
\<close>

theorem nonce_reset_deferred:
  assumes "outstanding nm > 0"
  shows "pendingNonce (ResetNonce nm) = pendingNonce nm \<and> initialized (ResetNonce nm) = initialized nm \<and>
         resetPending (ReleaseNonce n c (ResetNonce nm)) = (outstanding nm > 1) \<and>
         (outstanding nm = 1 \<longrightarrow> fst (NextNonce f (ReleaseNonce n c (ResetNonce nm))) =
           (case f of Inl e \<Rightarrow> Inl (wrapf ''fetch initial pending nonce'' e) | Inr p \<Rightarrow> Inr p))"
  using assms by (auto simp: nonce_defs Let_def split: sum.splits)

theorem nonce_reset_deferred_witness:
  "fst (NextNonce (Inr 20) (ReleaseNonce 7 True (ResetNonce
     \<lparr>pendingNonce = 8, initialized = True, outstanding = 1, resetPending = False\<rparr>))) = Inr 20"
  using nonce_reset_deferred [of "\<lparr>pendingNonce = 8, initialized = True, outstanding = 1, resetPending = False\<rparr>"
      7 True "Inr 20"] by simp

end
