(* ===== verification/Subpool_Coordinator.thy ===== *)
theory Subpool_Coordinator
  imports Go_Prelude
begin

text \<open>
  The broadcast coordinator of one signing key (internal/chain/subpool\_coordinator.go). Blob and
  legacy transactions may not be pending at the same time; within a class any number may be. The two
  in-flight maps are lists of entries keyed by id, the \<open>notify\<close> channel is its generation number
  (closing and replacing it increments the number, so a channel of an older generation is closed).

  \<open>Enter\<close> is a loop around a blocking select. \<open>Enter_try\<close> is one iteration: it either takes a slot or
  names the channel it waits on. The step relation \<open>coord_step\<close> interleaves arrivals, waiters that
  wake up or are cancelled, token releases and janitor passes.
\<close>

section \<open>Types\<close>

datatype TxClass = ClassBlob | ClassLegacy

fun other :: "TxClass \<Rightarrow> TxClass" where
  "other ClassBlob = ClassLegacy"
| "other ClassLegacy = ClassBlob"

record inflightEntry =
  e_id :: u64
  e_class :: TxClass
  e_hash :: hash
  e_enteredAt :: int

record coordinator =
  maxTokenLifetime :: int
  inflightBlob :: "inflightEntry list"
  inflightLegacy :: "inflightEntry list"
  notify :: nat
  nextID :: u64
  orphanCount :: int

record BroadcastToken =
  entryID :: u64
  tokClass :: TxClass
  settled :: bool

definition defaultMaxTokenLifetime :: int where
  "defaultMaxTokenLifetime = 3 * Minute"

fun inflight :: "coordinator \<Rightarrow> TxClass \<Rightarrow> inflightEntry list" where
  "inflight c ClassBlob = inflightBlob c"
| "inflight c ClassLegacy = inflightLegacy c"

fun set_inflight :: "TxClass \<Rightarrow> inflightEntry list \<Rightarrow> coordinator \<Rightarrow> coordinator" where
  "set_inflight ClassBlob es c = c\<lparr>inflightBlob := es\<rparr>"
| "set_inflight ClassLegacy es c = c\<lparr>inflightLegacy := es\<rparr>"

section \<open>Operations\<close>

definition NewSubpoolCoordinator :: "int \<Rightarrow> coordinator" where
  "NewSubpoolCoordinator lifetime =
     \<lparr>maxTokenLifetime = (if lifetime \<le> 0 then defaultMaxTokenLifetime else lifetime),
      inflightBlob = [], inflightLegacy = [], notify = 0, nextID = 0, orphanCount = 0\<rparr>"

definition add_entry :: "TxClass \<Rightarrow> int \<Rightarrow> coordinator \<Rightarrow> u64 \<times> coordinator" where
  "add_entry cl now c =
     (let i = nextID c + 1;
          entry = \<lparr>e_id = i, e_class = cl, e_hash = 0, e_enteredAt = now\<rparr>
      in (i, set_inflight cl (entry # filter (\<lambda>e. e_id e \<noteq> i) (inflight c cl)) (c\<lparr>nextID := i\<rparr>)))"

definition Enter_try :: "TxClass \<Rightarrow> int \<Rightarrow> coordinator \<Rightarrow> nat + BroadcastToken \<times> coordinator" where
  "Enter_try cl now c =
     (if inflight c (other cl) = []
      then (case add_entry cl now c of
              (i, c') \<Rightarrow> Inr (\<lparr>entryID = i, tokClass = cl, settled = False\<rparr>, c'))
      else Inl (notify c))"

definition Registered :: "BroadcastToken option \<Rightarrow> hash \<Rightarrow> coordinator \<Rightarrow> coordinator" where
  "Registered t h c =
     (case t of None \<Rightarrow> c
      | Some tok \<Rightarrow>
          (if settled tok then c
           else set_inflight (tokClass tok)
             (map (\<lambda>e. if e_id e = entryID tok then e\<lparr>e_hash := h\<rparr> else e) (inflight c (tokClass tok))) c))"

definition release :: "TxClass \<Rightarrow> u64 \<Rightarrow> coordinator \<Rightarrow> coordinator" where
  "release cl i c =
     (let es = filter (\<lambda>e. e_id e \<noteq> i) (inflight c cl);
          c1 = set_inflight cl es c
      in if es = [] then c1\<lparr>notify := Suc (notify c1)\<rparr> else c1)"

definition Done :: "BroadcastToken option \<Rightarrow> coordinator \<Rightarrow> BroadcastToken option \<times> coordinator" where
  "Done t c =
     (case t of None \<Rightarrow> (None, c)
      | Some tok \<Rightarrow>
          (if settled tok then (Some tok, c)
           else (Some (tok\<lparr>settled := True\<rparr>), release (tokClass tok) (entryID tok) c)))"

definition Abandon :: "BroadcastToken option \<Rightarrow> coordinator \<Rightarrow> BroadcastToken option \<times> coordinator" where
  "Abandon t c = Done t c"

definition Inflight :: "TxClass \<Rightarrow> coordinator \<Rightarrow> nat" where
  "Inflight cl c = length (inflight c cl)"

text \<open>\<open>clock i\<close> is what \<open>time.Now\<close> reads in iteration \<open>i\<close> of the loop.\<close>

fun seed_loop :: "(nat \<Rightarrow> int) \<Rightarrow> nat \<Rightarrow> coordinator \<Rightarrow> coordinator" where
  "seed_loop clock 0 c = c"
| "seed_loop clock (Suc n) c = snd (add_entry ClassBlob (clock n) (seed_loop clock n c))"

definition Seed :: "(nat \<Rightarrow> int) \<Rightarrow> u64 \<Rightarrow> u64 \<Rightarrow> coordinator \<Rightarrow> coordinator" where
  "Seed clock pending latest c =
     (if pending \<le> latest then c else seed_loop clock (unat (pending - latest)) c)"

definition stale_entry :: "int \<Rightarrow> inflightEntry \<Rightarrow> bool" where
  "stale_entry cutoff e \<longleftrightarrow> e_enteredAt e < cutoff"

definition reapStale :: "int \<Rightarrow> coordinator \<Rightarrow> coordinator" where
  "reapStale now c =
     (let cutoff = now - maxTokenLifetime c;
          evicted = filter (stale_entry cutoff) (inflightBlob c) @ filter (stale_entry cutoff) (inflightLegacy c);
          c1 = c\<lparr>inflightBlob := filter (\<lambda>e. \<not> stale_entry cutoff e) (inflightBlob c),
                 inflightLegacy := filter (\<lambda>e. \<not> stale_entry cutoff e) (inflightLegacy c)\<rparr>;
          needsNotify = list_ex (\<lambda>e. inflight c1 (e_class e) = []) evicted;
          c2 = (if needsNotify then c1\<lparr>notify := Suc (notify c1)\<rparr> else c1)
      in c2\<lparr>orphanCount := orphanCount c2 + int (length evicted)\<rparr>)"

section \<open>The interface the submitters rely on\<close>

text \<open>
  \<open>ids c cl\<close> is the set of slots of a class. A submitter may assume that a granted slot is new and
  that the other class is empty, and that giving the slot back removes exactly that slot.
\<close>

locale broadcast_slots =
  fixes wf :: "'c \<Rightarrow> bool"
    and ids :: "'c \<Rightarrow> TxClass \<Rightarrow> u64 set"
    and room :: "'c \<Rightarrow> bool"
    and enter :: "TxClass \<Rightarrow> int \<Rightarrow> 'c \<Rightarrow> nat + BroadcastToken \<times> 'c"
    and leave :: "BroadcastToken \<Rightarrow> 'c \<Rightarrow> 'c"
    and register :: "BroadcastToken \<Rightarrow> hash \<Rightarrow> 'c \<Rightarrow> 'c"
  assumes enter_wf: "wf c \<Longrightarrow> room c \<Longrightarrow> enter cl now c = Inr (tok, c') \<Longrightarrow> wf c'"
    and enter_ids: "wf c \<Longrightarrow> room c \<Longrightarrow> enter cl now c = Inr (tok, c') \<Longrightarrow>
      ids c' cl = insert (entryID tok) (ids c cl) \<and> entryID tok \<notin> ids c cl \<and>
      ids c (other cl) = {} \<and> ids c' (other cl) = {}"
    and enter_tok: "enter cl now c = Inr (tok, c') \<Longrightarrow> tokClass tok = cl \<and> \<not> settled tok"
    and leave_wf: "wf c \<Longrightarrow> wf (leave tok c)"
    and leave_ids: "\<not> settled tok \<Longrightarrow> ids (leave tok c) cl =
      (if cl = tokClass tok then ids c cl - {entryID tok} else ids c cl)"
    and register_wf: "wf c \<Longrightarrow> wf (register tok h c)"
    and register_ids: "ids (register tok h c) cl = ids c cl"
begin

lemma bracket_ids:
  assumes "wf c" "room c" "enter cl now c = Inr (tok, c')"
  shows "ids (leave tok c') = ids c"
proof
  fix k
  show "ids (leave tok c') k = ids c k"
    using enter_ids [OF assms] enter_tok [OF assms(3)] by (cases k; cases cl) (auto simp: leave_ids)
qed

lemma bracket_register_ids:
  assumes "wf c" "room c" "enter cl now c = Inr (tok, c')"
  shows "ids (leave tok (register tok h c')) = ids c"
  using bracket_ids [OF assms] enter_tok [OF assms(3)]
  by (force simp: fun_eq_iff leave_ids register_ids)

end

section \<open>Interleaved submitters\<close>

text \<open>
  \<open>waiters\<close> are the calls blocked in Enter with the channel generation they wait on, \<open>tokens\<close> the
  unsettled tokens. A waiter whose channel is closed re-runs the loop body.
\<close>

record coord_sys =
  coord :: coordinator
  waiters :: "(TxClass \<times> nat) list"
  tokens :: "BroadcastToken list"

inductive coord_step :: "coord_sys \<Rightarrow> coord_sys \<Rightarrow> bool" where
  arrive_ok: "Enter_try cl now (coord s) = Inr (tok, c') \<Longrightarrow>
    coord_step s (s\<lparr>coord := c', tokens := tok # tokens s\<rparr>)"
| arrive_block: "Enter_try cl now (coord s) = Inl g \<Longrightarrow>
    coord_step s (s\<lparr>waiters := (cl, g) # waiters s\<rparr>)"
| wake_ok: "(cl, g) \<in> set (waiters s) \<Longrightarrow> g < notify (coord s) \<Longrightarrow>
    Enter_try cl now (coord s) = Inr (tok, c') \<Longrightarrow>
    coord_step s (s\<lparr>coord := c', waiters := remove1 (cl, g) (waiters s), tokens := tok # tokens s\<rparr>)"
| wake_block: "(cl, g) \<in> set (waiters s) \<Longrightarrow> g < notify (coord s) \<Longrightarrow>
    Enter_try cl now (coord s) = Inl g' \<Longrightarrow>
    coord_step s (s\<lparr>waiters := (cl, g') # remove1 (cl, g) (waiters s)\<rparr>)"
| cancel: "coord_step s (s\<lparr>waiters := remove1 w (waiters s)\<rparr>)"
| register: "coord_step s (s\<lparr>coord := Registered t h (coord s)\<rparr>)"
| settle: "tok \<in> set (tokens s) \<Longrightarrow>
    coord_step s (s\<lparr>coord := snd (Done (Some tok) (coord s)), tokens := remove1 tok (tokens s)\<rparr>)"
| reap: "coord_step s (s\<lparr>coord := reapStale now (coord s)\<rparr>)"

text \<open>The service seeds the coordinator at startup, before any submitter exists.\<close>

inductive coord_reachable :: "coord_sys \<Rightarrow> bool" where
  coord_init: "coord_reachable
    \<lparr>coord = Seed clock p l (NewSubpoolCoordinator lifetime), waiters = [], tokens = []\<rparr>"
| coord_next: "coord_reachable s \<Longrightarrow> coord_step s t \<Longrightarrow> coord_reachable t"

definition ids_fresh :: "coordinator \<Rightarrow> bool" where
  "ids_fresh c \<longleftrightarrow> (\<forall>cl. \<forall>e \<in> set (inflight c cl). e_id e \<le> nextID c)"

definition slot_ids :: "coordinator \<Rightarrow> TxClass \<Rightarrow> u64 set" where
  "slot_ids c cl = e_id ` set (inflight c cl)"

definition coord_wf :: "coordinator \<Rightarrow> bool" where
  "coord_wf c \<longleftrightarrow> (inflightBlob c = [] \<or> inflightLegacy c = []) \<and>
     (\<forall>cl. \<forall>e \<in> set (inflight c cl). e_class e = cl)"

definition wakeup_inv :: "coordinator \<Rightarrow> (TxClass \<times> nat) list \<Rightarrow> bool" where
  "wakeup_inv c ws \<longleftrightarrow> (\<forall>(cl, g) \<in> set ws. g \<le> notify c \<and> (g = notify c \<longrightarrow> inflight c (other cl) \<noteq> []))"

section \<open>Facts about the operations\<close>

lemma other_other [simp]: "other (other cl) = cl"
  by (cases cl) simp_all

lemma other_neq [simp]: "other cl \<noteq> cl" "cl \<noteq> other cl"
  by (cases cl; simp)+

lemma other_cases: "k = cl \<or> k = other cl"
  by (cases k; cases cl) simp_all

lemma inflight_set_inflight [simp]:
  "inflight (set_inflight cl es c) k = (if k = cl then es else inflight c k)"
  by (cases cl; cases k) simp_all

lemma set_inflight_fields [simp]:
  "notify (set_inflight cl es c) = notify c" "nextID (set_inflight cl es c) = nextID c"
  "maxTokenLifetime (set_inflight cl es c) = maxTokenLifetime c"
  by (cases cl; simp)+

lemma inflight_fields [simp]:
  "inflight (c\<lparr>notify := n\<rparr>) k = inflight c k" "inflight (c\<lparr>nextID := i\<rparr>) k = inflight c k"
  "inflight (c\<lparr>orphanCount := o'\<rparr>) k = inflight c k"
  by (cases k; simp)+

lemma all_class: "(\<forall>cl. P cl) \<longleftrightarrow> P ClassBlob \<and> P ClassLegacy"
  using TxClass.exhaust by metis

lemma coord_wf_alt:
  "coord_wf c \<longleftrightarrow> (\<forall>cl. inflight c cl = [] \<or> inflight c (other cl) = []) \<and>
     (\<forall>cl. \<forall>e \<in> set (inflight c cl). e_class e = cl)"
  by (auto simp: coord_wf_def all_class)

lemma inflight_add_entry:
  "inflight (snd (add_entry cl now c)) k =
     (if k = cl then \<lparr>e_id = nextID c + 1, e_class = cl, e_hash = 0, e_enteredAt = now\<rparr> #
        filter (\<lambda>e. e_id e \<noteq> nextID c + 1) (inflight c cl) else inflight c k)"
  by (simp add: add_entry_def Let_def)

lemma add_entry_fields:
  "fst (add_entry cl now c) = nextID c + 1" "notify (snd (add_entry cl now c)) = notify c"
  "nextID (snd (add_entry cl now c)) = nextID c + 1"
  by (simp_all add: add_entry_def Let_def)

lemma Enter_try_Inr:
  "Enter_try cl now c = Inr (tok, c') \<longleftrightarrow> inflight c (other cl) = [] \<and>
     tok = \<lparr>entryID = nextID c + 1, tokClass = cl, settled = False\<rparr> \<and> c' = snd (add_entry cl now c)"
  using add_entry_fields(1) [of cl now c] by (auto simp: Enter_try_def split: prod.splits)

lemma Enter_try_Inl: "Enter_try cl now c = Inl g \<longleftrightarrow> inflight c (other cl) \<noteq> [] \<and> g = notify c"
  by (auto simp: Enter_try_def split: prod.splits)

lemma inflight_release:
  "inflight (release cl i c) k =
     (if k = cl then filter (\<lambda>e. e_id e \<noteq> i) (inflight c cl) else inflight c k)"
  by (simp add: release_def Let_def)

lemma notify_release:
  "notify (release cl i c) =
     (if filter (\<lambda>e. e_id e \<noteq> i) (inflight c cl) = [] then Suc (notify c) else notify c)"
  by (simp add: release_def Let_def)

lemma inflight_Registered:
  "map e_id (inflight (Registered t h c) k) = map e_id (inflight c k)"
  "map e_class (inflight (Registered t h c) k) = map e_class (inflight c k)"
  by (auto simp: Registered_def split: option.splits)

lemma notify_Registered [simp]: "notify (Registered t h c) = notify c"
  by (simp add: Registered_def split: option.splits)

lemma inflight_reapStale:
  "inflight (reapStale now c) k =
     filter (\<lambda>e. \<not> stale_entry (now - maxTokenLifetime c) e) (inflight c k)"
  by (cases k) (simp_all add: reapStale_def Let_def)

lemma notify_reapStale_eq:
  "notify (reapStale now c) =
     (if \<exists>e \<in> set (inflight c ClassBlob) \<union> set (inflight c ClassLegacy).
           stale_entry (now - maxTokenLifetime c) e \<and> inflight (reapStale now c) (e_class e) = []
      then Suc (notify c) else notify c)"
proof -
  define c1 where "c1 = c\<lparr>inflightBlob := filter (\<lambda>e. \<not> stale_entry (now - maxTokenLifetime c) e) (inflightBlob c),
                 inflightLegacy := filter (\<lambda>e. \<not> stale_entry (now - maxTokenLifetime c) e) (inflightLegacy c)\<rparr>"
  have same: "inflight (reapStale now c) k = inflight c1 k" for k
    using inflight_reapStale [of now c k] by (cases k) (simp_all add: c1_def)
  have "notify c1 = notify c" by (simp add: c1_def)
  then show ?thesis
    unfolding same by (auto simp: reapStale_def Let_def c1_def [symmetric] list_ex_iff)
qed

text \<open>A janitor pass that empties a class closes the channel.\<close>

lemma notify_reapStale:
  assumes "coord_wf c" "inflight c k \<noteq> []" "inflight (reapStale now c) k = []"
  shows "notify (reapStale now c) = Suc (notify c)"
proof -
  obtain e where e: "e \<in> set (inflight c k)" using assms(2) by (cases "inflight c k") auto
  with assms(3) have "stale_entry (now - maxTokenLifetime c) e"
    by (auto simp: inflight_reapStale filter_empty_conv)
  moreover have "e_class e = k" using e assms(1) by (simp add: coord_wf_alt)
  moreover have "e \<in> set (inflight c ClassBlob) \<union> set (inflight c ClassLegacy)"
    using e by (cases k) auto
  ultimately show ?thesis using assms(3) unfolding notify_reapStale_eq by auto
qed

lemma notify_reapStale_mono: "notify c \<le> notify (reapStale now c)"
  by (simp add: reapStale_def Let_def)

section \<open>Invariants\<close>

lemma coord_wf_add_entry:
  "coord_wf c \<Longrightarrow> inflight c (other cl) = [] \<Longrightarrow> coord_wf (snd (add_entry cl now c))"
  unfolding coord_wf_alt using other_cases [of _ cl] by (auto simp: inflight_add_entry)

lemma coord_wf_release: "coord_wf c \<Longrightarrow> coord_wf (release cl i c)"
  unfolding coord_wf_alt by (auto simp: inflight_release)

lemma coord_wf_Done: "coord_wf c \<Longrightarrow> coord_wf (snd (Done t c))"
  by (simp add: Done_def coord_wf_release split: option.splits)

lemma coord_wf_Registered: "coord_wf c \<Longrightarrow> coord_wf (Registered t h c)"
  unfolding coord_wf_alt
  by (auto simp: Registered_def split: option.splits)

lemma coord_wf_reap: "coord_wf c \<Longrightarrow> coord_wf (reapStale now c)"
  unfolding coord_wf_alt inflight_reapStale by (metis filter.simps(1) filter_is_subset subsetD)

lemma wf_seed_loop:
  "inflightLegacy c = [] \<Longrightarrow> coord_wf c \<Longrightarrow>
     inflightLegacy (seed_loop clock n c) = [] \<and> coord_wf (seed_loop clock n c)"
proof (induction n)
  case (Suc n)
  then show ?case
    using inflight_add_entry [of ClassBlob "clock n" "seed_loop clock n c" ClassLegacy]
      coord_wf_add_entry [of "seed_loop clock n c" ClassBlob] by simp
qed simp

lemma coord_wf_seeded: "coord_wf (Seed clock p l (NewSubpoolCoordinator lifetime))"
proof -
  have "coord_wf (NewSubpoolCoordinator lifetime)" "inflightLegacy (NewSubpoolCoordinator lifetime) = []"
    by (simp_all add: coord_wf_def all_class NewSubpoolCoordinator_def)
  then show ?thesis by (simp add: Seed_def wf_seed_loop)
qed

lemma wakeup_inv_grow:
  assumes "wakeup_inv c ws" "notify c' = notify c"
    and "\<And>k. inflight c k \<noteq> [] \<Longrightarrow> inflight c' k \<noteq> []"
  shows "wakeup_inv c' ws"
  using assms unfolding wakeup_inv_def by auto

lemma wakeup_inv_add_entry: "wakeup_inv c ws \<Longrightarrow> wakeup_inv (snd (add_entry cl now c)) ws"
  by (erule wakeup_inv_grow) (auto simp: add_entry_fields inflight_add_entry)

lemma wakeup_inv_Registered: "wakeup_inv c ws \<Longrightarrow> wakeup_inv (Registered t h c) ws"
  by (erule wakeup_inv_grow) (auto simp: Registered_def split: option.splits)

lemma wakeup_inv_shrink:
  assumes "wakeup_inv c ws" "notify c \<le> notify c'"
    and "\<And>k. inflight c k \<noteq> [] \<Longrightarrow> inflight c' k = [] \<Longrightarrow> notify c < notify c'"
  shows "wakeup_inv c' ws"
  using assms unfolding wakeup_inv_def by fastforce

lemma wakeup_inv_release: "wakeup_inv c ws \<Longrightarrow> wakeup_inv (release cl i c) ws"
  by (erule wakeup_inv_shrink) (auto simp: notify_release inflight_release split: if_splits)

lemma wakeup_inv_Done: "wakeup_inv c ws \<Longrightarrow> wakeup_inv (snd (Done t c)) ws"
  by (simp add: Done_def wakeup_inv_release split: option.splits)

lemma wakeup_inv_reap: "coord_wf c \<Longrightarrow> wakeup_inv c ws \<Longrightarrow> wakeup_inv (reapStale now c) ws"
  by (erule wakeup_inv_shrink) (auto simp: notify_reapStale notify_reapStale_mono)

lemma wakeup_inv_subset: "wakeup_inv c ws \<Longrightarrow> set ws' \<subseteq> set ws \<Longrightarrow> wakeup_inv c ws'"
  unfolding wakeup_inv_def by auto

lemma wakeup_inv_block: "wakeup_inv c ws \<Longrightarrow> inflight c (other cl) \<noteq> [] \<Longrightarrow> wakeup_inv c ((cl, notify c) # ws)"
  unfolding wakeup_inv_def by auto

lemma coord_step_wf: "coord_step s t \<Longrightarrow> coord_wf (coord s) \<Longrightarrow> coord_wf (coord t)"
  by (induction rule: coord_step.induct)
    (auto simp: Enter_try_Inr coord_wf_add_entry coord_wf_Done coord_wf_Registered coord_wf_reap)

lemma coord_step_wakeup:
  "coord_step s t \<Longrightarrow> coord_wf (coord s) \<Longrightarrow> wakeup_inv (coord s) (waiters s) \<Longrightarrow>
     wakeup_inv (coord t) (waiters t)"
proof (induction rule: coord_step.induct)
  case (wake_ok cl g s now tok c')
  then show ?case
    using wakeup_inv_subset [OF wakeup_inv_add_entry set_remove1_subset] by (simp add: Enter_try_Inr)
next
  case (wake_block cl g s now g')
  then show ?case
    using wakeup_inv_block [OF wakeup_inv_subset [OF _ set_remove1_subset]] by (simp add: Enter_try_Inl)
next
  case (cancel s w)
  then show ?case using wakeup_inv_subset [OF _ set_remove1_subset] by simp
qed (simp_all add: Enter_try_Inr Enter_try_Inl wakeup_inv_add_entry wakeup_inv_block
    wakeup_inv_Registered wakeup_inv_Done wakeup_inv_reap)

lemma coord_reachable_inv: "coord_reachable s \<Longrightarrow> coord_wf (coord s) \<and> wakeup_inv (coord s) (waiters s)"
proof (induction rule: coord_reachable.induct)
  case (coord_init clock p l lifetime)
  then show ?case by (simp add: coord_wf_seeded wakeup_inv_def)
next
  case (coord_next s t)
  then show ?case using coord_step_wf coord_step_wakeup by blast
qed

section \<open>The coordinator provides the interface\<close>

lemma ids_fresh_add_entry:
  "ids_fresh c \<Longrightarrow> nextID c \<noteq> - 1 \<Longrightarrow> ids_fresh (snd (add_entry cl now c))"
  unfolding ids_fresh_def
  by (auto simp: inflight_add_entry add_entry_fields intro: less_imp_le [OF word_less_Suc_top])

lemma ids_fresh_new: "ids_fresh c \<Longrightarrow> nextID c \<noteq> - 1 \<Longrightarrow> nextID c + 1 \<notin> slot_ids c cl"
  unfolding ids_fresh_def slot_ids_def using word_less_Suc_top [of "nextID c"] by fastforce

lemma slot_ids_add_entry:
  "slot_ids (snd (add_entry cl now c)) k =
     (if k = cl then insert (nextID c + 1) (slot_ids c k) else slot_ids c k)"
  by (auto simp: slot_ids_def inflight_add_entry)

lemma slot_ids_release:
  "slot_ids (release cl i c) k = (if k = cl then slot_ids c k - {i} else slot_ids c k)"
  by (auto simp: slot_ids_def inflight_release)

lemma slot_ids_Registered: "slot_ids (Registered t h c) k = slot_ids c k"
  unfolding slot_ids_def using inflight_Registered(1) [of t h c k] by (metis list.set_map)

lemma ids_fresh_alt: "ids_fresh c \<longleftrightarrow> (\<forall>cl. \<forall>i \<in> slot_ids c cl. i \<le> nextID c)"
  by (simp add: ids_fresh_def slot_ids_def)

lemma nextID_release: "nextID (release cl i c) = nextID c"
  by (simp add: release_def Let_def)

lemma ids_fresh_Done: "ids_fresh c \<Longrightarrow> ids_fresh (snd (Done t c))"
  by (auto simp: ids_fresh_alt Done_def slot_ids_release nextID_release split: option.splits if_splits)

lemma ids_fresh_Registered: "ids_fresh c \<Longrightarrow> ids_fresh (Registered t h c)"
  unfolding ids_fresh_alt slot_ids_Registered by (auto simp: Registered_def split: option.splits)

interpretation slots: broadcast_slots "\<lambda>c. coord_wf c \<and> ids_fresh c" slot_ids "\<lambda>c. nextID c \<noteq> - 1"
  Enter_try "\<lambda>tok c. snd (Done (Some tok) c)" "\<lambda>tok. Registered (Some tok)"
proof unfold_locales
  fix c cl now tok c'
  assume "coord_wf c \<and> ids_fresh c" "nextID c \<noteq> - 1" "Enter_try cl now c = Inr (tok, c')"
  then show "coord_wf c' \<and> ids_fresh c'"
    and "slot_ids c' cl = insert (entryID tok) (slot_ids c cl) \<and> entryID tok \<notin> slot_ids c cl \<and>
      slot_ids c (other cl) = {} \<and> slot_ids c' (other cl) = {}"
    by (auto simp: Enter_try_Inr coord_wf_add_entry ids_fresh_add_entry slot_ids_add_entry ids_fresh_new)
      (auto simp: slot_ids_def)
next
  show "tokClass tok = cl \<and> \<not> settled tok" if "Enter_try cl now c = Inr (tok, c')" for cl now c tok c'
    using that by (simp add: Enter_try_Inr)
  show "coord_wf (snd (Done (Some tok) c)) \<and> ids_fresh (snd (Done (Some tok) c))"
    if "coord_wf c \<and> ids_fresh c" for tok c
    using that coord_wf_Done ids_fresh_Done by blast
  show "slot_ids (snd (Done (Some tok) c)) cl =
      (if cl = tokClass tok then slot_ids c cl - {entryID tok} else slot_ids c cl)"
    if "\<not> settled tok" for tok c cl
    using that by (simp add: Done_def slot_ids_release)
  show "coord_wf (Registered (Some tok) h c) \<and> ids_fresh (Registered (Some tok) h c)"
    if "coord_wf c \<and> ids_fresh c" for tok h c
    using that coord_wf_Registered ids_fresh_Registered by blast
  show "slot_ids (Registered (Some tok) h c) cl = slot_ids c cl" for tok h c cl
    by (rule slot_ids_Registered)
qed

section \<open>Properties\<close>

text \<open>
  C3. The coordinator's correctness invariant: in every interleaving of Enter, Registered, Done,
  Abandon, waiter cancellation and janitor passes, starting from a coordinator seeded at startup, blob
  and legacy broadcasts are never in flight at the same time, and the in-flight entries of a class
  carry that class.
\<close>

theorem coordinator_excludes_classes:
  assumes "coord_reachable s"
  shows "(Inflight ClassBlob (coord s) = 0 \<or> Inflight ClassLegacy (coord s) = 0) \<and>
         list_all (\<lambda>e. e_class e = cl) (inflight (coord s) cl)"
  using coord_reachable_inv [OF assms] by (auto simp: Inflight_def list_all_iff coord_wf_def)

lemma coord_example_seeded:
  "coord_reachable
     \<lparr>coord = \<lparr>maxTokenLifetime = 5, inflightBlob = [\<lparr>e_id = 1, e_class = ClassBlob, e_hash = 0, e_enteredAt = 0\<rparr>],
        inflightLegacy = [], notify = 0, nextID = 1, orphanCount = 0\<rparr>, waiters = [], tokens = []\<rparr>"
  using coord_reachable.coord_init [of "\<lambda>_. 0" 4 3 5]
  by (simp add: Seed_def NewSubpoolCoordinator_def add_entry_def Let_def)

lemma coord_example_waiting:
  "coord_reachable
     \<lparr>coord = \<lparr>maxTokenLifetime = 5, inflightBlob = [\<lparr>e_id = 1, e_class = ClassBlob, e_hash = 0, e_enteredAt = 0\<rparr>],
        inflightLegacy = [], notify = 0, nextID = 1, orphanCount = 0\<rparr>,
      waiters = [(ClassLegacy, 0)], tokens = []\<rparr>"
  using coord_reachable.coord_next [OF coord_example_seeded coord_step.arrive_block [of ClassLegacy 1]]
  by (simp add: Enter_try_def)

lemma coord_example_reaped:
  "coord_reachable
     \<lparr>coord = \<lparr>maxTokenLifetime = 5, inflightBlob = [], inflightLegacy = [], notify = 1, nextID = 1, orphanCount = 1\<rparr>,
      waiters = [(ClassLegacy, 0)], tokens = []\<rparr>"
  using coord_reachable.coord_next [OF coord_example_waiting coord_step.reap [of _ 6]]
  by (simp add: reapStale_def stale_entry_def Let_def)

theorem coordinator_excludes_classes_witness:
  "coord_reachable
     \<lparr>coord = \<lparr>maxTokenLifetime = 5, inflightBlob = [\<lparr>e_id = 1, e_class = ClassBlob, e_hash = 0, e_enteredAt = 0\<rparr>],
        inflightLegacy = [], notify = 0, nextID = 1, orphanCount = 0\<rparr>,
      waiters = [(ClassLegacy, 0)], tokens = []\<rparr> \<and>
   list_all (\<lambda>e. e_class e = ClassBlob) [\<lparr>e_id = 1, e_class = ClassBlob, e_hash = 0, e_enteredAt = 0\<rparr>]"
  using coordinator_excludes_classes [OF coord_example_waiting, of ClassBlob] coord_example_waiting by simp

text \<open>
  C37. No wake-up is lost: whenever the class a blocked Enter waits for has drained (its last token was
  released or the janitor evicted it), the channel that call selected on is already closed, and
  re-running its loop body takes a slot.
\<close>

theorem coordinator_no_lost_wakeup:
  assumes "coord_reachable s" "(cl, g) \<in> set (waiters s)" "inflight (coord s) (other cl) = []"
  shows "g < notify (coord s) \<and> (\<exists>tok c'. Enter_try cl now (coord s) = Inr (tok, c'))"
  using coord_reachable_inv [OF assms(1)] assms(2,3)
  by (fastforce simp: wakeup_inv_def Enter_try_Inr)

theorem coordinator_no_lost_wakeup_witness:
  "\<exists>tok c'. Enter_try ClassLegacy 7
     \<lparr>maxTokenLifetime = 5, inflightBlob = [], inflightLegacy = [], notify = 1, nextID = 1, orphanCount = 1\<rparr>
     = Inr (tok, c')"
  using coordinator_no_lost_wakeup [OF coord_example_reaped, of ClassLegacy 0 7] by simp

text \<open>
  A leaked token cannot wedge the other class for good: a janitor pass removes exactly the entries
  that entered more than maxTokenLifetime before it, counts each of them as an orphan, and closes the
  waiters' channel when it empties a class that was in use.
\<close>

theorem janitor_evicts_exactly_stale:
  assumes "coord_wf c"
  shows "inflight (reapStale now c) cl =
           filter (\<lambda>e. now - maxTokenLifetime c \<le> e_enteredAt e) (inflight c cl) \<and>
         orphanCount (reapStale now c) + int (Inflight ClassBlob (reapStale now c))
             + int (Inflight ClassLegacy (reapStale now c)) =
           orphanCount c + int (Inflight ClassBlob c) + int (Inflight ClassLegacy c) \<and>
         (inflight c cl \<noteq> [] \<longrightarrow> inflight (reapStale now c) cl = [] \<longrightarrow> notify c < notify (reapStale now c))"
proof (intro conjI impI)
  let ?cut = "now - maxTokenLifetime c"
  show "inflight (reapStale now c) cl = filter (\<lambda>e. ?cut \<le> e_enteredAt e) (inflight c cl)"
    by (simp add: inflight_reapStale stale_entry_def not_less)
  have "orphanCount (reapStale now c) = orphanCount c +
      int (length (filter (stale_entry ?cut) (inflightBlob c))) + int (length (filter (stale_entry ?cut) (inflightLegacy c)))"
    by (simp add: reapStale_def Let_def)
  then show "orphanCount (reapStale now c) + int (Inflight ClassBlob (reapStale now c))
             + int (Inflight ClassLegacy (reapStale now c)) =
           orphanCount c + int (Inflight ClassBlob c) + int (Inflight ClassLegacy c)"
    using length_filter_partition [of "stale_entry ?cut" "inflightBlob c"]
      length_filter_partition [of "stale_entry ?cut" "inflightLegacy c"]
      inflight_reapStale [of now c ClassBlob] inflight_reapStale [of now c ClassLegacy]
    by (simp add: Inflight_def)
  show "notify c < notify (reapStale now c)" if "inflight c cl \<noteq> []" "inflight (reapStale now c) cl = []"
    using notify_reapStale [OF assms that] by simp
qed

theorem janitor_evicts_exactly_stale_witness:
  "coord_wf \<lparr>maxTokenLifetime = 5, inflightBlob = [\<lparr>e_id = 1, e_class = ClassBlob, e_hash = 0, e_enteredAt = 0\<rparr>],
        inflightLegacy = [], notify = 0, nextID = 1, orphanCount = 0\<rparr> \<and>
   inflight (reapStale 6 \<lparr>maxTokenLifetime = 5, inflightBlob = [\<lparr>e_id = 1, e_class = ClassBlob, e_hash = 0, e_enteredAt = 0\<rparr>],
        inflightLegacy = [], notify = 0, nextID = 1, orphanCount = 0\<rparr>) ClassBlob = []"
proof -
  have wf: "coord_wf \<lparr>maxTokenLifetime = 5, inflightBlob = [\<lparr>e_id = 1, e_class = ClassBlob, e_hash = 0, e_enteredAt = 0\<rparr>],
        inflightLegacy = [], notify = 0, nextID = 1, orphanCount = 0\<rparr>"
    by (simp add: coord_wf_def all_class)
  show ?thesis using wf janitor_evicts_exactly_stale [OF wf, of 6 ClassBlob] by simp
qed

end
