(* ===== verification/Stuck_Nonce.thy ===== *)
theory Stuck_Nonce
  imports Go_Prelude "HOL-Library.AList"
begin

text \<open>
  The stuck-nonce tracker (internal/chain/stuck\_nonce.go): per-nonce counters of reservation
  rejections with expiry, and the replacement budget of the nonce bumped last. The entry map is an
  association list, the injected clock is passed in as the readings the method takes.
\<close>

record nonceState =
  hits :: int
  lastSeen :: int

record StuckNonceTracker =
  entries :: "(u64 \<times> nonceState) list"
  bumpAttempts :: int
  lastBumpNonce :: u64
  hasLastBumpNonce :: bool
  entryTTL :: int

definition defaultEntryTTL :: int where
  "defaultEntryTTL = 10 * Minute"

definition NewStuckNonceTracker :: StuckNonceTracker where
  "NewStuckNonceTracker =
     \<lparr>entries = [], bumpAttempts = 0, lastBumpNonce = 0, hasLastBumpNonce = False, entryTTL = defaultEntryTTL\<rparr>"

definition reapStaleLocked :: "int \<Rightarrow> StuckNonceTracker \<Rightarrow> StuckNonceTracker" where
  "reapStaleLocked now t =
     (let cutoff = now - entryTTL t
      in t\<lparr>entries := filter (\<lambda>(n, e). \<not> lastSeen e < cutoff) (entries t)\<rparr>)"

text \<open>\<open>now\<close> is the clock read by the reaping pass, \<open>now'\<close> the later one stored in the entry.\<close>

definition Record :: "int \<Rightarrow> int \<Rightarrow> u64 \<Rightarrow> StuckNonceTracker \<Rightarrow> int \<times> StuckNonceTracker" where
  "Record now now' n t =
     (let t1 = reapStaleLocked now t;
          entry = (case map_of (entries t1) n of Some e \<Rightarrow> e | None \<Rightarrow> \<lparr>hits = 0, lastSeen = 0\<rparr>);
          entry' = \<lparr>hits = hits entry + 1, lastSeen = now'\<rparr>
      in (hits entry', t1\<lparr>entries := AList.update n entry' (entries t1)\<rparr>))"

definition MaxConsecutiveHits :: "StuckNonceTracker \<Rightarrow> int" where
  "MaxConsecutiveHits t = foldl (\<lambda>maxHits (n, e). if hits e > maxHits then hits e else maxHits) 0 (entries t)"

definition HitsAt :: "u64 \<Rightarrow> StuckNonceTracker \<Rightarrow> int" where
  "HitsAt n t = (case map_of (entries t) n of Some e \<Rightarrow> hits e | None \<Rightarrow> 0)"

definition LastNonce :: "StuckNonceTracker \<Rightarrow> u64 \<times> bool" where
  "LastNonce t =
     (case foldl (\<lambda>(latest, lastN, observed) (n, e).
          if \<not> observed \<or> lastSeen e > latest then (lastSeen e, n, True) else (latest, lastN, observed))
        (0, 0, False) (entries t) of (latest, lastN, observed) \<Rightarrow> (lastN, observed))"

definition BumpAttemptsUsedFor :: "u64 \<Rightarrow> StuckNonceTracker \<Rightarrow> int" where
  "BumpAttemptsUsedFor n t =
     (if \<not> hasLastBumpNonce t \<or> lastBumpNonce t \<noteq> n then 0 else bumpAttempts t)"

definition IncrementBumpAttemptsFor :: "u64 \<Rightarrow> StuckNonceTracker \<Rightarrow> StuckNonceTracker" where
  "IncrementBumpAttemptsFor n t =
     (let t1 = (if \<not> hasLastBumpNonce t \<or> lastBumpNonce t \<noteq> n
                then t\<lparr>bumpAttempts := 0, lastBumpNonce := n, hasLastBumpNonce := True\<rparr> else t)
      in t1\<lparr>bumpAttempts := bumpAttempts t1 + 1\<rparr>)"

definition Clear :: "StuckNonceTracker \<Rightarrow> StuckNonceTracker" where
  "Clear t = t\<lparr>entries := [], bumpAttempts := 0, hasLastBumpNonce := False, lastBumpNonce := 0\<rparr>"

definition Size :: "StuckNonceTracker \<Rightarrow> nat" where
  "Size t = length (entries t)"

section \<open>Facts\<close>

definition keys_distinct :: "StuckNonceTracker \<Rightarrow> bool" where
  "keys_distinct t \<longleftrightarrow> distinct (map fst (entries t))"

lemma keys_distinct_reap: "keys_distinct t \<Longrightarrow> keys_distinct (reapStaleLocked now t)"
  by (simp add: keys_distinct_def reapStaleLocked_def Let_def distinct_map_filter_fst)

lemma keys_distinct_Record: "keys_distinct t \<Longrightarrow> keys_distinct (snd (Record now now' n t))"
  using keys_distinct_reap [of t now]
  by (simp add: keys_distinct_def Record_def Let_def distinct_update)

lemma map_of_filter_Some:
  "distinct (map fst xs) \<Longrightarrow> map_of (filter (\<lambda>(k, v). P v) xs) k =
     (case map_of xs k of Some v \<Rightarrow> if P v then Some v else None | None \<Rightarrow> None)"
  by (induction xs) (auto simp: map_of_eq_None_iff image_iff split: option.splits)

lemma HitsAt_Record:
  "keys_distinct t \<Longrightarrow> HitsAt m (snd (Record now now' n t)) =
     (let old = (case map_of (entries t) m of
                   Some e \<Rightarrow> if lastSeen e < now - entryTTL t then 0 else hits e | None \<Rightarrow> 0)
      in if m = n then old + 1 else old)"
  by (auto simp: HitsAt_def Record_def reapStaleLocked_def Let_def keys_distinct_def
      map_of_filter_Some update_conv' split: option.splits)

text \<open>A run of rejections: \<open>(time, nonce)\<close> pairs in order.\<close>

fun record_all :: "(int \<times> u64) list \<Rightarrow> StuckNonceTracker \<Rightarrow> StuckNonceTracker" where
  "record_all [] t = t"
| "record_all ((now, n) # rs) t = record_all rs (snd (Record now now n t))"

lemma Record_entryTTL [simp]: "entryTTL (snd (Record now now' n t)) = entryTTL t"
  by (simp add: Record_def reapStaleLocked_def Let_def)

lemma set_AList_update: "set (AList.update k v al) \<subseteq> insert (k, v) (set al)"
  by (induction al) auto

lemma Record_lastSeen:
  "list_all (\<lambda>(k, e). lo \<le> lastSeen e) (entries t) \<Longrightarrow> lo \<le> now' \<Longrightarrow>
     list_all (\<lambda>(k, e). lo \<le> lastSeen e) (entries (snd (Record now now' n t)))"
  by (auto simp: Record_def reapStaleLocked_def Let_def list_all_iff dest!: set_AList_update [THEN subsetD])

lemma HitsAt_Record_in_window:
  assumes "keys_distinct t" "list_all (\<lambda>(k, e). now - entryTTL t \<le> lastSeen e) (entries t)"
  shows "HitsAt m (snd (Record now now' n t)) = HitsAt m t + (if m = n then 1 else 0)"
proof -
  have "\<not> lastSeen e < now - entryTTL t" if "map_of (entries t) m = Some e" for e
    using assms(2) map_of_SomeD [OF that] by (auto simp: list_all_iff)
  then show ?thesis
    unfolding HitsAt_Record [OF assms(1)] by (auto simp: HitsAt_def Let_def split: option.splits)
qed

lemma HitsAt_record_all:
  assumes "keys_distinct t" "list_all (\<lambda>(k, e). lo \<le> lastSeen e) (entries t)"
    and "list_all (\<lambda>(now, n). lo \<le> now \<and> now \<le> lo + entryTTL t) rs"
  shows "HitsAt m (record_all rs t) = HitsAt m t + int (count_list (map snd rs) m)"
  using assms
proof (induction rs arbitrary: t)
  case (Cons r rs)
  obtain now n where r: "r = (now, n)" by (cases r)
  have "list_all (\<lambda>(k, e). now - entryTTL t \<le> lastSeen e) (entries t)"
    using Cons.prems(2,3) by (auto simp: r list_all_iff)
  then have step: "HitsAt m (snd (Record now now n t)) = HitsAt m t + (if m = n then 1 else 0)"
    by (rule HitsAt_Record_in_window [OF Cons.prems(1)])
  show ?case
    using Cons.IH [OF keys_distinct_Record Record_lastSeen] Cons.prems step by (auto simp: r)
qed simp

section \<open>Properties\<close>

text \<open>
  Rejections at different nonces are counted independently: after any interleaving of Record calls
  on a fresh tracker whose times lie within one entry TTL of each other, the hit count at a nonce is
  the number of rejections recorded at it, so concurrent failures at K and K+1 cannot hide each other
  from the replacement threshold.
\<close>

theorem interleaved_rejections_counted:
  assumes "list_all (\<lambda>(now, n). lo \<le> now \<and> now \<le> lo + defaultEntryTTL) rs"
  shows "HitsAt m (record_all rs NewStuckNonceTracker) = int (count_list (map snd rs) m)"
  using HitsAt_record_all [of NewStuckNonceTracker lo rs m] assms
  by (simp add: keys_distinct_def NewStuckNonceTracker_def HitsAt_def)

theorem interleaved_rejections_counted_witness:
  "HitsAt 5 (record_all [(10, 5), (20, 6), (30, 5), (40, 6), (50, 5)] NewStuckNonceTracker) = 3"
  using interleaved_rejections_counted [of 10 "[(10, 5), (20, 6), (30, 5), (40, 6), (50, 5)]" 5]
  by (simp add: defaultEntryTTL_def)

text \<open>
  Every stuck nonce has its own replacement budget: k further attempts recorded for n raise its
  used budget by exactly k, recording an attempt for another nonce makes n's budget fresh again, and
  Clear empties both the counters and the budget.
\<close>

theorem bump_budget_per_nonce:
  "BumpAttemptsUsedFor n ((IncrementBumpAttemptsFor n ^^ k) t) = BumpAttemptsUsedFor n t + int k \<and>
   (m \<noteq> n \<longrightarrow> BumpAttemptsUsedFor n (IncrementBumpAttemptsFor m t) = 0 \<and>
     BumpAttemptsUsedFor m (IncrementBumpAttemptsFor m t) = BumpAttemptsUsedFor m t + 1) \<and>
   HitsAt n (Clear t) = 0 \<and> BumpAttemptsUsedFor n (Clear t) = 0"
proof -
  have "BumpAttemptsUsedFor n (IncrementBumpAttemptsFor n u) = BumpAttemptsUsedFor n u + 1" for n u
    by (simp add: BumpAttemptsUsedFor_def IncrementBumpAttemptsFor_def Let_def)
  then have "BumpAttemptsUsedFor n ((IncrementBumpAttemptsFor n ^^ k) t) = BumpAttemptsUsedFor n t + int k"
    by (induction k) simp_all
  then show ?thesis
    by (auto simp: BumpAttemptsUsedFor_def IncrementBumpAttemptsFor_def Let_def HitsAt_def Clear_def)
qed

theorem bump_budget_per_nonce_witness:
  "BumpAttemptsUsedFor 4 ((IncrementBumpAttemptsFor 4 ^^ 3) NewStuckNonceTracker) = 3 \<and>
   BumpAttemptsUsedFor 4 (IncrementBumpAttemptsFor 5 ((IncrementBumpAttemptsFor 4 ^^ 3) NewStuckNonceTracker)) = 0"
proof -
  have zero: "BumpAttemptsUsedFor 4 NewStuckNonceTracker = 0"
    by (simp add: BumpAttemptsUsedFor_def NewStuckNonceTracker_def)
  show ?thesis
    using bump_budget_per_nonce [of 4 3 NewStuckNonceTracker 5] zero
      bump_budget_per_nonce [of 4 0 "(IncrementBumpAttemptsFor 4 ^^ 3) NewStuckNonceTracker" 5]
    by simp
qed

end
