(* ===== verification/Send_Errors.thy ===== *)
theory Send_Errors
  imports Go_Prelude
begin

text \<open>
  Classification of transaction failures: the send-error predicates of internal/chain/send_errors.go,
  the pause decoder of internal/chain/pause.go, and the pause test the release scheduler applies
  (internal/release/scheduler.go). All are pure functions of the error value or of the answers of the
  node.
\<close>

section \<open>send\_errors.go\<close>

definition rpcCodes :: "int list" where
  "rpcCodes = [-32602, -38010, -38011, -38013, -38014, -38015, -38024, -38025]"

definition alreadyReservedSubstr :: string where
  "alreadyReservedSubstr = ''address already reserved''"

definition nonceTooHighSubstr :: string where
  "nonceTooHighSubstr = ''nonce too high''"

definition nonceTooLowSubstr :: string where
  "nonceTooLowSubstr = ''nonce too low''"

definition IsAlreadyReservedError :: "go_error option \<Rightarrow> bool" where
  "IsAlreadyReservedError err =
     (case err of None \<Rightarrow> False | Some e \<Rightarrow> strings_Contains (err_msg e) alreadyReservedSubstr)"

definition IsNonceDesyncError :: "go_error option \<Rightarrow> bool" where
  "IsNonceDesyncError err =
     (case err of None \<Rightarrow> False
      | Some e \<Rightarrow> strings_Contains (err_msg e) alreadyReservedSubstr \<or>
                 strings_Contains (err_msg e) nonceTooHighSubstr \<or>
                 strings_Contains (err_msg e) nonceTooLowSubstr)"

definition ShouldResetNonceOnSendError :: "go_error option \<Rightarrow> bool" where
  "ShouldResetNonceOnSendError err =
     (if IsNonceDesyncError err then True
      else case err of None \<Rightarrow> False
        | Some e \<Rightarrow> (case err_rpc e of None \<Rightarrow> False | Some code \<Rightarrow> code \<in> set rpcCodes))"

section \<open>pause.go\<close>

text \<open>
  The transaction as the decoder reads it: its receiver (\<open>None\<close> for contract creation). The replay
  \<open>CallContract\<close> is the argument \<open>call\<close>: \<open>None\<close> when it succeeds, otherwise the revert data that
  \<open>ethclient.RevertErrorData\<close> finds in the error, if it finds any.
\<close>

type_synonym bytes = "byte list"

definition enforcedPauseSelector :: bytes where
  "enforcedPauseSelector = [0xd9, 0x3c, 0x06, 0x65]"

definition decodePauseRevert :: "bool \<Rightarrow> address option option \<Rightarrow> bytes option option \<Rightarrow> bool" where
  "decodePauseRevert callerNil tx call =
     (if callerNil then False
      else case tx of None \<Rightarrow> False
        | Some None \<Rightarrow> False
        | Some (Some to) \<Rightarrow>
            (case call of None \<Rightarrow> False
             | Some None \<Rightarrow> False
             | Some (Some revertData) \<Rightarrow>
                 (if length revertData < 4 then False else take 4 revertData = enforcedPauseSelector)))"

section \<open>isPauseError\<close>

definition isPauseError :: "go_error option \<Rightarrow> bool" where
  "isPauseError err =
     (case err of None \<Rightarrow> False
      | Some e \<Rightarrow> (if errors_Is e ErrContractPaused then True
                  else strings_Contains (strings_ToLower (err_msg e)) ''pausable: paused''))"

section \<open>Facts\<close>

lemma strings_Contains_Cons [intro]: "strings_Contains s sub \<Longrightarrow> strings_Contains (c # s) sub"
  unfolding strings_Contains_def by (rule sublist_Cons_right [THEN iffD2]) simp

lemma strings_Contains_prefix [intro]: "strings_Contains s sub \<Longrightarrow> strings_Contains (p @ s) sub"
  by (induction p) auto

lemma isPauseError_wrapf: "isPauseError (Some e) \<Longrightarrow> isPauseError (Some (wrapf p e))"
  by (auto simp: isPauseError_def wrapf_def errors_Is_def strings_ToLower_def
      split: if_splits)

lemma desync_wrapf: "IsNonceDesyncError (Some e) \<Longrightarrow> IsNonceDesyncError (Some (wrapf p e))"
  by (auto simp: IsNonceDesyncError_def wrapf_def)

lemma reserved_desync: "IsAlreadyReservedError e \<Longrightarrow> IsNonceDesyncError e"
  by (auto simp: IsAlreadyReservedError_def IsNonceDesyncError_def split: option.splits)

text \<open>
  Wrapping an error with \<open>%w\<close>, as every layer above SendTransaction does, never loses its
  classification: a reservation rejection, a nonce desync, a definite pre-broadcast rejection or a
  pause stays one, and every reservation rejection is a desync that makes the nonce manager reset.
\<close>

theorem send_error_classes_survive_wrapping:
  "(IsAlreadyReservedError (Some e) \<longrightarrow> IsAlreadyReservedError (Some (wrapf p e)) \<and>
      ShouldResetNonceOnSendError (Some e)) \<and>
   (ShouldResetNonceOnSendError (Some e) \<longrightarrow> ShouldResetNonceOnSendError (Some (wrapf p e))) \<and>
   (isPauseError (Some e) \<longrightarrow> isPauseError (Some (wrapf p e)))"
proof (intro conjI impI)
  assume r: "IsAlreadyReservedError (Some e)"
  then show "IsAlreadyReservedError (Some (wrapf p e))"
    by (auto simp: IsAlreadyReservedError_def wrapf_def)
  show "ShouldResetNonceOnSendError (Some e)"
    using reserved_desync [OF r] by (simp add: ShouldResetNonceOnSendError_def)
next
  assume "ShouldResetNonceOnSendError (Some e)"
  then show "ShouldResetNonceOnSendError (Some (wrapf p e))"
    using desync_wrapf [of e p] by (auto simp: ShouldResetNonceOnSendError_def split: if_splits)
qed (rule isPauseError_wrapf)

theorem send_error_classes_survive_wrapping_witness:
  "IsAlreadyReservedError (Some (errorf ''address already reserved'')) \<and>
   ShouldResetNonceOnSendError (Some (wrapf ''send Ack tx'' (errorf ''address already reserved'')))"
proof -
  have r: "IsAlreadyReservedError (Some (errorf ''address already reserved''))"
    by (simp add: IsAlreadyReservedError_def errorf_def strings_Contains_def alreadyReservedSubstr_def)
  with send_error_classes_survive_wrapping [of "errorf ''address already reserved''" "''send Ack tx''"]
  show ?thesis by blast
qed

end
