(* ===== verification/Tx_Submit.thy ===== *)
theory Tx_Submit
  imports Nonce_Manager Subpool_Coordinator Stuck_Nonce Send_Errors
begin

text \<open>
  Transaction submission of the chain client (internal/chain/client.go): broadcastPreparedTx,
  resendWithFreshNonce, awaitMined, PendingTx.Wait and submitPreparedTx, over the shared nonce manager,
  coordinator and stuck-nonce tracker.

  The execution node, the contract bindings and the contexts are outside the program: their answers are
  the fields of \<open>bcast_env\<close> and \<open>wait_env\<close>. The functions are the sequential view of one goroutine;
  an Enter that finds the blob class busy in this view ends with the context's error, and what other
  goroutines do in between is covered by the step relations of the components. \<open>ts_wire\<close> is a ghost
  list of every SendTransaction call with its result, newest first; a call that returned an error may still have reached the
  node.
\<close>

section \<open>State and environment\<close>

record tx =
  tx_nonce :: u64
  tx_hash :: hash
  tx_to :: "address option"

record receipt =
  r_status :: u64
  r_txHash :: hash
  r_blockNumber :: int

record tx_state =
  ts_nonce :: nonce_mgr
  ts_coord :: coordinator
  ts_stuck :: StuckNonceTracker
  ts_wire :: "(tx \<times> go_error option) list"

record bcast_env =
  be_gasPrice :: "go_error + int"
  be_now :: int
  be_ctxErr :: go_error
  be_auth :: "go_error option"
  be_fetch :: "go_error + u64"
  be_fetch2 :: "go_error + u64"
  be_build :: "u64 \<Rightarrow> int \<Rightarrow> int option \<Rightarrow> go_error + tx"
  be_ctx :: "go_error option"
  be_send :: "tx \<Rightarrow> go_error option"
  be_resend :: "tx \<Rightarrow> go_error option"
  be_clock :: int

record wait_env =
  we_ctxDeadline :: "int option"
  we_mined :: "int \<Rightarrow> tx \<Rightarrow> go_error + receipt option"
  we_replay :: "bytes option option"

datatype 'a outcome = Ret 'a | Panic

record PendingTx =
  pt_tx :: tx
  pt_name :: string
  pt_token :: BroadcastToken
  pt_waitErr :: "go_error option outcome option"

section \<open>Helpers\<close>

definition adjustGasPrice :: "int \<Rightarrow> int \<Rightarrow> int" where
  "adjustGasPrice gasPriceMulBps basePrice = (basePrice * gasPriceMulBps) div 10000"

definition receiptStatusSuccessful :: u64 where
  "receiptStatusSuccessful = 1"

definition checkReceipt :: "receipt option \<Rightarrow> string \<Rightarrow> go_error option" where
  "checkReceipt r txName =
     (case r of None \<Rightarrow> Some (errorf (txName @ '': WaitMined returned nil receipt''))
      | Some rc \<Rightarrow>
          (if r_status rc \<noteq> receiptStatusSuccessful
           then Some (errorf (txName @ '' transaction reverted (status 0)'')) else None))"

text \<open>
  The call evaluates \<open>receipt.BlockNumber\<close> first, so a nil receipt panics. The client passes its
  \<open>*ethclient.Client\<close> as the interface argument, which is never the nil interface.
\<close>

definition classifyReceiptRevert ::
  "wait_env \<Rightarrow> string \<Rightarrow> tx \<Rightarrow> receipt option \<Rightarrow> go_error \<Rightarrow> go_error outcome" where
  "classifyReceiptRevert env txName t r revertErr =
     (case r of None \<Rightarrow> Panic
      | Some rc \<Rightarrow>
          (if \<not> decodePauseRevert False (Some (tx_to t)) (we_replay env) then Ret revertErr
           else Ret (wrapf (txName @ '' transaction reverted (status 0)'')
                  (sentinel_err ''contract paused'' ErrContractPaused))))"

definition defaultMinedWait :: int where
  "defaultMinedWait = 90 * Second"

definition minedBudget :: "int \<Rightarrow> int option \<Rightarrow> int" where
  "minedBudget minedWait ctxDeadline =
     (case ctxDeadline of Some d \<Rightarrow> d
      | None \<Rightarrow> (if minedWait = 0 then defaultMinedWait else minedWait))"

section \<open>Broadcast\<close>

definition abandon :: "BroadcastToken \<Rightarrow> tx_state \<Rightarrow> tx_state" where
  "abandon tok st = st\<lparr>ts_coord := snd (Abandon (Some tok) (ts_coord st))\<rparr>"

definition release_nonce :: "u64 \<Rightarrow> bool \<Rightarrow> tx_state \<Rightarrow> tx_state" where
  "release_nonce n consumed st = st\<lparr>ts_nonce := ReleaseNonce n consumed (ts_nonce st)\<rparr>"

definition reset_nonce :: "tx_state \<Rightarrow> tx_state" where
  "reset_nonce st = st\<lparr>ts_nonce := ResetNonce (ts_nonce st)\<rparr>"

definition resendWithFreshNonce ::
  "bcast_env \<Rightarrow> int \<Rightarrow> int option \<Rightarrow> u64 \<Rightarrow> tx_state \<Rightarrow> (tx \<times> u64) option \<times> tx_state" where
  "resendWithFreshNonce env gp value staleNonce st =
     (let st1 = reset_nonce st in
      case NextNonce (be_fetch2 env) (ts_nonce st1) of
        (Inl e, nm) \<Rightarrow> (None, st1\<lparr>ts_nonce := nm\<rparr>)
      | (Inr freshNonce, nm) \<Rightarrow>
          (let st2 = st1\<lparr>ts_nonce := nm\<rparr> in
           case be_build env freshNonce gp value of
             Inl e \<Rightarrow> (None, release_nonce freshNonce False st2)
           | Inr t \<Rightarrow>
               (let st3 = st2\<lparr>ts_wire := (t, be_resend env t) # ts_wire st2\<rparr> in
                case be_resend env t of
                  Some e \<Rightarrow> (None, release_nonce freshNonce False st3)
                | None \<Rightarrow> (Some (t, freshNonce), release_nonce staleNonce False st3))))"

text \<open>
  The tail of broadcastPreparedTx from the send onwards; \<open>nonce\<close> is the lease, \<open>t\<close> the built
  transaction. The deferred ReleaseNonce runs before the deferred Abandon.
\<close>

definition send_failed ::
  "string \<Rightarrow> bcast_env \<Rightarrow> go_error \<Rightarrow> u64 \<Rightarrow> tx \<Rightarrow> tx_state \<Rightarrow> go_error \<times> tx_state" where
  "send_failed txName env err nonce t st =
     (let definite = ShouldResetNonceOnSendError (Some err);
          st1 = (if definite then reset_nonce st else st);
          st2 = (if IsAlreadyReservedError (Some err)
                 then st1\<lparr>ts_stuck := snd (Record (be_clock env) (be_clock env) (tx_nonce t) (ts_stuck st1))\<rparr>
                 else st1)
      in (wrapf (''send '' @ txName @ '' tx'') err, release_nonce nonce (\<not> definite) st2))"

definition broadcast_send ::
  "string \<Rightarrow> bcast_env \<Rightarrow> int \<Rightarrow> int option \<Rightarrow> BroadcastToken \<Rightarrow> u64 \<Rightarrow> tx \<Rightarrow> tx_state \<Rightarrow>
     (go_error + PendingTx) \<times> tx_state" where
  "broadcast_send txName env gp value tok nonce t st =
     (let pending = (\<lambda>t' nonce' st'.
            (Inr \<lparr>pt_tx = t', pt_name = txName, pt_token = tok, pt_waitErr = None\<rparr>,
             release_nonce nonce' True
               (st'\<lparr>ts_coord := Registered (Some tok) (tx_hash t') (ts_coord st')\<rparr>)));
          failed = (\<lambda>err st'.
            (case send_failed txName env err nonce t st' of (e, st'') \<Rightarrow> (Inl e, abandon tok st'')));
          st1 = st\<lparr>ts_wire := (t, be_send env t) # ts_wire st\<rparr>
      in case be_send env t of
           None \<Rightarrow> pending t nonce st1
         | Some err \<Rightarrow>
             (if IsNonceDesyncError (Some err)
              then (case resendWithFreshNonce env gp value nonce st1 of
                      (Some (t', nonce'), st') \<Rightarrow> pending t' nonce' st'
                    | (None, st') \<Rightarrow> failed err st')
              else failed err st1))"

definition broadcastPreparedTx ::
  "int \<Rightarrow> string \<Rightarrow> int option \<Rightarrow> bcast_env \<Rightarrow> tx_state \<Rightarrow> (go_error + PendingTx) \<times> tx_state" where
  "broadcastPreparedTx mulBps txName value env st =
     (case be_gasPrice env of
        Inl e \<Rightarrow> (Inl (wrapf ''suggest gas price'' e), st)
      | Inr gasPrice \<Rightarrow>
          (case Enter_try ClassLegacy (be_now env) (ts_coord st) of
             Inl g \<Rightarrow> (Inl (wrapf (''wait for '' @ txName @ '' broadcast slot'') (be_ctxErr env)), st)
           | Inr (tok, c1) \<Rightarrow>
               (let st1 = st\<lparr>ts_coord := c1\<rparr>; gp = adjustGasPrice mulBps gasPrice in
                case be_auth env of
                  Some e \<Rightarrow> (Inl (wrapf ''create transactor'' e), abandon tok st1)
                | None \<Rightarrow>
                    (case NextNonce (be_fetch env) (ts_nonce st1) of
                       (Inl e, nm) \<Rightarrow>
                         (Inl (wrapf ''nonce manager'' e), abandon tok (st1\<lparr>ts_nonce := nm\<rparr>))
                     | (Inr nonce, nm) \<Rightarrow>
                         (let st2 = st1\<lparr>ts_nonce := nm\<rparr> in
                          case be_build env nonce gp value of
                            Inl e \<Rightarrow> (Inl (wrapf (txName @ '' transaction'') e),
                              abandon tok (release_nonce nonce False st2))
                          | Inr t \<Rightarrow>
                              (case be_ctx env of
                                 Some e \<Rightarrow> (Inl (wrapf (''broadcast '' @ txName @ '' tx'') e),
                                   abandon tok (release_nonce nonce False st2))
                               | None \<Rightarrow> broadcast_send txName env gp value tok nonce t st2))))))"

section \<open>Waiting\<close>

definition awaitMined ::
  "int \<Rightarrow> wait_env \<Rightarrow> string \<Rightarrow> tx \<Rightarrow> BroadcastToken \<Rightarrow> tx_state \<Rightarrow> go_error option outcome \<times> tx_state" where
  "awaitMined minedWait env txName t tok st =
     (let res = (case we_mined env (minedBudget minedWait (we_ctxDeadline env)) t of
            Inl e \<Rightarrow> (Ret (Some (wrapf (''wait for '' @ txName @ '' tx'') e)), reset_nonce st)
          | Inr r \<Rightarrow>
              (case checkReceipt r txName of
                 Some err \<Rightarrow>
                   (case classifyReceiptRevert env txName t r err of
                      Ret e \<Rightarrow> (Ret (Some e), st) | Panic \<Rightarrow> (Panic, st))
               | None \<Rightarrow> (Ret None, st\<lparr>ts_stuck := Clear (ts_stuck st)\<rparr>)))
      in case res of (r, st') \<Rightarrow> (r, st'\<lparr>ts_coord := snd (Done (Some tok) (ts_coord st'))\<rparr>))"

definition PendingTx_Wait ::
  "int \<Rightarrow> wait_env \<Rightarrow> PendingTx \<Rightarrow> tx_state \<Rightarrow> go_error option outcome \<times> PendingTx \<times> tx_state" where
  "PendingTx_Wait minedWait env p st =
     (case pt_waitErr p of
        Some r \<Rightarrow> (r, p, st)
      | None \<Rightarrow>
          (case awaitMined minedWait env (pt_name p) (pt_tx p) (pt_token p) st of
             (r, st') \<Rightarrow> (r, p\<lparr>pt_waitErr := Some r\<rparr>, st')))"

definition submitPreparedTx ::
  "int \<Rightarrow> int \<Rightarrow> string \<Rightarrow> int option \<Rightarrow> bcast_env \<Rightarrow> wait_env \<Rightarrow> tx_state \<Rightarrow> go_error option outcome \<times> tx_state" where
  "submitPreparedTx mulBps minedWait txName value env wenv st =
     (case broadcastPreparedTx mulBps txName value env st of
        (Inl e, st') \<Rightarrow> (Ret (Some e), st')
      | (Inr p, st') \<Rightarrow> (case PendingTx_Wait minedWait wenv p st' of (r, p', st'') \<Rightarrow> (r, st'')))"

section \<open>Slots\<close>

abbreviation slots_ok :: "tx_state \<Rightarrow> bool" where
  "slots_ok st \<equiv> coord_wf (ts_coord st) \<and> ids_fresh (ts_coord st)"

lemma ts_coord_frame [simp]:
  "ts_coord (release_nonce n b st) = ts_coord st" "ts_coord (reset_nonce st) = ts_coord st"
  "ts_nonce (abandon tok st) = ts_nonce st"
  "ts_nonce (release_nonce n b st) = ReleaseNonce n b (ts_nonce st)"
  "ts_nonce (reset_nonce st) = ResetNonce (ts_nonce st)"
  "ts_coord (abandon tok st) = snd (Done (Some tok) (ts_coord st))"
  by (simp_all add: release_nonce_def reset_nonce_def abandon_def Abandon_def)

lemma resend_coord [simp]: "ts_coord (snd (resendWithFreshNonce env gp v n st)) = ts_coord st"
  by (simp add: resendWithFreshNonce_def Let_def split: prod.splits sum.splits option.splits)

lemma send_failed_coord [simp]: "ts_coord (snd (send_failed nm env e n t st)) = ts_coord st"
  by (simp add: send_failed_def Let_def)

lemma send_failed_nonce:
  "ts_nonce (snd (send_failed nm env e n t st)) =
     (if ShouldResetNonceOnSendError (Some e) then ReleaseNonce n False (ResetNonce (ts_nonce st))
      else ReleaseNonce n True (ts_nonce st))"
  by (simp add: send_failed_def Let_def)

text \<open>What the tail of a broadcast does to the coordinator: give the slot back, or register its hash.\<close>

definition slot_effect :: "BroadcastToken \<Rightarrow> coordinator \<Rightarrow> (go_error + PendingTx) \<times> tx_state \<Rightarrow> bool" where
  "slot_effect tok c x \<longleftrightarrow>
     (case fst x of
        Inl e \<Rightarrow> ts_coord (snd x) = snd (Done (Some tok) c)
      | Inr p \<Rightarrow> pt_token p = tok \<and> pt_waitErr p = None \<and>
          (\<exists>h. ts_coord (snd x) = Registered (Some tok) h c))"

lemma slot_effect_abandon: "ts_coord st = c \<Longrightarrow> slot_effect tok c (Inl e, abandon tok st)"
  by (simp add: slot_effect_def)

lemma broadcast_send_coord: "slot_effect tok (ts_coord st) (broadcast_send nm env gp v tok n t st)"
proof -
  let ?st = "st\<lparr>ts_wire := (t, be_send env t) # ts_wire st\<rparr>"
  obtain o' st1 where r: "resendWithFreshNonce env gp v n ?st = (o', st1)"
    by (cases "resendWithFreshNonce env gp v n ?st")
  have c: "ts_coord st1 = ts_coord st" using resend_coord [of env gp v n ?st] by (simp add: r)
  show ?thesis
    by (cases "be_send env t"; cases o')
      (use r in \<open>auto simp: broadcast_send_def Let_def c slot_effect_def case_prod_beta\<close>)
qed

lemma broadcast_coord:
  "ts_coord (snd (broadcastPreparedTx mul nm v env st)) = ts_coord st \<and>
     (\<exists>e. fst (broadcastPreparedTx mul nm v env st) = Inl e) \<or>
   (\<exists>tok c1. Enter_try ClassLegacy (be_now env) (ts_coord st) = Inr (tok, c1) \<and>
      slot_effect tok c1 (broadcastPreparedTx mul nm v env st))"
proof (cases "be_gasPrice env")
  case (Inl e)
  then show ?thesis by (simp add: broadcastPreparedTx_def)
next
  case gp: (Inr gp)
  show ?thesis
  proof (cases "Enter_try ClassLegacy (be_now env) (ts_coord st)")
    case (Inl g)
    with gp show ?thesis by (simp add: broadcastPreparedTx_def)
  next
    case (Inr x)
    obtain tok c1 where x: "x = (tok, c1)" by (cases x)
    have "slot_effect tok c1 (broadcastPreparedTx mul nm v env st)"
      using gp Inr x broadcast_send_coord [of tok]
      by (auto simp: broadcastPreparedTx_def Let_def slot_effect_abandon
          split: option.split sum.split prod.split) (metis tx_state.select_convs(2) tx_state.surjective tx_state.update_convs(1,2))+
    with Inr x show ?thesis by blast
  qed
qed

lemma awaitMined_coord:
  "ts_coord (snd (awaitMined mw env nm t tok st)) = snd (Done (Some tok) (ts_coord st))"
  by (auto simp: awaitMined_def Let_def split: sum.splits option.splits prod.splits outcome.splits)

lemma submit_coord:
  "ts_coord (snd (submitPreparedTx mul mw nm v env wenv st)) = ts_coord st \<or>
   (\<exists>tok c1. Enter_try ClassLegacy (be_now env) (ts_coord st) = Inr (tok, c1) \<and>
     (ts_coord (snd (submitPreparedTx mul mw nm v env wenv st)) = snd (Done (Some tok) c1) \<or>
      (\<exists>h. ts_coord (snd (submitPreparedTx mul mw nm v env wenv st)) =
             snd (Done (Some tok) (Registered (Some tok) h c1)))))"
proof -
  obtain r st' where b: "broadcastPreparedTx mul nm v env st = (r, st')"
    by (cases "broadcastPreparedTx mul nm v env st")
  note bc = broadcast_coord [of mul nm v env st, unfolded b, simplified]
  show ?thesis
  proof (cases r)
    case (Inl e)
    with b bc show ?thesis by (auto simp: submitPreparedTx_def slot_effect_def)
  next
    case (Inr p)
    with bc have "pt_waitErr p = None" by (auto simp: slot_effect_def)
    then have "snd (submitPreparedTx mul mw nm v env wenv st) =
        snd (awaitMined mw wenv (pt_name p) (pt_tx p) (pt_token p) st')"
      using b Inr by (simp add: submitPreparedTx_def PendingTx_Wait_def case_prod_beta)
    with awaitMined_coord [of mw wenv _ _ _ st'] bc Inr show ?thesis
      by (auto simp: slot_effect_def)
  qed
qed

section \<open>Nonce leases\<close>

text \<open>The counter is at least two below the top, so that neither the first lease nor a resend wraps it.\<close>

definition nonce_room :: "bcast_env \<Rightarrow> nonce_mgr \<Rightarrow> bool" where
  "nonce_room env nm \<longleftrightarrow>
     (if initialized nm then pendingNonce nm < - 2
      else case be_fetch env of Inl e \<Rightarrow> True | Inr p \<Rightarrow> p < - 2)"

definition lease_ok :: "tx_state \<Rightarrow> u64 list \<Rightarrow> bool" where
  "lease_ok st H \<longleftrightarrow> (\<exists>S. nonce_inv (ts_nonce st) H S)"

lemma lease_ok_release: "lease_ok st H \<Longrightarrow> n \<in> set H \<Longrightarrow> lease_ok (release_nonce n c st) (remove1 n H)"
  unfolding lease_ok_def using nonce_mgr.release_inv by fastforce

lemma lease_ok_reset: "lease_ok st H \<Longrightarrow> lease_ok (reset_nonce st) H"
  unfolding lease_ok_def using nonce_mgr.reset_inv by fastforce

lemma lease_ok_cong: "ts_nonce st' = ts_nonce st \<Longrightarrow> lease_ok st' H = lease_ok st H"
  by (simp add: lease_ok_def)

lemma lease_ok_next:
  "lease_ok st H \<Longrightarrow> NextNonce f (ts_nonce st) = (Inr n, nm) \<Longrightarrow> n \<noteq> - 1 \<Longrightarrow>
     lease_ok (st\<lparr>ts_nonce := nm\<rparr>) (n # H)"
  unfolding lease_ok_def using nonce_mgr.acquire_ok by fastforce

lemma lease_release_hd: "lease_ok st (n # H) \<Longrightarrow> lease_ok (release_nonce n c st) H"
  using lease_ok_release [of st "n # H" n c] by simp

lemma lease_held_initialized:
  "lease_ok st (n # H) \<Longrightarrow> initialized (ts_nonce st) \<and> outstanding (ts_nonce st) > 0"
  by (auto simp: lease_ok_def nonce_inv_def)

text \<open>While a lease is out the reset is only recorded, so the retry takes the next local nonce.\<close>

lemma resend_next:
  assumes "initialized (ts_nonce st)" "outstanding (ts_nonce st) > 0"
  shows "NextNonce f (ts_nonce (reset_nonce st)) =
    (Inr (pendingNonce (ts_nonce st)),
     (ts_nonce st)\<lparr>pendingNonce := pendingNonce (ts_nonce st) + 1,
        outstanding := Suc (outstanding (ts_nonce st)), resetPending := True\<rparr>)"
  using assms by (simp add: ResetNonce_deferred NextNonce_initialized)

lemma resend_lease:
  assumes ok: "lease_ok st (n # H)" and top: "pendingNonce (ts_nonce st) \<noteq> - 1"
  shows "case resendWithFreshNonce env gp v n st of
      (None, st') \<Rightarrow> lease_ok st' (n # H)
    | (Some (t', n'), st') \<Rightarrow> lease_ok st' (n' # H)"
proof -
  let ?m = "pendingNonce (ts_nonce st)"
  have held: "initialized (ts_nonce st)" "outstanding (ts_nonce st) > 0"
    using lease_held_initialized [OF ok] by simp_all
  define nm where "nm = (ts_nonce st)\<lparr>pendingNonce := ?m + 1,
      outstanding := Suc (outstanding (ts_nonce st)), resetPending := True\<rparr>"
  have nx: "NextNonce (be_fetch2 env) (ts_nonce (reset_nonce st)) = (Inr ?m, nm)"
    using resend_next [OF held] by (simp add: nm_def)
  have ok2: "lease_ok (reset_nonce st\<lparr>ts_nonce := nm\<rparr>) (?m # n # H)"
    by (rule lease_ok_next [OF lease_ok_reset [OF ok] nx top])
  then have ne: "?m \<noteq> n" by (auto simp: lease_ok_def nonce_inv_def)
  have give: "lease_ok (release_nonce ?m False (reset_nonce st\<lparr>ts_nonce := nm\<rparr>)) (n # H)"
    by (rule lease_release_hd [OF ok2])
  have ok3: "lease_ok (reset_nonce st\<lparr>ts_nonce := nm, ts_wire := w\<rparr>) (?m # n # H)" for w
    using ok2 by (simp add: lease_ok_def)
  then have give3: "lease_ok (release_nonce ?m False (reset_nonce st\<lparr>ts_nonce := nm, ts_wire := w\<rparr>)) (n # H)" for w
    by (rule lease_release_hd)
  from ok3 have fwd: "lease_ok (release_nonce n False (reset_nonce st\<lparr>ts_nonce := nm, ts_wire := w\<rparr>)) (?m # H)" for w
    using ne lease_ok_release [of _ "?m # n # H" n False] by fastforce
  show ?thesis
    using give give3 fwd by (simp add: resendWithFreshNonce_def Let_def nx del: ts_coord_frame
        split: sum.split option.split)
qed

lemma send_failed_lease:
  assumes "lease_ok st (n # H)"
  shows "lease_ok (snd (send_failed nm env e n t st)) H"
proof (cases "ShouldResetNonceOnSendError (Some e)")
  case True
  with lease_release_hd [OF lease_ok_reset [OF assms], of False] show ?thesis
    by (simp add: lease_ok_def send_failed_nonce)
next
  case False
  with lease_release_hd [OF assms, of True] show ?thesis
    by (simp add: lease_ok_def send_failed_nonce)
qed

lemma broadcast_send_lease:
  assumes ok: "lease_ok st (n # H)" and top: "pendingNonce (ts_nonce st) \<noteq> - 1"
  shows "lease_ok (snd (broadcast_send nm env gp v tok n t st)) H"
proof -
  have fin: "lease_ok (release_nonce k True (st'\<lparr>ts_coord := c\<rparr>)) H" if "lease_ok st' (k # H)" for k st' c
    using that by (intro lease_release_hd) (simp add: lease_ok_def)
  have aban: "lease_ok (abandon tok (snd (send_failed nm env e n t st'))) H" if "lease_ok st' (n # H)" for e st'
    using send_failed_lease [OF that] by (simp add: lease_ok_def)
  have w: "lease_ok (st\<lparr>ts_wire := w\<rparr>) (n # H)" for w using ok by (simp add: lease_ok_def)
  show ?thesis
  proof (cases "be_send env t")
    case None
    then show ?thesis using fin [OF w] by (simp add: broadcast_send_def Let_def)
  next
    case (Some err)
    let ?st = "st\<lparr>ts_wire := (t, Some err) # ts_wire st\<rparr>"
    obtain o' st1 where r: "resendWithFreshNonce env gp v n ?st = (o', st1)"
      by (cases "resendWithFreshNonce env gp v n ?st")
    show ?thesis
      using resend_lease [OF w, of "(t, Some err) # ts_wire st" env gp v] top Some w
      by (cases o') (auto simp: broadcast_send_def Let_def r case_prod_beta intro: fin aban)
  qed
qed

lemma nonce_room_next:
  "nonce_room env nm \<Longrightarrow> NextNonce (be_fetch env) nm = (Inr n, nm') \<Longrightarrow> n \<noteq> - 1 \<and> pendingNonce nm' \<noteq> - 1"
proof -
  assume r: "nonce_room env nm" and nx: "NextNonce (be_fetch env) nm = (Inr n, nm')"
  have "n < - 2" using r nx by (auto simp: nonce_room_def NextNonce_def split: if_splits sum.splits)
  then have "n \<noteq> - 1 \<and> n \<noteq> - 2" by auto
  moreover have "n + 1 = - 1 \<longleftrightarrow> n = - 2" using eq_diff_eq [of n "- 1" 1] by simp
  ultimately have "n \<noteq> - 1 \<and> n + 1 \<noteq> - 1" by simp
  with NextNonce_InrD [OF nx] show ?thesis by simp
qed

lemma broadcast_lease:
  assumes ok: "lease_ok st H" and room: "nonce_room env (ts_nonce st)"
  shows "lease_ok (snd (broadcastPreparedTx mul nm v env st)) H"
proof -
  obtain rn nm' where nx: "NextNonce (be_fetch env) (ts_nonce st) = (rn, nm')"
    by (cases "NextNonce (be_fetch env) (ts_nonce st)")
  have plain: "lease_ok (abandon tok (st\<lparr>ts_coord := c\<rparr>)) H" for tok c using ok by (simp add: lease_ok_def)
  have err: "lease_ok (abandon tok (st\<lparr>ts_coord := c, ts_nonce := nm'\<rparr>)) H" if "rn = Inl e" for tok c e
    using ok NextNonce_Inl_same [of _ _ e nm'] nx that by (auto simp: lease_ok_def)
  have out: "lease_ok (abandon tok (release_nonce n False (st\<lparr>ts_coord := c, ts_nonce := nm'\<rparr>))) H"
    and go: "lease_ok (snd (broadcast_send nm env gp v tok n t (st\<lparr>ts_coord := c, ts_nonce := nm'\<rparr>))) H"
    if "rn = Inr n" for tok c gp n t
  proof -
    have nt: "n \<noteq> - 1" "pendingNonce nm' \<noteq> - 1" using nonce_room_next [OF room] nx that by auto
    have "lease_ok (st\<lparr>ts_coord := c, ts_nonce := nm'\<rparr>) (n # H)"
      using lease_ok_next [OF ok _ nt(1)] nx that by (simp add: lease_ok_def)
    note l = this
    show "lease_ok (abandon tok (release_nonce n False (st\<lparr>ts_coord := c, ts_nonce := nm'\<rparr>))) H"
      using lease_release_hd [OF l, of False] by (simp add: lease_ok_def)
    show "lease_ok (snd (broadcast_send nm env gp v tok n t (st\<lparr>ts_coord := c, ts_nonce := nm'\<rparr>))) H"
      by (rule broadcast_send_lease [OF l]) (simp add: nt)
  qed
  show ?thesis
    using ok plain err out go
    by (auto simp: broadcastPreparedTx_def Let_def nx split: sum.split option.split prod.split)
qed

lemma awaitMined_lease: "lease_ok st H \<Longrightarrow> lease_ok (snd (awaitMined mw env nm t tok st)) H"
  using lease_ok_reset [of st H]
  by (auto simp: awaitMined_def Let_def lease_ok_def split: sum.split option.split prod.split outcome.split)

section \<open>Properties\<close>

text \<open>
  submitPreparedTx gives back exactly what it takes from the coordinator: whatever the node, the
  bindings and the contexts answer (errors before the broadcast, a rejected send, a resend, a failed or
  reverted receipt, a panic on a nil receipt), the in-flight slots of both classes after the call are
  those before it, and the coordinator stays well formed.
\<close>

theorem submit_restores_slots:
  assumes "coord_wf (ts_coord st)" "ids_fresh (ts_coord st)" "nextID (ts_coord st) \<noteq> - 1"
  shows "slot_ids (ts_coord (snd (submitPreparedTx mul mw nm v env wenv st))) = slot_ids (ts_coord st) \<and>
         coord_wf (ts_coord (snd (submitPreparedTx mul mw nm v env wenv st)))"
proof -
  let ?c = "ts_coord (snd (submitPreparedTx mul mw nm v env wenv st))"
  have wf: "coord_wf (ts_coord st) \<and> ids_fresh (ts_coord st)" using assms by simp
  from submit_coord [of mul mw nm v env wenv st] show ?thesis
  proof (elim disjE exE conjE)
    assume "?c = ts_coord st"
    then show ?thesis using assms by simp
  next
    fix tok c1
    assume e: "Enter_try ClassLegacy (be_now env) (ts_coord st) = Inr (tok, c1)"
      and c: "?c = snd (Done (Some tok) c1)"
    show ?thesis
      using slots.bracket_ids [OF wf assms(3) e] slots.enter_wf [OF wf assms(3) e] slots.leave_wf
      by (auto simp: c)
  next
    fix tok c1 h
    assume e: "Enter_try ClassLegacy (be_now env) (ts_coord st) = Inr (tok, c1)"
      and c: "?c = snd (Done (Some tok) (Registered (Some tok) h c1))"
    show ?thesis
      using slots.bracket_register_ids [OF wf assms(3) e] slots.enter_wf [OF wf assms(3) e]
        slots.leave_wf slots.register_wf
      by (auto simp: c)
  qed
qed

definition demo_env :: bcast_env where
  "demo_env = \<lparr>be_gasPrice = Inr 100, be_now = 0, be_ctxErr = errorf ''ctx'', be_auth = None,
     be_fetch = Inr 7, be_fetch2 = Inr 9,
     be_build = (\<lambda>n gp v. Inr \<lparr>tx_nonce = n, tx_hash = 1, tx_to = Some 2\<rparr>), be_ctx = None,
     be_send = (\<lambda>t. if tx_nonce t < 9 then Some (errorf ''nonce too low'') else None),
     be_resend = (\<lambda>t. if tx_nonce t < 9 then Some (errorf ''nonce too low'') else None), be_clock = 0\<rparr>"

definition demo_wait :: wait_env where
  "demo_wait = \<lparr>we_ctxDeadline = None, we_mined = (\<lambda>b t. Inr (Some \<lparr>r_status = 1, r_txHash = 1, r_blockNumber = 4\<rparr>)),
     we_replay = None\<rparr>"

definition demo_state :: tx_state where
  "demo_state = \<lparr>ts_nonce = NewNonceManager, ts_coord = NewSubpoolCoordinator 0,
     ts_stuck = NewStuckNonceTracker, ts_wire = []\<rparr>"

lemma demo_state_ok:
  "coord_wf (ts_coord demo_state)" "ids_fresh (ts_coord demo_state)" "nextID (ts_coord demo_state) \<noteq> - 1"
  "nonce_inv (ts_nonce demo_state) [] []"
  by (simp_all add: demo_state_def NewSubpoolCoordinator_def coord_wf_def ids_fresh_def all_class nonce_inv_init)

theorem submit_restores_slots_witness:
  "slot_ids (ts_coord (snd (submitPreparedTx 12000 0 ''Ack'' None demo_env demo_wait demo_state))) =
   slot_ids (ts_coord demo_state)"
  using submit_restores_slots [OF demo_state_ok(1-3), of 12000 0 "''Ack''" None demo_env demo_wait] by blast

text \<open>
  No submission leaks or duplicates a nonce lease: if the leases of the other goroutines are H
  before the call, they are H after it, with the manager's invariant intact, on every path including
  the in-place resend, where the stale lease is handed back and the fresh one is the one released as
  consumed.
\<close>

theorem submit_keeps_leases:
  assumes "nonce_inv (ts_nonce st) H S" "nonce_room env (ts_nonce st)"
  shows "\<exists>S'. nonce_inv (ts_nonce (snd (submitPreparedTx mul mw nm v env wenv st))) H S'"
proof -
  obtain r st' where b: "broadcastPreparedTx mul nm v env st = (r, st')"
    by (cases "broadcastPreparedTx mul nm v env st")
  have "lease_ok st H" using assms(1) by (auto simp: lease_ok_def)
  then have ok: "lease_ok st' H" using broadcast_lease [OF _ assms(2), of H mul nm v] b by simp
  have "lease_ok (snd (submitPreparedTx mul mw nm v env wenv st)) H"
    using ok awaitMined_lease [OF ok] b
    by (auto simp: submitPreparedTx_def PendingTx_Wait_def case_prod_beta split: sum.split option.split)
  then show ?thesis by (simp add: lease_ok_def)
qed

theorem submit_keeps_leases_witness:
  "\<exists>S'. nonce_inv (ts_nonce (snd (submitPreparedTx 12000 0 ''Ack'' None demo_env demo_wait demo_state))) [] S'"
  using submit_keeps_leases [OF demo_state_ok(4), of demo_env 12000 0 "''Ack''" None demo_wait]
  by (simp add: nonce_room_def demo_state_def NewNonceManager_def demo_env_def)

text \<open>
  The in-place retry after a nonce desync never asks the chain: the caller still holds its stale
  lease, so ResetNonce is only recorded and the retried transaction is built with the next nonce of the
  local counter, whatever PendingNonceAt would answer. When the counter is two or more behind the
  chain, the situation the retry was written for, the retry is rejected again and the submission fails.
\<close>

theorem resend_does_not_refetch:
  assumes "initialized (ts_nonce st)" "outstanding (ts_nonce st) > 0"
  shows "resendWithFreshNonce (env\<lparr>be_fetch2 := f\<rparr>) gp v n st = resendWithFreshNonce env gp v n st \<and>
         (\<forall>t m st'. resendWithFreshNonce env gp v n st = (Some (t, m), st') \<longrightarrow> m = pendingNonce (ts_nonce st))"
  by (auto simp: resendWithFreshNonce_def Let_def resend_next [OF assms] simp del: ts_coord_frame
      split: sum.splits option.splits)

theorem resend_does_not_refetch_witness:
  "fst (broadcastPreparedTx 12000 ''Ack'' None demo_env demo_state) = Inl (errorf ''send Ack tx: nonce too low'') \<and>
   resendWithFreshNonce (demo_env\<lparr>be_fetch2 := Inr 9\<rparr>) 100 None 7
       (demo_state\<lparr>ts_nonce := \<lparr>pendingNonce = 8, initialized = True, outstanding = 1, resetPending = False\<rparr>\<rparr>) =
     resendWithFreshNonce demo_env 100 None 7
       (demo_state\<lparr>ts_nonce := \<lparr>pendingNonce = 8, initialized = True, outstanding = 1, resetPending = False\<rparr>\<rparr>)"
  using resend_does_not_refetch [of "demo_state\<lparr>ts_nonce := \<lparr>pendingNonce = 8, initialized = True, outstanding = 1, resetPending = False\<rparr>\<rparr>"
      "Inr 9" demo_env 100 None 7]
  by (simp add: broadcastPreparedTx_def demo_env_def demo_state_def NewNonceManager_def NewSubpoolCoordinator_def
      Enter_try_def add_entry_def NextNonce_def broadcast_send_def resendWithFreshNonce_def reset_nonce_def
      ResetNonce_def applyPendingResetLocked_def send_failed_def errorf_def wrapf_def IsNonceDesyncError_def
      strings_Contains_def nonceTooLowSubstr_def alreadyReservedSubstr_def nonceTooHighSubstr_def Let_def)

text \<open>
  What waiting for a receipt concludes. The wait is bounded even when the caller's context is not
  (by minedWait, or 90 seconds). A successful receipt clears the stuck-nonce tracker; a failed wait
  resets the nonce manager; a reverted receipt leaves the nonce manager alone, because the nonce was
  used, and is reported as a pause exactly when the replay's revert data starts with the
  EnforcedPause() selector; a nil receipt panics. In every case the slot is released.
\<close>

theorem awaitMined_outcomes:
  fixes mw env nm t tok st
  defines "m \<equiv> we_mined env (minedBudget mw (we_ctxDeadline env)) t"
    and "res \<equiv> fst (awaitMined mw env nm t tok st)"
    and "st' \<equiv> snd (awaitMined mw env nm t tok st)"
  shows "ts_coord st' = snd (Done (Some tok) (ts_coord st)) \<and>
    (case m of
       Inl e \<Rightarrow> (\<exists>e'. res = Ret (Some e')) \<and> ts_nonce st' = ResetNonce (ts_nonce st)
     | Inr None \<Rightarrow> res = Panic
     | Inr (Some rc) \<Rightarrow> ts_nonce st' = ts_nonce st \<and>
         (if r_status rc = 1 then res = Ret None \<and> ts_stuck st' = Clear (ts_stuck st)
          else (\<exists>e'. res = Ret (Some e') \<and> ts_stuck st' = ts_stuck st \<and>
            (errors_Is e' ErrContractPaused \<longleftrightarrow>
               (\<exists>a d. tx_to t = Some a \<and> we_replay env = Some (Some d) \<and> 4 \<le> length d \<and>
                      take 4 d = [0xd9, 0x3c, 0x06, 0x65])))))"
  unfolding m_def res_def st'_def
  by (auto simp: awaitMined_def Let_def checkReceipt_def classifyReceiptRevert_def receiptStatusSuccessful_def
      decodePauseRevert_def enforcedPauseSelector_def reset_nonce_def split: sum.splits option.splits)

end
