(* ===== verification/Release_Store.thy ===== *)
theory Release_Store
  imports Go_Prelude "HOL-Library.Multiset"
begin

text \<open>
  The persistent release store (internal/release/store.go, tracker.go): the snapshot document, the
  locked read-modify-write operations of FileStore and the Store interface they implement.

  The data file is absent, zero bytes, not parsable, or a document; the JSON codec of the standard
  library is represented by the document it carries. Each operation meets at most one I/O fault, taken
  from the list \<open>w_faults\<close> of the world; the flock makes an operation atomic, so operations of the
  sidecar and of worker-cli are sequences of these functions on the shared world. go-ethereum's
  address formatting is the argument \<open>addr_lib\<close>.

  The interface is the record \<open>store_ops\<close> (the Go interface Store, which the scheduler, reconciler and
  tracker are written against) and the locale \<open>release_store\<close> states its promises over an abstract
  state: a map of pending jobs, the cursor and the two timestamps.
\<close>

section \<open>Documents\<close>

record PendingJob =
  JobID :: u64
  CompletedAt :: int
  FailCount :: int
  BackoffUntil :: int

record Snapshot =
  SnapSchemaVersion :: int
  SnapChainID :: u64
  SnapJobRegistry :: string
  SnapWorkerAddress :: string
  Pending :: "PendingJob list"
  LastReconciledBlock :: u64
  LastReleaseTs :: int
  NextAllowedAttempt :: int

record StoreIdentity =
  IdChainID :: u64
  IdJobRegistry :: address
  IdWorkerAddress :: address

record addr_lib =
  Hex :: "address \<Rightarrow> string"
  IsHexAddress :: "string \<Rightarrow> bool"
  HexToAddress :: "string \<Rightarrow> address"

definition SchemaVersion :: int where
  "SchemaVersion = 2"

section \<open>The file\<close>

datatype data_file = NoFile | EmptyFile | BadJSON | Doc Snapshot

record disk =
  d_data :: data_file
  d_tmp :: data_file

datatype io_fault =
    NoFault | MkdirErr | OpenLockErr | FlockErr | ReadErr
  | CreateTempErr | WriteErr | ChmodErr | SyncErr | CloseErr | RenameErr | SyncDirErr

record FileStore =
  fs_identity :: StoreIdentity
  fs_closed :: bool

definition emptySnapshot :: "addr_lib \<Rightarrow> FileStore \<Rightarrow> Snapshot" where
  "emptySnapshot lib s =
     \<lparr>SnapSchemaVersion = SchemaVersion, SnapChainID = IdChainID (fs_identity s),
      SnapJobRegistry = Hex lib (IdJobRegistry (fs_identity s)),
      SnapWorkerAddress = Hex lib (IdWorkerAddress (fs_identity s)),
      Pending = [], LastReconciledBlock = 0, LastReleaseTs = 0, NextAllowedAttempt = 0\<rparr>"

definition readSnapshotLocked :: "io_fault \<Rightarrow> disk \<Rightarrow> go_error + Snapshot" where
  "readSnapshotLocked flt d =
     (if flt = ReadErr then Inl (errorf ''read'')
      else case d_data d of
          NoFile \<Rightarrow> Inl (sentinel_err ''file does not exist'' ErrNotExist)
        | EmptyFile \<Rightarrow> Inl (sentinel_err ''release store snapshot is empty'' ErrEmptySnapshot)
        | BadJSON \<Rightarrow> Inl (errorf ''unmarshal release state'')
        | Doc snap \<Rightarrow> Inr snap)"

text \<open>
  The atomic replacement as the file-system operations it performs, one after the other. A write that
  is under way leaves unparsable bytes in the temporary file. \<open>fs_exec\<close> is what running processes see of an
  operation; what a power failure leaves of it is \<open>fs_persist\<close> below.
\<close>

datatype fs_op = CreateTemp | WriteBegin | WriteEnd Snapshot | Chmod | SyncTemp | CloseTemp | RenameTemp | RemoveTemp | SyncDir

fun fs_exec :: "fs_op \<Rightarrow> disk \<Rightarrow> disk" where
  "fs_exec CreateTemp d = d\<lparr>d_tmp := EmptyFile\<rparr>"
| "fs_exec WriteBegin d = d\<lparr>d_tmp := BadJSON\<rparr>"
| "fs_exec (WriteEnd snap) d = d\<lparr>d_tmp := Doc snap\<rparr>"
| "fs_exec Chmod d = d"
| "fs_exec SyncTemp d = d"
| "fs_exec CloseTemp d = d"
| "fs_exec RenameTemp d = d\<lparr>d_data := d_tmp d, d_tmp := NoFile\<rparr>"
| "fs_exec RemoveTemp d = d\<lparr>d_tmp := NoFile\<rparr>"
| "fs_exec SyncDir d = d"

definition pinSnapshot :: "addr_lib \<Rightarrow> FileStore \<Rightarrow> Snapshot \<Rightarrow> Snapshot" where
  "pinSnapshot lib s snap =
     snap\<lparr>SnapSchemaVersion := SchemaVersion, SnapChainID := IdChainID (fs_identity s),
          SnapJobRegistry := Hex lib (IdJobRegistry (fs_identity s)),
          SnapWorkerAddress := Hex lib (IdWorkerAddress (fs_identity s))\<rparr>"

definition writeSteps :: "Snapshot \<Rightarrow> fs_op list" where
  "writeSteps snap = [CreateTemp, WriteBegin, WriteEnd snap, Chmod, SyncTemp, CloseTemp, RenameTemp, SyncDir]"

definition runSteps :: "fs_op list \<Rightarrow> disk \<Rightarrow> disk" where
  "runSteps ops d = foldl (\<lambda>d op. fs_exec op d) d ops"

text \<open>
  The operations of one call under a fault. A failed write, chmod or sync closes and removes the temporary file, a failed
  close or rename removes it; a failed sync of the directory is ignored.
\<close>

definition writeOps :: "io_fault \<Rightarrow> Snapshot \<Rightarrow> fs_op list" where
  "writeOps flt snap =
     (let steps = writeSteps snap in
      if flt = CreateTempErr then []
      else if flt = WriteErr then take 2 steps @ [CloseTemp, RemoveTemp]
      else if flt = ChmodErr then take 3 steps @ [CloseTemp, RemoveTemp]
      else if flt = SyncErr then take 4 steps @ [CloseTemp, RemoveTemp]
      else if flt = CloseErr then take 5 steps @ [RemoveTemp]
      else if flt = RenameErr then take 6 steps @ [RemoveTemp]
      else if flt = SyncDirErr then take 7 steps
      else steps)"

definition writeErr :: "io_fault \<Rightarrow> go_error option" where
  "writeErr flt =
     (if flt = CreateTempErr then Some (errorf ''create temp release state'')
      else if flt = WriteErr then Some (errorf ''write temp release state'')
      else if flt = ChmodErr then Some (errorf ''chmod temp release state'')
      else if flt = SyncErr then Some (errorf ''sync temp release state'')
      else if flt = CloseErr then Some (errorf ''close temp release state'')
      else if flt = RenameErr then Some (errorf ''rename release state'')
      else None)"

definition writeSnapshotLocked ::
  "addr_lib \<Rightarrow> FileStore \<Rightarrow> io_fault \<Rightarrow> Snapshot \<Rightarrow> disk \<Rightarrow> go_error option \<times> disk" where
  "writeSnapshotLocked lib s flt snap d = (writeErr flt, runSteps (writeOps flt (pinSnapshot lib s snap)) d)"

text \<open>
  What a power failure leaves. Bytes are certain to survive only in a file synced after its last write; a directory entry only
  when the directory was synced after its last change. \<open>pd_files\<close> lists the files the data path may name
  after a failure, the current one first, each with whether its bytes are on stable storage.
\<close>

record pdisk =
  pd_view :: disk
  pd_tmpSynced :: bool
  pd_files :: "(data_file \<times> bool) list"

fun fs_persist :: "fs_op \<Rightarrow> pdisk \<Rightarrow> pdisk" where
  "fs_persist CreateTemp p = p\<lparr>pd_view := fs_exec CreateTemp (pd_view p), pd_tmpSynced := False\<rparr>"
| "fs_persist WriteBegin p = p\<lparr>pd_view := fs_exec WriteBegin (pd_view p), pd_tmpSynced := False\<rparr>"
| "fs_persist (WriteEnd snap) p = p\<lparr>pd_view := fs_exec (WriteEnd snap) (pd_view p), pd_tmpSynced := False\<rparr>"
| "fs_persist SyncTemp p = p\<lparr>pd_view := fs_exec SyncTemp (pd_view p), pd_tmpSynced := True\<rparr>"
| "fs_persist RenameTemp p =
     p\<lparr>pd_view := fs_exec RenameTemp (pd_view p), pd_files := (d_tmp (pd_view p), pd_tmpSynced p) # pd_files p\<rparr>"
| "fs_persist SyncDir p = p\<lparr>pd_view := fs_exec SyncDir (pd_view p), pd_files := take 1 (pd_files p)\<rparr>"
| "fs_persist op p = p\<lparr>pd_view := fs_exec op (pd_view p)\<rparr>"

definition persistSteps :: "fs_op list \<Rightarrow> pdisk \<Rightarrow> pdisk" where
  "persistSteps ops p = foldl (\<lambda>p op. fs_persist op p) p ops"

text \<open>The contents the data path may have after a failure: anything at all where the bytes were not synced.\<close>

definition survives :: "pdisk \<Rightarrow> data_file \<Rightarrow> bool" where
  "survives p f \<longleftrightarrow> list_ex (\<lambda>(c, synced). synced \<longrightarrow> f = c) (pd_files p)"

definition addrEqualHex :: "addr_lib \<Rightarrow> string \<Rightarrow> address \<Rightarrow> bool" where
  "addrEqualHex lib stored want = (if \<not> IsHexAddress lib stored then False else HexToAddress lib stored = want)"

definition verifyIdentityLocked :: "addr_lib \<Rightarrow> FileStore \<Rightarrow> Snapshot \<Rightarrow> go_error option" where
  "verifyIdentityLocked lib s snap =
     (if SnapSchemaVersion snap \<noteq> SchemaVersion
      then Some (sentinel_err ''release store schema version mismatch'' ErrSchemaVersionMismatch)
      else if SnapChainID snap \<noteq> IdChainID (fs_identity s)
      then Some (sentinel_err ''release store identity mismatch: chain_id'' ErrIdentityMismatch)
      else if \<not> addrEqualHex lib (SnapJobRegistry snap) (IdJobRegistry (fs_identity s))
      then Some (sentinel_err ''release store identity mismatch: job_registry'' ErrIdentityMismatch)
      else if \<not> addrEqualHex lib (SnapWorkerAddress snap) (IdWorkerAddress (fs_identity s))
      then Some (sentinel_err ''release store identity mismatch: worker_address'' ErrIdentityMismatch)
      else None)"

definition loadVerifiedLocked :: "addr_lib \<Rightarrow> FileStore \<Rightarrow> io_fault \<Rightarrow> disk \<Rightarrow> go_error + Snapshot" where
  "loadVerifiedLocked lib s flt d =
     (case readSnapshotLocked flt d of
        Inl e \<Rightarrow> Inl e
      | Inr snap \<Rightarrow> (case verifyIdentityLocked lib s snap of Some e \<Rightarrow> Inl e | None \<Rightarrow> Inr snap))"

section \<open>Locked sections\<close>

text \<open>\<open>withLock\<close> around a body; the body gets the disk. The deferred unlock cannot fail visibly.\<close>

definition withLock :: "FileStore \<Rightarrow> io_fault \<Rightarrow> (disk \<Rightarrow> (go_error + 'a) \<times> disk) \<Rightarrow> disk \<Rightarrow> (go_error + 'a) \<times> disk" where
  "withLock s flt body d =
     (if fs_closed s then (Inl (errorf ''release store closed''), d)
      else if flt = FlockErr then (Inl (errorf ''flock''), d)
      else body d)"

text \<open>
  The shape of every mutator: load, compute (an error, nothing to write, or the new snapshot), write;
  and of every getter.
\<close>

definition mutate ::
  "addr_lib \<Rightarrow> FileStore \<Rightarrow> io_fault \<Rightarrow> (Snapshot \<Rightarrow> go_error + (Snapshot option \<times> 'a)) \<Rightarrow> disk \<Rightarrow> (go_error + 'a) \<times> disk" where
  "mutate lib s flt f d =
     withLock s flt (\<lambda>d.
       case loadVerifiedLocked lib s flt d of
         Inl e \<Rightarrow> (Inl e, d)
       | Inr snap \<Rightarrow>
           (case f snap of
              Inl e \<Rightarrow> (Inl e, d)
            | Inr (None, a) \<Rightarrow> (Inr a, d)
            | Inr (Some snap', a) \<Rightarrow>
                (case writeSnapshotLocked lib s flt snap' d of
                   (Some e, d') \<Rightarrow> (Inl e, d') | (None, d') \<Rightarrow> (Inr a, d')))) d"

definition query :: "addr_lib \<Rightarrow> FileStore \<Rightarrow> io_fault \<Rightarrow> (Snapshot \<Rightarrow> 'a) \<Rightarrow> disk \<Rightarrow> (go_error + 'a) \<times> disk" where
  "query lib s flt f d =
     withLock s flt (\<lambda>d.
       case readSnapshotLocked flt d of
         Inl e \<Rightarrow> (Inl e, d)
       | Inr snap \<Rightarrow>
           (case verifyIdentityLocked lib s snap of Some e \<Rightarrow> (Inl e, d) | None \<Rightarrow> (Inr (f snap), d))) d"

section \<open>NewFileStore and Close\<close>

definition NewFileStore ::
  "addr_lib \<Rightarrow> string \<Rightarrow> StoreIdentity \<Rightarrow> io_fault \<Rightarrow> disk \<Rightarrow> (go_error + FileStore) \<times> disk" where
  "NewFileStore lib path ident flt d =
     (if path = [] then (Inl (errorf ''release store path must not be empty''), d)
      else if IdChainID ident = 0 then (Inl (errorf ''release store identity.ChainID must be non-zero''), d)
      else if IdWorkerAddress ident = 0 then (Inl (errorf ''release store identity.WorkerAddress must be non-zero''), d)
      else if IdJobRegistry ident = 0 then (Inl (errorf ''release store identity.JobRegistry must be non-zero''), d)
      else if flt = MkdirErr then (Inl (errorf ''create release store dir''), d)
      else if flt = OpenLockErr then (Inl (errorf ''open lock file''), d)
      else let s = \<lparr>fs_identity = ident, fs_closed = False\<rparr> in
        case withLock s flt (\<lambda>d.
               case readSnapshotLocked flt d of
                 Inl e \<Rightarrow>
                   (if errors_Is e ErrNotExist
                    then (case writeSnapshotLocked lib s flt (emptySnapshot lib s) d of
                            (Some e', d') \<Rightarrow> (Inl e', d') | (None, d') \<Rightarrow> (Inr (), d'))
                    else (Inl e, d))
               | Inr snap \<Rightarrow>
                   (case verifyIdentityLocked lib s snap of Some e \<Rightarrow> (Inl e, d) | None \<Rightarrow> (Inr (), d))) d of
          (Inl e, d') \<Rightarrow> (Inl e, d')
        | (Inr _, d') \<Rightarrow> (Inr s, d'))"

definition FileStore_Close :: "FileStore \<Rightarrow> FileStore" where
  "FileStore_Close s = (if fs_closed s then s else s\<lparr>fs_closed := True\<rparr>)"

section \<open>Operations\<close>

definition AddEligible :: "addr_lib \<Rightarrow> FileStore \<Rightarrow> io_fault \<Rightarrow> u64 \<Rightarrow> int \<Rightarrow> disk \<Rightarrow> (go_error + unit) \<times> disk" where
  "AddEligible lib s flt jobID completedAt =
     mutate lib s flt (\<lambda>snap.
       if list_ex (\<lambda>p. JobID p = jobID) (Pending snap) then Inr (None, ())
       else Inr (Some (snap\<lparr>Pending := Pending snap @
              [\<lparr>JobID = jobID, CompletedAt = completedAt, FailCount = 0, BackoffUntil = 0\<rparr>]\<rparr>), ()))"

definition PendingJobs :: "addr_lib \<Rightarrow> FileStore \<Rightarrow> io_fault \<Rightarrow> disk \<Rightarrow> (go_error + PendingJob list) \<times> disk" where
  "PendingJobs lib s flt = query lib s flt (\<lambda>snap. sort_key JobID (Pending snap))"

definition Remove :: "addr_lib \<Rightarrow> FileStore \<Rightarrow> io_fault \<Rightarrow> u64 list \<Rightarrow> disk \<Rightarrow> (go_error + unit) \<times> disk" where
  "Remove lib s flt jobIDs d =
     (if jobIDs = [] then (Inr (), d)
      else mutate lib s flt (\<lambda>snap.
        Inr (Some (snap\<lparr>Pending := filter (\<lambda>p. JobID p \<notin> set jobIDs) (Pending snap)\<rparr>), ())) d)"

fun bumpFailure :: "u64 \<Rightarrow> int \<Rightarrow> PendingJob list \<Rightarrow> PendingJob list option" where
  "bumpFailure jobID backoffUntil [] = None"
| "bumpFailure jobID backoffUntil (p # ps) =
     (if JobID p = jobID
      then Some (p\<lparr>FailCount := i64 (FailCount p + 1), BackoffUntil := backoffUntil\<rparr> # ps)
      else map_option (\<lambda>ps'. p # ps') (bumpFailure jobID backoffUntil ps))"

definition RecordFailure :: "addr_lib \<Rightarrow> FileStore \<Rightarrow> io_fault \<Rightarrow> u64 \<Rightarrow> int \<Rightarrow> disk \<Rightarrow> (go_error + unit) \<times> disk" where
  "RecordFailure lib s flt jobID backoffUntil =
     mutate lib s flt (\<lambda>snap.
       case bumpFailure jobID backoffUntil (Pending snap) of
         None \<Rightarrow> Inr (None, ())
       | Some ps \<Rightarrow> Inr (Some (snap\<lparr>Pending := ps\<rparr>), ()))"

definition GetReconcileBlock :: "addr_lib \<Rightarrow> FileStore \<Rightarrow> io_fault \<Rightarrow> disk \<Rightarrow> (go_error + u64) \<times> disk" where
  "GetReconcileBlock lib s flt = query lib s flt LastReconciledBlock"

definition SetReconcileBlock :: "addr_lib \<Rightarrow> FileStore \<Rightarrow> io_fault \<Rightarrow> u64 \<Rightarrow> disk \<Rightarrow> (go_error + unit) \<times> disk" where
  "SetReconcileBlock lib s flt block =
     mutate lib s flt (\<lambda>snap.
       if block < LastReconciledBlock snap
       then Inl (errorf ''SetReconcileBlock: refusing to move cursor backward'')
       else Inr (Some (snap\<lparr>LastReconciledBlock := block\<rparr>), ()))"

definition SeedReconcileBlock :: "addr_lib \<Rightarrow> FileStore \<Rightarrow> io_fault \<Rightarrow> u64 \<Rightarrow> disk \<Rightarrow> (go_error + bool) \<times> disk" where
  "SeedReconcileBlock lib s flt block =
     mutate lib s flt (\<lambda>snap.
       if LastReconciledBlock snap \<noteq> 0 then Inr (None, False)
       else Inr (Some (snap\<lparr>LastReconciledBlock := block\<rparr>), True))"

definition GetLastReleaseTs :: "addr_lib \<Rightarrow> FileStore \<Rightarrow> io_fault \<Rightarrow> disk \<Rightarrow> (go_error + int) \<times> disk" where
  "GetLastReleaseTs lib s flt = query lib s flt LastReleaseTs"

definition SetLastReleaseTs :: "addr_lib \<Rightarrow> FileStore \<Rightarrow> io_fault \<Rightarrow> int \<Rightarrow> disk \<Rightarrow> (go_error + unit) \<times> disk" where
  "SetLastReleaseTs lib s flt ts =
     mutate lib s flt (\<lambda>snap. Inr (Some (snap\<lparr>LastReleaseTs := ts\<rparr>), ()))"

definition GetNextAllowedAttempt :: "addr_lib \<Rightarrow> FileStore \<Rightarrow> io_fault \<Rightarrow> disk \<Rightarrow> (go_error + int) \<times> disk" where
  "GetNextAllowedAttempt lib s flt = query lib s flt NextAllowedAttempt"

definition SetNextAllowedAttempt :: "addr_lib \<Rightarrow> FileStore \<Rightarrow> io_fault \<Rightarrow> int \<Rightarrow> disk \<Rightarrow> (go_error + unit) \<times> disk" where
  "SetNextAllowedAttempt lib s flt ts =
     mutate lib s flt (\<lambda>snap. Inr (Some (snap\<lparr>NextAllowedAttempt := ts\<rparr>), ()))"

section \<open>The Store interface\<close>

record 's store_ops =
  st_AddEligible :: "u64 \<Rightarrow> int \<Rightarrow> 's \<Rightarrow> (go_error + unit) \<times> 's"
  st_Pending :: "'s \<Rightarrow> (go_error + PendingJob list) \<times> 's"
  st_Remove :: "u64 list \<Rightarrow> 's \<Rightarrow> (go_error + unit) \<times> 's"
  st_RecordFailure :: "u64 \<Rightarrow> int \<Rightarrow> 's \<Rightarrow> (go_error + unit) \<times> 's"
  st_GetReconcileBlock :: "'s \<Rightarrow> (go_error + u64) \<times> 's"
  st_SetReconcileBlock :: "u64 \<Rightarrow> 's \<Rightarrow> (go_error + unit) \<times> 's"
  st_GetLastReleaseTs :: "'s \<Rightarrow> (go_error + int) \<times> 's"
  st_SetLastReleaseTs :: "int \<Rightarrow> 's \<Rightarrow> (go_error + unit) \<times> 's"
  st_GetNextAllowedAttempt :: "'s \<Rightarrow> (go_error + int) \<times> 's"
  st_SetNextAllowedAttempt :: "int \<Rightarrow> 's \<Rightarrow> (go_error + unit) \<times> 's"

text \<open>The world of a file store: its directory and the faults its next operations will meet.\<close>

record store_world =
  w_disk :: disk
  w_faults :: "io_fault list"

fun next_fault :: "io_fault list \<Rightarrow> io_fault" where
  "next_fault [] = NoFault"
| "next_fault (f # fs) = f"

definition on_disk :: "(io_fault \<Rightarrow> disk \<Rightarrow> 'r \<times> disk) \<Rightarrow> store_world \<Rightarrow> 'r \<times> store_world" where
  "on_disk f w =
     (case f (next_fault (w_faults w)) (w_disk w) of
        (r, d) \<Rightarrow> (r, w\<lparr>w_disk := d, w_faults := tl (w_faults w)\<rparr>))"

definition FileStore_ops :: "addr_lib \<Rightarrow> FileStore \<Rightarrow> store_world store_ops" where
  "FileStore_ops lib s =
     \<lparr>st_AddEligible = \<lambda>j t. on_disk (\<lambda>flt. AddEligible lib s flt j t),
      st_Pending = on_disk (\<lambda>flt. PendingJobs lib s flt),
      st_Remove = \<lambda>js. on_disk (\<lambda>flt. Remove lib s flt js),
      st_RecordFailure = \<lambda>j b. on_disk (\<lambda>flt. RecordFailure lib s flt j b),
      st_GetReconcileBlock = on_disk (\<lambda>flt. GetReconcileBlock lib s flt),
      st_SetReconcileBlock = \<lambda>b. on_disk (\<lambda>flt. SetReconcileBlock lib s flt b),
      st_GetLastReleaseTs = on_disk (\<lambda>flt. GetLastReleaseTs lib s flt),
      st_SetLastReleaseTs = \<lambda>t. on_disk (\<lambda>flt. SetLastReleaseTs lib s flt t),
      st_GetNextAllowedAttempt = on_disk (\<lambda>flt. GetNextAllowedAttempt lib s flt),
      st_SetNextAllowedAttempt = \<lambda>t. on_disk (\<lambda>flt. SetNextAllowedAttempt lib s flt t)\<rparr>"

definition MarkEligible :: "'s store_ops \<Rightarrow> u64 \<Rightarrow> int \<Rightarrow> 's \<Rightarrow> (go_error + unit) \<times> 's" where
  "MarkEligible ops jobID completedAt s = st_AddEligible ops jobID completedAt s"

subsection \<open>Its abstract meaning\<close>

record abs_store =
  a_pending :: "u64 \<rightharpoonup> PendingJob"
  a_cursor :: u64
  a_lastRelease :: int
  a_nextAllowed :: int

definition new_pending :: "u64 \<Rightarrow> int \<Rightarrow> PendingJob" where
  "new_pending j t = \<lparr>JobID = j, CompletedAt = t, FailCount = 0, BackoffUntil = 0\<rparr>"

definition spec_add :: "u64 \<Rightarrow> int \<Rightarrow> abs_store \<Rightarrow> abs_store" where
  "spec_add j t a =
     (case a_pending a j of Some p \<Rightarrow> a | None \<Rightarrow> a\<lparr>a_pending := (a_pending a)(j \<mapsto> new_pending j t)\<rparr>)"

definition spec_remove :: "u64 list \<Rightarrow> abs_store \<Rightarrow> abs_store" where
  "spec_remove js a = a\<lparr>a_pending := a_pending a |` (- set js)\<rparr>"

definition spec_fail :: "u64 \<Rightarrow> int \<Rightarrow> abs_store \<Rightarrow> abs_store" where
  "spec_fail j b a =
     (case a_pending a j of None \<Rightarrow> a
      | Some p \<Rightarrow> a\<lparr>a_pending := (a_pending a)(j \<mapsto> p\<lparr>FailCount := i64 (FailCount p + 1), BackoffUntil := b\<rparr>)\<rparr>)"

text \<open>A mutator either fails and changes nothing, or does what its specification says.\<close>

definition applies :: "(go_error + 'a) \<Rightarrow> (abs_store \<Rightarrow> abs_store) \<Rightarrow> abs_store \<Rightarrow> abs_store \<Rightarrow> bool" where
  "applies r f a a' \<longleftrightarrow> (case r of Inl e \<Rightarrow> a' = a | Inr x \<Rightarrow> a' = f a)"

definition reads :: "(go_error + 'a) \<Rightarrow> (abs_store \<Rightarrow> 'a) \<Rightarrow> abs_store \<Rightarrow> bool" where
  "reads r f a \<longleftrightarrow> (case r of Inl e \<Rightarrow> True | Inr x \<Rightarrow> x = f a)"

definition job_list_of :: "(u64 \<rightharpoonup> PendingJob) \<Rightarrow> PendingJob list \<Rightarrow> bool" where
  "job_list_of m ps \<longleftrightarrow>
     sorted (map JobID ps) \<and> distinct (map JobID ps) \<and> m = map_of (map (\<lambda>p. (JobID p, p)) ps)"

locale release_store =
  fixes ops :: "'s store_ops"
    and inv :: "'s \<Rightarrow> bool"
    and abs :: "'s \<Rightarrow> abs_store"
  assumes AddEligible_law: "inv s \<Longrightarrow> st_AddEligible ops j t s = (r, s') \<Longrightarrow>
      inv s' \<and> applies r (spec_add j t) (abs s) (abs s')"
    and Remove_law: "inv s \<Longrightarrow> st_Remove ops js s = (r1, s') \<Longrightarrow>
      inv s' \<and> applies r1 (spec_remove js) (abs s) (abs s')"
    and RecordFailure_law: "inv s \<Longrightarrow> st_RecordFailure ops j b s = (r2, s') \<Longrightarrow>
      inv s' \<and> applies r2 (spec_fail j b) (abs s) (abs s')"
    and SetReconcileBlock_law: "inv s \<Longrightarrow> st_SetReconcileBlock ops blk s = (r3, s') \<Longrightarrow>
      inv s' \<and> applies r3 (a_cursor_update (\<lambda>_. blk)) (abs s) (abs s') \<and> a_cursor (abs s) \<le> a_cursor (abs s')"
    and SetLastReleaseTs_law: "inv s \<Longrightarrow> st_SetLastReleaseTs ops t s = (r4, s') \<Longrightarrow>
      inv s' \<and> applies r4 (a_lastRelease_update (\<lambda>_. t)) (abs s) (abs s')"
    and SetNextAllowedAttempt_law: "inv s \<Longrightarrow> st_SetNextAllowedAttempt ops t s = (r5, s') \<Longrightarrow>
      inv s' \<and> applies r5 (a_nextAllowed_update (\<lambda>_. t)) (abs s) (abs s')"
    and Pending_law: "inv s \<Longrightarrow> st_Pending ops s = (r6, s') \<Longrightarrow>
      inv s' \<and> abs s' = abs s \<and> (case r6 of Inl e \<Rightarrow> True | Inr ps \<Rightarrow> job_list_of (a_pending (abs s)) ps)"
    and GetReconcileBlock_law: "inv s \<Longrightarrow> st_GetReconcileBlock ops s = (r7, s') \<Longrightarrow>
      inv s' \<and> abs s' = abs s \<and> reads r7 a_cursor (abs s)"
    and GetLastReleaseTs_law: "inv s \<Longrightarrow> st_GetLastReleaseTs ops s = (r8, s') \<Longrightarrow>
      inv s' \<and> abs s' = abs s \<and> reads r8 a_lastRelease (abs s)"
    and GetNextAllowedAttempt_law: "inv s \<Longrightarrow> st_GetNextAllowedAttempt ops s = (r9, s') \<Longrightarrow>
      inv s' \<and> abs s' = abs s \<and> reads r9 a_nextAllowed (abs s)"

text \<open>Sequences of mutations, the failed ones included.\<close>

datatype store_cmd =
    CmdAdd u64 int | CmdRemove "u64 list" | CmdFail u64 int | CmdCursor u64 | CmdLast int | CmdNext int

fun exec_cmd :: "'s store_ops \<Rightarrow> store_cmd \<Rightarrow> 's \<Rightarrow> (go_error + unit) \<times> 's" where
  "exec_cmd ops (CmdAdd j t) s = st_AddEligible ops j t s"
| "exec_cmd ops (CmdRemove js) s = st_Remove ops js s"
| "exec_cmd ops (CmdFail j b) s = st_RecordFailure ops j b s"
| "exec_cmd ops (CmdCursor b) s = st_SetReconcileBlock ops b s"
| "exec_cmd ops (CmdLast t) s = st_SetLastReleaseTs ops t s"
| "exec_cmd ops (CmdNext t) s = st_SetNextAllowedAttempt ops t s"

fun spec_cmd :: "store_cmd \<Rightarrow> abs_store \<Rightarrow> abs_store" where
  "spec_cmd (CmdAdd j t) a = spec_add j t a"
| "spec_cmd (CmdRemove js) a = spec_remove js a"
| "spec_cmd (CmdFail j b) a = spec_fail j b a"
| "spec_cmd (CmdCursor b) a = a\<lparr>a_cursor := b\<rparr>"
| "spec_cmd (CmdLast t) a = a\<lparr>a_lastRelease := t\<rparr>"
| "spec_cmd (CmdNext t) a = a\<lparr>a_nextAllowed := t\<rparr>"

fun exec_cmds :: "'s store_ops \<Rightarrow> store_cmd list \<Rightarrow> 's \<Rightarrow> store_cmd list \<times> 's" where
  "exec_cmds ops [] s = ([], s)"
| "exec_cmds ops (c # cs) s =
     (case exec_cmd ops c s of
        (r, s1) \<Rightarrow> (case exec_cmds ops cs s1 of (done, s2) \<Rightarrow> (if isl r then done else c # done, s2)))"

definition spec_cmds :: "store_cmd list \<Rightarrow> abs_store \<Rightarrow> abs_store" where
  "spec_cmds cs a = foldl (\<lambda>a c. spec_cmd c a) a cs"

lemma spec_frame [simp]:
  "a_cursor (spec_add j t a) = a_cursor a" "a_cursor (spec_remove js a) = a_cursor a"
  "a_cursor (spec_fail j b a) = a_cursor a"
  "a_lastRelease (spec_add j t a) = a_lastRelease a" "a_lastRelease (spec_remove js a) = a_lastRelease a"
  "a_lastRelease (spec_fail j b a) = a_lastRelease a"
  "a_nextAllowed (spec_add j t a) = a_nextAllowed a" "a_nextAllowed (spec_remove js a) = a_nextAllowed a"
  "a_nextAllowed (spec_fail j b a) = a_nextAllowed a"
  by (simp_all add: spec_add_def spec_remove_def spec_fail_def split: option.splits)

lemma applies_const: "applies r f a a' \<Longrightarrow> (\<And>x. g (f x) = g x) \<Longrightarrow> g a' = g a"
  by (auto simp: applies_def split: sum.splits)

context release_store
begin

lemma exec_cmd_sim:
  assumes "inv s" "exec_cmd ops c s = (r, s')"
  shows "inv s' \<and> applies r (spec_cmd c) (abs s) (abs s') \<and> a_cursor (abs s) \<le> a_cursor (abs s')"
proof (cases c)
  case (CmdAdd j t)
  then show ?thesis using AddEligible_law [OF assms(1), of j t r s'] assms(2)
    by (auto simp: applies_def split: sum.splits)
next
  case (CmdRemove js)
  then show ?thesis using Remove_law [OF assms(1), of js r s'] assms(2)
    by (auto simp: applies_def split: sum.splits)
next
  case (CmdFail j b)
  then show ?thesis using RecordFailure_law [OF assms(1), of j b r s'] assms(2)
    by (auto simp: applies_def split: sum.splits)
next
  case (CmdCursor b)
  then show ?thesis using SetReconcileBlock_law [OF assms(1), of b r s'] assms(2)
    by (auto simp: applies_def split: sum.splits)
next
  case (CmdLast t)
  then show ?thesis using SetLastReleaseTs_law [OF assms(1), of t r s'] assms(2)
    by (auto simp: applies_def split: sum.splits)
next
  case (CmdNext t)
  then show ?thesis using SetNextAllowedAttempt_law [OF assms(1), of t r s'] assms(2)
    by (auto simp: applies_def split: sum.splits)
qed

lemma exec_cmds_sim:
  "inv s \<Longrightarrow> exec_cmds ops cs s = (done, s') \<Longrightarrow>
   inv s' \<and> abs s' = spec_cmds done (abs s) \<and> a_cursor (abs s) \<le> a_cursor (abs s')"
proof (induction cs arbitrary: s s' "done")
  case Nil
  then show ?case by (simp add: spec_cmds_def)
next
  case (Cons c cs)
  obtain r s1 where c: "exec_cmd ops c s = (r, s1)" by (cases "exec_cmd ops c s")
  obtain d2 s2 where cs: "exec_cmds ops cs s1 = (d2, s2)" by (cases "exec_cmds ops cs s1")
  note first = exec_cmd_sim [OF Cons.prems(1) c]
  have rest: "inv s2 \<and> abs s2 = spec_cmds d2 (abs s1) \<and> a_cursor (abs s1) \<le> a_cursor (abs s2)"
    using Cons.IH cs first by blast
  have "s' = s2" "done = (if isl r then d2 else c # d2)" using Cons.prems(2) c cs by auto
  then show ?case using first rest
    by (cases r) (auto simp: applies_def spec_cmds_def intro: order_trans)
qed

end

section \<open>FileStore implements it\<close>

text \<open>What the code relies on of go-ethereum's address formatting: \<open>Hex\<close> prints an address that parses back.\<close>

definition addr_lib_ok :: "addr_lib \<Rightarrow> bool" where
  "addr_lib_ok lib \<longleftrightarrow> (\<forall>a. IsHexAddress lib (Hex lib a) \<and> HexToAddress lib (Hex lib a) = a)"

definition snap_ok :: "addr_lib \<Rightarrow> FileStore \<Rightarrow> Snapshot \<Rightarrow> bool" where
  "snap_ok lib s snap \<longleftrightarrow> verifyIdentityLocked lib s snap = None \<and> distinct (map JobID (Pending snap))"

definition fs_inv :: "addr_lib \<Rightarrow> FileStore \<Rightarrow> store_world \<Rightarrow> bool" where
  "fs_inv lib s w \<longleftrightarrow> addr_lib_ok lib \<and> (\<exists>snap. d_data (w_disk w) = Doc snap \<and> snap_ok lib s snap)"

definition job_map :: "PendingJob list \<Rightarrow> u64 \<rightharpoonup> PendingJob" where
  "job_map ps = map_of (map (\<lambda>p. (JobID p, p)) ps)"

definition abs_snap :: "Snapshot \<Rightarrow> abs_store" where
  "abs_snap snap = \<lparr>a_pending = job_map (Pending snap), a_cursor = LastReconciledBlock snap,
     a_lastRelease = LastReleaseTs snap, a_nextAllowed = NextAllowedAttempt snap\<rparr>"

definition abs_file :: "data_file \<Rightarrow> abs_store" where
  "abs_file f = (case f of Doc snap \<Rightarrow> abs_snap snap
     | _ \<Rightarrow> \<lparr>a_pending = Map.empty, a_cursor = 0, a_lastRelease = 0, a_nextAllowed = 0\<rparr>)"

definition fs_abs :: "store_world \<Rightarrow> abs_store" where
  "fs_abs w = abs_file (d_data (w_disk w))"

subsection \<open>Writing\<close>

lemma upto_8: "n < 8 \<Longrightarrow> n \<in> {0, 1, 2, 3, 4, 5, 6, 7 :: nat}"
  by auto

lemma runSteps_prefix:
  "d_data (runSteps (take n (writeSteps snap)) d) = (if n < 7 then d_data d else Doc snap)"
proof (cases "n < 8")
  case True
  then show ?thesis using upto_8 [of n] by (auto simp: runSteps_def writeSteps_def numeral_eq_Suc)
next
  case False
  then have "take n (writeSteps snap) = writeSteps snap" by (simp add: writeSteps_def)
  then show ?thesis using False by (simp add: runSteps_def writeSteps_def)
qed

lemma runSteps_append: "runSteps (xs @ ys) d = runSteps ys (runSteps xs d)"
  by (simp add: runSteps_def)

lemma runSteps_cleanup [simp]:
  "d_data (runSteps [RemoveTemp] d) = d_data d" "d_data (runSteps [CloseTemp, RemoveTemp] d) = d_data d" "runSteps [] d = d"
  by (simp_all add: runSteps_def)

lemma runSteps_all: "d_data (runSteps (writeSteps snap) d) = Doc snap"
  using runSteps_prefix [of 8 snap d] by (simp add: writeSteps_def)

lemma write_data:
  assumes "writeSnapshotLocked lib s flt snap d = (r, d')"
  shows "d_data d' = (case r of Some e \<Rightarrow> d_data d | None \<Rightarrow> Doc (pinSnapshot lib s snap))"
  using assms by (auto simp: writeSnapshotLocked_def writeOps_def writeErr_def Let_def runSteps_append runSteps_prefix runSteps_all
      split: if_splits)

subsection \<open>Power failures\<close>

lemma persist_view: "pd_view (persistSteps ops p) = runSteps ops (pd_view p)"
proof (induction ops arbitrary: p)
  case (Cons op ops)
  have "pd_view (fs_persist op p) = fs_exec op (pd_view p)" by (cases op) simp_all
  then show ?case using Cons.IH [of "fs_persist op p"] by (simp add: persistSteps_def runSteps_def)
qed (simp add: persistSteps_def runSteps_def)

text \<open>The files the data path may name at any point of a write, given that before it names the file \<open>f\<close> for certain.\<close>

definition files_after :: "io_fault \<Rightarrow> nat \<Rightarrow> Snapshot \<Rightarrow> data_file \<Rightarrow> (data_file \<times> bool) list" where
  "files_after flt n snap f =
     (if writeErr flt \<noteq> None \<or> n < 7 then [(f, True)]
      else if flt = SyncDirErr \<or> n < 8 then [(Doc snap, True), (f, True)]
      else [(Doc snap, True)])"

lemma persist_prefix:
  "pd_files p = [(f, True)] \<Longrightarrow>
   pd_files (persistSteps (take n (writeSteps snap)) p) =
     (if n < 7 then [(f, True)] else if n < 8 then [(Doc snap, True), (f, True)] else [(Doc snap, True)])"
proof (cases "n < 8")
  case True
  assume "pd_files p = [(f, True)]"
  then show ?thesis using True upto_8 [of n] by (auto simp: persistSteps_def writeSteps_def numeral_eq_Suc)
next
  case False
  assume f: "pd_files p = [(f, True)]"
  have "take n (writeSteps snap) = writeSteps snap" using False by (simp add: writeSteps_def)
  then show ?thesis using False f by (simp add: persistSteps_def writeSteps_def)
qed

lemma persist_append: "persistSteps (xs @ ys) p = persistSteps ys (persistSteps xs p)"
  by (simp add: persistSteps_def)

lemma persist_cleanup: "set ops \<subseteq> {CloseTemp, RemoveTemp} \<Longrightarrow> pd_files (persistSteps ops p) = pd_files p"
proof (induction ops arbitrary: p)
  case (Cons op ops)
  then have "pd_files (fs_persist op p) = pd_files p" by auto
  then show ?case using Cons.IH [of "fs_persist op p"] Cons.prems by (simp add: persistSteps_def)
qed (simp add: persistSteps_def)

lemma persist_failed:
  assumes "pd_files p = [(f, True)]" "k < 7" "set ops \<subseteq> {CloseTemp, RemoveTemp}"
  shows "pd_files (persistSteps (take n (take k (writeSteps snap) @ ops)) p) = [(f, True)]"
proof -
  have "set (take j ops) \<subseteq> {CloseTemp, RemoveTemp}" for j using assms(3) set_take_subset by fast
  moreover have "min n k < 7" using assms(2) by simp
  ultimately show ?thesis using assms(1) by (simp add: persist_append persist_cleanup persist_prefix)
qed

lemma persist_write:
  assumes "pd_files p = [(f, True)]"
  shows "pd_files (persistSteps (take n (writeOps flt snap)) p) = files_after flt n snap f"
proof (cases "writeErr flt")
  case None
  have "pd_files (persistSteps (take n (take 7 (writeSteps snap))) p) = (if n < 7 then [(f, True)] else [(Doc snap, True), (f, True)])"
    using persist_prefix [OF assms, of "min n 7" snap] by (auto simp: min_def)
  then show ?thesis using None persist_prefix [OF assms, of n snap]
    by (auto simp: writeOps_def files_after_def writeErr_def Let_def split: if_splits)
next
  case (Some e)
  then show ?thesis using persist_failed [OF assms] assms
    by (auto simp: writeOps_def files_after_def writeErr_def Let_def persistSteps_def [of "[]"] split: if_splits)
qed

lemma verify_pin [simp]: "addr_lib_ok lib \<Longrightarrow> verifyIdentityLocked lib s (pinSnapshot lib s snap) = None"
  by (simp add: verifyIdentityLocked_def pinSnapshot_def addrEqualHex_def addr_lib_ok_def)

lemma pin_frame [simp]:
  "Pending (pinSnapshot lib s snap) = Pending snap" "abs_snap (pinSnapshot lib s snap) = abs_snap snap"
  by (simp_all add: pinSnapshot_def abs_snap_def)

lemma snap_ok_pin: "addr_lib_ok lib \<Longrightarrow> distinct (map JobID (Pending snap)) \<Longrightarrow> snap_ok lib s (pinSnapshot lib s snap)"
  by (simp add: snap_ok_def)

subsection \<open>Pending lists\<close>

lemma job_map_Some: "job_map ps j = Some p \<Longrightarrow> JobID p = j \<and> p \<in> set ps"
  unfolding job_map_def using map_of_SomeD [of "map (\<lambda>p. (JobID p, p)) ps" j p] by auto

lemma job_map_None: "job_map ps j = None \<longleftrightarrow> j \<notin> JobID ` set ps"
  by (simp add: job_map_def map_of_eq_None_iff image_image)

lemma job_map_append:
  "j \<notin> JobID ` set ps \<Longrightarrow> JobID p = j \<Longrightarrow> job_map (ps @ [p]) = (job_map ps)(j \<mapsto> p)"
proof -
  assume a: "j \<notin> JobID ` set ps" "JobID p = j"
  have "map_of (map (\<lambda>p. (JobID p, p)) ps) j = None"
    using a job_map_None [of ps j] by (simp add: job_map_def)
  then show ?thesis using a by (auto simp: job_map_def map_add_def fun_eq_iff split: option.splits)
qed

lemma job_map_filter: "job_map (filter (\<lambda>p. JobID p \<notin> S) ps) = job_map ps |` (- S)"
  by (induction ps) (auto simp: job_map_def restrict_map_def fun_eq_iff)

lemma bumpFailure_None: "bumpFailure j b ps = None \<longleftrightarrow> job_map ps j = None"
  by (induction ps) (auto simp: job_map_def)

lemma bumpFailure_ids: "bumpFailure j b ps = Some ps' \<Longrightarrow> map JobID ps' = map JobID ps"
  by (induction ps arbitrary: ps') (auto split: if_splits)

lemma bumpFailure_map:
  "bumpFailure j b ps = Some ps' \<Longrightarrow>
   \<exists>p. job_map ps j = Some p \<and>
       job_map ps' = (job_map ps)(j \<mapsto> p\<lparr>FailCount := i64 (FailCount p + 1), BackoffUntil := b\<rparr>)"
proof (induction ps arbitrary: ps')
  case (Cons p ps)
  show ?case
  proof (cases "JobID p = j")
    case True
    then show ?thesis using Cons.prems by (auto simp: job_map_def)
  next
    case False
    then obtain qs where qs: "bumpFailure j b ps = Some qs" "ps' = p # qs" using Cons.prems by auto
    with Cons.IH [OF qs(1)] False show ?thesis by (auto simp: job_map_def fun_eq_iff)
  qed
qed simp

lemma job_list_sort: "distinct (map JobID ps) \<Longrightarrow> job_list_of (job_map ps) (sort_key JobID ps)"
proof -
  assume d: "distinct (map JobID ps)"
  have m: "mset (map JobID (sort_key JobID ps)) = mset (map JobID ps)" by (simp add: mset_map)
  have d': "distinct (map JobID (sort_key JobID ps))"
    using d m by (metis mset_eq_imp_distinct_iff)
  have "map_of (map (\<lambda>p. (JobID p, p)) ps) = map_of (map (\<lambda>p. (JobID p, p)) (sort_key JobID ps))"
  proof (rule map_of_eqI)
    show "set (map fst (map (\<lambda>p. (JobID p, p)) ps)) = set (map fst (map (\<lambda>p. (JobID p, p)) (sort_key JobID ps)))"
      by (simp add: image_image)
    show "\<forall>k\<in>set (map fst (map (\<lambda>p. (JobID p, p)) ps)).
        map_of (map (\<lambda>p. (JobID p, p)) ps) k = map_of (map (\<lambda>p. (JobID p, p)) (sort_key JobID ps)) k"
    proof
      fix k
      assume "k \<in> set (map fst (map (\<lambda>p. (JobID p, p)) ps))"
      then obtain p where p: "p \<in> set ps" "k = JobID p" by auto
      have "map_of (map (\<lambda>p. (JobID p, p)) ps) k = Some p"
        using p d by (intro map_of_is_SomeI) (simp_all add: comp_def)
      moreover have "map_of (map (\<lambda>p. (JobID p, p)) (sort_key JobID ps)) k = Some p"
        using p d' by (intro map_of_is_SomeI) (simp_all add: comp_def)
      ultimately show "map_of (map (\<lambda>p. (JobID p, p)) ps) k =
          map_of (map (\<lambda>p. (JobID p, p)) (sort_key JobID ps)) k" by simp
    qed
  qed
  then show ?thesis using d' by (simp add: job_list_of_def job_map_def)
qed

subsection \<open>Operations\<close>

lemma mutate_result:
  assumes "mutate lib s flt f d = (r, d')"
  shows "(\<exists>e. r = Inl e) \<and> d_data d' = d_data d \<or>
         (\<exists>snap a. d_data d = Doc snap \<and> verifyIdentityLocked lib s snap = None \<and> r = Inr a \<and>
            (f snap = Inr (None, a) \<and> d_data d' = d_data d \<or>
             (\<exists>snap'. f snap = Inr (Some snap', a) \<and> d_data d' = Doc (pinSnapshot lib s snap'))))"
proof -
  have "mutate lib s flt f d = (r, d') \<Longrightarrow> ?thesis"
    unfolding mutate_def withLock_def loadVerifiedLocked_def readSnapshotLocked_def
    by (auto split: if_splits data_file.splits option.splits sum.splits prod.splits dest: write_data)
  then show ?thesis using assms by blast
qed

lemma query_result:
  assumes "query lib s flt f d = (r, d')"
  shows "d' = d \<and> ((\<exists>e. r = Inl e) \<or>
     (\<exists>snap. d_data d = Doc snap \<and> verifyIdentityLocked lib s snap = None \<and> r = Inr (f snap)))"
  using assms unfolding query_def withLock_def readSnapshotLocked_def
  by (auto split: if_splits data_file.splits option.splits)

text \<open>
  One lemma per shape: a mutator whose snapshot function computes \<open>g\<close> on the abstraction, a getter that
  reads \<open>h\<close>.
\<close>

lemma mutator_law:
  assumes inv: "fs_inv lib s w"
    and op: "on_disk (\<lambda>flt. mutate lib s flt f) w = (r, w')"
    and spec: "\<And>snap o' a. f snap = Inr (o', a) \<Longrightarrow> distinct (map JobID (Pending snap)) \<Longrightarrow>
        (case o' of None \<Rightarrow> g (abs_snap snap) = abs_snap snap
         | Some snap' \<Rightarrow> distinct (map JobID (Pending snap')) \<and> abs_snap snap' = g (abs_snap snap))"
  shows "fs_inv lib s w' \<and> applies r g (fs_abs w) (fs_abs w')"
proof -
  obtain snap where snap: "d_data (w_disk w) = Doc snap" "snap_ok lib s snap" and lib: "addr_lib_ok lib"
    using inv by (auto simp: fs_inv_def)
  obtain d' where m: "mutate lib s (next_fault (w_faults w)) f (w_disk w) = (r, d')"
      and w': "w' = w\<lparr>w_disk := d', w_faults := tl (w_faults w)\<rparr>"
    using op by (auto simp: on_disk_def split: prod.splits)
  consider (same) e where "r = Inl e" "d_data d' = d_data (w_disk w)"
    | (none) a where "r = Inr a" "f snap = Inr (None, a)" "d_data d' = d_data (w_disk w)"
    | (wrote) a snap' where "r = Inr a" "f snap = Inr (Some snap', a)" "d_data d' = Doc (pinSnapshot lib s snap')"
    using mutate_result [OF m] snap(1) by fastforce
  then show ?thesis
  proof cases
    case same
    then show ?thesis using snap lib w' by (simp add: fs_inv_def applies_def fs_abs_def)
  next
    case none
    then show ?thesis using snap lib w' spec [OF none(2)]
      by (simp add: fs_inv_def applies_def fs_abs_def abs_file_def snap_ok_def)
  next
    case wrote
    then show ?thesis using snap lib w' spec [OF wrote(2)]
      by (simp add: fs_inv_def applies_def fs_abs_def abs_file_def snap_ok_def)
  qed
qed

lemma getter_law:
  assumes inv: "fs_inv lib s w" and op: "on_disk (\<lambda>flt. query lib s flt f) w = (r, w')"
  shows "fs_inv lib s w' \<and> fs_abs w' = fs_abs w \<and>
    ((\<exists>e. r = Inl e) \<or> (\<exists>snap. r = Inr (f snap) \<and> fs_abs w = abs_snap snap \<and> distinct (map JobID (Pending snap))))"
proof -
  obtain d' where q: "query lib s (next_fault (w_faults w)) f (w_disk w) = (r, d')"
      and w': "w' = w\<lparr>w_disk := d', w_faults := tl (w_faults w)\<rparr>"
    using op by (auto simp: on_disk_def split: prod.splits)
  show ?thesis using query_result [OF q] inv w'
    by (auto simp: fs_inv_def fs_abs_def abs_file_def snap_ok_def)
qed

lemmas store_op_defs = FileStore_ops_def AddEligible_def PendingJobs_def RecordFailure_def GetReconcileBlock_def
  SetReconcileBlock_def GetLastReleaseTs_def SetLastReleaseTs_def GetNextAllowedAttempt_def SetNextAllowedAttempt_def

lemma spec_remove_nil [simp]: "spec_remove [] a = a"
  by (simp add: spec_remove_def restrict_map_def)

lemma Remove_nil: "on_disk (\<lambda>flt. Remove lib s flt []) w = (Inr (), w\<lparr>w_faults := tl (w_faults w)\<rparr>)"
  by (simp add: on_disk_def Remove_def)

lemma SetReconcile_forward:
  assumes "fs_inv lib s w" "on_disk (\<lambda>flt. SetReconcileBlock lib s flt blk) w = (r, w')"
  shows "a_cursor (fs_abs w) \<le> a_cursor (fs_abs w')"
proof -
  obtain snap where snap: "d_data (w_disk w) = Doc snap" using assms(1) by (auto simp: fs_inv_def)
  obtain d' where m: "SetReconcileBlock lib s (next_fault (w_faults w)) blk (w_disk w) = (r, d')"
      and w': "w' = w\<lparr>w_disk := d', w_faults := tl (w_faults w)\<rparr>"
    using assms(2) by (auto simp: on_disk_def split: prod.splits)
  have "d_data d' = Doc snap \<or> (LastReconciledBlock snap \<le> blk \<and>
      d_data d' = Doc (pinSnapshot lib s (snap\<lparr>LastReconciledBlock := blk\<rparr>)))"
    using mutate_result [OF m [unfolded SetReconcileBlock_def]] snap
    by (auto simp: linorder_not_less split: if_splits)
  then show ?thesis using snap w' by (auto simp: fs_abs_def abs_file_def abs_snap_def pinSnapshot_def)
qed

lemma spec_add_known:
  assumes "list_ex (\<lambda>p. JobID p = j) (Pending snap)"
  shows "spec_add j t (abs_snap snap) = abs_snap snap"
proof -
  obtain p where "job_map (Pending snap) j = Some p"
    using assms job_map_None [of "Pending snap" j] by (auto simp: list_ex_iff image_iff)
  then show ?thesis by (simp add: spec_add_def abs_snap_def)
qed

lemma spec_add_fresh:
  assumes "\<not> list_ex (\<lambda>p. JobID p = j) (Pending snap)"
  shows "abs_snap (snap\<lparr>Pending := Pending snap @ [new_pending j t]\<rparr>) = spec_add j t (abs_snap snap) \<and>
         j \<notin> JobID ` set (Pending snap)"
proof -
  have n: "j \<notin> JobID ` set (Pending snap)" using assms by (auto simp: list_ex_iff)
  then have "job_map (Pending snap) j = None" by (simp add: job_map_None)
  moreover have "JobID (new_pending j t) = j" by (simp add: new_pending_def)
  ultimately show ?thesis using n by (simp add: spec_add_def abs_snap_def job_map_append)
qed

lemma spec_fail_unknown:
  "bumpFailure j b (Pending snap) = None \<Longrightarrow> spec_fail j b (abs_snap snap) = abs_snap snap"
  by (simp add: bumpFailure_None spec_fail_def abs_snap_def)

lemma spec_fail_known:
  assumes "bumpFailure j b (Pending snap) = Some ps"
  shows "abs_snap (snap\<lparr>Pending := ps\<rparr>) = spec_fail j b (abs_snap snap) \<and> map JobID ps = map JobID (Pending snap)"
  using bumpFailure_map [OF assms] bumpFailure_ids [OF assms] by (auto simp: spec_fail_def abs_snap_def)

interpretation file_store: release_store "FileStore_ops lib s" "fs_inv lib s" fs_abs for lib s
proof (unfold_locales, goal_cases)
  case (1 w j t r w')
  show ?case
    by (rule mutator_law [OF 1(1) 1(2) [simplified store_op_defs store_ops.simps]])
      (auto simp: new_pending_def [symmetric] spec_add_known spec_add_fresh split: if_splits,
        auto simp: list_ex_iff new_pending_def)
next
  case (2 w js r w')
  show ?case
  proof (cases "js = []")
    case True
    then show ?thesis using 2
      by (auto simp: FileStore_ops_def Remove_nil applies_def fs_inv_def fs_abs_def)
  next
    case False
    then have eq: "Remove lib s flt js = mutate lib s flt (\<lambda>snap.
        Inr (Some (snap\<lparr>Pending := filter (\<lambda>p. JobID p \<notin> set js) (Pending snap)\<rparr>), ()))" for flt
      by (simp add: Remove_def fun_eq_iff)
    show ?thesis
      by (rule mutator_law [OF 2(1) 2(2) [simplified FileStore_ops_def store_ops.simps eq]])
        (auto simp: abs_snap_def spec_remove_def job_map_filter distinct_map_filter)
  qed
next
  case (3 w j b r w')
  show ?case
    by (rule mutator_law [OF 3(1) 3(2) [simplified store_op_defs store_ops.simps]])
      (auto simp: spec_fail_unknown spec_fail_known split: option.splits)
next
  case (4 w blk r w')
  have "fs_inv lib s w' \<and> applies r (a_cursor_update (\<lambda>_. blk)) (fs_abs w) (fs_abs w')"
    by (rule mutator_law [OF 4(1) 4(2) [simplified store_op_defs store_ops.simps]])
      (auto simp: abs_snap_def split: if_splits)
  then show ?case using SetReconcile_forward [of lib s w blk r w'] 4 by (simp add: FileStore_ops_def)
next
  case (5 w t r w')
  show ?case
    by (rule mutator_law [OF 5(1) 5(2) [simplified store_op_defs store_ops.simps]]) (auto simp: abs_snap_def)
next
  case (6 w t r w')
  show ?case
    by (rule mutator_law [OF 6(1) 6(2) [simplified store_op_defs store_ops.simps]]) (auto simp: abs_snap_def)
next
  case (7 w r w')
  show ?case using getter_law [OF 7(1) 7(2) [unfolded FileStore_ops_def store_ops.simps PendingJobs_def [abs_def]]]
    by (auto simp: abs_snap_def job_list_sort)
next
  case (8 w r w')
  show ?case using getter_law [OF 8(1) 8(2) [unfolded FileStore_ops_def store_ops.simps GetReconcileBlock_def [abs_def]]]
    by (auto simp: abs_snap_def reads_def)
next
  case (9 w r w')
  show ?case using getter_law [OF 9(1) 9(2) [unfolded FileStore_ops_def store_ops.simps GetLastReleaseTs_def [abs_def]]]
    by (auto simp: abs_snap_def reads_def)
next
  case (10 w r w')
  show ?case using getter_law [OF 10(1) 10(2) [unfolded FileStore_ops_def store_ops.simps GetNextAllowedAttempt_def [abs_def]]]
    by (auto simp: abs_snap_def reads_def)
qed

section \<open>Properties\<close>

lemma verify_cong: "fs_identity s = fs_identity s' \<Longrightarrow> verifyIdentityLocked lib s = verifyIdentityLocked lib s'"
  by (simp add: fun_eq_iff verifyIdentityLocked_def)

definition usable :: "addr_lib \<Rightarrow> FileStore \<Rightarrow> data_file \<Rightarrow> bool" where
  "usable lib s f = (case f of Doc snap \<Rightarrow> verifyIdentityLocked lib s snap = None | _ \<Rightarrow> False)"

lemma load_unusable: "\<not> usable lib s (d_data d) \<Longrightarrow> \<exists>e. loadVerifiedLocked lib s flt d = Inl e"
  by (auto simp: usable_def loadVerifiedLocked_def readSnapshotLocked_def split: data_file.splits)

lemma mutate_unusable: "\<not> usable lib s (d_data d) \<Longrightarrow> \<exists>e. mutate lib s flt f d = (Inl e, d)"
  using load_unusable [of lib s d flt] by (auto simp: mutate_def withLock_def)

lemma query_unusable: "\<not> usable lib s (d_data d) \<Longrightarrow> \<exists>e. query lib s flt f d = (Inl e, d)"
  by (auto simp: usable_def query_def withLock_def readSnapshotLocked_def split: data_file.splits)

lemma on_disk_unchanged:
  assumes "\<exists>e. f (next_fault (w_faults w)) (w_disk w) = (Inl e, w_disk w)"
  shows "\<exists>e w'. on_disk f w = (Inl e, w') \<and> w_disk w' = w_disk w"
  using assms by (auto simp: on_disk_def)

lemma exec_cmd_unusable:
  assumes "\<not> usable lib s (d_data (w_disk w))" "c \<noteq> CmdRemove []"
  shows "\<exists>e w'. exec_cmd (FileStore_ops lib s) c w = (Inl e, w') \<and> w_disk w' = w_disk w"
proof (cases c)
  case (CmdRemove js)
  then show ?thesis using assms on_disk_unchanged [of "\<lambda>flt. Remove lib s flt js" w]
    by (simp add: FileStore_ops_def Remove_def mutate_unusable)
qed (simp_all add: store_op_defs on_disk_unchanged mutate_unusable assms(1))

text \<open>An address printer for the examples: one character per unit.\<close>

definition demo_lib :: addr_lib where
  "demo_lib = \<lparr>Hex = \<lambda>a. replicate (unat a) CHR ''x'', IsHexAddress = \<lambda>_. True, HexToAddress = \<lambda>h. of_nat (length h)\<rparr>"

definition demo_store :: FileStore where
  "demo_store = \<lparr>fs_identity = \<lparr>IdChainID = 7, IdJobRegistry = 1, IdWorkerAddress = 2\<rparr>, fs_closed = False\<rparr>"

definition demo_snapshot :: "PendingJob list \<Rightarrow> Snapshot" where
  "demo_snapshot ps = \<lparr>SnapSchemaVersion = 2, SnapChainID = 7, SnapJobRegistry = ''x'', SnapWorkerAddress = ''xx'',
     Pending = ps, LastReconciledBlock = 10, LastReleaseTs = 0, NextAllowedAttempt = 0\<rparr>"

definition demo_world :: "PendingJob list \<Rightarrow> store_world" where
  "demo_world ps = \<lparr>w_disk = \<lparr>d_data = Doc (demo_snapshot ps), d_tmp = NoFile\<rparr>, w_faults = []\<rparr>"

lemma demo_lib_ok: "addr_lib_ok demo_lib"
  by (simp add: addr_lib_ok_def demo_lib_def)

lemma demo_verify: "verifyIdentityLocked demo_lib demo_store (demo_snapshot ps) = None"
  by (simp add: verifyIdentityLocked_def demo_lib_def demo_store_def demo_snapshot_def SchemaVersion_def addrEqualHex_def)

lemma demo_world_inv: "distinct (map JobID ps) \<Longrightarrow> fs_inv demo_lib demo_store (demo_world ps)"
  by (simp add: fs_inv_def demo_lib_ok demo_world_def snap_ok_def demo_verify) (simp add: demo_snapshot_def)

text \<open>
  C6. The file implements the abstract store. In every sequence of mutations of one state file by
  stores of its identity, whatever I/O faults they meet, a failed mutation changes nothing and the file
  always holds exactly what the specifications of the successful ones give: AddEligible keeps a known
  job's first timestamp and its fail count, Remove forgets the named jobs, RecordFailure touches one job,
  job ids stay unique and the reconcile cursor never moves backwards.
\<close>

theorem file_store_refines_spec:
  assumes "fs_inv lib s w" "exec_cmds (FileStore_ops lib s) cs w = (succeeded, w')"
  shows "fs_inv lib s w' \<and> fs_abs w' = spec_cmds succeeded (fs_abs w) \<and>
         a_cursor (fs_abs w) \<le> a_cursor (fs_abs w')"
  using assms by (rule file_store.exec_cmds_sim)

theorem file_store_refines_spec_witness:
  "fs_abs (snd (exec_cmds (FileStore_ops demo_lib demo_store) [CmdAdd 4 100, CmdAdd 4 200, CmdCursor 9] (demo_world [])))
     = \<lparr>a_pending = [4 \<mapsto> new_pending 4 100], a_cursor = 10, a_lastRelease = 0, a_nextAllowed = 0\<rparr>"
proof -
  let ?cs = "[CmdAdd 4 100, CmdAdd 4 200, CmdCursor 9]"
  let ?r = "exec_cmds (FileStore_ops demo_lib demo_store) ?cs (demo_world [])"
  have d: "fst ?r = [CmdAdd 4 100, CmdAdd 4 200]" by code_simp
  have "exec_cmds (FileStore_ops demo_lib demo_store) ?cs (demo_world []) = (fst ?r, snd ?r)" by simp
  from file_store_refines_spec [OF demo_world_inv this] show ?thesis unfolding d
    by (simp add: spec_cmds_def spec_add_def demo_world_def fs_abs_def abs_file_def abs_snap_def demo_snapshot_def
        job_map_def new_pending_def)
qed

text \<open>
  C36. A power failure at any point of a write loses nothing. Start from a store whose document is on stable storage and let
  writeSnapshotLocked meet any fault; stop it after any number of its file-system operations and let the machine lose
  everything that was not synced (the bytes of a file not synced since its last write may be anything, a rename
  not followed by a directory sync may or may not have happened). Whatever the data file then holds, reopening the store
  succeeds and reads a complete document: the old one if the rename was not reached or the call failed, and
  the new one if the call went through to the end and its directory sync took effect.
\<close>

theorem write_crash_atomic:
  assumes "addr_lib_ok lib" "pd_files p = [(Doc old, True)]" "verifyIdentityLocked lib s old = None"
    and "path \<noteq> []" "IdChainID (fs_identity s) \<noteq> 0" "IdWorkerAddress (fs_identity s) \<noteq> 0"
        "IdJobRegistry (fs_identity s) \<noteq> 0"
    and "survives (persistSteps (take n (writeOps flt (pinSnapshot lib s new))) p) f" "d_data d = f"
  shows "\<exists>s' snap. NewFileStore lib path (fs_identity s) NoFault d = (Inr s', d) \<and>
           PendingJobs lib s' NoFault d = (Inr (sort_key JobID (Pending snap)), d) \<and>
           GetReconcileBlock lib s' NoFault d = (Inr (LastReconciledBlock snap), d) \<and>
           (if n < 7 \<or> fst (writeSnapshotLocked lib s flt new (pd_view p)) \<noteq> None then snap = old
            else if n < 8 \<or> flt = SyncDirErr then snap = old \<or> snap = new
            else snap = new)"
proof -
  let ?s = "\<lparr>fs_identity = fs_identity s, fs_closed = False\<rparr>"
  have v: "verifyIdentityLocked lib ?s = verifyIdentityLocked lib s" by (rule verify_cong) simp
  have sv: "list_ex (\<lambda>(c, synced). synced \<longrightarrow> f = c) (files_after flt n (pinSnapshot lib s new) (Doc old))"
    using assms(8) by (simp add: survives_def persist_write [OF assms(2)])
  obtain snap doc where doc: "d_data d = Doc doc" "verifyIdentityLocked lib ?s doc = None"
      "Pending doc = Pending snap" "LastReconciledBlock doc = LastReconciledBlock snap"
    and snap: "if n < 7 \<or> writeErr flt \<noteq> None then snap = old else if n < 8 \<or> flt = SyncDirErr then snap = old \<or> snap = new else snap = new"
  proof (cases "f = Doc old \<and> (n < 8 \<or> writeErr flt \<noteq> None \<or> flt = SyncDirErr)")
    case True
    then show ?thesis using that [of old old] assms(3,9) by (auto simp: v)
  next
    case False
    then have "f = Doc (pinSnapshot lib s new) \<and> \<not> (n < 7 \<or> writeErr flt \<noteq> None)"
      using sv by (auto simp: files_after_def split: if_splits)
    moreover have "LastReconciledBlock (pinSnapshot lib s new) = LastReconciledBlock new" by (simp add: pinSnapshot_def)
    ultimately show ?thesis using that [of "pinSnapshot lib s new" new] assms(1,9) by (auto simp: v)
  qed
  have "NewFileStore lib path (fs_identity s) NoFault d = (Inr ?s, d)"
    using assms(4-7) doc(1,2) by (simp add: NewFileStore_def Let_def withLock_def readSnapshotLocked_def)
  moreover have "PendingJobs lib ?s NoFault d = (Inr (sort_key JobID (Pending snap)), d)"
    using doc by (simp add: PendingJobs_def query_def withLock_def readSnapshotLocked_def)
  moreover have "GetReconcileBlock lib ?s NoFault d = (Inr (LastReconciledBlock snap), d)"
    using doc by (simp add: GetReconcileBlock_def query_def withLock_def readSnapshotLocked_def)
  ultimately show ?thesis using snap by (intro exI [of _ ?s] exI [of _ snap]) (simp add: writeSnapshotLocked_def)
qed

definition demo_pdisk :: pdisk where
  "demo_pdisk = \<lparr>pd_view = w_disk (demo_world [new_pending 4 100]), pd_tmpSynced = False,
     pd_files = [(Doc (demo_snapshot [new_pending 4 100]), True)]\<rparr>"

text \<open>The power fails right after the rename and takes it back.\<close>

theorem write_crash_atomic_witness:
  "\<exists>s' snap. NewFileStore demo_lib ''/state.json'' (fs_identity demo_store) NoFault (w_disk (demo_world [new_pending 4 100])) =
       (Inr s', w_disk (demo_world [new_pending 4 100])) \<and>
     PendingJobs demo_lib s' NoFault (w_disk (demo_world [new_pending 4 100])) =
       (Inr (sort_key JobID (Pending snap)), w_disk (demo_world [new_pending 4 100])) \<and>
     (snap = demo_snapshot [new_pending 4 100] \<or> snap = demo_snapshot [])"
proof -
  let ?new = "pinSnapshot demo_lib demo_store (demo_snapshot [])"
  have "survives (persistSteps (take 7 (writeOps NoFault ?new)) demo_pdisk) (Doc (demo_snapshot [new_pending 4 100]))"
    by (simp add: demo_pdisk_def writeOps_def writeSteps_def persistSteps_def survives_def numeral_eq_Suc)
  from write_crash_atomic [OF demo_lib_ok _ demo_verify [of "[new_pending 4 100]"] _ _ _ _ this, where path = "''/state.json''" and d = "w_disk (demo_world [new_pending 4 100])"]
  show ?thesis by (fastforce simp: demo_pdisk_def demo_world_def demo_store_def writeSnapshotLocked_def writeErr_def)
qed

text \<open>
  State that is not this worker's is never touched: when the data file is empty, unparsable, of
  another schema version, chain, registry or worker, every mutation and every read returns an error and
  leaves the directory as it is, and the store cannot even be opened; only a missing file is initialised.
\<close>

theorem foreign_state_untouched:
  assumes "\<not> usable lib s (d_data (w_disk w))" "c \<noteq> CmdRemove []" "d_data (w_disk w) \<noteq> NoFile"
  shows "(\<exists>e w'. exec_cmd (FileStore_ops lib s) c w = (Inl e, w') \<and> w_disk w' = w_disk w) \<and>
         (\<exists>e w'. st_Pending (FileStore_ops lib s) w = (Inl e, w') \<and> w_disk w' = w_disk w) \<and>
         (\<exists>e. NewFileStore lib path (fs_identity s) flt (w_disk w) = (Inl e, w_disk w))"
proof (intro conjI)
  show "\<exists>e w'. exec_cmd (FileStore_ops lib s) c w = (Inl e, w') \<and> w_disk w' = w_disk w"
    by (rule exec_cmd_unusable [OF assms(1,2)])
  show "\<exists>e w'. st_Pending (FileStore_ops lib s) w = (Inl e, w') \<and> w_disk w' = w_disk w"
    by (simp add: store_op_defs on_disk_unchanged query_unusable assms(1))
  have v: "verifyIdentityLocked lib \<lparr>fs_identity = fs_identity s, fs_closed = False\<rparr> = verifyIdentityLocked lib s"
    by (rule verify_cong) simp
  show "\<exists>e. NewFileStore lib path (fs_identity s) flt (w_disk w) = (Inl e, w_disk w)"
    using assms(1,3)
    by (auto simp: NewFileStore_def Let_def withLock_def readSnapshotLocked_def usable_def v errors_Is_def
        sentinel_err_def errorf_def split: data_file.splits)
qed

theorem foreign_state_untouched_witness:
  "\<exists>e. NewFileStore demo_lib ''/state.json'' \<lparr>IdChainID = 8, IdJobRegistry = 1, IdWorkerAddress = 2\<rparr> NoFault
      (w_disk (demo_world [])) = (Inl e, w_disk (demo_world []))"
  using foreign_state_untouched [of demo_lib "\<lparr>fs_identity = \<lparr>IdChainID = 8, IdJobRegistry = 1, IdWorkerAddress = 2\<rparr>, fs_closed = False\<rparr>"
      "demo_world []" "CmdAdd 1 1" "''/state.json''" NoFault]
  by (simp add: usable_def demo_world_def demo_snapshot_def verifyIdentityLocked_def SchemaVersion_def)

end
