(* ===== verification/Release_Config.thy ===== *)
theory Release_Config
  imports Go_Prelude
begin

text \<open>
  The configuration of the release subsystem (internal/release/config.go): the record, its defaults and
  Validate. Durations are nanoseconds. Parsing of the environment (ConfigFromEnv) is not modelled here.
\<close>

record Config =
  Enabled :: bool
  StatePath :: string
  Interval :: int
  ProbeInterval :: int
  BatchThreshold :: int
  MaxBatchSize :: int
  TxTimeout :: int
  StartBlock :: u64
  ChunkSize :: u64
  Confirmations :: u64
  ReconcileInterval :: int
  BackoffBase :: int
  BackoffMax :: int
  PausedCycleBackoff :: int
  StaleDisputeWarnAfter :: int
  DisputeWindowOverride :: int
  DisputeWindowCacheTTL :: int

definition DefaultConfig :: Config where
  "DefaultConfig = \<lparr>Enabled = True, StatePath = ''./release_state.json'', Interval = 8 * Hour,
     ProbeInterval = 5 * Minute, BatchThreshold = 20, MaxBatchSize = 50, TxTimeout = 120 * Second,
     StartBlock = 0, ChunkSize = 5000, Confirmations = 5, ReconcileInterval = Hour,
     BackoffBase = 15 * Minute, BackoffMax = 24 * Hour, PausedCycleBackoff = Hour,
     StaleDisputeWarnAfter = 168 * Hour, DisputeWindowOverride = 0, DisputeWindowCacheTTL = 15 * Minute\<rparr>"

definition check :: "bool \<Rightarrow> string \<Rightarrow> string list" where
  "check bad msg = (if bad then [msg] else [])"

definition Validate :: "Config \<Rightarrow> string list" where
  "Validate c =
     (if \<not> Enabled c then check (StatePath c = []) ''StatePath must not be empty''
      else
        check (StatePath c = []) ''StatePath must not be empty'' @
        check (Interval c \<le> 0) ''Interval must be positive'' @
        check (ProbeInterval c \<le> 0) ''ProbeInterval must be positive'' @
        check (Interval c < ProbeInterval c) ''ProbeInterval must be at most Interval'' @
        check (BatchThreshold c < 1) ''BatchThreshold must be at least 1'' @
        check (MaxBatchSize c < 1) ''MaxBatchSize must be at least 1'' @
        check (TxTimeout c \<le> 0) ''TxTimeout must be positive'' @
        check (ChunkSize c = 0) ''ChunkSize must be at least 1'' @
        check (ReconcileInterval c \<le> 0) ''ReconcileInterval must be positive'' @
        check (BackoffBase c \<le> 0) ''BackoffBase must be positive'' @
        check (BackoffMax c < BackoffBase c) ''BackoffMax must be at least BackoffBase'' @
        check (PausedCycleBackoff c \<le> 0) ''PausedCycleBackoff must be positive'' @
        check (DisputeWindowCacheTTL c < 0) ''DisputeWindowCacheTTL must not be negative'')"

lemma check_nil [simp]: "check b m = [] \<longleftrightarrow> \<not> b"
  by (simp add: check_def)

lemma Validate_nil:
  "Enabled c \<Longrightarrow> Validate c = [] \<longleftrightarrow>
     StatePath c \<noteq> [] \<and> 0 < Interval c \<and> 0 < ProbeInterval c \<and> ProbeInterval c \<le> Interval c \<and>
     1 \<le> BatchThreshold c \<and> 1 \<le> MaxBatchSize c \<and> 0 < TxTimeout c \<and> ChunkSize c \<noteq> 0 \<and>
     0 < ReconcileInterval c \<and> 0 < BackoffBase c \<and> BackoffBase c \<le> BackoffMax c \<and>
     0 < PausedCycleBackoff c \<and> 0 \<le> DisputeWindowCacheTTL c"
  by (auto simp: Validate_def)

lemma DefaultConfig_valid: "Validate DefaultConfig = []"
  by (simp add: Validate_nil DefaultConfig_def)

end
