(* ===== verification/Chain_Reads.thy ===== *)
theory Chain_Reads
  imports Go_Prelude Send_Errors
begin

text \<open>
  The read side of ChainClient (internal/chain/client.go, interfaces.go): the types the release
  subsystem, the sortition watchers and the pipeline exchange with it, the reads that project contract
  storage onto them, the event filters, and the memoised dispute window.

  The generated contract bindings and the RPC client are arguments: an optional binding (\<open>None\<close> is the
  nil pointer of a client built without that contract), and the answer of the call. A \<open>*big.Int\<close> is an
  \<open>int option\<close> (\<open>None\<close> is nil); \<open>Int64\<close> and \<open>Uint64\<close> keep the low 64 bits. A log iterator is the
  list of its decoded events (\<open>None\<close> is a nil event) and the error it ends with.
\<close>

section \<open>Types\<close>

datatype JobState =
    JobStateSubmitted | JobStateAcknowledged | JobStateCompleted | JobStateTimedOut
  | JobStateDisputed | JobStateResolved | JobStateReleased | JobStateOther byte

definition JobState_of :: "byte \<Rightarrow> JobState" where
  "JobState_of b =
     (if b = 0 then JobStateSubmitted else if b = 1 then JobStateAcknowledged
      else if b = 2 then JobStateCompleted else if b = 3 then JobStateTimedOut
      else if b = 4 then JobStateDisputed else if b = 5 then JobStateResolved
      else if b = 6 then JobStateReleased else JobStateOther b)"

record JobStateInfo =
  ji_State :: JobState
  ji_Worker :: address
  ji_CompletedAt :: int
  ji_EscrowedFee :: "int option"

record HeadInfo =
  hd_Number :: u64
  hd_Timestamp :: int

record JobCompletedEvent =
  jc_JobID :: u64
  jc_Worker :: address
  jc_BlockNumber :: u64

record SessionRequestedEvent =
  sr_ReqID :: u64
  sr_User :: address
  sr_ModelID :: hash
  sr_RequestBlock :: u64
  sr_BlockNumber :: u64

record JobSubmittedEvent =
  jb_JobID :: u64
  jb_SessionID :: u64
  jb_Worker :: address
  jb_BlockNumber :: u64

record SessionInfo =
  si_User :: address
  si_ModelID :: hash
  si_Worker :: address
  si_Status :: byte

record RequestInfo =
  rq_Status :: byte
  rq_Expiry :: u64
  rq_Worker :: address

section \<open>Contract storage as the bindings return it\<close>

record contract_job =
  cj_State :: byte
  cj_Worker :: address
  cj_CompletedAt :: "int option"
  cj_Deadline :: "int option"
  cj_EscrowedFee :: "int option"
  cj_PromptBlobHash :: hash
  cj_ResponseBlobHash :: hash
  cj_SubmitBlockNumber :: int
  cj_CompletionBlockNumber :: int

record contract_session =
  cs_User :: address
  cs_ModelId :: hash
  cs_Worker :: address
  cs_Status :: byte
  cs_EncWorkerKey :: bytes

type_synonym 'e log_iter = "'e option list \<times> go_error option"

definition requireJobRegistry :: "'b option \<Rightarrow> go_error + 'b" where
  "requireJobRegistry reg =
     (case reg of None \<Rightarrow> Inl (errorf ''jobRegistry not configured'') | Some b \<Rightarrow> Inr b)"

definition requireSessionManager :: "'b option \<Rightarrow> go_error + 'b" where
  "requireSessionManager sm =
     (case sm of None \<Rightarrow> Inl (errorf ''session manager binding not configured'') | Some b \<Rightarrow> Inr b)"

section \<open>Reads of one job\<close>

definition GetJobState :: "(u64 \<Rightarrow> go_error + contract_job) option \<Rightarrow> u64 \<Rightarrow> go_error + JobStateInfo" where
  "GetJobState reg jobID =
     (case requireJobRegistry reg of
        Inl e \<Rightarrow> Inl e
      | Inr GetJob \<Rightarrow>
          (case GetJob jobID of
             Inl e \<Rightarrow> Inl (wrapf ''GetJob'' e)
           | Inr job \<Rightarrow>
               Inr \<lparr>ji_State = JobState_of (cj_State job), ji_Worker = cj_Worker job,
                    ji_CompletedAt = (case cj_CompletedAt job of None \<Rightarrow> 0 | Some t \<Rightarrow> i64 t),
                    ji_EscrowedFee = Some (case cj_EscrowedFee job of None \<Rightarrow> 0 | Some f \<Rightarrow> f)\<rparr>))"

text \<open>The deadline in unix seconds and whether it bounds completion (after the acknowledgement).\<close>

definition GetJobDeadline :: "(u64 \<Rightarrow> go_error + contract_job) option \<Rightarrow> u64 \<Rightarrow> go_error + int \<times> bool" where
  "GetJobDeadline reg jobID =
     (case requireJobRegistry reg of
        Inl e \<Rightarrow> Inl e
      | Inr GetJob \<Rightarrow>
          (case GetJob jobID of
             Inl e \<Rightarrow> Inl (wrapf ''GetJob'' e)
           | Inr job \<Rightarrow>
               (case cj_Deadline job of
                  None \<Rightarrow> Inl (errorf ''zero deadline (job missing or predates deadline field)'')
                | Some dl \<Rightarrow>
                    (if dl = 0 then Inl (errorf ''zero deadline (job missing or predates deadline field)'')
                     else Inr (i64 dl, 1 \<le> cj_State job)))))"

definition GetJobBlobInfo :: "(u64 \<Rightarrow> go_error + contract_job) option \<Rightarrow> u64 \<Rightarrow> go_error + hash \<times> hash \<times> u64 \<times> u64" where
  "GetJobBlobInfo reg jobID =
     (case requireJobRegistry reg of
        Inl e \<Rightarrow> Inl e
      | Inr GetJob \<Rightarrow>
          (case GetJob jobID of
             Inl e \<Rightarrow> Inl (wrapf ''GetJob'' e)
           | Inr job \<Rightarrow>
               Inr (cj_PromptBlobHash job, cj_ResponseBlobHash job,
                    word_of_int (cj_SubmitBlockNumber job), word_of_int (cj_CompletionBlockNumber job))))"

section \<open>Reads of one session\<close>

definition sessionStatusActive :: byte where
  "sessionStatusActive = 0"

definition sessionNotActiveErr :: "u64 \<Rightarrow> byte \<Rightarrow> go_error" where
  "sessionNotActiveErr sessionID status = wrapf ''session'' (sentinel_err ''session not active'' ErrSessionNotActive)"

definition GetSessionEncWorkerKey :: "(u64 \<Rightarrow> go_error + contract_session) option \<Rightarrow> u64 \<Rightarrow> go_error + bytes" where
  "GetSessionEncWorkerKey reg sessionID =
     (case requireJobRegistry reg of
        Inl e \<Rightarrow> Inl e
      | Inr GetSession \<Rightarrow>
          (case GetSession sessionID of
             Inl e \<Rightarrow> Inl (wrapf ''GetSession'' e)
           | Inr sess \<Rightarrow>
               (if cs_Status sess \<noteq> sessionStatusActive then Inl (sessionNotActiveErr sessionID (cs_Status sess))
                else if cs_EncWorkerKey sess = [] then Inl (errorf ''session has empty encWorkerKey'')
                else Inr (cs_EncWorkerKey sess))))"

definition GetSessionInfo :: "(u64 \<Rightarrow> go_error + contract_session) option \<Rightarrow> u64 \<Rightarrow> go_error + SessionInfo" where
  "GetSessionInfo reg sessionID =
     (case requireJobRegistry reg of
        Inl e \<Rightarrow> Inl e
      | Inr GetSession \<Rightarrow>
          (case GetSession sessionID of
             Inl e \<Rightarrow> Inl (wrapf ''GetSession'' e)
           | Inr s \<Rightarrow> Inr \<lparr>si_User = cs_User s, si_ModelID = cs_ModelId s, si_Worker = cs_Worker s, si_Status = cs_Status s\<rparr>))"

definition GetRequestInfo :: "(u64 \<Rightarrow> go_error + RequestInfo) option \<Rightarrow> u64 \<Rightarrow> go_error + RequestInfo" where
  "GetRequestInfo sm reqID =
     (case requireSessionManager sm of
        Inl e \<Rightarrow> Inl e
      | Inr GetRequest \<Rightarrow>
          (case GetRequest reqID of Inl e \<Rightarrow> Inl (wrapf ''getRequest'' e) | Inr r \<Rightarrow> Inr r))"

definition EligibleNow :: "(u64 \<Rightarrow> address \<Rightarrow> go_error + bool) option \<Rightarrow> u64 \<Rightarrow> address \<Rightarrow> go_error + bool" where
  "EligibleNow sm reqID worker =
     (case requireSessionManager sm of
        Inl e \<Rightarrow> Inl e
      | Inr eligible \<Rightarrow>
          (case eligible reqID worker of Inl e \<Rightarrow> Inl (wrapf ''eligibleNow'' e) | Inr b \<Rightarrow> Inr b))"

section \<open>Event filters\<close>

definition HasJobAcknowledged :: "(u64 \<Rightarrow> go_error + 'e log_iter) option \<Rightarrow> u64 \<Rightarrow> go_error + bool" where
  "HasJobAcknowledged reg jobID =
     (case requireJobRegistry reg of
        Inl e \<Rightarrow> Inl e
      | Inr filt \<Rightarrow>
          (case filt jobID of
             Inl e \<Rightarrow> Inl (wrapf ''filter JobAcknowledged'' e)
           | Inr (evs, err) \<Rightarrow>
               (if evs \<noteq> [] then Inr True
                else case err of Some e \<Rightarrow> Inl (wrapf ''iterate JobAcknowledged events'' e) | None \<Rightarrow> Inr False)))"

definition HasJobCompleted :: "(u64 \<Rightarrow> go_error + 'e log_iter) option \<Rightarrow> u64 \<Rightarrow> go_error + bool" where
  "HasJobCompleted reg jobID =
     (case requireJobRegistry reg of
        Inl e \<Rightarrow> Inl e
      | Inr filt \<Rightarrow>
          (case filt jobID of
             Inl e \<Rightarrow> Inl (wrapf ''filter JobCompleted'' e)
           | Inr (evs, err) \<Rightarrow>
               (if evs \<noteq> [] then Inr True
                else case err of Some e \<Rightarrow> Inl (wrapf ''iterate JobCompleted events'' e) | None \<Rightarrow> Inr False)))"

text \<open>The decoded log of the bindings: big-integer ids, possibly nil.\<close>

record completed_log =
  cl_JobId :: "int option"
  cl_Worker :: address
  cl_Block :: u64

definition FilterJobCompleted ::
  "(address \<Rightarrow> u64 \<Rightarrow> u64 \<Rightarrow> go_error + completed_log log_iter) option \<Rightarrow> address \<Rightarrow> u64 \<Rightarrow> u64 \<Rightarrow>
     go_error + JobCompletedEvent list" where
  "FilterJobCompleted reg worker fromBlock toBlock =
     (case requireJobRegistry reg of
        Inl e \<Rightarrow> Inl e
      | Inr filt \<Rightarrow>
          (if toBlock < fromBlock then Inl (errorf ''FilterJobCompleted: toBlock < fromBlock'')
           else case filt worker fromBlock toBlock of
             Inl e \<Rightarrow> Inl (wrapf ''filter JobCompleted'' e)
           | Inr (evs, Some e) \<Rightarrow> Inl (wrapf ''iterate JobCompleted'' e)
           | Inr (evs, None) \<Rightarrow>
               Inr (List.map_filter (\<lambda>ev. case ev of None \<Rightarrow> None
                      | Some l \<Rightarrow> map_option (\<lambda>j. \<lparr>jc_JobID = word_of_int j, jc_Worker = cl_Worker l, jc_BlockNumber = cl_Block l\<rparr>)
                                   (cl_JobId l)) evs)))"

record submitted_log =
  sl_JobId :: "int option"
  sl_SessionId :: int
  sl_Worker :: address
  sl_Block :: u64

definition FilterJobSubmitted ::
  "(u64 \<Rightarrow> u64 \<Rightarrow> go_error + submitted_log log_iter) option \<Rightarrow> u64 \<Rightarrow> u64 \<Rightarrow> go_error + JobSubmittedEvent list" where
  "FilterJobSubmitted reg fromBlock toBlock =
     (if toBlock < fromBlock then Inl (errorf ''FilterJobSubmitted: toBlock < fromBlock'')
      else case requireJobRegistry reg of
        Inl e \<Rightarrow> Inl e
      | Inr filt \<Rightarrow>
          (case filt fromBlock toBlock of
             Inl e \<Rightarrow> Inl (wrapf ''filter JobSubmitted'' e)
           | Inr (evs, Some e) \<Rightarrow> Inl (wrapf ''iterate JobSubmitted'' e)
           | Inr (evs, None) \<Rightarrow>
               Inr (List.map_filter (\<lambda>ev. case ev of None \<Rightarrow> None
                      | Some l \<Rightarrow> map_option (\<lambda>j. \<lparr>jb_JobID = word_of_int j, jb_SessionID = word_of_int (sl_SessionId l),
                                     jb_Worker = sl_Worker l, jb_BlockNumber = sl_Block l\<rparr>) (sl_JobId l)) evs)))"

record requested_log =
  rl_ReqId :: "int option"
  rl_User :: address
  rl_ModelId :: hash
  rl_RequestBlock :: int
  rl_Block :: u64

definition FilterSessionRequested ::
  "(u64 \<Rightarrow> u64 \<Rightarrow> go_error + requested_log log_iter) option \<Rightarrow> u64 \<Rightarrow> u64 \<Rightarrow> go_error + SessionRequestedEvent list" where
  "FilterSessionRequested sm fromBlock toBlock =
     (if toBlock < fromBlock then Inl (errorf ''FilterSessionRequested: toBlock < fromBlock'')
      else case requireSessionManager sm of
        Inl e \<Rightarrow> Inl e
      | Inr filt \<Rightarrow>
          (case filt fromBlock toBlock of
             Inl e \<Rightarrow> Inl (wrapf ''filter SessionRequested'' e)
           | Inr (evs, Some e) \<Rightarrow> Inl (wrapf ''iterate SessionRequested'' e)
           | Inr (evs, None) \<Rightarrow>
               Inr (List.map_filter (\<lambda>ev. case ev of None \<Rightarrow> None
                      | Some l \<Rightarrow> map_option (\<lambda>j. \<lparr>sr_ReqID = word_of_int j, sr_User = rl_User l, sr_ModelID = rl_ModelId l,
                                     sr_RequestBlock = word_of_int (rl_RequestBlock l), sr_BlockNumber = rl_Block l\<rparr>) (rl_ReqId l)) evs)))"

section \<open>Head and the dispute window\<close>

definition Head :: "go_error + int option \<times> u64 \<Rightarrow> go_error + HeadInfo" where
  "Head header =
     (case header of
        Inl e \<Rightarrow> Inl (wrapf ''HeaderByNumber(latest)'' e)
      | Inr (None, _) \<Rightarrow> Inl (errorf ''HeaderByNumber returned nil block number'')
      | Inr (Some n, t) \<Rightarrow> Inr \<lparr>hd_Number = word_of_int n, hd_Timestamp = sint t\<rparr>)"

record dispute_cache =
  dw_value :: int
  dw_expires :: "int option"
  dw_ttl :: int

definition defaultDisputeWindowCacheTTL :: int where
  "defaultDisputeWindowCacheTTL = 15 * Minute"

definition SetDisputeWindowCacheTTL :: "int \<Rightarrow> dispute_cache \<Rightarrow> dispute_cache" where
  "SetDisputeWindowCacheTTL ttl c = c\<lparr>dw_ttl := ttl, dw_expires := None\<rparr>"

text \<open>\<open>now\<close> is read at the entry, \<open>now'\<close> after the call; \<open>raw\<close> is what AIConfig answers.\<close>

definition GetDisputeWindow ::
  "int \<Rightarrow> int \<Rightarrow> go_error + int option \<Rightarrow> dispute_cache \<Rightarrow> (go_error + int) \<times> dispute_cache" where
  "GetDisputeWindow now now' raw c =
     (if (case dw_expires c of None \<Rightarrow> False | Some t \<Rightarrow> now < t) then (Inr (dw_value c), c)
      else case raw of
        Inl e \<Rightarrow> (Inl (wrapf ''AIConfig.getDisputeWindow'' e), c)
      | Inr None \<Rightarrow> (Inl (errorf ''AIConfig.getDisputeWindow returned non-positive value''), c)
      | Inr (Some r) \<Rightarrow>
          (if r \<le> 0 then (Inl (errorf ''AIConfig.getDisputeWindow returned non-positive value''), c)
           else let window = i64 (i64 r * Second);
                    ttl = (if dw_ttl c \<le> 0 then defaultDisputeWindowCacheTTL else dw_ttl c)
                in (Inr window, c\<lparr>dw_value := window, dw_expires := Some (now' + ttl)\<rparr>)))"

section \<open>Properties\<close>

lemma dispute_window_exact:
  "0 < r \<Longrightarrow> in_i64 (r * Second) \<Longrightarrow> i64 (i64 r * Second) = r * Second"
proof -
  assume r: "0 < r" "in_i64 (r * Second)"
  then have "in_i64 r" by (simp add: in_i64_def)
  then show ?thesis using r by simp
qed

text \<open>
  The dispute window the scheduler sees is the contract's: after a successful uncached read of r
  seconds (in the range of a Go duration) every call within the cache TTL returns r seconds without
  asking again, the first call after it asks again, and a failed or non-positive answer is an error
  that leaves the cache as it was.
\<close>

theorem dispute_window_cached:
  assumes "0 < r" "in_i64 (r * Second)" "dw_expires c = None"
    and "c' = snd (GetDisputeWindow now now' (Inr (Some r)) c)"
    and "ttl = (if dw_ttl c \<le> 0 then defaultDisputeWindowCacheTTL else dw_ttl c)"
  shows "fst (GetDisputeWindow now now' (Inr (Some r)) c) = Inr (r * Second) \<and>
         (t < now' + ttl \<longrightarrow> GetDisputeWindow t t' raw c' = (Inr (r * Second), c')) \<and>
         (now' + ttl \<le> t \<longrightarrow> fst (GetDisputeWindow t t' (Inl e) c') = Inl (wrapf ''AIConfig.getDisputeWindow'' e) \<and>
            snd (GetDisputeWindow t t' (Inl e) c') = c')"
  using assms dispute_window_exact [OF assms(1,2)] by (auto simp: GetDisputeWindow_def Let_def)

theorem dispute_window_cached_witness:
  "fst (GetDisputeWindow 60 60 (Inl (errorf ''down'')) (snd (GetDisputeWindow 0 5 (Inr (Some 3600))
     \<lparr>dw_value = 0, dw_expires = None, dw_ttl = 0\<rparr>))) = Inr (3600 * Second)"
  using dispute_window_cached [of 3600 "\<lparr>dw_value = 0, dw_expires = None, dw_ttl = 0\<rparr>" _ 0 5 _ 60 60 "Inl (errorf ''down'')", OF _ _ _ refl refl]
  by (simp add: in_i64_def defaultDisputeWindowCacheTTL_def)

end
