(* ===== verification/Release_Scheduler.thy ===== *)
theory Release_Scheduler
  imports Release_Store Release_Config Chain_Reads
begin

text \<open>
  The release scheduler (internal/release/scheduler.go): candidate selection, the on-chain partition,
  the batch release with its per-job fallback, the pause gate and the two entry points tick and RunOnce.

  The scheduler is written against two Go interfaces, and so is the model: \<open>'s store_ops\<close> (the Store)
  and \<open>'c sched_chain\<close> (schedulerChain), each operation passing its own state. \<open>ss_trace\<close>
  records, newest first, the chain reads and releases with their answers and the metrics calls. Context
  cancellation reaches the code only as errors of these calls. Logging is left out.
\<close>

section \<open>Interfaces and state\<close>

record 'c sched_chain =
  sc_Head :: "'c \<Rightarrow> (go_error + HeadInfo) \<times> 'c"
  sc_GetDisputeWindow :: "'c \<Rightarrow> (go_error + int) \<times> 'c"
  sc_GetJobState :: "u64 \<Rightarrow> 'c \<Rightarrow> (go_error + JobStateInfo) \<times> 'c"
  sc_ReleaseJob :: "u64 \<Rightarrow> 'c \<Rightarrow> go_error option \<times> 'c"
  sc_ReleaseJobs :: "u64 list \<Rightarrow> 'c \<Rightarrow> go_error option \<times> 'c"

datatype DropReason = DropReasonTerminalState | DropReasonForeignWorker | DropReasonResolvedZeroFee

datatype sched_event =
    EvState u64 "go_error + JobStateInfo"
  | EvRelease u64 "go_error option"
  | EvReleaseBatch "u64 list" "go_error option"
  | SetPending nat
  | IncReleased nat
  | IncFailed nat
  | IncDropped DropReason
  | IncPauseEvent
  | SetLastSuccessTimestamp int

record ('c, 's) sched_st =
  ss_chain :: 'c
  ss_store :: 's
  ss_trace :: "sched_event list"

record ('c, 's) Scheduler =
  sch_store :: "'s store_ops"
  sch_chain :: "'c sched_chain"
  sch_workerAddr :: address
  sch_cfg :: Config

record CycleResult =
  Candidates :: nat
  Released :: nat
  Failed :: nat
  Dropped :: nat
  Paused :: bool
  BatchReverted :: bool
  BackoffActive :: bool
  NextAllowedAt :: int

definition zeroResult :: CycleResult where
  "zeroResult = \<lparr>Candidates = 0, Released = 0, Failed = 0, Dropped = 0, Paused = False, BatchReverted = False,
     BackoffActive = False, NextAllowedAt = 0\<rparr>"

definition on_store :: "('s \<Rightarrow> 'r \<times> 's) \<Rightarrow> ('c, 's) sched_st \<Rightarrow> 'r \<times> ('c, 's) sched_st" where
  "on_store f st = (case f (ss_store st) of (r, s) \<Rightarrow> (r, st\<lparr>ss_store := s\<rparr>))"

definition on_chain :: "('c \<Rightarrow> 'r \<times> 'c) \<Rightarrow> ('c, 's) sched_st \<Rightarrow> 'r \<times> ('c, 's) sched_st" where
  "on_chain f st = (case f (ss_chain st) of (r, c) \<Rightarrow> (r, st\<lparr>ss_chain := c\<rparr>))"

definition emit :: "sched_event \<Rightarrow> ('c, 's) sched_st \<Rightarrow> ('c, 's) sched_st" where
  "emit e st = st\<lparr>ss_trace := e # ss_trace st\<rparr>"

definition read_state :: "('c, 's) Scheduler \<Rightarrow> u64 \<Rightarrow> ('c, 's) sched_st \<Rightarrow> (go_error + JobStateInfo) \<times> ('c, 's) sched_st" where
  "read_state sd j st = (case on_chain (sc_GetJobState (sch_chain sd) j) st of (r, st1) \<Rightarrow> (r, emit (EvState j r) st1))"

definition release_one :: "('c, 's) Scheduler \<Rightarrow> u64 \<Rightarrow> ('c, 's) sched_st \<Rightarrow> go_error option \<times> ('c, 's) sched_st" where
  "release_one sd j st = (case on_chain (sc_ReleaseJob (sch_chain sd) j) st of (r, st1) \<Rightarrow> (r, emit (EvRelease j r) st1))"

definition release_batch :: "('c, 's) Scheduler \<Rightarrow> u64 list \<Rightarrow> ('c, 's) sched_st \<Rightarrow> go_error option \<times> ('c, 's) sched_st" where
  "release_batch sd js st =
     (case on_chain (sc_ReleaseJobs (sch_chain sd) js) st of (r, st1) \<Rightarrow> (r, emit (EvReleaseBatch js r) st1))"

definition store_do :: "('s \<Rightarrow> (go_error + unit) \<times> 's) \<Rightarrow> ('c, 's) sched_st \<Rightarrow> ('c, 's) sched_st" where
  "store_do f st = snd (on_store f st)"

section \<open>Candidates\<close>

fun collect_loop :: "int \<Rightarrow> int \<Rightarrow> nat \<Rightarrow> PendingJob list \<Rightarrow> PendingJob list" where
  "collect_loop maxBatch chainNow n [] = []"
| "collect_loop maxBatch chainNow n (p # ps) =
     (if chainNow < BackoffUntil p then collect_loop maxBatch chainNow n ps
      else p # (if maxBatch \<le> int (Suc n) then [] else collect_loop maxBatch chainNow (Suc n) ps))"

definition collectCandidates :: "Config \<Rightarrow> PendingJob list \<Rightarrow> int \<Rightarrow> PendingJob list" where
  "collectCandidates cfg pending chainNow = collect_loop (MaxBatchSize cfg) chainNow 0 pending"

definition countReadyForStateCheck :: "PendingJob list \<Rightarrow> int \<Rightarrow> nat" where
  "countReadyForStateCheck pending chainNow = length (filter (\<lambda>p. \<not> chainNow < BackoffUntil p) pending)"

section \<open>Partition\<close>

definition positive_fee :: "JobStateInfo \<Rightarrow> bool" where
  "positive_fee info = (case ji_EscrowedFee info of None \<Rightarrow> False | Some f \<Rightarrow> 0 < f)"

datatype verdict = VRelease | VDrop DropReason | VStale | VKeep

text \<open>What the body of the loop decides for a job whose state was read.\<close>

definition classify :: "('c, 's) Scheduler \<Rightarrow> int \<Rightarrow> int \<Rightarrow> PendingJob \<Rightarrow> JobStateInfo \<Rightarrow> verdict" where
  "classify sd windowSec chainNow p info =
     (if ji_Worker info \<noteq> sch_workerAddr sd then VDrop DropReasonForeignWorker
      else case ji_State info of
        JobStateCompleted \<Rightarrow> (if i64 (ji_CompletedAt info + windowSec) \<le> chainNow then VRelease else VKeep)
      | JobStateResolved \<Rightarrow> (if positive_fee info then VRelease else VDrop DropReasonResolvedZeroFee)
      | JobStateReleased \<Rightarrow> VDrop DropReasonTerminalState
      | JobStateTimedOut \<Rightarrow> VDrop DropReasonTerminalState
      | JobStateDisputed \<Rightarrow>
          (let warnAfter = StaleDisputeWarnAfter (sch_cfg sd) in
           if 0 < warnAfter \<and> warnAfter < i64 (i64 (chainNow - CompletedAt p) * Second) then VStale else VKeep)
      | _ \<Rightarrow> VKeep)"

fun partition_loop ::
  "('c, 's) Scheduler \<Rightarrow> int \<Rightarrow> int \<Rightarrow> PendingJob list \<Rightarrow> ('c, 's) sched_st \<Rightarrow>
     (u64 list \<times> u64 list \<times> u64 list) \<times> ('c, 's) sched_st" where
  "partition_loop sd windowSec chainNow [] st = (([], [], []), st)"
| "partition_loop sd windowSec chainNow (p # ps) st =
     (case read_state sd (JobID p) st of
        (Inl e, st1) \<Rightarrow> partition_loop sd windowSec chainNow ps st1
      | (Inr info, st1) \<Rightarrow>
          (case classify sd windowSec chainNow p info of
             VRelease \<Rightarrow>
               (case partition_loop sd windowSec chainNow ps st1 of
                  ((rel, drp, stale), st2) \<Rightarrow> ((JobID p # rel, drp, stale), st2))
           | VDrop reason \<Rightarrow>
               (case partition_loop sd windowSec chainNow ps (emit (IncDropped reason) st1) of
                  ((rel, drp, stale), st2) \<Rightarrow> ((rel, JobID p # drp, stale), st2))
           | VStale \<Rightarrow>
               (case partition_loop sd windowSec chainNow ps st1 of
                  ((rel, drp, stale), st2) \<Rightarrow> ((rel, drp, JobID p # stale), st2))
           | VKeep \<Rightarrow> partition_loop sd windowSec chainNow ps st1))"

definition partition_jobs ::
  "('c, 's) Scheduler \<Rightarrow> PendingJob list \<Rightarrow> int \<Rightarrow> int \<Rightarrow> ('c, 's) sched_st \<Rightarrow>
     (u64 list \<times> u64 list \<times> u64 list) \<times> ('c, 's) sched_st" where
  "partition_jobs sd candidates window chainNow st = partition_loop sd (go_div window Second) chainNow candidates st"

section \<open>Backoff\<close>

text \<open>\<open>base << shift\<close> on int64 keeps the low 64 bits.\<close>

definition computeBackoff :: "int \<Rightarrow> int \<Rightarrow> int \<Rightarrow> int" where
  "computeBackoff base maxBackoff attempt =
     (let attempt' = (if attempt < 1 then 1 else attempt);
          shift0 = attempt' - 1;
          shift = (if shift0 > 30 then 30 else shift0);
          d = i64 (base * 2 ^ nat shift)
      in if d > maxBackoff \<or> d \<le> 0 then maxBackoff else d)"

definition recordPerJobFailure :: "('c, 's) Scheduler \<Rightarrow> u64 \<Rightarrow> int \<Rightarrow> ('c, 's) sched_st \<Rightarrow> ('c, 's) sched_st" where
  "recordPerJobFailure sd jobID chainNow st =
     (case on_store (st_Pending (sch_store sd)) st of
        (Inl e, st1) \<Rightarrow> st1
      | (Inr pending, st1) \<Rightarrow>
          (let failCount = (case find (\<lambda>p. JobID p = jobID) pending of None \<Rightarrow> 0 | Some p \<Rightarrow> FailCount p);
               backoff = computeBackoff (BackoffBase (sch_cfg sd)) (BackoffMax (sch_cfg sd)) (i64 (failCount + 1));
               until = i64 (chainNow + go_div backoff Second)
           in store_do (st_RecordFailure (sch_store sd) jobID until) st1))"

definition recordAttempt :: "('c, 's) Scheduler \<Rightarrow> int \<Rightarrow> ('c, 's) sched_st \<Rightarrow> ('c, 's) sched_st" where
  "recordAttempt sd chainNow st = store_do (st_SetLastReleaseTs (sch_store sd) chainNow) st"

definition recordAttemptWithBackoff :: "('c, 's) Scheduler \<Rightarrow> int \<Rightarrow> int \<Rightarrow> ('c, 's) sched_st \<Rightarrow> ('c, 's) sched_st" where
  "recordAttemptWithBackoff sd chainNow ofs st =
     store_do (st_SetNextAllowedAttempt (sch_store sd) (i64 (chainNow + go_div ofs Second))) st"

definition applyPauseBackoff ::
  "('c, 's) Scheduler \<Rightarrow> int \<Rightarrow> CycleResult \<Rightarrow> ('c, 's) sched_st \<Rightarrow> CycleResult \<times> ('c, 's) sched_st" where
  "applyPauseBackoff sd chainNow res st =
     (let ofs = PausedCycleBackoff (sch_cfg sd) in
      (res\<lparr>NextAllowedAt := i64 (chainNow + go_div ofs Second)\<rparr>,
       recordAttemptWithBackoff sd chainNow ofs (emit IncPauseEvent st)))"

section \<open>Per-job fallback\<close>

text \<open>\<open>None\<close>: terminal, drop; otherwise whether the job is eligible now.\<close>

definition fallback_eligible :: "int \<Rightarrow> int \<Rightarrow> JobStateInfo \<Rightarrow> bool option" where
  "fallback_eligible windowSec chainNow info =
     (case ji_State info of
        JobStateCompleted \<Rightarrow> Some (i64 (ji_CompletedAt info + windowSec) \<le> chainNow)
      | JobStateResolved \<Rightarrow> Some (positive_fee info)
      | JobStateReleased \<Rightarrow> None
      | JobStateTimedOut \<Rightarrow> None
      | _ \<Rightarrow> Some False)"

text \<open>The body of the loop; the flag is the early return on a pause.\<close>

definition fallback_one ::
  "('c, 's) Scheduler \<Rightarrow> int \<Rightarrow> int \<Rightarrow> u64 \<Rightarrow> CycleResult \<Rightarrow> ('c, 's) sched_st \<Rightarrow> bool \<times> CycleResult \<times> ('c, 's) sched_st" where
  "fallback_one sd windowSec chainNow j out st =
     (case read_state sd j st of
        (Inl e, st1) \<Rightarrow> (False, out\<lparr>Failed := Failed out + 1\<rparr>, recordPerJobFailure sd j chainNow st1)
      | (Inr info, st1) \<Rightarrow>
          (case fallback_eligible windowSec chainNow info of
             None \<Rightarrow>
               (case on_store (st_Remove (sch_store sd) [j]) st1 of
                  (Inl e, st2) \<Rightarrow> (False, out, st2)
                | (Inr _, st2) \<Rightarrow> (False, out\<lparr>Dropped := Dropped out + 1\<rparr>, st2))
           | Some False \<Rightarrow> (False, out, st1)
           | Some True \<Rightarrow>
               (case release_one sd j st1 of
                  (Some e, st2) \<Rightarrow>
                    (if isPauseError (Some e) then (True, out\<lparr>Paused := True\<rparr>, st2)
                     else (False, out\<lparr>Failed := Failed out + 1\<rparr>,
                           emit (IncFailed 1) (recordPerJobFailure sd j chainNow st2)))
                | (None, st2) \<Rightarrow>
                    (False, out\<lparr>Released := Released out + 1\<rparr>,
                      emit (SetLastSuccessTimestamp chainNow) (emit (IncReleased 1)
                        (store_do (st_Remove (sch_store sd) [j]) st2))))))"

fun fallback_loop ::
  "('c, 's) Scheduler \<Rightarrow> int \<Rightarrow> int \<Rightarrow> u64 list \<Rightarrow> CycleResult \<Rightarrow> ('c, 's) sched_st \<Rightarrow> CycleResult \<times> ('c, 's) sched_st" where
  "fallback_loop sd windowSec chainNow [] out st = (out, st)"
| "fallback_loop sd windowSec chainNow (j # js) out st =
     (case fallback_one sd windowSec chainNow j out st of
        (stop, out1, st1) \<Rightarrow> (if stop then (out1, st1) else fallback_loop sd windowSec chainNow js out1 st1))"

definition perJobFallback ::
  "('c, 's) Scheduler \<Rightarrow> u64 list \<Rightarrow> int \<Rightarrow> HeadInfo \<Rightarrow> ('c, 's) sched_st \<Rightarrow> CycleResult \<times> ('c, 's) sched_st" where
  "perJobFallback sd batch window head st =
     fallback_loop sd (go_div window Second) (hd_Timestamp head) batch zeroResult st"

section \<open>The cycle\<close>

definition drop_terminal ::
  "('c, 's) Scheduler \<Rightarrow> u64 list \<Rightarrow> CycleResult \<Rightarrow> ('c, 's) sched_st \<Rightarrow> CycleResult \<times> ('c, 's) sched_st" where
  "drop_terminal sd dropIDs res st =
     (if dropIDs = [] then (res, st)
      else case on_store (st_Remove (sch_store sd) dropIDs) st of
        (Inl e, st1) \<Rightarrow> (res, st1)
      | (Inr _, st1) \<Rightarrow> (res\<lparr>Dropped := length dropIDs\<rparr>, st1))"

definition settle_batch ::
  "('c, 's) Scheduler \<Rightarrow> HeadInfo \<Rightarrow> int \<Rightarrow> u64 list \<Rightarrow> CycleResult \<Rightarrow> ('c, 's) sched_st \<Rightarrow> CycleResult \<times> ('c, 's) sched_st" where
  "settle_batch sd head window batch res st =
     (case release_batch sd batch st of
        (None, st1) \<Rightarrow>
          (res\<lparr>Released := length batch\<rparr>,
           recordAttempt sd (hd_Timestamp head)
             (emit (SetLastSuccessTimestamp (hd_Timestamp head)) (emit (IncReleased (length batch))
               (store_do (st_Remove (sch_store sd) batch) st1))))
      | (Some e, st1) \<Rightarrow>
          (let res1 = res\<lparr>BatchReverted := True\<rparr> in
           if isPauseError (Some e) then applyPauseBackoff sd (hd_Timestamp head) (res1\<lparr>Paused := True\<rparr>) st1
           else case perJobFallback sd batch window head st1 of
             (fb, st2) \<Rightarrow>
               (let res2 = res1\<lparr>Released := Released res1 + Released fb, Failed := Failed res1 + Failed fb,
                                Dropped := Dropped res1 + Dropped fb\<rparr> in
                if Paused fb then applyPauseBackoff sd (hd_Timestamp head) (res2\<lparr>Paused := True\<rparr>) st2
                else (res2, recordAttempt sd (hd_Timestamp head) st2))))"

definition runReleaseCycle ::
  "('c, 's) Scheduler \<Rightarrow> HeadInfo \<Rightarrow> int \<Rightarrow> PendingJob list \<Rightarrow> ('c, 's) sched_st \<Rightarrow> CycleResult \<times> ('c, 's) sched_st" where
  "runReleaseCycle sd head window pending st =
     (let candidates = collectCandidates (sch_cfg sd) pending (hd_Timestamp head);
          res = zeroResult\<lparr>Candidates := length candidates\<rparr>
      in if candidates = [] then (res, recordAttempt sd (hd_Timestamp head) st)
         else case partition_jobs sd candidates window (hd_Timestamp head) st of
           ((releaseBatch, dropIDs, staleDisputed), st1) \<Rightarrow>
             (case drop_terminal sd dropIDs res st1 of
                (res1, st2) \<Rightarrow>
                  (if releaseBatch = [] then (res1, recordAttempt sd (hd_Timestamp head) st2)
                   else settle_batch sd head window releaseBatch res1 st2)))"

definition disputeWindow :: "('c, 's) Scheduler \<Rightarrow> ('c, 's) sched_st \<Rightarrow> (go_error + int) \<times> ('c, 's) sched_st" where
  "disputeWindow sd st =
     (if 0 < DisputeWindowOverride (sch_cfg sd) then (Inr (DisputeWindowOverride (sch_cfg sd)), st)
      else on_chain (sc_GetDisputeWindow (sch_chain sd)) st)"

definition tick :: "('c, 's) Scheduler \<Rightarrow> ('c, 's) sched_st \<Rightarrow> ('c, 's) sched_st" where
  "tick sd st =
     (case on_chain (sc_Head (sch_chain sd)) st of
        (Inl e, st1) \<Rightarrow> st1
      | (Inr head, st1) \<Rightarrow>
     (case on_store (st_GetNextAllowedAttempt (sch_store sd)) st1 of
        (Inl e, st2) \<Rightarrow> st2
      | (Inr nextAllowed, st2) \<Rightarrow>
     if hd_Timestamp head < nextAllowed then st2
     else (case disputeWindow sd st2 of
        (Inl e, st3) \<Rightarrow> st3
      | (Inr window, st3) \<Rightarrow>
     (case on_store (st_Pending (sch_store sd)) st3 of
        (Inl e, st4) \<Rightarrow> st4
      | (Inr pending, st4) \<Rightarrow>
     (case on_store (st_GetLastReleaseTs (sch_store sd)) (emit (SetPending (length pending)) st4) of
        (Inl e, st5) \<Rightarrow> st5
      | (Inr lastReleaseTs, st5) \<Rightarrow>
          (let readyNow = countReadyForStateCheck pending (hd_Timestamp head);
               dueByTime = go_div (Interval (sch_cfg sd)) Second \<le> i64 (hd_Timestamp head - lastReleaseTs)
           in if int readyNow < BatchThreshold (sch_cfg sd) \<and> \<not> dueByTime then st5
              else snd (runReleaseCycle sd head window pending st5)))))))"

definition RunOnce :: "('c, 's) Scheduler \<Rightarrow> ('c, 's) sched_st \<Rightarrow> (go_error + CycleResult) \<times> ('c, 's) sched_st" where
  "RunOnce sd st =
     (case on_chain (sc_Head (sch_chain sd)) st of
        (Inl e, st1) \<Rightarrow> (Inl (wrapf ''read chain head'' e), st1)
      | (Inr head, st1) \<Rightarrow>
     (case on_store (st_GetNextAllowedAttempt (sch_store sd)) st1 of
        (Inl e, st2) \<Rightarrow> (Inl (wrapf ''read next allowed attempt'' e), st2)
      | (Inr nextAllowed, st2) \<Rightarrow>
     if hd_Timestamp head < nextAllowed
     then (Inr (zeroResult\<lparr>BackoffActive := True, NextAllowedAt := nextAllowed\<rparr>), st2)
     else (case disputeWindow sd st2 of
        (Inl e, st3) \<Rightarrow> (Inl (wrapf ''read dispute window'' e), st3)
      | (Inr window, st3) \<Rightarrow>
     (case on_store (st_Pending (sch_store sd)) st3 of
        (Inl e, st4) \<Rightarrow> (Inl (wrapf ''read pending'' e), st4)
      | (Inr pending, st4) \<Rightarrow>
          (case runReleaseCycle sd head window pending st4 of (res, st5) \<Rightarrow> (Inr res, st5))))))"

section \<open>Frames\<close>

lemma on_store_frame [simp]:
  "ss_trace (snd (on_store f st)) = ss_trace st" "ss_chain (snd (on_store f st)) = ss_chain st"
  by (simp_all add: on_store_def case_prod_beta)

lemma on_store_eq:
  assumes "on_store f st = (r, st1)"
  shows "f (ss_store st) = (r, ss_store st1)" "ss_trace st1 = ss_trace st" "ss_chain st1 = ss_chain st"
  using assms by (auto simp: on_store_def split: prod.splits)

lemma on_chain_eq:
  assumes "on_chain f st = (r, st1)"
  shows "ss_store st1 = ss_store st" "ss_trace st1 = ss_trace st"
  using assms by (auto simp: on_chain_def split: prod.splits)

lemma emit_simps [simp]:
  "ss_trace (emit e st) = e # ss_trace st" "ss_store (emit e st) = ss_store st" "ss_chain (emit e st) = ss_chain st"
  by (simp_all add: emit_def)

lemma store_do_trace [simp]: "ss_trace (store_do f st) = ss_trace st"
  by (simp add: store_do_def)

lemma store_do_store: "ss_store (store_do f st) = snd (f (ss_store st))"
  by (simp add: store_do_def on_store_def case_prod_beta)

lemma read_state_eq:
  assumes "read_state sd j st = (r, st1)"
  shows "ss_trace st1 = EvState j r # ss_trace st" "ss_store st1 = ss_store st"
  using assms by (auto simp: read_state_def dest: on_chain_eq split: prod.splits)

lemma release_one_eq:
  assumes "release_one sd j st = (r, st1)"
  shows "ss_trace st1 = EvRelease j r # ss_trace st" "ss_store st1 = ss_store st"
  using assms by (auto simp: release_one_def dest: on_chain_eq split: prod.splits)

lemma release_batch_eq:
  assumes "release_batch sd js st = (r, st1)"
  shows "ss_trace st1 = EvReleaseBatch js r # ss_trace st" "ss_store st1 = ss_store st"
  using assms by (auto simp: release_batch_def dest: on_chain_eq split: prod.splits)

lemma recordPerJobFailure_trace [simp]: "ss_trace (recordPerJobFailure sd j now st) = ss_trace st"
  by (auto simp: recordPerJobFailure_def Let_def dest: on_store_eq split: prod.splits sum.splits)

lemma recordAttempt_trace [simp]:
  "ss_trace (recordAttempt sd now st) = ss_trace st" "ss_trace (recordAttemptWithBackoff sd now ofs st) = ss_trace st"
  by (simp_all add: recordAttempt_def recordAttemptWithBackoff_def)

section \<open>What a partition reports\<close>

definition releasable :: "int \<Rightarrow> int \<Rightarrow> JobStateInfo \<Rightarrow> bool" where
  "releasable windowSec chainNow info \<longleftrightarrow>
     ji_State info = JobStateCompleted \<and> i64 (ji_CompletedAt info + windowSec) \<le> chainNow \<or>
     ji_State info = JobStateResolved \<and> positive_fee info"

definition settled_elsewhere :: "address \<Rightarrow> JobStateInfo \<Rightarrow> bool" where
  "settled_elsewhere worker info \<longleftrightarrow>
     ji_Worker info \<noteq> worker \<or> ji_State info = JobStateReleased \<or> ji_State info = JobStateTimedOut \<or>
     ji_State info = JobStateResolved \<and> \<not> positive_fee info"

lemma classify_VRelease:
  "classify sd ws now p info = VRelease \<longleftrightarrow> ji_Worker info = sch_workerAddr sd \<and> releasable ws now info"
  by (auto simp: classify_def releasable_def Let_def split: JobState.splits)

lemma classify_VDrop:
  "(\<exists>reason. classify sd ws now p info = VDrop reason) \<longleftrightarrow> settled_elsewhere (sch_workerAddr sd) info"
  by (auto simp: classify_def settled_elsewhere_def Let_def split: JobState.splits)

lemma fallback_eligible_True: "fallback_eligible ws now info = Some True \<longleftrightarrow> releasable ws now info"
  by (auto simp: fallback_eligible_def releasable_def split: JobState.splits)

lemma fallback_eligible_None:
  "fallback_eligible ws now info = None \<longleftrightarrow> ji_State info = JobStateReleased \<or> ji_State info = JobStateTimedOut"
  by (auto simp: fallback_eligible_def split: JobState.splits)

fun quiet :: "sched_event \<Rightarrow> bool" where
  "quiet (EvState j r) = True"
| "quiet (IncDropped reason) = True"
| "quiet _ = False"

definition part_ok :: "('c, 's) Scheduler \<Rightarrow> int \<Rightarrow> int \<Rightarrow> sched_event list \<Rightarrow> u64 list \<Rightarrow> u64 list \<Rightarrow> bool" where
  "part_ok sd ws now evs rel drp \<longleftrightarrow>
     list_all quiet evs \<and>
     (\<forall>j\<in>set rel. \<exists>info. EvState j (Inr info) \<in> set evs \<and> ji_Worker info = sch_workerAddr sd \<and> releasable ws now info) \<and>
     (\<forall>j\<in>set drp. \<exists>info. EvState j (Inr info) \<in> set evs \<and> settled_elsewhere (sch_workerAddr sd) info)"

lemma part_ok_older: "part_ok sd ws now evs rel drp \<Longrightarrow> list_all quiet evs0 \<Longrightarrow> part_ok sd ws now (evs @ evs0) rel drp"
  unfolding part_ok_def by fastforce

lemma part_ok_release:
  "part_ok sd ws now evs rel drp \<Longrightarrow> EvState j (Inr info) \<in> set evs \<Longrightarrow> classify sd ws now p info = VRelease \<Longrightarrow>
   part_ok sd ws now evs (j # rel) drp"
  unfolding part_ok_def classify_VRelease by fastforce

lemma part_ok_drop:
  "part_ok sd ws now evs rel drp \<Longrightarrow> EvState j (Inr info) \<in> set evs \<Longrightarrow> classify sd ws now p info = VDrop reason \<Longrightarrow>
   part_ok sd ws now evs rel (j # drp)"
  using classify_VDrop [of sd ws now p info] unfolding part_ok_def by fastforce

text \<open>
  One induction for the loop: it only reads, it puts each job it was given in at most one list, and
  every list entry rests on a state read in the loop.
\<close>

lemma partition_loop_spec:
  "partition_loop sd ws now ps st = ((rel, drp, stale), st') \<Longrightarrow>
   (\<exists>evs. ss_trace st' = evs @ ss_trace st \<and> part_ok sd ws now evs rel drp) \<and>
   ss_store st' = ss_store st \<and> length rel + length drp + length stale \<le> length ps"
proof (induction ps arbitrary: st rel drp stale)
  case Nil
  then show ?case by (simp add: part_ok_def)
next
  case (Cons p ps)
  obtain r st1 where r: "read_state sd (JobID p) st = (r, st1)" by (cases "read_state sd (JobID p) st")
  note st1 = read_state_eq [OF r]
  have step: "\<exists>evs. ss_trace st' = (evs @ [EvState (JobID p) r]) @ ss_trace st \<and>
       part_ok sd ws now (evs @ [EvState (JobID p) r]) rel' drp' \<and>
       ss_store st' = ss_store st \<and> length rel' + length drp' + length stale' \<le> length ps"
    if l: "partition_loop sd ws now ps (if x then emit (IncDropped reason) st1 else st1) = ((rel', drp', stale'), st')"
    for rel' drp' stale' x reason
  proof -
    obtain evs where "ss_trace st' = evs @ ss_trace (if x then emit (IncDropped reason) st1 else st1)"
        "part_ok sd ws now evs rel' drp'" and rest: "ss_store st' = ss_store st1"
        "length rel' + length drp' + length stale' \<le> length ps"
      using Cons.IH [OF l] by (auto split: if_splits)
    then show ?thesis using st1 part_ok_older [of sd ws now evs rel' drp' "(if x then [IncDropped reason] else []) @ [EvState (JobID p) r]"]
      by (intro exI [of _ "evs @ (if x then [IncDropped reason] else [])"]) auto
  qed
  show ?case
  proof (cases r)
    case (Inl e)
    then show ?thesis using Cons.prems r step [of False _ rel drp stale] by fastforce
  next
    case (Inr info)
    show ?thesis
    proof (cases "classify sd ws now p info")
      case VRelease
      then obtain rel' where l: "partition_loop sd ws now ps st1 = ((rel', drp, stale), st')" and rel: "rel = JobID p # rel'"
        using Cons.prems r Inr by (auto split: prod.splits)
      then show ?thesis using step [of False _ rel' drp stale] Inr
        by (auto intro!: part_ok_release [OF _ _ VRelease])
    next
      case (VDrop reason)
      then obtain drp' where l: "partition_loop sd ws now ps (emit (IncDropped reason) st1) = ((rel, drp', stale), st')"
          and drp: "drp = JobID p # drp'"
        using Cons.prems r Inr by (auto split: prod.splits)
      then show ?thesis using step [of True reason rel drp' stale] Inr
        by (auto intro!: part_ok_drop [OF _ _ VDrop])
    next
      case VStale
      then obtain stale' where l: "partition_loop sd ws now ps st1 = ((rel, drp, stale'), st')" and "stale = JobID p # stale'"
        using Cons.prems r Inr by (auto split: prod.splits)
      then show ?thesis using step [of False _ rel drp stale'] by fastforce
    next
      case VKeep
      then show ?thesis using Cons.prems r Inr step [of False _ rel drp stale] by fastforce
    qed
  qed
qed

section \<open>What one fallback iteration does\<close>

lemma fallback_loop_inv:
  assumes "\<And>j out st b out' st'. P out st \<Longrightarrow> fallback_one sd ws now j out st = (b, out', st') \<Longrightarrow> P out' st'"
    and "fallback_loop sd ws now js out st = (out', st')" and "P out st"
  shows "P out' st'"
  using assms(2,3)
proof (induction js arbitrary: out st)
  case (Cons j js)
  obtain b o1 s1 where f: "fallback_one sd ws now j out st = (b, o1, s1)" by (cases "fallback_one sd ws now j out st")
  have "P o1 s1" using assms(1) [OF Cons.prems(2) f] .
  then show ?case using Cons f by (auto split: if_splits)
qed simp

text \<open>The cases of an iteration, with what each appends to the trace and does to the store.\<close>

lemma fallback_one_cases:
  assumes "fallback_one sd ws now j out st = (b, out', st')"
  obtains (unread) e st1 where "\<not> b" "out' = out\<lparr>Failed := Failed out + 1\<rparr>" "st' = recordPerJobFailure sd j now st1"
      "ss_trace st1 = EvState j (Inl e) # ss_trace st" "ss_store st1 = ss_store st"
  | (terminal) info st1 r where "\<not> b" "ji_State info = JobStateReleased \<or> ji_State info = JobStateTimedOut"
      "on_store (st_Remove (sch_store sd) [j]) st1 = (r, st')" "out' = (if isl r then out else out\<lparr>Dropped := Dropped out + 1\<rparr>)"
      "ss_trace st1 = EvState j (Inr info) # ss_trace st" "ss_store st1 = ss_store st"
  | (deferred) info where "\<not> b" "out' = out" "ss_trace st' = EvState j (Inr info) # ss_trace st" "ss_store st' = ss_store st"
  | (paused) info e where "b" "out' = out\<lparr>Paused := True\<rparr>" "releasable ws now info"
      "ss_trace st' = EvRelease j (Some e) # EvState j (Inr info) # ss_trace st" "ss_store st' = ss_store st"
  | (failed) info e st2 where "\<not> b" "out' = out\<lparr>Failed := Failed out + 1\<rparr>" "releasable ws now info"
      "st' = emit (IncFailed 1) (recordPerJobFailure sd j now st2)"
      "ss_trace st2 = EvRelease j (Some e) # EvState j (Inr info) # ss_trace st" "ss_store st2 = ss_store st"
  | (released) info st2 where "\<not> b" "out' = out\<lparr>Released := Released out + 1\<rparr>" "releasable ws now info"
      "st' = emit (SetLastSuccessTimestamp now) (emit (IncReleased 1) (store_do (st_Remove (sch_store sd) [j]) st2))"
      "ss_trace st2 = EvRelease j None # EvState j (Inr info) # ss_trace st" "ss_store st2 = ss_store st"
proof -
  obtain r st1 where r: "read_state sd j st = (r, st1)" by (cases "read_state sd j st")
  note st1 = read_state_eq [OF r]
  show ?thesis
  proof (cases r)
    case (Inl e)
    then have "\<not> b \<and> out' = out\<lparr>Failed := Failed out + 1\<rparr> \<and> st' = recordPerJobFailure sd j now st1"
      using assms r by (simp add: fallback_one_def)
    then show ?thesis using st1 Inl by (intro unread [of st1 e]) simp_all
  next
    case (Inr info)
    note a = assms [unfolded fallback_one_def r Inr, simplified]
    show ?thesis
    proof (cases "fallback_eligible ws now info")
      case None
      obtain q st2 where q: "on_store (st_Remove (sch_store sd) [j]) st1 = (q, st2)"
        by (cases "on_store (st_Remove (sch_store sd) [j]) st1")
      have "\<not> b \<and> st' = st2 \<and> out' = (if isl q then out else out\<lparr>Dropped := Dropped out + 1\<rparr>)"
        using a None q by (cases q) simp_all
      then show ?thesis using q st1 Inr None
        by (intro terminal [of info st1 q]) (simp_all add: fallback_eligible_None)
    next
      case (Some el)
      show ?thesis
      proof (cases el)
        case False
        then have "\<not> b \<and> out' = out \<and> st' = st1" using a Some by simp
        then show ?thesis using st1 Inr by (intro deferred [of info]) simp_all
      next
        case True
        have rel: "releasable ws now info" using Some True by (simp add: fallback_eligible_True [symmetric])
        obtain q st2 where q: "release_one sd j st1 = (q, st2)" by (cases "release_one sd j st1")
        note st2 = release_one_eq [OF q]
        have el: "fallback_eligible ws now info = Some True" using Some True by simp
        note a = a [unfolded el q, simplified]
        show ?thesis
        proof (cases q)
          case None
          then show ?thesis using a st1 st2 Inr rel by (intro released [of info st2]) simp_all
        next
          case (Some e)
          show ?thesis
          proof (cases "isPauseError (Some e)")
            case True
            then show ?thesis using a Some st1 st2 Inr rel by (intro paused [of info e]) simp_all
          next
            case False
            then show ?thesis using a Some st1 st2 Inr rel by (intro failed [of info st2 e]) simp_all
          qed
        qed
      qed
    qed
  qed
qed

section \<open>Releases are justified\<close>

fun shows_releasable :: "address \<Rightarrow> int \<Rightarrow> int \<Rightarrow> u64 \<Rightarrow> sched_event \<Rightarrow> bool" where
  "shows_releasable w ws now j (EvState j' (Inr info)) \<longleftrightarrow> j' = j \<and> ji_Worker info = w \<and> releasable ws now info"
| "shows_releasable w ws now j _ \<longleftrightarrow> False"

fun justified_by :: "address \<Rightarrow> int \<Rightarrow> int \<Rightarrow> sched_event \<Rightarrow> sched_event list \<Rightarrow> bool" where
  "justified_by w ws now (EvReleaseBatch js r) evs \<longleftrightarrow> list_all (\<lambda>j. list_ex (shows_releasable w ws now j) evs) js"
| "justified_by w ws now (EvRelease j r) (EvState j' (Inr info) # evs) \<longleftrightarrow> j' = j \<and> releasable ws now info"
| "justified_by w ws now (EvRelease j r) _ \<longleftrightarrow> False"
| "justified_by w ws now _ _ \<longleftrightarrow> True"

text \<open>
  Newest first: a batch release follows reads that showed each of its jobs releasable and this
  worker's; a single release comes right after a read that showed the job releasable.
\<close>

fun justified :: "address \<Rightarrow> int \<Rightarrow> int \<Rightarrow> sched_event list \<Rightarrow> bool" where
  "justified w ws now [] = True"
| "justified w ws now (e # evs) = (justified_by w ws now e evs \<and> justified w ws now evs)"

lemma justified_quiet: "list_all quiet evs \<Longrightarrow> justified w ws now (evs @ evs0) = justified w ws now evs0"
proof (induction evs)
  case (Cons e evs)
  then show ?case by (cases e) auto
qed simp

lemma part_ok_releasable:
  assumes "part_ok sd ws now evs rel drp"
  shows "list_all (\<lambda>j. list_ex (shows_releasable (sch_workerAddr sd) ws now j) evs) rel"
  unfolding list_all_iff list_ex_iff
proof
  fix j assume "j \<in> set rel"
  then obtain info where "EvState j (Inr info) \<in> set evs" "ji_Worker info = sch_workerAddr sd" "releasable ws now info"
    using assms by (auto simp: part_ok_def)
  then show "\<exists>e\<in>set evs. shows_releasable (sch_workerAddr sd) ws now j e"
    by (intro bexI [of _ "EvState j (Inr info)"]) auto
qed

lemma fallback_one_justified:
  assumes "justified w ws now (ss_trace st)" "fallback_one sd ws now j out st = (b, out', st')"
  shows "justified w ws now (ss_trace st')"
  using assms(2) by (cases rule: fallback_one_cases) (use assms(1) in \<open>auto dest: on_store_eq\<close>)

lemma settle_batch_justified:
  assumes "justified (sch_workerAddr sd) (go_div window Second) (hd_Timestamp head) (ss_trace st)"
    and "list_all (\<lambda>j. list_ex (shows_releasable (sch_workerAddr sd) (go_div window Second) (hd_Timestamp head) j) (ss_trace st)) batch"
  shows "justified (sch_workerAddr sd) (go_div window Second) (hd_Timestamp head)
           (ss_trace (snd (settle_batch sd head window batch res st)))"
proof -
  obtain r st1 where r: "release_batch sd batch st = (r, st1)" by (cases "release_batch sd batch st")
  have j1: "justified (sch_workerAddr sd) (go_div window Second) (hd_Timestamp head) (ss_trace st1)"
    using release_batch_eq [OF r] assms by simp
  obtain fb st2 where f: "perJobFallback sd batch window head st1 = (fb, st2)"
    by (cases "perJobFallback sd batch window head st1")
  have "justified (sch_workerAddr sd) (go_div window Second) (hd_Timestamp head) (ss_trace st2)"
    by (rule fallback_loop_inv [OF _ f [unfolded perJobFallback_def],
          where P = "\<lambda>_ st. justified (sch_workerAddr sd) (go_div window Second) (hd_Timestamp head) (ss_trace st)"])
      (auto intro: fallback_one_justified j1)
  then show ?thesis using j1 r f
    by (auto simp: settle_batch_def applyPauseBackoff_def Let_def split: option.splits)
qed

lemma drop_terminal_trace [simp]: "ss_trace (snd (drop_terminal sd drp res st)) = ss_trace st"
  by (auto simp: drop_terminal_def dest: on_store_eq split: prod.splits sum.splits)

lemma cycle_justified:
  assumes "ss_trace st = []"
  shows "justified (sch_workerAddr sd) (go_div window Second) (hd_Timestamp head)
           (ss_trace (snd (runReleaseCycle sd head window pending st)))"
proof -
  let ?c = "collectCandidates (sch_cfg sd) pending (hd_Timestamp head)"
  obtain rel drp stale st1 where p: "partition_jobs sd ?c window (hd_Timestamp head) st = ((rel, drp, stale), st1)"
    by (metis prod.exhaust)
  obtain evs where evs: "ss_trace st1 = evs" "part_ok sd (go_div window Second) (hd_Timestamp head) evs rel drp"
    using partition_loop_spec [OF p [unfolded partition_jobs_def]] assms by auto
  obtain res1 st2 where d: "drop_terminal sd drp (zeroResult\<lparr>Candidates := length ?c\<rparr>) st1 = (res1, st2)"
    by (metis prod.exhaust)
  have t2: "ss_trace st2 = evs" using drop_terminal_trace [of sd drp _ st1] d evs(1) by (metis snd_conv)
  have j2: "justified (sch_workerAddr sd) (go_div window Second) (hd_Timestamp head) (ss_trace st2)"
    using justified_quiet [of evs _ _ _ "[]"] evs(2) t2 by (simp add: part_ok_def)
  show ?thesis using assms p d j2 settle_batch_justified [OF j2, of rel res1] part_ok_releasable [OF evs(2)] t2
    by (auto simp: runReleaseCycle_def Let_def)
qed

section \<open>Counting\<close>

lemma collect_loop_length: "int (length (collect_loop m now n ps)) \<le> max 1 (m - int n)"
  by (induction m now n ps rule: collect_loop.induct) auto

lemma fallback_loop_count:
  "fallback_loop sd ws now js out st = (out', st') \<Longrightarrow>
   Released out' + Failed out' + Dropped out' \<le> Released out + Failed out + Dropped out + length js"
proof (induction js arbitrary: out st)
  case (Cons j js)
  obtain b o1 s1 where f: "fallback_one sd ws now j out st = (b, o1, s1)" by (cases "fallback_one sd ws now j out st")
  have "Released o1 + Failed o1 + Dropped o1 \<le> Released out + Failed out + Dropped out + 1"
    using f by (cases rule: fallback_one_cases) auto
  then show ?case using Cons.IH [of o1 s1] Cons.prems f by (cases b) auto
qed simp

lemma settle_batch_count:
  assumes "settle_batch sd head window batch res st = (res', st')" "Released res = 0" "Failed res = 0"
  shows "Released res' + Failed res' + Dropped res' \<le> Dropped res + length batch \<and> Candidates res' = Candidates res"
proof -
  obtain r st1 where r: "release_batch sd batch st = (r, st1)" by (cases "release_batch sd batch st")
  obtain fb st2 where f: "perJobFallback sd batch window head st1 = (fb, st2)"
    by (cases "perJobFallback sd batch window head st1")
  have "Released fb + Failed fb + Dropped fb \<le> length batch"
    using fallback_loop_count [OF f [unfolded perJobFallback_def]] by (simp add: zeroResult_def)
  then show ?thesis using assms r f
    by (auto simp: settle_batch_def applyPauseBackoff_def Let_def split: option.splits if_splits)
qed

lemma drop_terminal_count:
  assumes "drop_terminal sd drp res st = (res', st')" "Dropped res = 0"
  shows "Dropped res' \<le> length drp \<and> Released res' = Released res \<and> Failed res' = Failed res \<and> Candidates res' = Candidates res"
  using assms by (auto simp: drop_terminal_def split: if_splits sum.splits prod.splits)

lemma cycle_counts:
  assumes "runReleaseCycle sd head window pending st = (res, st')"
  shows "Released res + Failed res + Dropped res \<le> Candidates res \<and>
         int (Candidates res) \<le> max 1 (MaxBatchSize (sch_cfg sd))"
proof -
  let ?c = "collectCandidates (sch_cfg sd) pending (hd_Timestamp head)"
  let ?r = "zeroResult\<lparr>Candidates := length ?c\<rparr>"
  have c: "int (length ?c) \<le> max 1 (MaxBatchSize (sch_cfg sd))"
    using collect_loop_length [of "MaxBatchSize (sch_cfg sd)" "hd_Timestamp head" 0 pending]
    by (simp add: collectCandidates_def)
  obtain rel drp stale st1 where p: "partition_jobs sd ?c window (hd_Timestamp head) st = ((rel, drp, stale), st1)"
    by (metis prod.exhaust)
  have len: "length rel + length drp \<le> length ?c"
    using partition_loop_spec [OF p [unfolded partition_jobs_def]] by simp
  obtain res1 st2 where d: "drop_terminal sd drp ?r st1 = (res1, st2)" by (metis prod.exhaust)
  have d1: "Dropped res1 \<le> length drp \<and> Released res1 = 0 \<and> Failed res1 = 0 \<and> Candidates res1 = length ?c"
    using drop_terminal_count [OF d] by (simp add: zeroResult_def)
  have "Released res + Failed res + Dropped res \<le> Candidates res \<and> Candidates res = length ?c"
    using assms p d d1 len settle_batch_count [of sd head window rel res1 st2 res st']
    by (auto simp: runReleaseCycle_def Let_def zeroResult_def split: if_splits)
  then show ?thesis using c by simp
qed

section \<open>Backoff arithmetic\<close>

lemma computeBackoff_bounds:
  "0 < maxBackoff \<Longrightarrow> 0 < computeBackoff base maxBackoff attempt \<and> computeBackoff base maxBackoff attempt \<le> maxBackoff"
  by (auto simp: computeBackoff_def Let_def)

lemma computeBackoff_exact:
  assumes "0 < base" "base < 2 ^ 33" "1 \<le> attempt"
  shows "computeBackoff base maxBackoff attempt = min maxBackoff (base * 2 ^ nat (min 30 (attempt - 1)))"
proof -
  let ?s = "nat (min 30 (attempt - 1))"
  have "(2::int) ^ ?s \<le> 2 ^ 30" by (rule power_increasing) auto
  then have "base * 2 ^ ?s \<le> (2 ^ 33 - 1) * 2 ^ 30"
    using assms(1,2) by (intro mult_mono) auto
  moreover have "0 < base * 2 ^ ?s" using assms(1) by simp
  ultimately have "i64 (base * 2 ^ ?s) = base * 2 ^ ?s" "0 < base * 2 ^ ?s" by (auto intro!: i64_id simp: in_i64_def)
  moreover have "(if attempt - 1 > 30 then 30 else attempt - 1) = min 30 (attempt - 1)" by auto
  ultimately show ?thesis using assms(3) by (simp add: computeBackoff_def Let_def min_def)
qed

lemma computeBackoff_default_shift:
  assumes "(k :: nat) \<le> 30"
  shows "computeBackoff (15 * Minute) (24 * Hour) (int k + 1) = min (24 * Hour) (15 * Minute * 2 ^ k)"
proof -
  have "list_all (\<lambda>k. computeBackoff (15 * Minute) (24 * Hour) (int k + 1) = min (24 * Hour) (15 * Minute * 2 ^ k)) [0..<31]"
    by code_simp
  then show ?thesis using assms by (simp add: list_all_iff)
qed

section \<open>What a cycle does to the store\<close>

fun accounts :: "address \<Rightarrow> u64 \<Rightarrow> sched_event \<Rightarrow> bool" where
  "accounts w j (EvState j' (Inr info)) \<longleftrightarrow> j' = j \<and> settled_elsewhere w info"
| "accounts w j (EvRelease j' None) \<longleftrightarrow> j' = j"
| "accounts w j (EvReleaseBatch js None) \<longleftrightarrow> j \<in> set js"
| "accounts w j _ \<longleftrightarrow> False"

text \<open>
  \<open>progress\<close>: the invariant holds afterwards, the trace only grew, the gates and the cursor are as
  before, and a job is missing only if the trace accounts for it.
\<close>

definition same_gates :: "abs_store \<Rightarrow> abs_store \<Rightarrow> bool" where
  "same_gates a a' \<longleftrightarrow> a_cursor a' = a_cursor a \<and> a_lastRelease a' = a_lastRelease a \<and> a_nextAllowed a' = a_nextAllowed a"

definition progress ::
  "('s \<Rightarrow> bool) \<Rightarrow> ('s \<Rightarrow> abs_store) \<Rightarrow> address \<Rightarrow> ('c, 's) sched_st \<Rightarrow> ('c, 's) sched_st \<Rightarrow> bool" where
  "progress ok ab w st st' \<longleftrightarrow>
     ok (ss_store st') \<and> set (ss_trace st) \<subseteq> set (ss_trace st') \<and> same_gates (ab (ss_store st)) (ab (ss_store st')) \<and>
     count_list (ss_trace st') IncPauseEvent = count_list (ss_trace st) IncPauseEvent \<and>
     (\<forall>j. a_pending (ab (ss_store st)) j \<noteq> None \<and> a_pending (ab (ss_store st')) j = None \<longrightarrow>
        list_ex (accounts w j) (ss_trace st'))"

lemma part_ok_accounts:
  assumes "part_ok sd ws now evs rel drp"
  shows "list_all (\<lambda>j. list_ex (accounts (sch_workerAddr sd) j) evs) drp"
  unfolding list_all_iff list_ex_iff
proof
  fix j assume "j \<in> set drp"
  then obtain info where "EvState j (Inr info) \<in> set evs" "settled_elsewhere (sch_workerAddr sd) info"
    using assms by (auto simp: part_ok_def)
  then show "\<exists>e\<in>set evs. accounts (sch_workerAddr sd) j e"
    by (intro bexI [of _ "EvState j (Inr info)"]) auto
qed

lemma progress_refl: "ok (ss_store st) \<Longrightarrow> progress ok ab w st st"
  by (auto simp: progress_def same_gates_def)

lemma progress_ok: "progress ok ab w st st' \<Longrightarrow> ok (ss_store st')"
  by (simp add: progress_def)

lemma progress_trans: "progress ok ab w st st1 \<Longrightarrow> progress ok ab w st1 st2 \<Longrightarrow> progress ok ab w st st2"
  unfolding progress_def same_gates_def list_ex_iff by (metis (no_types, opaque_lifting) order_trans subset_iff)

lemma progress_trace:
  "ok (ss_store st) \<Longrightarrow> ss_store st' = ss_store st \<Longrightarrow> ss_trace st' = evs @ ss_trace st \<Longrightarrow> IncPauseEvent \<notin> set evs \<Longrightarrow>
   progress ok ab w st st'"
  by (auto simp: progress_def same_gates_def)

lemma spec_remove_lost: "a_pending (spec_remove js a) j = None \<longleftrightarrow> a_pending a j = None \<or> j \<in> set js"
  by (auto simp: spec_remove_def restrict_map_def)

lemma same_gates_spec:
  "same_gates a (spec_remove js a)" "same_gates a (spec_fail j b a)" "same_gates a a"
  by (simp_all add: same_gates_def)

context release_store
begin

lemma remove_progress:
  assumes "inv (ss_store st)" "ss_trace st' = ss_trace st" "st_Remove ops js (ss_store st) = (r, ss_store st')"
    and "list_all (\<lambda>j. list_ex (accounts w j) (ss_trace st)) js"
  shows "progress inv abs w st st'"
  using Remove_law [OF assms(1,3)] assms(2,4)
  by (auto simp: progress_def applies_def same_gates_spec spec_remove_lost list_all_iff split: sum.splits)

lemma failure_progress:
  assumes "inv (ss_store st)" "sch_store sd = ops"
  shows "progress inv abs w st (recordPerJobFailure sd j now st)"
proof -
  obtain r st1 where p: "on_store (st_Pending ops) st = (r, st1)" by (cases "on_store (st_Pending ops) st")
  note st1 = on_store_eq [OF p]
  have inv1: "inv (ss_store st1)" "abs (ss_store st1) = abs (ss_store st)" using Pending_law [OF assms(1) st1(1)] by simp_all
  then have p1: "progress inv abs w st st1" using st1 by (auto simp: progress_def same_gates_def)
  have fail: "progress inv abs w st1 (store_do (st_RecordFailure ops j t) st1)" for t
  proof -
    obtain q s2 where q: "st_RecordFailure ops j t (ss_store st1) = (q, s2)" by (cases "st_RecordFailure ops j t (ss_store st1)")
    have "a_pending (spec_fail j t a) i = None \<longleftrightarrow> a_pending a i = None" for a i
      by (auto simp: spec_fail_def split: option.splits)
    then show ?thesis using RecordFailure_law [OF inv1(1) q] q
      by (auto simp: progress_def store_do_store applies_def same_gates_spec split: sum.splits)
  qed
  show ?thesis using progress_trans [OF p1 fail] p1 p assms(2)
    by (cases r) (simp_all add: recordPerJobFailure_def Let_def)
qed

lemma store_do_remove_progress:
  assumes "inv (ss_store st)" "list_all (\<lambda>j. list_ex (accounts w j) (ss_trace st)) js"
  shows "progress inv abs w st (store_do (st_Remove ops js) st)"
  by (rule remove_progress [OF assms(1), where js = js and r = "fst (st_Remove ops js (ss_store st))"])
    (simp_all add: store_do_store assms(2))

lemma fallback_one_progress:
  assumes inv: "inv (ss_store st)" and sd: "sch_store sd = ops"
    and f: "fallback_one sd ws now j out st = (b, out', st')"
  shows "progress inv abs (sch_workerAddr sd) st st'"
  using f
proof (cases rule: fallback_one_cases)
  case (unread e st1)
  have "progress inv abs (sch_workerAddr sd) st st1"
    by (rule progress_trace [of inv, OF inv unread(5), where evs = "[EvState j (Inl e)]"]) (simp_all add: unread)
  moreover have "progress inv abs (sch_workerAddr sd) st1 st'"
    using failure_progress [OF _ sd] inv unread by simp
  ultimately show ?thesis by (rule progress_trans)
next
  case (terminal info st1 r)
  have "progress inv abs (sch_workerAddr sd) st st1"
    by (rule progress_trace [of inv, OF inv terminal(6), where evs = "[EvState j (Inr info)]"]) (simp_all add: terminal)
  moreover have "progress inv abs (sch_workerAddr sd) st1 st'"
    using remove_progress [of st1 st' "[j]" r] on_store_eq [OF terminal(3)] inv terminal sd
    by (auto simp: settled_elsewhere_def)
  ultimately show ?thesis by (rule progress_trans)
next
  case (deferred info)
  show ?thesis
    by (rule progress_trace [of inv, OF inv deferred(4), where evs = "[EvState j (Inr info)]"]) (simp_all add: deferred)
next
  case (paused info e)
  show ?thesis
    by (rule progress_trace [of inv, OF inv paused(5), where evs = "[EvRelease j (Some e), EvState j (Inr info)]"])
      (simp_all add: paused)
next
  case (failed info e st2)
  have "progress inv abs (sch_workerAddr sd) st st2"
    by (rule progress_trace [of inv, OF inv failed(6), where evs = "[EvRelease j (Some e), EvState j (Inr info)]"])
      (simp_all add: failed)
  moreover have p2: "progress inv abs (sch_workerAddr sd) st2 (recordPerJobFailure sd j now st2)"
    using failure_progress [OF _ sd] inv failed by simp
  moreover have "progress inv abs (sch_workerAddr sd) (recordPerJobFailure sd j now st2) st'"
    using p2 failed(4) by (intro progress_trace [where evs = "[IncFailed 1]"]) (auto simp: progress_def)
  ultimately show ?thesis by (blast intro: progress_trans)
next
  case (released info st2)
  have "progress inv abs (sch_workerAddr sd) st st2"
    by (rule progress_trace [of inv, OF inv released(6), where evs = "[EvRelease j None, EvState j (Inr info)]"])
      (simp_all add: released)
  moreover have p2: "progress inv abs (sch_workerAddr sd) st2 (store_do (st_Remove ops [j]) st2)"
    using inv released by (intro store_do_remove_progress) simp_all
  moreover have "progress inv abs (sch_workerAddr sd) (store_do (st_Remove ops [j]) st2) st'"
    using p2 released(4) sd
    by (intro progress_trace [where evs = "[SetLastSuccessTimestamp now, IncReleased 1]"]) (auto simp: progress_def)
  ultimately show ?thesis by (blast intro: progress_trans)
qed

lemma fallback_progress:
  assumes "inv (ss_store st)" "sch_store sd = ops" "perJobFallback sd batch window head st = (fb, st')"
  shows "progress inv abs (sch_workerAddr sd) st st'"
  by (rule fallback_loop_inv [OF _ assms(3) [unfolded perJobFallback_def], where P = "\<lambda>_ s. progress inv abs (sch_workerAddr sd) st s"])
    (blast intro: progress_refl assms(1) progress_trans progress_ok fallback_one_progress [OF _ assms(2)])+

end

text \<open>
  Every cycle has the same shape: progress up to a state, then one closing write, of the pause gate or
  of the last-release timestamp.
\<close>

definition cycle_close :: "('c, 's) Scheduler \<Rightarrow> int \<Rightarrow> CycleResult \<Rightarrow> ('c, 's) sched_st \<Rightarrow> ('c, 's) sched_st \<Rightarrow> bool" where
  "cycle_close sd now res st1 st' \<longleftrightarrow>
     (if Paused res
      then st' = recordAttemptWithBackoff sd now (PausedCycleBackoff (sch_cfg sd)) (emit IncPauseEvent st1) \<and>
           NextAllowedAt res = i64 (now + go_div (PausedCycleBackoff (sch_cfg sd)) Second)
      else st' = recordAttempt sd now st1)"

definition unblamed :: "('s \<Rightarrow> abs_store) \<Rightarrow> CycleResult \<Rightarrow> ('c, 's) sched_st \<Rightarrow> ('c, 's) sched_st \<Rightarrow> bool" where
  "unblamed ab res st st' \<longleftrightarrow> (Failed res = 0 \<longrightarrow> a_pending (ab (ss_store st')) \<subseteq>\<^sub>m a_pending (ab (ss_store st)))"

lemma unblamed_refl: "unblamed ab res st st"
  by (simp add: unblamed_def)

lemma spec_remove_map_le: "a_pending (spec_remove js a) \<subseteq>\<^sub>m a_pending a"
  by (auto simp: spec_remove_def map_le_def restrict_map_def)

context release_store
begin

lemma remove_map_le:
  assumes "inv s" "st_Remove ops js s = (r, s')"
  shows "a_pending (abs s') \<subseteq>\<^sub>m a_pending (abs s)"
  using Remove_law [OF assms] spec_remove_map_le by (auto simp: applies_def split: sum.splits)

lemma fallback_one_unblamed:
  assumes "inv (ss_store st)" "sch_store sd = ops" "fallback_one sd ws now j out st = (b, out', st')"
    and "unblamed abs out st0 st"
  shows "unblamed abs out' st0 st'"
  using assms(3)
proof (cases rule: fallback_one_cases)
  case (terminal info st1 r)
  have "a_pending (abs (ss_store st')) \<subseteq>\<^sub>m a_pending (abs (ss_store st))"
    using remove_map_le [of "ss_store st" "[j]" r "ss_store st'"] on_store_eq [OF terminal(3)] terminal(6) assms(1,2) by simp
  then show ?thesis using terminal(4) assms(4) by (auto simp: unblamed_def intro: map_le_trans split: if_splits)
next
  case (released info st2)
  have "ss_store st' = snd (st_Remove ops [j] (ss_store st))" using released assms(2) by (simp add: store_do_store)
  then have "a_pending (abs (ss_store st')) \<subseteq>\<^sub>m a_pending (abs (ss_store st))"
    using remove_map_le [OF assms(1)] by (metis prod.collapse)
  then show ?thesis using released(2) assms(4) by (auto simp: unblamed_def intro: map_le_trans)
qed (use assms(4) in \<open>simp_all add: unblamed_def\<close>)

lemma fallback_unblamed:
  assumes "inv (ss_store st)" "sch_store sd = ops" "perJobFallback sd batch window head st = (fb, st')"
  shows "unblamed abs fb st st'"
proof -
  have "inv (ss_store st') \<and> unblamed abs fb st st'"
    by (rule fallback_loop_inv [OF _ assms(3) [unfolded perJobFallback_def],
          where P = "\<lambda>out s. inv (ss_store s) \<and> unblamed abs out st s"])
      (auto intro: fallback_one_unblamed [OF _ assms(2)] progress_ok [OF fallback_one_progress [OF _ assms(2)]]
        unblamed_refl assms(1))
  then show ?thesis by simp
qed

lemma settle_batch_shape:
  assumes inv: "inv (ss_store st)" and sd: "sch_store sd = ops" and res: "\<not> Paused res" "Failed res = 0"
    and s: "settle_batch sd head window batch res st = (res', st')"
  shows "\<exists>st1. progress inv abs (sch_workerAddr sd) st st1 \<and> unblamed abs res' st st1 \<and>
    cycle_close sd (hd_Timestamp head) res' st1 st'"
proof -
  obtain r st1 where r: "release_batch sd batch st = (r, st1)" by (cases "release_batch sd batch st")
  note st1 = release_batch_eq [OF r]
  have p1: "progress inv abs (sch_workerAddr sd) st st1"
    by (rule progress_trace [of inv, OF inv st1(2), where evs = "[EvReleaseBatch batch r]"]) (simp_all add: st1)
  note inv1 = progress_ok [OF p1]
  show ?thesis
  proof (cases r)
    case None
    let ?a = "store_do (st_Remove ops batch) st1"
    let ?b = "emit (SetLastSuccessTimestamp (hd_Timestamp head)) (emit (IncReleased (length batch)) ?a)"
    have p2: "progress inv abs (sch_workerAddr sd) st1 ?a"
      using st1 None by (intro store_do_remove_progress inv1) (simp add: list_all_iff)
    have p3: "progress inv abs (sch_workerAddr sd) ?a ?b"
      by (rule progress_trace [of inv, OF progress_ok [OF p2],
            where evs = "[SetLastSuccessTimestamp (hd_Timestamp head), IncReleased (length batch)]"]) simp_all
    have "a_pending (abs (ss_store ?b)) \<subseteq>\<^sub>m a_pending (abs (ss_store st))"
      using remove_map_le [OF inv1, of batch] st1(2) by (simp add: store_do_store) (metis prod.collapse)
    then show ?thesis using progress_trans [OF p1 progress_trans [OF p2 p3]] s r None res sd
      by (intro exI [of _ ?b]) (auto simp: settle_batch_def cycle_close_def unblamed_def)
  next
    case (Some e)
    show ?thesis
    proof (cases "isPauseError (Some e)")
      case True
      then show ?thesis using p1 s r Some sd st1(2)
        by (intro exI [of _ st1]) (auto simp: settle_batch_def applyPauseBackoff_def Let_def cycle_close_def unblamed_def)
    next
      case False
      obtain fb st2 where f: "perJobFallback sd batch window head st1 = (fb, st2)"
        by (cases "perJobFallback sd batch window head st1")
      have p2: "progress inv abs (sch_workerAddr sd) st st2" "unblamed abs fb st st2"
        using progress_trans [OF p1 fallback_progress [OF inv1 sd f]] fallback_unblamed [OF inv1 sd f] st1(2)
        by (simp_all add: unblamed_def)
      then show ?thesis using s r Some False f res
        by (intro exI [of _ st2])
          (auto simp: settle_batch_def applyPauseBackoff_def Let_def cycle_close_def unblamed_def split: if_splits)
    qed
  qed
qed

lemma drop_terminal_progress:
  assumes "inv (ss_store st)" "sch_store sd = ops" "drop_terminal sd drp res st = (res', st')"
    and "list_all (\<lambda>j. list_ex (accounts w j) (ss_trace st)) drp"
  shows "progress inv abs w st st' \<and> a_pending (abs (ss_store st')) \<subseteq>\<^sub>m a_pending (abs (ss_store st))"
proof (cases "drp = []")
  case True
  then show ?thesis using assms by (simp add: drop_terminal_def progress_refl)
next
  case False
  obtain r st1 where r: "on_store (st_Remove ops drp) st = (r, st1)" by (cases "on_store (st_Remove ops drp) st")
  have "st' = st1" using assms(2,3) r False by (cases r) (simp_all add: drop_terminal_def)
  then show ?thesis using on_store_eq [OF r] remove_progress [OF assms(1) _ _ assms(4)] remove_map_le [OF assms(1)] by auto
qed

lemma cycle_shape:
  assumes inv: "inv (ss_store st)" and sd: "sch_store sd = ops"
    and s: "runReleaseCycle sd head window pending st = (res, st')"
  shows "\<exists>st1. progress inv abs (sch_workerAddr sd) st st1 \<and> unblamed abs res st st1 \<and>
    cycle_close sd (hd_Timestamp head) res st1 st'"
proof -
  let ?c = "collectCandidates (sch_cfg sd) pending (hd_Timestamp head)"
  let ?r = "zeroResult\<lparr>Candidates := length ?c\<rparr>"
  have r0: "\<not> Paused ?r" "Failed ?r = 0" "Dropped ?r = 0" by (simp_all add: zeroResult_def)
  obtain rel drp stale st1 where p: "partition_jobs sd ?c window (hd_Timestamp head) st = ((rel, drp, stale), st1)"
    by (metis prod.exhaust)
  obtain evs where evs: "ss_trace st1 = evs @ ss_trace st" "part_ok sd (go_div window Second) (hd_Timestamp head) evs rel drp"
      and st1: "ss_store st1 = ss_store st"
    using partition_loop_spec [OF p [unfolded partition_jobs_def]] by auto
  have p1: "progress inv abs (sch_workerAddr sd) st st1"
    using evs by (intro progress_trace [of inv, OF inv st1 evs(1)]) (auto simp: part_ok_def list_all_iff)
  have "list_all (\<lambda>j. list_ex (accounts (sch_workerAddr sd) j) (ss_trace st1)) drp"
    using part_ok_accounts [OF evs(2)] evs(1) by (simp add: list_all_iff)
  moreover obtain res1 st2 where d: "drop_terminal sd drp ?r st1 = (res1, st2)" by (metis prod.exhaust)
  ultimately have p2: "progress inv abs (sch_workerAddr sd) st1 st2"
      and le: "a_pending (abs (ss_store st2)) \<subseteq>\<^sub>m a_pending (abs (ss_store st))"
    using drop_terminal_progress [OF progress_ok [OF p1] sd d] st1 by simp_all
  note p12 = progress_trans [OF p1 p2]
  have r1: "\<not> Paused res1" "Failed res1 = 0"
    using d r0 by (auto simp: drop_terminal_def split: if_splits sum.splits prod.splits)
  consider (none) "?c = []" | (norel) "?c \<noteq> []" "rel = []" | (settle) "?c \<noteq> []" "rel \<noteq> []" by blast
  then show ?thesis
  proof cases
    case none
    then show ?thesis using s inv r0
      by (intro exI [of _ st]) (auto simp: runReleaseCycle_def Let_def cycle_close_def progress_refl unblamed_def zeroResult_def)
  next
    case norel
    then have "res = res1" "st' = recordAttempt sd (hd_Timestamp head) st2"
      using s p d by (auto simp: runReleaseCycle_def Let_def)
    then show ?thesis using p12 le r1 by (intro exI [of _ st2]) (auto simp: cycle_close_def unblamed_def)
  next
    case settle
    then have "settle_batch sd head window rel res1 st2 = (res, st')"
      using s p d by (auto simp: runReleaseCycle_def Let_def)
    from settle_batch_shape [OF progress_ok [OF p2] sd r1 this] show ?thesis
      using p12 le by (meson map_le_trans progress_trans unblamed_def)
  qed
qed

lemma close_store:
  assumes "inv (ss_store st1)" "sch_store sd = ops" "cycle_close sd now res st1 st'"
  shows "inv (ss_store st') \<and> a_pending (abs (ss_store st')) = a_pending (abs (ss_store st1)) \<and>
    a_cursor (abs (ss_store st')) = a_cursor (abs (ss_store st1)) \<and>
    (if Paused res
     then a_lastRelease (abs (ss_store st')) = a_lastRelease (abs (ss_store st1)) \<and>
          a_nextAllowed (abs (ss_store st')) \<in> {a_nextAllowed (abs (ss_store st1)), NextAllowedAt res}
     else a_nextAllowed (abs (ss_store st')) = a_nextAllowed (abs (ss_store st1)))"
proof (cases "Paused res")
  case True
  obtain r s' where r: "st_SetNextAllowedAttempt ops (NextAllowedAt res) (ss_store st1) = (r, s')"
    by (cases "st_SetNextAllowedAttempt ops (NextAllowedAt res) (ss_store st1)")
  have "ss_store st' = s'" using assms r True by (auto simp: cycle_close_def recordAttemptWithBackoff_def store_do_store)
  then show ?thesis using SetNextAllowedAttempt_law [OF assms(1) r] True by (auto simp: applies_def split: sum.splits)
next
  case False
  obtain r s' where r: "st_SetLastReleaseTs ops now (ss_store st1) = (r, s')"
    by (cases "st_SetLastReleaseTs ops now (ss_store st1)")
  have "ss_store st' = s'" using assms r False by (auto simp: cycle_close_def recordAttempt_def store_do_store)
  then show ?thesis using SetLastReleaseTs_law [OF assms(1) r] False by (auto simp: applies_def split: sum.splits)
qed

lemma close_trace:
  "cycle_close sd now res st1 st' \<Longrightarrow> ss_trace st' = (if Paused res then [IncPauseEvent] else []) @ ss_trace st1"
  by (simp add: cycle_close_def split: if_splits)

lemma cycle_accounted:
  assumes "inv (ss_store st)" "sch_store sd = ops" "runReleaseCycle sd head window pending st = (res, st')"
  shows "inv (ss_store st') \<and>
    (a_pending (abs (ss_store st)) j \<noteq> None \<longrightarrow> a_pending (abs (ss_store st')) j = None \<longrightarrow>
      list_ex (accounts (sch_workerAddr sd) j) (ss_trace st'))"
proof -
  obtain st1 where p: "progress inv abs (sch_workerAddr sd) st st1" and c: "cycle_close sd (hd_Timestamp head) res st1 st'"
    using cycle_shape [OF assms] by blast
  show ?thesis using close_store [OF progress_ok [OF p] assms(2) c] close_trace [OF c] p
    by (auto simp: progress_def)
qed

lemma cycle_gates:
  assumes "inv (ss_store st)" "sch_store sd = ops" "runReleaseCycle sd head window pending st = (res, st')"
  shows "count_list (ss_trace st') IncPauseEvent = count_list (ss_trace st) IncPauseEvent + (if Paused res then 1 else 0) \<and>
    (if Paused res
     then NextAllowedAt res = i64 (hd_Timestamp head + go_div (PausedCycleBackoff (sch_cfg sd)) Second) \<and>
          a_nextAllowed (abs (ss_store st')) \<in> {a_nextAllowed (abs (ss_store st)), NextAllowedAt res} \<and>
          a_lastRelease (abs (ss_store st')) = a_lastRelease (abs (ss_store st))
     else a_nextAllowed (abs (ss_store st')) = a_nextAllowed (abs (ss_store st))) \<and>
    (Failed res = 0 \<longrightarrow> a_pending (abs (ss_store st')) \<subseteq>\<^sub>m a_pending (abs (ss_store st)))"
proof -
  obtain st1 where p: "progress inv abs (sch_workerAddr sd) st st1" and u: "unblamed abs res st st1"
      and c: "cycle_close sd (hd_Timestamp head) res st1 st'"
    using cycle_shape [OF assms] by blast
  have g: "NextAllowedAt res = i64 (hd_Timestamp head + go_div (PausedCycleBackoff (sch_cfg sd)) Second)" if "Paused res"
    using c that by (simp add: cycle_close_def)
  show ?thesis using close_store [OF progress_ok [OF p] assms(2) c] close_trace [OF c] p u g
    by (auto simp: progress_def same_gates_def unblamed_def)
qed

lemma gate_read:
  assumes "inv (ss_store st)" "sch_store sd = ops"
    and "on_chain (sc_Head (sch_chain sd)) st = (Inr head, st1)" "hd_Timestamp head < a_nextAllowed (abs (ss_store st))"
    and "on_store (st_GetNextAllowedAttempt ops) st1 = (r, st2)"
  shows "ss_trace st2 = ss_trace st \<and> inv (ss_store st2) \<and> abs (ss_store st2) = abs (ss_store st) \<and>
    (case r of Inl e \<Rightarrow> True | Inr t \<Rightarrow> t = a_nextAllowed (abs (ss_store st)) \<and> hd_Timestamp head < t)"
  using GetNextAllowedAttempt_law [of "ss_store st1" r "ss_store st2"] on_chain_eq [OF assms(3)] on_store_eq [OF assms(5)] assms(1,4)
  by (auto simp: reads_def split: sum.splits)

lemma gate_blocks:
  assumes "inv (ss_store st)" "sch_store sd = ops"
    and "on_chain (sc_Head (sch_chain sd)) st = (Inr head, st1)" "hd_Timestamp head < a_nextAllowed (abs (ss_store st))"
  shows "ss_trace (tick sd st) = ss_trace st \<and> abs (ss_store (tick sd st)) = abs (ss_store st) \<and>
    ss_trace (snd (RunOnce sd st)) = ss_trace st \<and> abs (ss_store (snd (RunOnce sd st))) = abs (ss_store st) \<and>
    (case fst (RunOnce sd st) of Inl e \<Rightarrow> True
     | Inr res \<Rightarrow> BackoffActive res \<and> NextAllowedAt res = a_nextAllowed (abs (ss_store st)) \<and> Released res = 0)"
proof -
  obtain r st2 where r: "on_store (st_GetNextAllowedAttempt ops) st1 = (r, st2)"
    by (cases "on_store (st_GetNextAllowedAttempt ops) st1")
  note g = gate_read [OF assms r]
  show ?thesis using g assms(2,3) r by (cases r) (auto simp: tick_def RunOnce_def zeroResult_def)
qed

end

section \<open>Head-of-line blocking\<close>

lemma partition_disputed:
  assumes "\<forall>j\<in>set (map JobID ps). \<forall>c. \<exists>info c'. sc_GetJobState (sch_chain sd) j c = (Inr info, c') \<and>
      ji_State info = JobStateDisputed \<and> ji_Worker info = sch_workerAddr sd"
  shows "\<exists>evs stale st'. partition_loop sd ws now ps st = (([], [], stale), st') \<and> ss_store st' = ss_store st \<and>
      ss_trace st' = evs @ ss_trace st \<and> list_all (\<lambda>e. \<exists>j\<in>set (map JobID ps). \<exists>r. e = EvState j r) evs"
  using assms
proof (induction ps arbitrary: st)
  case (Cons p ps)
  obtain info c' where i: "sc_GetJobState (sch_chain sd) (JobID p) (ss_chain st) = (Inr info, c')"
      "ji_State info = JobStateDisputed" "ji_Worker info = sch_workerAddr sd"
    using Cons.prems by fastforce
  obtain st1 where r: "read_state sd (JobID p) st = (Inr info, st1)"
    using i by (simp add: read_state_def on_chain_def)
  have v: "classify sd ws now p info = VStale \<or> classify sd ws now p info = VKeep"
    using i by (simp add: classify_def Let_def)
  have prems: "\<forall>j\<in>set (map JobID ps). \<forall>c. \<exists>info c'. sc_GetJobState (sch_chain sd) j c = (Inr info, c') \<and>
      ji_State info = JobStateDisputed \<and> ji_Worker info = sch_workerAddr sd"
    using Cons.prems by simp
  from Cons.IH [OF this, of st1] obtain evs stale st' where IH: "partition_loop sd ws now ps st1 = (([], [], stale), st')"
      "ss_store st' = ss_store st1" "ss_trace st' = evs @ ss_trace st1"
      "list_all (\<lambda>e. \<exists>j\<in>set (map JobID ps). \<exists>r. e = EvState j r) evs" by blast
  note st1 = read_state_eq [OF r]
  have "list_all (\<lambda>e. \<exists>j\<in>set (map JobID (p # ps)). \<exists>r. e = EvState j r) (evs @ [EvState (JobID p) (Inr info)])"
    using IH(4) by (auto simp: list_all_iff)
  then show ?case using r v IH st1
    by (intro exI [of _ "evs @ [EvState (JobID p) (Inr info)]"]) auto
qed simp

section \<open>Properties\<close>

text \<open>A chain for the examples: time 1000, every job completed at 0 by worker 2, the batch release answers \<open>e\<close>.\<close>

definition demo_chain :: "JobState \<Rightarrow> go_error option \<Rightarrow> unit sched_chain" where
  "demo_chain js e = \<lparr>sc_Head = \<lambda>c. (Inr \<lparr>hd_Number = 50, hd_Timestamp = 1000\<rparr>, c),
     sc_GetDisputeWindow = \<lambda>c. (Inr (60 * Second), c),
     sc_GetJobState = \<lambda>j c. (Inr \<lparr>ji_State = js, ji_Worker = 2, ji_CompletedAt = 0, ji_EscrowedFee = Some 5\<rparr>, c),
     sc_ReleaseJob = \<lambda>j c. (e, c), sc_ReleaseJobs = \<lambda>js c. (e, c)\<rparr>"

definition demo_sched :: "JobState \<Rightarrow> go_error option \<Rightarrow> (unit, store_world) Scheduler" where
  "demo_sched js e = \<lparr>sch_store = FileStore_ops demo_lib demo_store, sch_chain = demo_chain js e, sch_workerAddr = 2,
     sch_cfg = DefaultConfig\<rparr>"

definition demo_sched_st :: "PendingJob list \<Rightarrow> (unit, store_world) sched_st" where
  "demo_sched_st ps = \<lparr>ss_chain = (), ss_store = demo_world ps, ss_trace = []\<rparr>"

definition demo_head :: HeadInfo where
  "demo_head = \<lparr>hd_Number = 50, hd_Timestamp = 1000\<rparr>"

text \<open>
  C12. Nothing is released on trust of local state: in a cycle, every job in a ReleaseJobs transaction
  was read from the chain earlier in that cycle and found to be this worker's and either Completed with
  its dispute window over by chain time or Resolved with escrow left, and every single ReleaseJob comes
  directly after such a read of its job. This holds for every store and whatever the chain answers.
\<close>

theorem releases_are_justified:
  assumes "ss_trace st = []"
  shows "justified (sch_workerAddr sd) (go_div window Second) (hd_Timestamp head)
           (ss_trace (snd (runReleaseCycle sd head window pending st)))"
  using assms by (rule cycle_justified)

theorem releases_are_justified_witness:
  "ss_trace (snd (runReleaseCycle (demo_sched JobStateCompleted None) demo_head (60 * Second) [new_pending 4 0] (demo_sched_st [new_pending 4 0])))
     = [SetLastSuccessTimestamp 1000, IncReleased 1, EvReleaseBatch [4] None,
        EvState 4 (Inr \<lparr>ji_State = JobStateCompleted, ji_Worker = 2, ji_CompletedAt = 0, ji_EscrowedFee = Some 5\<rparr>)] \<and>
   justified 2 60 1000
     (ss_trace (snd (runReleaseCycle (demo_sched JobStateCompleted None) demo_head (60 * Second) [new_pending 4 0] (demo_sched_st [new_pending 4 0]))))"
proof
  show "ss_trace (snd (runReleaseCycle (demo_sched JobStateCompleted None) demo_head (60 * Second) [new_pending 4 0] (demo_sched_st [new_pending 4 0])))
     = [SetLastSuccessTimestamp 1000, IncReleased 1, EvReleaseBatch [4] None,
        EvState 4 (Inr \<lparr>ji_State = JobStateCompleted, ji_Worker = 2, ji_CompletedAt = 0, ji_EscrowedFee = Some 5\<rparr>)]"
    by code_simp
  show "justified 2 60 1000
     (ss_trace (snd (runReleaseCycle (demo_sched JobStateCompleted None) demo_head (60 * Second) [new_pending 4 0] (demo_sched_st [new_pending 4 0]))))"
    using releases_are_justified [of "demo_sched_st [new_pending 4 0]" "demo_sched JobStateCompleted None" "60 * Second" demo_head "[new_pending 4 0]"]
    by (simp add: demo_sched_st_def demo_sched_def demo_head_def)
qed

text \<open>
  C5. No payout is forgotten: with the file store under the scheduler, whatever I/O faults and chain
  answers a cycle meets, a job that was pending before and is not after was released successfully in
  the cycle, or was read from the chain in it as another worker's, Released, TimedOut or Resolved with
  no escrow. The file stays a well-formed document of this worker.
\<close>

theorem pending_jobs_accounted:
  assumes "fs_inv lib s (ss_store st)" "sch_store sd = FileStore_ops lib s"
    and "runReleaseCycle sd head window pending st = (res, st')"
  shows "fs_inv lib s (ss_store st') \<and>
    (a_pending (fs_abs (ss_store st)) j \<noteq> None \<longrightarrow> a_pending (fs_abs (ss_store st')) j = None \<longrightarrow>
      list_ex (accounts (sch_workerAddr sd) j) (ss_trace st'))"
  using assms by (rule file_store.cycle_accounted)

theorem pending_jobs_accounted_witness:
  "fs_inv demo_lib demo_store (ss_store (snd (runReleaseCycle (demo_sched JobStateCompleted None) demo_head (60 * Second)
     [new_pending 4 0] (demo_sched_st [new_pending 4 0]))))"
proof -
  have "fs_inv demo_lib demo_store (ss_store (demo_sched_st [new_pending 4 0]))"
    by (simp add: demo_sched_st_def demo_world_inv)
  from pending_jobs_accounted [OF this, of "demo_sched JobStateCompleted None" demo_head "60 * Second" "[new_pending 4 0]"]
  show ?thesis by (metis demo_sched_def prod.collapse Scheduler.select_convs(1))
qed

text \<open>
  A paused contract stops the whole cycle once and blames nobody: a cycle reports Paused exactly
  when it emitted one pause event; it then leaves the last-release time alone and sets the persistent
  gate to PausedCycleBackoff after chain time (or keeps it when that write fails); a cycle that is not
  paused never touches the gate. Unless the cycle counted a failed job, no pending job's fail count,
  backoff or timestamp changed.
\<close>

theorem pause_sets_gate_once:
  assumes "fs_inv lib s (ss_store st)" "sch_store sd = FileStore_ops lib s"
    and "runReleaseCycle sd head window pending st = (res, st')"
  shows "count_list (ss_trace st') IncPauseEvent = count_list (ss_trace st) IncPauseEvent + (if Paused res then 1 else 0) \<and>
    (if Paused res
     then NextAllowedAt res = i64 (hd_Timestamp head + go_div (PausedCycleBackoff (sch_cfg sd)) Second) \<and>
          a_nextAllowed (fs_abs (ss_store st')) \<in> {a_nextAllowed (fs_abs (ss_store st)), NextAllowedAt res} \<and>
          a_lastRelease (fs_abs (ss_store st')) = a_lastRelease (fs_abs (ss_store st))
     else a_nextAllowed (fs_abs (ss_store st')) = a_nextAllowed (fs_abs (ss_store st))) \<and>
    (Failed res = 0 \<longrightarrow> a_pending (fs_abs (ss_store st')) \<subseteq>\<^sub>m a_pending (fs_abs (ss_store st)))"
  using assms by (rule file_store.cycle_gates)

definition pausable_err :: go_error where
  "pausable_err = sentinel_err ''contract paused'' ErrContractPaused"

theorem pause_sets_gate_once_witness:
  "let r = runReleaseCycle (demo_sched JobStateCompleted (Some pausable_err)) demo_head (60 * Second)
       [new_pending 4 0] (demo_sched_st [new_pending 4 0])
   in Paused (fst r) \<and> NextAllowedAt (fst r) = 4600 \<and> count_list (ss_trace (snd r)) IncPauseEvent = 1"
proof -
  let ?r = "runReleaseCycle (demo_sched JobStateCompleted (Some pausable_err)) demo_head (60 * Second)
       [new_pending 4 0] (demo_sched_st [new_pending 4 0])"
  have p: "Paused (fst ?r)" by code_simp
  have "fs_inv demo_lib demo_store (ss_store (demo_sched_st [new_pending 4 0]))"
    by (simp add: demo_sched_st_def demo_world_inv)
  from pause_sets_gate_once [OF this, of "demo_sched JobStateCompleted (Some pausable_err)" demo_head "60 * Second"
      "[new_pending 4 0]" "fst ?r" "snd ?r"] p
  show ?thesis by (simp add: demo_sched_def demo_sched_st_def demo_head_def DefaultConfig_def in_i64_def Let_def)
qed

text \<open>
  The gate holds back every cycle: while the chain's time is before the persisted NextAllowedAttempt,
  neither the periodic tick nor the operator's RunOnce reads a job, sends a transaction, emits a metric
  or changes the store, however many jobs are ready and however long ago the last release was; RunOnce
  reports the gate (or the error of reading it).
\<close>

theorem gate_blocks_cycles:
  assumes "fs_inv lib s (ss_store st)" "sch_store sd = FileStore_ops lib s"
    and "on_chain (sc_Head (sch_chain sd)) st = (Inr head, st1)"
    and "hd_Timestamp head < a_nextAllowed (fs_abs (ss_store st))"
  shows "ss_trace (tick sd st) = ss_trace st \<and> fs_abs (ss_store (tick sd st)) = fs_abs (ss_store st) \<and>
    ss_trace (snd (RunOnce sd st)) = ss_trace st \<and> fs_abs (ss_store (snd (RunOnce sd st))) = fs_abs (ss_store st) \<and>
    (case fst (RunOnce sd st) of Inl e \<Rightarrow> True
     | Inr res \<Rightarrow> BackoffActive res \<and> NextAllowedAt res = a_nextAllowed (fs_abs (ss_store st)) \<and> Released res = 0)"
  using assms by (rule file_store.gate_blocks)

definition demo_gated :: "(unit, store_world) sched_st" where
  "demo_gated = \<lparr>ss_chain = (), ss_store = \<lparr>w_disk = \<lparr>d_data = Doc ((demo_snapshot [new_pending 4 0])\<lparr>NextAllowedAttempt := 4600\<rparr>),
     d_tmp = NoFile\<rparr>, w_faults = []\<rparr>, ss_trace = []\<rparr>"

theorem gate_blocks_cycles_witness: "ss_trace (tick (demo_sched JobStateCompleted None) demo_gated) = []"
proof -
  have v: "verifyIdentityLocked demo_lib demo_store ((demo_snapshot ps)\<lparr>NextAllowedAttempt := t\<rparr>) = None" for ps t
    by (simp add: verifyIdentityLocked_def demo_lib_def demo_store_def demo_snapshot_def SchemaVersion_def addrEqualHex_def)
  have "fs_inv demo_lib demo_store (ss_store demo_gated)"
    by (simp add: fs_inv_def demo_lib_ok demo_gated_def snap_ok_def v) (simp add: demo_snapshot_def)
  from gate_blocks_cycles [OF this, of "demo_sched JobStateCompleted None" demo_head demo_gated] show ?thesis
    by (simp add: demo_sched_def demo_chain_def demo_head_def on_chain_def demo_gated_def fs_abs_def abs_file_def abs_snap_def)
qed

text \<open>
  A cycle's report adds up: jobs released, failed and dropped together never exceed the candidates
  it considered, and it considers at most MaxBatchSize jobs (at least one when there is one).
\<close>

theorem cycle_report_bounds:
  assumes "runReleaseCycle sd head window pending st = (res, st')"
  shows "Released res + Failed res + Dropped res \<le> Candidates res \<and>
         int (Candidates res) \<le> max 1 (MaxBatchSize (sch_cfg sd))"
  using assms by (rule cycle_counts)

theorem cycle_report_bounds_witness:
  "int (Candidates (fst (runReleaseCycle (demo_sched JobStateCompleted None) demo_head (60 * Second)
     [new_pending 4 0, new_pending 5 0] (demo_sched_st [new_pending 4 0, new_pending 5 0])))) \<le> 50"
  using cycle_report_bounds [of "demo_sched JobStateCompleted None" demo_head "60 * Second"
     "[new_pending 4 0, new_pending 5 0]" "demo_sched_st [new_pending 4 0, new_pending 5 0]", OF prod.collapse [symmetric]]
  by (simp add: demo_sched_def DefaultConfig_def)

text \<open>
  Exponential backoff: with the default configuration the n-th consecutive failure of a job waits
  exactly 15 minutes times 2 to the n-1, capped at 24 hours, for every n; for any configuration the wait is
  positive and at most BackoffMax; and it is exact whenever BackoffBase is below 2 to the 33 nanoseconds.
\<close>

theorem backoff_exponential:
  assumes "1 \<le> attempt" "0 < maxBackoff" "0 < base"
  shows "computeBackoff (BackoffBase DefaultConfig) (BackoffMax DefaultConfig) attempt =
           min (24 * Hour) (15 * Minute * 2 ^ nat (attempt - 1)) \<and>
         0 < computeBackoff base maxBackoff attempt \<and> computeBackoff base maxBackoff attempt \<le> maxBackoff \<and>
         (base < 2 ^ 33 \<longrightarrow> computeBackoff base maxBackoff attempt = min maxBackoff (base * 2 ^ nat (min 30 (attempt - 1))))"
proof -
  have "computeBackoff (15 * Minute) (24 * Hour) attempt = min (24 * Hour) (15 * Minute * 2 ^ nat (attempt - 1))"
  proof (cases "attempt \<le> 31")
    case True
    then show ?thesis using computeBackoff_default_shift [of "nat (attempt - 1)"] assms(1) by simp
  next
    case False
    have "(2::int) ^ 30 \<le> 2 ^ nat (attempt - 1)" using False by (intro power_increasing) auto
    then have "24 * Hour \<le> 15 * Minute * 2 ^ nat (attempt - 1)" by simp
    moreover have "computeBackoff (15 * Minute) (24 * Hour) attempt = computeBackoff (15 * Minute) (24 * Hour) (int 30 + 1)"
      using False by (simp add: computeBackoff_def Let_def)
    ultimately show ?thesis using computeBackoff_default_shift [of 30] by simp
  qed
  then show ?thesis using computeBackoff_bounds [OF assms(2)] computeBackoff_exact [OF assms(3) _ assms(1)]
    by (simp add: DefaultConfig_def)
qed

theorem backoff_exponential_witness:
  "computeBackoff (BackoffBase DefaultConfig) (BackoffMax DefaultConfig) 3 = Hour"
  using backoff_exponential [of 3 1 1] by simp

text \<open>
  The overflow check of computeBackoff tests only the sign of the shifted value: a base a little
  above 2 to the 34 nanoseconds (about 17 seconds) shifted by 30 wraps to about one second, so the 31st
  failure of a job waits less than the first.
\<close>

theorem backoff_wraps_small: "computeBackoff (2 ^ 34 + 1) (24 * Hour) 31 = 2 ^ 30 \<and>
    computeBackoff (2 ^ 34 + 1) (24 * Hour) 31 < computeBackoff (2 ^ 34 + 1) (24 * Hour) 1"
  by code_simp

text \<open>
  Disputed jobs at the head of the queue starve the rest: when the candidates of a cycle (the first
  MaxBatchSize pending jobs out of backoff) are all Disputed on chain, the cycle releases nothing, reads
  only those candidates and writes nothing but the attempt time, so the next cycle starts from the same
  pending set; a releasable job behind MaxBatchSize disputed ones is not reached.
\<close>

theorem disputed_candidates_starve:
  assumes "\<forall>j\<in>set (map JobID (collectCandidates (sch_cfg sd) pending (hd_Timestamp head))).
      \<forall>c. \<exists>info c'. sc_GetJobState (sch_chain sd) j c = (Inr info, c') \<and>
        ji_State info = JobStateDisputed \<and> ji_Worker info = sch_workerAddr sd"
  shows "\<exists>evs st1. snd (runReleaseCycle sd head window pending st) = recordAttempt sd (hd_Timestamp head) st1 \<and>
      ss_store st1 = ss_store st \<and> ss_trace st1 = evs @ ss_trace st \<and>
      list_all (\<lambda>e. \<exists>j\<in>set (map JobID (collectCandidates (sch_cfg sd) pending (hd_Timestamp head))). \<exists>r. e = EvState j r) evs"
proof -
  let ?c = "collectCandidates (sch_cfg sd) pending (hd_Timestamp head)"
  obtain evs stale st1 where p: "partition_loop sd (go_div window Second) (hd_Timestamp head) ?c st = (([], [], stale), st1)"
      "ss_store st1 = ss_store st" "ss_trace st1 = evs @ ss_trace st"
      "list_all (\<lambda>e. \<exists>j\<in>set (map JobID ?c). \<exists>r. e = EvState j r) evs"
    using partition_disputed [OF assms, of "go_div window Second" "hd_Timestamp head" st] by blast
  show ?thesis
  proof (cases "?c = []")
    case True
    then show ?thesis by (intro exI [of _ "[]"] exI [of _ st]) (simp add: runReleaseCycle_def Let_def)
  next
    case False
    then show ?thesis using p
      by (intro exI [of _ evs] exI [of _ st1]) (simp add: runReleaseCycle_def Let_def partition_jobs_def drop_terminal_def)
  qed
qed

theorem disputed_candidates_starve_witness:
  "\<exists>evs st1. snd (runReleaseCycle (demo_sched JobStateDisputed None) demo_head (60 * Second) [new_pending 4 0] (demo_sched_st [new_pending 4 0]))
      = recordAttempt (demo_sched JobStateDisputed None) 1000 st1 \<and> ss_store st1 = demo_world [new_pending 4 0]"
  using disputed_candidates_starve [of "demo_sched JobStateDisputed None" "[new_pending 4 0]" demo_head "60 * Second" "demo_sched_st [new_pending 4 0]"]
  by (simp add: demo_sched_def demo_chain_def demo_sched_st_def demo_head_def) blast

end
