(* ===== verification/Release_Reconciler.thy ===== *)
theory Release_Reconciler
  imports Release_Store Release_Config Chain_Reads
begin

text \<open>
  The reconciler (internal/release/reconciler.go): one pass over the JobCompleted log from the stored
  cursor to the confirmed head, in chunks, adding what is still owed to the pending set.

  The chunk loop computes on uint64 and is given fuel; \<open>None\<close> is running out of it. The theorem
  \<open>reconcile_terminates\<close> gives an amount that is enough. StartPeriodic only repeats Run on a timer.
  The chain interface reconcilerChain is the record \<open>recon_chain\<close>; \<open>rs_trace\<close> records the chain reads and
  the metrics calls, newest first.
\<close>

section \<open>Model\<close>

record 'c recon_chain =
  rc_Head :: "'c \<Rightarrow> (go_error + HeadInfo) \<times> 'c"
  rc_FilterJobCompleted :: "address \<Rightarrow> u64 \<Rightarrow> u64 \<Rightarrow> 'c \<Rightarrow> (go_error + JobCompletedEvent list) \<times> 'c"
  rc_GetJobState :: "u64 \<Rightarrow> 'c \<Rightarrow> (go_error + JobStateInfo) \<times> 'c"

datatype recon_event =
    RdLogs u64 u64 "go_error + JobCompletedEvent list"
  | RdState u64 "go_error + JobStateInfo"
  | SetReconcileLastBlock u64

record ('c, 's) recon_st =
  rs_chain :: 'c
  rs_store :: 's
  rs_trace :: "recon_event list"

record ('c, 's) Reconciler =
  rec_store :: "'s store_ops"
  rec_chain :: "'c recon_chain"
  rec_workerAddr :: address
  rec_cfg :: Config

definition rc_call :: "('r \<Rightarrow> recon_event list) \<Rightarrow> ('c \<Rightarrow> 'r \<times> 'c) \<Rightarrow> ('c, 's) recon_st \<Rightarrow> 'r \<times> ('c, 's) recon_st" where
  "rc_call note f st = (case f (rs_chain st) of (r, c) \<Rightarrow> (r, st\<lparr>rs_chain := c, rs_trace := note r @ rs_trace st\<rparr>))"

definition rs_call :: "('s \<Rightarrow> 'r \<times> 's) \<Rightarrow> ('c, 's) recon_st \<Rightarrow> 'r \<times> ('c, 's) recon_st" where
  "rs_call f st = (case f (rs_store st) of (r, s) \<Rightarrow> (r, st\<lparr>rs_store := s\<rparr>))"

text \<open>Nothing is owed for the job: another worker's, settled, slashed, or resolved with no escrow.\<close>

definition nothing_owed :: "address \<Rightarrow> JobStateInfo \<Rightarrow> bool" where
  "nothing_owed w info =
     (if ji_Worker info \<noteq> w then True
      else case ji_State info of
        JobStateReleased \<Rightarrow> True
      | JobStateTimedOut \<Rightarrow> True
      | JobStateResolved \<Rightarrow> (case ji_EscrowedFee info of None \<Rightarrow> True | Some f \<Rightarrow> f = 0)
      | _ \<Rightarrow> False)"

fun events_loop ::
  "('c, 's) Reconciler \<Rightarrow> JobCompletedEvent list \<Rightarrow> go_error option \<Rightarrow> ('c, 's) recon_st \<Rightarrow>
     (go_error + go_error option) \<times> ('c, 's) recon_st" where
  "events_loop r [] firstStateErr st = (Inr firstStateErr, st)"
| "events_loop r (ev # evs) firstStateErr st =
     (case rc_call (\<lambda>x. [RdState (jc_JobID ev) x]) (rc_GetJobState (rec_chain r) (jc_JobID ev)) st of
        (Inl gErr, st1) \<Rightarrow>
          events_loop r evs (case firstStateErr of None \<Rightarrow> Some gErr | Some e \<Rightarrow> Some e) st1
      | (Inr info, st1) \<Rightarrow>
          (if nothing_owed (rec_workerAddr r) info then events_loop r evs firstStateErr st1
           else case rs_call (st_AddEligible (rec_store r) (jc_JobID ev) (ji_CompletedAt info)) st1 of
             (Inl aErr, st2) \<Rightarrow> (Inl (wrapf ''AddEligible job'' aErr), st2)
           | (Inr _, st2) \<Rightarrow> events_loop r evs firstStateErr st2))"

definition scan_chunk ::
  "('c, 's) Reconciler \<Rightarrow> u64 \<Rightarrow> u64 \<Rightarrow> ('c, 's) recon_st \<Rightarrow> go_error option \<times> ('c, 's) recon_st" where
  "scan_chunk r lo hi st =
     (case rc_call (\<lambda>x. [RdLogs lo hi x]) (rc_FilterJobCompleted (rec_chain r) (rec_workerAddr r) lo hi) st of
        (Inl fErr, st1) \<Rightarrow> (Some (wrapf ''FilterJobCompleted'' fErr), st1)
      | (Inr events, st1) \<Rightarrow>
          (case events_loop r events None st1 of
             (Inl e, st2) \<Rightarrow> (Some e, st2)
           | (Inr (Some firstStateErr), st2) \<Rightarrow>
               (Some (wrapf ''reconcile chunk: GetJobState failed for one or more events'' firstStateErr), st2)
           | (Inr None, st2) \<Rightarrow>
               (case rs_call (st_SetReconcileBlock (rec_store r) hi) st2 of
                  (Inl sErr, st3) \<Rightarrow> (Some (wrapf ''SetReconcileBlock'' sErr), st3)
                | (Inr _, st3) \<Rightarrow> (None, st3\<lparr>rs_trace := SetReconcileLastBlock hi # rs_trace st3\<rparr>))))"

definition chunk_end :: "u64 \<Rightarrow> u64 \<Rightarrow> u64 \<Rightarrow> u64" where
  "chunk_end chunkSize safeHead lo = (let hi = lo + chunkSize - 1 in if safeHead < hi then safeHead else hi)"

fun scan_loop ::
  "nat \<Rightarrow> ('c, 's) Reconciler \<Rightarrow> u64 \<Rightarrow> u64 \<Rightarrow> u64 \<Rightarrow> ('c, 's) recon_st \<Rightarrow> (go_error option \<times> ('c, 's) recon_st) option" where
  "scan_loop 0 r chunkSize safeHead lo st = None"
| "scan_loop (Suc fuel) r chunkSize safeHead lo st =
     (if safeHead < lo then Some (None, st)
      else let hi = chunk_end chunkSize safeHead lo in
        case scan_chunk r lo hi st of
          (Some e, st1) \<Rightarrow> Some (Some e, st1)
        | (None, st1) \<Rightarrow>
            (if hi = safeHead then Some (None, st1) else scan_loop fuel r chunkSize safeHead (hi + 1) st1))"

definition start_block :: "Config \<Rightarrow> u64 \<Rightarrow> u64" where
  "start_block cfg cursor = (if cursor = 0 \<and> 0 < StartBlock cfg then StartBlock cfg else cursor + 1)"

definition chunk_size :: "Config \<Rightarrow> u64" where
  "chunk_size cfg = (if ChunkSize cfg = 0 then 5000 else ChunkSize cfg)"

definition Run :: "nat \<Rightarrow> ('c, 's) Reconciler \<Rightarrow> ('c, 's) recon_st \<Rightarrow> (go_error option \<times> ('c, 's) recon_st) option" where
  "Run fuel r st =
     (case rs_call (st_GetReconcileBlock (rec_store r)) st of
        (Inl e, st1) \<Rightarrow> Some (Some (wrapf ''read reconcile cursor'' e), st1)
      | (Inr startCursor, st1) \<Rightarrow>
          (let start = start_block (rec_cfg r) startCursor in
           case rc_call (\<lambda>_. []) (rc_Head (rec_chain r)) st1 of
             (Inl e, st2) \<Rightarrow> Some (Some (wrapf ''read chain head'' e), st2)
           | (Inr head, st2) \<Rightarrow>
               (if hd_Number head < Confirmations (rec_cfg r) then Some (None, st2)
                else let safeHead = hd_Number head - Confirmations (rec_cfg r) in
                  if safeHead < start then Some (None, st2)
                  else scan_loop fuel r (chunk_size (rec_cfg r)) safeHead start st2)))"

section \<open>Frames\<close>

lemma rc_call_eq:
  assumes "rc_call note f st = (x, st1)"
  shows "\<exists>c. f (rs_chain st) = (x, c)" "rs_store st1 = rs_store st" "rs_trace st1 = note x @ rs_trace st"
  using assms by (auto simp: rc_call_def split: prod.splits)

lemma rs_call_eq:
  assumes "rs_call f st = (x, st1)"
  shows "f (rs_store st) = (x, rs_store st1)" "rs_trace st1 = rs_trace st" "rs_chain st1 = rs_chain st"
  using assms by (auto simp: rs_call_def split: prod.splits)

section \<open>Termination\<close>

lemma chunk_end_bounds:
  assumes "lo \<le> safeHead" "unat safeHead + unat chunkSize < 2 ^ 64" "chunkSize \<noteq> 0"
  shows "lo \<le> chunk_end chunkSize safeHead lo \<and> chunk_end chunkSize safeHead lo \<le> safeHead"
proof -
  have le: "unat lo \<le> unat safeHead" using assms(1) by (simp add: word_le_nat_alt)
  then have s: "unat (lo + chunkSize) = unat lo + unat chunkSize"
    using assms(2) by (subst unat_add_lem [symmetric]) simp
  have pos: "0 < unat chunkSize" using assms(3) by (simp add: unat_gt_0)
  then have "lo + chunkSize \<noteq> 0" using s by (metis add_gr_0 less_not_refl unat_0)
  then have "unat (lo + chunkSize - 1) = unat lo + unat chunkSize - 1"
    using s by (simp add: unat_minus_one)
  then have "lo \<le> lo + chunkSize - 1" using pos by (simp add: word_le_nat_alt)
  then show ?thesis using assms(1) by (auto simp: chunk_end_def Let_def)
qed

lemma scan_loop_enough_fuel:
  assumes "unat safeHead + unat chunkSize < 2 ^ 64" "chunkSize \<noteq> 0" "unat safeHead < fuel + unat lo" "0 < fuel"
  shows "\<exists>res. scan_loop fuel r chunkSize safeHead lo st = Some res"
  using assms(3,4)
proof (induction fuel arbitrary: lo st)
  case (Suc fuel)
  show ?case
  proof (cases "safeHead < lo")
    case False
    let ?hi = "chunk_end chunkSize safeHead lo"
    have b: "lo \<le> ?hi" "?hi \<le> safeHead" using chunk_end_bounds [of lo safeHead chunkSize] assms(1,2) False by auto
    have next_fuel: "unat safeHead < fuel + unat (?hi + 1) \<and> 0 < fuel" if "?hi \<noteq> safeHead"
    proof -
      have less: "?hi < safeHead" using b(2) that by simp
      then have "?hi \<noteq> - 1" by (metis word_order.not_eq_extremum word_order.extremum_strict)
      then have "unat (?hi + 1) = Suc (unat ?hi)" by (rule unat_plus_one)
      moreover have "unat lo \<le> unat ?hi" "unat ?hi < unat safeHead" using b(1) less by (simp_all add: word_le_nat_alt word_less_nat_alt)
      ultimately show ?thesis using Suc.prems by simp
    qed
    obtain e st1 where "scan_chunk r lo ?hi st = (e, st1)" by (cases "scan_chunk r lo ?hi st")
    then show ?thesis using Suc.IH [of "?hi + 1" st1] next_fuel False
      by (cases e) (auto simp: Let_def)
  qed simp
qed simp

section \<open>Coverage\<close>

text \<open>
  What the node's log filter is relied on for: a successful answer holds every event of the worker in
  the block range. \<open>log\<close> is the set of (block, job) pairs of the worker's JobCompleted events.
\<close>

definition logs_complete :: "'c recon_chain \<Rightarrow> address \<Rightarrow> (u64 \<times> u64) set \<Rightarrow> bool" where
  "logs_complete ch w log \<longleftrightarrow>
     (\<forall>lo hi c evs c'. rc_FilterJobCompleted ch w lo hi c = (Inr evs, c') \<longrightarrow>
        (\<forall>b j. (b, j) \<in> log \<longrightarrow> lo \<le> b \<longrightarrow> b \<le> hi \<longrightarrow> j \<in> jc_JobID ` set evs))"

fun shows_nothing_owed :: "address \<Rightarrow> u64 \<Rightarrow> recon_event \<Rightarrow> bool" where
  "shows_nothing_owed w j (RdState j' (Inr info)) \<longleftrightarrow> j' = j \<and> nothing_owed w info"
| "shows_nothing_owed w j _ \<longleftrightarrow> False"

definition recorded :: "('s \<Rightarrow> abs_store) \<Rightarrow> address \<Rightarrow> ('c, 's) recon_st \<Rightarrow> u64 \<Rightarrow> bool" where
  "recorded ab w st j \<longleftrightarrow> a_pending (ab (rs_store st)) j \<noteq> None \<or> list_ex (shows_nothing_owed w j) (rs_trace st)"

text \<open>A pass only adds: pending entries stay as they are, the trace grows, the cursor and gates are tracked apart.\<close>

definition grows :: "('s \<Rightarrow> bool) \<Rightarrow> ('s \<Rightarrow> abs_store) \<Rightarrow> ('c, 's) recon_st \<Rightarrow> ('c, 's) recon_st \<Rightarrow> bool" where
  "grows ok ab st st' \<longleftrightarrow>
     ok (rs_store st') \<and> a_pending (ab (rs_store st)) \<subseteq>\<^sub>m a_pending (ab (rs_store st')) \<and>
     set (rs_trace st) \<subseteq> set (rs_trace st') \<and> a_cursor (ab (rs_store st)) \<le> a_cursor (ab (rs_store st')) \<and>
     a_lastRelease (ab (rs_store st')) = a_lastRelease (ab (rs_store st)) \<and>
     a_nextAllowed (ab (rs_store st')) = a_nextAllowed (ab (rs_store st))"

lemma grows_refl: "ok (rs_store st) \<Longrightarrow> grows ok ab st st"
  by (simp add: grows_def)

lemma grows_trans: "grows ok ab st st1 \<Longrightarrow> grows ok ab st1 st2 \<Longrightarrow> grows ok ab st st2"
  unfolding grows_def by (auto intro: map_le_trans)

lemma grows_ok: "grows ok ab st st' \<Longrightarrow> ok (rs_store st')"
  by (simp add: grows_def)

lemma grows_recorded: "grows ok ab st st' \<Longrightarrow> recorded ab w st j \<Longrightarrow> recorded ab w st' j"
  by (auto simp: grows_def recorded_def list_ex_iff map_le_def dom_def)

lemma grows_trace:
  "ok (rs_store st) \<Longrightarrow> rs_store st' = rs_store st \<Longrightarrow> set (rs_trace st) \<subseteq> set (rs_trace st') \<Longrightarrow> grows ok ab st st'"
  by (simp add: grows_def)

lemma spec_add_map_le: "a_pending a \<subseteq>\<^sub>m a_pending (spec_add j t a)"
  by (auto simp: spec_add_def map_le_def split: option.splits)

lemma spec_add_mem: "a_pending (spec_add j t a) j \<noteq> None"
  by (auto simp: spec_add_def split: option.splits)

context release_store
begin

lemma add_grows:
  assumes "inv (rs_store st)" "rs_call (st_AddEligible ops j t) st = (x, st')"
  shows "grows inv abs st st' \<and> a_cursor (abs (rs_store st')) = a_cursor (abs (rs_store st)) \<and>
         (\<not> isl x \<longrightarrow> recorded abs w st' j)"
  using AddEligible_law [OF assms(1) rs_call_eq(1) [OF assms(2)]] rs_call_eq [OF assms(2)] spec_add_map_le spec_add_mem
  by (cases x) (simp_all add: grows_def applies_def recorded_def)

lemma events_loop_grows:
  assumes "inv (rs_store st)" "rec_store r = ops" "events_loop r evs fe st = (x, st')"
  shows "grows inv abs st st' \<and> a_cursor (abs (rs_store st')) = a_cursor (abs (rs_store st)) \<and>
         (x = Inr None \<longrightarrow> fe = None \<and> list_all (\<lambda>ev. recorded abs (rec_workerAddr r) st' (jc_JobID ev)) evs)"
  using assms(1,3)
proof (induction evs arbitrary: fe st)
  case Nil
  then show ?case by (auto simp: grows_refl)
next
  case (Cons ev evs)
  let ?j = "jc_JobID ev"
  obtain g st1 where g: "rc_call (\<lambda>x. [RdState ?j x]) (rc_GetJobState (rec_chain r) ?j) st = (g, st1)"
    by (cases "rc_call (\<lambda>x. [RdState ?j x]) (rc_GetJobState (rec_chain r) ?j) st")
  note st1 = rc_call_eq [OF g]
  have g1: "grows inv abs st st1" using Cons.prems(1) st1 by (intro grows_trace) auto
  note inv1 = grows_ok [OF g1]
  show ?case
  proof (cases g)
    case (Inl e)
    then obtain fe' where l: "events_loop r evs fe' st1 = (x, st')" "fe' \<noteq> None"
      using Cons.prems(2) g by (cases fe) auto
    then show ?thesis using Cons.IH [OF inv1 l(1)] grows_trans [OF g1] st1 by auto
  next
    case (Inr info)
    show ?thesis
    proof (cases "nothing_owed (rec_workerAddr r) info")
      case True
      then have l: "events_loop r evs fe st1 = (x, st')" using Cons.prems(2) g Inr by simp
      have "recorded abs (rec_workerAddr r) st1 ?j" using st1 Inr True by (simp add: recorded_def)
      then show ?thesis using Cons.IH [OF inv1 l] grows_trans [OF g1] st1 by (auto intro: grows_recorded)
    next
      case False
      obtain a st2 where a: "rs_call (st_AddEligible ops ?j (ji_CompletedAt info)) st1 = (a, st2)"
        by (cases "rs_call (st_AddEligible ops ?j (ji_CompletedAt info)) st1")
      note ag = add_grows [OF inv1 a, of "rec_workerAddr r"]
      show ?thesis
      proof (cases a)
        case (Inl e)
        then show ?thesis using Cons.prems(2) g Inr False a ag grows_trans [OF g1] assms(2) st1 by auto
      next
        case (Inr u)
        then have l: "events_loop r evs fe st2 = (x, st')" using Cons.prems(2) g \<open>g = Inr info\<close> False a assms(2) by simp
        have g2: "grows inv abs st st2" and rec2: "recorded abs (rec_workerAddr r) st2 ?j"
          using ag Inr grows_trans [OF g1] by simp_all
        show ?thesis using Cons.IH [OF grows_ok [OF g2] l] grows_trans [OF g2] rec2 ag st1
          by (auto intro: grows_recorded)
      qed
    qed
  qed
qed

lemma scan_chunk_grows:
  assumes inv: "inv (rs_store st)" and r: "rec_store r = ops" and logs: "logs_complete (rec_chain r) (rec_workerAddr r) log"
    and s: "scan_chunk r lo hi st = (e, st')"
  shows "grows inv abs st st' \<and>
    (case e of Some _ \<Rightarrow> a_cursor (abs (rs_store st')) = a_cursor (abs (rs_store st))
     | None \<Rightarrow> a_cursor (abs (rs_store st')) = hi \<and>
         (\<forall>b j. (b, j) \<in> log \<longrightarrow> lo \<le> b \<longrightarrow> b \<le> hi \<longrightarrow> recorded abs (rec_workerAddr r) st' j))"
proof -
  obtain f st1 where f: "rc_call (\<lambda>x. [RdLogs lo hi x]) (rc_FilterJobCompleted (rec_chain r) (rec_workerAddr r) lo hi) st = (f, st1)"
    by (cases "rc_call (\<lambda>x. [RdLogs lo hi x]) (rc_FilterJobCompleted (rec_chain r) (rec_workerAddr r) lo hi) st")
  note st1 = rc_call_eq [OF f]
  have g1: "grows inv abs st st1" using inv st1 by (intro grows_trace) auto
  show ?thesis
  proof (cases f)
    case (Inl fe)
    then show ?thesis using s f g1 st1 by (auto simp: scan_chunk_def)
  next
    case (Inr evs)
    obtain x st2 where x: "events_loop r evs None st1 = (x, st2)" by (cases "events_loop r evs None st1")
    note g2 = events_loop_grows [OF grows_ok [OF g1] r x]
    have g12: "grows inv abs st st2" using g2 grows_trans [OF g1] by simp
    consider (err) e' where "x = Inl e'" | (state) e' where "x = Inr (Some e')" | (fine) "x = Inr None"
      by (cases x) auto
    then show ?thesis
    proof cases
      case fine
      obtain q st3 where q: "rs_call (st_SetReconcileBlock ops hi) st2 = (q, st3)" by (cases "rs_call (st_SetReconcileBlock ops hi) st2")
      note st3 = rs_call_eq [OF q]
      note law = SetReconcileBlock_law [OF grows_ok [OF g12] st3(1)]
      have g3: "grows inv abs st2 (st3\<lparr>rs_trace := t @ rs_trace st3\<rparr>)" for t
        using law st3 by (auto simp: grows_def applies_def split: sum.splits)
      have all: "\<forall>b j. (b, j) \<in> log \<longrightarrow> lo \<le> b \<longrightarrow> b \<le> hi \<longrightarrow> recorded abs (rec_workerAddr r) st2 j"
        using logs st1(1) Inr g2 fine by (fastforce simp: logs_complete_def list_all_iff)
      show ?thesis
      proof (cases q)
        case (Inl e')
        then show ?thesis using s f Inr x fine q r law g2 grows_trans [OF g12 g3 [of "[]"]] st1
          by (auto simp: scan_chunk_def applies_def)
      next
        case Inr2: (Inr u)
        have "e = None" "st' = st3\<lparr>rs_trace := [SetReconcileLastBlock hi] @ rs_trace st3\<rparr>"
          using s f Inr x fine q r Inr2 by (auto simp: scan_chunk_def)
        then show ?thesis using law Inr2 all grows_trans [OF g12 g3 [of "[SetReconcileLastBlock hi]"]]
            grows_recorded [OF g3 [of "[SetReconcileLastBlock hi]"]]
          by (auto simp: applies_def)
      qed
    qed (use s f Inr x g12 g2 st1 in \<open>auto simp: scan_chunk_def\<close>)
  qed
qed

lemma scan_loop_covers:
  assumes "rec_store r = ops" and "logs_complete (rec_chain r) (rec_workerAddr r) log"
    and "inv (rs_store st)" and "scan_loop fuel r chunkSize safeHead lo st = Some (e, st')"
    and "\<forall>b j. (b, j) \<in> log \<longrightarrow> start \<le> b \<longrightarrow> b < lo \<longrightarrow> recorded abs (rec_workerAddr r) st j"
  shows "grows inv abs st st' \<and>
    (a_cursor (abs (rs_store st')) = a_cursor (abs (rs_store st)) \<or>
     (\<forall>b j. (b, j) \<in> log \<longrightarrow> start \<le> b \<longrightarrow> b \<le> a_cursor (abs (rs_store st')) \<longrightarrow> recorded abs (rec_workerAddr r) st' j))"
  using assms(3-5)
proof (induction fuel arbitrary: lo st)
  case (Suc fuel)
  let ?hi = "chunk_end chunkSize safeHead lo"
  obtain ce st1 where c: "scan_chunk r lo ?hi st = (ce, st1)" by (cases "scan_chunk r lo ?hi st")
  note chunk = scan_chunk_grows [OF Suc.prems(1) assms(1,2) c]
  have upto: "\<forall>b j. (b, j) \<in> log \<longrightarrow> start \<le> b \<longrightarrow> b \<le> ?hi \<longrightarrow> recorded abs (rec_workerAddr r) st1 j" if "ce = None"
    using chunk that Suc.prems(3) by (metis (no_types, lifting) grows_recorded linorder_not_le option.simps(4))
  show ?case
  proof (cases "safeHead < lo")
    case True
    then show ?thesis using Suc.prems by (simp add: grows_refl)
  next
    case False
    show ?thesis
    proof (cases "ce = None \<and> ?hi \<noteq> safeHead")
      case True
      have l: "scan_loop fuel r chunkSize safeHead (?hi + 1) st1 = Some (e, st')"
        using Suc.prems(2) False True c by (simp add: Let_def)
      have below: "\<forall>b j. (b, j) \<in> log \<longrightarrow> start \<le> b \<longrightarrow> b < ?hi + 1 \<longrightarrow> recorded abs (rec_workerAddr r) st1 j"
        using upto True by (metis add_diff_cancel word_less_pred order.order_iff_strict)
      have inv1: "inv (rs_store st1)" using chunk by (auto dest: grows_ok)
      show ?thesis using Suc.IH [OF inv1 l below] chunk upto True
        by (auto intro: grows_trans grows_recorded)
    next
      case stop: False
      have "(e, st') = (ce, st1)" using Suc.prems(2) False stop c by (cases ce) (auto simp: Let_def)
      then show ?thesis using chunk upto by (cases ce) auto
    qed
  qed
qed simp

lemma scan_loop_done:
  assumes "rec_store r = ops" "inv (rs_store st)" "lo \<le> safeHead" "scan_loop fuel r chunkSize safeHead lo st = Some (None, st')"
  shows "a_cursor (abs (rs_store st')) = safeHead"
  using assms(2-4)
proof (induction fuel arbitrary: lo st)
  case (Suc fuel)
  let ?hi = "chunk_end chunkSize safeHead lo"
  obtain ce st1 where c: "scan_chunk r lo ?hi st = (ce, st1)" by (cases "scan_chunk r lo ?hi st")
  note chunk = scan_chunk_grows [OF Suc.prems(1) assms(1) _ c, of "{}"]
  have logs: "logs_complete (rec_chain r) (rec_workerAddr r) {}" by (simp add: logs_complete_def)
  have nl: "\<not> safeHead < lo" using Suc.prems(2) by simp
  have ce: "ce = None" using nl Suc.prems(3) c by (cases ce) (simp_all add: Let_def)
  have hi: "?hi \<le> safeHead" by (auto simp: chunk_end_def Let_def)
  show ?case
  proof (cases "?hi = safeHead")
    case True
    then show ?thesis using chunk [OF logs] nl Suc.prems(3) c ce by (auto simp: Let_def)
  next
    case False
    then have "?hi + 1 \<le> safeHead" using hi by (simp add: inc_le)
    then show ?thesis using Suc.IH [of st1 "?hi + 1"] chunk [OF logs] nl Suc.prems(3) c ce False
      by (auto simp: Let_def dest: grows_ok)
  qed
qed simp

lemma Run_covers:
  assumes inv: "inv (rs_store st)" and r: "rec_store r = ops" and logs: "logs_complete (rec_chain r) (rec_workerAddr r) log"
    and run: "Run fuel r st = Some (e, st')"
  shows "grows inv abs st st' \<and>
    (a_cursor (abs (rs_store st')) = a_cursor (abs (rs_store st)) \<or>
     (\<forall>b j. (b, j) \<in> log \<longrightarrow> start_block (rec_cfg r) (a_cursor (abs (rs_store st))) \<le> b \<longrightarrow>
        b \<le> a_cursor (abs (rs_store st')) \<longrightarrow> recorded abs (rec_workerAddr r) st' j))"
proof -
  obtain q st1 where q: "rs_call (st_GetReconcileBlock ops) st = (q, st1)" by (cases "rs_call (st_GetReconcileBlock ops) st")
  note st1 = rs_call_eq [OF q]
  note law = GetReconcileBlock_law [OF inv st1(1)]
  have g1: "grows inv abs st st1" using law st1 by (simp add: grows_def)
  obtain h st2 where h: "rc_call (\<lambda>_. []) (rc_Head (rec_chain r)) st1 = (h, st2)" by (cases "rc_call (\<lambda>_. []) (rc_Head (rec_chain r)) st1")
  note st2 = rc_call_eq [OF h]
  have g2: "grows inv abs st st2" using grows_trans [OF g1 grows_trace] grows_ok [OF g1] st2 by simp
  have cur: "a_cursor (abs (rs_store st2)) = a_cursor (abs (rs_store st))" using law st2 by simp
  show ?thesis
  proof (cases q)
    case (Inl e)
    then show ?thesis using run q r g1 law by (auto simp: Run_def)
  next
    case (Inr cursor)
    have c: "cursor = a_cursor (abs (rs_store st))" using law Inr by (simp add: reads_def)
    show ?thesis
    proof (cases "\<exists>fuel' safeHead. scan_loop fuel' r (chunk_size (rec_cfg r)) safeHead (start_block (rec_cfg r) cursor) st2 = Some (e, st')")
      case True
      then obtain safeHead fuel' where l: "scan_loop fuel' r (chunk_size (rec_cfg r)) safeHead (start_block (rec_cfg r) cursor) st2 = Some (e, st')"
        by blast
      have "\<forall>b j. (b, j) \<in> log \<longrightarrow> start_block (rec_cfg r) cursor \<le> b \<longrightarrow> b < start_block (rec_cfg r) cursor \<longrightarrow>
          recorded abs (rec_workerAddr r) st2 j" by auto
      from scan_loop_covers [OF r logs grows_ok [OF g2] l this] show ?thesis using cur c grows_trans [OF g2] by auto
    next
      case False
      then show ?thesis using run q r Inr h g2 cur
        by (cases h) (auto simp: Run_def Let_def split: if_splits)
    qed
  qed
qed

end

section \<open>Properties\<close>

definition demo_recon_chain :: "unit recon_chain" where
  "demo_recon_chain = \<lparr>rc_Head = \<lambda>c. (Inr \<lparr>hd_Number = 30, hd_Timestamp = 1000\<rparr>, c),
     rc_FilterJobCompleted = \<lambda>w lo hi c.
       (Inr (if lo \<le> 20 \<and> 20 \<le> hi then [\<lparr>jc_JobID = 4, jc_Worker = 2, jc_BlockNumber = 20\<rparr>] else []), c),
     rc_GetJobState = \<lambda>j c.
       (Inr \<lparr>ji_State = JobStateCompleted, ji_Worker = 2, ji_CompletedAt = 100, ji_EscrowedFee = Some 5\<rparr>, c)\<rparr>"

definition demo_recon :: "(unit, store_world) Reconciler" where
  "demo_recon = \<lparr>rec_store = FileStore_ops demo_lib demo_store, rec_chain = demo_recon_chain, rec_workerAddr = 2,
     rec_cfg = DefaultConfig\<lparr>ChunkSize := 8\<rparr>\<rparr>"

definition demo_recon_st :: "(unit, store_world) recon_st" where
  "demo_recon_st = \<lparr>rs_chain = (), rs_store = demo_world [], rs_trace = []\<rparr>"

text \<open>
  C19. The reconciler never moves the cursor over a job it still owes a look: if a pass, finished or
  stopped by an error, leaves a cursor different from the one it found, then every job completed by this
  worker in the blocks from its start block up to the new cursor is pending afterwards, or the pass
  read it from the chain as settled, slashed, forfeited or another worker's. The pass adds pending
  entries, changes and removes none, never moves the cursor back and touches neither scheduler timestamp.
\<close>

theorem reconcile_skips_nothing:
  assumes "fs_inv lib s (rs_store st)" "rec_store r = FileStore_ops lib s"
    and "logs_complete (rec_chain r) (rec_workerAddr r) log" "Run fuel r st = Some (e, st')"
  shows "grows (fs_inv lib s) fs_abs st st' \<and>
    (a_cursor (fs_abs (rs_store st')) \<noteq> a_cursor (fs_abs (rs_store st)) \<longrightarrow>
     (b, j) \<in> log \<longrightarrow> start_block (rec_cfg r) (a_cursor (fs_abs (rs_store st))) \<le> b \<longrightarrow>
     b \<le> a_cursor (fs_abs (rs_store st')) \<longrightarrow> recorded fs_abs (rec_workerAddr r) st' j)"
  using file_store.Run_covers [OF assms] by blast

theorem reconcile_skips_nothing_witness:
  "a_cursor (fs_abs (rs_store (snd (the (Run 40 demo_recon demo_recon_st))))) = 25 \<and>
   recorded fs_abs 2 (snd (the (Run 40 demo_recon demo_recon_st))) 4"
proof -
  let ?x = "the (Run 40 demo_recon demo_recon_st)"
  have cur: "LastReconciledBlock (case d_data (w_disk (rs_store (snd ?x))) of Doc snap \<Rightarrow> snap) = 25 \<and>
      (case d_data (w_disk (rs_store (snd ?x))) of Doc _ \<Rightarrow> True | _ \<Rightarrow> False)" by code_simp
  then have cur': "a_cursor (fs_abs (rs_store (snd ?x))) = 25"
    by (auto simp: fs_abs_def abs_file_def abs_snap_def split: data_file.splits)
  have some: "(case Run 40 demo_recon demo_recon_st of None \<Rightarrow> False | Some _ \<Rightarrow> True)" by code_simp
  have inv: "fs_inv demo_lib demo_store (rs_store demo_recon_st)" by (simp add: demo_recon_st_def demo_world_inv)
  have logs: "logs_complete (rec_chain demo_recon) (rec_workerAddr demo_recon) {(20, 4)}"
    by (auto simp: logs_complete_def demo_recon_def demo_recon_chain_def split: if_splits)
  have "Run 40 demo_recon demo_recon_st = Some (fst ?x, snd ?x)" using some by (auto split: option.splits)
  from reconcile_skips_nothing [OF inv _ logs this, of 20 4] cur'
  show ?thesis by (simp add: demo_recon_def demo_recon_st_def demo_world_def demo_snapshot_def fs_abs_def abs_file_def abs_snap_def
      start_block_def)
qed

text \<open>
  C39. A pass ends: when the head plus the chunk size fits in 64 bits, as many iterations as the head's
  block number are enough whatever the store and the chain answer; and with the file store a pass that
  scans and returns no error leaves the cursor exactly at the confirmed head.
\<close>

theorem reconcile_terminates:
  assumes "fs_inv lib s (rs_store st)" "rec_store r = FileStore_ops lib s"
    and "\<And>c. \<exists>c'. rc_Head (rec_chain r) c = (Inr head, c')"
    and "unat (hd_Number head) + unat (chunk_size (rec_cfg r)) < 2 ^ 64" "unat (hd_Number head) < fuel"
  shows "\<exists>e st'. Run fuel r st = Some (e, st') \<and>
    (e = None \<longrightarrow> Confirmations (rec_cfg r) \<le> hd_Number head \<longrightarrow>
     start_block (rec_cfg r) (a_cursor (fs_abs (rs_store st))) \<le> hd_Number head - Confirmations (rec_cfg r) \<longrightarrow>
     a_cursor (fs_abs (rs_store st')) = hd_Number head - Confirmations (rec_cfg r))"
proof -
  obtain q st1 where q: "rs_call (st_GetReconcileBlock (FileStore_ops lib s)) st = (q, st1)"
    by (cases "rs_call (st_GetReconcileBlock (FileStore_ops lib s)) st")
  note law = file_store.GetReconcileBlock_law [OF assms(1) rs_call_eq(1) [OF q]]
  show ?thesis
  proof (cases q)
    case (Inl e)
    then show ?thesis using q assms(2) by (simp add: Run_def)
  next
    case (Inr cursor)
    then have c: "cursor = a_cursor (fs_abs (rs_store st))" using law by (simp add: reads_def)
    obtain st2 where h: "rc_call (\<lambda>_. []) (rc_Head (rec_chain r)) st1 = (Inr head, st2)"
      using assms(3) [of "rs_chain st1"] by (auto simp: rc_call_def)
    have inv2: "fs_inv lib s (rs_store st2)" using law rc_call_eq(2) [OF h] by simp
    let ?safe = "hd_Number head - Confirmations (rec_cfg r)"
    let ?start = "start_block (rec_cfg r) cursor"
    show ?thesis
    proof (cases "hd_Number head < Confirmations (rec_cfg r) \<or> ?safe < ?start")
      case True
      then show ?thesis using q Inr h assms(2) c by (auto simp: Run_def Let_def)
    next
      case False
      have safe: "unat ?safe \<le> unat (hd_Number head)"
        using False by (simp add: word_le_nat_alt [symmetric] word_sub_le linorder_not_less)
      have cs: "chunk_size (rec_cfg r) \<noteq> 0" by (simp add: chunk_size_def)
      have "unat ?safe + unat (chunk_size (rec_cfg r)) < 2 ^ 64" using safe assms(4) by linarith
      then obtain e st' where l: "scan_loop fuel r (chunk_size (rec_cfg r)) ?safe ?start st2 = Some (e, st')"
        using scan_loop_enough_fuel [of ?safe "chunk_size (rec_cfg r)" fuel ?start r st2] cs safe assms(5) by fastforce
      have "Run fuel r st = Some (e, st')" using q Inr h assms(2) False l by (simp add: Run_def Let_def)
      moreover have "e = None \<longrightarrow> a_cursor (fs_abs (rs_store st')) = ?safe"
        using file_store.scan_loop_done [OF assms(2) inv2, of ?start ?safe fuel "chunk_size (rec_cfg r)" st'] l False by auto
      ultimately show ?thesis by blast
    qed
  qed
qed

lemma demo_recon_inv: "fs_inv demo_lib demo_store (rs_store demo_recon_st)"
  by (simp add: demo_recon_st_def demo_world_inv)

theorem reconcile_terminates_witness: "\<exists>e st'. Run 31 demo_recon demo_recon_st = Some (e, st')"
  using reconcile_terminates [of demo_lib demo_store demo_recon_st demo_recon "\<lparr>hd_Number = 30, hd_Timestamp = 1000\<rparr>" 31,
      OF demo_recon_inv]
  by (auto simp: demo_recon_def demo_recon_chain_def chunk_size_def)

end
