(* ===== verification/Cursor_Store.thy ===== *)
theory Cursor_Store
  imports Go_Prelude
begin

text \<open>
  The per-watcher block cursors (internal/sortition/cursor.go): decimal text files written through a
  temporary file and renamed. A directory is a map from paths to contents; \<open>cur_fault\<close> is the I/O error
  one operation meets. strconv.FormatUint, strconv.ParseUint (base 10, 64 bits) and
  strings.TrimSpace (on ASCII) are the functions of that name.
\<close>

section \<open>Decimal text\<close>

definition digit_char :: "nat \<Rightarrow> char" where
  "digit_char d = char_of (48 + d)"

fun FormatUint :: "nat \<Rightarrow> string" where
  "FormatUint n = (if n < 10 then [digit_char n] else FormatUint (n div 10) @ [digit_char (n mod 10)])"

declare FormatUint.simps [simp del]

definition digit_val :: "char \<Rightarrow> nat option" where
  "digit_val c = (let k = (of_char c :: nat) in if 48 \<le> k \<and> k \<le> 57 then Some (k - 48) else None)"

fun parse_digits :: "nat \<Rightarrow> string \<Rightarrow> nat option" where
  "parse_digits acc [] = Some acc"
| "parse_digits acc (c # cs) =
     (case digit_val c of None \<Rightarrow> None | Some d \<Rightarrow> parse_digits (acc * 10 + d) cs)"

definition ParseUint :: "string \<Rightarrow> go_error + u64" where
  "ParseUint s =
     (if s = [] then Inl (errorf ''invalid syntax'')
      else case parse_digits 0 s of
        None \<Rightarrow> Inl (errorf ''invalid syntax'')
      | Some n \<Rightarrow> (if int n < 2 ^ 64 then Inr (of_nat n) else Inl (errorf ''value out of range'')))"

definition is_space :: "char \<Rightarrow> bool" where
  "is_space c \<longleftrightarrow> (let k = (of_char c :: nat) in k = 32 \<or> 9 \<le> k \<and> k \<le> 13)"

definition TrimSpace :: "string \<Rightarrow> string" where
  "TrimSpace s = rev (dropWhile is_space (rev (dropWhile is_space s)))"

section \<open>The store\<close>

datatype cur_fault = CurOk | CurMkdirErr | CurReadErr | CurWriteErr | CurRenameErr

record cursor_dir =
  cd_dir :: string
  cd_files :: "string \<rightharpoonup> string"

definition NewCursorStore :: "cur_fault \<Rightarrow> string \<Rightarrow> (string \<rightharpoonup> string) \<Rightarrow> go_error + cursor_dir" where
  "NewCursorStore flt dir files =
     (if flt = CurMkdirErr then Inl (errorf ''create sortition state dir'') else Inr \<lparr>cd_dir = dir, cd_files = files\<rparr>)"

definition cursor_path :: "cursor_dir \<Rightarrow> string \<Rightarrow> string" where
  "cursor_path c name = cd_dir c @ ''/cursor-'' @ name @ ''.txt''"

definition cursor_read :: "cur_fault \<Rightarrow> string \<Rightarrow> cursor_dir \<Rightarrow> go_error + u64 \<times> bool" where
  "cursor_read flt name c =
     (if flt = CurReadErr then Inl (errorf ''read cursor'')
      else case cd_files c (cursor_path c name) of
        None \<Rightarrow> Inr (0, False)
      | Some b \<Rightarrow> (case ParseUint (TrimSpace b) of Inl e \<Rightarrow> Inl (wrapf ''parse cursor'' e) | Inr v \<Rightarrow> Inr (v, True)))"

definition cursor_Get :: "cur_fault \<Rightarrow> string \<Rightarrow> cursor_dir \<Rightarrow> go_error + u64" where
  "cursor_Get flt name c = (case cursor_read flt name c of Inl e \<Rightarrow> Inl e | Inr (v, _) \<Rightarrow> Inr v)"

text \<open>A failed write may leave any prefix of the text in the temporary file; it is left there.\<close>

definition cursor_Set :: "cur_fault \<Rightarrow> nat \<Rightarrow> string \<Rightarrow> u64 \<Rightarrow> cursor_dir \<Rightarrow> go_error option \<times> cursor_dir" where
  "cursor_Set flt written name block c =
     (let path = cursor_path c name; tmp = path @ ''.tmp''; txt = FormatUint (unat block) in
      if flt = CurWriteErr
      then (Some (errorf ''write cursor''), c\<lparr>cd_files := (cd_files c)(tmp \<mapsto> take written txt)\<rparr>)
      else if flt = CurRenameErr
      then (Some (errorf ''commit cursor''), c\<lparr>cd_files := (cd_files c)(tmp \<mapsto> txt)\<rparr>)
      else (None, c\<lparr>cd_files := (cd_files c)(tmp := None, path \<mapsto> txt)\<rparr>))"

definition GetOrSeed ::
  "cur_fault \<Rightarrow> nat \<Rightarrow> string \<Rightarrow> u64 \<Rightarrow> u64 \<Rightarrow> cursor_dir \<Rightarrow> (u64 \<times> bool \<times> go_error option) \<times> cursor_dir" where
  "GetOrSeed flt written name safeHead lookback c =
     (case cursor_read flt name c of
        Inl e \<Rightarrow> ((0, False, Some e), c)
      | Inr (cursor, stored) \<Rightarrow>
          (if stored \<or> safeHead \<le> lookback then ((cursor, False, None), c)
           else let cursor' = safeHead - lookback in
             case cursor_Set flt written name cursor' c of (err, c') \<Rightarrow> ((cursor', True, err), c')))"

section \<open>Round trip\<close>

lemma digit_val_char: "d < 10 \<Longrightarrow> digit_val (digit_char d) = Some d"
proof -
  assume "d < 10"
  then have "d \<in> {0, 1, 2, 3, 4, 5, 6, 7, 8, 9}" by auto
  then show ?thesis by (auto simp: digit_val_def digit_char_def Let_def)
qed

lemma parse_digits_append:
  "parse_digits acc (xs @ ys) = (case parse_digits acc xs of None \<Rightarrow> None | Some a \<Rightarrow> parse_digits a ys)"
  by (induction xs arbitrary: acc) (auto split: option.splits)

lemma parse_FormatUint: "parse_digits 0 (FormatUint n) = Some n"
proof (induction n rule: FormatUint.induct)
  case (1 n)
  show ?case
  proof (cases "n < 10")
    case True
    then show ?thesis by (simp add: FormatUint.simps [of n] digit_val_char)
  next
    case False
    then show ?thesis using 1 [OF False] by (simp add: FormatUint.simps [of n] parse_digits_append digit_val_char)
  qed
qed

lemma FormatUint_digits: "list_all (\<lambda>c. \<not> is_space c) (FormatUint n) \<and> FormatUint n \<noteq> []"
proof (induction n rule: FormatUint.induct)
  case (1 n)
  have d: "\<not> is_space (digit_char d)" if "d < 10" for d
  proof -
    have "d \<in> {0, 1, 2, 3, 4, 5, 6, 7, 8, 9}" using that by auto
    then show ?thesis by (auto simp: is_space_def digit_char_def Let_def)
  qed
  show ?case
  proof (cases "n < 10")
    case True
    then show ?thesis using d by (simp add: FormatUint.simps [of n])
  next
    case False
    then show ?thesis using 1 [OF False] d by (simp add: FormatUint.simps [of n])
  qed
qed

lemma TrimSpace_id: "list_all (\<lambda>c. \<not> is_space c) s \<Longrightarrow> TrimSpace s = s"
proof -
  have drop: "list_all (\<lambda>c. \<not> is_space c) xs \<Longrightarrow> dropWhile is_space xs = xs" for xs
    by (cases xs) auto
  assume "list_all (\<lambda>c. \<not> is_space c) s"
  then show ?thesis using drop [of s] drop [of "rev s"] by (simp add: TrimSpace_def list_all_rev)
qed

lemma ParseUint_FormatUint: "ParseUint (TrimSpace (FormatUint (unat b))) = Inr b"
  using FormatUint_digits [of "unat b"] unsigned_less [of b, where ?'a = int] by (simp add: ParseUint_def TrimSpace_id parse_FormatUint)

lemma path_tmp [simp]: "cursor_path c n \<noteq> cursor_path c m @ ''.tmp''"
proof
  assume "cursor_path c n = cursor_path c m @ ''.tmp''"
  then have "rev (cursor_path c n) = rev (cursor_path c m @ ''.tmp'')" by simp
  then show False by (simp add: cursor_path_def)
qed

lemma path_inj [simp]: "cursor_path c n = cursor_path c m \<longleftrightarrow> n = m"
  by (auto simp: cursor_path_def)

lemma path_update [simp]: "cursor_path (c\<lparr>cd_files := f\<rparr>) n = cursor_path c n"
  by (simp add: cursor_path_def)

lemma cursor_read_Set:
  assumes "cursor_Set flt written name block c = (err, c')"
  shows "cursor_read CurOk n c' = (if n = name \<and> err = None then Inr (block, True) else cursor_read CurOk n c)"
  using assms by (auto simp: cursor_Set_def Let_def cursor_read_def ParseUint_FormatUint split: if_splits)

section \<open>Properties\<close>

text \<open>
  A stored cursor is read back exactly, for every block number, and independently per watcher; a
  Set that fails, in the write or in the rename, leaves every cursor readable as before.
\<close>

theorem cursor_round_trip:
  assumes "cursor_Set flt written name block c = (err, c')"
  shows "(err = None \<longrightarrow> cursor_Get CurOk name c' = Inr block) \<and>
         (err \<noteq> None \<longrightarrow> cursor_Get CurOk name c' = cursor_Get CurOk name c) \<and>
         (n \<noteq> name \<longrightarrow> cursor_Get CurOk n c' = cursor_Get CurOk n c)"
  using cursor_read_Set [OF assms] by (simp add: cursor_Get_def)

theorem cursor_round_trip_witness:
  "cursor_Get CurOk ''job_submitted'' (snd (cursor_Set CurOk 0 ''job_submitted'' 18446744073709551615
     \<lparr>cd_dir = ''/s'', cd_files = Map.empty\<rparr>)) = Inr 18446744073709551615"
  using cursor_round_trip [of CurOk 0 "''job_submitted''" 18446744073709551615 "\<lparr>cd_dir = ''/s'', cd_files = Map.empty\<rparr>",
      OF prod.collapse [symmetric]]
  by (simp add: cursor_Set_def Let_def)

text \<open>
  Where a scan resumes: a stored cursor is authoritative, a stored 0 included; without one a chain
  no longer than the look-back is scanned from its first block and nothing is stored, and a longer one
  from exactly look-back blocks behind the safe head, a start that is stored so that the next pass finds it.
\<close>

theorem seed_start_block:
  assumes "cursor_read CurOk name c = Inr (v, stored)" "GetOrSeed CurOk written name safeHead lookback c = ((cur, fresh, err), c')"
  shows "err = None \<and>
    (if stored then cur = v \<and> \<not> fresh \<and> c' = c
     else if safeHead \<le> lookback then cur = 0 \<and> \<not> fresh \<and> c' = c
     else unat cur = unat safeHead - unat lookback \<and> fresh \<and> cursor_read CurOk name c' = Inr (cur, True))"
proof -
  have v: "\<not> stored \<Longrightarrow> v = 0" using assms(1) by (auto simp: cursor_read_def split: option.splits sum.splits)
  show ?thesis
  proof (cases "stored \<or> safeHead \<le> lookback")
    case True
    then show ?thesis using assms v by (auto simp: GetOrSeed_def)
  next
    case False
    let ?cur = "safeHead - lookback"
    obtain e c1 where s: "cursor_Set CurOk written name ?cur c = (e, c1)" by (cases "cursor_Set CurOk written name ?cur c")
    have e: "e = None" using s by (simp add: cursor_Set_def Let_def)
    have "unat ?cur = unat safeHead - unat lookback" using False by (intro unat_sub) auto
    then show ?thesis using False assms s e cursor_read_Set [OF s, of name] by (auto simp: GetOrSeed_def Let_def)
  qed
qed

theorem seed_start_block_witness:
  "fst (GetOrSeed CurOk 0 ''job_submitted'' 1000 300 \<lparr>cd_dir = ''/s'', cd_files = Map.empty\<rparr>) = (700, True, None)"
proof -
  let ?r = "GetOrSeed CurOk 0 ''job_submitted'' 1000 300 \<lparr>cd_dir = ''/s'', cd_files = Map.empty\<rparr>"
  obtain cur fresh err c' where r: "?r = ((cur, fresh, err), c')" by (metis prod.exhaust)
  have "cursor_read CurOk ''job_submitted'' \<lparr>cd_dir = ''/s'', cd_files = Map.empty\<rparr> = Inr (0, False)"
    by (simp add: cursor_read_def)
  from seed_start_block [OF this r] have "unat cur = 700" "fresh" "err = None" by simp_all
  moreover from this(1) have "cur = 700" by (simp add: word_unat_eq_iff)
  ultimately show ?thesis using r by simp
qed

end
