(* ===== verification/Session_Watcher.thy ===== *)
theory Session_Watcher
  imports Cursor_Store Chain_Reads "HOL-Library.AList"
begin

unbundle bit_operations_syntax

text \<open>
  Session intake by sortition (internal/sortition/session_watcher.go): one pass of reseed, discovery and
  evaluation over the in-memory pending set.

  The chain client, the wall clock, the shared job counter and the I/O faults of the cursor file are one
  environment of state \<open>'c\<close>, read through the record \<open>claim_client\<close>. The pending map is an association
  list; Go's random iteration order over it is the argument \<open>perm\<close>. The two block loops add the chunk size
  to a uint64 and have fuel (\<open>None\<close> is running out). \<open>sw_trace\<close> records what the pass read
  and sent, newest first; \<open>CeMask\<close> is the capability mask an evaluation used, cached or fetched.
\<close>

section \<open>State\<close>

record 'c claim_client =
  cc_Head :: "'c \<Rightarrow> (go_error + HeadInfo) \<times> 'c"
  cc_FilterSessionRequested :: "u64 \<Rightarrow> u64 \<Rightarrow> 'c \<Rightarrow> (go_error + SessionRequestedEvent list) \<times> 'c"
  cc_GetRequestInfo :: "u64 \<Rightarrow> 'c \<Rightarrow> (go_error + RequestInfo) \<times> 'c"
  cc_GetRequiredCapabilities :: "u64 \<Rightarrow> 'c \<Rightarrow> (go_error + int) \<times> 'c"
  cc_EligibleNow :: "u64 \<Rightarrow> address \<Rightarrow> 'c \<Rightarrow> (go_error + bool) \<times> 'c"
  cc_ClaimSession :: "u64 \<Rightarrow> 'c \<Rightarrow> go_error option \<times> 'c"
  cc_counter :: "'c \<Rightarrow> int \<times> 'c"
  cc_now :: "'c \<Rightarrow> int \<times> 'c"
  cc_fault :: "'c \<Rightarrow> (cur_fault \<times> nat) \<times> 'c"

datatype claim_event =
    CeInfo u64 "go_error + RequestInfo"
  | CeNow u64 RequestInfo int
  | CeMask u64 int
  | CeCount int
  | CeElig u64 "go_error + bool"
  | CeClaim u64 "go_error option"

record SessionWatcherOpts =
  o_Worker :: address
  o_MaxConcurrent :: int
  o_ChunkSize :: u64
  o_Confirmations :: u64
  o_OwnCapabilities :: "int option"
  o_LookbackBlocks :: u64

record SessionWatcher =
  sw_worker :: address
  sw_maxJobs :: int
  sw_chunk :: u64
  sw_confs :: u64
  sw_ownCaps :: int
  sw_lookback :: u64

record 'c session_st =
  sw_env :: 'c
  sw_cursor :: cursor_dir
  sw_seeded :: bool
  sw_reseedTries :: nat
  sw_pending :: "(u64 \<times> int option) list"
  sw_trace :: "claim_event list"

definition cursorSessionRequested :: string where
  "cursorSessionRequested = ''session_requested''"

definition reseedMaxAttempts :: nat where
  "reseedMaxAttempts = 10"

definition NewSessionWatcher :: "SessionWatcherOpts \<Rightarrow> SessionWatcher" where
  "NewSessionWatcher o' = \<lparr>sw_worker = o_Worker o', sw_maxJobs = o_MaxConcurrent o',
     sw_chunk = (if o_ChunkSize o' = 0 then 5000 else o_ChunkSize o'), sw_confs = o_Confirmations o',
     sw_ownCaps = (case o_OwnCapabilities o' of None \<Rightarrow> 0 | Some m \<Rightarrow> m), sw_lookback = o_LookbackBlocks o'\<rparr>"

definition ask :: "('r \<Rightarrow> claim_event list) \<Rightarrow> ('c \<Rightarrow> 'r \<times> 'c) \<Rightarrow> 'c session_st \<Rightarrow> 'r \<times> 'c session_st" where
  "ask ev f st = (case f (sw_env st) of (r, c) \<Rightarrow> (r, st\<lparr>sw_env := c, sw_trace := ev r @ sw_trace st\<rparr>))"

definition put_pending :: "SessionRequestedEvent list \<Rightarrow> 'c session_st \<Rightarrow> 'c session_st" where
  "put_pending reqs st = st\<lparr>sw_pending := foldl (\<lambda>m r. AList.update (sr_ReqID r) None m) (sw_pending st) reqs\<rparr>"

definition drop_pending :: "u64 \<Rightarrow> 'c session_st \<Rightarrow> 'c session_st" where
  "drop_pending r st = st\<lparr>sw_pending := AList.delete r (sw_pending st)\<rparr>"

definition set_cursor :: "'c claim_client \<Rightarrow> u64 \<Rightarrow> 'c session_st \<Rightarrow> go_error option \<times> 'c session_st" where
  "set_cursor cl hi st =
     (case ask (\<lambda>_. []) (cc_fault cl) st of
        ((flt, n), st1) \<Rightarrow>
          (case cursor_Set flt n cursorSessionRequested hi (sw_cursor st1) of (e, d) \<Rightarrow> (e, st1\<lparr>sw_cursor := d\<rparr>)))"

section \<open>Reseed and discovery\<close>

definition range_end :: "u64 \<Rightarrow> u64 \<Rightarrow> u64 \<Rightarrow> u64" where
  "range_end chunk upper lo = (let hi = lo + chunk - 1 in if upper < hi then upper else hi)"

fun reseed_loop :: "nat \<Rightarrow> 'c claim_client \<Rightarrow> u64 \<Rightarrow> u64 \<Rightarrow> u64 \<Rightarrow> 'c session_st \<Rightarrow> (go_error option \<times> 'c session_st) option" where
  "reseed_loop 0 cl chunk cursor from st = None"
| "reseed_loop (Suc fuel) cl chunk cursor from st =
     (if cursor < from then Some (None, st)
      else case ask (\<lambda>_. []) (cc_FilterSessionRequested cl from (range_end chunk cursor from)) st of
        (Inl e, st1) \<Rightarrow> Some (Some e, st1)
      | (Inr reqs, st1) \<Rightarrow> reseed_loop fuel cl chunk cursor (from + chunk) (put_pending reqs st1))"

definition reseed :: "nat \<Rightarrow> 'c claim_client \<Rightarrow> SessionWatcher \<Rightarrow> u64 \<Rightarrow> 'c session_st \<Rightarrow> (go_error option \<times> 'c session_st) option" where
  "reseed fuel cl w cursor st =
     (if sw_lookback w = 0 \<or> cursor = 0 then Some (None, st)
      else let lo = (if sw_lookback w < cursor then cursor - sw_lookback w + 1 else 1)
           in reseed_loop fuel cl (sw_chunk w) cursor lo st)"

fun discover_loop :: "nat \<Rightarrow> 'c claim_client \<Rightarrow> u64 \<Rightarrow> u64 \<Rightarrow> u64 \<Rightarrow> 'c session_st \<Rightarrow> (go_error option \<times> 'c session_st) option" where
  "discover_loop 0 cl chunk safeHead lo st = None"
| "discover_loop (Suc fuel) cl chunk safeHead lo st =
     (if safeHead < lo then Some (None, st)
      else let hi = range_end chunk safeHead lo in
        case ask (\<lambda>_. []) (cc_FilterSessionRequested cl lo hi) st of
          (Inl e, st1) \<Rightarrow> Some (Some e, st1)
        | (Inr reqs, st1) \<Rightarrow>
            (case set_cursor cl hi (put_pending reqs st1) of
               (Some e, st2) \<Rightarrow> Some (Some e, st2)
             | (None, st2) \<Rightarrow> discover_loop fuel cl chunk safeHead (lo + chunk) st2))"

section \<open>Evaluation\<close>

definition covered :: "int \<Rightarrow> int \<Rightarrow> bool" where
  "covered own caps \<longleftrightarrow> caps = 0 \<or> caps AND own = caps"

definition expired :: "int \<Rightarrow> RequestInfo \<Rightarrow> bool" where
  "expired now ri \<longleftrightarrow> rq_Expiry ri < word_of_int now"

text \<open>The capability mask: cached, or fetched and cached, or 0 when the read fails.\<close>

definition required_caps :: "'c claim_client \<Rightarrow> u64 \<Rightarrow> 'c session_st \<Rightarrow> int \<times> 'c session_st" where
  "required_caps cl r st =
     (case map_of (sw_pending st) r of
        Some (Some m) \<Rightarrow> (m, st)
      | _ \<Rightarrow>
          (case ask (\<lambda>_. []) (cc_GetRequiredCapabilities cl r) st of
             (Inl e, st1) \<Rightarrow> (0, st1)
           | (Inr m, st1) \<Rightarrow> (m, st1\<lparr>sw_pending := AList.update r (Some m) (sw_pending st1)\<rparr>)))"

text \<open>One iteration; the flag is the break at capacity.\<close>

definition eval_one :: "'c claim_client \<Rightarrow> SessionWatcher \<Rightarrow> u64 \<Rightarrow> 'c session_st \<Rightarrow> bool \<times> 'c session_st" where
  "eval_one cl w r st =
     (case ask (\<lambda>x. [CeInfo r x]) (cc_GetRequestInfo cl r) st of
        (Inl e, st1) \<Rightarrow> (False, st1)
      | (Inr ri, st1) \<Rightarrow>
     (if rq_Status ri \<noteq> 0 then (False, drop_pending r st1)
      else case ask (\<lambda>t. [CeNow r ri t]) (cc_now cl) st1 of
        (now, st2) \<Rightarrow>
     (if expired now ri then (False, drop_pending r st2)
      else case required_caps cl r st2 of
        (caps, st3) \<Rightarrow>
     (let st4 = st3\<lparr>sw_trace := CeMask r caps # sw_trace st3\<rparr> in
      if \<not> covered (sw_ownCaps w) caps then (False, drop_pending r st4)
      else case ask (\<lambda>n. [CeCount n]) (cc_counter cl) st4 of
        (n, st5) \<Rightarrow>
     (if sw_maxJobs w \<le> n then (True, st5)
      else case ask (\<lambda>x. [CeElig r x]) (cc_EligibleNow cl r (sw_worker w)) st5 of
        (Inr True, st6) \<Rightarrow>
          (case ask (\<lambda>x. [CeClaim r x]) (cc_ClaimSession cl r) st6 of (_, st7) \<Rightarrow> (False, drop_pending r st7))
      | (_, st6) \<Rightarrow> (False, st6))))))"

fun eval_loop :: "'c claim_client \<Rightarrow> SessionWatcher \<Rightarrow> u64 list \<Rightarrow> 'c session_st \<Rightarrow> 'c session_st" where
  "eval_loop cl w [] st = st"
| "eval_loop cl w (r # rs) st =
     (case eval_one cl w r st of (stop, st1) \<Rightarrow> (if stop then st1 else eval_loop cl w rs st1))"

section \<open>The pass\<close>

definition safe_head :: "u64 \<Rightarrow> u64 \<Rightarrow> u64" where
  "safe_head number confs = (if confs < number then number - confs else 0)"

definition phase0 :: "nat \<Rightarrow> 'c claim_client \<Rightarrow> SessionWatcher \<Rightarrow> u64 \<Rightarrow> 'c session_st \<Rightarrow> 'c session_st option" where
  "phase0 fuel cl w cursor st =
     (if sw_seeded st then Some st
      else case reseed fuel cl w cursor st of
        None \<Rightarrow> None
      | Some (Some e, st1) \<Rightarrow>
          Some (st1\<lparr>sw_reseedTries := Suc (sw_reseedTries st1), sw_seeded := reseedMaxAttempts \<le> Suc (sw_reseedTries st1)\<rparr>)
      | Some (None, st1) \<Rightarrow> Some (st1\<lparr>sw_seeded := True\<rparr>))"

definition session_RunOnce ::
  "nat \<Rightarrow> (u64 list \<Rightarrow> u64 list) \<Rightarrow> 'c claim_client \<Rightarrow> SessionWatcher \<Rightarrow> 'c session_st \<Rightarrow> (go_error option \<times> 'c session_st) option" where
  "session_RunOnce fuel perm cl w st =
     (case ask (\<lambda>_. []) (cc_Head cl) st of
        (Inl e, st1) \<Rightarrow> Some (Some e, st1)
      | (Inr head, st1) \<Rightarrow>
          (let safeHead = safe_head (hd_Number head) (sw_confs w) in
           case ask (\<lambda>_. []) (cc_fault cl) st1 of
             ((flt, n), st2) \<Rightarrow>
               (case GetOrSeed flt n cursorSessionRequested safeHead (sw_lookback w) (sw_cursor st2) of
                  ((cursor, fresh, Some e), d) \<Rightarrow> Some (Some e, st2\<lparr>sw_cursor := d\<rparr>)
                | ((cursor, fresh, None), d) \<Rightarrow>
                    (let st3 = st2\<lparr>sw_cursor := d, sw_seeded := (fresh \<or> sw_seeded st2)\<rparr> in
                     case phase0 fuel cl w cursor st3 of
                       None \<Rightarrow> None
                     | Some st4 \<Rightarrow>
                         (case (if cursor < safeHead then discover_loop fuel cl (sw_chunk w) safeHead (cursor + 1) st4
                                else Some (None, st4)) of
                            None \<Rightarrow> None
                          | Some (Some e, st5) \<Rightarrow> Some (Some e, st5)
                          | Some (None, st5) \<Rightarrow>
                              Some (None, eval_loop cl w (perm (map fst (sw_pending st5))) st5))))))"

text \<open>The ticker loop of one process: a failed pass is logged and the next tick goes on from its state.\<close>

fun session_passes ::
  "nat \<Rightarrow> 'c claim_client \<Rightarrow> SessionWatcher \<Rightarrow> (u64 list \<Rightarrow> u64 list) list \<Rightarrow> 'c session_st \<Rightarrow> 'c session_st option" where
  "session_passes fuel cl w [] st = Some st"
| "session_passes fuel cl w (perm # perms) st =
     (case session_RunOnce fuel perm cl w st of
        None \<Rightarrow> None
      | Some (e, st1) \<Rightarrow> session_passes fuel cl w perms st1)"

section \<open>Evaluation of one request\<close>

definition pend :: "'c session_st \<Rightarrow> u64 set" where
  "pend st = fst ` set (sw_pending st)"

lemma pend_simps [simp]:
  "pend (st\<lparr>sw_env := c\<rparr>) = pend st" "pend (st\<lparr>sw_trace := t\<rparr>) = pend st" "pend (st\<lparr>sw_cursor := d\<rparr>) = pend st"
  "pend (st\<lparr>sw_seeded := b\<rparr>) = pend st" "pend (st\<lparr>sw_reseedTries := n\<rparr>) = pend st"
  "pend (st\<lparr>sw_pending := AList.update r v (sw_pending st)\<rparr>) = insert r (pend st)"
  by (simp_all add: pend_def dom_update)

lemma ask_eq:
  assumes "ask ev f st = (x, st1)"
  shows "\<exists>c. f (sw_env st) = (x, c)" "sw_trace st1 = ev x @ sw_trace st" "pend st1 = pend st" "sw_pending st1 = sw_pending st"
    "sw_cursor st1 = sw_cursor st" "sw_seeded st1 = sw_seeded st" "sw_reseedTries st1 = sw_reseedTries st"
  using assms by (auto simp: ask_def pend_def split: prod.splits)

lemma drop_pending_simps [simp]:
  "sw_trace (drop_pending r st) = sw_trace st" "sw_cursor (drop_pending r st) = sw_cursor st"
  "pend (drop_pending r st) = pend st - {r}"
proof -
  have "dom (map_of (AList.delete r (sw_pending st))) = dom (map_of (sw_pending st)) - {r}"
    by (auto simp: AList.delete_conv' dom_def split: if_splits)
  then show "pend (drop_pending r st) = pend st - {r}"
    by (simp add: drop_pending_def pend_def dom_map_of_conv_image_fst)
qed (simp_all add: drop_pending_def)

text \<open>Only phase 0 touches the look-back's bookkeeping.\<close>

definition same_seed :: "'c session_st \<Rightarrow> 'c session_st \<Rightarrow> bool" where
  "same_seed st st' \<longleftrightarrow> sw_seeded st' = sw_seeded st \<and> sw_reseedTries st' = sw_reseedTries st"

lemma same_seed_refl [simp]: "same_seed st st"
  by (simp add: same_seed_def)

lemma same_seed_trans: "same_seed st st1 \<Longrightarrow> same_seed st1 st2 \<Longrightarrow> same_seed st st2"
  by (simp add: same_seed_def)

lemma ask_seed: "ask ev f st = (x, st1) \<Longrightarrow> same_seed st st1"
  using ask_eq(6,7) [of ev f st x st1] by (simp add: same_seed_def)

lemma same_seed_updates [simp]:
  "same_seed st (drop_pending r st1) = same_seed st st1" "same_seed st (put_pending reqs st1) = same_seed st st1"
  "same_seed st (st1\<lparr>sw_trace := t\<rparr>) = same_seed st st1" "same_seed st (st1\<lparr>sw_pending := m\<rparr>) = same_seed st st1"
  "same_seed st (st1\<lparr>sw_cursor := d\<rparr>) = same_seed st st1"
  by (simp_all add: same_seed_def drop_pending_def put_pending_def)

lemma required_caps_seed: "required_caps cl r st = (m, st1) \<Longrightarrow> same_seed st st1"
  by (auto simp: required_caps_def split: option.splits prod.splits sum.splits dest: ask_seed)

lemma eval_one_seed:
  assumes "eval_one cl w r st = (b, st')"
  shows "same_seed st st'"
proof -
  obtain x st1 where x: "ask (\<lambda>x. [CeInfo r x]) (cc_GetRequestInfo cl r) st = (x, st1)" by (meson surj_pair)
  obtain t st2 where t: "ask (\<lambda>t. [CeNow r (projr x) t]) (cc_now cl) st1 = (t, st2)" by (meson surj_pair)
  obtain m st3 where m: "required_caps cl r st2 = (m, st3)" by (meson surj_pair)
  let ?st4 = "st3\<lparr>sw_trace := CeMask r m # sw_trace st3\<rparr>"
  obtain n st5 where n: "ask (\<lambda>n. [CeCount n]) (cc_counter cl) ?st4 = (n, st5)" by (meson surj_pair)
  obtain el st6 where el: "ask (\<lambda>x. [CeElig r x]) (cc_EligibleNow cl r (sw_worker w)) st5 = (el, st6)" by (meson surj_pair)
  obtain c st7 where c: "ask (\<lambda>x. [CeClaim r x]) (cc_ClaimSession cl r) st6 = (c, st7)" by (meson surj_pair)
  note f1 = ask_seed [OF x]
  note f2 = same_seed_trans [OF f1 ask_seed [OF t]]
  note f3 = same_seed_trans [OF f2 required_caps_seed [OF m]]
  have f4: "same_seed st ?st4" using f3 by simp
  note f5 = same_seed_trans [OF f4 ask_seed [OF n]]
  note f6 = same_seed_trans [OF f5 ask_seed [OF el]]
  note f7 = same_seed_trans [OF f6 ask_seed [OF c]]
  have "st' \<in> {st1, drop_pending r st1, drop_pending r st2, drop_pending r ?st4, st5, st6, drop_pending r st7}"
    using assms x t m n el c by (auto simp: eval_one_def Let_def split: sum.splits if_splits bool.splits)
  then show ?thesis using f1 f2 f4 f5 f6 f7 by auto
qed

lemma eval_loop_seed: "same_seed st (eval_loop cl w rs st)"
proof (induction rs arbitrary: st)
  case (Cons r rs)
  obtain b st1 where e: "eval_one cl w r st = (b, st1)" by (meson surj_pair)
  show ?case using eval_one_seed [OF e] same_seed_trans [OF _ Cons.IH] e by auto
qed simp

lemma required_caps_eq:
  assumes "required_caps cl r st = (m, st1)"
  shows "sw_trace st1 = sw_trace st \<and> sw_cursor st1 = sw_cursor st \<and> (pend st1 = pend st \<or> pend st1 = insert r (pend st))"
proof -
  obtain x st2 where x: "ask (\<lambda>_. []) (cc_GetRequiredCapabilities cl r) st = (x, st2)" by (meson surj_pair)
  note e = ask_eq(2,3,5) [OF x]
  consider (same) "st1 = st" | (err) "st1 = st2" | (upd) "st1 = st2\<lparr>sw_pending := AList.update r (Some m) (sw_pending st2)\<rparr>"
    using assms unfolding required_caps_def x
    by (cases "map_of (sw_pending st) r"; cases x; cases "the (map_of (sw_pending st) r)") simp_all
  then show ?thesis
  proof cases
    case upd
    then show ?thesis using e by simp
  qed (use e in simp_all)
qed

text \<open>The ways an evaluation can end, with the events it appends.\<close>

datatype eval_end = Unread | Closed | Expired | Lacking | Full | NotYet | Claimed

definition eval_events :: "eval_end \<Rightarrow> u64 \<Rightarrow> go_error + RequestInfo \<Rightarrow> RequestInfo \<Rightarrow> int \<Rightarrow> int \<Rightarrow> int \<Rightarrow>
    go_error + bool \<Rightarrow> go_error option \<Rightarrow> claim_event list" where
  "eval_events e r x ri t m n el c =
     (let i = [CeInfo r x]; now = CeNow r ri t # i; mask = CeMask r m # now; full = CeCount n # mask in
      case e of Unread \<Rightarrow> i | Closed \<Rightarrow> i | Expired \<Rightarrow> now | Lacking \<Rightarrow> mask | Full \<Rightarrow> full
      | NotYet \<Rightarrow> CeElig r el # full | Claimed \<Rightarrow> CeClaim r c # CeElig r el # full)"

definition eval_cond :: "eval_end \<Rightarrow> SessionWatcher \<Rightarrow> go_error + RequestInfo \<Rightarrow> RequestInfo \<Rightarrow> int \<Rightarrow> int \<Rightarrow> int \<Rightarrow>
    go_error + bool \<Rightarrow> bool" where
  "eval_cond e w x ri t m n el \<longleftrightarrow>
     (case e of
        Unread \<Rightarrow> isl x
      | Closed \<Rightarrow> x = Inr ri \<and> rq_Status ri \<noteq> 0
      | Expired \<Rightarrow> x = Inr ri \<and> rq_Status ri = 0 \<and> expired t ri
      | Lacking \<Rightarrow> x = Inr ri \<and> rq_Status ri = 0 \<and> \<not> expired t ri \<and> \<not> covered (sw_ownCaps w) m
      | _ \<Rightarrow> x = Inr ri \<and> rq_Status ri = 0 \<and> \<not> expired t ri \<and> covered (sw_ownCaps w) m \<and>
             (if e = Full then sw_maxJobs w \<le> n else n < sw_maxJobs w \<and> (e = Claimed \<longleftrightarrow> el = Inr True)))"

lemma eval_endI:
  assumes "sw_trace st' = eval_events e r x ri t m n el c @ sw_trace st" "eval_cond e w x ri t m n el" "b = (e = Full)"
    "sw_cursor st' = sw_cursor st" "pend st - {r} \<subseteq> pend st'" "pend st' \<subseteq> insert r (pend st)"
    "e \<in> {Closed, Expired, Lacking, Claimed} \<or> pend st \<subseteq> pend st'"
  shows "\<exists>e x ri t m n el c. sw_trace st' = eval_events e r x ri t m n el c @ sw_trace st \<and>
      eval_cond e w x ri t m n el \<and> b = (e = Full) \<and> sw_cursor st' = sw_cursor st \<and>
      pend st - {r} \<subseteq> pend st' \<and> pend st' \<subseteq> insert r (pend st) \<and>
      (r \<in> pend st \<longrightarrow> r \<notin> pend st' \<longrightarrow> e \<in> {Closed, Expired, Lacking, Claimed})"
  by (intro exI conjI) (rule assms | use assms(7) in blast)+

lemmas eval_end_defs = eval_events_def eval_cond_def Let_def

lemma eval_one_spec:
  assumes "eval_one cl w r st = (b, st')"
  shows "\<exists>e x ri t m n el c. sw_trace st' = eval_events e r x ri t m n el c @ sw_trace st \<and>
      eval_cond e w x ri t m n el \<and> b = (e = Full) \<and> sw_cursor st' = sw_cursor st \<and>
      pend st - {r} \<subseteq> pend st' \<and> pend st' \<subseteq> insert r (pend st) \<and>
      (r \<in> pend st \<longrightarrow> r \<notin> pend st' \<longrightarrow> e \<in> {Closed, Expired, Lacking, Claimed})"
proof -
  obtain x st1 where x: "ask (\<lambda>x. [CeInfo r x]) (cc_GetRequestInfo cl r) st = (x, st1)" by (meson surj_pair)
  note e1 = ask_eq(2,3,5) [OF x]
  show ?thesis
  proof (cases x)
    case (Inl err)
    then have "b = False \<and> st' = st1" using assms x by (simp add: eval_one_def)
    then show ?thesis using Inl e1 by (intro eval_endI [where e = Unread and x = x]) (auto simp: eval_end_defs)
  next
    case (Inr ri)
    obtain t st2 where t: "ask (\<lambda>t. [CeNow r ri t]) (cc_now cl) st1 = (t, st2)" by (meson surj_pair)
    note e2 = ask_eq(2,3,5) [OF t]
    obtain m st3 where m: "required_caps cl r st2 = (m, st3)" by (meson surj_pair)
    let ?st4 = "st3\<lparr>sw_trace := CeMask r m # sw_trace st3\<rparr>"
    have e4: "sw_trace ?st4 = CeMask r m # sw_trace st2" "sw_cursor ?st4 = sw_cursor st2"
        "pend ?st4 = pend st2 \<or> pend ?st4 = insert r (pend st2)"
      using required_caps_eq [OF m] by simp_all
    obtain n st5 where n: "ask (\<lambda>n. [CeCount n]) (cc_counter cl) ?st4 = (n, st5)" by (meson surj_pair)
    note e5 = ask_eq(2,3,5) [OF n]
    obtain el st6 where el: "ask (\<lambda>x. [CeElig r x]) (cc_EligibleNow cl r (sw_worker w)) st5 = (el, st6)" by (meson surj_pair)
    note e6 = ask_eq(2,3,5) [OF el]
    obtain c st7 where c: "ask (\<lambda>x. [CeClaim r x]) (cc_ClaimSession cl r) st6 = (c, st7)" by (meson surj_pair)
    note e7 = ask_eq(2,3,5) [OF c]
    note a = assms [unfolded eval_one_def x Inr t m n el c sum.case prod.case Let_def]
    have p4: "pend st \<subseteq> pend ?st4" "pend ?st4 \<subseteq> insert r (pend st)" using e4(3) e2(2) e1(2) by auto
    then have p7: "pend st \<subseteq> pend st7" "pend st7 \<subseteq> insert r (pend st)" using e7(2) e6(2) e5(2) by simp_all
    show ?thesis
    proof (cases "rq_Status ri \<noteq> 0")
      case True
      then have "b = False \<and> st' = drop_pending r st1" using a by simp
      then show ?thesis using e1 Inr True
        by (intro eval_endI [where e = Closed and x = x and ri = ri]) (auto simp: eval_end_defs)
    next
      case open': False
      show ?thesis
      proof (cases "expired t ri")
        case True
        then have "b = False \<and> st' = drop_pending r st2" using a open' by simp
        then show ?thesis using e1 e2 Inr open' True
          by (intro eval_endI [where e = Expired and x = x and ri = ri and t = t]) (auto simp: eval_end_defs)
      next
        case live: False
        show ?thesis
        proof (cases "covered (sw_ownCaps w) m")
          case False
          then have "b = False \<and> st' = drop_pending r ?st4" using a open' live by simp
          then show ?thesis using e1 e2 e4(1,2) p4 Inr open' live False
            by (intro eval_endI [where e = Lacking and x = x and ri = ri and t = t and m = m]) (auto simp: eval_end_defs)
        next
          case cov: True
          show ?thesis
          proof (cases "sw_maxJobs w \<le> n")
            case True
            then have "b = True \<and> st' = st5" using a open' live cov by simp
            then show ?thesis using e1 e2 e4(1,2) p4 e5 Inr open' live cov True
              by (intro eval_endI [where e = Full and x = x and ri = ri and t = t and m = m and n = n])
                (auto simp: eval_end_defs)
          next
            case room: False
            show ?thesis
            proof (cases "el = Inr True")
              case True
              then have "b = False \<and> st' = drop_pending r st7" using a open' live cov room by simp
              then show ?thesis using e1 e2 e4(1,2) p7 e5 e6 e7 Inr open' live cov room True
                by (intro eval_endI [where e = Claimed and x = x and ri = ri and t = t and m = m and n = n and el = el and c = c])
                  (auto simp: eval_end_defs)
            next
              case False
              then have "b = False \<and> st' = st6" using a open' live cov room by (cases el) (simp_all split: bool.splits)
              then show ?thesis using e1 e2 e4(1,2) p4 e5 e6 Inr open' live cov room False
                by (intro eval_endI [where e = NotYet and x = x and ri = ri and t = t and m = m and n = n and el = el])
                  (auto simp: eval_end_defs)
            qed
          qed
        qed
      qed
    qed
  qed
qed

section \<open>Claims are justified, requests are kept\<close>

fun info_ok :: "u64 \<Rightarrow> RequestInfo \<Rightarrow> claim_event list \<Rightarrow> bool" where
  "info_ok r ri (CeInfo r' (Inr ri') # evs) \<longleftrightarrow> r' = r \<and> ri' = ri \<and> rq_Status ri = 0"
| "info_ok r ri _ \<longleftrightarrow> False"

fun now_ok :: "u64 \<Rightarrow> claim_event list \<Rightarrow> bool" where
  "now_ok r (CeNow r' ri t # evs) \<longleftrightarrow> r' = r \<and> \<not> expired t ri \<and> info_ok r ri evs"
| "now_ok r _ \<longleftrightarrow> False"

fun mask_ok :: "SessionWatcher \<Rightarrow> u64 \<Rightarrow> claim_event list \<Rightarrow> bool" where
  "mask_ok w r (CeMask r' m # evs) \<longleftrightarrow> r' = r \<and> covered (sw_ownCaps w) m \<and> now_ok r evs"
| "mask_ok w r _ \<longleftrightarrow> False"

fun count_ok :: "SessionWatcher \<Rightarrow> u64 \<Rightarrow> claim_event list \<Rightarrow> bool" where
  "count_ok w r (CeCount n # evs) \<longleftrightarrow> n < sw_maxJobs w \<and> mask_ok w r evs"
| "count_ok w r _ \<longleftrightarrow> False"

fun elig_ok :: "SessionWatcher \<Rightarrow> u64 \<Rightarrow> claim_event list \<Rightarrow> bool" where
  "elig_ok w r (CeElig r' (Inr ok) # evs) \<longleftrightarrow> r' = r \<and> ok \<and> count_ok w r evs"
| "elig_ok w r _ \<longleftrightarrow> False"

text \<open>
  Newest first: right before a claim of \<open>r\<close> the pass read it eligible, the counter below the maximum, a mask
  the worker covers, the clock within the expiry and the request Open, in this order backwards.
\<close>

fun claim_ok :: "SessionWatcher \<Rightarrow> claim_event \<Rightarrow> claim_event list \<Rightarrow> bool" where
  "claim_ok w (CeClaim r e) evs \<longleftrightarrow> elig_ok w r evs"
| "claim_ok w _ _ \<longleftrightarrow> True"

fun claims_justified :: "SessionWatcher \<Rightarrow> claim_event list \<Rightarrow> bool" where
  "claims_justified w [] \<longleftrightarrow> True"
| "claims_justified w (e # evs) \<longleftrightarrow> claim_ok w e evs \<and> claims_justified w evs"

fun request_gone :: "SessionWatcher \<Rightarrow> u64 \<Rightarrow> claim_event \<Rightarrow> bool" where
  "request_gone w r (CeInfo r' (Inr ri)) \<longleftrightarrow> r' = r \<and> rq_Status ri \<noteq> 0"
| "request_gone w r (CeNow r' ri t) \<longleftrightarrow> r' = r \<and> expired t ri"
| "request_gone w r (CeMask r' m) \<longleftrightarrow> r' = r \<and> \<not> covered (sw_ownCaps w) m"
| "request_gone w r (CeClaim r' e) \<longleftrightarrow> r' = r"
| "request_gone w r _ \<longleftrightarrow> False"

definition tracked :: "SessionWatcher \<Rightarrow> 'c session_st \<Rightarrow> u64 \<Rightarrow> bool" where
  "tracked w st r \<longleftrightarrow> r \<in> pend st \<or> list_ex (request_gone w r) (sw_trace st)"

lemma eval_events_justified:
  "eval_cond e w x ri t m n el \<Longrightarrow>
   claims_justified w (eval_events e r x ri t m n el c @ evs) \<longleftrightarrow> claims_justified w evs"
  by (cases e) (auto simp: eval_end_defs)

lemma eval_events_gone:
  "eval_cond e w x ri t m n el \<Longrightarrow> e \<in> {Closed, Expired, Lacking, Claimed} \<Longrightarrow>
   list_ex (request_gone w r) (eval_events e r x ri t m n el c)"
  by (cases e) (auto simp: eval_end_defs)

lemma eval_one_keeps:
  assumes "eval_one cl w r st = (b, st')"
  shows "claims_justified w (sw_trace st') = claims_justified w (sw_trace st) \<and> sw_cursor st' = sw_cursor st \<and>
         (tracked w st q \<longrightarrow> tracked w st' q)"
proof -
  obtain e x ri t m n el c where tr: "sw_trace st' = eval_events e r x ri t m n el c @ sw_trace st"
      and c: "eval_cond e w x ri t m n el" and cur: "sw_cursor st' = sw_cursor st" and sub: "pend st - {r} \<subseteq> pend st'"
      and gone: "r \<in> pend st \<longrightarrow> r \<notin> pend st' \<longrightarrow> e \<in> {Closed, Expired, Lacking, Claimed}"
    using eval_one_spec [OF assms] by blast
  have "tracked w st' q" if "tracked w st q"
  proof (cases "q \<in> pend st \<and> q \<notin> pend st'")
    case True
    then have "q = r" using sub by auto
    then show ?thesis using True gone eval_events_gone [OF c, of r c] tr by (auto simp: tracked_def)
  next
    case False
    then show ?thesis using that tr by (auto simp: tracked_def)
  qed
  then show ?thesis using eval_events_justified [OF c] tr cur by simp
qed

lemma eval_loop_keeps:
  "claims_justified w (sw_trace (eval_loop cl w rs st)) = claims_justified w (sw_trace st) \<and>
   sw_cursor (eval_loop cl w rs st) = sw_cursor st \<and> (tracked w st q \<longrightarrow> tracked w (eval_loop cl w rs st) q)"
proof (induction rs arbitrary: st)
  case (Cons r rs)
  obtain b st1 where e: "eval_one cl w r st = (b, st1)" by (meson surj_pair)
  show ?case using eval_one_keeps [OF e, of q] Cons.IH [of st1] e by auto
qed simp

section \<open>Discovery\<close>

lemma put_pending_simps [simp]:
  "sw_trace (put_pending reqs st) = sw_trace st" "sw_cursor (put_pending reqs st) = sw_cursor st"
  "pend (put_pending reqs st) = pend st \<union> sr_ReqID ` set reqs"
proof -
  have "fst ` set (foldl (\<lambda>m r. AList.update (sr_ReqID r) None m) m reqs) = fst ` set m \<union> sr_ReqID ` set reqs" for m
    by (induction reqs arbitrary: m) (auto simp: dom_update)
  then show "pend (put_pending reqs st) = pend st \<union> sr_ReqID ` set reqs" by (simp add: put_pending_def pend_def)
qed (simp_all add: put_pending_def)

text \<open>Reading more requests only adds to the pending set.\<close>

definition adds :: "'c session_st \<Rightarrow> 'c session_st \<Rightarrow> bool" where
  "adds st st' \<longleftrightarrow> sw_trace st' = sw_trace st \<and> pend st \<subseteq> pend st'"

lemma adds_refl [simp]: "adds st st"
  by (simp add: adds_def)

lemma adds_trans: "adds st st1 \<Longrightarrow> adds st1 st2 \<Longrightarrow> adds st st2"
  by (auto simp: adds_def)

lemma adds_tracked: "adds st st' \<Longrightarrow> tracked w st r \<Longrightarrow> tracked w st' r"
  by (auto simp: adds_def tracked_def)

lemma ask_adds: "ask (\<lambda>_. []) f st = (x, st1) \<Longrightarrow> adds st st1 \<and> sw_cursor st1 = sw_cursor st"
  using ask_eq [of "\<lambda>_. []" f st x st1] by (auto simp: adds_def)

lemma reseed_loop_adds:
  "reseed_loop fuel cl chunk cursor from st = Some (e, st') \<Longrightarrow> adds st st' \<and> sw_cursor st' = sw_cursor st"
proof (induction fuel arbitrary: "from" st)
  case (Suc fuel)
  obtain x st1 where x: "ask (\<lambda>_. []) (cc_FilterSessionRequested cl from (range_end chunk cursor from)) st = (x, st1)"
    by (meson surj_pair)
  note a = ask_adds [OF x]
  have p: "adds st (put_pending reqs st1)" for reqs using a by (auto simp: adds_def)
  show ?case using Suc.prems Suc.IH [of "from + chunk" "put_pending (projr x) st1"] x a adds_trans [OF p]
    by (cases x) (auto split: if_splits)
qed simp

lemma phase0_adds:
  assumes "phase0 fuel cl w cursor st = Some st'"
  shows "adds st st' \<and> sw_cursor st' = sw_cursor st"
proof (cases "sw_seeded st")
  case True
  then show ?thesis using assms by (simp add: phase0_def)
next
  case False
  obtain e st1 where r: "reseed fuel cl w cursor st = Some (e, st1)"
    using assms False by (auto simp: phase0_def split: option.splits)
  have "adds st st1 \<and> sw_cursor st1 = sw_cursor st"
    using r by (auto simp: reseed_def Let_def split: if_splits dest: reseed_loop_adds)
  then show ?thesis using assms False r by (auto simp: phase0_def adds_def split: option.splits)
qed

lemma set_cursor_eq:
  assumes "set_cursor cl hi st = (e, st')"
  shows "adds st st' \<and> cursor_read CurOk cursorSessionRequested (sw_cursor st') =
    (if e = None then Inr (hi, True) else cursor_read CurOk cursorSessionRequested (sw_cursor st))"
proof -
  obtain flt n st1 where x: "ask (\<lambda>_. []) (cc_fault cl) st = ((flt, n), st1)" by (metis surj_pair)
  note a = ask_adds [OF x]
  obtain d where d: "cursor_Set flt n cursorSessionRequested hi (sw_cursor st1) = (e, d)" "st' = st1\<lparr>sw_cursor := d\<rparr>"
    using assms x by (auto simp: set_cursor_def split: prod.splits)
  show ?thesis using a cursor_read_Set [OF d(1), of cursorSessionRequested] d(2) by (auto simp: adds_def)
qed

lemma set_cursor_seed: "set_cursor cl hi st = (e, st') \<Longrightarrow> same_seed st st'"
  by (auto simp: set_cursor_def split: prod.splits dest: ask_seed)

lemma discover_seed: "discover_loop fuel cl chunk safeHead lo st = Some (e, st') \<Longrightarrow> same_seed st st'"
proof (induction fuel arbitrary: lo st)
  case (Suc fuel)
  let ?hi = "range_end chunk safeHead lo"
  obtain x st1 where x: "ask (\<lambda>_. []) (cc_FilterSessionRequested cl lo ?hi) st = (x, st1)" by (meson surj_pair)
  obtain ce st2 where ce: "set_cursor cl ?hi (put_pending (projr x) st1) = (ce, st2)" by (meson surj_pair)
  have f: "same_seed st st1" "same_seed st st2"
    using ask_seed [OF x] same_seed_trans [OF _ set_cursor_seed [OF ce], of st] by simp_all
  show ?case using Suc.prems x ce f same_seed_trans [OF f(2) Suc.IH [of "lo + chunk" st2]]
    by (cases x; cases ce) (auto simp: Let_def split: if_splits)
qed simp

text \<open>
  What the node's log filter is relied on for: a successful answer holds every SessionRequested event of
  the block range. \<open>log\<close> is the set of (block, request) pairs of these events.
\<close>

definition requests_complete :: "'c claim_client \<Rightarrow> (u64 \<times> u64) set \<Rightarrow> bool" where
  "requests_complete cl log \<longleftrightarrow>
     (\<forall>lo hi c evs c'. cc_FilterSessionRequested cl lo hi c = (Inr evs, c') \<longrightarrow>
        (\<forall>b r. (b, r) \<in> log \<longrightarrow> lo \<le> b \<longrightarrow> b \<le> hi \<longrightarrow> r \<in> sr_ReqID ` set evs))"

lemma range_end_cover: "b \<le> upper \<Longrightarrow> b < lo + chunk \<Longrightarrow> b \<le> range_end chunk upper lo"
proof (cases "lo + chunk = 0")
  case False
  assume "b \<le> upper" "b < lo + chunk"
  then have "b \<le> lo + chunk - 1" using word_less_pred [of b "lo + chunk"] by fastforce
  then show ?thesis using \<open>b \<le> upper\<close> by (simp add: range_end_def Let_def)
qed simp

lemma range_end_le: "range_end chunk upper lo \<le> upper"
  by (auto simp: range_end_def Let_def)

lemma discover_covers:
  assumes "requests_complete cl log"
    and "discover_loop fuel cl chunk safeHead lo st = Some (e, st')"
    and "\<forall>b r. (b, r) \<in> log \<longrightarrow> v < b \<longrightarrow> b < lo \<longrightarrow> b \<le> safeHead \<longrightarrow> tracked w st r"
    and "cursor_read CurOk cursorSessionRequested (sw_cursor st) = Inr (u, True)"
    and "\<forall>b r. (b, r) \<in> log \<longrightarrow> v < b \<longrightarrow> b \<le> u \<longrightarrow> tracked w st r"
  shows "adds st st' \<and> (\<exists>u'. cursor_read CurOk cursorSessionRequested (sw_cursor st') = Inr (u', True) \<and> (u' = u \<or> u' \<le> safeHead) \<and>
    (\<forall>b r. (b, r) \<in> log \<longrightarrow> v < b \<longrightarrow> b \<le> u' \<longrightarrow> tracked w st' r))"
  using assms(2-5)
proof (induction fuel arbitrary: lo st u)
  case (Suc fuel)
  let ?hi = "range_end chunk safeHead lo"
  show ?case
  proof (cases "safeHead < lo")
    case True
    then have "st' = st" using Suc.prems(1) by simp
    then show ?thesis using Suc.prems(3,4) by simp
  next
    case False
    obtain x st1 where x: "ask (\<lambda>_. []) (cc_FilterSessionRequested cl lo ?hi) st = (x, st1)" by (meson surj_pair)
    note a = ask_adds [OF x]
    show ?thesis
    proof (cases x)
      case (Inl err)
      then have "st' = st1" using Suc.prems(1) x False by (simp add: Let_def)
      then show ?thesis using a Suc.prems(3,4) by (auto intro: adds_tracked)
    next
      case (Inr reqs)
      obtain ce st2 where ce: "set_cursor cl ?hi (put_pending reqs st1) = (ce, st2)" by (meson surj_pair)
      note sc = set_cursor_eq [OF ce]
      have ad: "adds st st2" using a sc by (auto simp: adds_def)
      have new: "tracked w st2 r" if "(b, r) \<in> log" "lo \<le> b" "b \<le> ?hi" for b r
      proof -
        have "r \<in> sr_ReqID ` set reqs" using assms(1) that ask_eq(1) [OF x] Inr by (auto simp: requests_complete_def)
        then show ?thesis using sc by (auto simp: adds_def tracked_def)
      qed
      have upto: "tracked w st2 r" if "(b, r) \<in> log" "v < b" "b \<le> ?hi" for b r
        using new [OF that(1)] that Suc.prems(2) adds_tracked [OF ad] range_end_le [of chunk safeHead lo]
        by (metis linorder_not_le order_trans)
      show ?thesis
      proof (cases ce)
        case (Some e')
        then have "st' = st2" using Suc.prems(1) x False Inr ce by (simp add: Let_def)
        then show ?thesis using ad sc Some Suc.prems(3,4) a by (auto intro: adds_tracked)
      next
        case None
        then have l: "discover_loop fuel cl chunk safeHead (lo + chunk) st2 = Some (e, st')"
          using Suc.prems(1) x False Inr ce by (simp add: Let_def)
        have "\<forall>b r. (b, r) \<in> log \<longrightarrow> v < b \<longrightarrow> b < lo + chunk \<longrightarrow> b \<le> safeHead \<longrightarrow> tracked w st2 r"
          using upto range_end_cover by blast
        from Suc.IH [OF l this, of ?hi] show ?thesis using sc None upto adds_trans [OF ad] range_end_le [of chunk safeHead lo] by auto
      qed
    qed
  qed
qed simp

section \<open>Termination\<close>

lemma reseed_loop_fuel:
  assumes "chunk \<noteq> 0" "unat cursor + unat chunk < 2 ^ 64" "unat cursor + 1 < fuel + unat from" "0 < fuel"
  shows "reseed_loop fuel cl chunk cursor from st \<noteq> None"
  using assms(3,4)
proof (induction fuel arbitrary: "from" st)
  case (Suc fuel)
  have pos: "0 < unat chunk" using assms(1) by (simp add: unat_gt_0)
  show ?case
  proof (cases "cursor < from")
    case False
    then have u: "unat (from + chunk) = unat from + unat chunk" "unat from \<le> unat cursor"
      using add_chunk [of "from" cursor chunk] assms(2) by (simp_all add: word_le_nat_alt linorder_not_less)
    obtain x st1 where "ask (\<lambda>_. []) (cc_FilterSessionRequested cl from (range_end chunk cursor from)) st = (x, st1)"
      by (meson surj_pair)
    moreover have "reseed_loop fuel cl chunk cursor (from + chunk) st2 \<noteq> None" for st2
      using Suc.IH [of "from + chunk" st2] Suc.prems u pos by (cases fuel) auto
    ultimately show ?thesis using False by (cases x) auto
  qed simp
qed simp

lemma discover_loop_fuel:
  assumes "chunk \<noteq> 0" "unat safeHead + unat chunk < 2 ^ 64" "unat safeHead + 1 < fuel + unat lo" "0 < fuel"
  shows "discover_loop fuel cl chunk safeHead lo st \<noteq> None"
  using assms(3,4)
proof (induction fuel arbitrary: lo st)
  case (Suc fuel)
  have pos: "0 < unat chunk" using assms(1) by (simp add: unat_gt_0)
  show ?case
  proof (cases "safeHead < lo")
    case False
    let ?hi = "range_end chunk safeHead lo"
    have u: "unat (lo + chunk) = unat lo + unat chunk" "unat lo \<le> unat safeHead"
      using False add_chunk [of lo safeHead chunk] assms(2) by (simp_all add: word_le_nat_alt linorder_not_less)
    obtain x st1 where "ask (\<lambda>_. []) (cc_FilterSessionRequested cl lo ?hi) st = (x, st1)" by (meson surj_pair)
    moreover have "discover_loop fuel cl chunk safeHead (lo + chunk) st2 \<noteq> None" for st2
      using Suc.IH [of "lo + chunk" st2] Suc.prems u pos by (cases fuel) auto
    ultimately show ?thesis using False by (cases x) (auto simp: Let_def split: prod.splits option.splits)
  qed simp
qed simp

section \<open>The look-back\<close>

text \<open>The blocks phase 0 looks through behind the cursor \<open>v\<close>: the last \<open>LookbackBlocks\<close> up to \<open>v\<close>, genesis excepted.\<close>

definition in_lookback :: "SessionWatcher \<Rightarrow> u64 \<Rightarrow> u64 \<Rightarrow> bool" where
  "in_lookback w v b \<longleftrightarrow> b \<noteq> 0 \<and> b \<le> v \<and> unat v < unat b + unat (sw_lookback w)"

lemma reseed_loop_covers:
  assumes "requests_complete cl log" "reseed_loop fuel cl chunk cursor from st = Some (None, st')"
    and "(b, r) \<in> log" "from \<le> b" "b \<le> cursor"
  shows "r \<in> pend st'"
  using assms(2,4)
proof (induction fuel arbitrary: "from" st)
  case (Suc fuel)
  let ?hi = "range_end chunk cursor from"
  obtain x st1 where x: "ask (\<lambda>_. []) (cc_FilterSessionRequested cl from ?hi) st = (x, st1)" by (meson surj_pair)
  obtain reqs where reqs: "x = Inr reqs" and l: "reseed_loop fuel cl chunk cursor (from + chunk) (put_pending reqs st1) = Some (None, st')"
    using Suc.prems assms(5) x by (cases x) (auto split: if_splits)
  show ?case
  proof (cases "b < from + chunk")
    case True
    then have "r \<in> sr_ReqID ` set reqs"
      using assms(1,3) Suc.prems(2) range_end_cover [OF assms(5) True] ask_eq(1) [OF x] reqs by (auto simp: requests_complete_def)
    then show ?thesis using reseed_loop_adds [OF l] by (auto simp: adds_def)
  next
    case False
    then show ?thesis using Suc.IH [OF l] by simp
  qed
qed simp

lemma reseed_covers:
  assumes "requests_complete cl log" "reseed fuel cl w v st = Some (None, st')" "(b, r) \<in> log" "in_lookback w v b"
  shows "r \<in> pend st'"
proof -
  define lo where "lo = (if sw_lookback w < v then v - sw_lookback w + 1 else 1)"
  have "sw_lookback w \<noteq> 0" "v \<noteq> 0"
    using assms(4) by (auto simp: in_lookback_def word_le_nat_alt unat_eq_zero)
  then have l: "reseed_loop fuel cl (sw_chunk w) v lo st = Some (None, st')"
    using assms(2) by (auto simp: reseed_def lo_def)
  have "lo \<le> b"
  proof (cases "sw_lookback w < v")
    case True
    then have "v - sw_lookback w < b" using assms(4)
      by (auto simp: in_lookback_def word_less_nat_alt unat_sub word_le_nat_alt)
    then show ?thesis using True inc_le [of "v - sw_lookback w" b] by (simp add: lo_def add.commute)
  next
    case False
    then show ?thesis using assms(4) by (simp add: lo_def in_lookback_def word_le_nat_alt unat_gt_0 Suc_le_eq)
  qed
  then show ?thesis using reseed_loop_covers [OF assms(1) l assms(3)] assms(4) by (simp add: in_lookback_def)
qed

lemma reseed_loop_seed: "reseed_loop fuel cl chunk cursor from st = Some (e, st') \<Longrightarrow> same_seed st st'"
proof (induction fuel arbitrary: "from" st)
  case (Suc fuel)
  obtain x st1 where x: "ask (\<lambda>_. []) (cc_FilterSessionRequested cl from (range_end chunk cursor from)) st = (x, st1)"
    by (meson surj_pair)
  have "same_seed st (put_pending (projr x) st1)" using ask_seed [OF x] by simp
  then show ?case using Suc.prems x ask_seed [OF x] same_seed_trans [OF _ Suc.IH, of st "put_pending (projr x) st1" "from + chunk"]
    by (cases x) (auto split: if_splits)
qed simp

text \<open>
  How phase 0 ends: skipped; run through, with every request of the look-back in the pending set; or failed
  and counted.
\<close>

lemma phase0_lookback:
  assumes "requests_complete cl log" "phase0 fuel cl w v st = Some st'"
  obtains (skipped) "sw_seeded st" "st' = st"
  | (looked) "\<not> sw_seeded st" "sw_seeded st'" "sw_reseedTries st' = sw_reseedTries st"
      "\<forall>b r. (b, r) \<in> log \<longrightarrow> in_lookback w v b \<longrightarrow> tracked w st' r"
  | (failed) "\<not> sw_seeded st" "sw_reseedTries st' = Suc (sw_reseedTries st)"
proof (cases "sw_seeded st")
  case True
  then show ?thesis using assms(2) by (intro skipped) (simp_all add: phase0_def)
next
  case False
  obtain e st1 where r: "reseed fuel cl w v st = Some (e, st1)"
    using assms(2) False by (auto simp: phase0_def split: option.splits)
  have s: "same_seed st st1" using r by (auto simp: reseed_def Let_def split: if_splits dest: reseed_loop_seed)
  show ?thesis
  proof (cases e)
    case None
    then have "st' = st1\<lparr>sw_seeded := True\<rparr>" using assms(2) False r by (simp add: phase0_def)
    then show ?thesis using False s reseed_covers [OF assms(1)] r None
      by (intro looked) (auto simp: same_seed_def tracked_def)
  next
    case (Some err)
    then show ?thesis using assms(2) False r s by (intro failed) (auto simp: phase0_def same_seed_def)
  qed
qed

section \<open>The pass\<close>

lemma safe_head_le: "safe_head number confs \<le> number"
proof (cases "confs < number")
  case True
  then have "unat (number - confs) \<le> unat number" by (subst unat_sub) (simp_all add: less_imp_le)
  then show ?thesis using True by (simp add: safe_head_def word_le_nat_alt)
qed (simp add: safe_head_def)

text \<open>Where a pass that got past its cursor read stands before evaluation.\<close>

lemma RunOnce_cases:
  assumes "session_RunOnce fuel perm cl w st = Some (e, st')"
    and "cursor_read CurOk cursorSessionRequested (sw_cursor st) = Inr (v, True)" and "requests_complete cl log"
  obtains (early) "adds st st'" "cursor_read CurOk cursorSessionRequested (sw_cursor st') = Inr (v, True)" "same_seed st st'"
  | (scan) st3 st4 st5 u where "adds st st5" "cursor_read CurOk cursorSessionRequested (sw_cursor st5) = Inr (u, True)"
      "\<forall>b r. (b, r) \<in> log \<longrightarrow> v < b \<longrightarrow> b \<le> u \<longrightarrow> tracked w st5 r"
      "st' = st5 \<or> st' = eval_loop cl w (perm (map fst (sw_pending st5))) st5"
      "e = None \<longrightarrow> st' = eval_loop cl w (perm (map fst (sw_pending st5))) st5"
      "u = v \<or> (\<exists>c h c'. cc_Head cl c = (Inr h, c') \<and> u \<le> hd_Number h)"
      "same_seed st st3" "phase0 fuel cl w v st3 = Some st4" "adds st4 st5" "same_seed st4 st5"
proof -
  obtain h st1 where h: "ask (\<lambda>_. []) (cc_Head cl) st = (h, st1)" by (meson surj_pair)
  note a1 = ask_adds [OF h] and s1 = ask_seed [OF h]
  show ?thesis
  proof (cases h)
    case (Inl err)
    then have "st' = st1" using assms(1) h by (simp add: session_RunOnce_def)
    then show ?thesis using a1 s1 assms(2) by (intro early) simp_all
  next
    case (Inr head)
    let ?safe = "safe_head (hd_Number head) (sw_confs w)"
    have safe: "?safe \<le> hd_Number head" by (rule safe_head_le)
    obtain flt n st2 where f: "ask (\<lambda>_. []) (cc_fault cl) st1 = ((flt, n), st2)" by (metis surj_pair)
    note a2 = ask_adds [OF f] and s2 = same_seed_trans [OF s1 ask_seed [OF f]]
    obtain cursor fresh err d where g: "GetOrSeed flt n cursorSessionRequested ?safe (sw_lookback w) (sw_cursor st2) = ((cursor, fresh, err), d)"
      by (metis surj_pair)
    have g': "d = sw_cursor st \<and> \<not> fresh \<and> (err = None \<longrightarrow> cursor = v)"
      using g assms(2) a1 a2 by (auto simp: GetOrSeed_def cursor_read_def split: if_splits option.splits sum.splits)
    show ?thesis
    proof (cases err)
      case (Some e')
      then have "st' = st2\<lparr>sw_cursor := d\<rparr>" using assms(1) h Inr f g by (simp add: session_RunOnce_def Let_def)
      then show ?thesis using a1 a2 s2 g' assms(2) by (intro early) (auto simp: adds_def)
    next
      case None
      then have v: "cursor = v" using g' by simp
      let ?st3 = "st2\<lparr>sw_cursor := d, sw_seeded := (fresh \<or> sw_seeded st2)\<rparr>"
      have s3: "same_seed st ?st3" using s2 g' by (simp add: same_seed_def)
      note run = assms(1) [unfolded session_RunOnce_def h Inr sum.case prod.case Let_def f g None option.case v]
      obtain st4 where p0: "phase0 fuel cl w v ?st3 = Some st4" using run by (auto split: option.splits)
      have a4: "adds st st4" "sw_cursor st4 = sw_cursor st" using phase0_adds [OF p0] a1 a2 g' by (auto simp: adds_def)
      obtain e5 st5 where d5: "(if v < ?safe then discover_loop fuel cl (sw_chunk w) ?safe (v + 1) st4 else Some (None, st4)) = Some (e5, st5)"
        using run p0 by (auto split: option.splits)
      have run5: "st' = st5 \<or> st' = eval_loop cl w (perm (map fst (sw_pending st5))) st5"
          "e = None \<longrightarrow> st' = eval_loop cl w (perm (map fst (sw_pending st5))) st5"
        using run p0 d5 by (auto split: option.splits)
      have cur4: "cursor_read CurOk cursorSessionRequested (sw_cursor st4) = Inr (v, True)" using a4 assms(2) by simp
      show ?thesis
      proof (cases "v < ?safe")
        case True
        have vac: "\<forall>b r. (b, r) \<in> log \<longrightarrow> v < b \<longrightarrow> b < v + 1 \<longrightarrow> b \<le> ?safe \<longrightarrow> tracked w st4 r"
          using word_less_pred [of _ "v + 1"] by (metis add_diff_cancel order_less_asym less_irrefl)
        have vac': "\<forall>b r. (b, r) \<in> log \<longrightarrow> v < b \<longrightarrow> b \<le> v \<longrightarrow> tracked w st4 r" by auto
        have l: "discover_loop fuel cl (sw_chunk w) ?safe (v + 1) st4 = Some (e5, st5)" using d5 True by simp
        obtain u where u: "adds st4 st5" "cursor_read CurOk cursorSessionRequested (sw_cursor st5) = Inr (u, True)"
            "\<forall>b r. (b, r) \<in> log \<longrightarrow> v < b \<longrightarrow> b \<le> u \<longrightarrow> tracked w st5 r" "u = v \<or> u \<le> ?safe"
          using discover_covers [OF assms(3) l vac cur4 vac'] by blast
        have "u = v \<or> (\<exists>c h c'. cc_Head cl c = (Inr h, c') \<and> u \<le> hd_Number h)"
          using u(4) safe ask_eq(1) [OF h] Inr by (metis order_trans)
        then show ?thesis by (rule scan [OF adds_trans [OF a4(1) u(1)] u(2,3) run5 _ s3 p0 u(1) discover_seed [OF l]])
      next
        case False
        then have "st5 = st4" using d5 by simp
        then show ?thesis using a4 cur4 run5 s3 p0 by (intro scan [of st5 v ?st3 st4]) auto
      qed
    qed
  qed
qed

text \<open>
  What one pass does to the cursor, the tracked requests and the look-back. \<open>pass_keeps v st u st'\<close>: the pass
  takes a state with cursor \<open>v\<close> to one with cursor \<open>u\<close>.
\<close>

definition pass_keeps :: "SessionWatcher \<Rightarrow> (u64 \<times> u64) set \<Rightarrow> u64 \<Rightarrow> 'c session_st \<Rightarrow> u64 \<Rightarrow> 'c session_st \<Rightarrow> bool" where
  "pass_keeps w log v st u st' \<longleftrightarrow>
     cursor_read CurOk cursorSessionRequested (sw_cursor st') = Inr (u, True) \<and>
     (\<forall>b r. (b, r) \<in> log \<longrightarrow> v < b \<longrightarrow> b \<le> u \<longrightarrow> tracked w st' r) \<and> (\<forall>q. tracked w st q \<longrightarrow> tracked w st' q) \<and>
     sw_reseedTries st \<le> sw_reseedTries st' \<and> (sw_seeded st \<longrightarrow> sw_seeded st') \<and>
     (\<not> sw_seeded st \<longrightarrow> sw_reseedTries st' = sw_reseedTries st \<longrightarrow>
        (if sw_seeded st' then \<forall>b r. (b, r) \<in> log \<longrightarrow> in_lookback w v b \<longrightarrow> tracked w st' r else u = v))"

lemma pass_keeps_refl:
  "cursor_read CurOk cursorSessionRequested (sw_cursor st) = Inr (v, True) \<Longrightarrow> pass_keeps w log v st v st"
  by (auto simp: pass_keeps_def)

lemma pass_keeps_trans:
  assumes "pass_keeps w log v st u st1" "pass_keeps w log u st1 t st2"
  shows "pass_keeps w log v st t st2"
proof -
  have "tracked w st2 r" if "(b, r) \<in> log" "v < b" "b \<le> t" for b r
    using assms that unfolding pass_keeps_def by (metis linorder_not_le)
  moreover have "if sw_seeded st2 then \<forall>b r. (b, r) \<in> log \<longrightarrow> in_lookback w v b \<longrightarrow> tracked w st2 r else t = v"
    if "\<not> sw_seeded st" "sw_reseedTries st2 = sw_reseedTries st"
    using assms that unfolding pass_keeps_def by (cases "sw_seeded st1") (auto split: if_splits)
  ultimately show ?thesis using assms by (auto simp: pass_keeps_def)
qed

lemma RunOnce_keeps:
  assumes "session_RunOnce fuel perm cl w st = Some (e, st')"
    and "cursor_read CurOk cursorSessionRequested (sw_cursor st) = Inr (v, True)" and "requests_complete cl log"
  obtains u where "pass_keeps w log v st u st'" "u = v \<or> (\<exists>c h c'. cc_Head cl c = (Inr h, c') \<and> u \<le> hd_Number h)"
  using assms
proof (cases rule: RunOnce_cases)
  case early
  then have "pass_keeps w log v st v st'" by (auto simp: pass_keeps_def same_seed_def intro: adds_tracked)
  then show ?thesis by (rule that) simp
next
  case (scan st3 st4 st5 u)
  note keep = eval_loop_keeps [of w cl "perm (map fst (sw_pending st5))" st5]
    and seed = eval_loop_seed [of st5 cl w "perm (map fst (sw_pending st5))"]
  have st': "sw_cursor st' = sw_cursor st5" "\<And>q. tracked w st5 q \<Longrightarrow> tracked w st' q" "same_seed st5 st'"
    using scan(4) keep seed by auto
  then have s: "same_seed st4 st'" using scan(10) by (blast intro: same_seed_trans)
  have tr: "tracked w st' q" if "tracked w st q" for q using adds_tracked [OF scan(1) that] by (rule st'(2))
  from assms(3) scan(8) have "pass_keeps w log v st u st'"
  proof (cases rule: phase0_lookback)
    case skipped
    then show ?thesis using scan(1-3,7) st'(1,2) s tr by (auto simp: pass_keeps_def same_seed_def)
  next
    case looked
    then show ?thesis using scan(2,3,7) st'(1,2) s tr adds_tracked [OF scan(9)]
      by (auto simp: pass_keeps_def same_seed_def)
  next
    case failed
    then show ?thesis using scan(1-3,7) st'(1,2) s tr by (auto simp: pass_keeps_def same_seed_def)
  qed
  then show ?thesis using scan(6) by (rule that)
qed

section \<open>Properties\<close>

definition demo_claim :: "unit claim_client" where
  "demo_claim = \<lparr>cc_Head = \<lambda>c. (Inr \<lparr>hd_Number = 30, hd_Timestamp = 0\<rparr>, c),
     cc_FilterSessionRequested = \<lambda>lo hi c. (Inr (filter (\<lambda>e. lo \<le> sr_BlockNumber e \<and> sr_BlockNumber e \<le> hi)
        [\<lparr>sr_ReqID = 7, sr_User = 1, sr_ModelID = 0, sr_RequestBlock = 10, sr_BlockNumber = 10\<rparr>,
         \<lparr>sr_ReqID = 4, sr_User = 1, sr_ModelID = 0, sr_RequestBlock = 20, sr_BlockNumber = 20\<rparr>]), c),
     cc_GetRequestInfo = \<lambda>r c. (Inr \<lparr>rq_Status = 0, rq_Expiry = 5000, rq_Worker = 0\<rparr>, c),
     cc_GetRequiredCapabilities = \<lambda>r c. (Inr 2, c), cc_EligibleNow = \<lambda>r a c. (Inr True, c),
     cc_ClaimSession = \<lambda>r c. (None, c), cc_counter = \<lambda>c. (1, c), cc_now = \<lambda>c. (1000, c), cc_fault = \<lambda>c. ((CurOk, 0), c)\<rparr>"

definition demo_watcher :: SessionWatcher where
  "demo_watcher = NewSessionWatcher \<lparr>o_Worker = 9, o_MaxConcurrent = 2, o_ChunkSize = 8, o_Confirmations = 5,
     o_OwnCapabilities = Some 3, o_LookbackBlocks = 4\<rparr>"

definition demo_session_st :: "unit session_st" where
  "demo_session_st = \<lparr>sw_env = (), sw_cursor = \<lparr>cd_dir = ''d'', cd_files = [''d/cursor-session_requested.txt'' \<mapsto> ''12'']\<rparr>,
     sw_seeded = False, sw_reseedTries = 0, sw_pending = [], sw_trace = []\<rparr>"

lemma demo_session_cursor: "cursor_read CurOk cursorSessionRequested (sw_cursor demo_session_st) = Inr (12, True)"
  by (simp add: cursor_read_def demo_session_st_def cursor_path_def cursorSessionRequested_def ParseUint_def TrimSpace_def
      is_space_def digit_val_def Let_def)

lemma demo_requests: "requests_complete demo_claim {(10, 7), (20, 4)}"
  by (auto simp: requests_complete_def demo_claim_def split: if_splits)

lemma phase0_some: "reseed fuel cl w v st \<noteq> None \<Longrightarrow> phase0 fuel cl w v st \<noteq> None"
  by (auto simp: phase0_def split: option.splits)

lemma session_pass_ends:
  assumes "sw_chunk w \<noteq> 0" "cursor_read CurOk cursorSessionRequested (sw_cursor st) = Inr (v, True)"
    and "\<And>c h c'. cc_Head cl c = (Inr h, c') \<Longrightarrow> unat (hd_Number h) + unat (sw_chunk w) < 2 ^ 64 \<and> unat (hd_Number h) + 1 < fuel"
    and "unat v + unat (sw_chunk w) < 2 ^ 64" "unat v + 1 < fuel"
  shows "\<exists>e st'. session_RunOnce fuel perm cl w st = Some (e, st')"
proof -
  obtain h st1 where h: "ask (\<lambda>_. []) (cc_Head cl) st = (h, st1)" by (meson surj_pair)
  note a1 = ask_adds [OF h]
  show ?thesis
  proof (cases h)
    case (Inl err)
    then show ?thesis using h by (simp add: session_RunOnce_def)
  next
    case (Inr head)
    let ?safe = "safe_head (hd_Number head) (sw_confs w)"
    have "unat ?safe \<le> unat (hd_Number head)" using safe_head_le by (simp add: word_le_nat_alt)
    then have safe: "unat ?safe + unat (sw_chunk w) < 2 ^ 64" "unat ?safe + 1 < fuel"
      using assms(3) ask_eq(1) [OF h] Inr by fastforce+
    obtain flt n st2 where f: "ask (\<lambda>_. []) (cc_fault cl) st1 = ((flt, n), st2)" by (metis surj_pair)
    note a2 = ask_adds [OF f]
    obtain cursor fresh err d where g: "GetOrSeed flt n cursorSessionRequested ?safe (sw_lookback w) (sw_cursor st2) = ((cursor, fresh, err), d)"
      by (metis surj_pair)
    have g': "err = None \<longrightarrow> cursor = v"
      using g assms(2) a1 a2 by (auto simp: GetOrSeed_def cursor_read_def split: if_splits option.splits sum.splits)
    let ?st3 = "st2\<lparr>sw_cursor := d, sw_seeded := (fresh \<or> sw_seeded st2)\<rparr>"
    show ?thesis
    proof (cases err)
      case (Some e)
      then show ?thesis using h Inr f g by (simp add: session_RunOnce_def Let_def)
    next
      case None
      have "reseed_loop fuel cl (sw_chunk w) v lo st4 \<noteq> None" for lo st4
        by (rule reseed_loop_fuel [OF assms(1,4)]) (use assms(5) in simp_all)
      then have "reseed fuel cl w v st4 \<noteq> None" for st4 by (simp add: reseed_def Let_def)
      then have p0: "phase0 fuel cl w v ?st3 \<noteq> None" by (rule phase0_some)
      have dl: "discover_loop fuel cl (sw_chunk w) ?safe lo st4 \<noteq> None" for lo st4
        using discover_loop_fuel [OF assms(1) safe(1), of fuel lo cl st4] safe(2) by auto
      obtain st4 where st4: "phase0 fuel cl w v ?st3 = Some st4" using p0 by blast
      obtain e5 st5 where "(if v < ?safe then discover_loop fuel cl (sw_chunk w) ?safe (v + 1) st4 else Some (None, st4)) = Some (e5, st5)"
        using dl [of "v + 1" st4] by (cases "v < ?safe") auto
      then show ?thesis using h Inr f g None g' st4
        by (cases e5) (simp_all add: session_RunOnce_def Let_def)
    qed
  qed
qed

lemma demo_session_runs: "\<exists>e st'. session_RunOnce 40 id demo_claim demo_watcher demo_session_st = Some (e, st')"
  using session_pass_ends [OF _ demo_session_cursor, of demo_watcher demo_claim 40 id]
  by (auto simp: demo_watcher_def NewSessionWatcher_def demo_claim_def)

text \<open>
  A pass ends, whatever the node answers: when the heads it reports and the stored cursor, plus the
  chunk size, fit in 64 bits, as many iterations of each block loop as one more than the larger of the two numbers are enough.
\<close>

theorem session_pass_terminates:
  assumes "sw_chunk w \<noteq> 0" "cursor_read CurOk cursorSessionRequested (sw_cursor st) = Inr (v, True)"
    and "\<And>c h c'. cc_Head cl c = (Inr h, c') \<Longrightarrow> unat (hd_Number h) + unat (sw_chunk w) < 2 ^ 64 \<and> unat (hd_Number h) + 1 < fuel"
    and "unat v + unat (sw_chunk w) < 2 ^ 64" "unat v + 1 < fuel"
  shows "\<exists>e st'. session_RunOnce fuel perm cl w st = Some (e, st')"
  using assms by (rule session_pass_ends)

theorem session_pass_terminates_witness:
  "\<exists>e st'. session_RunOnce 40 id demo_claim demo_watcher demo_session_st = Some (e, st')"
  using session_pass_terminates [OF _ demo_session_cursor, of demo_watcher demo_claim 40 id]
  by (auto simp: demo_watcher_def NewSessionWatcher_def demo_claim_def)

text \<open>
  A worker never spends gas on a claim it knows it cannot use: directly before every claimSession of
  a pass, that pass read the request as Open, its expiry as not passed, its capability mask as covered
  by the worker's own, the number of running jobs as below the maximum, and the worker as eligible now.
\<close>

theorem session_claims_justified:
  assumes "session_RunOnce fuel perm cl w st = Some (e, st')" "sw_trace st = []"
    and "cursor_read CurOk cursorSessionRequested (sw_cursor st) = Inr (v, True)"
  shows "claims_justified w (sw_trace st')"
proof -
  have "requests_complete cl {}" by (simp add: requests_complete_def)
  from assms(1,3) this show ?thesis
  proof (cases rule: RunOnce_cases)
    case early
    then show ?thesis using assms(2) by (simp add: adds_def)
  next
    case (scan st3 st4 st5 u)
    then show ?thesis using assms(2) eval_loop_keeps [of w cl _ st5] by (auto simp: adds_def)
  qed
qed

theorem session_claims_justified_witness:
  "claims_justified demo_watcher (sw_trace (snd (the (session_RunOnce 40 id demo_claim demo_watcher demo_session_st))))"
proof -
  obtain e st' where r: "session_RunOnce 40 id demo_claim demo_watcher demo_session_st = Some (e, st')"
    using demo_session_runs by auto
  show ?thesis using session_claims_justified [OF r _ demo_session_cursor] r by (simp add: demo_session_st_def)
qed

text \<open>Every sequence of passes of one process ends and composes what its passes keep.\<close>

lemma session_passes_keep:
  assumes "sw_chunk w \<noteq> 0" "requests_complete cl log"
    and heads: "\<And>c h c'. cc_Head cl c = (Inr h, c') \<Longrightarrow> unat (hd_Number h) + unat (sw_chunk w) < 2 ^ 64 \<and> unat (hd_Number h) + 1 < fuel"
    and "cursor_read CurOk cursorSessionRequested (sw_cursor st) = Inr (v, True)"
    and "unat v + unat (sw_chunk w) < 2 ^ 64" "unat v + 1 < fuel"
  shows "\<exists>u st'. session_passes fuel cl w perms st = Some st' \<and> pass_keeps w log v st u st'"
  using assms(4-6)
proof (induction perms arbitrary: v st)
  case Nil
  then show ?case using pass_keeps_refl by (auto intro!: exI)
next
  case (Cons perm perms)
  obtain e st1 where r: "session_RunOnce fuel perm cl w st = Some (e, st1)"
    using session_pass_ends [OF assms(1) Cons.prems(1), of cl fuel perm] heads Cons.prems(2,3) by blast
  obtain u where u: "pass_keeps w log v st u st1" and "u = v \<or> (\<exists>c h c'. cc_Head cl c = (Inr h, c') \<and> u \<le> hd_Number h)"
    by (rule RunOnce_keeps [OF r Cons.prems(1) assms(2)])
  then have b: "unat u + unat (sw_chunk w) < 2 ^ 64" "unat u + 1 < fuel"
    using heads Cons.prems(2,3) by (fastforce simp: word_le_nat_alt)+
  have "cursor_read CurOk cursorSessionRequested (sw_cursor st1) = Inr (u, True)" using u by (simp add: pass_keeps_def)
  from Cons.IH [OF this b] show ?case using r pass_keeps_trans [OF u] by auto
qed

text \<open>
  C13. While a worker process runs, no session request behind its cursor is forgotten. From any stored cursor
  v, any number of ticks ends, failed passes included, when the heads the node reports and v, plus the chunk
  size, fit in 64 bits, and leaves a stored cursor u. Every request of the blocks after v up to u is then in the pending
  set, or some pass of this process read it as no longer Open, expired or beyond the worker's capabilities, or sent a
  claim for it; a request the process tracked before it still tracks. For a process that starts with an empty memory,
  the requests at or before v are what the look-back is for: once it has run through without a failed try, every
  request of the last LookbackBlocks up to v is tracked in the same sense. The log filter's answers are assumed
  complete for the range they were asked for.
\<close>

theorem session_requests_tracked:
  assumes "sw_chunk w \<noteq> 0" "requests_complete cl log"
    and "\<And>c h c'. cc_Head cl c = (Inr h, c') \<Longrightarrow> unat (hd_Number h) + unat (sw_chunk w) < 2 ^ 64 \<and> unat (hd_Number h) + 1 < fuel"
    and "cursor_read CurOk cursorSessionRequested (sw_cursor st) = Inr (v, True)"
    and "unat v + unat (sw_chunk w) < 2 ^ 64" "unat v + 1 < fuel"
  shows "\<exists>u st'. session_passes fuel cl w perms st = Some st' \<and>
    cursor_read CurOk cursorSessionRequested (sw_cursor st') = Inr (u, True) \<and>
    (\<forall>b r. (b, r) \<in> log \<longrightarrow> v < b \<longrightarrow> b \<le> u \<longrightarrow> tracked w st' r) \<and>
    (\<forall>r. tracked w st r \<longrightarrow> tracked w st' r) \<and>
    (\<not> sw_seeded st \<longrightarrow> sw_seeded st' \<longrightarrow> sw_reseedTries st' = sw_reseedTries st \<longrightarrow>
       (\<forall>b r. (b, r) \<in> log \<longrightarrow> in_lookback w v b \<longrightarrow> tracked w st' r))"
  using session_passes_keep [OF assms] by (force simp: pass_keeps_def)

lemma demo_two_passes:
  "map_option (\<lambda>st'. (sw_seeded st', sw_reseedTries st', cursor_read CurOk cursorSessionRequested (sw_cursor st')))
     (session_passes 40 demo_claim demo_watcher [id, rev] demo_session_st) = Some (True, 0, Inr (25, True))"
  by code_simp

theorem session_requests_tracked_witness:
  "\<exists>st'. session_passes 40 demo_claim demo_watcher [id, rev] demo_session_st = Some st' \<and>
    tracked demo_watcher st' 4 \<and> tracked demo_watcher st' 7"
proof -
  have "sw_chunk demo_watcher \<noteq> 0" by (simp add: demo_watcher_def NewSessionWatcher_def)
  from session_requests_tracked [OF this demo_requests _ demo_session_cursor, of 40 "[id, rev]"] demo_two_passes
  show ?thesis by (fastforce simp: demo_watcher_def NewSessionWatcher_def demo_claim_def demo_session_st_def in_lookback_def)
qed

end
