(* ===== verification/Pipeline_Types.thy ===== *)
theory Pipeline_Types
  imports Go_Prelude
begin

unbundle bit_operations_syntax

text \<open>
  What the job pipeline and its callers share: the job payload (internal/pipeline/types.go), byte
  strings and encoding/hex.
\<close>

section \<open>The payload\<close>

record JobPayload =
  jp_JobID :: u64
  jp_SessionID :: u64
  jp_Consumer :: address
  jp_Worker :: address
  jp_ModelID :: string
  jp_PromptBlobHash :: hash
  jp_BlockNumber :: u64
  jp_Timestamp :: int
  jp_CorrelationID :: string
  jp_PriorJobIDs :: "u64 list"

section \<open>Bytes and hex\<close>

definition string_bytes :: "string \<Rightarrow> byte list" where
  "string_bytes = map (\<lambda>c. of_nat (of_char c))"

definition hex_digit :: "nat \<Rightarrow> char" where
  "hex_digit d = (if d < 10 then char_of (48 + d) else char_of (87 + d))"

definition hex_value :: "char \<Rightarrow> nat option" where
  "hex_value c =
     (let n = of_char c :: nat in
      if 48 \<le> n \<and> n \<le> 57 then Some (n - 48)
      else if 97 \<le> n \<and> n \<le> 102 then Some (n - 87)
      else if 65 \<le> n \<and> n \<le> 70 then Some (n - 55)
      else None)"

definition hex_EncodeToString :: "byte list \<Rightarrow> string" where
  "hex_EncodeToString bs = concat (map (\<lambda>b. [hex_digit (unat b div 16), hex_digit (unat b mod 16)]) bs)"

fun hex_DecodeString :: "string \<Rightarrow> byte list option" where
  "hex_DecodeString [] = Some []"
| "hex_DecodeString [c] = None"
| "hex_DecodeString (c # d # cs) =
     (case (hex_value c, hex_value d, hex_DecodeString cs) of
        (Some x, Some y, Some bs) \<Rightarrow> Some (of_nat (16 * x + y) # bs)
      | _ \<Rightarrow> None)"

lemma hex_value_digit: "d < 16 \<Longrightarrow> hex_value (hex_digit d) = Some d"
  by (auto simp: hex_value_def hex_digit_def Let_def of_char_of)

lemma hex_decode_encode [simp]: "hex_DecodeString (hex_EncodeToString bs) = Some bs"
proof (induction bs)
  case Nil
  then show ?case by (simp add: hex_EncodeToString_def)
next
  case (Cons b bs)
  have lt: "unat b < 256" using unsigned_less [where ?'a = nat, of b] by simp
  then have "hex_value (hex_digit (unat b div 16)) = Some (unat b div 16)" "hex_value (hex_digit (unat b mod 16)) = Some (unat b mod 16)"
    by (auto intro!: hex_value_digit)
  moreover have "(of_nat (16 * (unat b div 16) + unat b mod 16) :: byte) = b" by simp
  ultimately show ?case using Cons by (simp add: hex_EncodeToString_def)
qed

lemma hex_encode_empty [simp]: "hex_EncodeToString bs = [] \<longleftrightarrow> bs = []"
  by (cases bs) (simp_all add: hex_EncodeToString_def)

section \<open>Base64\<close>

text \<open>base64.StdEncoding: EncodeToString pads; DecodeString skips carriage returns and newlines and wants the padding.\<close>

definition b64_char :: "nat \<Rightarrow> char" where
  "b64_char n = (if n < 26 then char_of (65 + n) else if n < 52 then char_of (71 + n)
     else if n < 62 then char_of (n - 4) else if n = 62 then CHR ''+'' else CHR ''/'')"

definition b64_value :: "char \<Rightarrow> nat option" where
  "b64_value c =
     (let n = of_char c :: nat in
      if 65 \<le> n \<and> n \<le> 90 then Some (n - 65)
      else if 97 \<le> n \<and> n \<le> 122 then Some (n - 71)
      else if 48 \<le> n \<and> n \<le> 57 then Some (n + 4)
      else if n = 43 then Some 62 else if n = 47 then Some 63 else None)"

fun base64_Encode :: "byte list \<Rightarrow> string" where
  "base64_Encode [] = []"
| "base64_Encode [a] = (let n = unat a * 16 in [b64_char (n div 64), b64_char (n mod 64), CHR ''='', CHR ''=''])"
| "base64_Encode [a, b] =
     (let n = (unat a * 256 + unat b) * 4 in [b64_char (n div 4096), b64_char (n div 64 mod 64), b64_char (n mod 64), CHR ''=''])"
| "base64_Encode (a # b # c # bs) =
     (let n = (unat a * 256 + unat b) * 256 + unat c in
      [b64_char (n div 262144), b64_char (n div 4096 mod 64), b64_char (n div 64 mod 64), b64_char (n mod 64)] @ base64_Encode bs)"

definition b64_quad :: "char \<Rightarrow> char \<Rightarrow> char \<Rightarrow> char \<Rightarrow> byte list option" where
  "b64_quad w x y z =
     (case (b64_value w, b64_value x, b64_value y, b64_value z) of
        (Some a, Some b, Some c, Some d) \<Rightarrow>
          (let n = ((a * 64 + b) * 64 + c) * 64 + d in Some [of_nat (n div 65536), of_nat (n div 256), of_nat n])
      | _ \<Rightarrow> None)"

definition b64_last :: "char \<Rightarrow> char \<Rightarrow> char \<Rightarrow> byte list option" where
  "b64_last w x y =
     (case (b64_value w, b64_value x) of
        (Some a, Some b) \<Rightarrow>
          (if y = CHR ''='' then Some [of_nat ((a * 64 + b) div 16)]
           else case b64_value y of
                  Some c \<Rightarrow> (let n = ((a * 64 + b) * 64 + c) div 4 in Some [of_nat (n div 256), of_nat n])
                | None \<Rightarrow> None)
      | _ \<Rightarrow> None)"

fun base64_groups :: "string \<Rightarrow> byte list option" where
  "base64_groups [] = Some []"
| "base64_groups [w, x, y, z] = (if z = CHR ''='' then b64_last w x y else b64_quad w x y z)"
| "base64_groups (w # x # y # z # cs) =
     (case b64_quad w x y z of None \<Rightarrow> None | Some g \<Rightarrow> map_option (append g) (base64_groups cs))"
| "base64_groups _ = None"

definition base64_Decode :: "string \<Rightarrow> byte list option" where
  "base64_Decode s = base64_groups (filter (\<lambda>c. c \<noteq> CHR 0x0A \<and> c \<noteq> CHR 0x0D) s)"

lemma b64_value_char: "n < 64 \<Longrightarrow> b64_value (b64_char n) = Some n"
  by (auto simp: b64_value_def b64_char_def Let_def)

lemma b64_char_plain: "n < 64 \<Longrightarrow> c \<in> {CHR ''='', CHR 0x0A, CHR 0x0D} \<Longrightarrow> b64_char n \<noteq> c"
  using b64_value_char [of n] by (auto simp: b64_value_def Let_def)

lemma byte_lt: "unat (a :: byte) < 256"
  using unsigned_less [of a, where ?'a = nat] by simp

lemma of_nat_byte: "n mod 256 = unat (a :: byte) \<Longrightarrow> (of_nat n :: byte) = a"
  by (simp add: word_unat_eq_iff unat_of_nat)

lemma base64_regroup: "m div 64 * 64 + m mod 64 = m" "m div 4096 * 64 + m div 64 mod 64 = m div 64"
  "m div 262144 * 64 + m div 4096 mod 64 = m div 4096" for m :: nat
  using div_mult2_eq [of m 64 64] div_mult2_eq [of m 4096 64] by (simp_all only: div_mult_mod_eq) simp_all

lemma base64_bytes:
  assumes "n = (a * 256 + b) * 256 + c" "b < 256" "c < (256::nat)"
  shows "n div 65536 = a" "n div 256 = a * 256 + b" "n mod 256 = c"
proof -
  show d: "n div 256 = a * 256 + b" using assms by simp
  show "n mod 256 = c" unfolding assms(1) using assms(3) by (simp only: mod_mult_self3 mod_less)
  show "n div 65536 = a" using div_mult2_eq [of n 256 256] d(1) assms(2) by simp
qed

lemma b64_quad_enc:
  fixes a b c :: byte
  defines "n \<equiv> (unat a * 256 + unat b) * 256 + unat c"
  shows "b64_quad (b64_char (n div 262144)) (b64_char (n div 4096 mod 64)) (b64_char (n div 64 mod 64)) (b64_char (n mod 64)) = Some [a, b, c]"
proof -
  note n = base64_bytes [OF n_def [THEN meta_eq_to_obj_eq] byte_lt byte_lt]
  have "n div 262144 < 64" using byte_lt [of a] byte_lt [of b] byte_lt [of c] by (simp add: n_def)
  moreover have "n div 256 mod 256 = unat b" unfolding n(2) using byte_lt [of b] by (simp only: mod_mult_self3 mod_less)
  then have "of_nat (n div 256) = b" "of_nat n = c" using n(3) by (simp_all only: of_nat_byte)
  moreover have "of_nat (n div 65536) = a" unfolding n(1) by simp
  ultimately show ?thesis by (simp add: b64_quad_def b64_value_char base64_regroup Let_def)
qed

lemma base64_groups_enc: "base64_groups (base64_Encode bs) = Some bs"
proof (induction bs rule: base64_Encode.induct)
  case (2 a)
  define m where "m = unat a * 16"
  have "m div 64 < 64" "m div 16 = unat a" using byte_lt [of a] by (simp_all add: m_def)
  then show ?case unfolding base64_Encode.simps m_def [symmetric] by (simp add: Let_def b64_last_def b64_value_char base64_regroup)
next
  case (3 a b)
  define k where "k = unat a * 256 + unat b"
  define m where "m = k * 4"
  have m: "m div 4096 < 64" "m div 4 = k" using byte_lt [of a] byte_lt [of b] by (simp_all add: m_def k_def)
  have "k mod 256 = unat b" unfolding k_def using byte_lt [of b] by (simp only: mod_mult_self3 mod_less)
  then have "of_nat k = b" by (rule of_nat_byte)
  moreover have "k div 256 = unat a" using byte_lt [of b] by (simp add: k_def)
  ultimately show ?case unfolding base64_Encode.simps k_def [symmetric] m_def [symmetric]
    using m b64_char_plain [of "m mod 64" "CHR ''=''"] by (simp add: Let_def b64_last_def b64_value_char base64_regroup)
next
  case (4 a b c bs)
  let ?n = "(unat a * 256 + unat b) * 256 + unat c"
  note q = b64_quad_enc [of a b c]
  show ?case
  proof (cases "base64_Encode bs")
    case Nil
    then show ?thesis using q 4 b64_char_plain [of "?n mod 64" "CHR ''=''"] by (simp add: Let_def)
  next
    case (Cons x xs)
    then show ?thesis using q 4 by (simp add: Let_def)
  qed
qed simp

lemma base64_plain: "c \<in> {CHR 0x0A, CHR 0x0D} \<Longrightarrow> c \<notin> set (base64_Encode bs)"
proof (induction bs rule: base64_Encode.induct)
  case (2 a)
  have "c \<noteq> b64_char k" if "k < 64" for k using b64_char_plain [OF that] 2 by blast
  moreover have "unat a * 16 div 64 < 64" using byte_lt [of a] by simp
  ultimately show ?case using 2 by (simp add: Let_def) auto
next
  case (3 a b)
  have "c \<noteq> b64_char k" if "k < 64" for k using b64_char_plain [OF that] 3 by blast
  moreover have "(unat a * 256 + unat b) * 4 div 4096 < 64" using byte_lt [of a] byte_lt [of b] by simp
  ultimately show ?case using 3 by (simp add: Let_def) auto
next
  case (4 a b c' bs)
  have "c \<noteq> b64_char k" if "k < 64" for k using b64_char_plain [OF that] 4(2) by blast
  moreover have "((unat a * 256 + unat b) * 256 + unat c') div 262144 < 64" using byte_lt [of a] byte_lt [of b] byte_lt [of c'] by simp
  ultimately show ?case using 4 by (simp add: Let_def)
qed simp

lemma base64_round_trip [simp]: "base64_Decode (base64_Encode bs) = Some bs"
proof -
  have "filter (\<lambda>c. c \<noteq> CHR 0x0A \<and> c \<noteq> CHR 0x0D) (base64_Encode bs) = base64_Encode bs"
    using base64_plain [of "CHR 0x0A" bs] base64_plain [of "CHR 0x0D" bs] by (intro filter_True) blast
  then show ?thesis by (simp only: base64_Decode_def base64_groups_enc)
qed

end
