(* ===== verification/Job_Watcher.thy ===== *)
theory Job_Watcher
  imports Cursor_Store Chain_Reads Pipeline_Types
begin

unbundle bit_operations_syntax

text \<open>
  Job intake (internal/sortition/job_watcher.go): one pass over the JobSubmitted log from the stored
  cursor, handing this worker's jobs to the pipeline or stopping in front of the first one that has to
  be retried.

  The chain client, the shared job counter, the clock and the I/O faults of the cursor file are one
  environment of state \<open>'c\<close>; the KeyChecker is a predicate. Jobs are served in goroutines whose results are
  only logged: \<open>jw_trace\<close> records, newest first, the payloads handed over and the events given up. A
  missing retry counter reads as 0. The block loop has fuel (\<open>None\<close> is running out).
\<close>

section \<open>State\<close>

record 'c serve_client =
  sv_Head :: "'c \<Rightarrow> (go_error + HeadInfo) \<times> 'c"
  sv_FilterJobSubmitted :: "u64 \<Rightarrow> u64 \<Rightarrow> 'c \<Rightarrow> (go_error + JobSubmittedEvent list) \<times> 'c"
  sv_GetJobBlobInfo :: "u64 \<Rightarrow> 'c \<Rightarrow> (go_error + hash \<times> hash \<times> u64 \<times> u64) \<times> 'c"
  sv_GetSessionInfo :: "u64 \<Rightarrow> 'c \<Rightarrow> (go_error + SessionInfo) \<times> 'c"
  sv_GetSessionEncWorkerKey :: "u64 \<Rightarrow> 'c \<Rightarrow> (go_error + bytes) \<times> 'c"
  sv_CanDecryptSessionKey :: "bytes \<Rightarrow> bool"
  sv_counter :: "'c \<Rightarrow> int \<times> 'c"
  sv_now :: "'c \<Rightarrow> int \<times> 'c"
  sv_fault :: "'c \<Rightarrow> (cur_fault \<times> nat) \<times> 'c"

datatype serve_event =
    Served JobPayload
  | Undecryptable u64
  | GaveUp u64

record JobWatcherOpts =
  jo_Worker :: address
  jo_MaxConcurrent :: int
  jo_ChunkSize :: u64
  jo_Confirmations :: u64
  jo_SessionRetryLimit :: int
  jo_LookbackBlocks :: u64

record JobWatcher =
  jw_worker :: address
  jw_maxJobs :: int
  jw_chunk :: u64
  jw_confs :: u64
  jw_sessionRetryLimit :: int
  jw_lookback :: u64

record 'c job_st =
  jw_env :: 'c
  jw_cursor :: cursor_dir
  jw_notActiveRetries :: "u64 \<Rightarrow> nat"
  jw_trace :: "serve_event list"

definition cursorJobSubmitted :: string where
  "cursorJobSubmitted = ''job_submitted''"

definition NewJobWatcher :: "JobWatcherOpts \<Rightarrow> JobWatcher" where
  "NewJobWatcher o' = \<lparr>jw_worker = jo_Worker o', jw_maxJobs = jo_MaxConcurrent o',
     jw_chunk = (if jo_ChunkSize o' = 0 then 5000 else jo_ChunkSize o'), jw_confs = jo_Confirmations o',
     jw_sessionRetryLimit = (if jo_SessionRetryLimit o' = 0 then 10 else jo_SessionRetryLimit o'),
     jw_lookback = jo_LookbackBlocks o'\<rparr>"

text \<open>hex.EncodeToString of the 32 bytes, most significant first.\<close>

definition modelIDString :: "hash \<Rightarrow> string" where
  "modelIDString h = map (\<lambda>i. hex_digit (unat (drop_bit (4 * i) h AND 15))) (rev [0..<64])"

definition jask :: "('c \<Rightarrow> 'r \<times> 'c) \<Rightarrow> 'c job_st \<Rightarrow> 'r \<times> 'c job_st" where
  "jask f st = (case f (jw_env st) of (r, c) \<Rightarrow> (r, st\<lparr>jw_env := c\<rparr>))"

definition jnote :: "serve_event \<Rightarrow> 'c job_st \<Rightarrow> 'c job_st" where
  "jnote e st = st\<lparr>jw_trace := e # jw_trace st\<rparr>"

definition job_set_cursor :: "'c serve_client \<Rightarrow> u64 \<Rightarrow> 'c job_st \<Rightarrow> go_error option \<times> 'c job_st" where
  "job_set_cursor cl b st =
     (case jask (sv_fault cl) st of
        ((flt, n), st1) \<Rightarrow>
          (case cursor_Set flt n cursorJobSubmitted b (jw_cursor st1) of (e, d) \<Rightarrow> (e, st1\<lparr>jw_cursor := d\<rparr>)))"

definition stopAndRetry :: "'c serve_client \<Rightarrow> JobSubmittedEvent \<Rightarrow> u64 \<Rightarrow> 'c job_st \<Rightarrow> go_error option \<times> 'c job_st" where
  "stopAndRetry cl ev lo st =
     (let stopAt = (if 0 < jb_BlockNumber ev then jb_BlockNumber ev - 1 else lo - 1)
      in job_set_cursor cl stopAt st)"

section \<open>One event\<close>

definition mk_payload :: "JobWatcher \<Rightarrow> JobSubmittedEvent \<Rightarrow> SessionInfo \<Rightarrow> hash \<Rightarrow> u64 \<Rightarrow> int \<Rightarrow> JobPayload" where
  "mk_payload w ev si promptHash submitBlock now =
     \<lparr>jp_JobID = jb_JobID ev, jp_SessionID = jb_SessionID ev, jp_Consumer = si_User si, jp_Worker = jw_worker w,
      jp_ModelID = modelIDString (si_ModelID si), jp_PromptBlobHash = promptHash, jp_BlockNumber = submitBlock,
      jp_Timestamp = now,
      jp_CorrelationID = FormatUint (unat (jb_SessionID ev)) @ ''-'' @ FormatUint (unat (jb_JobID ev)),
      jp_PriorJobIDs = []\<rparr>"

text \<open>The body of the event loop: \<open>None\<close> goes on, \<open>Some err\<close> returns \<open>err\<close> from the pass.\<close>

definition serve_one ::
  "'c serve_client \<Rightarrow> JobWatcher \<Rightarrow> u64 \<Rightarrow> JobSubmittedEvent \<Rightarrow> 'c job_st \<Rightarrow> go_error option option \<times> 'c job_st" where
  "serve_one cl w lo ev st =
     (let stop = (\<lambda>st. case stopAndRetry cl ev lo st of (e, st') \<Rightarrow> (Some e, st')) in
      if jb_Worker ev \<noteq> jw_worker w then (None, st)
      else case jask (sv_counter cl) st of
        (n, st1) \<Rightarrow>
     (if jw_maxJobs w \<le> n then stop st1
      else case jask (sv_GetSessionEncWorkerKey cl (jb_SessionID ev)) st1 of
        (Inl encErr, st2) \<Rightarrow>
          (if errors_Is encErr ErrSessionNotActive
           then (let attempts = Suc (jw_notActiveRetries st2 (jb_JobID ev)) in
                 if int attempts < jw_sessionRetryLimit w
                 then stop (st2\<lparr>jw_notActiveRetries := (jw_notActiveRetries st2)(jb_JobID ev := attempts)\<rparr>)
                 else (None, jnote (GaveUp (jb_JobID ev))
                        (st2\<lparr>jw_notActiveRetries := (jw_notActiveRetries st2)(jb_JobID ev := 0)\<rparr>)))
           else stop st2)
      | (Inr enc, st2) \<Rightarrow>
          (let st3 = st2\<lparr>jw_notActiveRetries := (jw_notActiveRetries st2)(jb_JobID ev := 0)\<rparr> in
           if \<not> sv_CanDecryptSessionKey cl enc then (None, jnote (Undecryptable (jb_JobID ev)) st3)
           else case jask (sv_GetJobBlobInfo cl (jb_JobID ev)) st3 of
             (Inl e, st4) \<Rightarrow> stop st4
           | (Inr (promptHash, _, submitBlock, _), st4) \<Rightarrow>
               (case jask (sv_GetSessionInfo cl (jb_SessionID ev)) st4 of
                  (Inl e, st5) \<Rightarrow> stop st5
                | (Inr si, st5) \<Rightarrow>
                    (case jask (sv_now cl) st5 of
                       (now, st6) \<Rightarrow> (None, jnote (Served (mk_payload w ev si promptHash submitBlock now)) st6))))))"

fun serve_loop ::
  "'c serve_client \<Rightarrow> JobWatcher \<Rightarrow> u64 \<Rightarrow> JobSubmittedEvent list \<Rightarrow> 'c job_st \<Rightarrow> go_error option option \<times> 'c job_st" where
  "serve_loop cl w lo [] st = (None, st)"
| "serve_loop cl w lo (ev # evs) st =
     (case serve_one cl w lo ev st of
        (Some e, st1) \<Rightarrow> (Some e, st1)
      | (None, st1) \<Rightarrow> serve_loop cl w lo evs st1)"

section \<open>The pass\<close>

definition job_range_end :: "u64 \<Rightarrow> u64 \<Rightarrow> u64 \<Rightarrow> u64" where
  "job_range_end chunk safeHead lo = (let hi = lo + chunk - 1 in if safeHead < hi then safeHead else hi)"

fun job_scan :: "nat \<Rightarrow> 'c serve_client \<Rightarrow> JobWatcher \<Rightarrow> u64 \<Rightarrow> u64 \<Rightarrow> 'c job_st \<Rightarrow> (go_error option \<times> 'c job_st) option" where
  "job_scan 0 cl w safeHead lo st = None"
| "job_scan (Suc fuel) cl w safeHead lo st =
     (if safeHead < lo then Some (None, st)
      else let hi = job_range_end (jw_chunk w) safeHead lo in
        case jask (sv_FilterJobSubmitted cl lo hi) st of
          (Inl e, st1) \<Rightarrow> Some (Some e, st1)
        | (Inr evts, st1) \<Rightarrow>
            (case serve_loop cl w lo evts st1 of
               (Some e, st2) \<Rightarrow> Some (e, st2)
             | (None, st2) \<Rightarrow>
                 (case job_set_cursor cl hi st2 of
                    (Some e, st3) \<Rightarrow> Some (Some e, st3)
                  | (None, st3) \<Rightarrow> job_scan fuel cl w safeHead (lo + jw_chunk w) st3)))"

definition job_RunOnce :: "nat \<Rightarrow> 'c serve_client \<Rightarrow> JobWatcher \<Rightarrow> 'c job_st \<Rightarrow> (go_error option \<times> 'c job_st) option" where
  "job_RunOnce fuel cl w st =
     (case jask (sv_Head cl) st of
        (Inl e, st1) \<Rightarrow> Some (Some e, st1)
      | (Inr head, st1) \<Rightarrow>
          (let safeHead = (if jw_confs w < hd_Number head then hd_Number head - jw_confs w else 0) in
           case jask (sv_fault cl) st1 of
             ((flt, n), st2) \<Rightarrow>
               (case GetOrSeed flt n cursorJobSubmitted safeHead (jw_lookback w) (jw_cursor st2) of
                  ((cursor, fresh, Some e), d) \<Rightarrow> Some (Some e, st2\<lparr>jw_cursor := d\<rparr>)
                | ((cursor, fresh, None), d) \<Rightarrow>
                    (let st3 = st2\<lparr>jw_cursor := d\<rparr> in
                     if safeHead \<le> cursor then Some (None, st3)
                     else job_scan fuel cl w safeHead (cursor + 1) st3))))"

section \<open>What one event leaves behind\<close>

fun about_job :: "u64 \<Rightarrow> serve_event \<Rightarrow> bool" where
  "about_job j (Served p) \<longleftrightarrow> jp_JobID p = j"
| "about_job j (Undecryptable i) \<longleftrightarrow> i = j"
| "about_job j (GaveUp i) \<longleftrightarrow> i = j"

definition handled :: "'c job_st \<Rightarrow> u64 \<Rightarrow> bool" where
  "handled st j \<longleftrightarrow> list_ex (about_job j) (jw_trace st)"

definition stored :: "'c job_st \<Rightarrow> go_error + u64 \<times> bool" where
  "stored st = cursor_read CurOk cursorJobSubmitted (jw_cursor st)"

definition later :: "'c job_st \<Rightarrow> 'c job_st \<Rightarrow> bool" where
  "later st st' \<longleftrightarrow> set (jw_trace st) \<subseteq> set (jw_trace st')"

lemma later_refl [simp]: "later st st"
  by (simp add: later_def)

lemma later_trans: "later st st1 \<Longrightarrow> later st1 st2 \<Longrightarrow> later st st2"
  by (auto simp: later_def)

lemma later_handled: "later st st' \<Longrightarrow> handled st j \<Longrightarrow> handled st' j"
  by (auto simp: later_def handled_def list_ex_iff)

lemma jask_eq:
  assumes "jask f st = (x, st1)"
  shows "\<exists>c. f (jw_env st) = (x, c)" "jw_trace st1 = jw_trace st" "stored st1 = stored st"
  using assms by (auto simp: jask_def stored_def split: prod.splits)

lemma jnote_simps [simp]: "jw_trace (jnote e st) = e # jw_trace st" "stored (jnote e st) = stored st"
  by (simp_all add: jnote_def stored_def)

lemma retries_simps [simp]:
  "jw_trace (st\<lparr>jw_notActiveRetries := f\<rparr>) = jw_trace st" "stored (st\<lparr>jw_notActiveRetries := f\<rparr>) = stored st"
  by (simp_all add: stored_def)

lemma job_set_cursor_eq:
  assumes "job_set_cursor cl b st = (e, st')"
  shows "jw_trace st' = jw_trace st \<and> stored st' = (if e = None then Inr (b, True) else stored st)"
proof -
  obtain flt n st1 where x: "jask (sv_fault cl) st = ((flt, n), st1)" by (metis surj_pair)
  note a = jask_eq [OF x]
  obtain d where d: "cursor_Set flt n cursorJobSubmitted b (jw_cursor st1) = (e, d)" "st' = st1\<lparr>jw_cursor := d\<rparr>"
    using assms x by (auto simp: job_set_cursor_def split: prod.splits)
  show ?thesis using a cursor_read_Set [OF d(1), of cursorJobSubmitted] d(2) by (auto simp: stored_def)
qed

text \<open>A stop writes the block before the event.\<close>

definition stopped :: "JobSubmittedEvent \<Rightarrow> 'c job_st \<Rightarrow> go_error option \<Rightarrow> 'c job_st \<Rightarrow> bool" where
  "stopped ev st e st' \<longleftrightarrow> jw_trace st' = jw_trace st \<and>
     stored st' = (if e = None then Inr (jb_BlockNumber ev - 1, True) else stored st)"

lemma stopAndRetry_eq:
  assumes "0 < jb_BlockNumber ev" "jw_trace st1 = jw_trace st" "stored st1 = stored st"
    and "(case stopAndRetry cl ev lo st1 of (e, st') \<Rightarrow> (Some e, st')) = (x, st')"
  shows "\<exists>e. x = Some e \<and> stopped ev st e st'"
proof -
  obtain e st2 where "stopAndRetry cl ev lo st1 = (e, st2)" by (meson surj_pair)
  then show ?thesis using assms job_set_cursor_eq [of cl "jb_BlockNumber ev - 1" st1 e st2]
    by (auto simp: stopAndRetry_def stopped_def)
qed

lemma serve_one_spec:
  assumes "serve_one cl w lo ev st = (x, st')" "0 < jb_BlockNumber ev"
  shows "(x = None \<and> later st st' \<and> stored st' = stored st \<and> (jb_Worker ev = jw_worker w \<longrightarrow> handled st' (jb_JobID ev))) \<or>
         (\<exists>e. x = Some e \<and> stopped ev st e st')"
proof (cases "jb_Worker ev = jw_worker w")
  case False
  then show ?thesis using assms by (simp add: serve_one_def Let_def)
next
  case True
  obtain n st1 where n: "jask (sv_counter cl) st = (n, st1)" by (meson surj_pair)
  note e1 = jask_eq(2,3) [OF n]
  obtain k st2 where k: "jask (sv_GetSessionEncWorkerKey cl (jb_SessionID ev)) st1 = (k, st2)" by (meson surj_pair)
  note e2 = jask_eq(2,3) [OF k]
  note stop = stopAndRetry_eq [OF assms(2)]
  show ?thesis
  proof (cases "jw_maxJobs w \<le> n")
    case True
    then show ?thesis using stop [OF e1] assms(1) n \<open>jb_Worker ev = jw_worker w\<close> by (simp add: serve_one_def Let_def)
  next
    case room: False
    show ?thesis
    proof (cases k)
      case (Inl err)
      let ?a = "Suc (jw_notActiveRetries st2 (jb_JobID ev))"
      let ?st3 = "st2\<lparr>jw_notActiveRetries := (jw_notActiveRetries st2)(jb_JobID ev := ?a)\<rparr>"
      have t: "jw_trace st2 = jw_trace st" "stored st2 = stored st" "jw_trace ?st3 = jw_trace st" "stored ?st3 = stored st"
        using e1 e2 by simp_all
      show ?thesis
        using assms(1) n k Inl room True stop [OF t(1,2)] stop [OF t(3,4)] t
        by (cases "errors_Is err ErrSessionNotActive"; cases "int ?a < jw_sessionRetryLimit w")
          (auto simp: serve_one_def Let_def handled_def later_def)
    next
      case (Inr enc)
      let ?st3 = "st2\<lparr>jw_notActiveRetries := (jw_notActiveRetries st2)(jb_JobID ev := 0)\<rparr>"
      obtain bi st4 where b: "jask (sv_GetJobBlobInfo cl (jb_JobID ev)) ?st3 = (bi, st4)" by (meson surj_pair)
      obtain si st5 where s: "jask (sv_GetSessionInfo cl (jb_SessionID ev)) st4 = (si, st5)" by (meson surj_pair)
      obtain now st6 where t6: "jask (sv_now cl) st5 = (now, st6)" by (meson surj_pair)
      have t: "jw_trace ?st3 = jw_trace st" "stored ?st3 = stored st" using e1 e2 by simp_all
      have u: "jw_trace st4 = jw_trace st" "stored st4 = stored st" using jask_eq(2,3) [OF b] t by simp_all
      have v: "jw_trace st5 = jw_trace st" "stored st5 = stored st" using jask_eq(2,3) [OF s] u by simp_all
      have z: "jw_trace st6 = jw_trace st" "stored st6 = stored st" using jask_eq(2,3) [OF t6] v by simp_all
      show ?thesis
      proof (cases "sv_CanDecryptSessionKey cl enc")
        case False
        then show ?thesis using assms(1) n k Inr room True t
          by (auto simp: serve_one_def Let_def handled_def later_def)
      next
        case dec: True
        show ?thesis
        proof (cases bi)
          case (Inl err)
          then show ?thesis using assms(1) n k Inr room True dec b stop [OF u] by (simp add: serve_one_def Let_def)
        next
          case bi: (Inr q)
          obtain ph rh sb cb where q: "q = (ph, rh, sb, cb)" by (metis prod.exhaust)
          show ?thesis using assms(1) n k Inr room True dec b bi q s t6 stop [OF v] z
            by (cases si) (auto simp: serve_one_def Let_def handled_def later_def mk_payload_def)
        qed
      qed
    qed
  qed
qed

section \<open>Coverage\<close>

text \<open>
  What the node's log filter is relied on for: a successful answer for a block range is in block order,
  holds only events of the range, and holds every JobSubmitted event of it. \<open>log\<close> is the set of (block,
  job) pairs of the events of worker \<open>a\<close>.
\<close>

definition jobs_complete :: "'c serve_client \<Rightarrow> address \<Rightarrow> (u64 \<times> u64) set \<Rightarrow> bool" where
  "jobs_complete cl a log \<longleftrightarrow>
     (\<forall>lo hi c evs c'. sv_FilterJobSubmitted cl lo hi c = (Inr evs, c') \<longrightarrow>
        sorted (map jb_BlockNumber evs) \<and> list_all (\<lambda>ev. lo \<le> jb_BlockNumber ev \<and> jb_BlockNumber ev \<le> hi) evs \<and>
        (\<forall>b j. (b, j) \<in> log \<longrightarrow> lo \<le> b \<longrightarrow> b \<le> hi \<longrightarrow>
           (\<exists>ev\<in>set evs. jb_JobID ev = j \<and> jb_Worker ev = a \<and> jb_BlockNumber ev = b)))"

lemma serve_loop_spec:
  assumes "serve_loop cl w lo evs st = (x, st')" "sorted (map jb_BlockNumber evs)" "list_all (\<lambda>ev. 0 < jb_BlockNumber ev) evs"
  shows "later st st' \<and>
    (case x of
       None \<Rightarrow> stored st' = stored st \<and> (\<forall>ev\<in>set evs. jb_Worker ev = jw_worker w \<longrightarrow> handled st' (jb_JobID ev))
     | Some e \<Rightarrow> \<exists>at\<in>set evs. stored st' = (if e = None then Inr (jb_BlockNumber at - 1, True) else stored st) \<and>
         (\<forall>ev\<in>set evs. jb_Worker ev = jw_worker w \<longrightarrow> jb_BlockNumber ev < jb_BlockNumber at \<longrightarrow> handled st' (jb_JobID ev)))"
  using assms
proof (induction evs arbitrary: st)
  case Nil
  then show ?case by auto
next
  case (Cons ev evs)
  obtain y st1 where y: "serve_one cl w lo ev st = (y, st1)" by (meson surj_pair)
  have pos: "0 < jb_BlockNumber ev" using Cons.prems(3) by simp
  show ?case
  proof (cases y)
    case None
    then have l: "serve_loop cl w lo evs st1 = (x, st')" using Cons.prems(1) y by simp
    have one: "later st st1" "stored st1 = stored st" "jb_Worker ev = jw_worker w \<Longrightarrow> handled st1 (jb_JobID ev)"
      using serve_one_spec [OF y pos] None by auto
    have srt: "sorted (map jb_BlockNumber evs)" "list_all (\<lambda>ev. 0 < jb_BlockNumber ev) evs" using Cons.prems(2,3) by simp_all
    note IH = Cons.IH [OF l srt]
    have first: "jb_Worker ev = jw_worker w \<Longrightarrow> handled st' (jb_JobID ev)" using one(3) IH later_handled by blast
    show ?thesis
    proof (cases x)
      case None
      then show ?thesis using IH one first later_trans by auto
    next
      case (Some e)
      then obtain at where at: "at \<in> set evs" "stored st' = (if e = None then Inr (jb_BlockNumber at - 1, True) else stored st1)"
          "\<forall>ev\<in>set evs. jb_Worker ev = jw_worker w \<longrightarrow> jb_BlockNumber ev < jb_BlockNumber at \<longrightarrow> handled st' (jb_JobID ev)"
        using IH by auto
      then show ?thesis using Some IH one first later_trans [OF one(1)] by (auto intro!: bexI [of _ at])
    qed
  next
    case (Some e)
    then have x: "x = Some e" "st' = st1" using Cons.prems(1) y by simp_all
    have st: "stopped ev st e st'" using serve_one_spec [OF y pos] Some x by auto
    have "\<not> jb_BlockNumber ev' < jb_BlockNumber ev" if "ev' \<in> set (ev # evs)" for ev'
      using Cons.prems(2) that by (auto simp: linorder_not_less)
    then show ?thesis using st x by (auto simp: stopped_def later_def intro!: bexI [of _ ev])
  qed
qed

lemma job_range_cover: "b \<le> safeHead \<Longrightarrow> b < lo + chunk \<Longrightarrow> b \<le> job_range_end chunk safeHead lo"
proof (cases "lo + chunk = 0")
  case False
  assume "b \<le> safeHead" "b < lo + chunk"
  then have "b \<le> lo + chunk - 1" using word_less_pred [of b "lo + chunk"] by fastforce
  then show ?thesis using \<open>b \<le> safeHead\<close> by (simp add: job_range_end_def Let_def)
qed simp

lemma job_range_le: "job_range_end chunk safeHead lo \<le> safeHead"
  by (auto simp: job_range_end_def Let_def)

definition done_upto :: "(u64 \<times> u64) set \<Rightarrow> u64 \<Rightarrow> 'c job_st \<Rightarrow> u64 \<Rightarrow> bool" where
  "done_upto log v st u \<longleftrightarrow> (\<forall>b j. (b, j) \<in> log \<longrightarrow> v < b \<longrightarrow> b \<le> u \<longrightarrow> handled st j)"

lemma done_upto_later: "done_upto log v st u \<Longrightarrow> later st st' \<Longrightarrow> done_upto log v st' u"
  unfolding done_upto_def using later_handled by blast

lemma job_scan_covers:
  assumes "jobs_complete cl (jw_worker w) log"
    and "job_scan fuel cl w safeHead lo st = Some (e, st')"
    and "unat safeHead + unat (jw_chunk w) < 2 ^ 64" "lo \<noteq> 0"
    and "\<forall>b j. (b, j) \<in> log \<longrightarrow> v < b \<longrightarrow> b < lo \<longrightarrow> b \<le> safeHead \<longrightarrow> handled st j"
    and "stored st = Inr (u, True)" "done_upto log v st u"
  shows "later st st' \<and> (\<exists>u'. stored st' = Inr (u', True) \<and> done_upto log v st' u')"
  using assms(2,4-)
proof (induction fuel arbitrary: lo st u)
  case (Suc fuel)
  let ?hi = "job_range_end (jw_chunk w) safeHead lo"
  show ?case
  proof (cases "safeHead < lo")
    case True
    then show ?thesis using Suc.prems by auto
  next
    case False
    obtain x st1 where x: "jask (sv_FilterJobSubmitted cl lo ?hi) st = (x, st1)" by (meson surj_pair)
    note a = jask_eq [OF x]
    have l1: "later st st1" using a by (simp add: later_def)
    show ?thesis
    proof (cases x)
      case (Inl err)
      then have "st' = st1" using Suc.prems(1) x False by (simp add: Let_def)
      then show ?thesis using l1 a(3) Suc.prems(4) done_upto_later [OF Suc.prems(5) l1] by auto
    next
      case (Inr evs)
      have f: "sorted (map jb_BlockNumber evs)" "list_all (\<lambda>ev. lo \<le> jb_BlockNumber ev \<and> jb_BlockNumber ev \<le> ?hi) evs"
          "\<And>b j. (b, j) \<in> log \<Longrightarrow> lo \<le> b \<Longrightarrow> b \<le> ?hi \<Longrightarrow> \<exists>ev\<in>set evs. jb_JobID ev = j \<and> jb_Worker ev = jw_worker w \<and> jb_BlockNumber ev = b"
        using assms(1) a(1) Inr by (auto simp: jobs_complete_def)
      have pos: "list_all (\<lambda>ev. 0 < jb_BlockNumber ev) evs"
        using f(2) Suc.prems(2) by (auto simp: list_all_iff word_gt_0 dest!: bspec)
      obtain y st2 where y: "serve_loop cl w lo evs st1 = (y, st2)" by (meson surj_pair)
      note sl = serve_loop_spec [OF y f(1) pos]
      have l2: "later st st2" using later_trans [OF l1] sl by blast
      have below: "handled st2 j" if "(b, j) \<in> log" "v < b" "b < lo" "b \<le> safeHead" for b j
        using Suc.prems(3) that later_handled [OF l2] by blast
      show ?thesis
      proof (cases y)
        case (Some e2)
        then obtain at where at: "at \<in> set evs" "stored st2 = (if e2 = None then Inr (jb_BlockNumber at - 1, True) else stored st1)"
            "\<And>ev. ev \<in> set evs \<Longrightarrow> jb_Worker ev = jw_worker w \<Longrightarrow> jb_BlockNumber ev < jb_BlockNumber at \<Longrightarrow> handled st2 (jb_JobID ev)"
          using sl by auto
        have atb: "jb_BlockNumber at \<noteq> 0" "jb_BlockNumber at \<le> ?hi" using at(1) pos f(2) by (auto simp: list_all_iff)
        have lt: "b < jb_BlockNumber at" if "b \<le> jb_BlockNumber at - 1" for b
          using that atb(1) by (simp add: word_le_pred_less)
        have "done_upto log v st2 (jb_BlockNumber at - 1)"
          unfolding done_upto_def
        proof (intro allI impI)
          fix b j assume bj: "(b, j) \<in> log" "v < b" "b \<le> jb_BlockNumber at - 1"
          have "b < jb_BlockNumber at" using lt bj by blast
          moreover have "b \<le> ?hi" using calculation atb(2) by simp
          ultimately show "handled st2 j"
            using below [OF bj(1,2)] at(3) f(3) [OF bj(1)] job_range_le [of "jw_chunk w" safeHead lo]
            by (cases "b < lo") (auto simp: linorder_not_less)
        qed
        moreover have "st' = st2" using Suc.prems(1) x False Inr y Some by (simp add: Let_def)
        ultimately show ?thesis using l2 at(2) a(3) Suc.prems(4) done_upto_later [OF Suc.prems(5) l2] by (cases e2) auto
      next
        case None
        have upto: "done_upto log v st2 ?hi"
          unfolding done_upto_def
        proof (intro allI impI)
          fix b j assume "(b, j) \<in> log" "v < b" "b \<le> ?hi"
          then show "handled st2 j"
            using below [of b j] f(3) [of b j] sl None job_range_le [of "jw_chunk w" safeHead lo]
            by (cases "b < lo") (auto simp: linorder_not_less)
        qed
        obtain ce st3 where ce: "job_set_cursor cl ?hi st2 = (ce, st3)" by (meson surj_pair)
        note sc = job_set_cursor_eq [OF ce]
        have l3: "later st2 st3" using sc by (simp add: later_def)
        show ?thesis
        proof (cases ce)
          case (Some e3)
          then have "st' = st3" using Suc.prems(1) x False Inr y None ce by (simp add: Let_def)
          then show ?thesis using later_trans [OF l2 l3] sc Some sl None a(3) Suc.prems(4)
              done_upto_later [OF Suc.prems(5) later_trans [OF l2 l3]] by auto
        next
          case ceN: None
          then have r: "job_scan fuel cl w safeHead (lo + jw_chunk w) st3 = Some (e, st')"
            using Suc.prems(1) x False Inr y None ce by (simp add: Let_def)
          have "unat (lo + jw_chunk w) = unat lo + unat (jw_chunk w)"
            using assms(3) False unat_add_lem [of lo "jw_chunk w"] by (simp add: word_le_nat_alt linorder_not_less)
          then have nz: "lo + jw_chunk w \<noteq> 0" using Suc.prems(2) by (metis add_is_0 unat_0 unat_eq_zero)
          have inv: "\<forall>b j. (b, j) \<in> log \<longrightarrow> v < b \<longrightarrow> b < lo + jw_chunk w \<longrightarrow> b \<le> safeHead \<longrightarrow> handled st3 j"
            using done_upto_later [OF upto l3] job_range_cover unfolding done_upto_def by blast
          show ?thesis using Suc.IH [OF r nz inv, of ?hi] sc ceN done_upto_later [OF upto l3] later_trans [OF later_trans [OF l2 l3]]
            by auto
        qed
      qed
    qed
  qed
qed simp

lemma job_scan_fuel:
  assumes "jw_chunk w \<noteq> 0" "unat safeHead + unat (jw_chunk w) < 2 ^ 64" "unat safeHead + 1 < fuel + unat lo" "0 < fuel"
  shows "job_scan fuel cl w safeHead lo st \<noteq> None"
  using assms(3,4)
proof (induction fuel arbitrary: lo st)
  case (Suc fuel)
  have pos: "0 < unat (jw_chunk w)" using assms(1) by (simp add: unat_gt_0)
  show ?case
  proof (cases "safeHead < lo")
    case False
    let ?hi = "job_range_end (jw_chunk w) safeHead lo"
    have u: "unat (lo + jw_chunk w) = unat lo + unat (jw_chunk w)" "unat lo \<le> unat safeHead"
      using False add_chunk [of lo safeHead "jw_chunk w"] assms(2) by (simp_all add: word_le_nat_alt linorder_not_less)
    obtain x st1 where "jask (sv_FilterJobSubmitted cl lo ?hi) st = (x, st1)" by (meson surj_pair)
    moreover have "job_scan fuel cl w safeHead (lo + jw_chunk w) st2 \<noteq> None" for st2
      using Suc.IH [of "lo + jw_chunk w" st2] Suc.prems u pos by (cases fuel) auto
    ultimately show ?thesis using False by (cases x) (auto simp: Let_def split: prod.splits option.splits)
  qed simp
qed simp

section \<open>Properties\<close>

lemma job_seed_known:
  assumes "stored st = Inr (v, True)" "GetOrSeed flt n cursorJobSubmitted safe look (jw_cursor st) = ((cursor, fresh, err), d)"
  shows "d = jw_cursor st \<and> (err = None \<longrightarrow> cursor = v)"
  using assms by (auto simp: stored_def GetOrSeed_def cursor_read_def split: if_splits option.splits sum.splits)

lemma job_pass:
  assumes "jobs_complete cl (jw_worker w) log" "jw_chunk w \<noteq> 0" "stored st = Inr (v, True)"
    and "\<And>c h c'. sv_Head cl c = (Inr h, c') \<Longrightarrow> unat (hd_Number h) + unat (jw_chunk w) < 2 ^ 64 \<and> unat (hd_Number h) + 1 < fuel"
  shows "\<exists>e st' u. job_RunOnce fuel cl w st = Some (e, st') \<and> later st st' \<and> stored st' = Inr (u, True) \<and> done_upto log v st' u"
proof -
  have dv: "done_upto log v st2 v" for st2 :: "'a job_st" by (auto simp: done_upto_def)
  obtain h st1 where h: "jask (sv_Head cl) st = (h, st1)" by (meson surj_pair)
  note a1 = jask_eq [OF h]
  show ?thesis
  proof (cases h)
    case (Inl err)
    then show ?thesis using h a1 assms(3) dv by (simp add: job_RunOnce_def later_def)
  next
    case (Inr head)
    let ?safe = "if jw_confs w < hd_Number head then hd_Number head - jw_confs w else 0"
    have "unat ?safe \<le> unat (hd_Number head)" by (simp add: unat_sub)
    then have safe: "unat ?safe + unat (jw_chunk w) < 2 ^ 64" "unat ?safe + 1 < fuel"
      using assms(4) a1(1) Inr by fastforce+
    obtain flt n st2 where f: "jask (sv_fault cl) st1 = ((flt, n), st2)" by (metis surj_pair)
    note a2 = jask_eq [OF f]
    have s2: "stored st2 = Inr (v, True)" using a1 a2 assms(3) by simp
    obtain cursor fresh err d where g: "GetOrSeed flt n cursorJobSubmitted ?safe (jw_lookback w) (jw_cursor st2) = ((cursor, fresh, err), d)"
      by (metis surj_pair)
    let ?st3 = "st2\<lparr>jw_cursor := d\<rparr>"
    note g' = job_seed_known [OF s2 g]
    have l3: "later st ?st3" "stored ?st3 = Inr (v, True)" using a1 a2 g' s2 by (simp_all add: later_def stored_def)
    note run = job_RunOnce_def [of fuel cl w st, unfolded h Inr sum.case prod.case Let_def f g]
    show ?thesis
    proof (cases "err = None \<and> cursor < ?safe")
      case False
      then have "\<exists>e. job_RunOnce fuel cl w st = Some (e, ?st3)" using run by (cases err) (auto simp: linorder_not_less)
      then show ?thesis using l3 dv by blast
    next
      case True
      then have v: "err = None" "cursor = v" "v < ?safe" using g' by auto
      then have nz: "v + 1 \<noteq> 0" using word_succ_nonzero by blast
      have vac: "\<forall>b j. (b, j) \<in> log \<longrightarrow> v < b \<longrightarrow> b < v + 1 \<longrightarrow> b \<le> ?safe \<longrightarrow> handled ?st3 j"
        using word_less_pred [of _ "v + 1"] by (metis add_diff_cancel order_less_asym less_irrefl)
      obtain e st' where r: "job_scan fuel cl w ?safe (v + 1) ?st3 = Some (e, st')"
        using job_scan_fuel [OF assms(2) safe(1), of fuel "v + 1" cl ?st3] safe(2) by auto
      have "job_RunOnce fuel cl w st = Some (e, st')" using run v r by auto
      then show ?thesis using job_scan_covers [OF assms(1) r safe(1) nz vac l3(2) dv] later_trans [OF l3(1)] by blast
    qed
  qed
qed

text \<open>A client whose block 20 holds three jobs of worker 9: job 7 in session 1, whose key is there, and
  jobs 8 and 9 in session 2, which is not active.\<close>

definition demo_job :: "u64 \<Rightarrow> u64 \<Rightarrow> JobSubmittedEvent" where
  "demo_job j s = \<lparr>jb_JobID = j, jb_SessionID = s, jb_Worker = 9, jb_BlockNumber = 20\<rparr>"

definition demo_serve :: "JobSubmittedEvent list \<Rightarrow> unit serve_client" where
  "demo_serve evs = \<lparr>sv_Head = \<lambda>c. (Inr \<lparr>hd_Number = 30, hd_Timestamp = 0\<rparr>, c),
     sv_FilterJobSubmitted = \<lambda>lo hi c. (Inr (if lo \<le> 20 \<and> 20 \<le> hi then evs else []), c),
     sv_GetJobBlobInfo = \<lambda>j c. (Inr (5, 0, 20, 0), c),
     sv_GetSessionInfo = \<lambda>s c. (Inr \<lparr>si_User = 3, si_ModelID = 1, si_Worker = 9, si_Status = 1\<rparr>, c),
     sv_GetSessionEncWorkerKey = \<lambda>s c. (if s = 1 then Inr [1] else Inl (sessionNotActiveErr s 3), c),
     sv_CanDecryptSessionKey = \<lambda>k. k \<noteq> [], sv_counter = \<lambda>c. (0, c), sv_now = \<lambda>c. (1000, c),
     sv_fault = \<lambda>c. ((CurOk, 0), c)\<rparr>"

definition demo_job_watcher :: JobWatcher where
  "demo_job_watcher = NewJobWatcher \<lparr>jo_Worker = 9, jo_MaxConcurrent = 2, jo_ChunkSize = 8, jo_Confirmations = 5,
     jo_SessionRetryLimit = 3, jo_LookbackBlocks = 4\<rparr>"

definition demo_job_st :: "unit job_st" where
  "demo_job_st = \<lparr>jw_env = (), jw_cursor = \<lparr>cd_dir = ''d'', cd_files = [''d/cursor-job_submitted.txt'' \<mapsto> ''12'']\<rparr>,
     jw_notActiveRetries = \<lambda>_. 0, jw_trace = []\<rparr>"

lemma demo_job_cursor: "stored demo_job_st = Inr (12, True)"
  by (simp add: stored_def cursor_read_def demo_job_st_def cursor_path_def cursorJobSubmitted_def ParseUint_def TrimSpace_def
      is_space_def digit_val_def Let_def)

lemma demo_jobs: "jobs_complete (demo_serve [demo_job 7 1, demo_job 8 2, demo_job 9 2]) 9 {(20, 7), (20, 8), (20, 9)}"
  by (auto simp: jobs_complete_def demo_serve_def demo_job_def split: if_splits)

lemma handled_event:
  assumes "handled st j"
  shows "\<exists>ev\<in>set (jw_trace st). ev = GaveUp j \<or> ev = Undecryptable j \<or> (\<exists>p. ev = Served p \<and> jp_JobID p = j)"
proof -
  obtain ev where ev: "ev \<in> set (jw_trace st)" "about_job j ev" using assms by (auto simp: handled_def list_ex_iff)
  show ?thesis by (rule bexI [OF _ ev(1)]) (use ev(2) in \<open>cases ev; simp\<close>)
qed

text \<open>
  C7. Intake loses no job and always ends: from a stored cursor at v, whatever the node answers, a pass
  whose heads and chunk size fit in 64 bits returns, its trace only grows, and if it leaves the cursor
  at u then every job of this worker emitted in the blocks after v up to u has been handed to the
  pipeline, was found undecryptable, or was given up. So every stop (at capacity, on an RPC error, on a
  session that is not active) leaves its job in front of the cursor.
\<close>

theorem job_pass_covers:
  assumes "jobs_complete cl (jw_worker w) log" "jw_chunk w \<noteq> 0" "stored st = Inr (v, True)"
    and "\<And>c h c'. sv_Head cl c = (Inr h, c') \<Longrightarrow> unat (hd_Number h) + unat (jw_chunk w) < 2 ^ 64 \<and> unat (hd_Number h) + 1 < fuel"
  shows "\<exists>e st' u. job_RunOnce fuel cl w st = Some (e, st') \<and> set (jw_trace st) \<subseteq> set (jw_trace st') \<and>
    cursor_read CurOk cursorJobSubmitted (jw_cursor st') = Inr (u, True) \<and>
    (\<forall>b j. (b, j) \<in> log \<longrightarrow> v < b \<longrightarrow> b \<le> u \<longrightarrow>
       (\<exists>ev\<in>set (jw_trace st'). ev = GaveUp j \<or> ev = Undecryptable j \<or> (\<exists>p. ev = Served p \<and> jp_JobID p = j)))"
proof -
  obtain e st' u where r: "job_RunOnce fuel cl w st = Some (e, st')" "later st st'" "stored st' = Inr (u, True)" "done_upto log v st' u"
    using job_pass [OF assms(1-3), of fuel] assms(4) by blast
  have "\<exists>ev\<in>set (jw_trace st'). ev = GaveUp j \<or> ev = Undecryptable j \<or> (\<exists>p. ev = Served p \<and> jp_JobID p = j)"
    if "(b, j) \<in> log" "v < b" "b \<le> u" for b j
    using r(4) that handled_event [of st' j] unfolding done_upto_def by blast
  moreover have "set (jw_trace st) \<subseteq> set (jw_trace st')" "cursor_read CurOk cursorJobSubmitted (jw_cursor st') = Inr (u, True)"
    using r(2,3) by (simp_all add: later_def stored_def)
  ultimately show ?thesis using r(1) by blast
qed

theorem job_pass_covers_witness:
  "\<exists>e st' u. job_RunOnce 40 (demo_serve [demo_job 7 1, demo_job 8 2, demo_job 9 2]) demo_job_watcher demo_job_st = Some (e, st') \<and>
     cursor_read CurOk cursorJobSubmitted (jw_cursor st') = Inr (u, True)"
  using job_pass_covers [of "demo_serve [demo_job 7 1, demo_job 8 2, demo_job 9 2]" demo_job_watcher "{(20, 7), (20, 8), (20, 9)}" demo_job_st 12 40]
    demo_jobs demo_job_cursor
  by (auto simp: demo_job_watcher_def NewJobWatcher_def demo_serve_def)

section \<open>Two inactive sessions in one block\<close>

definition always_inactive :: "'c serve_client \<Rightarrow> JobWatcher \<Rightarrow> u64 \<Rightarrow> bool" where
  "always_inactive cl w s \<longleftrightarrow> (\<forall>c. fst (sv_counter cl c) < jw_maxJobs w) \<and>
     (\<forall>c. \<exists>e. fst (sv_GetSessionEncWorkerKey cl s c) = Inl e \<and> errors_Is e ErrSessionNotActive)"

lemma jask_retries: "jask f st = (x, st1) \<Longrightarrow> jw_notActiveRetries st1 = jw_notActiveRetries st"
  by (auto simp: jask_def split: prod.splits)

lemma job_set_cursor_retries: "job_set_cursor cl b st = (e, st') \<Longrightarrow> jw_notActiveRetries st' = jw_notActiveRetries st"
  by (auto simp: job_set_cursor_def jask_def split: prod.splits)

lemma serve_inactive:
  assumes "always_inactive cl w (jb_SessionID ev)" "jb_Worker ev = jw_worker w" "serve_one cl w lo ev st = (x, st')"
  shows "(if int (Suc (jw_notActiveRetries st (jb_JobID ev))) < jw_sessionRetryLimit w
          then x \<noteq> None \<and> jw_notActiveRetries st' = (jw_notActiveRetries st)(jb_JobID ev := Suc (jw_notActiveRetries st (jb_JobID ev)))
          else x = None \<and> jw_notActiveRetries st' = (jw_notActiveRetries st)(jb_JobID ev := 0))"
proof -
  obtain n st1 where n: "jask (sv_counter cl) st = (n, st1)" by (meson surj_pair)
  obtain k st2 where k: "jask (sv_GetSessionEncWorkerKey cl (jb_SessionID ev)) st1 = (k, st2)" by (meson surj_pair)
  have lt: "n < jw_maxJobs w" using jask_eq(1) [OF n] assms(1) by (auto simp: always_inactive_def dest: spec [of _ "jw_env st"])
  obtain e where e: "k = Inl e" "errors_Is e ErrSessionNotActive"
    using jask_eq(1) [OF k] assms(1) unfolding always_inactive_def by (metis fst_conv)
  have r: "jw_notActiveRetries st2 = jw_notActiveRetries st" using jask_retries [OF n] jask_retries [OF k] by simp
  let ?a = "Suc (jw_notActiveRetries st (jb_JobID ev))"
  let ?st3 = "st2\<lparr>jw_notActiveRetries := (jw_notActiveRetries st)(jb_JobID ev := ?a)\<rparr>"
  obtain se st4 where s: "stopAndRetry cl ev lo ?st3 = (se, st4)" by (meson surj_pair)
  have "jw_notActiveRetries st4 = jw_notActiveRetries ?st3"
    by (rule job_set_cursor_retries [OF s [unfolded stopAndRetry_def Let_def]])
  then show ?thesis using assms(2,3) n k lt e r s
    by (cases "int ?a < jw_sessionRetryLimit w") (auto simp: serve_one_def Let_def jnote_def)
qed

definition counts :: "u64 \<Rightarrow> u64 \<Rightarrow> nat \<Rightarrow> nat \<Rightarrow> 'c job_st \<Rightarrow> bool" where
  "counts a b i k st \<longleftrightarrow> jw_notActiveRetries st a = i \<and> jw_notActiveRetries st b = k"

lemma serve_two_inactive:
  assumes "always_inactive cl w (jb_SessionID ea)" "jb_Worker ea = jw_worker w"
    and "always_inactive cl w (jb_SessionID eb)" "jb_Worker eb = jw_worker w" "jb_JobID ea \<noteq> jb_JobID eb"
    and "counts (jb_JobID ea) (jb_JobID eb) i k st" "jw_sessionRetryLimit w = int L"
    and "serve_loop cl w lo [ea, eb] st = (x, st')"
  shows "Suc i < L \<Longrightarrow> x \<noteq> None \<and> counts (jb_JobID ea) (jb_JobID eb) (Suc i) k st'"
    and "\<not> Suc i < L \<Longrightarrow> Suc k < L \<Longrightarrow> x \<noteq> None \<and> counts (jb_JobID ea) (jb_JobID eb) 0 (Suc k) st'"
proof -
  obtain y st1 where y: "serve_one cl w lo ea st = (y, st1)" by (meson surj_pair)
  obtain z st2 where z: "serve_one cl w lo eb st1 = (z, st2)" by (meson surj_pair)
  note s1 = serve_inactive [OF assms(1,2) y] and s2 = serve_inactive [OF assms(3,4) z]
  show "Suc i < L \<Longrightarrow> x \<noteq> None \<and> counts (jb_JobID ea) (jb_JobID eb) (Suc i) k st'"
    using s1 assms(5-8) y by (auto simp: counts_def)
  show "\<not> Suc i < L \<Longrightarrow> Suc k < L \<Longrightarrow> x \<noteq> None \<and> counts (jb_JobID ea) (jb_JobID eb) 0 (Suc k) st'"
    using s1 s2 assms(5-8) y z by (auto simp: counts_def)
qed

text \<open>
  Two jobs of one block whose sessions never return to Active hold the watcher in front of that
  block for the square of SessionRetryLimit passes: giving up on the first clears its counter, the stop
  on the second rescans the block, and the first starts counting again.
\<close>

theorem same_block_retries_multiply:
  assumes "always_inactive cl w (jb_SessionID ea)" "jb_Worker ea = jw_worker w"
    and "always_inactive cl w (jb_SessionID eb)" "jb_Worker eb = jw_worker w" "jb_JobID ea \<noteq> jb_JobID eb"
    and "jw_notActiveRetries st = (\<lambda>_. 0)" "jw_sessionRetryLimit w = int L" "n + 1 < L * L"
  shows "fst (serve_loop cl w lo [ea, eb] (((\<lambda>s. snd (serve_loop cl w lo [ea, eb] s)) ^^ n) st)) \<noteq> None"
proof -
  let ?f = "\<lambda>s. snd (serve_loop cl w lo [ea, eb] s)"
  note two = serve_two_inactive [OF assms(1-5) _ assms(7) prod.collapse [symmetric]]
  have div: "m mod L = L - 1 \<Longrightarrow> Suc m div L = Suc (m div L) \<and> Suc m mod L = 0"
    and mod: "m mod L \<noteq> L - 1 \<Longrightarrow> Suc m div L = m div L \<and> Suc m mod L = Suc (m mod L)" for m
    using assms(8) by (cases L; simp add: div_Suc mod_Suc)+
  have lim: "m div L < L" "m + 1 < L * L \<Longrightarrow> m mod L = L - 1 \<Longrightarrow> Suc (m div L) < L" if "m < L * L" for m
    using that div [of m] by (auto simp: less_mult_imp_div_less)
  have c: "m < L * L \<Longrightarrow> counts (jb_JobID ea) (jb_JobID eb) (m mod L) (m div L) ((?f ^^ m) st)" for m
  proof (induction m)
    case 0
    then show ?case using assms(6) by (simp add: counts_def)
  next
    case (Suc m)
    then have IH: "counts (jb_JobID ea) (jb_JobID eb) (m mod L) (m div L) ((?f ^^ m) st)" by simp
    have "m mod L < L" using Suc.prems by (cases L) auto
    then show ?case using two(1) [OF IH] two(2) [OF IH] lim(2) [of m] Suc.prems div [of m] mod [of m]
      by (cases "m mod L = L - 1") auto
  qed
  have n: "n < L * L" "n mod L < L" using assms(8) by (cases L; simp)+
  show ?thesis using two(1) [OF c [OF n(1)]] two(2) [OF c [OF n(1)]] lim(2) [OF n(1)] n assms(8)
    by (cases "n mod L = L - 1") auto
qed

theorem same_block_retries_multiply_witness:
  "fst (serve_loop (demo_serve []) demo_job_watcher 13 [demo_job 8 2, demo_job 9 2]
     (((\<lambda>s. snd (serve_loop (demo_serve []) demo_job_watcher 13 [demo_job 8 2, demo_job 9 2] s)) ^^ 7) demo_job_st)) \<noteq> None"
proof (rule same_block_retries_multiply)
  show "always_inactive (demo_serve []) demo_job_watcher (jb_SessionID (demo_job 8 2))"
    by (auto simp: always_inactive_def demo_serve_def demo_job_watcher_def NewJobWatcher_def demo_job_def
        sessionNotActiveErr_def wrapf_def sentinel_err_def errors_Is_def)
  then show "always_inactive (demo_serve []) demo_job_watcher (jb_SessionID (demo_job 9 2))" by (simp add: demo_job_def)
  show "jw_sessionRetryLimit demo_job_watcher = int 3" by (simp add: demo_job_watcher_def NewJobWatcher_def)
qed (simp_all add: demo_job_def demo_job_watcher_def NewJobWatcher_def demo_job_st_def)

end
