(* ===== verification/Job_Monad.thy ===== *)
theory Job_Monad
  imports Go_Prelude "HOL-Library.State_Monad"
begin

text \<open>
  The style of the pipeline theories: a Go function that calls out is a program of the library's state
  monad, a function that can fail returns \<open>go_error + 'a\<close>, and \<open>attempt\<close> is the
  \<open>if err != nil { return err }\<close> that follows a call.

  \<open>wp\<close> is the weakest precondition of a program. Its rules are equations, collected in \<open>wp_simps\<close>, so the
  simplifier turns a goal about a program into one about the primitive calls it makes.
\<close>

named_theorems wp_simps "weakest preconditions of the program constructs"

type_synonym ('s, 'a) prog = "('s, 'a) state"

abbreviation ret :: "'a \<Rightarrow> ('s, 'a) prog" where
  "ret \<equiv> State_Monad.return"

definition attempt :: "('s, go_error + 'a) prog \<Rightarrow> ('a \<Rightarrow> ('s, go_error + 'b) prog) \<Rightarrow> ('s, go_error + 'b) prog" where
  "attempt m f = do { r \<leftarrow> m; case r of Inl e \<Rightarrow> ret (Inl e) | Inr x \<Rightarrow> f x }"

text \<open>The same for a call that returns only an error.\<close>

definition check :: "('s, go_error option) prog \<Rightarrow> ('s, go_error + 'b) prog \<Rightarrow> ('s, go_error + 'b) prog" where
  "check m n = do { r \<leftarrow> m; case r of Some e \<Rightarrow> ret (Inl e) | None \<Rightarrow> n }"

definition map_err :: "(go_error \<Rightarrow> go_error) \<Rightarrow> ('s, go_error + 'a) prog \<Rightarrow> ('s, go_error + 'a) prog" where
  "map_err f m = do { r \<leftarrow> m; ret (case r of Inl e \<Rightarrow> Inl (f e) | Inr x \<Rightarrow> Inr x) }"

section \<open>Weakest preconditions\<close>

definition wp :: "('s, 'a) prog \<Rightarrow> ('a \<Rightarrow> 's \<Rightarrow> bool) \<Rightarrow> 's \<Rightarrow> bool" where
  "wp m Q s \<longleftrightarrow> (case run_state m s of (x, s') \<Rightarrow> Q x s')"

lemma wp_run: "wp m Q s \<Longrightarrow> run_state m s = (x, s') \<Longrightarrow> Q x s'"
  by (simp add: wp_def)

lemma wp_runI: "(\<And>x s'. run_state m s = (x, s') \<Longrightarrow> Q x s') \<Longrightarrow> wp m Q s"
  by (simp add: wp_def split: prod.splits)

lemma wp_ret [wp_simps]: "wp (ret x) Q = Q x"
  by (auto simp: wp_def fun_eq_iff)

lemma wp_bind [wp_simps]: "wp (State_Monad.bind m f) Q = wp m (\<lambda>x. wp (f x) Q)"
  by (simp add: wp_def fun_eq_iff split: prod.splits)

lemma wp_if [wp_simps]: "wp (if b then m else n) Q = (if b then wp m Q else wp n Q)"
  by simp

lemma wp_case_option [wp_simps]:
  "wp (case_option m f x) Q = (case x of None \<Rightarrow> wp m Q | Some y \<Rightarrow> wp (f y) Q)"
  by (simp split: option.splits)

lemma wp_case_sum [wp_simps]:
  "wp (case_sum f g x) Q = (case x of Inl y \<Rightarrow> wp (f y) Q | Inr y \<Rightarrow> wp (g y) Q)"
  by (simp split: sum.splits)

lemma wp_case_prod [wp_simps]: "wp (case_prod f x) Q = (case x of (a, b) \<Rightarrow> wp (f a b) Q)"
  by (simp split: prod.splits)

lemma wp_attempt [wp_simps]:
  "wp (attempt m f) Q = wp m (\<lambda>r. case r of Inl e \<Rightarrow> Q (Inl e) | Inr x \<Rightarrow> wp (f x) Q)"
  by (simp add: attempt_def wp_simps cong: sum.case_cong)

lemma wp_check [wp_simps]:
  "wp (check m n) Q = wp m (\<lambda>r. case r of Some e \<Rightarrow> Q (Inl e) | None \<Rightarrow> wp n Q)"
  by (simp add: check_def wp_simps cong: option.case_cong)

lemma wp_map_err [wp_simps]:
  "wp (map_err g m) Q = wp m (\<lambda>r. Q (case r of Inl e \<Rightarrow> Inl (g e) | Inr x \<Rightarrow> Inr x))"
  by (simp add: map_err_def wp_simps)

lemma wp_mono: "wp m Q s \<Longrightarrow> (\<And>x s'. Q x s' \<Longrightarrow> R x s') \<Longrightarrow> wp m R s"
  by (auto simp: wp_def split: prod.splits)

lemma wp_conj: "wp m Q s \<Longrightarrow> wp m R s \<Longrightarrow> wp m (\<lambda>x s'. Q x s' \<and> R x s') s"
  by (auto simp: wp_def split: prod.splits)

section \<open>Invariants\<close>

definition keeps :: "('s \<Rightarrow> bool) \<Rightarrow> ('s, 'a) prog \<Rightarrow> bool" where
  "keeps I m \<longleftrightarrow> (\<forall>s. I s \<longrightarrow> wp m (\<lambda>_. I) s)"

lemma keepsI: "(\<And>s. I s \<Longrightarrow> wp m (\<lambda>_. I) s) \<Longrightarrow> keeps I m"
  by (simp add: keeps_def)

lemma keepsD: "keeps I m \<Longrightarrow> I s \<Longrightarrow> wp m (\<lambda>_. I) s"
  by (simp add: keeps_def)

lemma keeps_ret [intro!]: "keeps I (ret x)"
  by (simp add: keeps_def wp_simps)

lemma keeps_bind [intro!]: "keeps I m \<Longrightarrow> (\<And>x. keeps I (f x)) \<Longrightarrow> keeps I (State_Monad.bind m f)"
  unfolding keeps_def wp_bind by (blast intro: wp_mono)

lemma keeps_if [intro!]: "(b \<Longrightarrow> keeps I m) \<Longrightarrow> (\<not> b \<Longrightarrow> keeps I n) \<Longrightarrow> keeps I (if b then m else n)"
  by simp

lemma keeps_case_option [intro!]:
  "(x = None \<Longrightarrow> keeps I m) \<Longrightarrow> (\<And>y. x = Some y \<Longrightarrow> keeps I (f y)) \<Longrightarrow> keeps I (case x of None \<Rightarrow> m | Some y \<Rightarrow> f y)"
  by (cases x) simp_all

lemma keeps_case_sum [intro!]:
  "(\<And>y. x = Inl y \<Longrightarrow> keeps I (f y)) \<Longrightarrow> (\<And>y. x = Inr y \<Longrightarrow> keeps I (g y)) \<Longrightarrow> keeps I (case x of Inl y \<Rightarrow> f y | Inr y \<Rightarrow> g y)"
  by (cases x) simp_all

lemma keeps_case_prod [intro!]: "(\<And>a b. x = (a, b) \<Longrightarrow> keeps I (f a b)) \<Longrightarrow> keeps I (case x of (a, b) \<Rightarrow> f a b)"
  by (cases x) simp

lemma keeps_attempt [intro!]: "keeps I m \<Longrightarrow> (\<And>x. keeps I (f x)) \<Longrightarrow> keeps I (attempt m f)"
  unfolding attempt_def by (intro keeps_bind keeps_case_sum keeps_ret)

lemma keeps_check [intro!]: "keeps I m \<Longrightarrow> keeps I n \<Longrightarrow> keeps I (check m n)"
  unfolding check_def by (intro keeps_bind keeps_case_option keeps_ret)

lemma keeps_map_err [intro!]: "keeps I m \<Longrightarrow> keeps I (map_err g m)"
  unfolding map_err_def by (intro keeps_bind keeps_ret)

lemma wp_keeps: "keeps I m \<Longrightarrow> I s \<Longrightarrow> (\<And>x s'. I s' \<Longrightarrow> Q x s') \<Longrightarrow> wp m Q s"
  by (rule wp_mono [OF keepsD])

end
