(* ===== verification/Deadline_Guard.thy ===== *)
theory Deadline_Guard
  imports Job_Monad
begin

text \<open>
  The per-job on-chain deadline guard (internal/pipeline/deadline.go, and voiceBudgetOK of voice.go).

  A guard is an optional record (\<open>None\<close> is Go's nil guard); it reads the chain and the clock through
  \<open>deadline_client\<close>. Deadlines are unix seconds, the clock is in nanoseconds; \<open>time.Until\<close> saturates at
  the range of a Duration. gateInference returns the deadline it puts on the inference context, if any.
\<close>

section \<open>The guard\<close>

record 's deadline_client =
  dl_GetJobDeadline :: "u64 \<Rightarrow> ('s, go_error + int \<times> bool) prog"
  dl_now :: "('s, int) prog"

record deadlineGuard =
  g_jobID :: u64
  g_settleReserve :: int
  g_completionReserve :: int
  g_minInferenceBudget :: int

definition defaultSettleReserve :: int where
  "defaultSettleReserve = 25 * Second"

definition defaultCompletionReserve :: int where
  "defaultCompletionReserve = 12 * Second"

definition defaultMinInferenceBudget :: int where
  "defaultMinInferenceBudget = 10 * Second"

record guard_config =
  gc_DeadlineGuardEnabled :: bool
  gc_SettleReserve :: int
  gc_CompletionReserve :: int
  gc_MinInferenceBudget :: int

definition newDeadlineGuard :: "guard_config \<Rightarrow> bool \<Rightarrow> u64 \<Rightarrow> deadlineGuard option" where
  "newDeadlineGuard cfg clientReportsDeadlines jobID =
     (if \<not> gc_DeadlineGuardEnabled cfg then None
      else if \<not> clientReportsDeadlines then None
      else Some \<lparr>g_jobID = jobID,
        g_settleReserve = (if gc_SettleReserve cfg \<le> 0 then defaultSettleReserve else gc_SettleReserve cfg),
        g_completionReserve = (if gc_CompletionReserve cfg \<le> 0 then defaultCompletionReserve else gc_CompletionReserve cfg),
        g_minInferenceBudget = (if gc_MinInferenceBudget cfg \<le> 0 then defaultMinInferenceBudget else gc_MinInferenceBudget cfg)\<rparr>)"

definition noRetry :: "go_error \<Rightarrow> go_error" where
  "noRetry e = wrap_also e SkipRetry"

definition doomed_err :: "string \<Rightarrow> go_error" where
  "doomed_err stage = wrapf stage (sentinel_err ''job cannot settle before its on-chain deadline'' ErrJobDoomed)"

definition time_Until :: "int \<Rightarrow> int \<Rightarrow> int" where
  "time_Until deadline now = max (- (2 ^ 63)) (min (2 ^ 63 - 1) (deadline * Second - now))"

definition guard_read :: "'s deadline_client \<Rightarrow> deadlineGuard \<Rightarrow> ('s, (int \<times> bool) option) prog" where
  "guard_read cl g = do {
     r \<leftarrow> dl_GetJobDeadline cl (g_jobID g);
     ret (case r of Inl e \<Rightarrow> None | Inr da \<Rightarrow> Some da)
   }"

definition checkPickup :: "'s deadline_client \<Rightarrow> deadlineGuard option \<Rightarrow> ('s, go_error option) prog" where
  "checkPickup cl guard =
     (case guard of None \<Rightarrow> ret None
      | Some g \<Rightarrow> do {
          r \<leftarrow> guard_read cl g;
          case r of None \<Rightarrow> ret None
          | Some (deadline, acknowledged) \<Rightarrow> do {
              now \<leftarrow> dl_now cl;
              let remaining = time_Until deadline now;
              if remaining \<le> 0 then ret (Some (noRetry (doomed_err ''stage 1 (ack)'')))
              else if acknowledged \<and> remaining \<le> i64 (g_settleReserve g + g_minInferenceBudget g)
              then ret (Some (noRetry (doomed_err ''stage 1 (ack)'')))
              else ret None
            }
        })"

definition gateInference :: "'s deadline_client \<Rightarrow> deadlineGuard option \<Rightarrow> ('s, go_error + int option) prog" where
  "gateInference cl guard =
     (case guard of None \<Rightarrow> ret (Inr None)
      | Some g \<Rightarrow> do {
          r \<leftarrow> guard_read cl g;
          case r of None \<Rightarrow> ret (Inr None)
          | Some (deadline, acknowledged) \<Rightarrow>
              if \<not> acknowledged then ret (Inr None)
              else do {
                now \<leftarrow> dl_now cl;
                let remaining = time_Until deadline now;
                let need = i64 (g_settleReserve g + g_minInferenceBudget g);
                if remaining \<le> need then ret (Inl (noRetry (doomed_err ''stage 5 (inference)'')))
                else ret (Inr (Some (deadline * Second - g_settleReserve g)))
              }
        })"

definition gateBlobSubmit :: "'s deadline_client \<Rightarrow> deadlineGuard option \<Rightarrow> ('s, go_error option) prog" where
  "gateBlobSubmit cl guard =
     (case guard of None \<Rightarrow> ret None
      | Some g \<Rightarrow> do {
          r \<leftarrow> guard_read cl g;
          case r of None \<Rightarrow> ret None
          | Some (deadline, acknowledged) \<Rightarrow> do {
              now \<leftarrow> dl_now cl;
              let remaining = time_Until deadline now;
              if remaining \<le> g_completionReserve g
              then ret (Some (noRetry (doomed_err ''stage 8 (submit blob)'')))
              else ret None
            }
        })"

definition isDoomedNow :: "'s deadline_client \<Rightarrow> deadlineGuard option \<Rightarrow> ('s, bool) prog" where
  "isDoomedNow cl guard =
     (case guard of None \<Rightarrow> ret False
      | Some g \<Rightarrow> do {
          r \<leftarrow> guard_read cl g;
          case r of None \<Rightarrow> ret False
          | Some (deadline, acknowledged) \<Rightarrow> do {
              now \<leftarrow> dl_now cl;
              ret (deadline * Second < now)
            }
        })"

definition voiceBudgetOK :: "'s deadline_client \<Rightarrow> deadlineGuard option \<Rightarrow> int \<Rightarrow> ('s, bool) prog" where
  "voiceBudgetOK cl guard need =
     (case guard of None \<Rightarrow> ret True
      | Some g \<Rightarrow> do {
          r \<leftarrow> guard_read cl g;
          case r of None \<Rightarrow> ret True
          | Some (deadline, acknowledged) \<Rightarrow> do {
              now \<leftarrow> dl_now cl;
              let remaining = time_Until deadline now;
              ret (\<not> remaining \<le> i64 (g_completionReserve g + need))
            }
        })"

section \<open>What the gates decide\<close>

lemma noRetry_is [simp]: "errors_Is (noRetry e) s \<longleftrightarrow> errors_Is e s \<or> s = SkipRetry"
  by (auto simp: noRetry_def)

lemma doomed_is [simp]: "errors_Is (doomed_err m) s \<longleftrightarrow> s = ErrJobDoomed"
  by (auto simp: doomed_err_def)

lemma time_Until_exact: "in_i64 (d * Second - now) \<Longrightarrow> time_Until d now = d * Second - now"
  by (auto simp: time_Until_def in_i64_def)

text \<open>Each gate asks the client at most for the deadline and then the time, and nothing else.\<close>

lemma keeps_gates:
  assumes "keeps I (dl_GetJobDeadline cl (g_jobID (the guard)))" "keeps I (dl_now cl)"
  shows "keeps I (checkPickup cl guard)" "keeps I (gateInference cl guard)" "keeps I (gateBlobSubmit cl guard)"
    "keeps I (isDoomedNow cl guard)" "keeps I (voiceBudgetOK cl guard need)"
  unfolding checkPickup_def gateInference_def gateBlobSubmit_def isDoomedNow_def voiceBudgetOK_def guard_read_def Let_def
  using assms by (cases guard; auto)+

end
