(* ===== verification/Checkpoint_Store.thy ===== *)
theory Checkpoint_Store
  imports Job_Monad Pipeline_Types Cursor_Store "HOL-Library.AList"
begin

text \<open>
  The retry-safety record of a job in Redis (internal/pipeline/checkpoint.go).

  Redis is the record \<open>redis\<close> of the commands the store uses, over a state \<open>'r\<close>; \<open>redis_laws\<close> states what
  the store relies on: HSET sets one field, EXPIRE with a positive time keeps the fields and sets the time
  to live, and a Lua script or MULTI block runs as a whole. Every call takes a \<open>redis_fault\<close>: it succeeds,
  it fails before reaching the server, or it runs and its reply is lost. go-ethereum's hash formatting is
  the record \<open>hash_lib\<close>.
\<close>

section \<open>Redis and go-ethereum\<close>

record 'r redis =
  rd_HGET :: "string \<Rightarrow> string \<Rightarrow> 'r \<Rightarrow> string option"
  rd_HSET :: "string \<Rightarrow> string \<Rightarrow> string \<Rightarrow> 'r \<Rightarrow> 'r"
  rd_EXPIRE :: "string \<Rightarrow> int \<Rightarrow> 'r \<Rightarrow> 'r"
  rd_HGETALL :: "string \<Rightarrow> 'r \<Rightarrow> (string \<times> string) list"
  rd_TTL :: "string \<Rightarrow> 'r \<Rightarrow> int option"
  rd_formatSec :: "int \<Rightarrow> int"

definition redis_laws :: "'r redis \<Rightarrow> bool" where
  "redis_laws rd \<longleftrightarrow>
     (\<forall>k f v k' f' r. rd_HGET rd k' f' (rd_HSET rd k f v r) = (if k' = k \<and> f' = f then Some v else rd_HGET rd k' f' r)) \<and>
     (\<forall>k f v k' r. rd_TTL rd k' (rd_HSET rd k f v r) = rd_TTL rd k' r) \<and>
     (\<forall>k n k' f' r. 0 < n \<longrightarrow> rd_HGET rd k' f' (rd_EXPIRE rd k n r) = rd_HGET rd k' f' r) \<and>
     (\<forall>k n f k' r. 0 < n \<longrightarrow> rd_HGET rd k f r \<noteq> None \<longrightarrow>
        rd_TTL rd k' (rd_EXPIRE rd k n r) = (if k' = k then Some n else rd_TTL rd k' r)) \<and>
     (\<forall>k f r. map_of (rd_HGETALL rd k r) f = rd_HGET rd k f r) \<and>
     (\<forall>d. Second \<le> d \<longrightarrow> 0 < rd_formatSec rd d)"

record hash_lib =
  hl_Hex :: "hash \<Rightarrow> string"
  hl_IsHexHash :: "string \<Rightarrow> bool"
  hl_HexToHash :: "string \<Rightarrow> hash"

definition hash_laws :: "hash_lib \<Rightarrow> bool" where
  "hash_laws hl \<longleftrightarrow> (\<forall>h. hl_Hex hl h \<noteq> [] \<and> hl_IsHexHash hl (hl_Hex hl h) \<and> hl_HexToHash hl (hl_Hex hl h) = h)"

datatype redis_fault = RdOk | RdDown | RdLost

section \<open>The store\<close>

record JobCheckpoint =
  ck_Ciphertext :: "byte list"
  ck_VersionedHash :: hash
  ck_Delivered :: bool

definition no_checkpoint :: JobCheckpoint where
  "no_checkpoint = \<lparr>ck_Ciphertext = [], ck_VersionedHash = 0, ck_Delivered = False\<rparr>"

definition IsEmpty :: "JobCheckpoint \<Rightarrow> bool" where
  "IsEmpty c \<longleftrightarrow> length (ck_Ciphertext c) = 0 \<and> ck_VersionedHash c = 0 \<and> \<not> ck_Delivered c"

definition HasCiphertext :: "JobCheckpoint \<Rightarrow> bool" where
  "HasCiphertext c \<longleftrightarrow> 0 < length (ck_Ciphertext c)"

definition HasVersionedHash :: "JobCheckpoint \<Rightarrow> bool" where
  "HasVersionedHash c \<longleftrightarrow> ck_VersionedHash c \<noteq> 0"

record CheckpointStore =
  cp_ttl :: int
  cp_maxCiphertextB :: int
  cp_tombstoneTTL :: int
  cp_keyPrefix :: string

definition NewCheckpointStore :: "int \<Rightarrow> int \<Rightarrow> int \<Rightarrow> CheckpointStore" where
  "NewCheckpointStore ttl tombstoneTTL maxCiphertextBytes =
     \<lparr>cp_ttl = (if ttl \<le> 0 then 2 * Hour else ttl),
      cp_maxCiphertextB = (if maxCiphertextBytes \<le> 0 then 256 * 1024 else maxCiphertextBytes),
      cp_tombstoneTTL = (if tombstoneTTL \<le> 0 then 10 * Minute else tombstoneTTL),
      cp_keyPrefix = ''job''\<rparr>"

definition ckpt_key :: "CheckpointStore \<Rightarrow> u64 \<Rightarrow> string" where
  "ckpt_key cs jobID = cp_keyPrefix cs @ '':'' @ FormatUint (unat jobID) @ '':ckpt''"

text \<open>int64(s.ttl.Seconds())\<close>

definition ttl_seconds :: "CheckpointStore \<Rightarrow> int" where
  "ttl_seconds cs = go_div (cp_ttl cs) Second"

text \<open>One round trip: the server runs \<open>f\<close> as a whole, or the call fails.\<close>

definition redis_call :: "redis_fault \<Rightarrow> ('r \<Rightarrow> 'a \<times> 'r) \<Rightarrow> ('r, go_error + 'a) prog" where
  "redis_call flt f = State (\<lambda>r. case f r of (x, r') \<Rightarrow>
     (case flt of RdOk \<Rightarrow> (Inr x, r') | RdDown \<Rightarrow> (Inl (errorf ''redis''), r) | RdLost \<Rightarrow> (Inl (errorf ''redis''), r')))"

definition setCiphertextLR :: "'r redis \<Rightarrow> string \<Rightarrow> string \<Rightarrow> int \<Rightarrow> 'r \<Rightarrow> (string \<times> string) \<times> 'r" where
  "setCiphertextLR rd k proposed secs r =
     (case rd_HGET rd k ''ciphertext'' r of
        Some existing \<Rightarrow> ((existing, ''0''), r)
      | None \<Rightarrow> ((proposed, ''1''), rd_EXPIRE rd k secs (rd_HSET rd k ''ciphertext'' proposed r)))"

definition setVersionedHashLR :: "'r redis \<Rightarrow> string \<Rightarrow> string \<Rightarrow> int \<Rightarrow> 'r \<Rightarrow> string \<times> 'r" where
  "setVersionedHashLR rd k hashHex secs r =
     (let tombstoned = rd_HGET rd k ''tombstoned'' r;
          r1 = rd_HSET rd k ''versionedHash'' hashHex r
      in (''OK'', if tombstoned = None then rd_EXPIRE rd k secs r1 else r1))"

definition markDeliveredLR :: "'r redis \<Rightarrow> string \<Rightarrow> int \<Rightarrow> 'r \<Rightarrow> string \<times> 'r" where
  "markDeliveredLR rd k secs r =
     (let tombstoned = rd_HGET rd k ''tombstoned'' r;
          r1 = rd_HSET rd k ''delivered'' ''1'' r
      in (''OK'', if tombstoned = None then rd_EXPIRE rd k secs r1 else r1))"

definition SetCiphertextIfAbsent ::
  "'r redis \<Rightarrow> CheckpointStore \<Rightarrow> redis_fault \<Rightarrow> u64 \<Rightarrow> byte list \<Rightarrow> ('r, go_error + byte list \<times> bool) prog" where
  "SetCiphertextIfAbsent rd cs flt jobID proposed =
     (if length proposed = 0 then ret (Inl (errorf ''proposed ciphertext is empty''))
      else if cp_maxCiphertextB cs < int (length proposed)
      then ret (Inl (sentinel_err ''ciphertext exceeds checkpoint cap'' ErrCiphertextTooLarge))
      else attempt (map_err (wrapf ''run setCiphertext Lua'')
             (redis_call flt (setCiphertextLR rd (ckpt_key cs jobID) (hex_EncodeToString proposed) (ttl_seconds cs))))
           (\<lambda>(canonicalHex, wasSetStr).
              case hex_DecodeString canonicalHex of
                None \<Rightarrow> ret (Inl (errorf ''decode canonical ciphertext hex''))
              | Some canonical \<Rightarrow> ret (Inr (canonical, wasSetStr = ''1''))))"

definition SetVersionedHash ::
  "'r redis \<Rightarrow> hash_lib \<Rightarrow> CheckpointStore \<Rightarrow> redis_fault \<Rightarrow> u64 \<Rightarrow> hash \<Rightarrow> ('r, go_error option) prog" where
  "SetVersionedHash rd hl cs flt jobID h =
     (if h = 0 then ret (Some (errorf ''versioned hash is zero''))
      else do {
        r \<leftarrow> redis_call flt (setVersionedHashLR rd (ckpt_key cs jobID) (hl_Hex hl h) (ttl_seconds cs));
        ret (case r of Inl e \<Rightarrow> Some (wrapf ''set versionedHash'' e) | Inr _ \<Rightarrow> None)
      })"

definition MarkDelivered :: "'r redis \<Rightarrow> CheckpointStore \<Rightarrow> redis_fault \<Rightarrow> u64 \<Rightarrow> ('r, go_error option) prog" where
  "MarkDelivered rd cs flt jobID = do {
     r \<leftarrow> redis_call flt (markDeliveredLR rd (ckpt_key cs jobID) (ttl_seconds cs));
     ret (case r of Inl e \<Rightarrow> Some (wrapf ''mark delivered'' e) | Inr _ \<Rightarrow> None)
   }"

definition decode_checkpoint :: "hash_lib \<Rightarrow> (string \<times> string) list \<Rightarrow> go_error + JobCheckpoint" where
  "decode_checkpoint hl vals =
     (let ct = (case map_of vals ''ciphertext'' of
                  Some h \<Rightarrow> (if h \<noteq> [] then hex_DecodeString h else Some []) | None \<Rightarrow> Some []);
          vh = (case map_of vals ''versionedHash'' of
                  Some h \<Rightarrow> (if h \<noteq> [] then if hl_IsHexHash hl h then Some (hl_HexToHash hl h) else None else Some 0)
                | None \<Rightarrow> Some 0)
      in case ct of
           None \<Rightarrow> Inl (errorf ''decode cached ciphertext'')
         | Some c \<Rightarrow>
             (case vh of
                None \<Rightarrow> Inl (errorf ''invalid versionedHash format in checkpoint'')
              | Some v \<Rightarrow> Inr \<lparr>ck_Ciphertext = c, ck_VersionedHash = v, ck_Delivered = (map_of vals ''delivered'' = Some ''1'')\<rparr>))"

definition ckpt_Get :: "'r redis \<Rightarrow> hash_lib \<Rightarrow> CheckpointStore \<Rightarrow> redis_fault \<Rightarrow> u64 \<Rightarrow> ('r, go_error + JobCheckpoint) prog" where
  "ckpt_Get rd hl cs flt jobID =
     attempt (map_err (wrapf ''get checkpoint'') (redis_call flt (\<lambda>r. (rd_HGETALL rd (ckpt_key cs jobID) r, r))))
       (\<lambda>vals. if length vals = 0 then ret (Inr no_checkpoint) else ret (decode_checkpoint hl vals))"

definition Tombstone :: "'r redis \<Rightarrow> CheckpointStore \<Rightarrow> redis_fault \<Rightarrow> u64 \<Rightarrow> ('r, go_error option) prog" where
  "Tombstone rd cs flt jobID = do {
     r \<leftarrow> redis_call flt (\<lambda>r. ((), rd_EXPIRE rd (ckpt_key cs jobID) (rd_formatSec rd (cp_tombstoneTTL cs))
                                     (rd_HSET rd (ckpt_key cs jobID) ''tombstoned'' ''1'' r)));
     ret (case r of Inl e \<Rightarrow> Some (wrapf ''tombstone checkpoint'' e) | Inr _ \<Rightarrow> None)
   }"

section \<open>Sequences of operations\<close>

text \<open>The writes of the store, with the fault each call meets: what concurrent attempts do to the record.\<close>

datatype ckpt_op =
    CkCiphertext u64 "byte list"
  | CkHash u64 hash
  | CkDelivered u64
  | CkTombstone u64

fun run_op :: "'r redis \<Rightarrow> hash_lib \<Rightarrow> CheckpointStore \<Rightarrow> redis_fault \<times> ckpt_op \<Rightarrow> 'r \<Rightarrow> 'r" where
  "run_op rd hl cs (flt, CkCiphertext j c) r = snd (run_state (SetCiphertextIfAbsent rd cs flt j c) r)"
| "run_op rd hl cs (flt, CkHash j h) r = snd (run_state (SetVersionedHash rd hl cs flt j h) r)"
| "run_op rd hl cs (flt, CkDelivered j) r = snd (run_state (MarkDelivered rd cs flt j) r)"
| "run_op rd hl cs (flt, CkTombstone j) r = snd (run_state (Tombstone rd cs flt j) r)"

abbreviation run_ops :: "'r redis \<Rightarrow> hash_lib \<Rightarrow> CheckpointStore \<Rightarrow> (redis_fault \<times> ckpt_op) list \<Rightarrow> 'r \<Rightarrow> 'r" where
  "run_ops rd hl cs ops r \<equiv> foldl (\<lambda>r o'. run_op rd hl cs o' r) r ops"

definition canon :: "'r redis \<Rightarrow> CheckpointStore \<Rightarrow> u64 \<Rightarrow> 'r \<Rightarrow> byte list option" where
  "canon rd cs j r =
     (case rd_HGET rd (ckpt_key cs j) ''ciphertext'' r of None \<Rightarrow> None | Some h \<Rightarrow> hex_DecodeString h)"

text \<open>What the writes maintain: the fields hold what the encoders produce.\<close>

definition ckpt_ok :: "'r redis \<Rightarrow> hash_lib \<Rightarrow> CheckpointStore \<Rightarrow> 'r \<Rightarrow> bool" where
  "ckpt_ok rd hl cs r \<longleftrightarrow>
     (\<forall>j h. rd_HGET rd (ckpt_key cs j) ''ciphertext'' r = Some h \<longrightarrow> (\<exists>b. b \<noteq> [] \<and> h = hex_EncodeToString b)) \<and>
     (\<forall>j h. rd_HGET rd (ckpt_key cs j) ''versionedHash'' r = Some h \<longrightarrow> (\<exists>v. v \<noteq> 0 \<and> h = hl_Hex hl v))"

definition ckpt_env :: "'r redis \<Rightarrow> hash_lib \<Rightarrow> CheckpointStore \<Rightarrow> bool" where
  "ckpt_env rd hl cs \<longleftrightarrow> redis_laws rd \<and> hash_laws hl \<and> Second \<le> cp_ttl cs \<and> Second \<le> cp_tombstoneTTL cs"

lemma FormatUint_inj: "FormatUint m = FormatUint n \<Longrightarrow> m = n"
  by (metis option.inject parse_FormatUint)

lemma ckpt_key_inj [simp]: "ckpt_key cs i = ckpt_key cs j \<longleftrightarrow> i = j"
proof
  assume "ckpt_key cs i = ckpt_key cs j"
  then have "FormatUint (unat i) = FormatUint (unat j)" by (simp add: ckpt_key_def)
  then have "unat i = unat j" by (rule FormatUint_inj)
  then show "i = j" by (simp add: word_unat_eq_iff)
qed simp

lemma redis_rules:
  assumes "redis_laws rd"
  shows "rd_HGET rd k' f' (rd_HSET rd k f v r) = (if k' = k \<and> f' = f then Some v else rd_HGET rd k' f' r)"
    and "rd_TTL rd k' (rd_HSET rd k f v r) = rd_TTL rd k' r"
    and "0 < n \<Longrightarrow> rd_HGET rd k' f' (rd_EXPIRE rd k n r) = rd_HGET rd k' f' r"
    and "0 < n \<Longrightarrow> rd_TTL rd k' (rd_EXPIRE rd k n (rd_HSET rd k f v r)) = (if k' = k then Some n else rd_TTL rd k' r)"
    and "map_of (rd_HGETALL rd k r) f = rd_HGET rd k f r"
proof -
  have "rd_HGET rd k f (rd_HSET rd k f v r) \<noteq> None" using assms by (simp add: redis_laws_def)
  then show "0 < n \<Longrightarrow> rd_TTL rd k' (rd_EXPIRE rd k n (rd_HSET rd k f v r)) = (if k' = k then Some n else rd_TTL rd k' r)"
    using assms unfolding redis_laws_def by metis
qed (use assms in \<open>simp_all add: redis_laws_def\<close>)

lemma ckpt_envD:
  assumes "ckpt_env rd hl cs"
  shows "redis_laws rd" "hash_laws hl" "0 < ttl_seconds cs" "0 < rd_formatSec rd (cp_tombstoneTTL cs)"
proof -
  have "1 \<le> cp_ttl cs div Second" if "Second \<le> cp_ttl cs" using zdiv_mono1 [OF that, of Second] by simp
  then show "redis_laws rd" "hash_laws hl" "0 < ttl_seconds cs" "0 < rd_formatSec rd (cp_tombstoneTTL cs)"
    using assms by (simp_all add: ckpt_env_def redis_laws_def ttl_seconds_def)
qed

text \<open>The state a call leaves is the one before it or the script's.\<close>

lemma redis_call_cases:
  assumes "run_state (redis_call flt f) r = (x, r')" "f r = (y, r1)"
  obtains (ok) "flt = RdOk" "x = Inr y" "r' = r1" | (lost) "isl x" "r' = r \<or> r' = r1"
  using assms by (cases flt) (auto simp: redis_call_def)

text \<open>How a write touches the fields of the checkpoint keys.\<close>

definition stable_write :: "'r redis \<Rightarrow> hash_lib \<Rightarrow> CheckpointStore \<Rightarrow> 'r \<Rightarrow> 'r \<Rightarrow> bool" where
  "stable_write rd hl cs r r' \<longleftrightarrow> (ckpt_ok rd hl cs r \<longrightarrow> ckpt_ok rd hl cs r') \<and>
     (\<forall>j c. canon rd cs j r = Some c \<longrightarrow> canon rd cs j r' = Some c)"

lemma stable_refl [simp]: "stable_write rd hl cs r r"
  by (simp add: stable_write_def)

lemma stable_trans: "stable_write rd hl cs r r1 \<Longrightarrow> stable_write rd hl cs r1 r2 \<Longrightarrow> stable_write rd hl cs r r2"
  by (simp add: stable_write_def)

lemma stable_setCiphertext:
  assumes "ckpt_env rd hl cs" "p \<noteq> []"
  shows "stable_write rd hl cs r (snd (setCiphertextLR rd (ckpt_key cs j) (hex_EncodeToString p) (ttl_seconds cs) r))"
  using assms(2) ckpt_envD [OF assms(1)]
  by (auto simp: stable_write_def ckpt_ok_def canon_def setCiphertextLR_def redis_rules split: option.splits if_splits)

lemma stable_setVersionedHash:
  assumes "ckpt_env rd hl cs" "h \<noteq> 0"
  shows "stable_write rd hl cs r (snd (setVersionedHashLR rd (ckpt_key cs j) (hl_Hex hl h) (ttl_seconds cs) r))"
  using assms(2) ckpt_envD [OF assms(1)]
  by (auto simp: stable_write_def ckpt_ok_def canon_def setVersionedHashLR_def redis_rules Let_def split: option.splits if_splits)

lemma stable_markDelivered:
  assumes "ckpt_env rd hl cs"
  shows "stable_write rd hl cs r (snd (markDeliveredLR rd (ckpt_key cs j) (ttl_seconds cs) r))"
  using ckpt_envD [OF assms]
  by (auto simp: stable_write_def ckpt_ok_def canon_def markDeliveredLR_def redis_rules Let_def split: option.splits if_splits)

lemma stable_call:
  assumes "stable_write rd hl cs r (snd (f r))"
  shows "stable_write rd hl cs r (snd (run_state (redis_call flt f) r))"
  using assms by (cases flt) (auto simp: redis_call_def split: prod.splits)

lemma stable_op: "ckpt_env rd hl cs \<Longrightarrow> stable_write rd hl cs r (run_op rd hl cs fo r)"
proof (cases fo)
  case (Pair flt op)
  assume env: "ckpt_env rd hl cs"
  show ?thesis
  proof (cases op)
    case (CkCiphertext j c)
    have "stable_write rd hl cs r (snd (run_state (redis_call flt (setCiphertextLR rd (ckpt_key cs j) (hex_EncodeToString c) (ttl_seconds cs))) r))"
      if "c \<noteq> []" by (intro stable_call stable_setCiphertext env that)
    then show ?thesis using Pair CkCiphertext
      by (auto simp: SetCiphertextIfAbsent_def attempt_def map_err_def split: prod.splits sum.splits option.splits)
  next
    case (CkHash j h)
    have "stable_write rd hl cs r (snd (run_state (redis_call flt (setVersionedHashLR rd (ckpt_key cs j) (hl_Hex hl h) (ttl_seconds cs))) r))"
      if "h \<noteq> 0" by (intro stable_call stable_setVersionedHash env that)
    then show ?thesis using Pair CkHash
      by (auto simp: SetVersionedHash_def split: prod.splits)
  next
    case (CkDelivered j)
    have "stable_write rd hl cs r (snd (run_state (redis_call flt (markDeliveredLR rd (ckpt_key cs j) (ttl_seconds cs))) r))"
      by (intro stable_call stable_markDelivered env)
    then show ?thesis using Pair CkDelivered
      by (auto simp: MarkDelivered_def split: prod.splits)
  next
    case (CkTombstone j)
    then show ?thesis using Pair ckpt_envD [OF env]
      by (cases flt) (auto simp: Tombstone_def redis_call_def stable_write_def ckpt_ok_def canon_def redis_rules)
  qed
qed

lemma stable_ops: "ckpt_env rd hl cs \<Longrightarrow> stable_write rd hl cs r (run_ops rd hl cs ops r)"
  by (induction ops arbitrary: r) (auto intro: stable_op stable_trans)

section \<open>What the calls return\<close>

lemma SetCiphertext_returns:
  assumes "ckpt_env rd hl cs" "ckpt_ok rd hl cs r" "run_state (SetCiphertextIfAbsent rd cs flt j p) r = (x, r')"
  shows "stable_write rd hl cs r r'"
    and "x = Inr (c, b) \<Longrightarrow> canon rd cs j r' = Some c \<and> (b \<longleftrightarrow> canon rd cs j r = None) \<and> (b \<longrightarrow> c = p) \<and> c \<noteq> []"
proof -
  show "stable_write rd hl cs r r'" using stable_op [OF assms(1), of r "(flt, CkCiphertext j p)"] assms(3) by simp
  assume x: "x = Inr (c, b)"
  then have p: "p \<noteq> []" "flt = RdOk"
    using assms(3) by (cases flt; auto simp: SetCiphertextIfAbsent_def attempt_def map_err_def redis_call_def split: if_splits prod.splits)+
  show "canon rd cs j r' = Some c \<and> (b \<longleftrightarrow> canon rd cs j r = None) \<and> (b \<longrightarrow> c = p) \<and> c \<noteq> []"
  proof (cases "rd_HGET rd (ckpt_key cs j) ''ciphertext'' r")
    case None
    then show ?thesis using assms(3) x p ckpt_envD [OF assms(1)]
      by (auto simp: SetCiphertextIfAbsent_def attempt_def map_err_def redis_call_def setCiphertextLR_def canon_def redis_rules split: if_splits)
  next
    case (Some h)
    then obtain a where "a \<noteq> []" "h = hex_EncodeToString a" using assms(2) by (auto simp: ckpt_ok_def)
    then show ?thesis using assms(3) x p Some
      by (auto simp: SetCiphertextIfAbsent_def attempt_def map_err_def redis_call_def setCiphertextLR_def canon_def split: if_splits)
  qed
qed

lemma Get_returns:
  assumes "ckpt_env rd hl cs" "ckpt_ok rd hl cs r" "run_state (ckpt_Get rd hl cs flt j) r = (x, r')"
  shows "r' = r"
    and "x = Inr ck \<Longrightarrow> ck_Ciphertext ck = (case canon rd cs j r of None \<Rightarrow> [] | Some c \<Rightarrow> c)"
    and "x = Inr ck \<Longrightarrow> HasCiphertext ck \<longleftrightarrow> canon rd cs j r = Some (ck_Ciphertext ck)"
    and "flt = RdOk \<Longrightarrow> \<exists>ck. x = Inr ck"
proof -
  let ?vals = "rd_HGETALL rd (ckpt_key cs j) r"
  note m = redis_rules(5) [OF ckpt_envD(1) [OF assms(1)], of "ckpt_key cs j" r]
  have hex: "\<exists>b. b \<noteq> [] \<and> h = hex_EncodeToString b" if "map_of ?vals ''ciphertext'' = Some h" for h
    using that assms(2) m by (auto simp: ckpt_ok_def)
  have vh: "\<exists>v. h = hl_Hex hl v" if "map_of ?vals ''versionedHash'' = Some h" for h
    using that assms(2) m unfolding ckpt_ok_def by metis
  have run: "r' = r \<and> (if flt = RdOk then x = (if ?vals = [] then Inr no_checkpoint else decode_checkpoint hl ?vals) else isl x)"
    using assms(3) by (cases flt) (auto simp: ckpt_Get_def attempt_def map_err_def redis_call_def split: if_splits)
  then show "r' = r" by simp
  have ct: "ck_Ciphertext ck = (case canon rd cs j r of None \<Rightarrow> [] | Some c \<Rightarrow> c)" if "x = Inr ck" for ck
  proof (cases "map_of ?vals ''ciphertext''")
    case None
    then show ?thesis using run that m
      by (auto simp: decode_checkpoint_def canon_def no_checkpoint_def Let_def split: if_splits option.splits)
  next
    case (Some h)
    then have "?vals \<noteq> []" by auto
    obtain b where "b \<noteq> []" "h = hex_EncodeToString b" using hex [OF Some] by blast
    then show ?thesis using run that m [of "''ciphertext''"] Some \<open>?vals \<noteq> []\<close>
      by (auto simp: decode_checkpoint_def canon_def Let_def split: if_splits option.splits)
  qed
  then show "x = Inr ck \<Longrightarrow> ck_Ciphertext ck = (case canon rd cs j r of None \<Rightarrow> [] | Some c \<Rightarrow> c)" .
  show "HasCiphertext ck \<longleftrightarrow> canon rd cs j r = Some (ck_Ciphertext ck)" if "x = Inr ck"
    using ct [OF that] hex m [of "''ciphertext''"] by (auto simp: HasCiphertext_def canon_def split: option.splits)
  show "\<exists>ck. x = Inr ck" if "flt = RdOk"
  proof (cases "?vals = []")
    case False
    obtain c where "(case map_of ?vals ''ciphertext'' of Some h \<Rightarrow> if h \<noteq> [] then hex_DecodeString h else Some [] | None \<Rightarrow> Some []) = Some c"
      using hex by (cases "map_of ?vals ''ciphertext''") auto
    moreover obtain v where "(case map_of ?vals ''versionedHash'' of Some h \<Rightarrow> if h \<noteq> [] then if hl_IsHexHash hl h then Some (hl_HexToHash hl h) else None else Some 0 | None \<Rightarrow> Some 0) = Some v"
      using vh ckpt_envD(2) [OF assms(1)] by (cases "map_of ?vals ''versionedHash''") (auto simp: hash_laws_def)
    ultimately show ?thesis using run that False by (simp add: decode_checkpoint_def Let_def)
  qed (use run that in simp)
qed

section \<open>Properties\<close>

text \<open>A server whose state maps a key to its fields and time to live.\<close>

type_synonym redis_map = "string \<Rightarrow> (string \<times> string) list \<times> int option"

definition map_redis :: "redis_map redis" where
  "map_redis = \<lparr>rd_HGET = \<lambda>k f r. map_of (fst (r k)) f,
     rd_HSET = \<lambda>k f v r. r(k := (AList.update f v (fst (r k)), snd (r k))),
     rd_EXPIRE = \<lambda>k n r. (if fst (r k) = [] then r else if n \<le> 0 then r(k := ([], None)) else r(k := (fst (r k), Some n))),
     rd_HGETALL = \<lambda>k r. fst (r k), rd_TTL = \<lambda>k r. snd (r k), rd_formatSec = \<lambda>d. go_div d Second\<rparr>"

definition decimal_lib :: hash_lib where
  "decimal_lib = \<lparr>hl_Hex = \<lambda>h. FormatUint (unat h), hl_IsHexHash = \<lambda>s. parse_digits 0 s \<noteq> None,
     hl_HexToHash = \<lambda>s. (case parse_digits 0 s of None \<Rightarrow> 0 | Some n \<Rightarrow> of_nat n)\<rparr>"

definition demo_ckpt :: CheckpointStore where
  "demo_ckpt = NewCheckpointStore 0 0 0"

lemma demo_ckpt_env: "ckpt_env map_redis decimal_lib demo_ckpt"
proof -
  have "0 < d div Second" if "Second \<le> d" for d :: int using zdiv_mono1 [OF that, of Second] by simp
  then have "redis_laws map_redis"
    by (auto simp: redis_laws_def map_redis_def update_conv' go_div_def)
  moreover have "hash_laws decimal_lib" using FormatUint_digits
    by (simp add: hash_laws_def decimal_lib_def parse_FormatUint)
  ultimately show ?thesis by (simp add: ckpt_env_def demo_ckpt_def NewCheckpointStore_def)
qed

lemma demo_ckpt_ok: "ckpt_ok map_redis decimal_lib demo_ckpt (\<lambda>_. ([], None))"
  by (simp add: ckpt_ok_def map_redis_def)

text \<open>
  C20. The first persisted ciphertext is canonical: once a SetCiphertextIfAbsent for a job has returned,
  then after any writes of any attempts for any jobs, each failing before or after it took effect, every
  later SetCiphertextIfAbsent that returns gives that same ciphertext and does not claim to have written
  it, and every Get that returns gives it too.
\<close>

theorem checkpoint_canonical:
  assumes "ckpt_env rd hl cs" "ckpt_ok rd hl cs r"
    and "run_state (SetCiphertextIfAbsent rd cs flt j p) r = (Inr (c, b), r1)" "r2 = run_ops rd hl cs ops r1"
  shows "(run_state (SetCiphertextIfAbsent rd cs flt' j p') r2 = (Inr (c', b'), r3) \<longrightarrow> c' = c \<and> \<not> b') \<and>
         (run_state (ckpt_Get rd hl cs flt' j) r2 = (Inr ck, r4) \<longrightarrow> HasCiphertext ck \<and> ck_Ciphertext ck = c)"
proof -
  have c: "canon rd cs j r1 = Some c" "c \<noteq> []" and st: "stable_write rd hl cs r r1"
    using SetCiphertext_returns [OF assms(1-3)] by simp_all
  note st2 = stable_ops [OF assms(1), of r1 ops, folded assms(4)]
  have r2: "canon rd cs j r2 = Some c" "ckpt_ok rd hl cs r2" using c st st2 assms(2) by (simp_all add: stable_write_def)
  have "c' = c \<and> \<not> b'" if "run_state (SetCiphertextIfAbsent rd cs flt' j p') r2 = (Inr (c', b'), r3)"
    using SetCiphertext_returns [OF assms(1) r2(2) that] r2(1) by (auto simp: stable_write_def)
  moreover have "HasCiphertext ck \<and> ck_Ciphertext ck = c" if "run_state (ckpt_Get rd hl cs flt' j) r2 = (Inr ck, r4)"
    using Get_returns(2,3) [OF assms(1) r2(2) that, of ck] r2(1) c(2) by (simp add: HasCiphertext_def)
  ultimately show ?thesis by blast
qed

definition demo_first :: "(go_error + byte list \<times> bool) \<times> redis_map" where
  "demo_first = run_state (SetCiphertextIfAbsent map_redis demo_ckpt RdOk 7 [1]) (\<lambda>_. ([], None))"

definition demo_second :: "(go_error + byte list \<times> bool) \<times> redis_map" where
  "demo_second = run_state (SetCiphertextIfAbsent map_redis demo_ckpt RdOk 7 [3])
     (run_ops map_redis decimal_lib demo_ckpt [(RdLost, CkCiphertext 7 [2]), (RdOk, CkTombstone 7)] (snd demo_first))"

lemma demo_first_ok: "fst demo_first = Inr ([1], True)"
  by code_simp

lemma demo_second_ok: "\<exists>c b. fst demo_second = Inr (c, b)"
proof -
  have "fst demo_second = Inr ([1], False)" by code_simp
  then show ?thesis by blast
qed

theorem checkpoint_canonical_witness: "fst demo_second = Inr ([1], False)"
proof -
  obtain c b where s: "fst demo_second = Inr (c, b)" using demo_second_ok by blast
  have f: "demo_first = (Inr ([1], True), snd demo_first)" using demo_first_ok by (metis prod.collapse)
  have "demo_second = (Inr (c, b), snd demo_second)" using s by (metis prod.collapse)
  then have "c = [1] \<and> \<not> b"
    using checkpoint_canonical [OF demo_ckpt_env demo_ckpt_ok f [unfolded demo_first_def]] unfolding demo_second_def demo_first_def
    by metis
  then show ?thesis using s by simp
qed

section \<open>The time to live of a finished record\<close>

fun writes_ciphertext :: "u64 \<Rightarrow> redis_fault \<times> ckpt_op \<Rightarrow> bool" where
  "writes_ciphertext j (flt, CkCiphertext i c) \<longleftrightarrow> i = j"
| "writes_ciphertext j _ \<longleftrightarrow> False"

definition entombed :: "'r redis \<Rightarrow> CheckpointStore \<Rightarrow> u64 \<Rightarrow> 'r \<Rightarrow> bool" where
  "entombed rd cs j r \<longleftrightarrow> rd_HGET rd (ckpt_key cs j) ''tombstoned'' r \<noteq> None \<and>
     rd_TTL rd (ckpt_key cs j) r = Some (rd_formatSec rd (cp_tombstoneTTL cs))"

lemmas ckpt_write_defs = SetCiphertextIfAbsent_def SetVersionedHash_def MarkDelivered_def Tombstone_def
  setCiphertextLR_def setVersionedHashLR_def markDeliveredLR_def attempt_def map_err_def redis_call_def

lemma entombed_op:
  assumes "ckpt_env rd hl cs" "entombed rd cs j r"
    and "rd_HGET rd (ckpt_key cs j) ''ciphertext'' r \<noteq> None \<or> \<not> writes_ciphertext j fo"
  shows "entombed rd cs j (run_op rd hl cs fo r) \<and>
    (rd_HGET rd (ckpt_key cs j) ''ciphertext'' r \<noteq> None \<longrightarrow> rd_HGET rd (ckpt_key cs j) ''ciphertext'' (run_op rd hl cs fo r) \<noteq> None)"
proof -
  obtain flt op where fo: "fo = (flt, op)" by (meson surj_pair)
  note laws = ckpt_envD [OF assms(1)]
  show ?thesis
  proof (cases op)
    case (CkCiphertext i c)
    show ?thesis using assms(2,3) fo CkCiphertext laws
      by (cases flt; cases "i = j") (auto simp: ckpt_write_defs entombed_def redis_rules split: option.splits)
  next
    case (CkHash i h)
    show ?thesis using assms(2) fo CkHash laws
      by (cases flt; cases "i = j") (auto simp: ckpt_write_defs entombed_def redis_rules Let_def)
  next
    case (CkDelivered i)
    show ?thesis using assms(2) fo CkDelivered laws
      by (cases flt; cases "i = j") (auto simp: ckpt_write_defs entombed_def redis_rules Let_def)
  next
    case (CkTombstone i)
    show ?thesis using assms(2) fo CkTombstone laws
      by (cases flt; cases "i = j") (auto simp: ckpt_write_defs entombed_def redis_rules)
  qed
qed

lemma entombed_ops:
  assumes "ckpt_env rd hl cs" "entombed rd cs j r"
    and "rd_HGET rd (ckpt_key cs j) ''ciphertext'' r \<noteq> None \<or> \<not> list_ex (writes_ciphertext j) ops"
  shows "entombed rd cs j (run_ops rd hl cs ops r)"
  using assms(2,3)
proof (induction ops arbitrary: r)
  case (Cons fo ops)
  have "entombed rd cs j (run_op rd hl cs fo r) \<and>
      (rd_HGET rd (ckpt_key cs j) ''ciphertext'' r \<noteq> None \<longrightarrow> rd_HGET rd (ckpt_key cs j) ''ciphertext'' (run_op rd hl cs fo r) \<noteq> None)"
    using entombed_op [OF assms(1) Cons.prems(1), of fo] Cons.prems(2) by auto
  then show ?case using Cons.IH [of "run_op rd hl cs fo r"] Cons.prems(2) by auto
qed simp

text \<open>
  A finished record stays short-lived: after a successful Tombstone its time to live is the short one
  whatever is written next, as long as its ciphertext is there. When it is not (the response was too
  large to cache), a straggler's SetCiphertextIfAbsent puts the record back on the full retention time.
\<close>

theorem tombstone_ttl:
  assumes "ckpt_env rd hl cs" "run_state (Tombstone rd cs RdOk j) r = (e, r1)"
  shows "(rd_HGET rd (ckpt_key cs j) ''ciphertext'' r \<noteq> None \<or> \<not> list_ex (writes_ciphertext j) ops \<longrightarrow>
            rd_TTL rd (ckpt_key cs j) (run_ops rd hl cs ops r1) = Some (rd_formatSec rd (cp_tombstoneTTL cs))) \<and>
         (rd_HGET rd (ckpt_key cs j) ''ciphertext'' r = None \<and> p \<noteq> [] \<and> int (length p) \<le> cp_maxCiphertextB cs \<longrightarrow>
            rd_TTL rd (ckpt_key cs j) (run_op rd hl cs (RdOk, CkCiphertext j p) r1) = Some (ttl_seconds cs))"
proof -
  note laws = ckpt_envD [OF assms(1)]
  have r1: "entombed rd cs j r1" "rd_HGET rd (ckpt_key cs j) ''ciphertext'' r1 = rd_HGET rd (ckpt_key cs j) ''ciphertext'' r"
    using assms(2) laws by (auto simp: Tombstone_def redis_call_def entombed_def redis_rules)
  have "rd_TTL rd (ckpt_key cs j) (run_op rd hl cs (RdOk, CkCiphertext j p) r1) = Some (ttl_seconds cs)"
    if "rd_HGET rd (ckpt_key cs j) ''ciphertext'' r = None" "p \<noteq> []" "int (length p) \<le> cp_maxCiphertextB cs"
    using that r1(2) laws by (auto simp: ckpt_write_defs redis_rules)
  then show ?thesis using entombed_ops [OF assms(1) r1(1), of ops] r1(2) by (auto simp: entombed_def)
qed

theorem tombstone_ttl_witness:
  "rd_TTL map_redis (ckpt_key demo_ckpt 7) (run_op map_redis decimal_lib demo_ckpt (RdOk, CkCiphertext 7 [1])
     (snd (run_state (Tombstone map_redis demo_ckpt RdOk 7) (\<lambda>_. ([], None))))) = Some 7200"
proof -
  obtain e r1 where "run_state (Tombstone map_redis demo_ckpt RdOk 7) (\<lambda>_. ([], None)) = (e, r1)" by (meson surj_pair)
  then show ?thesis using tombstone_ttl [OF demo_ckpt_env, of 7 "\<lambda>_. ([], None)" e r1 "[]" "[1]"]
    by (simp add: map_redis_def demo_ckpt_def NewCheckpointStore_def ttl_seconds_def)
qed

end
