(* ===== verification/Chunk_Stream.thy ===== *)
theory Chunk_Stream
  imports Job_Monad Pipeline_Types "HOL-Library.AList"
begin

text \<open>
  Incremental delivery (internal/pipeline/stream.go): the token coalescer and the chunk streamer of a job.

  The clock, encryption under the session key and the publisher are \<open>stream_env\<close>; FrameKind and its
  constants belong to another module and are the record \<open>frame_lib\<close>, with \<open>frame_laws\<close>. A streamer keeps
  one coalescer per kind in an association list. \<open>cs_sent\<close> records the frames it published, newest first:
  sequence number, kind and plaintext. The fields that only feed log lines and the TTFT metric are left out.
\<close>

section \<open>State\<close>

type_synonym FrameKind = string

record frame_lib =
  fk_Text :: FrameKind
  fk_Reasoning :: FrameKind
  fk_Artifact :: FrameKind
  fk_Audio :: FrameKind
  fk_Stats :: FrameKind
  fk_Normalize :: "FrameKind \<Rightarrow> FrameKind"

definition stream_kinds :: "frame_lib \<Rightarrow> FrameKind list" where
  "stream_kinds fk = [fk_Reasoning fk, fk_Artifact fk, fk_Audio fk, fk_Text fk]"

definition frame_laws :: "frame_lib \<Rightarrow> bool" where
  "frame_laws fk \<longleftrightarrow> distinct (fk_Stats fk # stream_kinds fk) \<and> [] \<notin> set (fk_Stats fk # stream_kinds fk) \<and>
     (\<forall>k\<in>set (fk_Stats fk # stream_kinds fk). fk_Normalize fk k = k)"

record 's stream_env =
  se_now :: "('s, int) prog"
  se_Encrypt :: "byte list \<Rightarrow> ('s, go_error + byte list) prog"
  se_PublishChunk :: "u32 \<Rightarrow> FrameKind \<Rightarrow> byte list \<Rightarrow> ('s, unit) prog"

record tokenCoalescer =
  tc_buf :: string
  tc_count :: int
  tc_batchStart :: int

record chunkStreamer =
  cs_seq :: u32
  cs_coalescers :: "(FrameKind \<times> tokenCoalescer) list"
  cs_lastKind :: FrameKind
  cs_maxTokens :: int
  cs_maxInterval :: int
  cs_sent :: "(u32 \<times> FrameKind \<times> string) list"

definition defaultStreamChunkTokens :: int where
  "defaultStreamChunkTokens = 32"

definition defaultStreamChunkInterval :: int where
  "defaultStreamChunkInterval = 100 * Millisecond"

definition newTokenCoalescer :: tokenCoalescer where
  "newTokenCoalescer = \<lparr>tc_buf = [], tc_count = 0, tc_batchStart = 0\<rparr>"

definition max_tokens :: "chunkStreamer \<Rightarrow> int" where
  "max_tokens s = (if cs_maxTokens s \<le> 0 then defaultStreamChunkTokens else cs_maxTokens s)"

definition max_interval :: "chunkStreamer \<Rightarrow> int" where
  "max_interval s = (if cs_maxInterval s \<le> 0 then defaultStreamChunkInterval else cs_maxInterval s)"

definition new_streamer :: "int \<Rightarrow> int \<Rightarrow> chunkStreamer" where
  "new_streamer maxTokens maxInterval = \<lparr>cs_seq = 0, cs_coalescers = [], cs_lastKind = [], cs_maxTokens = maxTokens,
     cs_maxInterval = maxInterval, cs_sent = []\<rparr>"

section \<open>Operations\<close>

text \<open>publish encrypts one batch and emits it as the next frame; a failed encryption drops the frame.\<close>

definition publish_frame :: "frame_lib \<Rightarrow> 's stream_env \<Rightarrow> FrameKind \<Rightarrow> string \<Rightarrow> chunkStreamer \<Rightarrow> ('s, chunkStreamer) prog" where
  "publish_frame fk se kind batch s =
     (if batch = [] then ret s
      else do {
        r \<leftarrow> se_Encrypt se (string_bytes batch);
        case r of
          Inl e \<Rightarrow> ret s
        | Inr ciphertext \<Rightarrow> do {
            let s1 = s\<lparr>cs_seq := cs_seq s + 1\<rparr>;
            _ \<leftarrow> se_PublishChunk se (cs_seq s1) (fk_Normalize fk kind) ciphertext;
            ret (s1\<lparr>cs_sent := (cs_seq s1, fk_Normalize fk kind, batch) # cs_sent s1\<rparr>)
          }
      })"

definition coalescerFor :: "frame_lib \<Rightarrow> FrameKind \<Rightarrow> chunkStreamer \<Rightarrow> tokenCoalescer \<times> chunkStreamer" where
  "coalescerFor fk kind s =
     (let k = fk_Normalize fk kind in
      case map_of (cs_coalescers s) k of
        Some c \<Rightarrow> (c, s)
      | None \<Rightarrow> (newTokenCoalescer, s\<lparr>cs_coalescers := AList.update k newTokenCoalescer (cs_coalescers s)\<rparr>))"

definition put_coalescer :: "FrameKind \<Rightarrow> tokenCoalescer \<Rightarrow> chunkStreamer \<Rightarrow> chunkStreamer" where
  "put_coalescer k c s = s\<lparr>cs_coalescers := AList.update k c (cs_coalescers s)\<rparr>"

text \<open>Flush of the coalescer \<open>c\<close> of kind \<open>k\<close>.\<close>

definition co_Flush :: "frame_lib \<Rightarrow> 's stream_env \<Rightarrow> FrameKind \<Rightarrow> tokenCoalescer \<Rightarrow> chunkStreamer \<Rightarrow> ('s, chunkStreamer) prog" where
  "co_Flush fk se k c s =
     (if tc_count c = 0 then ret s
      else publish_frame fk se k (tc_buf c) (put_coalescer k (c\<lparr>tc_buf := [], tc_count := 0\<rparr>) s))"

definition co_Add :: "frame_lib \<Rightarrow> 's stream_env \<Rightarrow> FrameKind \<Rightarrow> tokenCoalescer \<Rightarrow> string \<Rightarrow> chunkStreamer \<Rightarrow> ('s, chunkStreamer) prog" where
  "co_Add fk se k c delta s =
     (if delta = [] then ret s
      else do {
        c1 \<leftarrow> (if tc_count c = 0 then do { t \<leftarrow> se_now se; ret (c\<lparr>tc_batchStart := t\<rparr>) } else ret c);
        let c2 = c1\<lparr>tc_buf := tc_buf c1 @ delta, tc_count := tc_count c1 + 1\<rparr>;
        if max_tokens s \<le> tc_count c2 then co_Flush fk se k c2 s
        else do {
          t \<leftarrow> se_now se;
          if max_interval s \<le> t - tc_batchStart c2 then co_Flush fk se k c2 s else ret (put_coalescer k c2 s)
        }
      })"

definition stream_Add :: "frame_lib \<Rightarrow> 's stream_env \<Rightarrow> FrameKind \<Rightarrow> string \<Rightarrow> chunkStreamer \<Rightarrow> ('s, chunkStreamer) prog" where
  "stream_Add fk se kind delta s =
     (if delta = [] then ret s
      else do {
        let k = fk_Normalize fk kind;
        s1 \<leftarrow> (if cs_lastKind s \<noteq> [] \<and> cs_lastKind s \<noteq> k
               then (case coalescerFor fk (cs_lastKind s) s of (c, s') \<Rightarrow> co_Flush fk se (fk_Normalize fk (cs_lastKind s)) c s')
               else ret s);
        (case coalescerFor fk k (s1\<lparr>cs_lastKind := k\<rparr>) of (c, s') \<Rightarrow> co_Add fk se (fk_Normalize fk k) c delta s')
      })"

fun flush_kinds :: "frame_lib \<Rightarrow> 's stream_env \<Rightarrow> FrameKind list \<Rightarrow> chunkStreamer \<Rightarrow> ('s, chunkStreamer) prog" where
  "flush_kinds fk se [] s = ret s"
| "flush_kinds fk se (k # ks) s = do {
     s1 \<leftarrow> (case map_of (cs_coalescers s) k of None \<Rightarrow> ret s | Some c \<Rightarrow> co_Flush fk se k c s);
     flush_kinds fk se ks s1
   }"

definition FlushAll :: "frame_lib \<Rightarrow> 's stream_env \<Rightarrow> chunkStreamer \<Rightarrow> ('s, chunkStreamer) prog" where
  "FlushAll fk se s = flush_kinds fk se (stream_kinds fk) s"

definition PublishBytes :: "frame_lib \<Rightarrow> 's stream_env \<Rightarrow> FrameKind \<Rightarrow> string \<Rightarrow> chunkStreamer \<Rightarrow> ('s, chunkStreamer) prog" where
  "PublishBytes fk se kind payload s =
     (if payload = [] then ret s
      else do {
        s1 \<leftarrow> (if cs_lastKind s \<noteq> []
               then (case coalescerFor fk (cs_lastKind s) s of (c, s') \<Rightarrow> co_Flush fk se (fk_Normalize fk (cs_lastKind s)) c s')
               else ret s);
        publish_frame fk se kind payload s1
      })"

text \<open>frames of a possibly nil streamer.\<close>

definition frames :: "chunkStreamer option \<Rightarrow> u32" where
  "frames so = (case so of None \<Rightarrow> 0 | Some s \<Rightarrow> cs_seq s)"

section \<open>What has been sent and what is buffered\<close>

definition enc_ok :: "'s stream_env \<Rightarrow> bool" where
  "enc_ok se \<longleftrightarrow> (\<forall>b st. \<not> isl (fst (run_state (se_Encrypt se b) st)))"

definition tagged :: "FrameKind \<Rightarrow> string \<Rightarrow> (FrameKind \<times> char) list" where
  "tagged k b = map (Pair k) b"

definition sent_chars :: "chunkStreamer \<Rightarrow> (FrameKind \<times> char) list" where
  "sent_chars s = concat (map (\<lambda>(n, k, b). tagged k b) (rev (cs_sent s)))"

definition buffered :: "chunkStreamer \<Rightarrow> (FrameKind \<times> char) list" where
  "buffered s = (case map_of (cs_coalescers s) (cs_lastKind s) of None \<Rightarrow> [] | Some c \<Rightarrow> tagged (cs_lastKind s) (tc_buf c))"

definition numbered :: "chunkStreamer \<Rightarrow> bool" where
  "numbered s \<longleftrightarrow> cs_seq s = of_nat (length (cs_sent s)) \<and>
     map fst (rev (cs_sent s)) = map of_nat [1..<Suc (length (cs_sent s))]"

text \<open>Only the coalescer of the last kind holds text, and an empty count means an empty buffer.\<close>

definition stream_ok :: "frame_lib \<Rightarrow> chunkStreamer \<Rightarrow> bool" where
  "stream_ok fk s \<longleftrightarrow> numbered s \<and> (cs_lastKind s = [] \<or> cs_lastKind s \<in> set (stream_kinds fk)) \<and>
     (\<forall>k c. map_of (cs_coalescers s) k = Some c \<longrightarrow> k \<in> set (stream_kinds fk) \<and> 0 \<le> tc_count c \<and>
        (tc_count c = 0 \<longleftrightarrow> tc_buf c = []) \<and> (tc_buf c \<noteq> [] \<longrightarrow> k = cs_lastKind s))"

lemma wp_any: "(\<And>x s. Q x s) \<Longrightarrow> wp m Q s"
  by (simp add: wp_def split: prod.splits)

lemma wp_Encrypt: "enc_ok se \<Longrightarrow> (\<And>c st'. Q (Inr c) st') \<Longrightarrow> wp (se_Encrypt se b) Q st"
  unfolding enc_ok_def wp_def by (metis (no_types, lifting) case_prod_beta isl_def sum.exhaust)

definition sent_frame :: "FrameKind \<Rightarrow> string \<Rightarrow> chunkStreamer \<Rightarrow> chunkStreamer" where
  "sent_frame k b s = s\<lparr>cs_seq := cs_seq s + 1, cs_sent := (cs_seq s + 1, k, b) # cs_sent s\<rparr>"

definition flushed :: "FrameKind \<Rightarrow> tokenCoalescer \<Rightarrow> chunkStreamer \<Rightarrow> chunkStreamer" where
  "flushed k c s = (if tc_count c = 0 then s
     else sent_frame k (tc_buf c) (put_coalescer k (c\<lparr>tc_buf := [], tc_count := 0\<rparr>) s))"

lemma kinds_Normalize [simp]: "frame_laws fk \<Longrightarrow> k \<in> set (stream_kinds fk) \<Longrightarrow> fk_Normalize fk k = k"
  by (simp add: frame_laws_def)

lemma kinds_nonempty: "frame_laws fk \<Longrightarrow> k \<in> set (stream_kinds fk) \<Longrightarrow> k \<noteq> []"
  unfolding frame_laws_def by (metis list.set_intros(2))

lemma wp_publish:
  assumes "enc_ok se" "b \<noteq> []" "Q (sent_frame (fk_Normalize fk k) b s) = (\<lambda>_. True)"
  shows "wp (publish_frame fk se k b s) Q st"
proof -
  have "wp (se_PublishChunk se (cs_seq s + 1) (fk_Normalize fk k) c) (\<lambda>_. Q (sent_frame (fk_Normalize fk k) b s)) st'" for c st'
    using assms(3) by (simp add: wp_any)
  then show ?thesis using assms(2)
    by (auto simp: publish_frame_def wp_simps sent_frame_def intro!: wp_Encrypt [OF assms(1)])
qed

lemma wp_Flush:
  assumes "enc_ok se" "frame_laws fk" "k \<in> set (stream_kinds fk)" "tc_count c = 0 \<longleftrightarrow> tc_buf c = []"
    and "Q (flushed k c s) = (\<lambda>_. True)"
  shows "wp (co_Flush fk se k c s) Q st"
  using assms by (auto simp: co_Flush_def flushed_def wp_simps intro!: wp_publish)

lemma sent_chars_frame [simp]: "sent_chars (sent_frame k b s) = sent_chars s @ tagged k b"
  by (simp add: sent_chars_def sent_frame_def)

lemma put_coalescer_sent [simp]: "sent_chars (put_coalescer k c s) = sent_chars s" "cs_lastKind (put_coalescer k c s) = cs_lastKind s"
    "numbered (put_coalescer k c s) = numbered s" "map_of (cs_coalescers (put_coalescer k c s)) k' = (if k' = k then Some c else map_of (cs_coalescers s) k')"
  by (simp_all add: sent_chars_def put_coalescer_def numbered_def update_conv')

lemma sent_frame_same [simp]: "cs_lastKind (sent_frame k b s) = cs_lastKind s" "cs_coalescers (sent_frame k b s) = cs_coalescers s"
  by (simp_all add: sent_frame_def)

lemma numbered_frame [simp]: "numbered s \<Longrightarrow> numbered (sent_frame k b s)"
  by (simp add: numbered_def sent_frame_def)

lemma flushed_ok:
  assumes "stream_ok fk s" "map_of (cs_coalescers s) k = Some c"
  shows "stream_ok fk (flushed k c s)" "cs_lastKind (flushed k c s) = cs_lastKind s"
    "sent_chars (flushed k c s) = sent_chars s @ tagged k (tc_buf c)"
    "\<exists>c'. map_of (cs_coalescers (flushed k c s)) k = Some c' \<and> tc_buf c' = []"
    "k' \<noteq> k \<Longrightarrow> map_of (cs_coalescers (flushed k c s)) k' = map_of (cs_coalescers s) k'"
  using assms by (auto simp: flushed_def stream_ok_def tagged_def split: if_splits)

lemma flushed_put:
  assumes "stream_ok fk (put_coalescer k c s)" "tc_count c \<noteq> 0"
  shows "stream_ok fk (flushed k c s)" "cs_lastKind (flushed k c s) = cs_lastKind s"
    "sent_chars (flushed k c s) = sent_chars s @ tagged k (tc_buf c)"
    "map_of (cs_coalescers (flushed k c s)) k = Some (c\<lparr>tc_buf := [], tc_count := 0\<rparr>)"
  using assms by (auto simp: flushed_def stream_ok_def split: if_splits)

section \<open>Adding and flushing\<close>

definition adds_text :: "frame_lib \<Rightarrow> FrameKind \<Rightarrow> string \<Rightarrow> chunkStreamer \<Rightarrow> chunkStreamer \<Rightarrow> bool" where
  "adds_text fk k d s s' \<longleftrightarrow> stream_ok fk s' \<and> sent_chars s' @ buffered s' = sent_chars s @ buffered s @ tagged k d"

lemma wp_co_Add:
  assumes "enc_ok se" "frame_laws fk" "k \<in> set (stream_kinds fk)" "stream_ok fk s" "map_of (cs_coalescers s) k = Some c"
    and "cs_lastKind s = k" "d \<noteq> []" "\<And>s'. adds_text fk k d s s' \<Longrightarrow> Q s' = (\<lambda>_. True)"
  shows "wp (co_Add fk se k c d s) Q st"
proof -
  have c: "0 \<le> tc_count c" "tc_count c = 0 \<longleftrightarrow> tc_buf c = []" using assms(4,5) by (auto simp: stream_ok_def)
  have co: "wp (if max_tokens s \<le> tc_count c2 then co_Flush fk se k c2 s
        else do { t \<leftarrow> se_now se; if max_interval s \<le> t - tc_batchStart c2 then co_Flush fk se k c2 s else ret (put_coalescer k c2 s) }) Q st2"
    if c2: "c2 = c1\<lparr>tc_buf := tc_buf c1 @ d, tc_count := tc_count c1 + 1\<rparr>" "tc_buf c1 = tc_buf c" "tc_count c1 = tc_count c" for c1 c2 st2
  proof -
    have p: "tc_buf c2 = tc_buf c @ d" "0 < tc_count c2" using c(1) c2 by simp_all
    have ok: "stream_ok fk (put_coalescer k c2 s)" "tc_count c2 \<noteq> 0" using assms(3-7) p by (auto simp: stream_ok_def)
    have "adds_text fk k d s (put_coalescer k c2 s)" using ok(1) assms(5,6) c2
      by (simp add: adds_text_def buffered_def tagged_def)
    moreover have "adds_text fk k d s (flushed k c2 s)" using flushed_put [OF ok] assms(5,6) c2
      by (simp add: adds_text_def buffered_def tagged_def)
    moreover have "wp (co_Flush fk se k c2 s) Q st3" for st3
      using ok(2) c2 assms(7) assms(8) [OF calculation(2)] by (intro wp_Flush assms(1-3)) auto
    ultimately show ?thesis using assms(8) by (auto simp: wp_simps intro!: wp_any)
  qed
  show ?thesis
    using assms(7) co [of _ "c\<lparr>tc_batchStart := _\<rparr>"] co [of _ c]
    by (auto simp: co_Add_def wp_simps Let_def intro!: wp_any)
qed

lemma coalescerFor_ok:
  assumes "frame_laws fk" "stream_ok fk s" "k \<in> set (stream_kinds fk)" "coalescerFor fk k s = (c, s')"
  shows "stream_ok fk s'" "map_of (cs_coalescers s') k = Some c" "sent_chars s' = sent_chars s" "buffered s' = buffered s"
    "cs_lastKind s' = cs_lastKind s"
  using assms by (auto simp: coalescerFor_def stream_ok_def newTokenCoalescer_def sent_chars_def buffered_def numbered_def
      update_conv' tagged_def Let_def split: option.splits if_splits)

lemma buffered_flushed:
  assumes "stream_ok fk s" "map_of (cs_coalescers s) (cs_lastKind s) = Some c"
  shows "buffered (flushed (cs_lastKind s) c s) = []" "buffered s = tagged (cs_lastKind s) (tc_buf c)"
    "\<And>k c'. map_of (cs_coalescers (flushed (cs_lastKind s) c s)) k = Some c' \<Longrightarrow> tc_buf c' = []"
proof -
  show "buffered s = tagged (cs_lastKind s) (tc_buf c)" using assms(2) by (simp add: buffered_def)
  show "buffered (flushed (cs_lastKind s) c s) = []"
    using flushed_ok(2,4) [OF assms] by (auto simp: buffered_def tagged_def)
  fix k c' assume "map_of (cs_coalescers (flushed (cs_lastKind s) c s)) k = Some c'"
  then show "tc_buf c' = []" using flushed_ok(1,2,4) [OF assms] unfolding stream_ok_def by (metis option.inject)
qed

lemma buffered_empty: "(\<And>k c. map_of (cs_coalescers s) k = Some c \<Longrightarrow> tc_buf c = []) \<Longrightarrow> buffered s = []"
  by (simp add: buffered_def tagged_def split: option.splits)

text \<open>Flushing the last kind leaves every buffer empty.\<close>

lemma wp_flush_last:
  assumes "enc_ok se" "frame_laws fk" "stream_ok fk s" "cs_lastKind s \<noteq> []"
    and "\<And>s'. stream_ok fk s' \<Longrightarrow> sent_chars s' = sent_chars s @ buffered s \<Longrightarrow> cs_lastKind s' = cs_lastKind s \<Longrightarrow>
      (\<forall>k c. map_of (cs_coalescers s') k = Some c \<longrightarrow> tc_buf c = []) \<Longrightarrow> Q s' = (\<lambda>_. True)"
  shows "wp (case coalescerFor fk (cs_lastKind s) s of (c, s') \<Rightarrow> co_Flush fk se (fk_Normalize fk (cs_lastKind s)) c s') Q st"
proof -
  obtain c s' where c: "coalescerFor fk (cs_lastKind s) s = (c, s')" by (meson surj_pair)
  have k: "cs_lastKind s \<in> set (stream_kinds fk)" using assms(3,4) by (simp add: stream_ok_def)
  note ok = coalescerFor_ok [OF assms(2,3) k c]
  have z: "tc_count c = 0 \<longleftrightarrow> tc_buf c = []" using ok(1,2) by (simp add: stream_ok_def)
  note m = ok(2) [folded ok(5)]
  note fl = flushed_ok [OF ok(1) m] and bf = buffered_flushed [OF ok(1) m]
  have "Q (flushed (cs_lastKind s') c s') = (\<lambda>_. True)"
    using fl(1-3) bf(2,3) ok(3-5) by (intro assms(5)) auto
  then show ?thesis using c k z ok(5) assms(1,2) by (auto intro!: wp_Flush)
qed

lemma wp_stream_Add:
  assumes "enc_ok se" "frame_laws fk" "k \<in> set (stream_kinds fk)" "stream_ok fk s"
    and "\<And>s'. adds_text fk k d s s' \<Longrightarrow> Q s' = (\<lambda>_. True)"
  shows "wp (stream_Add fk se k d s) Q st"
proof (cases "d = []")
  case True
  then show ?thesis using assms(4,5) by (simp add: stream_Add_def wp_simps adds_text_def tagged_def)
next
  case False
  note N = kinds_Normalize [OF assms(2,3)]
  have rest: "wp (case coalescerFor fk k (s1\<lparr>cs_lastKind := k\<rparr>) of (c, s') \<Rightarrow> co_Add fk se k c d s') Q st1"
    if s1: "stream_ok fk s1" "cs_lastKind s1 = [] \<or> cs_lastKind s1 = k \<or> (\<forall>k c. map_of (cs_coalescers s1) k = Some c \<longrightarrow> tc_buf c = [])"
      "sent_chars s1 @ buffered s1 = sent_chars s @ buffered s" for s1 st1
  proof -
    let ?s2 = "s1\<lparr>cs_lastKind := k\<rparr>"
    have emp: "tc_buf c = []" if "cs_lastKind s1 \<noteq> k" "map_of (cs_coalescers s1) k' = Some c" for k' c
    proof (cases "cs_lastKind s1 = []")
      case True
      then show ?thesis using s1(1) that kinds_nonempty [OF assms(2)] unfolding stream_ok_def by metis
    qed (use s1(2) that in auto)
    have "tc_buf c \<noteq> [] \<longrightarrow> k' = k" if "map_of (cs_coalescers s1) k' = Some c" for k' c
      using s1(1) emp that unfolding stream_ok_def by metis
    then have ok2: "stream_ok fk ?s2" using s1(1) assms(3) by (simp add: stream_ok_def numbered_def)
    have "buffered ?s2 = buffered s1"
    proof (cases "cs_lastKind s1 = k")
      case False
      then have "buffered ?s2 = []" "buffered s1 = []" by (auto intro!: buffered_empty emp)
      then show ?thesis by simp
    qed (simp add: buffered_def split: option.splits)
    then have b2: "buffered ?s2 = buffered s1" "sent_chars ?s2 = sent_chars s1" by (simp_all add: sent_chars_def)
    obtain c s3 where c: "coalescerFor fk k ?s2 = (c, s3)" by (meson surj_pair)
    note ok3 = coalescerFor_ok [OF assms(2) ok2 assms(3) c]
    have "adds_text fk k d s s'" if "adds_text fk k d s3 s'" for s'
      using that ok3(3,4) b2 s1(3) by (simp add: adds_text_def)
    then have "wp (co_Add fk se k c d s3) Q st1"
      using ok3 False assms(5) by (intro wp_co_Add assms(1-3)) auto
    then show ?thesis using c by simp
  qed
  show ?thesis
  proof (cases "cs_lastKind s \<noteq> [] \<and> cs_lastKind s \<noteq> k")
    case True
    have "wp (case coalescerFor fk (cs_lastKind s) s of (c, s') \<Rightarrow> co_Flush fk se (fk_Normalize fk (cs_lastKind s)) c s')
      (\<lambda>s1. wp (case coalescerFor fk k (s1\<lparr>cs_lastKind := k\<rparr>) of (c, s') \<Rightarrow> co_Add fk se k c d s') Q) st"
    proof (rule wp_flush_last [OF assms(1,2,4)])
      fix s1 assume s1: "stream_ok fk s1" "sent_chars s1 = sent_chars s @ buffered s"
        "\<forall>k c. map_of (cs_coalescers s1) k = Some c \<longrightarrow> tc_buf c = []"
      then have "buffered s1 = []" by (intro buffered_empty) auto
      then have "wp (case coalescerFor fk k (s1\<lparr>cs_lastKind := k\<rparr>) of (c, s') \<Rightarrow> co_Add fk se k c d s') Q st1" for st1
        using s1 by (intro rest) auto
      then show "wp (case coalescerFor fk k (s1\<lparr>cs_lastKind := k\<rparr>) of (c, s') \<Rightarrow> co_Add fk se k c d s') Q = (\<lambda>_. True)"
        by (simp add: fun_eq_iff)
    qed (use True in simp)
    then show ?thesis using True False N by (simp add: stream_Add_def wp_bind Let_def)
  next
    case False
    then have "wp (case coalescerFor fk k (s\<lparr>cs_lastKind := k\<rparr>) of (c, s') \<Rightarrow> co_Add fk se k c d s') Q st"
      by (intro rest assms(4)) auto
    then show ?thesis using False \<open>d \<noteq> []\<close> N by (auto simp: stream_Add_def wp_bind wp_ret Let_def simp del: split_paired_All)
  qed
qed

lemma wp_flush_kinds:
  assumes "enc_ok se" "frame_laws fk" "stream_ok fk s" "set ks \<subseteq> set (stream_kinds fk)"
    and "buffered s \<noteq> [] \<longrightarrow> cs_lastKind s \<in> set ks"
    and "\<And>s'. stream_ok fk s' \<Longrightarrow> sent_chars s' = sent_chars s @ buffered s \<Longrightarrow> Q s' = (\<lambda>_. True)"
  shows "wp (flush_kinds fk se ks s) Q st"
  using assms(3-)
proof (induction ks arbitrary: s st)
  case Nil
  then show ?case by (simp add: wp_simps)
next
  case (Cons k ks s st)
  have rest: "wp (flush_kinds fk se ks s1) Q st1"
    if "stream_ok fk s1" "sent_chars s1 @ buffered s1 = sent_chars s @ buffered s"
      "buffered s1 \<noteq> [] \<longrightarrow> cs_lastKind s1 \<in> set ks" for s1 st1
    using that Cons.prems(2,4) by (intro Cons.IH) auto
  show ?case
  proof (cases "map_of (cs_coalescers s) k")
    case None
    then have "buffered s \<noteq> [] \<longrightarrow> cs_lastKind s \<in> set ks" using Cons.prems(3) by (auto simp: buffered_def)
    then show ?thesis using None rest [OF Cons.prems(1)] by (simp add: wp_simps)
  next
    case (Some c)
    note fl = flushed_ok [OF Cons.prems(1) Some]
    have z: "tc_count c = 0 \<longleftrightarrow> tc_buf c = []" "tc_buf c \<noteq> [] \<longrightarrow> k = cs_lastKind s"
      using Cons.prems(1) Some by (auto simp: stream_ok_def)
    have b: "buffered (flushed k c s) = (if k = cs_lastKind s then [] else buffered s)"
      using fl(2,4) fl(5) [of "cs_lastKind s"] by (auto simp: buffered_def tagged_def split: option.splits)
    have t: "tagged k (tc_buf c) = (if k = cs_lastKind s then buffered s else [])"
      using z(2) Some by (auto simp: buffered_def tagged_def)
    have "wp (flush_kinds fk se ks (flushed k c s)) Q st1" for st1
      using fl(1-3) b t Cons.prems(3) by (intro rest) (auto split: if_splits)
    then have "wp (flush_kinds fk se ks (flushed k c s)) Q = (\<lambda>_. True)" by (simp add: fun_eq_iff)
    then have "wp (co_Flush fk se k c s) (\<lambda>x. wp (flush_kinds fk se ks x) Q) st"
      using z(1) Cons.prems(2) by (intro wp_Flush assms(1,2)) auto
    then show ?thesis using Some by (simp add: wp_simps)
  qed
qed

section \<open>Property\<close>

fun stream_all :: "frame_lib \<Rightarrow> 's stream_env \<Rightarrow> (FrameKind \<times> string) list \<Rightarrow> chunkStreamer \<Rightarrow> ('s, chunkStreamer) prog" where
  "stream_all fk se [] s = FlushAll fk se s"
| "stream_all fk se ((k, d) # ds) s = do { s1 \<leftarrow> stream_Add fk se k d s; stream_all fk se ds s1 }"

definition delta_chars :: "(FrameKind \<times> string) list \<Rightarrow> (FrameKind \<times> char) list" where
  "delta_chars ds = concat (map (\<lambda>(k, d). tagged k d) ds)"

lemma wp_stream_all:
  assumes "enc_ok se" "frame_laws fk" "stream_ok fk s" "fst ` set ds \<subseteq> set (stream_kinds fk)"
    and "\<And>s'. stream_ok fk s' \<Longrightarrow> sent_chars s' = sent_chars s @ buffered s @ delta_chars ds \<Longrightarrow> Q s' = (\<lambda>_. True)"
  shows "wp (stream_all fk se ds s) Q st"
  using assms(3-)
proof (induction ds arbitrary: s st)
  case Nil
  have "cs_lastKind s \<in> set (stream_kinds fk)" if "buffered s \<noteq> []"
    using that Nil.prems(1) by (auto simp: buffered_def stream_ok_def split: option.splits)
  then show ?case using Nil.prems unfolding stream_all.simps FlushAll_def
    by (intro wp_flush_kinds assms(1,2)) (auto simp: delta_chars_def)
next
  case (Cons kd ds s st)
  obtain k d where kd: "kd = (k, d)" by (meson surj_pair)
  have "wp (stream_all fk se ds s1) Q = (\<lambda>_. True)" if "adds_text fk k d s s1" for s1
  proof
    fix st1
    show "wp (stream_all fk se ds s1) Q st1 = True"
      using that Cons.prems(2,3) kd Cons.IH [of s1 st1] by (auto simp: adds_text_def delta_chars_def)
  qed
  then have "wp (stream_Add fk se k d s) (\<lambda>s1. wp (stream_all fk se ds s1) Q) st"
    using Cons.prems(1,2) kd by (intro wp_stream_Add assms(1,2)) auto
  then show ?case using kd by (simp add: wp_simps)
qed

text \<open>
  C21. Streaming delivers exactly what the model produced, in the order it produced it: over any sequence
  of deltas of any kinds, provided every frame encrypts (one that does not is dropped), and whatever the clock says between them, the frames published by the end of
  the stream, read in their order, carry the concatenation of the deltas character by character with
  their kinds, and they are numbered 1, 2, 3, ... without a gap.
\<close>

theorem stream_preserves_order:
  assumes "enc_ok se" "frame_laws fk" "fst ` set ds \<subseteq> set (stream_kinds fk)"
    and "run_state (stream_all fk se ds (new_streamer maxTokens maxInterval)) st = (s', st')"
  shows "concat (map (\<lambda>(n, k, b). map (Pair k) b) (rev (cs_sent s'))) = concat (map (\<lambda>(k, d). map (Pair k) d) ds) \<and>
         map fst (rev (cs_sent s')) = map of_nat [1..<Suc (length (cs_sent s'))] \<and> frames (Some s') = of_nat (length (cs_sent s'))"
proof -
  let ?s = "new_streamer maxTokens maxInterval"
  have "stream_ok fk ?s" "sent_chars ?s = []" "buffered ?s = []"
    by (simp_all add: stream_ok_def new_streamer_def numbered_def sent_chars_def buffered_def)
  then have "wp (stream_all fk se ds ?s) (\<lambda>s' _. stream_ok fk s' \<and> sent_chars s' = delta_chars ds) st"
    by (intro wp_stream_all assms(1-3)) (auto simp: fun_eq_iff)
  then have "stream_ok fk s'" "sent_chars s' = delta_chars ds" using assms(4) by (auto dest: wp_run)
  then show ?thesis by (simp add: sent_chars_def delta_chars_def tagged_def stream_ok_def numbered_def frames_def)
qed

definition demo_frames :: frame_lib where
  "demo_frames = \<lparr>fk_Text = ''text'', fk_Reasoning = ''reasoning'', fk_Artifact = ''artifact'', fk_Audio = ''audio'',
     fk_Stats = ''stats'', fk_Normalize = \<lambda>k. if k = [] then ''text'' else k\<rparr>"

definition demo_stream :: "int stream_env" where
  "demo_stream = \<lparr>se_now = State (\<lambda>t. (t, t + 60000000)), se_Encrypt = \<lambda>b. ret (Inr (0 # b)),
     se_PublishChunk = \<lambda>n k c. ret ()\<rparr>"

theorem stream_preserves_order_witness:
  "concat (map (\<lambda>(n, k, b). map (Pair k) b) (rev (cs_sent (fst (run_state
      (stream_all demo_frames demo_stream [(''reasoning'', ''hm''), (''text'', ''He''), (''text'', ''llo'')] (new_streamer 0 0)) 0))))) =
   map (Pair ''reasoning'') ''hm'' @ map (Pair ''text'') ''Hello''"
  using stream_preserves_order [of demo_stream demo_frames "[(''reasoning'', ''hm''), (''text'', ''He''), (''text'', ''llo'')]" 0 0 0, OF _ _ _ prod.collapse [symmetric]]
  by (simp add: enc_ok_def demo_stream_def frame_laws_def demo_frames_def stream_kinds_def)

end
