(* ===== verification/Job_Env.thy ===== *)
theory Job_Env
  imports Deadline_Guard Checkpoint_Store Chunk_Stream
begin

text \<open>
  The surroundings of the job pipeline: the interfaces, the configuration and the handler of
  internal/pipeline/handler.go, and the state its programs run on.

  \<^item> \<open>job_env\<close> answers every call the handler makes to the chain client, the blob layer, the key store, the
    model, the sidecars and the clock, from a state \<open>'c\<close> that each call may change. The deadline of a context
    and the timeouts put on it show only as the errors such calls return.
  \<^item> \<open>pkg_lib\<close> holds the functions of other modules (pkg/crypto, promptenv, searchaug, go-ethereum) and the
    JSON encodings of best-effort frames.
  \<^item> Before each Redis call of the attempt, \<open>je_redis\<close> gives the checkpoint writes other attempts slip in and
    the fault the call meets.
  \<^item> \<open>hs_trace\<close> records the calls that matter to a property and their answers, newest first.
\<close>

section \<open>Data of other modules\<close>

record Message =
  ms_Role :: string
  ms_Content :: string
  ms_Images :: "string list"

record promptEnvelope =
  pe_Text :: string
  pe_Images :: "string list"
  pe_Audio :: string
  pe_AudioFormat :: string
  pe_AudioResponse :: bool
  pe_Voice :: string
  pe_Messages :: "Message list"

record Source =
  so_Position :: int
  so_Title :: string
  so_URL :: string
  so_Snippet :: string

record ClientOptions =
  opt_KeepAlive :: string
  opt_NumPredict :: int
  opt_NumCtx :: int
  opt_Think :: "bool option"
  opt_ThinkLevel :: string
  opt_Temperature :: "string option"
  opt_Format :: "string option"

record StreamStats =
  ss_PromptTokens :: int
  ss_EvalTokens :: int
  ss_ThinkingBytes :: int
  ss_LoadDuration :: int
  ss_PromptEvalDuration :: int
  ss_EvalDuration :: int
  ss_TotalDuration :: int

definition no_options :: ClientOptions where
  "no_options = \<lparr>opt_KeepAlive = [], opt_NumPredict = 0, opt_NumCtx = 0, opt_Think = None, opt_ThinkLevel = [], opt_Temperature = None,
     opt_Format = None\<rparr>"

definition no_stats :: StreamStats where
  "no_stats = \<lparr>ss_PromptTokens = 0, ss_EvalTokens = 0, ss_ThinkingBytes = 0, ss_LoadDuration = 0,
     ss_PromptEvalDuration = 0, ss_EvalDuration = 0, ss_TotalDuration = 0\<rparr>"

record audioMeta =
  am_Voice :: string
  am_Chars :: int
  am_Truncated :: bool
  am_Final :: bool
  am_Bytes :: int
  am_Chunks :: int
  am_ContentHash :: "hash option"

record pkg_lib =
  pl_hash :: hash_lib
  pl_frames :: frame_lib
  pl_Decrypt :: "byte list \<Rightarrow> byte list \<Rightarrow> go_error + byte list"
  pl_DecryptSessionKey :: "byte list \<Rightarrow> go_error + byte list"
  pl_UnwrapSearch :: "byte list \<Rightarrow> go_error + string \<times> bool"
  pl_BuildAugmentedPrompt :: "string \<Rightarrow> Source list \<Rightarrow> string"
  pl_EncodeResponse :: "string \<Rightarrow> Source list \<Rightarrow> go_error + byte list"
  pl_Decode :: "string \<Rightarrow> go_error + promptEnvelope"
  pl_SelfContained :: "promptEnvelope \<Rightarrow> bool"
  pl_Conversation :: "promptEnvelope \<Rightarrow> Message list \<Rightarrow> Message list option"
  pl_Keccak256 :: "byte list \<Rightarrow> hash"
  pl_PackMismatch :: "int \<Rightarrow> address \<Rightarrow> u64 \<Rightarrow> u64 \<Rightarrow> byte list \<Rightarrow> go_error + byte list"
  pl_SignText :: "hash \<Rightarrow> go_error + byte list"
  pl_sourcesJSON :: "Source list \<Rightarrow> string"
  pl_statsJSON :: "StreamStats \<Rightarrow> int \<Rightarrow> string option"
  pl_audioMetaJSON :: "audioMeta \<Rightarrow> string option"

section \<open>Events\<close>

text \<open>What waiting for an overlapped acknowledgement ends with: the watcher's result, the timer or the job context.\<close>

datatype ack_wait = AckDone "go_error option" | AckTimeout | AckCtxDone go_error

datatype job_event =
    EvDeadline "go_error + int \<times> bool"
  | EvNow int
  | EvReadAcked u64 "go_error + bool"
  | EvAckTx u64 "go_error option"
  | EvAckSent u64 "go_error + hash"
  | EvAckWait hash ack_wait
  | EvCheckpoint u64 "go_error + JobCheckpoint"
  | EvPersist u64 "byte list" "go_error + byte list \<times> bool"
  | EvChunk u32 FrameKind "byte list"
  | EvMetadata "byte list"
  | EvModel string
  | EvPublish u64 u64 string string "byte list" u32
  | EvMarkDelivered u64 "go_error option"
  | EvBlobTx "byte list" "go_error + hash list"
  | EvReadCompleted u64 "go_error + bool"
  | EvComplete u64 hash hash "go_error option"
  | EvEligible u64 int
  | EvError u64 u64 string
  | EvCounter int

section \<open>The environment\<close>

text \<open>A streaming model call: the deltas it hands to the callbacks (thinking or answer), its statistics, its result.\<close>

type_synonym stream_result = "(bool \<times> string) list \<times> StreamStats \<times> (go_error + string)"

record 'c job_env =
  je_GetJobDeadline :: "u64 \<Rightarrow> 'c \<Rightarrow> (go_error + int \<times> bool) \<times> 'c"
  je_now :: "'c \<Rightarrow> int \<times> 'c"
  je_HasJobAcknowledged :: "u64 \<Rightarrow> 'c \<Rightarrow> (go_error + bool) \<times> 'c"
  je_AcknowledgeJob :: "u64 \<Rightarrow> 'c \<Rightarrow> go_error option \<times> 'c"
  je_AcknowledgeJobAsync :: "u64 \<Rightarrow> 'c \<Rightarrow> (go_error + hash) \<times> 'c"
  je_awaitConfirmed :: "hash \<Rightarrow> 'c \<Rightarrow> ack_wait \<times> 'c"
  je_CompleteJob :: "u64 \<Rightarrow> hash \<Rightarrow> hash \<Rightarrow> 'c \<Rightarrow> go_error option \<times> 'c"
  je_HasJobCompleted :: "u64 \<Rightarrow> 'c \<Rightarrow> (go_error + bool) \<times> 'c"
  je_GetSessionEncWorkerKey :: "u64 \<Rightarrow> 'c \<Rightarrow> (go_error + byte list) \<times> 'c"
  je_GetKey :: "u64 \<Rightarrow> 'c \<Rightarrow> (go_error + byte list) \<times> 'c"
  je_StoreKey :: "u64 \<Rightarrow> byte list \<Rightarrow> 'c \<Rightarrow> go_error option \<times> 'c"
  je_joinFlight :: "u64 \<Rightarrow> 'c \<Rightarrow> (go_error + byte list) option \<times> 'c"
  je_FetchBlob :: "hash \<Rightarrow> u64 \<Rightarrow> 'c \<Rightarrow> (go_error + byte list) \<times> 'c"
  je_SubmitBlobTx :: "byte list \<Rightarrow> 'c \<Rightarrow> (go_error + hash list) \<times> 'c"
  je_Encrypt :: "byte list \<Rightarrow> byte list \<Rightarrow> 'c \<Rightarrow> (go_error + byte list) \<times> 'c"
  je_Search :: "string \<Rightarrow> int \<Rightarrow> 'c \<Rightarrow> (go_error + Source list) \<times> 'c"
  je_PriorJobs :: "u64 \<Rightarrow> u64 \<Rightarrow> u64 \<Rightarrow> 'c \<Rightarrow> (go_error + u64 list) \<times> 'c"
  je_BuildHistory :: "byte list \<Rightarrow> u64 list \<Rightarrow> u64 \<Rightarrow> 'c \<Rightarrow> (go_error + Message list) \<times> 'c"
  je_Chat :: "ClientOptions \<Rightarrow> string \<Rightarrow> Message list \<Rightarrow> 'c \<Rightarrow> (go_error + string) \<times> 'c"
  je_Generate :: "ClientOptions \<Rightarrow> string \<Rightarrow> string \<Rightarrow> 'c \<Rightarrow> (go_error + string) \<times> 'c"
  je_ChatStream :: "ClientOptions \<Rightarrow> string \<Rightarrow> Message list \<Rightarrow> 'c \<Rightarrow> stream_result \<times> 'c"
  je_GenerateStream :: "ClientOptions \<Rightarrow> string \<Rightarrow> string \<Rightarrow> string list \<Rightarrow> 'c \<Rightarrow> stream_result \<times> 'c"
  je_Transcribe :: "byte list \<Rightarrow> string \<Rightarrow> 'c \<Rightarrow> (go_error + string) \<times> 'c"
  je_Synthesize :: "string \<Rightarrow> string \<Rightarrow> 'c \<Rightarrow> (go_error + byte list list \<times> go_error option) \<times> 'c"
  je_SynthesizeSettled :: "string \<Rightarrow> string \<Rightarrow> int \<Rightarrow> 'c \<Rightarrow> (go_error + byte list \<times> bool) \<times> 'c"
  je_MarkEligible :: "u64 \<Rightarrow> int \<Rightarrow> 'c \<Rightarrow> go_error option \<times> 'c"
  je_redis :: "'c \<Rightarrow> ((redis_fault \<times> ckpt_op) list \<times> redis_fault) \<times> 'c"

section \<open>Configuration and handler\<close>

record HandlerConfig =
  hc_ModelIDToName :: "(string \<times> string) list"
  hc_ChainID :: "int option"
  hc_JobRegistryAddr :: address
  hc_AckOverlapEnabled :: bool
  hc_StreamEnabled :: bool
  hc_StreamReasoning :: bool
  hc_StreamChunkTokens :: int
  hc_StreamChunkInterval :: int
  hc_ModelOptions :: "(string \<times> ClientOptions) list"
  hc_guard :: guard_config
  hc_STTEnabled :: bool
  hc_TTSEnabled :: bool
  hc_TTSVoice :: string
  hc_SpeechModelName :: string
  hc_TTSMaxChars :: int
  hc_TTSTimeout :: int
  hc_SearchMaxResults :: int

text \<open>
  The optional dependencies: which extensions the chain and inference clients implement
  (AsyncAckClient, JobDeadlineClient, StreamingInferenceClient, WithOverrides) and which of the nilable
  fields are set; the publisher comes with its SupportsChunks answer.
\<close>

record 'r JobHandler =
  jh_cfg :: HandlerConfig
  jh_modelIDToName :: "(string \<times> string) list"
  jh_asyncAck :: bool
  jh_reportsDeadlines :: bool
  jh_publisher :: "bool option"
  jh_checkpoints :: "('r redis \<times> CheckpointStore) option"
  jh_releaseTracker :: bool
  jh_voiceEngine :: bool
  jh_searcher :: bool
  jh_priorJobs :: bool
  jh_streamingClient :: bool
  jh_overridingClient :: bool
  jh_clientOptions :: ClientOptions

record ('c, 'r) hst =
  hs_env :: 'c
  hs_redis :: 'r
  hs_trace :: "job_event list"

section \<open>Calls\<close>

definition hask :: "('c \<Rightarrow> 'x \<times> 'c) \<Rightarrow> ('x \<Rightarrow> job_event list) \<Rightarrow> (('c, 'r) hst, 'x) prog" where
  "hask f ev = State (\<lambda>s. case f (hs_env s) of (x, c) \<Rightarrow> (x, s\<lparr>hs_env := c, hs_trace := ev x @ hs_trace s\<rparr>))"

definition hnote :: "job_event \<Rightarrow> (('c, 'r) hst, unit) prog" where
  "hnote e = State (\<lambda>s. ((), s\<lparr>hs_trace := e # hs_trace s\<rparr>))"

text \<open>A call on the checkpoint store, after the writes of other attempts.\<close>

definition hredis :: "'c job_env \<Rightarrow> pkg_lib \<Rightarrow> 'r redis \<times> CheckpointStore \<Rightarrow> (redis_fault \<Rightarrow> ('r, 'x) prog) \<Rightarrow> ('x \<Rightarrow> job_event list) \<Rightarrow>
    (('c, 'r) hst, 'x) prog" where
  "hredis je lib store m ev = State (\<lambda>s.
     case je_redis je (hs_env s) of
       ((others, flt), c) \<Rightarrow>
         (case run_state (m flt) (run_ops (fst store) (pl_hash lib) (snd store) others (hs_redis s)) of
            (x, r) \<Rightarrow> (x, s\<lparr>hs_env := c, hs_redis := r, hs_trace := ev x @ hs_trace s\<rparr>)))"

definition h_deadline :: "'c job_env \<Rightarrow> ('c, 'r) hst deadline_client" where
  "h_deadline je = \<lparr>dl_GetJobDeadline = \<lambda>j. hask (je_GetJobDeadline je j) (\<lambda>x. [EvDeadline x]),
     dl_now = hask (je_now je) (\<lambda>t. [EvNow t])\<rparr>"

definition h_stream :: "'c job_env \<Rightarrow> byte list \<Rightarrow> ('c, 'r) hst stream_env" where
  "h_stream je key = \<lparr>se_now = hask (je_now je) (\<lambda>_. []), se_Encrypt = \<lambda>b. hask (je_Encrypt je key b) (\<lambda>_. []),
     se_PublishChunk = \<lambda>n k c. hnote (EvChunk n k c)\<rparr>"

end
