(* ===== verification/Inference_Stages.thy ===== *)
theory Inference_Stages
  imports Job_Env "HOL-Library.Char_ord"
begin

text \<open>
  Stages 3 to 6 of a job: session key, prompt decryption, web search, voice input, conversation history,
  inference (batch, streamed or speech), encryption and voice output (runInferencePipeline and its
  helpers in internal/pipeline/handler.go and voice.go). Metrics, log lines and context plumbing are left
  out; the deadline gateInference puts on the inference context is not followed further.
\<close>

section \<open>Models\<close>

definition TrimPrefix :: "string \<Rightarrow> string \<Rightarrow> string" where
  "TrimPrefix s p = (if take (length p) s = p then drop (length p) s else s)"

definition normalizeModelLookupKey :: "string \<Rightarrow> string" where
  "normalizeModelLookupKey modelID = strings_ToLower (TrimPrefix (TrimPrefix modelID ''0x'') ''0X'')"

definition looksLikeHexModelID :: "string \<Rightarrow> bool" where
  "looksLikeHexModelID modelID =
     (let normalized = normalizeModelLookupKey modelID in
      length normalized = 64 \<and>
      list_all (\<lambda>r. (CHR ''0'' \<le> r \<and> r \<le> CHR ''9'') \<or> (CHR ''a'' \<le> r \<and> r \<le> CHR ''f'')) normalized)"

definition resolveModelName :: "'r JobHandler \<Rightarrow> string \<Rightarrow> go_error + string" where
  "resolveModelName h modelID =
     (if jh_modelIDToName h = [] then Inr modelID
      else case map_of (jh_modelIDToName h) (normalizeModelLookupKey modelID) of
        Some modelName \<Rightarrow> Inr modelName
      | None \<Rightarrow>
          if looksLikeHexModelID modelID
          then Inl (errorf ''no local Ollama model configured for queued model ID'')
          else Inr modelID)"

definition apply_override :: "ClientOptions \<Rightarrow> ClientOptions \<Rightarrow> ClientOptions" where
  "apply_override override o' = o'\<lparr>
     opt_NumPredict := (if opt_NumPredict override \<noteq> 0 then opt_NumPredict override else opt_NumPredict o'),
     opt_NumCtx := (if opt_NumCtx override \<noteq> 0 then opt_NumCtx override else opt_NumCtx o'),
     opt_Temperature := (if opt_Temperature override \<noteq> None then opt_Temperature override else opt_Temperature o'),
     opt_ThinkLevel := (if opt_ThinkLevel override \<noteq> [] then opt_ThinkLevel override else opt_ThinkLevel o')\<rparr>"

definition inferenceClientFor :: "'r JobHandler \<Rightarrow> string \<Rightarrow> ClientOptions \<times> bool" where
  "inferenceClientFor h modelName =
     (case map_of (hc_ModelOptions (jh_cfg h)) modelName of
        None \<Rightarrow> (jh_clientOptions h, False)
      | Some override \<Rightarrow>
          if \<not> jh_overridingClient h then (jh_clientOptions h, False)
          else (apply_override override (jh_clientOptions h), True))"

definition is_speech :: "'r JobHandler \<Rightarrow> string \<Rightarrow> bool" where
  "is_speech h modelName \<longleftrightarrow> hc_SpeechModelName (jh_cfg h) \<noteq> [] \<and> modelName = hc_SpeechModelName (jh_cfg h)"

section \<open>Stages 3 and 4: the key and the prompt\<close>

definition deriveAndStoreSessionKey :: "'c job_env \<Rightarrow> pkg_lib \<Rightarrow> u64 \<Rightarrow> (('c, 'r) hst, go_error + byte list) prog" where
  "deriveAndStoreSessionKey je lib sessionID =
     attempt (map_err (wrapf ''fetch enc worker key'') (hask (je_GetSessionEncWorkerKey je sessionID) (\<lambda>_. [])))
       (\<lambda>encWorkerKey. case pl_DecryptSessionKey lib encWorkerKey of
          Inl e \<Rightarrow> ret (Inl (wrapf ''decrypt session key'' e))
        | Inr sessionKey \<Rightarrow> do {
            _ \<leftarrow> hask (je_StoreKey je sessionID sessionKey) (\<lambda>_. []);
            ret (Inr sessionKey)
          })"

text \<open>\<open>je_joinFlight\<close> is the result of another caller's flight for the session, when there is one to join.\<close>

definition getOrDeriveSessionKey :: "'c job_env \<Rightarrow> pkg_lib \<Rightarrow> u64 \<Rightarrow> (('c, 'r) hst, go_error + byte list) prog" where
  "getOrDeriveSessionKey je lib sessionID = do {
     cached \<leftarrow> hask (je_GetKey je sessionID) (\<lambda>_. []);
     case cached of
       Inr key \<Rightarrow> ret (Inr key)
     | Inl _ \<Rightarrow> do {
         flight \<leftarrow> hask (je_joinFlight je sessionID) (\<lambda>_. []);
         case flight of
           Some r \<Rightarrow> ret r
         | None \<Rightarrow> do {
             again \<leftarrow> hask (je_GetKey je sessionID) (\<lambda>_. []);
             case again of
               Inr key \<Rightarrow> ret (Inr key)
             | Inl _ \<Rightarrow> deriveAndStoreSessionKey je lib sessionID
           }
       }
   }"

definition refreshSessionKey :: "'c job_env \<Rightarrow> pkg_lib \<Rightarrow> u64 \<Rightarrow> (('c, 'r) hst, go_error + byte list) prog" where
  "refreshSessionKey je lib sessionID = deriveAndStoreSessionKey je lib sessionID"

definition open_prompt :: "'c job_env \<Rightarrow> pkg_lib \<Rightarrow> JobPayload \<Rightarrow> byte list \<Rightarrow> (('c, 'r) hst, go_error + byte list \<times> byte list) prog" where
  "open_prompt je lib p blobData =
     attempt (map_err (wrapf ''stage 3 (session key)'') (getOrDeriveSessionKey je lib (jp_SessionID p)))
       (\<lambda>sessionKey. case pl_Decrypt lib sessionKey blobData of
          Inr prompt \<Rightarrow> ret (Inr (sessionKey, prompt))
        | Inl err \<Rightarrow> do {
            refreshed \<leftarrow> refreshSessionKey je lib (jp_SessionID p);
            case refreshed of
              Inl _ \<Rightarrow> ret (Inl (wrapf ''stage 4 (decrypt prompt)'' err))
            | Inr key2 \<Rightarrow>
                (case pl_Decrypt lib key2 blobData of
                   Inl e2 \<Rightarrow> ret (Inl (wrapf ''stage 4 (decrypt prompt after key refresh)'' e2))
                 | Inr prompt \<Rightarrow> ret (Inr (key2, prompt)))
          })"

text \<open>A malformed self-contained job fails the same way on every attempt.\<close>

definition no_retry_malformed :: "go_error \<Rightarrow> go_error" where
  "no_retry_malformed e = (if errors_Is e ErrInvalidSelfContained then noRetry e else e)"

definition search_stage :: "'c job_env \<Rightarrow> pkg_lib \<Rightarrow> 'r JobHandler \<Rightarrow> byte list \<Rightarrow> (('c, 'r) hst, go_error + string \<times> Source list) prog" where
  "search_stage je lib h prompt =
     (case pl_UnwrapSearch lib prompt of
        Inl e \<Rightarrow> ret (Inl (no_retry_malformed (wrapf ''stage 4 (decode prompt envelope)'' e)))
      | Inr (promptText, searchEnabled) \<Rightarrow>
          if searchEnabled \<and> jh_searcher h
          then do {
            let maxResults = (if hc_SearchMaxResults (jh_cfg h) \<le> 0 then 5 else hc_SearchMaxResults (jh_cfg h));
            r \<leftarrow> hask (je_Search je promptText maxResults) (\<lambda>_. []);
            (case r of
               Inl e \<Rightarrow> ret (Inr (promptText, []))
             | Inr sources \<Rightarrow>
                 if sources \<noteq> [] then ret (Inr (pl_BuildAugmentedPrompt lib promptText sources, sources))
                 else ret (Inr (promptText, [])))
          }
          else ret (Inr (promptText, [])))"

section \<open>Stage 5: inference\<close>

definition maybeTranscribeAudio :: "'c job_env \<Rightarrow> 'r JobHandler \<Rightarrow> promptEnvelope \<Rightarrow> (('c, 'r) hst, go_error + promptEnvelope) prog" where
  "maybeTranscribeAudio je h env =
     (if pe_Audio env = [] then ret (Inr env)
      else if \<not> jh_voiceEngine h \<or> \<not> hc_STTEnabled (jh_cfg h)
      then (if pe_Text env = [] then ret (Inl (noRetry (wrapf ''stage 5 (transcribe audio)''
               (errorf ''prompt is audio-only but STT is not enabled on this worker''))))
            else ret (Inr (env\<lparr>pe_Audio := []\<rparr>)))
      else case base64_Decode (pe_Audio env) of
        None \<Rightarrow> ret (Inl (noRetry (wrapf ''stage 5 (transcribe audio)'' (errorf ''undecodable base64 audio''))))
      | Some raw \<Rightarrow> do {
          let format = (if pe_AudioFormat env = [] then ''wav'' else pe_AudioFormat env);
          r \<leftarrow> hask (je_Transcribe je raw format) (\<lambda>_. []);
          (case r of
             Inl err \<Rightarrow>
               (let e = wrapf ''stage 5 (transcribe audio)'' err in
                ret (Inl (if errors_Is err ErrBadAudio then noRetry e else e)))
           | Inr t \<Rightarrow>
               (let transcript = TrimSpace t in
                if transcript = []
                then ret (Inl (noRetry (wrapf ''stage 5 (transcribe audio)'' (errorf ''STT sidecar returned an empty transcript''))))
                else ret (Inr (env\<lparr>pe_Text := (if pe_Text env = [] then transcript else pe_Text env @ [CHR 0x0A] @ transcript),
                                   pe_Audio := []\<rparr>))))
        })"

definition conversationHistory :: "'c job_env \<Rightarrow> 'r JobHandler \<Rightarrow> JobPayload \<Rightarrow> byte list \<Rightarrow> (('c, 'r) hst, go_error + Message list) prog" where
  "conversationHistory je h p sessionKey =
     attempt (if jh_priorJobs h
              then map_err (wrapf ''list prior jobs'') (hask (je_PriorJobs je (jp_SessionID p) (jp_JobID p) (jp_BlockNumber p)) (\<lambda>_. []))
              else ret (Inr (jp_PriorJobIDs p)))
       (\<lambda>ids. if ids = [] then ret (Inr [])
              else hask (je_BuildHistory je sessionKey ids (jp_BlockNumber p)) (\<lambda>_. []))"

definition newChunkStreamer :: "'r JobHandler \<Rightarrow> bool \<Rightarrow> chunkStreamer option" where
  "newChunkStreamer h allowed =
     (if \<not> allowed \<or> \<not> hc_StreamEnabled (jh_cfg h) then None
      else if jh_publisher h \<noteq> Some True then None
      else if \<not> jh_streamingClient h then None
      else Some (new_streamer (hc_StreamChunkTokens (jh_cfg h)) (hc_StreamChunkInterval (jh_cfg h))))"

definition SettledAudioMaxBytes :: int where
  "SettledAudioMaxBytes = 92000"

definition runSpeechJob :: "'c job_env \<Rightarrow> 'r JobHandler \<Rightarrow> string \<Rightarrow> (('c, 'r) hst, go_error + string) prog" where
  "runSpeechJob je h text =
     (if \<not> jh_voiceEngine h then ret (Inl (errorf ''stage 5 (speech): no voice engine configured; set TTS_ENABLED and TTS_SIDECAR_URL''))
      else let spoken = TrimSpace text in
        if spoken = [] then ret (Inl (errorf ''stage 5 (speech): nothing to read''))
        else do {
          let voiceName = (if hc_TTSVoice (jh_cfg h) = [] then ''af_heart'' else hc_TTSVoice (jh_cfg h));
          r \<leftarrow> hask (je_SynthesizeSettled je spoken voiceName SettledAudioMaxBytes) (\<lambda>_. []);
          (case r of
             Inl e \<Rightarrow> ret (Inl (wrapf ''stage 5 (speech)'' e))
           | Inr (audio, truncated) \<Rightarrow> ret (Inr (base64_Encode audio)))
        })"

fun feed_deltas :: "frame_lib \<Rightarrow> 's stream_env \<Rightarrow> (FrameKind \<times> string) list \<Rightarrow> chunkStreamer \<Rightarrow> ('s, chunkStreamer) prog" where
  "feed_deltas fk se [] s = ret s"
| "feed_deltas fk se ((k, d) # ds) s = do { s1 \<leftarrow> stream_Add fk se k d s; feed_deltas fk se ds s1 }"

text \<open>The deltas that reach a callback: OnThinking is set only when reasoning is streamed.\<close>

definition delta_kinds :: "frame_lib \<Rightarrow> bool \<Rightarrow> (bool \<times> string) list \<Rightarrow> (FrameKind \<times> string) list" where
  "delta_kinds fk reasoning ds =
     map (\<lambda>(thinking, d). (if thinking then fk_Reasoning fk else fk_Text fk, d)) (filter (\<lambda>(thinking, d). reasoning \<or> \<not> thinking) ds)"

definition runInference :: "'c job_env \<Rightarrow> pkg_lib \<Rightarrow> 'r JobHandler \<Rightarrow> byte list \<Rightarrow> ClientOptions \<Rightarrow> string \<Rightarrow> promptEnvelope \<Rightarrow> Message list \<Rightarrow>
    chunkStreamer option \<Rightarrow> (('c, 'r) hst, chunkStreamer option \<times> StreamStats \<times> (go_error + string)) prog" where
  "runInference je lib h sessionKey opts modelName prompt history streamer =
     (if is_speech h modelName
      then do { r \<leftarrow> runSpeechJob je h (pe_Text prompt); ret (streamer, no_stats, r) }
      else do {
        let messages = pl_Conversation lib prompt history;
        _ \<leftarrow> hnote (EvModel modelName);
        (case streamer of
           None \<Rightarrow> do {
             r \<leftarrow> (case messages of
                     Some ms \<Rightarrow> hask (je_Chat je opts modelName ms) (\<lambda>_. [])
                   | None \<Rightarrow> hask (je_Generate je opts modelName (pe_Text prompt)) (\<lambda>_. []));
             ret (None, no_stats, r)
           }
         | Some s \<Rightarrow> do {
             res \<leftarrow> (case messages of
                       Some ms \<Rightarrow> hask (je_ChatStream je opts modelName ms) (\<lambda>_. [])
                     | None \<Rightarrow> hask (je_GenerateStream je opts modelName (pe_Text prompt) (pe_Images prompt)) (\<lambda>_. []));
             (case res of (deltas, stats, r) \<Rightarrow> do {
                s1 \<leftarrow> feed_deltas (pl_frames lib) (h_stream je sessionKey)
                       (delta_kinds (pl_frames lib) (hc_StreamReasoning (jh_cfg h)) deltas) s;
                (case r of
                   Inl e \<Rightarrow> ret (Some s1, stats, Inl e)
                 | Inr response \<Rightarrow> do {
                     s2 \<leftarrow> FlushAll (pl_frames lib) (h_stream je sessionKey) s1;
                     ret (Some s2, stats, Inr response)
                   })
              })
           })
      })"

definition recordStats :: "'c job_env \<Rightarrow> pkg_lib \<Rightarrow> byte list \<Rightarrow> chunkStreamer option \<Rightarrow> StreamStats \<Rightarrow> int \<Rightarrow> (('c, 'r) hst, chunkStreamer option) prog" where
  "recordStats je lib sessionKey streamer st appliedMaxTokens =
     (case streamer of
        None \<Rightarrow> ret None
      | Some s \<Rightarrow>
          if ss_EvalTokens st = 0 then ret (Some s)
          else case pl_statsJSON lib st appliedMaxTokens of
            None \<Rightarrow> ret (Some s)
          | Some payload \<Rightarrow> do {
              s1 \<leftarrow> PublishBytes (pl_frames lib) (h_stream je sessionKey) (fk_Stats (pl_frames lib)) payload s;
              ret (Some s1)
            })"

section \<open>Stage 6b: voice output\<close>

definition voiceStreamMargin :: int where
  "voiceStreamMargin = 5 * Second"

definition defaultTTSTimeout :: int where
  "defaultTTSTimeout = 20 * Second"

definition bytes_string :: "byte list \<Rightarrow> string" where
  "bytes_string = map (\<lambda>b. char_of (unat b))"

text \<open>The read loop: the chunks the sidecar's stream delivers, each published as one frame.\<close>

fun audio_loop :: "frame_lib \<Rightarrow> 's stream_env \<Rightarrow> byte list list \<Rightarrow> nat \<Rightarrow> nat \<Rightarrow> chunkStreamer \<Rightarrow> ('s, nat \<times> nat \<times> chunkStreamer) prog" where
  "audio_loop fk se [] totalBytes chunks s = ret (totalBytes, chunks, s)"
| "audio_loop fk se (b # bs) totalBytes chunks s =
     (if b = [] then audio_loop fk se bs totalBytes chunks s
      else do {
        s1 \<leftarrow> PublishBytes fk se (fk_Audio fk) (bytes_string b) s;
        audio_loop fk se bs (totalBytes + length b) (Suc chunks) s1
      })"

definition publishAudioMeta :: "'c job_env \<Rightarrow> pkg_lib \<Rightarrow> byte list \<Rightarrow> audioMeta \<Rightarrow> chunkStreamer \<Rightarrow> (('c, 'r) hst, bool \<times> chunkStreamer) prog" where
  "publishAudioMeta je lib sessionKey meta s =
     (case pl_audioMetaJSON lib meta of
        None \<Rightarrow> ret (False, s)
      | Some raw \<Rightarrow> do {
          s1 \<leftarrow> PublishBytes (pl_frames lib) (h_stream je sessionKey) (fk_Audio (pl_frames lib)) raw s;
          ret (True, s1)
        })"

definition tts_text :: "'r JobHandler \<Rightarrow> string \<Rightarrow> string \<times> bool" where
  "tts_text h response =
     (let m = hc_TTSMaxChars (jh_cfg h) in
      if 0 < m \<and> m < int (length response) then (take (nat m) response, True) else (response, False))"

definition stream_audio :: "'c job_env \<Rightarrow> pkg_lib \<Rightarrow> byte list \<Rightarrow> audioMeta \<Rightarrow> byte list list \<times> go_error option \<Rightarrow> chunkStreamer \<Rightarrow> (('c, 'r) hst, chunkStreamer) prog" where
  "stream_audio je lib sessionKey header audio s = do {
     res \<leftarrow> publishAudioMeta je lib sessionKey header s;
     (case res of (ok, s1) \<Rightarrow>
       if \<not> ok then ret s1
       else do {
         res2 \<leftarrow> audio_loop (pl_frames lib) (h_stream je sessionKey) (fst audio) 0 0 s1;
         (case res2 of (totalBytes, chunks, s2) \<Rightarrow>
           if snd audio \<noteq> None \<or> totalBytes = 0 then ret s2
           else do {
             res3 \<leftarrow> publishAudioMeta je lib sessionKey
                (header\<lparr>am_Final := True, am_Bytes := int totalBytes, am_Chunks := int chunks,
                        am_ContentHash := Some (pl_Keccak256 lib (concat (fst audio)))\<rparr>) s2;
             ret (snd res3)
           })
       })
   }"

definition maybeDeliverAudio :: "'c job_env \<Rightarrow> pkg_lib \<Rightarrow> 'r JobHandler \<Rightarrow> byte list \<Rightarrow> chunkStreamer option \<Rightarrow> string \<Rightarrow> promptEnvelope \<Rightarrow>
    deadlineGuard option \<Rightarrow> (('c, 'r) hst, chunkStreamer option) prog" where
  "maybeDeliverAudio je lib h sessionKey streamer response env guard =
     (if \<not> jh_voiceEngine h \<or> \<not> hc_TTSEnabled (jh_cfg h) \<or> \<not> pe_AudioResponse env then ret streamer
      else case streamer of
        None \<Rightarrow> ret None
      | Some s \<Rightarrow>
          if response = [] then ret (Some s)
          else (case tts_text h response of (text, truncated) \<Rightarrow> do {
            let voiceName = (if pe_Voice env = [] then hc_TTSVoice (jh_cfg h) else pe_Voice env);
            let ttsTimeout = (if hc_TTSTimeout (jh_cfg h) \<le> 0 then defaultTTSTimeout else hc_TTSTimeout (jh_cfg h));
            ok \<leftarrow> voiceBudgetOK (h_deadline je) guard (i64 (ttsTimeout + voiceStreamMargin));
            if \<not> ok then ret (Some s)
            else do {
              r \<leftarrow> hask (je_Synthesize je text voiceName) (\<lambda>_. []);
              (case r of
                 Inl e \<Rightarrow> ret (Some s)
               | Inr audio \<Rightarrow> do {
                   s1 \<leftarrow> stream_audio je lib sessionKey \<lparr>am_Voice = voiceName, am_Chars = int (length text),
                           am_Truncated = truncated, am_Final = False, am_Bytes = 0, am_Chunks = 0, am_ContentHash = None\<rparr> audio s;
                   ret (Some s1)
                 })
            }
          }))"

section \<open>Stages 3 to 6\<close>

definition stage5_error :: "Message list \<Rightarrow> go_error \<Rightarrow> go_error" where
  "stage5_error history err =
     (if 0 < length history then wrapf ''stage 5 (chat inference)'' err else wrapf ''stage 5 (inference)'' err)"

text \<open>A failed model call: an empty generation and a passed deadline are final.\<close>

definition classify_inference_error :: "'c job_env \<Rightarrow> deadlineGuard option \<Rightarrow> Message list \<Rightarrow> go_error \<Rightarrow> (('c, 'r) hst, go_error) prog" where
  "classify_inference_error je guard history err =
     (if errors_Is err ErrEmptyGeneration then ret (noRetry (stage5_error history err))
      else do {
        doomed \<leftarrow> isDoomedNow (h_deadline je) guard;
        ret (if doomed then noRetry (wrap_also (stage5_error history err) ErrJobDoomed) else stage5_error history err)
      })"

text \<open>Stage 6 and what follows it: encrypt, citations, voice.\<close>

definition finish_response :: "'c job_env \<Rightarrow> pkg_lib \<Rightarrow> 'r JobHandler \<Rightarrow> byte list \<Rightarrow> Source list \<Rightarrow> chunkStreamer option \<Rightarrow> string \<Rightarrow> promptEnvelope \<Rightarrow>
    deadlineGuard option \<Rightarrow> (('c, 'r) hst, go_error + byte list \<times> u32) prog" where
  "finish_response je lib h sessionKey searchSources streamer response env guard =
     (case pl_EncodeResponse lib response searchSources of
        Inl e \<Rightarrow> ret (Inl (wrapf ''stage 6 (encode response)'' e))
      | Inr respBytes \<Rightarrow>
          attempt (map_err (wrapf ''stage 6 (encrypt response)'') (hask (je_Encrypt je sessionKey respBytes) (\<lambda>_. [])))
            (\<lambda>ciphertext. do {
               _ \<leftarrow> (if searchSources \<noteq> [] \<and> jh_publisher h \<noteq> None
                    then do {
                      m \<leftarrow> hask (je_Encrypt je sessionKey (string_bytes (pl_sourcesJSON lib searchSources))) (\<lambda>_. []);
                      (case m of Inl e \<Rightarrow> ret () | Inr metaPayload \<Rightarrow> hnote (EvMetadata metaPayload))
                    }
                    else ret ());
               s1 \<leftarrow> maybeDeliverAudio je lib h sessionKey streamer response env guard;
               ret (Inr (ciphertext, frames s1))
             }))"

definition generate_response :: "'c job_env \<Rightarrow> pkg_lib \<Rightarrow> 'r JobHandler \<Rightarrow> JobPayload \<Rightarrow> byte list \<Rightarrow> string \<Rightarrow> promptEnvelope \<Rightarrow> bool \<Rightarrow>
    deadlineGuard option \<Rightarrow> Source list \<Rightarrow> (('c, 'r) hst, go_error + byte list \<times> u32) prog" where
  "generate_response je lib h p sessionKey modelName env streamDeltas guard searchSources =
     (let (opts, overrideApplied) = inferenceClientFor h modelName in
      attempt (gateInference (h_deadline je) guard) (\<lambda>clamp.
      attempt (maybeTranscribeAudio je h env) (\<lambda>envelope.
      attempt (if pl_SelfContained lib envelope then ret (Inr [])
               else map_err (wrapf ''stage 5 (build history)'') (conversationHistory je h p sessionKey)) (\<lambda>history. do {
        res \<leftarrow> runInference je lib h sessionKey opts modelName envelope history (newChunkStreamer h streamDeltas);
        (case res of (streamer, stats, r) \<Rightarrow>
           case r of
             Inl err \<Rightarrow> do { e \<leftarrow> classify_inference_error je guard history err; ret (Inl e) }
           | Inr response \<Rightarrow> do {
               s1 \<leftarrow> recordStats je lib sessionKey streamer stats (opt_NumPredict opts);
               finish_response je lib h sessionKey searchSources s1 response envelope guard
             })
      }))))"

definition runInferencePipeline :: "'c job_env \<Rightarrow> pkg_lib \<Rightarrow> 'r JobHandler \<Rightarrow> JobPayload \<Rightarrow> byte list \<Rightarrow> bool \<Rightarrow> deadlineGuard option \<Rightarrow>
    (('c, 'r) hst, go_error + byte list \<times> u32) prog" where
  "runInferencePipeline je lib h p blobData streamDeltas guard =
     attempt (open_prompt je lib p blobData) (\<lambda>(sessionKey, prompt).
     attempt (search_stage je lib h prompt) (\<lambda>(promptText, searchSources).
       case resolveModelName h (jp_ModelID p) of
         Inl e \<Rightarrow> ret (Inl (wrapf ''stage 5 (resolve model)'' e))
       | Inr modelName \<Rightarrow>
           (case pl_Decode lib promptText of
              Inl e \<Rightarrow> ret (Inl (no_retry_malformed (wrapf ''stage 5 (decode prompt)'' e)))
            | Inr env \<Rightarrow>
                if pl_SelfContained lib env \<and> is_speech h modelName
                then ret (Inl (noRetry (wrapf ''stage 5 (decode prompt)'' (sentinel_err ''the speech model takes text, not a conversation'' ErrInvalidSelfContained))))
                else generate_response je lib h p sessionKey modelName env streamDeltas guard searchSources)))"

end
