(* ===== verification/Job_Handler.thy ===== *)
theory Job_Handler
  imports Inference_Stages
begin

text \<open>
  The job pipeline from pickup to settlement: processJob, its stage helpers and the two entry points of
  internal/pipeline/handler.go.

  The handle of an overlapped acknowledgement is its transaction hash; the goroutine that watches it is the
  answer of \<open>je_awaitConfirmed\<close>. The number of earlier attempts (asynq.GetRetryCount) is an argument. The
  shared job counter is the event \<open>EvCounter\<close>. Metrics and log lines are left out.
\<close>

section \<open>Stage 1: acknowledgement\<close>

definition read_acked :: "'c job_env \<Rightarrow> u64 \<Rightarrow> (('c, 'r) hst, go_error + bool) prog" where
  "read_acked je jobID = hask (je_HasJobAcknowledged je jobID) (\<lambda>x. [EvReadAcked jobID x])"

definition reconcileAckError :: "'c job_env \<Rightarrow> u64 \<Rightarrow> go_error \<Rightarrow> (('c, 'r) hst, go_error option) prog" where
  "reconcileAckError je jobID ackErr = do {
     r \<leftarrow> read_acked je jobID;
     ret (case r of
            Inl checkErr \<Rightarrow> Some (wrapf ''acknowledge job'' ackErr)
          | Inr acknowledged \<Rightarrow> if acknowledged then None else Some (wrapf ''acknowledge job'' ackErr))
   }"

definition reconciled :: "'c job_env \<Rightarrow> u64 \<Rightarrow> go_error \<Rightarrow> (('c, 'r) hst, go_error + hash option) prog" where
  "reconciled je jobID ackErr = do {
     e \<leftarrow> reconcileAckError je jobID ackErr;
     ret (case e of None \<Rightarrow> Inr None | Some e' \<Rightarrow> Inl e')
   }"

definition broadcastAck :: "'c job_env \<Rightarrow> u64 \<Rightarrow> (('c, 'r) hst, go_error + hash option) prog" where
  "broadcastAck je jobID = do {
     r \<leftarrow> hask (je_AcknowledgeJobAsync je jobID) (\<lambda>x. [EvAckSent jobID x]);
     case r of
       Inl err \<Rightarrow> reconciled je jobID err
     | Inr txHash \<Rightarrow> ret (Inr (Some txHash))
   }"

definition asyncAckClient :: "'r JobHandler \<Rightarrow> bool" where
  "asyncAckClient h \<longleftrightarrow> hc_AckOverlapEnabled (jh_cfg h) \<and> jh_asyncAck h"

definition ensureAcknowledged :: "'c job_env \<Rightarrow> 'r JobHandler \<Rightarrow> u64 \<Rightarrow> (('c, 'r) hst, go_error + hash option) prog" where
  "ensureAcknowledged je h jobID =
     attempt (map_err (wrapf ''check acknowledged state'') (read_acked je jobID)) (\<lambda>acknowledged.
       if acknowledged then ret (Inr None)
       else if asyncAckClient h then broadcastAck je jobID
       else do {
         r \<leftarrow> hask (je_AcknowledgeJob je jobID) (\<lambda>x. [EvAckTx jobID x]);
         case r of
           Some err \<Rightarrow> reconciled je jobID err
         | None \<Rightarrow> ret (Inr None)
       })"

definition awaitConfirmed :: "'c job_env \<Rightarrow> hash \<Rightarrow> (('c, 'r) hst, go_error option) prog" where
  "awaitConfirmed je txHash = do {
     w \<leftarrow> hask (je_awaitConfirmed je txHash) (\<lambda>x. [EvAckWait txHash x]);
     ret (case w of
            AckDone err \<Rightarrow> err
          | AckTimeout \<Rightarrow> Some (errorf ''timed out waiting for ack tx to confirm'')
          | AckCtxDone e \<Rightarrow> Some (wrapf ''job context ended before ack tx confirmed'' e))
   }"

definition awaitAcknowledged :: "'c job_env \<Rightarrow> u64 \<Rightarrow> hash option \<Rightarrow> (('c, 'r) hst, go_error option) prog" where
  "awaitAcknowledged je jobID ack =
     (case ack of
        None \<Rightarrow> ret None
      | Some txHash \<Rightarrow> do {
          confirmErr \<leftarrow> awaitConfirmed je txHash;
          case confirmErr of
            None \<Rightarrow> ret None
          | Some ce \<Rightarrow> do {
              r \<leftarrow> read_acked je jobID;
              ret (if r = Inr True then None
                   else Some (wrapf ''stage 1b (ack confirm): acknowledgement not confirmed on-chain, refusing to settle'' ce))
            }
        })"

section \<open>The checkpoint\<close>

definition readCheckpoint :: "'c job_env \<Rightarrow> pkg_lib \<Rightarrow> 'r JobHandler \<Rightarrow> u64 \<Rightarrow> (('c, 'r) hst, JobCheckpoint) prog" where
  "readCheckpoint je lib h jobID =
     (case jh_checkpoints h of
        None \<Rightarrow> ret no_checkpoint
      | Some store \<Rightarrow> do {
          r \<leftarrow> hredis je lib store (\<lambda>flt. ckpt_Get (fst store) (pl_hash lib) (snd store) flt jobID) (\<lambda>x. [EvCheckpoint jobID x]);
          ret (case r of Inl e \<Rightarrow> no_checkpoint | Inr ckpt \<Rightarrow> ckpt)
        })"

text \<open>Persist the canonical ciphertext; the result is the one the rest of the attempt uses.\<close>

definition persist_ciphertext :: "'c job_env \<Rightarrow> pkg_lib \<Rightarrow> 'r JobHandler \<Rightarrow> u64 \<Rightarrow> byte list \<Rightarrow> (('c, 'r) hst, byte list) prog" where
  "persist_ciphertext je lib h jobID ciphertext =
     (case jh_checkpoints h of
        None \<Rightarrow> ret ciphertext
      | Some store \<Rightarrow> do {
          r \<leftarrow> hredis je lib store (\<lambda>flt. SetCiphertextIfAbsent (fst store) (snd store) flt jobID ciphertext)
                 (\<lambda>x. [EvPersist jobID ciphertext x]);
          ret (case r of
                 Inl e \<Rightarrow> ciphertext
               | Inr (canonical, wasSet) \<Rightarrow> if \<not> wasSet then canonical else ciphertext)
        })"

definition obtain_ciphertext :: "'c job_env \<Rightarrow> pkg_lib \<Rightarrow> 'r JobHandler \<Rightarrow> JobPayload \<Rightarrow> deadlineGuard option \<Rightarrow> JobCheckpoint \<Rightarrow>
    (('c, 'r) hst, go_error + byte list \<times> u32) prog" where
  "obtain_ciphertext je lib h p guard ckpt =
     (if HasCiphertext ckpt then ret (Inr (ck_Ciphertext ckpt, 0))
      else if jp_PromptBlobHash p = 0 then ret (Inl (errorf ''stage 2 (fetch blob): prompt blob hash is zero''))
      else attempt (map_err (wrapf ''stage 2 (fetch blob)'') (hask (je_FetchBlob je (jp_PromptBlobHash p) (jp_BlockNumber p)) (\<lambda>_. [])))
        (\<lambda>blobData. attempt (runInferencePipeline je lib h p blobData (\<not> ck_Delivered ckpt) guard)
          (\<lambda>(produced, streamed). do {
             ciphertext \<leftarrow> persist_ciphertext je lib h (jp_JobID p) produced;
             ret (Inr (ciphertext, streamed))
           })))"

section \<open>Stage 7: delivery\<close>

definition responseMismatchDigest :: "pkg_lib \<Rightarrow> int option \<Rightarrow> address \<Rightarrow> u64 \<Rightarrow> u64 \<Rightarrow> byte list \<Rightarrow> go_error + hash" where
  "responseMismatchDigest lib chainID jobRegistryAddr jobID sessionID ciphertext =
     (case chainID of
        None \<Rightarrow> Inl (errorf ''responseMismatchDigest: chainID is nil'')
      | Some c \<Rightarrow>
          (case pl_PackMismatch lib c jobRegistryAddr jobID sessionID ciphertext of
             Inl e \<Rightarrow> Inl (wrapf ''pack mismatch payload'' e)
           | Inr encoded \<Rightarrow> Inr (pl_Keccak256 lib encoded)))"

definition signMismatchEvidence :: "pkg_lib \<Rightarrow> int option \<Rightarrow> address \<Rightarrow> u64 \<Rightarrow> u64 \<Rightarrow> byte list \<Rightarrow> go_error + byte list" where
  "signMismatchEvidence lib chainID jobRegistryAddr jobID sessionID ciphertext =
     (case responseMismatchDigest lib chainID jobRegistryAddr jobID sessionID ciphertext of
        Inl e \<Rightarrow> Inl e
      | Inr digest \<Rightarrow> pl_SignText lib digest)"

definition publishToRedis :: "pkg_lib \<Rightarrow> 'r JobHandler \<Rightarrow> u64 \<Rightarrow> u64 \<Rightarrow> string \<Rightarrow> byte list \<Rightarrow> u32 \<Rightarrow> (('c, 'r) hst, unit) prog" where
  "publishToRedis lib h jobID sessionID correlationID ciphertext totalFrames =
     (if jh_publisher h = None then ret ()
      else case signMismatchEvidence lib (hc_ChainID (jh_cfg h)) (hc_JobRegistryAddr (jh_cfg h)) jobID sessionID ciphertext of
        Inl e \<Rightarrow> ret ()
      | Inr sig \<Rightarrow> hnote (EvPublish jobID sessionID correlationID (''0x'' @ hex_EncodeToString sig) ciphertext totalFrames))"

definition deliver :: "'c job_env \<Rightarrow> pkg_lib \<Rightarrow> 'r JobHandler \<Rightarrow> JobPayload \<Rightarrow> JobCheckpoint \<Rightarrow> byte list \<Rightarrow> u32 \<Rightarrow> (('c, 'r) hst, unit) prog" where
  "deliver je lib h p ckpt ciphertext chunkFrames =
     (if ck_Delivered ckpt then ret ()
      else do {
        _ \<leftarrow> publishToRedis lib h (jp_JobID p) (jp_SessionID p) (jp_CorrelationID p) ciphertext (chunkFrames + 1);
        case jh_checkpoints h of
          None \<Rightarrow> ret ()
        | Some store \<Rightarrow> do {
            _ \<leftarrow> hredis je lib store (\<lambda>flt. MarkDelivered (fst store) (snd store) flt (jp_JobID p)) (\<lambda>x. [EvMarkDelivered (jp_JobID p) x]);
            ret ()
          }
      })"

section \<open>Stage 8: settlement\<close>

definition persist_hash :: "'c job_env \<Rightarrow> pkg_lib \<Rightarrow> 'r JobHandler \<Rightarrow> u64 \<Rightarrow> hash \<Rightarrow> (('c, 'r) hst, unit) prog" where
  "persist_hash je lib h jobID versionedHash =
     (case jh_checkpoints h of
        None \<Rightarrow> ret ()
      | Some store \<Rightarrow> do {
          _ \<leftarrow> hredis je lib store (\<lambda>flt. SetVersionedHash (fst store) (pl_hash lib) (snd store) flt jobID versionedHash) (\<lambda>_. []);
          ret ()
        })"

definition ensureBlobSubmitted :: "'c job_env \<Rightarrow> pkg_lib \<Rightarrow> 'r JobHandler \<Rightarrow> u64 \<Rightarrow> JobCheckpoint \<Rightarrow> byte list \<Rightarrow> deadlineGuard option \<Rightarrow>
    (('c, 'r) hst, go_error + hash) prog" where
  "ensureBlobSubmitted je lib h jobID ckpt ciphertext guard =
     (if HasVersionedHash ckpt then ret (Inr (ck_VersionedHash ckpt))
      else check (gateBlobSubmit (h_deadline je) guard)
        (attempt (map_err (wrapf ''stage 8 (submit blob)'') (hask (je_SubmitBlobTx je ciphertext) (\<lambda>x. [EvBlobTx ciphertext x])))
          (\<lambda>blobHashes.
             if length blobHashes \<noteq> 1 then ret (Inl (errorf ''stage 8 (submit blob): expected exactly 1 blob hash''))
             else do {
               let versionedHash = blobHashes ! 0;
               _ \<leftarrow> persist_hash je lib h jobID versionedHash;
               ret (Inr versionedHash)
             })))"

definition read_completed :: "'c job_env \<Rightarrow> u64 \<Rightarrow> (('c, 'r) hst, go_error + bool) prog" where
  "read_completed je jobID = hask (je_HasJobCompleted je jobID) (\<lambda>x. [EvReadCompleted jobID x])"

definition completeJob :: "'c job_env \<Rightarrow> nat \<Rightarrow> u64 \<Rightarrow> hash \<Rightarrow> hash \<Rightarrow> deadlineGuard option \<Rightarrow> (('c, 'r) hst, go_error option) prog" where
  "completeJob je retryCount jobID responseBlobHash responseCiphertextHash guard = do {
     already \<leftarrow> (if 0 < retryCount then do { r \<leftarrow> read_completed je jobID; ret (r = Inr True) } else ret False);
     if already then ret None
     else do {
       r \<leftarrow> hask (je_CompleteJob je jobID responseBlobHash responseCiphertextHash)
              (\<lambda>x. [EvComplete jobID responseBlobHash responseCiphertextHash x]);
       case r of
         None \<Rightarrow> ret None
       | Some err \<Rightarrow> do {
           c \<leftarrow> read_completed je jobID;
           case c of
             Inl checkErr \<Rightarrow> ret (Some (wrapf ''complete job'' err))
           | Inr completed \<Rightarrow>
               if completed then ret None
               else do {
                 doomed \<leftarrow> isDoomedNow (h_deadline je) guard;
                 ret (Some (if doomed then noRetry (wrap_also (wrapf ''complete job'' err) ErrJobDoomed)
                            else wrapf ''complete job'' err))
               }
         }
     }
   }"

text \<open>After the completion: deadline headroom, release tracker, tombstone; none of them can fail the job.\<close>

definition after_completion :: "'c job_env \<Rightarrow> pkg_lib \<Rightarrow> 'r JobHandler \<Rightarrow> u64 \<Rightarrow> deadlineGuard option \<Rightarrow> (('c, 'r) hst, unit) prog" where
  "after_completion je lib h jobID guard = do {
     _ \<leftarrow> (case guard of None \<Rightarrow> ret None | Some g \<Rightarrow> guard_read (h_deadline je) g);
     _ \<leftarrow> (if jh_releaseTracker h then do {
             now \<leftarrow> hask (je_now je) (\<lambda>_. []);
             hask (je_MarkEligible je jobID (now div Second)) (\<lambda>_. [EvEligible jobID (now div Second)])
           } else ret None);
     case jh_checkpoints h of
       None \<Rightarrow> ret ()
     | Some store \<Rightarrow> do {
         _ \<leftarrow> hredis je lib store (\<lambda>flt. Tombstone (fst store) (snd store) flt jobID) (\<lambda>_. []);
         ret ()
       }
   }"

definition settle :: "'c job_env \<Rightarrow> pkg_lib \<Rightarrow> 'r JobHandler \<Rightarrow> nat \<Rightarrow> u64 \<Rightarrow> JobCheckpoint \<Rightarrow> byte list \<Rightarrow> deadlineGuard option \<Rightarrow>
    (('c, 'r) hst, go_error option) prog" where
  "settle je lib h retryCount jobID ckpt ciphertext guard = do {
     b \<leftarrow> ensureBlobSubmitted je lib h jobID ckpt ciphertext guard;
     case b of
       Inl e \<Rightarrow> ret (Some e)
     | Inr versionedHash \<Rightarrow> do {
         c \<leftarrow> completeJob je retryCount jobID versionedHash (pl_Keccak256 lib ciphertext) guard;
         case c of
           Some e \<Rightarrow> ret (Some (wrapf ''stage 8 (complete job)'' e))
         | None \<Rightarrow> do { _ \<leftarrow> after_completion je lib h jobID guard; ret None }
       }
   }"

section \<open>The job\<close>

text \<open>Stages 2 to 6 and 1b: an answer, and the acknowledgement it waits for.\<close>

definition after_ack :: "'c job_env \<Rightarrow> pkg_lib \<Rightarrow> 'r JobHandler \<Rightarrow> JobPayload \<Rightarrow> deadlineGuard option \<Rightarrow> hash option \<Rightarrow>
    (('c, 'r) hst, go_error + JobCheckpoint \<times> byte list \<times> u32) prog" where
  "after_ack je lib h p guard ack = do {
     ckpt \<leftarrow> readCheckpoint je lib h (jp_JobID p);
     attempt (obtain_ciphertext je lib h p guard ckpt) (\<lambda>(ciphertext, chunkFrames).
       check (awaitAcknowledged je (jp_JobID p) ack) (ret (Inr (ckpt, ciphertext, chunkFrames))))
   }"

text \<open>Everything before the consumer sees an answer.\<close>

definition before_delivery :: "'c job_env \<Rightarrow> pkg_lib \<Rightarrow> 'r JobHandler \<Rightarrow> JobPayload \<Rightarrow> deadlineGuard option \<Rightarrow>
    (('c, 'r) hst, go_error + JobCheckpoint \<times> byte list \<times> u32) prog" where
  "before_delivery je lib h p guard =
     check (checkPickup (h_deadline je) guard)
       (attempt (map_err (wrapf ''stage 1 (ack)'') (ensureAcknowledged je h (jp_JobID p)))
          (\<lambda>ack. after_ack je lib h p guard ack))"

definition processJob :: "'c job_env \<Rightarrow> pkg_lib \<Rightarrow> 'r JobHandler \<Rightarrow> nat \<Rightarrow> JobPayload \<Rightarrow> (('c, 'r) hst, go_error option) prog" where
  "processJob je lib h retryCount p = do {
     let guard = newDeadlineGuard (hc_guard (jh_cfg h)) (jh_reportsDeadlines h) (jp_JobID p);
     r \<leftarrow> before_delivery je lib h p guard;
     (case r of
        Inl e \<Rightarrow> ret (Some e)
      | Inr (ckpt, ciphertext, chunkFrames) \<Rightarrow> do {
          _ \<leftarrow> deliver je lib h p ckpt ciphertext chunkFrames;
          e \<leftarrow> settle je lib h retryCount (jp_JobID p) ckpt ciphertext guard;
          ret (map_option (\<lambda>e. wrap_also e ErrAnswerDelivered) e)
        })
   }"

section \<open>Entry points\<close>

definition reportFailure :: "'r JobHandler \<Rightarrow> JobPayload \<Rightarrow> go_error \<Rightarrow> (('c, 'r) hst, unit) prog" where
  "reportFailure h p err =
     (if jh_publisher h = None \<or> errors_Is err ErrAnswerDelivered then ret ()
      else hnote (EvError (jp_JobID p) (jp_SessionID p) (jp_CorrelationID p)))"

definition HandleJobPayload :: "'c job_env \<Rightarrow> pkg_lib \<Rightarrow> 'r JobHandler \<Rightarrow> JobPayload \<Rightarrow> (('c, 'r) hst, go_error option) prog" where
  "HandleJobPayload je lib h payload = do {
     _ \<leftarrow> hnote (EvCounter 1);
     r \<leftarrow> processJob je lib h 0 payload;
     _ \<leftarrow> (case r of Some err \<Rightarrow> reportFailure h payload err | None \<Rightarrow> ret ());
     _ \<leftarrow> hnote (EvCounter (-1));
     ret r
   }"

text \<open>\<open>payload\<close> is the unmarshalled task; \<open>maxRetry\<close> is \<open>None\<close> when asynq reports no limit.\<close>

definition HandleTask :: "'c job_env \<Rightarrow> pkg_lib \<Rightarrow> 'r JobHandler \<Rightarrow> go_error + JobPayload \<Rightarrow> nat \<Rightarrow> nat option \<Rightarrow> (('c, 'r) hst, go_error option) prog" where
  "HandleTask je lib h task retryCount maxRetry =
     (case task of
        Inl e \<Rightarrow> ret (Some (wrapf ''unmarshal job payload'' e))
      | Inr payload \<Rightarrow> do {
          _ \<leftarrow> hnote (EvCounter 1);
          r \<leftarrow> processJob je lib h retryCount payload;
          _ \<leftarrow> (case r of
                 Some err \<Rightarrow>
                   if errors_Is err SkipRetry \<or> (case maxRetry of None \<Rightarrow> False | Some m \<Rightarrow> m \<le> retryCount) then reportFailure h payload err else ret ()
               | None \<Rightarrow> ret ());
          _ \<leftarrow> hnote (EvCounter (-1));
          ret r
        })"

end
