(* ===== verification/Job_Trace.thy ===== *)
theory Job_Trace
  imports Job_Handler
begin

text \<open>
  Framing for the pipeline: which invariants of the state a program cannot break.

  Four events matter to what a job commits to: the terminal frame, the blob transaction, completeJob and
  the error frame; the entry points also move the job counter. Every other event is \<open>quiet\<close>. An invariant that survives quiet events and changes
  of the environment is \<open>framed\<close>; stages 1 to 6 keep every framed invariant.
\<close>

section \<open>Framed invariants\<close>

fun quiet :: "job_event \<Rightarrow> bool" where
  "quiet (EvPublish _ _ _ _ _ _) = False"
| "quiet (EvBlobTx _ _) = False"
| "quiet (EvComplete _ _ _ _) = False"
| "quiet (EvError _ _ _) = False"
| "quiet (EvCounter _) = False"
| "quiet _ = True"

definition framed :: "(('c, 'r) hst \<Rightarrow> bool) \<Rightarrow> bool" where
  "framed I \<longleftrightarrow> (\<forall>s c evs. I s \<longrightarrow> list_all quiet evs \<longrightarrow> I (s\<lparr>hs_env := c, hs_trace := evs @ hs_trace s\<rparr>))"

lemma keeps_hask: "framed I \<Longrightarrow> (\<And>x. list_all quiet (ev x)) \<Longrightarrow> keeps I (hask f ev)"
  by (auto simp: keeps_def wp_def hask_def framed_def split: prod.splits)

lemma keeps_hnote: "framed I \<Longrightarrow> quiet e \<Longrightarrow> keeps I (hnote e)"
proof (rule keepsI)
  fix s assume "framed I" "quiet e" "I s"
  then have "I (s\<lparr>hs_env := hs_env s, hs_trace := [e] @ hs_trace s\<rparr>)" unfolding framed_def by (metis list.pred_inject(1,2))
  then show "wp (hnote e) (\<lambda>_. I) s" by (simp add: wp_def hnote_def)
qed

lemma keeps_let [intro!]: "keeps I (f x) \<Longrightarrow> keeps I (Let x f)"
  by simp

section \<open>The chunk stream\<close>

definition stream_framed :: "('s \<Rightarrow> bool) \<Rightarrow> 's stream_env \<Rightarrow> bool" where
  "stream_framed I se \<longleftrightarrow> keeps I (se_now se) \<and> (\<forall>b. keeps I (se_Encrypt se b)) \<and> (\<forall>n k c. keeps I (se_PublishChunk se n k c))"

lemma keeps_publish_frame: "stream_framed I se \<Longrightarrow> keeps I (publish_frame fk se k b s)"
  by (auto simp: publish_frame_def stream_framed_def)

lemma keeps_co_Flush: "stream_framed I se \<Longrightarrow> keeps I (co_Flush fk se k c s)"
  by (auto simp: co_Flush_def keeps_publish_frame)

lemma keeps_co_Add: "stream_framed I se \<Longrightarrow> keeps I (co_Add fk se k c d s)"
  by (auto simp: co_Add_def keeps_co_Flush) (auto simp: stream_framed_def)

lemma keeps_stream_Add: "stream_framed I se \<Longrightarrow> keeps I (stream_Add fk se k d s)"
  by (auto simp: stream_Add_def keeps_co_Flush keeps_co_Add)

lemma keeps_flush_kinds: "stream_framed I se \<Longrightarrow> keeps I (flush_kinds fk se ks s)"
  by (induction ks arbitrary: s) (auto simp: keeps_co_Flush)

lemma keeps_FlushAll: "stream_framed I se \<Longrightarrow> keeps I (FlushAll fk se s)"
  by (simp add: FlushAll_def keeps_flush_kinds)

lemma keeps_PublishBytes: "stream_framed I se \<Longrightarrow> keeps I (PublishBytes fk se k b s)"
  by (auto simp: PublishBytes_def keeps_co_Flush keeps_publish_frame)

lemma keeps_feed_deltas: "stream_framed I se \<Longrightarrow> keeps I (feed_deltas fk se ds s)"
  by (induction ds arbitrary: s) (auto simp: keeps_stream_Add)

lemma keeps_audio_loop: "stream_framed I se \<Longrightarrow> keeps I (audio_loop fk se bs t n s)"
  by (induction bs arbitrary: t n s) (auto simp: keeps_PublishBytes)

lemma h_stream_framed: "framed I \<Longrightarrow> stream_framed I (h_stream je key)"
  by (simp add: stream_framed_def h_stream_def keeps_hask keeps_hnote)

section \<open>The stages\<close>

lemma keeps_deadline:
  assumes "framed I"
  shows "keeps I (checkPickup (h_deadline je) guard)" "keeps I (gateInference (h_deadline je) guard)"
    "keeps I (gateBlobSubmit (h_deadline je) guard)" "keeps I (isDoomedNow (h_deadline je) guard)"
    "keeps I (voiceBudgetOK (h_deadline je) guard need)" "keeps I (guard_read (h_deadline je) g)"
proof -
  have k: "keeps I (dl_GetJobDeadline (h_deadline je) j)" "keeps I (dl_now (h_deadline je))" for j
    using assms by (simp_all add: h_deadline_def keeps_hask)
  show "keeps I (checkPickup (h_deadline je) guard)" "keeps I (gateInference (h_deadline je) guard)"
    "keeps I (gateBlobSubmit (h_deadline je) guard)" "keeps I (isDoomedNow (h_deadline je) guard)"
    "keeps I (voiceBudgetOK (h_deadline je) guard need)" using keeps_gates [OF k] by simp_all
  show "keeps I (guard_read (h_deadline je) g)" using k(1) by (auto simp: guard_read_def)
qed

lemmas keeps_calls = keeps_hask keeps_hnote keeps_deadline keeps_feed_deltas [OF h_stream_framed] keeps_FlushAll [OF h_stream_framed]
  keeps_PublishBytes [OF h_stream_framed] keeps_audio_loop [OF h_stream_framed]

lemma keeps_deriveAndStoreSessionKey: "framed I \<Longrightarrow> keeps I (deriveAndStoreSessionKey je lib sid)"
  by (auto simp: deriveAndStoreSessionKey_def keeps_calls)

lemma keeps_getOrDeriveSessionKey: "framed I \<Longrightarrow> keeps I (getOrDeriveSessionKey je lib sid)"
  by (auto simp: getOrDeriveSessionKey_def keeps_calls keeps_deriveAndStoreSessionKey)

lemma keeps_open_prompt: "framed I \<Longrightarrow> keeps I (open_prompt je lib p b)"
  by (auto simp: open_prompt_def refreshSessionKey_def keeps_getOrDeriveSessionKey keeps_deriveAndStoreSessionKey)

lemma keeps_search_stage: "framed I \<Longrightarrow> keeps I (search_stage je lib h b)"
  by (auto simp: search_stage_def keeps_calls)

lemma keeps_maybeTranscribeAudio: "framed I \<Longrightarrow> keeps I (maybeTranscribeAudio je h env)"
  by (auto simp: maybeTranscribeAudio_def keeps_calls)

lemma keeps_conversationHistory: "framed I \<Longrightarrow> keeps I (conversationHistory je h p key)"
  by (auto simp: conversationHistory_def keeps_calls)

lemma keeps_runSpeechJob: "framed I \<Longrightarrow> keeps I (runSpeechJob je h text)"
  by (auto simp: runSpeechJob_def keeps_calls)

lemma keeps_runInference: "framed I \<Longrightarrow> keeps I (runInference je lib h key opts m env hist s)"
  by (auto simp: runInference_def keeps_calls keeps_runSpeechJob)

lemma keeps_recordStats: "framed I \<Longrightarrow> keeps I (recordStats je lib key s st n)"
  by (auto simp: recordStats_def keeps_calls)

lemma keeps_publishAudioMeta: "framed I \<Longrightarrow> keeps I (publishAudioMeta je lib key m s)"
  by (auto simp: publishAudioMeta_def keeps_calls)

lemma keeps_stream_audio: "framed I \<Longrightarrow> keeps I (stream_audio je lib key m a s)"
  by (auto simp: stream_audio_def keeps_calls keeps_publishAudioMeta)

lemma keeps_maybeDeliverAudio: "framed I \<Longrightarrow> keeps I (maybeDeliverAudio je lib h key s r env guard)"
  by (auto simp: maybeDeliverAudio_def keeps_calls keeps_stream_audio)

lemma keeps_finish_response: "framed I \<Longrightarrow> keeps I (finish_response je lib h key src s r env guard)"
  by (auto simp: finish_response_def keeps_calls keeps_maybeDeliverAudio)

lemma keeps_classify: "framed I \<Longrightarrow> keeps I (classify_inference_error je guard hist e)"
  by (auto simp: classify_inference_error_def keeps_calls)

lemma keeps_generate_response: "framed I \<Longrightarrow> keeps I (generate_response je lib h p key m env b guard src)"
  by (auto simp: generate_response_def keeps_calls keeps_maybeTranscribeAudio keeps_conversationHistory keeps_runInference
      keeps_classify keeps_recordStats keeps_finish_response split: prod.splits)

lemma keeps_runInferencePipeline: "framed I \<Longrightarrow> keeps I (runInferencePipeline je lib h p b d guard)"
  by (auto simp: runInferencePipeline_def keeps_open_prompt keeps_search_stage keeps_generate_response)

lemma keeps_read_acked: "framed I \<Longrightarrow> keeps I (read_acked je j)"
  by (simp add: read_acked_def keeps_hask)

lemma keeps_ensureAcknowledged: "framed I \<Longrightarrow> keeps I (ensureAcknowledged je h j)"
  by (auto simp: ensureAcknowledged_def broadcastAck_def reconciled_def reconcileAckError_def keeps_read_acked keeps_calls)

lemma keeps_awaitAcknowledged: "framed I \<Longrightarrow> keeps I (awaitAcknowledged je j ack)"
  by (auto simp: awaitAcknowledged_def awaitConfirmed_def keeps_read_acked keeps_calls)

end
