(* ===== verification/Job_Settlement.thy ===== *)
theory Job_Settlement
  imports Job_Trace
begin

text \<open>
  What a job attempt commits to, proved of processJob and the entry points: nothing before the
  acknowledgement is confirmed, no blob transaction that cannot settle, one ciphertext over all attempts,
  and an error frame only where no answer was delivered.
\<close>

section \<open>Invariants of the trace\<close>

definition trace_closed :: "(job_event list \<Rightarrow> bool) \<Rightarrow> bool" where
  "trace_closed P \<longleftrightarrow> (\<forall>tr e. P tr \<longrightarrow> quiet e \<longrightarrow> P (e # tr))"

definition on_trace :: "(job_event list \<Rightarrow> bool) \<Rightarrow> ('c, 'r) hst \<Rightarrow> bool" where
  "on_trace P s \<longleftrightarrow> P (hs_trace s)"

lemma closed_append: "trace_closed P \<Longrightarrow> P tr \<Longrightarrow> list_all quiet evs \<Longrightarrow> P (evs @ tr)"
  by (induction evs) (auto simp: trace_closed_def)

lemma framed_trace: "trace_closed P \<Longrightarrow> framed (on_trace P)"
  by (simp add: framed_def on_trace_def closed_append)

lemma wp_hask: "(\<And>x c. Q x (s\<lparr>hs_env := c, hs_trace := ev x @ hs_trace s\<rparr>)) \<Longrightarrow> wp (hask f ev) Q s"
  by (simp add: wp_def hask_def split: prod.splits)

lemma wp_hnote: "Q () (s\<lparr>hs_trace := e # hs_trace s\<rparr>) \<Longrightarrow> wp (hnote e) Q s"
  by (simp add: wp_def hnote_def)

lemma wp_hredis:
  assumes "\<And>others flt x r c. run_state (m flt) (run_ops (fst store) (pl_hash lib) (snd store) others (hs_redis s)) = (x, r) \<Longrightarrow>
    Q x (s\<lparr>hs_env := c, hs_redis := r, hs_trace := ev x @ hs_trace s\<rparr>)"
  shows "wp (hredis je lib store m ev) Q s"
  unfolding wp_def hredis_def using assms by (auto split: prod.splits)

lemma keeps_trace_hredis: "(\<And>tr x. P tr \<Longrightarrow> P (ev x @ tr)) \<Longrightarrow> keeps (on_trace P) (hredis je lib store m ev)"
  by (rule keepsI, rule wp_hredis) (simp add: on_trace_def)

lemma keeps_trace_hask: "(\<And>tr x. P tr \<Longrightarrow> P (ev x @ tr)) \<Longrightarrow> keeps (on_trace P) (hask f ev)"
  by (rule keepsI, rule wp_hask) (simp add: on_trace_def)

lemma keeps_trace_hnote: "(\<And>tr. P tr \<Longrightarrow> P (e # tr)) \<Longrightarrow> keeps (on_trace P) (hnote e)"
  by (rule keepsI, rule wp_hnote) (simp add: on_trace_def)

lemma keeps_readCheckpoint: "trace_closed P \<Longrightarrow> keeps (on_trace P) (readCheckpoint je lib h j)"
  by (auto simp: readCheckpoint_def trace_closed_def intro!: keeps_trace_hredis)

lemma keeps_persist_ciphertext: "trace_closed P \<Longrightarrow> keeps (on_trace P) (persist_ciphertext je lib h j c)"
  by (auto simp: persist_ciphertext_def trace_closed_def intro!: keeps_trace_hredis)

lemma keeps_obtain_ciphertext: "trace_closed P \<Longrightarrow> keeps (on_trace P) (obtain_ciphertext je lib h p guard ckpt)"
  by (auto simp: obtain_ciphertext_def keeps_calls framed_trace keeps_runInferencePipeline keeps_persist_ciphertext)

lemmas keeps_before = keeps_readCheckpoint keeps_obtain_ciphertext keeps_ensureAcknowledged [OF framed_trace]
  keeps_awaitAcknowledged [OF framed_trace] keeps_deadline [OF framed_trace]

lemma keeps_before_delivery: "trace_closed P \<Longrightarrow> keeps (on_trace P) (before_delivery je lib h p guard)"
  by (auto simp: before_delivery_def after_ack_def keeps_before)

section \<open>Acknowledgement before commitment\<close>

definition acked :: "u64 \<Rightarrow> job_event list \<Rightarrow> bool" where
  "acked j tr \<longleftrightarrow> EvReadAcked j (Inr True) \<in> set tr \<or> EvAckTx j None \<in> set tr \<or>
     (\<exists>tx. EvAckSent j (Inr tx) \<in> set tr \<and> EvAckWait tx (AckDone None) \<in> set tr)"

fun commits :: "job_event \<Rightarrow> bool" where
  "commits (EvPublish _ _ _ _ _ _) = True"
| "commits (EvBlobTx _ _) = True"
| "commits (EvComplete _ _ _ _) = True"
| "commits _ = False"

fun ack_safe :: "u64 \<Rightarrow> job_event list \<Rightarrow> bool" where
  "ack_safe j [] = True"
| "ack_safe j (e # tr) = (ack_safe j tr \<and> (commits e \<longrightarrow> acked j tr))"

lemma quiet_commits [simp]: "quiet e \<Longrightarrow> \<not> commits e"
  by (cases e) auto

lemma acked_Cons [intro]: "acked j tr \<Longrightarrow> acked j (e # tr)"
  by (auto simp: acked_def)

lemma ack_closed:
  "trace_closed (ack_safe j)" "trace_closed (\<lambda>tr. ack_safe j tr \<and> acked j tr)"
  "trace_closed (\<lambda>tr. ack_safe j tr \<and> EvAckSent j (Inr tx) \<in> set tr)"
  by (auto simp: trace_closed_def)

text \<open>Once acknowledged, any event keeps the trace safe.\<close>

definition closed_all :: "(job_event list \<Rightarrow> bool) \<Rightarrow> bool" where
  "closed_all P \<longleftrightarrow> (\<forall>tr e. P tr \<longrightarrow> P (e # tr))"

lemma closed_all_append: "closed_all P \<Longrightarrow> P tr \<Longrightarrow> P (es @ tr)"
  by (induction es) (auto simp: closed_all_def)

lemma keeps_all:
  assumes "closed_all P"
  shows "keeps (on_trace P) (hask f ev)" "keeps (on_trace P) (hnote e)" "keeps (on_trace P) (hredis je lib store m ev')"
    "framed (on_trace P)"
  using assms closed_all_append [OF assms] closed_all_append [OF assms, of _ "[_]"]
  by (auto simp: framed_def on_trace_def intro!: keeps_trace_hask keeps_trace_hnote keeps_trace_hredis)

lemma keeps_settled:
  assumes "closed_all P"
  shows "keeps (on_trace P) (deliver je lib h p ckpt c n)" "keeps (on_trace P) (settle je lib h k j ckpt c guard)"
  using assms keeps_all(4) [OF assms]
  by (auto simp: deliver_def publishToRedis_def settle_def ensureBlobSubmitted_def persist_hash_def completeJob_def
      read_completed_def after_completion_def keeps_all keeps_deadline)

lemma ensureAcknowledged_acked:
  assumes "ack_safe j (hs_trace s)"
  shows "wp (ensureAcknowledged je h j) (\<lambda>r s'. ack_safe j (hs_trace s') \<and>
    (case r of Inl e \<Rightarrow> True | Inr None \<Rightarrow> acked j (hs_trace s') | Inr (Some tx) \<Rightarrow> EvAckSent j (Inr tx) \<in> set (hs_trace s'))) s"
  using assms
  by (auto simp: ensureAcknowledged_def broadcastAck_def reconciled_def reconcileAckError_def read_acked_def wp_simps acked_def
      intro!: wp_hask split: sum.splits option.splits)

lemma awaitAcknowledged_acked:
  assumes "ack_safe j (hs_trace s)" "case ack of None \<Rightarrow> acked j (hs_trace s) | Some tx \<Rightarrow> EvAckSent j (Inr tx) \<in> set (hs_trace s)"
  shows "wp (awaitAcknowledged je j ack) (\<lambda>r s'. ack_safe j (hs_trace s') \<and> (r = None \<longrightarrow> acked j (hs_trace s'))) s"
proof (cases ack)
  case (Some tx)
  have r: "wp (read_acked je j) (\<lambda>r s'. ack_safe j (hs_trace s') \<and> ((if r = Inr True then None else Some e) = None \<longrightarrow> acked j (hs_trace s'))) s1"
    if "ack_safe j (hs_trace s1)" for s1 e using that by (auto simp: read_acked_def acked_def intro!: wp_hask split: if_splits)
  have "acked j (EvAckWait tx (AckDone None) # hs_trace s)" using assms(2) Some by (auto simp: acked_def)
  then show ?thesis using assms(1) Some
    by (auto simp: awaitAcknowledged_def awaitConfirmed_def wp_simps intro!: wp_hask r split: option.splits ack_wait.splits)
qed (use assms in \<open>simp add: awaitAcknowledged_def wp_simps\<close>)

lemma after_ack_acked:
  assumes "ack_safe (jp_JobID p) (hs_trace s)"
    and "case ack of None \<Rightarrow> acked (jp_JobID p) (hs_trace s) | Some tx \<Rightarrow> EvAckSent (jp_JobID p) (Inr tx) \<in> set (hs_trace s)"
  shows "wp (after_ack je lib h p guard ack)
    (\<lambda>r s'. ack_safe (jp_JobID p) (hs_trace s') \<and> (\<not> isl r \<longrightarrow> acked (jp_JobID p) (hs_trace s'))) s"
proof -
  let ?j = "jp_JobID p"
  let ?P = "\<lambda>tr. ack_safe ?j tr \<and> (case ack of None \<Rightarrow> acked ?j tr | Some tx \<Rightarrow> EvAckSent ?j (Inr tx) \<in> set tr)"
  have cl: "trace_closed ?P" by (cases ack) (simp_all add: ack_closed)
  have aw: "wp (check (awaitAcknowledged je ?j ack) (ret (Inr x)))
      (\<lambda>r s'. ack_safe ?j (hs_trace s') \<and> (\<not> isl r \<longrightarrow> acked ?j (hs_trace s'))) s3" if "on_trace ?P s3" for x s3
    using that unfolding wp_check
    by (intro wp_mono [OF awaitAcknowledged_acked]) (auto simp: on_trace_def wp_simps split: option.splits)
  have ob: "wp (attempt (obtain_ciphertext je lib h p guard ckpt) (\<lambda>(c, n). check (awaitAcknowledged je ?j ack) (ret (Inr (ckpt, c, n)))))
      (\<lambda>r s'. ack_safe ?j (hs_trace s') \<and> (\<not> isl r \<longrightarrow> acked ?j (hs_trace s'))) s2" if "on_trace ?P s2" for ckpt s2
    unfolding wp_attempt
    by (rule wp_keeps [OF keeps_obtain_ciphertext [OF cl] that]) (auto intro!: aw simp: on_trace_def split: sum.splits)
  have start: "on_trace ?P s" using assms by (simp add: on_trace_def)
  show ?thesis unfolding after_ack_def wp_bind by (rule wp_keeps [OF keeps_readCheckpoint [OF cl] start ob])
qed

lemma before_delivery_acked:
  assumes "ack_safe (jp_JobID p) (hs_trace s)"
  shows "wp (before_delivery je lib h p guard)
    (\<lambda>r s'. ack_safe (jp_JobID p) (hs_trace s') \<and> (\<not> isl r \<longrightarrow> acked (jp_JobID p) (hs_trace s'))) s"
proof -
  let ?j = "jp_JobID p"
  let ?Q = "\<lambda>r s'. ack_safe ?j (hs_trace s') \<and> (\<not> isl r \<longrightarrow> acked ?j (hs_trace s'))"
  have en: "wp (attempt (map_err f (ensureAcknowledged je h ?j)) (after_ack je lib h p guard)) ?Q s1"
    if "ack_safe ?j (hs_trace s1)" for s1 f
    unfolding wp_attempt wp_map_err
    by (rule wp_mono [OF ensureAcknowledged_acked [OF that]])
      (auto intro!: after_ack_acked split: sum.splits option.splits)
  have start: "on_trace (ack_safe ?j) s" using assms by (simp add: on_trace_def)
  show ?thesis unfolding before_delivery_def wp_check
    by (rule wp_keeps [OF keeps_deadline(1) [OF framed_trace [OF ack_closed(1)]] start])
      (auto intro!: en simp: on_trace_def split: option.splits)
qed

lemma ack_safe_all: "closed_all (\<lambda>tr. ack_safe j tr \<and> acked j tr)"
  by (auto simp: closed_all_def)

lemma processJob_acked:
  assumes "ack_safe (jp_JobID p) (hs_trace s)"
  shows "wp (processJob je lib h k p) (\<lambda>_ s'. ack_safe (jp_JobID p) (hs_trace s')) s"
proof -
  let ?P = "\<lambda>tr. ack_safe (jp_JobID p) tr \<and> acked (jp_JobID p) tr"
  have st: "wp (settle je lib h k j ckpt c g) (\<lambda>e s'. ack_safe (jp_JobID p) (hs_trace s')) s2"
    if "on_trace ?P s2" for j ckpt c g s2
    by (rule wp_keeps [OF keeps_settled(2) [OF ack_safe_all] that]) (simp add: on_trace_def)
  have dl: "wp (do { _ \<leftarrow> deliver je lib h p ckpt c n; e \<leftarrow> settle je lib h k j ckpt c g; ret (f e) })
      (\<lambda>_ s'. ack_safe (jp_JobID p) (hs_trace s')) s1" if "on_trace ?P s1" for ckpt c n j g s1 and f :: "go_error option \<Rightarrow> go_error option"
    unfolding wp_bind wp_ret by (rule wp_keeps [OF keeps_settled(1) [OF ack_safe_all] that st])
  show ?thesis unfolding processJob_def Let_def wp_bind
    by (rule wp_mono [OF before_delivery_acked [OF assms]])
      (auto intro!: dl simp: on_trace_def wp_ret split: sum.splits)
qed

section \<open>The blob gate\<close>

text \<open>What the guard read directly before a blob transaction: nothing (the read failed), or a deadline far enough away.\<close>

fun gate_evidence :: "int \<Rightarrow> job_event list \<Rightarrow> bool" where
  "gate_evidence reserve (EvDeadline (Inl e) # tr) = True"
| "gate_evidence reserve (EvNow now # EvDeadline (Inr (deadline, acked')) # tr) = (reserve < time_Until deadline now)"
| "gate_evidence reserve _ = False"

fun gate_safe :: "deadlineGuard option \<Rightarrow> job_event list \<Rightarrow> bool" where
  "gate_safe guard [] = True"
| "gate_safe guard (EvBlobTx c r # tr) =
     (gate_safe guard tr \<and> (case guard of None \<Rightarrow> True | Some g \<Rightarrow> gate_evidence (g_completionReserve g) tr))"
| "gate_safe guard (e # tr) = gate_safe guard tr"

lemma gate_safe_other: "gate_safe guard tr \<Longrightarrow> (\<And>c r. e \<noteq> EvBlobTx c r) \<Longrightarrow> gate_safe guard (e # tr)"
  by (cases e) auto

lemma gate_closed: "trace_closed (gate_safe guard)"
  by (auto simp: trace_closed_def intro!: gate_safe_other)

lemma gateBlobSubmit_evidence:
  assumes "gate_safe guard (hs_trace s)"
  shows "wp (gateBlobSubmit (h_deadline je) guard) (\<lambda>r s'. gate_safe guard (hs_trace s') \<and>
    (r = None \<longrightarrow> (case guard of None \<Rightarrow> True | Some g \<Rightarrow> gate_evidence (g_completionReserve g) (hs_trace s')))) s"
  using assms
  by (auto simp: gateBlobSubmit_def guard_read_def h_deadline_def wp_simps Let_def linorder_not_le intro!: wp_hask split: option.splits sum.splits)

lemma keeps_gate_rest:
  "keeps (on_trace (gate_safe guard)) (deliver je lib h p ckpt c n)"
  "keeps (on_trace (gate_safe guard)) (completeJob je k j vh ch guard')"
  "keeps (on_trace (gate_safe guard)) (after_completion je lib h j guard')"
  "keeps (on_trace (gate_safe guard)) (persist_hash je lib h j vh)"
  by (auto simp: deliver_def publishToRedis_def completeJob_def read_completed_def after_completion_def persist_hash_def
      keeps_deadline [OF framed_trace [OF gate_closed]] intro!: keeps_trace_hask keeps_trace_hredis keeps_trace_hnote)

lemma persist_hash_gate:
  "gate_safe guard (hs_trace s) \<Longrightarrow> wp (persist_hash je lib h j vh) (\<lambda>_ s'. gate_safe guard (hs_trace s')) s"
  by (rule wp_keeps [OF keeps_gate_rest(4)]) (auto simp: on_trace_def)

lemma ensureBlobSubmitted_gate:
  assumes "gate_safe guard (hs_trace s)"
  shows "wp (ensureBlobSubmitted je lib h j ckpt c guard) (\<lambda>_ s'. gate_safe guard (hs_trace s')) s"
proof (cases "HasVersionedHash ckpt")
  case False
  show ?thesis unfolding ensureBlobSubmitted_def using False
    by (simp add: wp_simps, intro wp_mono [OF gateBlobSubmit_evidence [OF assms]])
      (auto simp: wp_simps Let_def intro!: wp_hask persist_hash_gate split: option.splits sum.splits)
qed (use assms in \<open>simp add: ensureBlobSubmitted_def wp_simps\<close>)

lemma settle_gate:
  assumes "gate_safe guard (hs_trace s)"
  shows "wp (settle je lib h k j ckpt c guard) (\<lambda>_ s'. gate_safe guard (hs_trace s')) s"
proof -
  have ac: "wp (after_completion je lib h j guard) (\<lambda>_ s'. gate_safe guard (hs_trace s')) s2" if "gate_safe guard (hs_trace s2)" for s2
    using that by (intro wp_keeps [OF keeps_gate_rest(3)]) (auto simp: on_trace_def)
  have cj: "wp (do { r \<leftarrow> completeJob je k j vh ch guard;
      case r of Some e \<Rightarrow> ret (Some (f e)) | None \<Rightarrow> do { _ \<leftarrow> after_completion je lib h j guard; ret None } })
      (\<lambda>_ s'. gate_safe guard (hs_trace s')) s1" if "gate_safe guard (hs_trace s1)" for vh ch s1 and f :: "go_error \<Rightarrow> go_error"
    unfolding wp_bind
    by (rule wp_keeps [OF keeps_gate_rest(2), of guard]) (use that in \<open>auto simp: on_trace_def wp_simps intro!: ac split: option.splits\<close>)
  show ?thesis unfolding settle_def wp_bind
    by (rule wp_mono [OF ensureBlobSubmitted_gate [OF assms]])
      (auto simp: wp_ret intro!: cj split: sum.splits)
qed

lemma processJob_gate:
  assumes "gate_safe guard (hs_trace s)" "guard = newDeadlineGuard (hc_guard (jh_cfg h)) (jh_reportsDeadlines h) (jp_JobID p)"
  shows "wp (processJob je lib h k p) (\<lambda>_ s'. gate_safe guard (hs_trace s')) s"
proof -
  have dl: "wp (do { _ \<leftarrow> deliver je lib h p ckpt c n; e \<leftarrow> settle je lib h k j ckpt c guard; ret (f e) })
      (\<lambda>_ s'. gate_safe guard (hs_trace s')) s1" if "on_trace (gate_safe guard) s1" for ckpt c n j s1 and f :: "go_error option \<Rightarrow> go_error option"
    unfolding wp_bind wp_ret by (rule wp_keeps [OF keeps_gate_rest(1) that]) (simp add: on_trace_def settle_gate)
  have st: "on_trace (gate_safe guard) s" using assms(1) by (simp add: on_trace_def)
  show ?thesis unfolding processJob_def Let_def wp_bind assms(2) [symmetric]
    by (rule wp_keeps [OF keeps_before_delivery [OF gate_closed] st])
      (auto intro!: dl [unfolded wp_bind wp_ret] simp: on_trace_def wp_simps split: sum.splits)
qed

section \<open>One ciphertext\<close>

fun uses :: "pkg_lib \<Rightarrow> byte list \<Rightarrow> job_event \<Rightarrow> bool" where
  "uses lib c (EvPublish _ _ _ _ ct _) \<longleftrightarrow> ct = c"
| "uses lib c (EvBlobTx ct _) \<longleftrightarrow> ct = c"
| "uses lib c (EvComplete _ _ ch _) \<longleftrightarrow> ch = pl_Keccak256 lib c"
| "uses lib c _ \<longleftrightarrow> True"

fun persist_failed :: "job_event \<Rightarrow> bool" where
  "persist_failed (EvPersist _ _ (Inl _)) \<longleftrightarrow> True"
| "persist_failed _ \<longleftrightarrow> False"

lemma not_commits_uses: "\<not> commits e \<Longrightarrow> uses lib c e"
  by (cases e) auto

text \<open>Unless a persist failed: what was committed is the canonical ciphertext of the record, and nothing was while there is none.\<close>

definition one_ct :: "pkg_lib \<Rightarrow> 'r redis \<times> CheckpointStore \<Rightarrow> u64 \<Rightarrow> ('c, 'r) hst \<Rightarrow> bool" where
  "one_ct lib store j s \<longleftrightarrow> ckpt_ok (fst store) (pl_hash lib) (snd store) (hs_redis s) \<and>
     (list_ex persist_failed (hs_trace s) \<or>
      (case canon (fst store) (snd store) j (hs_redis s) of
         None \<Rightarrow> list_all (\<lambda>e. \<not> commits e) (hs_trace s)
       | Some c \<Rightarrow> list_all (uses lib c) (hs_trace s)))"

definition has_ct :: "pkg_lib \<Rightarrow> 'r redis \<times> CheckpointStore \<Rightarrow> u64 \<Rightarrow> byte list \<Rightarrow> ('c, 'r) hst \<Rightarrow> bool" where
  "has_ct lib store j c s \<longleftrightarrow> ckpt_ok (fst store) (pl_hash lib) (snd store) (hs_redis s) \<and>
     (list_ex persist_failed (hs_trace s) \<or>
      canon (fst store) (snd store) j (hs_redis s) = Some c \<and> list_all (uses lib c) (hs_trace s))"

lemma has_one: "has_ct lib store j c s \<Longrightarrow> one_ct lib store j s"
  by (auto simp: has_ct_def one_ct_def)

lemma quiet_all: "list_all quiet evs \<Longrightarrow> list_all (\<lambda>e. \<not> commits e) evs \<and> list_all (uses lib c) evs"
  by (auto simp: list_all_iff not_commits_uses)

lemma framed_ct: "framed (one_ct lib store j)" "framed (has_ct lib store j c)"
  using quiet_all by (auto simp: framed_def one_ct_def has_ct_def split: option.splits)

definition stable_prog :: "pkg_lib \<Rightarrow> 'r redis \<times> CheckpointStore \<Rightarrow> (redis_fault \<Rightarrow> ('r, 'x) prog) \<Rightarrow> bool" where
  "stable_prog lib store m \<longleftrightarrow> (\<forall>flt r x r'. ckpt_ok (fst store) (pl_hash lib) (snd store) r \<longrightarrow> run_state (m flt) r = (x, r') \<longrightarrow>
     stable_write (fst store) (pl_hash lib) (snd store) r r')"

lemma stable_progI:
  "(\<And>flt r. stable_write (fst store) (pl_hash lib) (snd store) r (snd (run_state (m flt) r))) \<Longrightarrow> stable_prog lib store m"
  unfolding stable_prog_def by (metis snd_conv)

lemma stable_progs:
  assumes "ckpt_env (fst store) (pl_hash lib) (snd store)"
  shows "stable_prog lib store (\<lambda>flt. ckpt_Get (fst store) (pl_hash lib) (snd store) flt j)"
    "stable_prog lib store (\<lambda>flt. SetCiphertextIfAbsent (fst store) (snd store) flt j c)"
    "stable_prog lib store (\<lambda>flt. SetVersionedHash (fst store) (pl_hash lib) (snd store) flt j vh)"
    "stable_prog lib store (\<lambda>flt. MarkDelivered (fst store) (snd store) flt j)"
    "stable_prog lib store (\<lambda>flt. Tombstone (fst store) (snd store) flt j)"
proof -
  have get: "stable_write (fst store) (pl_hash lib) (snd store) r r'"
    if "ckpt_ok (fst store) (pl_hash lib) (snd store) r" "run_state (ckpt_Get (fst store) (pl_hash lib) (snd store) flt j) r = (x, r')" for flt r x r'
    using Get_returns(1) [OF assms that] by simp
  then show "stable_prog lib store (\<lambda>flt. ckpt_Get (fst store) (pl_hash lib) (snd store) flt j)" by (simp add: stable_prog_def)
  have op: "stable_write (fst store) (pl_hash lib) (snd store) r (run_op (fst store) (pl_hash lib) (snd store) (flt, ck) r)" for r flt ck
    by (rule stable_op [OF assms])
  show "stable_prog lib store (\<lambda>flt. SetCiphertextIfAbsent (fst store) (snd store) flt j c)"
    by (rule stable_progI) (use op [where ck = "CkCiphertext j c"] in simp)
  show "stable_prog lib store (\<lambda>flt. SetVersionedHash (fst store) (pl_hash lib) (snd store) flt j vh)"
    by (rule stable_progI) (use op [where ck = "CkHash j vh"] in simp)
  show "stable_prog lib store (\<lambda>flt. MarkDelivered (fst store) (snd store) flt j)"
    by (rule stable_progI) (use op [where ck = "CkDelivered j"] in simp)
  show "stable_prog lib store (\<lambda>flt. Tombstone (fst store) (snd store) flt j)"
    by (rule stable_progI) (use op [where ck = "CkTombstone j"] in simp)
qed

text \<open>A call after the writes of others still sees the record it relies on.\<close>

lemma run_ops_ct:
  assumes "ckpt_env (fst store) (pl_hash lib) (snd store)" "one_ct lib store j s"
  shows "one_ct lib store j (s\<lparr>hs_redis := run_ops (fst store) (pl_hash lib) (snd store) others (hs_redis s)\<rparr>)"
proof -
  note st = stable_ops [OF assms(1), of "hs_redis s" others, unfolded stable_write_def]
  show ?thesis
  proof (cases "canon (fst store) (snd store) j (hs_redis s)")
    case None
    then have "list_ex persist_failed (hs_trace s) \<or> list_all (uses lib c) (hs_trace s)" for c
      using assms(2) by (auto simp: one_ct_def list_all_iff not_commits_uses)
    then show ?thesis using assms(2) st None by (auto simp: one_ct_def split: option.splits)
  next
    case (Some c)
    then show ?thesis using assms(2) st by (auto simp: one_ct_def)
  qed
qed

lemma wp_hredis_ct:
  assumes "ckpt_env (fst store) (pl_hash lib) (snd store)" "one_ct lib store j s"
    and "\<And>flt r x r' c. one_ct lib store j (s\<lparr>hs_redis := r\<rparr>) \<Longrightarrow> run_state (m flt) r = (x, r') \<Longrightarrow>
      Q x (s\<lparr>hs_env := c, hs_redis := r', hs_trace := ev x @ hs_trace s\<rparr>)"
  shows "wp (hredis je lib store m ev) Q s"
  using assms(3) run_ops_ct [OF assms(1,2)] by (intro wp_hredis) blast

lemma stable_one:
  assumes "one_ct lib store j (s\<lparr>hs_redis := r\<rparr>)" "stable_write (fst store) (pl_hash lib) (snd store) r r'" "list_all quiet evs"
  shows "one_ct lib store j (s\<lparr>hs_env := e, hs_redis := r', hs_trace := evs @ hs_trace s\<rparr>)"
proof -
  note q = quiet_all [OF assms(3)]
  show ?thesis
  proof (cases "canon (fst store) (snd store) j r")
    case None
    then have "list_ex persist_failed (hs_trace s) \<or> list_all (\<lambda>e. \<not> commits e) (hs_trace s) \<and> list_all (uses lib c) (hs_trace s)" for c
      using assms(1) by (auto simp: one_ct_def list_all_iff not_commits_uses)
    then show ?thesis using assms(1,2) q None by (auto simp: one_ct_def stable_write_def split: option.splits)
  next
    case (Some c)
    then show ?thesis using assms(1,2) q by (auto simp: one_ct_def stable_write_def)
  qed
qed

lemma keeps_one_hredis:
  assumes "ckpt_env (fst store) (pl_hash lib) (snd store)" "stable_prog lib store m" "\<And>x. list_all quiet (ev x)"
  shows "keeps (one_ct lib store j) (hredis je lib store m ev)"
proof (rule keepsI, rule wp_hredis_ct [OF assms(1)], assumption)
  fix s flt r x r' c
  assume one: "one_ct lib store j (s\<lparr>hs_redis := r\<rparr>)" and run: "run_state (m flt) r = (x, r')"
  have "ckpt_ok (fst store) (pl_hash lib) (snd store) r" using one by (simp add: one_ct_def)
  then have "stable_write (fst store) (pl_hash lib) (snd store) r r'" using assms(2) run unfolding stable_prog_def by blast
  then show "one_ct lib store j (s\<lparr>hs_env := c, hs_redis := r', hs_trace := ev x @ hs_trace s\<rparr>)"
    by (rule stable_one [OF one _ assms(3)])
qed

lemma keeps_has_hredis:
  assumes "ckpt_env (fst store) (pl_hash lib) (snd store)" "stable_prog lib store m" "\<And>x. list_all quiet (ev x)"
  shows "keeps (has_ct lib store j c) (hredis je lib store m ev)"
proof (rule keepsI, rule wp_hredis)
  fix s others flt x r e
  assume has: "has_ct lib store j c s"
    and run: "run_state (m flt) (run_ops (fst store) (pl_hash lib) (snd store) others (hs_redis s)) = (x, r)"
  note st = stable_ops [OF assms(1), of "hs_redis s" others]
  have "ckpt_ok (fst store) (pl_hash lib) (snd store) (run_ops (fst store) (pl_hash lib) (snd store) others (hs_redis s))"
    using has st by (simp add: has_ct_def stable_write_def)
  then have "stable_write (fst store) (pl_hash lib) (snd store) (run_ops (fst store) (pl_hash lib) (snd store) others (hs_redis s)) r"
    using assms(2) run unfolding stable_prog_def by blast
  with st have "stable_write (fst store) (pl_hash lib) (snd store) (hs_redis s) r" by (rule stable_trans)
  then show "has_ct lib store j c (s\<lparr>hs_env := e, hs_redis := r, hs_trace := ev x @ hs_trace s\<rparr>)"
    using has quiet_all [OF assms(3)] by (auto simp: has_ct_def stable_write_def)
qed

lemma readCheckpoint_ct:
  assumes "jh_checkpoints h = Some store" "ckpt_env (fst store) (pl_hash lib) (snd store)" "one_ct lib store j s"
  shows "wp (readCheckpoint je lib h j) (\<lambda>ck s'. one_ct lib store j s' \<and> (HasCiphertext ck \<longrightarrow> has_ct lib store j (ck_Ciphertext ck) s')) s"
proof -
  have "wp (hredis je lib store (\<lambda>flt. ckpt_Get (fst store) (pl_hash lib) (snd store) flt j) (\<lambda>x. [EvCheckpoint j x]))
      (\<lambda>x s'. one_ct lib store j s' \<and> (\<forall>ck. x = Inr ck \<longrightarrow> HasCiphertext ck \<longrightarrow> has_ct lib store j (ck_Ciphertext ck) s')) s"
  proof (rule wp_hredis_ct [OF assms(2,3)])
    fix flt r x r' e
    assume one: "one_ct lib store j (s\<lparr>hs_redis := r\<rparr>)"
      and run: "run_state (ckpt_Get (fst store) (pl_hash lib) (snd store) flt j) r = (x, r')"
    have ok: "ckpt_ok (fst store) (pl_hash lib) (snd store) r" using one by (simp add: one_ct_def)
    note get = Get_returns [OF assms(2) ok run]
    have one': "one_ct lib store j (s\<lparr>hs_env := e, hs_redis := r', hs_trace := [EvCheckpoint j x] @ hs_trace s\<rparr>)"
      using get(1) by (intro stable_one [OF one]) simp_all
    have "has_ct lib store j (ck_Ciphertext ck) (s\<lparr>hs_env := e, hs_redis := r', hs_trace := [EvCheckpoint j x] @ hs_trace s\<rparr>)"
      if "x = Inr ck" "HasCiphertext ck" for ck
      using one' get(1) get(3) [OF that(1)] that(2) by (simp add: one_ct_def has_ct_def)
    then show "one_ct lib store j (s\<lparr>hs_env := e, hs_redis := r', hs_trace := [EvCheckpoint j x] @ hs_trace s\<rparr>) \<and>
        (\<forall>ck. x = Inr ck \<longrightarrow> HasCiphertext ck \<longrightarrow> has_ct lib store j (ck_Ciphertext ck) (s\<lparr>hs_env := e, hs_redis := r', hs_trace := [EvCheckpoint j x] @ hs_trace s\<rparr>))"
      using one' by blast
  qed
  then show ?thesis unfolding readCheckpoint_def assms(1) option.case wp_bind wp_ret
    by (rule wp_mono) (auto simp: HasCiphertext_def no_checkpoint_def split: sum.splits)
qed

lemma persist_ciphertext_ct:
  assumes "jh_checkpoints h = Some store" "ckpt_env (fst store) (pl_hash lib) (snd store)" "one_ct lib store j s"
  shows "wp (persist_ciphertext je lib h j p) (\<lambda>c s'. has_ct lib store j c s') s"
proof -
  let ?c = "\<lambda>x. case x of Inl e \<Rightarrow> p | Inr (canonical, wasSet) \<Rightarrow> if \<not> wasSet then canonical else p"
  have "wp (hredis je lib store (\<lambda>flt. SetCiphertextIfAbsent (fst store) (snd store) flt j p) (\<lambda>x. [EvPersist j p x]))
      (\<lambda>x s'. has_ct lib store j (?c x) s') s"
  proof (rule wp_hredis_ct [OF assms(2,3)])
    fix flt r x r' e
    assume one: "one_ct lib store j (s\<lparr>hs_redis := r\<rparr>)"
      and run: "run_state (SetCiphertextIfAbsent (fst store) (snd store) flt j p) r = (x, r')"
    have ok: "ckpt_ok (fst store) (pl_hash lib) (snd store) r" using one by (simp add: one_ct_def)
    note set = SetCiphertext_returns [OF assms(2) ok run]
    have one': "one_ct lib store j (s\<lparr>hs_env := e, hs_redis := r', hs_trace := [EvPersist j p x] @ hs_trace s\<rparr>)"
      by (rule stable_one [OF one set(1)]) simp
    show "has_ct lib store j (?c x) (s\<lparr>hs_env := e, hs_redis := r', hs_trace := [EvPersist j p x] @ hs_trace s\<rparr>)"
    proof (cases x)
      case (Inl er)
      then show ?thesis using one' by (simp add: one_ct_def has_ct_def)
    next
      case (Inr cb)
      obtain c b where cb: "cb = (c, b)" by (meson surj_pair)
      have "canon (fst store) (snd store) j r' = Some (?c x)" using set(2) [of c b] Inr cb by auto
      then show ?thesis using one' by (simp add: one_ct_def has_ct_def)
    qed
  qed
  then show ?thesis by (simp add: persist_ciphertext_def assms(1) wp_simps)
qed

text \<open>What a stage that produces a ciphertext (picked out by \<open>sel\<close>) leaves behind.\<close>

definition ct_post :: "pkg_lib \<Rightarrow> 'r redis \<times> CheckpointStore \<Rightarrow> u64 \<Rightarrow> ('a \<Rightarrow> byte list) \<Rightarrow> go_error + 'a \<Rightarrow> ('c, 'r) hst \<Rightarrow> bool" where
  "ct_post lib store j sel r s = (case r of Inl e \<Rightarrow> one_ct lib store j s | Inr x \<Rightarrow> has_ct lib store j (sel x) s)"

lemma ct_post_simps [simp]:
  "ct_post lib store j sel (Inl e) s = one_ct lib store j s"
  "ct_post lib store j sel (Inr x) s = has_ct lib store j (sel x) s"
  by (simp_all add: ct_post_def)

lemma obtain_ciphertext_ct:
  assumes "jh_checkpoints h = Some store" "ckpt_env (fst store) (pl_hash lib) (snd store)" "one_ct lib store (jp_JobID p) s"
    and "HasCiphertext ck \<longrightarrow> has_ct lib store (jp_JobID p) (ck_Ciphertext ck) s"
  shows "wp (obtain_ciphertext je lib h p guard ck) (ct_post lib store (jp_JobID p) fst) s"
proof -
  let ?Q = "ct_post lib store (jp_JobID p) fst :: go_error + byte list \<times> u32 \<Rightarrow> _"
  have ps: "wp (do { c \<leftarrow> persist_ciphertext je lib h (jp_JobID p) b; ret (Inr (c, n)) }) ?Q s2"
    if "one_ct lib store (jp_JobID p) s2" for b n s2
    unfolding wp_bind wp_ret by (rule wp_mono [OF persist_ciphertext_ct [OF assms(1,2) that]]) simp
  have inf: "wp (attempt (runInferencePipeline je lib h p b d guard)
      (\<lambda>(c, n). do { c' \<leftarrow> persist_ciphertext je lib h (jp_JobID p) c; ret (Inr (c', n)) })) ?Q s1"
    if "one_ct lib store (jp_JobID p) s1" for b d s1
    unfolding wp_attempt
    by (rule wp_keeps [OF keeps_runInferencePipeline [OF framed_ct(1)] that]) (auto intro!: ps split: sum.splits)
  have "wp (attempt (map_err g (hask f (\<lambda>_. []))) (\<lambda>b. attempt (runInferencePipeline je lib h p b d guard)
      (\<lambda>(c, n). do { c' \<leftarrow> persist_ciphertext je lib h (jp_JobID p) c; ret (Inr (c', n)) }))) ?Q s" for g f d
    unfolding wp_attempt [of "map_err g (hask f (\<lambda>_. []))"] wp_map_err
    by (rule wp_keeps [OF keeps_hask [OF framed_ct(1)] assms(3)]) (auto intro!: inf split: sum.splits)
  then show ?thesis using assms(3,4) by (auto simp: obtain_ciphertext_def wp_ret)
qed

lemma after_ack_ct:
  assumes "jh_checkpoints h = Some store" "ckpt_env (fst store) (pl_hash lib) (snd store)" "one_ct lib store (jp_JobID p) s"
  shows "wp (after_ack je lib h p guard ack) (ct_post lib store (jp_JobID p) (fst \<circ> snd)) s"
proof -
  let ?Q = "ct_post lib store (jp_JobID p) (fst \<circ> snd) :: go_error + JobCheckpoint \<times> byte list \<times> u32 \<Rightarrow> _"
  have aw: "wp (check (awaitAcknowledged je (jp_JobID p) ack) (ret (Inr (ck, c, n)))) ?Q s2"
    if "has_ct lib store (jp_JobID p) c s2" for ck c n s2
    unfolding wp_check
    by (rule wp_keeps [OF keeps_awaitAcknowledged [OF framed_ct(2)] that]) (auto simp: wp_ret dest: has_one split: option.splits)
  have ob: "wp (attempt (obtain_ciphertext je lib h p guard ck) (\<lambda>(c, n). check (awaitAcknowledged je (jp_JobID p) ack) (ret (Inr (ck, c, n))))) ?Q s1"
    if "one_ct lib store (jp_JobID p) s1 \<and> (HasCiphertext ck \<longrightarrow> has_ct lib store (jp_JobID p) (ck_Ciphertext ck) s1)" for ck s1
    unfolding wp_attempt using that
    by (intro wp_mono [OF obtain_ciphertext_ct [OF assms(1,2)]]) (auto intro!: aw split: sum.splits)
  show ?thesis unfolding after_ack_def wp_bind by (rule wp_mono [OF readCheckpoint_ct [OF assms]]) (rule ob)
qed

lemma before_delivery_ct:
  assumes "jh_checkpoints h = Some store" "ckpt_env (fst store) (pl_hash lib) (snd store)" "one_ct lib store (jp_JobID p) s"
  shows "wp (before_delivery je lib h p guard) (ct_post lib store (jp_JobID p) (fst \<circ> snd)) s"
proof -
  let ?Q = "ct_post lib store (jp_JobID p) (fst \<circ> snd) :: go_error + JobCheckpoint \<times> byte list \<times> u32 \<Rightarrow> _"
  have en: "wp (attempt (map_err f (ensureAcknowledged je h (jp_JobID p))) (after_ack je lib h p guard)) ?Q s1"
    if "one_ct lib store (jp_JobID p) s1" for s1 f
    unfolding wp_attempt wp_map_err
    by (rule wp_keeps [OF keeps_ensureAcknowledged [OF framed_ct(1)] that])
      (auto intro!: after_ack_ct assms(1,2) split: sum.splits)
  show ?thesis unfolding before_delivery_def wp_check
    by (rule wp_keeps [OF keeps_deadline(1) [OF framed_ct(1)] assms(3)]) (auto intro!: en split: option.splits)
qed

text \<open>Stages 7 and 8 commit to the ciphertext they are given.\<close>

lemma keeps_has_hask: "(\<And>x. list_all (uses lib c) (ev x)) \<Longrightarrow> keeps (has_ct lib store j c) (hask f ev)"
  by (rule keepsI, rule wp_hask) (auto simp: has_ct_def)

lemma keeps_has_hnote: "uses lib c e \<Longrightarrow> keeps (has_ct lib store j c) (hnote e)"
  by (rule keepsI, rule wp_hnote) (auto simp: has_ct_def)

lemma settle_ct:
  assumes "jh_checkpoints h = Some store" "ckpt_env (fst store) (pl_hash lib) (snd store)"
  shows "keeps (has_ct lib store j c) (deliver je lib h p ck c n)" "keeps (has_ct lib store j c) (settle je lib h k i ck c guard)"
  using assms stable_progs [OF assms(2)]
  by (auto simp: deliver_def publishToRedis_def settle_def ensureBlobSubmitted_def persist_hash_def completeJob_def
      read_completed_def after_completion_def keeps_deadline [OF framed_ct(2)] intro!: keeps_has_hask keeps_has_hnote keeps_has_hredis)

lemma processJob_ct:
  assumes "jh_checkpoints h = Some store" "ckpt_env (fst store) (pl_hash lib) (snd store)" "one_ct lib store (jp_JobID p) s"
  shows "wp (processJob je lib h k p) (\<lambda>_. one_ct lib store (jp_JobID p)) s"
proof -
  have st: "wp (settle je lib h k i ck c g) (\<lambda>e. one_ct lib store (jp_JobID p)) s2"
    if "has_ct lib store (jp_JobID p) c s2" for i ck c g s2
    by (rule wp_keeps [OF settle_ct(2) [OF assms(1,2)] that]) (rule has_one)
  have dl: "wp (do { _ \<leftarrow> deliver je lib h p ck c n; e \<leftarrow> settle je lib h k i ck c g; ret (f e) })
      (\<lambda>_. one_ct lib store (jp_JobID p)) s1"
    if "has_ct lib store (jp_JobID p) c s1" for ck c n i g s1 and f :: "go_error option \<Rightarrow> go_error option"
    unfolding wp_bind wp_ret by (rule wp_keeps [OF settle_ct(1) [OF assms(1,2)] that st])
  show ?thesis unfolding processJob_def Let_def wp_bind
    by (rule wp_mono [OF before_delivery_ct [OF assms]])
      (auto intro!: dl [unfolded wp_bind wp_ret] simp: wp_simps split: sum.splits)
qed

end
