(* ===== verification/Job_Runs.thy ===== *)
theory Job_Runs
  imports Job_Settlement
begin

text \<open>
  The attempts of one job: HandleTask run again and again on the same task (asynq redelivers a failed one
  with a higher retry count). Then the rules by which the simplifier runs the pipeline on concrete input
  (\<open>run_eval\<close> unfolds a program only where it is run), a small worker, and two runs of it.
\<close>

section \<open>Runs\<close>

text \<open>Each attempt carries its retry count and asynq's retry limit, when it reports one.\<close>

fun run_attempts :: "'c job_env \<Rightarrow> pkg_lib \<Rightarrow> 'r JobHandler \<Rightarrow> JobPayload \<Rightarrow> (nat \<times> nat option) list \<Rightarrow> (('c, 'r) hst, go_error option list) prog" where
  "run_attempts je lib h p [] = ret []"
| "run_attempts je lib h p ((k, m) # ks) = do {
     r \<leftarrow> HandleTask je lib h (Inr p) k m;
     rs \<leftarrow> run_attempts je lib h p ks;
     ret (r # rs)
   }"

lemma keeps_HandleTask:
  assumes "\<And>k. keeps I (processJob je lib h k p)" "\<And>n. keeps I (hnote (EvCounter n))"
    "keeps I (hnote (EvError (jp_JobID p) (jp_SessionID p) (jp_CorrelationID p)))"
  shows "keeps I (HandleTask je lib h (Inr p) k m)"
  using assms by (auto simp: HandleTask_def reportFailure_def)

lemma keeps_run_attempts:
  assumes "\<And>k. keeps I (processJob je lib h k p)" "\<And>n. keeps I (hnote (EvCounter n))"
    "keeps I (hnote (EvError (jp_JobID p) (jp_SessionID p) (jp_CorrelationID p)))"
  shows "keeps I (run_attempts je lib h p ks)"
proof (induction ks)
  case (Cons km ks)
  then show ?case using keeps_HandleTask [OF assms] by (cases km) auto
qed auto

lemma run_keeps: "keeps I m \<Longrightarrow> I s \<Longrightarrow> run_state m s = (x, s') \<Longrightarrow> I s'"
  using wp_run [OF keepsD] by fastforce

section \<open>Running the pipeline\<close>

lemma run_unfold: "m = m' \<Longrightarrow> run_state m s = run_state m' s"
  by simp

lemma deadline_calls:
  "dl_GetJobDeadline (h_deadline je) j = hask (je_GetJobDeadline je j) (\<lambda>x. [EvDeadline x])"
  "dl_now (h_deadline je) = hask (je_now je) (\<lambda>t. [EvNow t])"
  by (simp_all add: h_deadline_def)

lemma run_cong: "s = s' \<Longrightarrow> run_state m s = run_state m s'"
  by simp

lemma run_cases:
  "run_state (if b then m else n) s = (if b then run_state m s else run_state n s)"
  "run_state (case_option m f x) s = (case x of None \<Rightarrow> run_state m s | Some y \<Rightarrow> run_state (f y) s)"
  "run_state (case_sum g k z) s = (case z of Inl y \<Rightarrow> run_state (g y) s | Inr y \<Rightarrow> run_state (k y) s)"
  "run_state (case_prod q w) s = (case w of (a, b) \<Rightarrow> run_state (q a b) s)"
  "run_state (Let v u) s = run_state (u v) s"
  by (simp_all add: Let_def split: option.splits sum.splits prod.splits)

lemmas prog_defs = deadline_calls run_attempts.simps attempt_def check_def map_err_def hask_def hnote_def hredis_def redis_call_def
  guard_read_def checkPickup_def gateInference_def gateBlobSubmit_def isDoomedNow_def
  processJob_def before_delivery_def after_ack_def ensureAcknowledged_def broadcastAck_def read_acked_def
  awaitAcknowledged_def awaitConfirmed_def readCheckpoint_def obtain_ciphertext_def persist_ciphertext_def
  runInferencePipeline_def open_prompt_def getOrDeriveSessionKey_def search_stage_def
  generate_response_def maybeTranscribeAudio_def conversationHistory_def runInference_def
  recordStats_def finish_response_def maybeDeliverAudio_def deliver_def publishToRedis_def
  settle_def ensureBlobSubmitted_def persist_hash_def completeJob_def read_completed_def after_completion_def HandleTask_def reportFailure_def
  SetCiphertextIfAbsent_def SetVersionedHash_def MarkDelivered_def ckpt_Get_def Tombstone_def

lemmas run_eval = prog_defs [THEN run_unfold] run_cases

lemmas value_defs = newDeadlineGuard_def asyncAckClient_def time_Until_def resolveModelName_def is_speech_def inferenceClientFor_def
  newChunkStreamer_def frames_def signMismatchEvidence_def responseMismatchDigest_def
  setCiphertextLR_def setVersionedHashLR_def markDeliveredLR_def decode_checkpoint_def HasCiphertext_def HasVersionedHash_def
  defaultSettleReserve_def defaultCompletionReserve_def defaultMinInferenceBudget_def

section \<open>A small worker\<close>

text \<open>
  A concrete environment: every service answers, encryption is randomised (each call appends a fresh
  byte), and completeJob fails until two encryptions were made, that is through the first attempt.
\<close>

definition demo_env :: "int job_env" where
  "demo_env = \<lparr>je_GetJobDeadline = \<lambda>j c. (Inr (1000, True), c), je_now = \<lambda>c. (0, c),
     je_HasJobAcknowledged = \<lambda>j c. (Inr (0 < c), c), je_AcknowledgeJob = \<lambda>j c. (None, c),
     je_AcknowledgeJobAsync = \<lambda>j c. (Inr 5, c), je_awaitConfirmed = \<lambda>t c. (AckDone None, c),
     je_CompleteJob = \<lambda>j v ch c. (if c < 2 then Some (errorf ''rpc'') else None, c), je_HasJobCompleted = \<lambda>j c. (Inr False, c),
     je_GetSessionEncWorkerKey = \<lambda>i c. (Inr [], c), je_GetKey = \<lambda>i c. (Inr [9], c), je_StoreKey = \<lambda>i k c. (None, c),
     je_joinFlight = \<lambda>i c. (None, c), je_FetchBlob = \<lambda>v n c. (Inr [1], c), je_SubmitBlobTx = \<lambda>b c. (Inr [77], c),
     je_Encrypt = \<lambda>k b c. (Inr (b @ [of_int c]), c + 1), je_Search = \<lambda>q n c. (Inr [], c),
     je_PriorJobs = \<lambda>i j n c. (Inr [], c), je_BuildHistory = \<lambda>k ids n c. (Inr [], c),
     je_Chat = \<lambda>o' m ms c. (Inr ''hi'', c), je_Generate = \<lambda>o' m t c. (Inr ''hi'', c),
     je_ChatStream = \<lambda>o' m ms c. (([], no_stats, Inr ''hi''), c), je_GenerateStream = \<lambda>o' m t i c. (([], no_stats, Inr ''hi''), c),
     je_Transcribe = \<lambda>b f c. (Inr ''hi'', c), je_Synthesize = \<lambda>t v c. (Inr ([], None), c),
     je_SynthesizeSettled = \<lambda>t v n c. (Inr ([], False), c), je_MarkEligible = \<lambda>j t c. (None, c), je_redis = \<lambda>c. (([], RdOk), c)\<rparr>"

definition demo_lib :: pkg_lib where
  "demo_lib = \<lparr>pl_hash = decimal_lib, pl_frames = demo_frames, pl_Decrypt = \<lambda>k b. Inr b, pl_DecryptSessionKey = \<lambda>b. Inr b,
     pl_UnwrapSearch = \<lambda>b. Inr (''hello'', False), pl_BuildAugmentedPrompt = \<lambda>t ss. t, pl_EncodeResponse = \<lambda>r ss. Inr [4],
     pl_Decode = \<lambda>t. Inr \<lparr>pe_Text = t, pe_Images = [], pe_Audio = [], pe_AudioFormat = [], pe_AudioResponse = False, pe_Voice = [], pe_Messages = []\<rparr>,
     pl_SelfContained = \<lambda>e. False, pl_Conversation = \<lambda>e hist. None, pl_Keccak256 = \<lambda>b. foldl (\<lambda>a x. a * 256 + ucast x) 1 b,
     pl_PackMismatch = \<lambda>c a j i b. Inr b, pl_SignText = \<lambda>d. Inr [3], pl_sourcesJSON = \<lambda>ss. [], pl_statsJSON = \<lambda>st n. None, pl_audioMetaJSON = \<lambda>m. None\<rparr>"

definition demo_config :: HandlerConfig where
  "demo_config = \<lparr>hc_ModelIDToName = [], hc_ChainID = Some 1, hc_JobRegistryAddr = 2, hc_AckOverlapEnabled = True, hc_StreamEnabled = False,
     hc_StreamReasoning = False, hc_StreamChunkTokens = 0, hc_StreamChunkInterval = 0, hc_ModelOptions = [],
     hc_guard = \<lparr>gc_DeadlineGuardEnabled = True, gc_SettleReserve = 0, gc_CompletionReserve = 0, gc_MinInferenceBudget = 0\<rparr>,
     hc_STTEnabled = False, hc_TTSEnabled = False, hc_TTSVoice = [], hc_SpeechModelName = [], hc_TTSMaxChars = 0, hc_TTSTimeout = 0,
     hc_SearchMaxResults = 0\<rparr>"

definition demo_handler :: "CheckpointStore \<Rightarrow> redis_map JobHandler" where
  "demo_handler cs = \<lparr>jh_cfg = demo_config, jh_modelIDToName = [], jh_asyncAck = True, jh_reportsDeadlines = True, jh_publisher = Some False,
     jh_checkpoints = Some (map_redis, cs), jh_releaseTracker = False, jh_voiceEngine = False, jh_searcher = False, jh_priorJobs = False,
     jh_streamingClient = False, jh_overridingClient = False, jh_clientOptions = no_options\<rparr>"

definition demo_payload :: JobPayload where
  "demo_payload = \<lparr>jp_JobID = 7, jp_SessionID = 3, jp_Consumer = 1, jp_Worker = 2, jp_ModelID = ''m'', jp_PromptBlobHash = 8,
     jp_BlockNumber = 100, jp_Timestamp = 0, jp_CorrelationID = ''c'', jp_PriorJobIDs = []\<rparr>"

definition demo_start :: "(int, redis_map) hst" where
  "demo_start = \<lparr>hs_env = 0, hs_redis = \<lambda>_. ([], None), hs_trace = []\<rparr>"

definition demo_run :: "CheckpointStore \<Rightarrow> (nat \<times> nat option) list \<Rightarrow> go_error option list \<times> (int, redis_map) hst" where
  "demo_run cs ks = run_state (run_attempts demo_env demo_lib (demo_handler cs) demo_payload ks) demo_start"

lemmas demo_defs = demo_env_def demo_lib_def demo_handler_def demo_config_def demo_payload_def no_checkpoint_def  map_redis_def decimal_lib_def


section \<open>A run with an answer too large for the checkpoint\<close>

definition small_ckpt :: CheckpointStore where
  "small_ckpt = NewCheckpointStore 0 0 1"

abbreviation demo_guard :: "deadlineGuard option" where
  "demo_guard \<equiv> Some \<lparr>g_jobID = 7, g_settleReserve = 25000000000, g_completionReserve = 12000000000, g_minInferenceBudget = 10000000000\<rparr>"

abbreviation cap_err :: "go_error + byte list \<times> bool" where
  "cap_err \<equiv> Inl (sentinel_err ''ciphertext exceeds checkpoint cap'' ErrCiphertextTooLarge)"

abbreviation fields7 :: "(string \<times> string) list \<Rightarrow> redis_map" where
  "fields7 fs \<equiv> (\<lambda>_. ([], None))(ckpt_key small_ckpt 7 := (fs, Some 7200))"

abbreviation tombed7 :: redis_map where
  "tombed7 \<equiv> (\<lambda>_. ([], None))(ckpt_key small_ckpt 7 := ([(''delivered'', ''1''), (''versionedHash'', FormatUint 77), (''tombstoned'', ''1'')], Some 600))"

abbreviation gate_events :: "job_event list" where
  "gate_events \<equiv> [EvNow 0, EvDeadline (Inr (1000, True))]"

lemma small_fields [simp]: "cp_ttl small_ckpt = 7200000000000" "cp_maxCiphertextB small_ckpt = 1" "cp_tombstoneTTL small_ckpt = 600000000000"
  by (simp_all add: small_ckpt_def NewCheckpointStore_def)

lemma demo_values [simp]: "i64 35000000000 = 35000000000" "hex_EncodeToString [3] = ''03''" "FormatUint 77 \<noteq> []"
  by code_simp+

lemmas small_eval = run_eval value_defs demo_defs parse_FormatUint

lemma first_before: "run_state (before_delivery demo_env demo_lib (demo_handler small_ckpt) demo_payload demo_guard)
    \<lparr>hs_env = 0, hs_redis = \<lambda>_. ([], None), hs_trace = tr\<rparr> =
  (Inr (no_checkpoint, [4, 0], 0), \<lparr>hs_env = 1, hs_redis = \<lambda>_. ([], None), hs_trace =
     [EvAckWait 5 (AckDone None), EvPersist 7 [4, 0] cap_err, EvModel ''m''] @ gate_events @
     [EvCheckpoint 7 (Inr no_checkpoint), EvAckSent 7 (Inr 5), EvReadAcked 7 (Inr False)] @ gate_events @ tr\<rparr>)"
  by (simp add: small_eval Let_def cong: run_cong)
lemma first_deliver: "run_state (deliver demo_env demo_lib (demo_handler small_ckpt) demo_payload no_checkpoint [4, 0] 0)
    \<lparr>hs_env = 1, hs_redis = \<lambda>_. ([], None), hs_trace = tr\<rparr> =
  ((), \<lparr>hs_env = 1, hs_redis = fields7 [(''delivered'', ''1'')], hs_trace =
     [EvMarkDelivered 7 None, EvPublish 7 3 ''c'' ''0x03'' [4, 0] 1] @ tr\<rparr>)"
  by (simp add: small_eval Let_def ttl_seconds_def cong: run_cong)

lemma first_settle: "run_state (settle demo_env demo_lib (demo_handler small_ckpt) 0 7 no_checkpoint [4, 0] demo_guard)
    \<lparr>hs_env = 1, hs_redis = fields7 [(''delivered'', ''1'')], hs_trace = tr\<rparr> =
  (Some (wrapf ''stage 8 (complete job)'' (wrapf ''complete job'' (errorf ''rpc''))),
   \<lparr>hs_env = 1, hs_redis = fields7 [(''delivered'', ''1''), (''versionedHash'', FormatUint 77)], hs_trace =
     gate_events @ [EvReadCompleted 7 (Inr False), EvComplete 7 77 (pl_Keccak256 demo_lib [4, 0]) (Some (errorf ''rpc'')),
     EvBlobTx [4, 0] (Inr [77])] @ gate_events @ tr\<rparr>)"
  by (simp add: small_eval Let_def ttl_seconds_def cong: run_cong)

lemma second_before: "run_state (before_delivery demo_env demo_lib (demo_handler small_ckpt) demo_payload demo_guard)
    \<lparr>hs_env = 1, hs_redis = fields7 [(''delivered'', ''1''), (''versionedHash'', FormatUint 77)], hs_trace = tr\<rparr> =
  (Inr (\<lparr>ck_Ciphertext = [], ck_VersionedHash = 77, ck_Delivered = True\<rparr>, [4, 1], 0), 
   \<lparr>hs_env = 2, hs_redis = fields7 [(''delivered'', ''1''), (''versionedHash'', FormatUint 77)], hs_trace =
     [EvPersist 7 [4, 1] cap_err, EvModel ''m''] @ gate_events @
     [EvCheckpoint 7 (Inr \<lparr>ck_Ciphertext = [], ck_VersionedHash = 77, ck_Delivered = True\<rparr>), EvReadAcked 7 (Inr True)] @ gate_events @ tr\<rparr>)"
  by (simp add: small_eval Let_def cong: run_cong)

lemma second_settle: "run_state (settle demo_env demo_lib (demo_handler small_ckpt) (Suc 0) 7 \<lparr>ck_Ciphertext = [], ck_VersionedHash = 77, ck_Delivered = True\<rparr> [4, 1] demo_guard)
    \<lparr>hs_env = 2, hs_redis = fields7 [(''delivered'', ''1''), (''versionedHash'', FormatUint 77)], hs_trace = tr\<rparr> =
  (None, \<lparr>hs_env = 2, hs_redis = tombed7, hs_trace =
     [EvDeadline (Inr (1000, True)), EvComplete 7 77 (pl_Keccak256 demo_lib [4, 1]) None, EvReadCompleted 7 (Inr False)] @ tr\<rparr>)"
  by (simp add: small_eval Let_def cong: run_cong)
lemma demo_guard_on: "newDeadlineGuard (hc_guard (jh_cfg (demo_handler cs))) (jh_reportsDeadlines (demo_handler cs)) 7 = demo_guard"
  by (simp add: newDeadlineGuard_def demo_handler_def demo_config_def demo_payload_def defaultSettleReserve_def defaultCompletionReserve_def
      defaultMinInferenceBudget_def)

lemma demo_final: "jh_publisher (demo_handler cs) = Some False" "jp_JobID demo_payload = 7"
  by (simp_all add: demo_handler_def demo_payload_def)

abbreviation before_blob :: "(go_error + byte list \<times> bool) \<Rightarrow> job_event list" where
  "before_blob persisted \<equiv> gate_events @ [EvMarkDelivered 7 None, EvPublish 7 3 ''c'' ''0x03'' [4, 0] 1,
     EvAckWait 5 (AckDone None), EvPersist 7 [4, 0] persisted, EvModel ''m''] @ gate_events @
     [EvCheckpoint 7 (Inr no_checkpoint), EvAckSent 7 (Inr 5), EvReadAcked 7 (Inr False)] @ gate_events @ [EvCounter 1]"

abbreviation after_blob :: "job_event list" where
  "after_blob \<equiv> [EvCounter (-1)] @ gate_events @ [EvReadCompleted 7 (Inr False), EvComplete 7 77 (pl_Keccak256 demo_lib [4, 0]) (Some (errorf ''rpc''))]"

abbreviation first_events :: "(go_error + byte list \<times> bool) \<Rightarrow> job_event list" where
  "first_events persisted \<equiv> after_blob @ EvBlobTx [4, 0] (Inr [77]) # before_blob persisted"

lemmas attempt_eval = HandleTask_def processJob_def hnote_def demo_guard_on demo_final reportFailure_def Let_def

lemma first_attempt: "\<exists>e. run_state (HandleTask demo_env demo_lib (demo_handler small_ckpt) (Inr demo_payload) 0 (Some 3)) demo_start =
  (Some e, \<lparr>hs_env = 1, hs_redis = fields7 [(''delivered'', ''1''), (''versionedHash'', FormatUint 77)], hs_trace = first_events cap_err\<rparr>)"
  by (simp add: demo_start_def attempt_eval first_before first_deliver first_settle)

lemma second_attempt: "run_state (HandleTask demo_env demo_lib (demo_handler small_ckpt) (Inr demo_payload) (Suc 0) (Some 3))
    \<lparr>hs_env = 1, hs_redis = fields7 [(''delivered'', ''1''), (''versionedHash'', FormatUint 77)], hs_trace = tr\<rparr> =
  (None, \<lparr>hs_env = 2, hs_redis = tombed7, hs_trace = [EvCounter (-1), EvDeadline (Inr (1000, True)),
     EvComplete 7 77 (pl_Keccak256 demo_lib [4, 1]) None, EvReadCompleted 7 (Inr False), EvPersist 7 [4, 1] cap_err, EvModel ''m''] @ gate_events @
     [EvCheckpoint 7 (Inr \<lparr>ck_Ciphertext = [], ck_VersionedHash = 77, ck_Delivered = True\<rparr>), EvReadAcked 7 (Inr True)] @ gate_events @
     EvCounter 1 # tr\<rparr>)"
proof -
  have d: "deliver demo_env demo_lib (demo_handler small_ckpt) demo_payload \<lparr>ck_Ciphertext = [], ck_VersionedHash = 77, ck_Delivered = True\<rparr> c n = ret ()"
    for c n by (simp add: deliver_def)
  show ?thesis by (simp add: attempt_eval second_before d second_settle)
qed

section \<open>A run that persists its answer\<close>

abbreviation stored7 :: "(string \<times> string) list \<Rightarrow> redis_map" where
  "stored7 fs \<equiv> (\<lambda>_. ([], None))(ckpt_key demo_ckpt 7 := ((''ciphertext'', hex_EncodeToString [4, 0]) # fs, Some 7200))"

lemma demo_ckpt_fields [simp]: "cp_ttl demo_ckpt = 7200000000000" "cp_maxCiphertextB demo_ckpt = 262144" "cp_tombstoneTTL demo_ckpt = 600000000000"
  by (simp_all add: demo_ckpt_def NewCheckpointStore_def)

lemma stored_before: "run_state (before_delivery demo_env demo_lib (demo_handler demo_ckpt) demo_payload demo_guard)
    \<lparr>hs_env = 0, hs_redis = \<lambda>_. ([], None), hs_trace = tr\<rparr> =
  (Inr (no_checkpoint, [4, 0], 0), \<lparr>hs_env = 1, hs_redis = stored7 [], hs_trace =
     [EvAckWait 5 (AckDone None), EvPersist 7 [4, 0] (Inr ([4, 0], True)), EvModel ''m''] @ gate_events @
     [EvCheckpoint 7 (Inr no_checkpoint), EvAckSent 7 (Inr 5), EvReadAcked 7 (Inr False)] @ gate_events @ tr\<rparr>)"
  by (simp add: small_eval Let_def hex_decode_encode ttl_seconds_def cong: run_cong)

lemma stored_deliver: "run_state (deliver demo_env demo_lib (demo_handler demo_ckpt) demo_payload no_checkpoint [4, 0] 0)
    \<lparr>hs_env = 1, hs_redis = stored7 [], hs_trace = tr\<rparr> =
  ((), \<lparr>hs_env = 1, hs_redis = stored7 [(''delivered'', ''1'')], hs_trace =
     [EvMarkDelivered 7 None, EvPublish 7 3 ''c'' ''0x03'' [4, 0] 1] @ tr\<rparr>)"
  by (simp add: small_eval Let_def ttl_seconds_def cong: run_cong)

lemma stored_settle: "\<exists>r. run_state (settle demo_env demo_lib (demo_handler demo_ckpt) 0 7 no_checkpoint [4, 0] demo_guard)
    \<lparr>hs_env = 1, hs_redis = stored7 [(''delivered'', ''1'')], hs_trace = tr\<rparr> =
  (Some (wrapf ''stage 8 (complete job)'' (wrapf ''complete job'' (errorf ''rpc''))),
   \<lparr>hs_env = 1, hs_redis = r, hs_trace =
     gate_events @ [EvReadCompleted 7 (Inr False), EvComplete 7 77 (pl_Keccak256 demo_lib [4, 0]) (Some (errorf ''rpc'')),
     EvBlobTx [4, 0] (Inr [77])] @ gate_events @ tr\<rparr>)"
  by (simp add: small_eval Let_def ttl_seconds_def cong: run_cong)

lemma stored_run: "hs_trace (snd (demo_run demo_ckpt [(0, Some 3)])) = first_events (Inr ([4, 0], True))"
proof -
  let ?tr = "[EvMarkDelivered 7 None, EvPublish 7 3 ''c'' ''0x03'' [4, 0] 1, EvAckWait 5 (AckDone None), EvPersist 7 [4, 0] (Inr ([4, 0], True)),
    EvModel ''m''] @ gate_events @ [EvCheckpoint 7 (Inr no_checkpoint), EvAckSent 7 (Inr 5), EvReadAcked 7 (Inr False)] @ gate_events @ [EvCounter 1]"
  obtain r where "run_state (settle demo_env demo_lib (demo_handler demo_ckpt) 0 7 no_checkpoint [4, 0] demo_guard)
      \<lparr>hs_env = 1, hs_redis = stored7 [(''delivered'', ''1'')], hs_trace = ?tr\<rparr> =
    (Some (wrapf ''stage 8 (complete job)'' (wrapf ''complete job'' (errorf ''rpc''))), \<lparr>hs_env = 1, hs_redis = r, hs_trace =
       gate_events @ [EvReadCompleted 7 (Inr False), EvComplete 7 77 (pl_Keccak256 demo_lib [4, 0]) (Some (errorf ''rpc'')),
       EvBlobTx [4, 0] (Inr [77])] @ gate_events @ ?tr\<rparr>)" using stored_settle by blast
  then show ?thesis by (simp add: demo_run_def demo_start_def attempt_eval stored_before stored_deliver)
qed

lemma small_run: "hs_trace (snd (demo_run small_ckpt [(0, Some 3), (1, Some 3)])) =
  [EvCounter (-1), EvDeadline (Inr (1000, True)),
     EvComplete 7 77 (pl_Keccak256 demo_lib [4, 1]) None, EvReadCompleted 7 (Inr False), EvPersist 7 [4, 1] cap_err, EvModel ''m''] @ gate_events @
     [EvCheckpoint 7 (Inr \<lparr>ck_Ciphertext = [], ck_VersionedHash = 77, ck_Delivered = True\<rparr>), EvReadAcked 7 (Inr True)] @ gate_events @
     EvCounter 1 # first_events cap_err"
proof -
  obtain e where "run_state (HandleTask demo_env demo_lib (demo_handler small_ckpt) (Inr demo_payload) 0 (Some 3)) demo_start =
    (Some e, \<lparr>hs_env = 1, hs_redis = fields7 [(''delivered'', ''1''), (''versionedHash'', FormatUint 77)], hs_trace = first_events cap_err\<rparr>)"
    using first_attempt by blast
  then show ?thesis by (simp add: demo_run_def second_attempt)
qed

lemma demo_run_state:
  "run_state (run_attempts demo_env demo_lib (demo_handler cs) demo_payload ks) demo_start = (fst (demo_run cs ks), snd (demo_run cs ks))"
  by (simp add: demo_run_def)

lemma demo_start_trace [simp]: "hs_trace demo_start = []"
  by (simp add: demo_start_def)

end
