(* ===== verification/Job_Attempts.thy ===== *)
theory Job_Attempts
  imports Job_Runs
begin

text \<open>
  The properties of the job pipeline, stated over runs of attempts with other attempts writing to the
  checkpoint in between.
\<close>

section \<open>Nothing before the acknowledgement\<close>

lemma ack_safe_split: "ack_safe j (newer @ e # older) \<Longrightarrow> commits e \<Longrightarrow> acked j older"
  by (induction newer) auto

text \<open>
  C2. Settlement waits for the acknowledgement. In any run of attempts, before every terminal frame, blob
  transaction and completeJob call the worker has seen the job acknowledged on chain: a read that said so,
  an acknowledgeJob call that succeeded, or the confirmed receipt of the acknowledgement it had broadcast.
\<close>

theorem settlement_needs_ack:
  assumes "run_state (run_attempts je lib h p ks) s = (rs, s')" "hs_trace s = []"
    and "hs_trace s' = newer @ e # older" "commits e"
  shows "EvReadAcked (jp_JobID p) (Inr True) \<in> set older \<or> EvAckTx (jp_JobID p) None \<in> set older \<or>
    (\<exists>tx. EvAckSent (jp_JobID p) (Inr tx) \<in> set older \<and> EvAckWait tx (AckDone None) \<in> set older)"
proof -
  have "keeps (on_trace (ack_safe (jp_JobID p))) (run_attempts je lib h p ks)"
    by (rule keeps_run_attempts) (auto simp: on_trace_def intro!: keepsI processJob_acked [THEN wp_mono] wp_hnote)
  then have "on_trace (ack_safe (jp_JobID p)) s'" by (rule run_keeps) (use assms in \<open>simp_all add: on_trace_def\<close>)
  then show ?thesis using assms(3,4) ack_safe_split by (fastforce simp: on_trace_def acked_def)
qed

theorem settlement_needs_ack_witness:
  "hs_trace (snd (demo_run demo_ckpt [(0, Some 3)])) = after_blob @ EvBlobTx [4, 0] (Inr [77]) # before_blob (Inr ([4, 0], True)) \<and>
   acked 7 (before_blob (Inr ([4, 0], True)))"
  using settlement_needs_ack [OF demo_run_state demo_start_trace stored_run] stored_run unfolding acked_def demo_final(2) commits.simps by blast

section \<open>No blob that cannot settle\<close>

lemma gate_safe_split:
  "gate_safe (Some g) (newer @ EvBlobTx c r # older) \<Longrightarrow> gate_evidence (g_completionReserve g) older"
proof (induction newer)
  case (Cons e newer)
  then show ?case by (cases e) auto
qed simp

text \<open>
  C8. No doomed blob. With the deadline guard on and a client that reports deadlines, every blob
  transaction of a run comes directly after the guard read the job's deadline: the read failed (the guard
  fails open), or the deadline lay further away than the completion reserve.
\<close>

theorem no_doomed_blob:
  assumes "run_state (run_attempts je lib h p ks) s = (rs, s')" "hs_trace s = []"
    and "newDeadlineGuard (hc_guard (jh_cfg h)) (jh_reportsDeadlines h) (jp_JobID p) = Some g"
    and "hs_trace s' = newer @ EvBlobTx c r # older"
  shows "(\<exists>e tr. older = EvDeadline (Inl e) # tr) \<or>
    (\<exists>now deadline a tr. older = EvNow now # EvDeadline (Inr (deadline, a)) # tr \<and> g_completionReserve g < time_Until deadline now)"
proof -
  have "keeps (on_trace (gate_safe (Some g))) (run_attempts je lib h p ks)"
    by (rule keeps_run_attempts) (auto simp: on_trace_def assms(3) intro!: keepsI processJob_gate [THEN wp_mono] wp_hnote)
  then have "on_trace (gate_safe (Some g)) s'" by (rule run_keeps) (use assms in \<open>simp_all add: on_trace_def\<close>)
  then have "gate_evidence (g_completionReserve g) older" using assms(4) gate_safe_split by (simp add: on_trace_def)
  then show ?thesis by (cases "(g_completionReserve g, older)" rule: gate_evidence.cases) auto
qed

theorem no_doomed_blob_witness:
  "hs_trace (snd (demo_run demo_ckpt [(0, Some 3)])) = after_blob @ EvBlobTx [4, 0] (Inr [77]) # before_blob (Inr ([4, 0], True)) \<and>
   12000000000 < time_Until 1000 0"
  using no_doomed_blob [OF demo_run_state demo_start_trace _ stored_run, unfolded demo_final(2), OF demo_guard_on] stored_run by simp

section \<open>One answer\<close>

text \<open>
  C1. One ciphertext per job. Over any run of attempts with a checkpoint store, whatever other attempts
  write and whatever faults Redis shows, if no SetCiphertextIfAbsent of the run failed then one ciphertext
  is behind everything the run committed to: every terminal frame and blob transaction carries it, every
  completeJob call carries its hash.
\<close>

theorem one_ciphertext:
  assumes "run_state (run_attempts je lib h p ks) s = (rs, s')" "hs_trace s = []"
    and "jh_checkpoints h = Some store" "ckpt_env (fst store) (pl_hash lib) (snd store)"
    and "ckpt_ok (fst store) (pl_hash lib) (snd store) (hs_redis s)"
    and "\<not> list_ex persist_failed (hs_trace s')"
  shows "\<exists>c. list_all (uses lib c) (hs_trace s')"
proof -
  have nt: "keeps (one_ct lib store (jp_JobID p)) (hnote e)" if "\<not> commits e" for e
    using that not_commits_uses by (intro keepsI wp_hnote) (auto simp: one_ct_def split: option.splits)
  have "keeps (one_ct lib store (jp_JobID p)) (run_attempts je lib h p ks)"
    by (intro keeps_run_attempts nt keepsI [OF processJob_ct [OF assms(3,4)]]) simp_all
  then have "one_ct lib store (jp_JobID p) s'"
    by (rule run_keeps [OF _ _ assms(1)]) (use assms in \<open>simp add: one_ct_def split: option.splits\<close>)
  then show ?thesis using assms(6)
    by (auto simp: one_ct_def list_all_iff not_commits_uses split: option.splits)
qed

theorem one_ciphertext_witness:
  "EvBlobTx [4, 0] (Inr [77]) \<in> set (hs_trace (snd (demo_run demo_ckpt [(0, Some 3)]))) \<and>
   (\<exists>c. list_all (uses demo_lib c) (hs_trace (snd (demo_run demo_ckpt [(0, Some 3)]))))"
proof -
  have "\<exists>c. list_all (uses demo_lib c) (hs_trace (snd (demo_run demo_ckpt [(0, Some 3)])))"
    by (rule one_ciphertext [OF demo_run_state, where store = "(map_redis, demo_ckpt)"])
      (simp_all add: demo_start_def demo_handler_def demo_lib_def demo_ckpt_env demo_ckpt_ok stored_run)
  then show ?thesis by (simp add: stored_run)
qed

fun is_blob_tx :: "job_event \<Rightarrow> bool" where
  "is_blob_tx (EvBlobTx _ _) = True"
| "is_blob_tx _ = False"

text \<open>
  An answer the checkpoint could not keep. Where the response is larger than the checkpoint's cap, the
  run below publishes one ciphertext and puts it in the only blob transaction it sends; completeJob fails
  once, and the retry, which finds the stored blob hash but no ciphertext, runs inference again and completes the
  job with that blob hash beside the hash of a different ciphertext.
\<close>

theorem oversized_answer_mismatch:
  "let tr = hs_trace (snd (demo_run small_ckpt [(0, Some 3), (1, Some 3)])) in
     EvPublish 7 3 ''c'' ''0x03'' [4, 0] 1 \<in> set tr \<and> filter is_blob_tx tr = [EvBlobTx [4, 0] (Inr [77])] \<and>
     EvComplete 7 77 (pl_Keccak256 demo_lib [4, 1]) None \<in> set tr \<and> pl_Keccak256 demo_lib [4, 1] \<noteq> pl_Keccak256 demo_lib [4, 0]"
proof -
  have "pl_Keccak256 demo_lib [4, 1] \<noteq> pl_Keccak256 demo_lib [4, 0]" by (simp add: demo_lib_def)
  then show ?thesis unfolding small_run by simp
qed

section \<open>Answer or error\<close>

fun frameless :: "job_event \<Rightarrow> bool" where
  "frameless (EvError _ _ _) = False"
| "frameless (EvCounter _) = False"
| "frameless _ = True"

definition grown :: "(job_event \<Rightarrow> bool) \<Rightarrow> job_event list \<Rightarrow> job_event list \<Rightarrow> bool" where
  "grown P tr0 tr \<longleftrightarrow> (\<exists>new. tr = new @ tr0 \<and> list_all P new)"

lemma grown_refl [simp]: "grown P tr0 tr0"
  by (simp add: grown_def)

lemma grown_Cons: "P e \<Longrightarrow> grown P tr0 tr \<Longrightarrow> grown P tr0 (e # tr)"
  unfolding grown_def by (metis append_Cons list.pred_inject(2))

lemma grown_closed: "(\<And>e. quiet e \<Longrightarrow> P e) \<Longrightarrow> trace_closed (grown P tr0)"
  by (simp add: trace_closed_def grown_Cons)

lemma grown_mono: "grown P tr0 tr \<Longrightarrow> (\<And>e. P e \<Longrightarrow> R e) \<Longrightarrow> grown R tr0 tr"
  unfolding grown_def list_all_iff by blast

text \<open>What a whole attempt adds: no error frame; and nothing it commits to, where it fails without an answer delivered.\<close>

definition attempt_post :: "job_event list \<Rightarrow> go_error option \<Rightarrow> ('c, 'r) hst \<Rightarrow> bool" where
  "attempt_post tr0 r s \<longleftrightarrow> grown frameless tr0 (hs_trace s) \<and>
     (\<forall>e. r = Some e \<longrightarrow> \<not> errors_Is e ErrAnswerDelivered \<longrightarrow> grown (\<lambda>e. frameless e \<and> \<not> commits e) tr0 (hs_trace s))"

lemma processJob_frames: "wp (processJob je lib h k p) (attempt_post (hs_trace s)) s"
proof -
  let ?F = "on_trace (grown frameless (hs_trace s))"
  have qf: "frameless e \<and> \<not> commits e" if "quiet e" for e using that by (cases e) auto
  have fr: "framed ?F" using qf by (intro framed_trace grown_closed) simp
  have all: "keeps ?F (deliver je lib h p ck c n)" "keeps ?F (settle je lib h k i ck c g)" for ck c n i g
    by (auto simp: deliver_def publishToRedis_def settle_def ensureBlobSubmitted_def persist_hash_def completeJob_def grown_Cons
        read_completed_def after_completion_def keeps_deadline [OF fr] intro!: keeps_trace_hask keeps_trace_hredis keeps_trace_hnote)
  have dl: "wp (do { _ \<leftarrow> deliver je lib h p ck c n; e \<leftarrow> settle je lib h k i ck c g; ret (map_option (\<lambda>e. wrap_also e ErrAnswerDelivered) e) })
      (attempt_post (hs_trace s)) s1" if "?F s1" for ck c n i g s1
    unfolding wp_bind wp_ret
    by (rule wp_keeps [OF all(1) that], rule wp_keeps [OF all(2)]) (auto simp: on_trace_def attempt_post_def)
  have start: "on_trace (grown (\<lambda>e. frameless e \<and> \<not> commits e) (hs_trace s)) s" by (simp add: on_trace_def)
  show ?thesis unfolding processJob_def Let_def wp_bind [of "before_delivery _ _ _ _ _"]
    by (rule wp_keeps [OF keeps_before_delivery [OF grown_closed [OF qf]] start])
      (auto intro!: dl simp: on_trace_def wp_ret attempt_post_def intro: grown_mono split: sum.splits)
qed

text \<open>Whether asynq will not run the task again: the error says so, or the retries are used up.\<close>

definition final_failure :: "go_error \<Rightarrow> nat \<Rightarrow> nat option \<Rightarrow> bool" where
  "final_failure err k m \<longleftrightarrow> errors_Is err SkipRetry \<or> (case m of None \<Rightarrow> False | Some n \<Rightarrow> n \<le> k)"

fun is_error_frame :: "job_event \<Rightarrow> bool" where
  "is_error_frame (EvError _ _ _) = True"
| "is_error_frame _ = False"

text \<open>
  C11. One attempt never both answers and reports an error. processJob tags every failure behind stage 7 (the delivery
  stage) as errAnswerDelivered. An attempt sends one error frame, for its own job, session and correlation id, if there is
  a publisher, its failure is final (no retry will follow) and the failure is not tagged; otherwise it sends
  none. An attempt that fails without the tag has published no terminal frame, sent no blob transaction and made no
  completeJob call. The in-flight counter goes up once first and down once last on every path. The claim is about this
  attempt: the tag says that stage 7 was reached, not that its frame could be signed, and an attempt that fails before stage 7
  does not ask whether an earlier one delivered.
\<close>

theorem answer_or_error:
  assumes "run_state (HandleTask je lib h (Inr p) k m) s = (r, s')" "hs_trace s = []"
  shows "filter is_error_frame (hs_trace s') =
      (case r of
         Some err \<Rightarrow> if jh_publisher h \<noteq> None \<and> final_failure err k m \<and> \<not> errors_Is err ErrAnswerDelivered
                     then [EvError (jp_JobID p) (jp_SessionID p) (jp_CorrelationID p)] else []
       | None \<Rightarrow> []) \<and>
    (\<forall>err. r = Some err \<longrightarrow> \<not> errors_Is err ErrAnswerDelivered \<longrightarrow> list_all (\<lambda>e. \<not> commits e) (hs_trace s')) \<and>
    (\<exists>tr. hs_trace s' = EvCounter (-1) # tr @ [EvCounter 1] \<and> (\<forall>n. EvCounter n \<notin> set tr))"
proof -
  let ?s = "s\<lparr>hs_trace := [EvCounter 1]\<rparr>"
  obtain r1 s1 where run: "run_state (processJob je lib h k p) ?s = (r1, s1)" by (meson surj_pair)
  have post: "attempt_post [EvCounter 1] r1 s1" using wp_run [OF processJob_frames run] by simp
  let ?err = "case r1 of None \<Rightarrow> False | Some err \<Rightarrow> final_failure err k m \<and> jh_publisher h \<noteq> None \<and> \<not> errors_Is err ErrAnswerDelivered"
  let ?fr = "if ?err then [EvError (jp_JobID p) (jp_SessionID p) (jp_CorrelationID p)] else []"
  have res: "r = r1 \<and> hs_trace s' = EvCounter (-1) # ?fr @ hs_trace s1"
    using assms run
    by (auto simp: HandleTask_def reportFailure_def hnote_def final_failure_def split: option.splits if_splits)
  obtain tr where tr: "hs_trace s1 = tr @ [EvCounter 1]" "list_all frameless tr" using post by (auto simp: attempt_post_def grown_def)
  have "\<not> is_error_frame e" if "frameless e" for e using that by (cases e) auto
  then have no: "EvCounter n \<notin> set tr" "filter is_error_frame tr = []" for n
    using tr(2) by (auto simp: list_all_iff filter_empty_conv)
  have quiet_err: "list_all (\<lambda>e. \<not> commits e) tr" if "r1 = Some err" "\<not> errors_Is err ErrAnswerDelivered" for err
    using that post tr(1) by (auto simp: attempt_post_def grown_def list_all_iff)
  show ?thesis using res tr(1) no quiet_err by (auto split: option.splits)
qed

theorem answer_or_error_witness:
  "\<exists>e s'. run_state (HandleTask demo_env demo_lib (demo_handler small_ckpt) (Inr demo_payload) 0 (Some 3)) demo_start = (Some e, s') \<and>
     errors_Is e ErrAnswerDelivered \<and> filter is_error_frame (hs_trace s') = []"
proof -
  obtain e s' where run: "run_state (HandleTask demo_env demo_lib (demo_handler small_ckpt) (Inr demo_payload) 0 (Some 3)) demo_start = (Some e, s')"
      and "hs_trace s' = first_events cap_err" using first_attempt by force
  then have c: "\<not> list_all (\<lambda>e. \<not> commits e) (hs_trace s')" by simp
  have "hs_trace demo_start = []" by (simp add: demo_start_def)
  note a = answer_or_error [OF run this]
  have "errors_Is e ErrAnswerDelivered" using a c by blast
  then show ?thesis using a run by auto
qed

end
