(* ===== verification/Blob_Submit.thy ===== *)
theory Blob_Submit
  imports Tx_Submit
begin

text \<open>
  Submission of blob transactions (internal/blob/blob\_tx.go): SubmitBlobTx with its send, wait, stuck-nonce
  detection and fee-bumped replacement, over the nonce manager, coordinator and tracker it shares with
  the chain client.

  KZG and the blob encoding (pkg/blob, go-ethereum) are the record \<open>blob_lib\<close>; the node, the signer and
  the context are the record \<open>blob_env\<close>, one field per call in the order the code makes them. Fees are
  unbounded integers: the conversion to 256 bits, which panics above that range, is left out. \<open>bs_sent\<close>
  records every transaction handed to SendTransaction, newest first.
\<close>

section \<open>Types\<close>

record blob_lib =
  bl_EncodeBlobData :: "byte list \<Rightarrow> go_error + byte list"
  bl_BlobToCommitment :: "byte list \<Rightarrow> go_error + byte list"
  bl_ComputeBlobProof :: "byte list \<Rightarrow> byte list \<Rightarrow> go_error + byte list"
  bl_VersionedHash :: "byte list \<Rightarrow> hash"

record blobTxPayload =
  bp_blob :: "byte list"
  bp_commitment :: "byte list"
  bp_proof :: "byte list"
  bp_versionedHash :: hash

record BlobTx =
  bx_Nonce :: u64
  bx_GasTipCap :: int
  bx_GasFeeCap :: int
  bx_Gas :: int
  bx_To :: address
  bx_BlobFeeCap :: int
  bx_BlobHashes :: "hash list"
  bx_Sidecar :: blobTxPayload

record StuckNonceConfig =
  Threshold :: int
  MaxBumps :: int
  AutoReplace :: bool

record BlobTxSubmitter =
  sb_sender :: address
  sb_maxGasPrice :: int
  sb_stuckCfg :: StuckNonceConfig

record blob_env =
  bn_tip :: "go_error + int"
  bn_now :: int
  bn_enterErr :: go_error
  bn_ctx1 :: "go_error option"
  bn_fetch :: "go_error + u64"
  bn_signTx :: "BlobTx \<Rightarrow> go_error + hash"
  bn_ctx2 :: "go_error option"
  bn_send :: "BlobTx \<Rightarrow> go_error option"
  bn_waitMined :: "BlobTx \<Rightarrow> go_error + receipt option"
  bn_clock :: int
  bn_ctx3 :: "go_error option"
  bn_tip2 :: "go_error + int"
  bn_ctx4 :: "go_error option"
  bn_send2 :: "BlobTx \<Rightarrow> go_error option"

record blob_st =
  bs_tx :: tx_state
  bs_sent :: "BlobTx list"

definition replacementBlobPayload :: "byte list" where
  "replacementBlobPayload = [0]"

definition defaultBlobFeeCapWei :: int where
  "defaultBlobFeeCapWei = 1000000000"

definition maxAllowedBumpNumber :: int where
  "maxAllowedBumpNumber = 8"

section \<open>Building\<close>

definition encodeBlobTxPayload :: "blob_lib \<Rightarrow> byte list \<Rightarrow> string \<Rightarrow> go_error + blobTxPayload" where
  "encodeBlobTxPayload bl data label =
     (case bl_EncodeBlobData bl data of
        Inl e \<Rightarrow> Inl (wrapf (''encode '' @ label) e)
      | Inr b \<Rightarrow>
          (case bl_BlobToCommitment bl b of
             Inl e \<Rightarrow> Inl (wrapf (''compute '' @ label @ '' KZG commitment'') e)
           | Inr commitment \<Rightarrow>
               (case bl_ComputeBlobProof bl b commitment of
                  Inl e \<Rightarrow> Inl (wrapf (''compute '' @ label @ '' KZG proof'') e)
                | Inr proof \<Rightarrow> Inr \<lparr>bp_blob = b, bp_commitment = commitment, bp_proof = proof,
                    bp_versionedHash = bl_VersionedHash bl commitment\<rparr>)))"

definition blob_tx_of :: "BlobTxSubmitter \<Rightarrow> blobTxPayload \<Rightarrow> u64 \<Rightarrow> int \<Rightarrow> int \<Rightarrow> int \<Rightarrow> BlobTx" where
  "blob_tx_of s payload nonce gasTipCap gasFeeCap blobFeeCap =
     \<lparr>bx_Nonce = nonce, bx_GasTipCap = gasTipCap, bx_GasFeeCap = gasFeeCap, bx_Gas = 21000, bx_To = sb_sender s,
      bx_BlobFeeCap = blobFeeCap, bx_BlobHashes = [bp_versionedHash payload], bx_Sidecar = payload\<rparr>"

text \<open>The signed transaction is the transaction with its hash.\<close>

definition signBlobTx :: "blob_env \<Rightarrow> BlobTxSubmitter \<Rightarrow> blobTxPayload \<Rightarrow> u64 \<Rightarrow> int \<Rightarrow> int \<Rightarrow> int \<Rightarrow> go_error + BlobTx \<times> hash" where
  "signBlobTx env s payload nonce gasTipCap gasFeeCap blobFeeCap =
     (let tx = blob_tx_of s payload nonce gasTipCap gasFeeCap blobFeeCap
      in case bn_signTx env tx of Inl e \<Rightarrow> Inl e | Inr h \<Rightarrow> Inr (tx, h))"

definition on_tx :: "(tx_state \<Rightarrow> tx_state) \<Rightarrow> blob_st \<Rightarrow> blob_st" where
  "on_tx f st = st\<lparr>bs_tx := f (bs_tx st)\<rparr>"

definition put_sent :: "BlobTx \<Rightarrow> blob_st \<Rightarrow> blob_st" where
  "put_sent tx st = st\<lparr>bs_sent := tx # bs_sent st\<rparr>"

section \<open>Replacement\<close>

definition submitReplacementBlobTx :: "blob_lib \<Rightarrow> blob_env \<Rightarrow> BlobTxSubmitter \<Rightarrow> u64 \<Rightarrow> int \<Rightarrow> blob_st \<Rightarrow> go_error option \<times> blob_st" where
  "submitReplacementBlobTx bl env s nonce bumpNumber st =
     (if bumpNumber < 1 then (Some (errorf ''bumpNumber must be >= 1''), st)
      else if maxAllowedBumpNumber < bumpNumber then (Some (errorf ''bumpNumber exceeds safety ceiling''), st)
      else case bn_ctx3 env of
        Some e \<Rightarrow> (Some (wrapf ''replacement context done before build'' e), st)
      | None \<Rightarrow>
          (case encodeBlobTxPayload bl replacementBlobPayload ''replacement blob payload'' of
             Inl e \<Rightarrow> (Some e, st)
           | Inr payload \<Rightarrow>
               (case bn_tip2 env of
                  Inl e \<Rightarrow> (Some (wrapf ''suggest replacement gas tip'' e), st)
                | Inr tipSuggested \<Rightarrow>
                    (let multiplier = 2 ^ nat bumpNumber in
                     case signBlobTx env s payload nonce (tipSuggested * multiplier) (sb_maxGasPrice s * multiplier)
                            (defaultBlobFeeCapWei * multiplier) of
                       Inl e \<Rightarrow> (Some (wrapf ''sign replacement blob tx'' e), st)
                     | Inr (tx, h) \<Rightarrow>
                         (case bn_ctx4 env of
                            Some e \<Rightarrow> (Some (wrapf ''replacement context done before broadcast'' e), st)
                          | None \<Rightarrow>
                              (let st1 = put_sent tx (on_tx (\<lambda>t. t\<lparr>ts_stuck := IncrementBumpAttemptsFor nonce (ts_stuck t)\<rparr>) st)
                               in case bn_send2 env tx of
                                    Some e \<Rightarrow> (Some (wrapf ''broadcast replacement blob tx'' e), st1)
                                  | None \<Rightarrow> (None, st1)))))))"

definition maybeSubmitReplacementBlobTx :: "blob_lib \<Rightarrow> blob_env \<Rightarrow> BlobTxSubmitter \<Rightarrow> u64 \<Rightarrow> int \<Rightarrow> blob_st \<Rightarrow> blob_st" where
  "maybeSubmitReplacementBlobTx bl env s nonce stuckHits st =
     (let cfg = sb_stuckCfg s in
      if Threshold cfg \<le> 0 \<or> stuckHits < Threshold cfg then st
      else if \<not> AutoReplace cfg then st
      else let bumpsUsed = BumpAttemptsUsedFor nonce (ts_stuck (bs_tx st)) in
        if MaxBumps cfg \<le> bumpsUsed then st
        else snd (submitReplacementBlobTx bl env s nonce (bumpsUsed + 1) st))"

definition handleSendError :: "blob_lib \<Rightarrow> blob_env \<Rightarrow> BlobTxSubmitter \<Rightarrow> go_error \<Rightarrow> u64 \<Rightarrow> blob_st \<Rightarrow> blob_st" where
  "handleSendError bl env s err nonce st =
     (let st1 = (if ShouldResetNonceOnSendError (Some err) then on_tx reset_nonce st else st) in
      if IsAlreadyReservedError (Some err)
      then (case Record (bn_clock env) (bn_clock env) nonce (ts_stuck (bs_tx st1)) of
              (stuckHits, tr) \<Rightarrow> maybeSubmitReplacementBlobTx bl env s nonce stuckHits (on_tx (\<lambda>t. t\<lparr>ts_stuck := tr\<rparr>) st1))
      else st1)"

section \<open>Submission\<close>

definition submitAndWait :: "blob_lib \<Rightarrow> blob_env \<Rightarrow> BlobTxSubmitter \<Rightarrow> BlobTx \<Rightarrow> hash \<Rightarrow> BroadcastToken \<Rightarrow> u64 \<Rightarrow> blob_st \<Rightarrow> go_error option outcome \<times> blob_st" where
  "submitAndWait bl env s tx txHash tok nonce st =
     (let st1 = put_sent tx st in
      case bn_send env tx of
        Some err \<Rightarrow> (Ret (Some (wrapf ''send blob tx'' err)), handleSendError bl env s err nonce st1)
      | None \<Rightarrow>
          (let st2 = on_tx (\<lambda>t. t\<lparr>ts_coord := Registered (Some tok) txHash (ts_coord t)\<rparr>) st1 in
           case bn_waitMined env tx of
             Inl e \<Rightarrow> (Ret (Some (wrapf ''wait for blob tx'' e)), on_tx reset_nonce st2)
           | Inr None \<Rightarrow> (Panic, st2)
           | Inr (Some rc) \<Rightarrow>
               if r_status rc \<noteq> receiptStatusSuccessful then (Ret (Some (errorf ''blob tx reverted (status 0)'')), st2)
               else (Ret None, on_tx (\<lambda>t. t\<lparr>ts_stuck := Clear (ts_stuck t)\<rparr>) st2)))"

text \<open>The part of SubmitBlobTx after the nonce lease; the deferred ReleaseNonce runs on every exit.\<close>

definition submit_leased :: "blob_lib \<Rightarrow> blob_env \<Rightarrow> BlobTxSubmitter \<Rightarrow> blobTxPayload \<Rightarrow> int \<Rightarrow> BroadcastToken \<Rightarrow> u64 \<Rightarrow> blob_st \<Rightarrow>
    (go_error + hash list) outcome \<times> blob_st" where
  "submit_leased bl env s payload gasTipCap tok nonce st =
     (case signBlobTx env s payload nonce gasTipCap (sb_maxGasPrice s) defaultBlobFeeCapWei of
        Inl e \<Rightarrow> (Ret (Inl (wrapf ''sign blob tx'' e)), on_tx (release_nonce nonce False) st)
      | Inr (tx, txHash) \<Rightarrow>
          (case bn_ctx2 env of
             Some e \<Rightarrow> (Ret (Inl (wrapf ''broadcast blob tx'' e)), on_tx (release_nonce nonce False) st)
           | None \<Rightarrow>
               (case submitAndWait bl env s tx txHash tok nonce st of
                  (r, st1) \<Rightarrow>
                    (case r of
                       Ret None \<Rightarrow> Ret (Inr [bp_versionedHash payload])
                     | Ret (Some e) \<Rightarrow> Ret (Inl e)
                     | Panic \<Rightarrow> Panic,
                     on_tx (release_nonce nonce True) st1))))"

definition SubmitBlobTx :: "blob_lib \<Rightarrow> blob_env \<Rightarrow> BlobTxSubmitter \<Rightarrow> byte list \<Rightarrow> blob_st \<Rightarrow> (go_error + hash list) outcome \<times> blob_st" where
  "SubmitBlobTx bl env s data st =
     (case encodeBlobTxPayload bl data ''blob payload'' of
        Inl e \<Rightarrow> (Ret (Inl e), st)
      | Inr payload \<Rightarrow>
          (case bn_tip env of
             Inl e \<Rightarrow> (Ret (Inl (wrapf ''suggest gas tip cap'' e)), st)
           | Inr gasTipCap \<Rightarrow>
               (case Enter_try ClassBlob (bn_now env) (ts_coord (bs_tx st)) of
                  Inl g \<Rightarrow> (Ret (Inl (wrapf ''wait for blob broadcast slot'' (bn_enterErr env))), st)
                | Inr (tok, c1) \<Rightarrow>
                    (let st1 = on_tx (\<lambda>t. t\<lparr>ts_coord := c1\<rparr>) st;
                         res = (case bn_ctx1 env of
                             Some e \<Rightarrow> (Ret (Inl (wrapf ''wait for blob broadcast slot'' e)), st1)
                           | None \<Rightarrow>
                               (case NextNonce (bn_fetch env) (ts_nonce (bs_tx st1)) of
                                  (Inl e, nm) \<Rightarrow> (Ret (Inl (wrapf ''get nonce for blob tx'' e)), on_tx (\<lambda>t. t\<lparr>ts_nonce := nm\<rparr>) st1)
                                | (Inr nonce, nm) \<Rightarrow>
                                    submit_leased bl env s payload gasTipCap tok nonce (on_tx (\<lambda>t. t\<lparr>ts_nonce := nm\<rparr>) st1)))
                     in case res of (r, st2) \<Rightarrow>
                          (r, on_tx (\<lambda>t. t\<lparr>ts_coord := snd (Done (Some tok) (ts_coord t))\<rparr>) st2)))))"

section \<open>Slots and leases\<close>

lemma on_tx_simps [simp]: "bs_tx (on_tx f st) = f (bs_tx st)" "bs_sent (on_tx f st) = bs_sent st"
  "bs_tx (put_sent tx st) = bs_tx st" "bs_sent (put_sent tx st) = tx # bs_sent st"
  by (simp_all add: on_tx_def put_sent_def)

lemma replacement_frame [simp]:
  "ts_coord (bs_tx (snd (submitReplacementBlobTx bl env s n k st))) = ts_coord (bs_tx st)"
  "ts_nonce (bs_tx (snd (submitReplacementBlobTx bl env s n k st))) = ts_nonce (bs_tx st)"
  by (auto simp: submitReplacementBlobTx_def Let_def split: option.splits sum.splits prod.splits)

lemma maybe_replacement_frame [simp]:
  "ts_coord (bs_tx (maybeSubmitReplacementBlobTx bl env s n k st)) = ts_coord (bs_tx st)"
  "ts_nonce (bs_tx (maybeSubmitReplacementBlobTx bl env s n k st)) = ts_nonce (bs_tx st)"
  by (auto simp: maybeSubmitReplacementBlobTx_def Let_def)

lemma handleSendError_frame [simp]:
  "ts_coord (bs_tx (handleSendError bl env s err n st)) = ts_coord (bs_tx st)"
  "ts_nonce (bs_tx (handleSendError bl env s err n st)) =
     (if ShouldResetNonceOnSendError (Some err) then ResetNonce (ts_nonce (bs_tx st)) else ts_nonce (bs_tx st))"
  by (auto simp: handleSendError_def Let_def reset_nonce_def split: prod.splits)

definition maybe_registered :: "BroadcastToken \<Rightarrow> coordinator \<Rightarrow> coordinator \<Rightarrow> bool" where
  "maybe_registered tok c c' \<longleftrightarrow> c' = c \<or> (\<exists>h. c' = Registered (Some tok) h c)"

definition maybe_reset :: "nonce_mgr \<Rightarrow> nonce_mgr \<Rightarrow> bool" where
  "maybe_reset nm nm' \<longleftrightarrow> nm' = nm \<or> nm' = ResetNonce nm"

lemma submitAndWait_frame:
  "maybe_registered tok (ts_coord (bs_tx st)) (ts_coord (bs_tx (snd (submitAndWait bl env s tx h tok n st))))"
  "maybe_reset (ts_nonce (bs_tx st)) (ts_nonce (bs_tx (snd (submitAndWait bl env s tx h tok n st))))"
  by (auto simp: submitAndWait_def Let_def maybe_registered_def maybe_reset_def reset_nonce_def
      split: option.splits sum.splits)

lemma submit_leased_frame:
  "maybe_registered tok (ts_coord (bs_tx st)) (ts_coord (bs_tx (snd (submit_leased bl env s p tip tok n st))))"
  "\<exists>c nm. maybe_reset (ts_nonce (bs_tx st)) nm \<and> ts_nonce (bs_tx (snd (submit_leased bl env s p tip tok n st))) = ReleaseNonce n c nm"
proof -
  note f = submitAndWait_frame [where tok = tok and st = st and bl = bl and env = env and s = s and n = n]
  have same: "maybe_registered tok (ts_coord (bs_tx st)) (ts_coord (bs_tx st))" "maybe_reset (ts_nonce (bs_tx st)) (ts_nonce (bs_tx st))"
    by (simp_all add: maybe_registered_def maybe_reset_def)
  show "maybe_registered tok (ts_coord (bs_tx st)) (ts_coord (bs_tx (snd (submit_leased bl env s p tip tok n st))))"
    using f(1) same(1) by (simp add: submit_leased_def case_prod_beta split: option.split sum.split)
  show "\<exists>c nm. maybe_reset (ts_nonce (bs_tx st)) nm \<and> ts_nonce (bs_tx (snd (submit_leased bl env s p tip tok n st))) = ReleaseNonce n c nm"
    using f(2) same(2) by (auto simp: submit_leased_def case_prod_beta split: option.split sum.split)
qed

lemma leased_keeps:
  assumes "nonce_inv (ts_nonce (bs_tx st)) (n # H) S"
  shows "\<exists>S'. nonce_inv (ts_nonce (bs_tx (snd (submit_leased bl env s p tip tok n st)))) H S'"
proof -
  obtain c nm where nm: "maybe_reset (ts_nonce (bs_tx st)) nm"
      and r: "ts_nonce (bs_tx (snd (submit_leased bl env s p tip tok n st))) = ReleaseNonce n c nm"
    using submit_leased_frame(2) by blast
  have "nonce_inv nm (n # H) S" using nm assms nonce_mgr.reset_inv by (auto simp: maybe_reset_def)
  then show ?thesis using nonce_mgr.release_inv [of nm "n # H" S n c] r by auto
qed

definition blob_room :: "blob_env \<Rightarrow> nonce_mgr \<Rightarrow> bool" where
  "blob_room env nm \<longleftrightarrow> (if initialized nm then pendingNonce nm \<noteq> - 1 else case bn_fetch env of Inl e \<Rightarrow> True | Inr p \<Rightarrow> p \<noteq> - 1)"

lemma SubmitBlobTx_leases:
  assumes "nonce_inv (ts_nonce (bs_tx st)) H S" "blob_room env (ts_nonce (bs_tx st))"
  shows "\<exists>S'. nonce_inv (ts_nonce (bs_tx (snd (SubmitBlobTx bl env s data st)))) H S'"
proof -
  obtain rn nm where nx: "NextNonce (bn_fetch env) (ts_nonce (bs_tx st)) = (rn, nm)" by (cases "NextNonce (bn_fetch env) (ts_nonce (bs_tx st))")
  have "\<exists>S'. nonce_inv nm (n # H) S'" if "rn = Inr n" for n
  proof -
    have "n \<noteq> - 1" using assms(2) nx that by (auto simp: blob_room_def NextNonce_def split: if_splits sum.splits)
    then show ?thesis using nonce_mgr.acquire_ok [OF assms(1)] nx that by blast
  qed
  then have go: "\<exists>S'. nonce_inv (ts_nonce (bs_tx (snd (submit_leased bl env s p tip tok n (st'\<lparr>bs_tx := t\<lparr>ts_nonce := nm\<rparr>\<rparr>))))) H S'"
    if "rn = Inr n" for n p tip tok st' t using that leased_keeps by fastforce
  have "nm = ts_nonce (bs_tx st)" if "rn = Inl e" for e using NextNonce_Inl_same nx that by blast
  then show ?thesis using assms(1) go
    by (auto simp: SubmitBlobTx_def Let_def nx case_prod_beta on_tx_def split: sum.splits option.splits prod.splits)
qed

lemma SubmitBlobTx_slots:
  assumes "coord_wf (ts_coord (bs_tx st)) \<and> ids_fresh (ts_coord (bs_tx st))" "nextID (ts_coord (bs_tx st)) \<noteq> - 1"
  shows "slot_ids (ts_coord (bs_tx (snd (SubmitBlobTx bl env s data st)))) = slot_ids (ts_coord (bs_tx st)) \<and>
    coord_wf (ts_coord (bs_tx (snd (SubmitBlobTx bl env s data st))))"
proof -
  let ?c = "ts_coord (bs_tx (snd (SubmitBlobTx bl env s data st)))"
  have "?c = ts_coord (bs_tx st) \<or> (\<exists>tok c1 c2. Enter_try ClassBlob (bn_now env) (ts_coord (bs_tx st)) = Inr (tok, c1) \<and>
      maybe_registered tok c1 c2 \<and> ?c = snd (Done (Some tok) c2))"
  proof (cases "Enter_try ClassBlob (bn_now env) (ts_coord (bs_tx st))")
    case (Inl g)
    then show ?thesis by (simp add: SubmitBlobTx_def split: sum.splits)
  next
    case (Inr x)
    obtain tok c1 where x: "x = (tok, c1)" by (cases x)
    define given where "given c' \<longleftrightarrow> (\<exists>c2. maybe_registered tok c1 c2 \<and> c' = snd (Done (Some tok) c2))" for c'
    have m: "given (snd (Done (Some tok) c1))" unfolding given_def by (rule exI [of _ c1]) (simp add: maybe_registered_def)
    have l: "given (snd (Done (Some tok) (ts_coord (bs_tx (snd (submit_leased bl env s p tip tok n st1))))))" if "ts_coord (bs_tx st1) = c1" for p tip n st1
      using submit_leased_frame(1) [of tok st1 bl env s p tip n] that unfolding given_def by blast
    have "?c = ts_coord (bs_tx st) \<or> given ?c"
      using Inr x m l by (auto simp: SubmitBlobTx_def Let_def case_prod_beta split: sum.split option.split prod.split)
    then show ?thesis using Inr x unfolding given_def by blast
  qed
  then show ?thesis
  proof (elim disjE exE conjE)
    fix tok c1 c2
    assume e: "Enter_try ClassBlob (bn_now env) (ts_coord (bs_tx st)) = Inr (tok, c1)"
      and m: "maybe_registered tok c1 c2" and c: "?c = snd (Done (Some tok) c2)"
    show ?thesis
      using m slots.bracket_ids [OF assms e] slots.bracket_register_ids [OF assms e] slots.enter_wf [OF assms e] slots.leave_wf slots.register_wf
      by (auto simp: c maybe_registered_def)
  qed (use assms in simp)
qed

section \<open>What is sent\<close>

abbreviation bumps :: "blob_st \<Rightarrow> u64 \<Rightarrow> int" where
  "bumps st n \<equiv> BumpAttemptsUsedFor n (ts_stuck (bs_tx st))"

definition ordinary_tx :: "blob_lib \<Rightarrow> blob_env \<Rightarrow> BlobTxSubmitter \<Rightarrow> byte list \<Rightarrow> BlobTx \<Rightarrow> bool" where
  "ordinary_tx bl env s data tx \<longleftrightarrow> (\<exists>payload tip. encodeBlobTxPayload bl data ''blob payload'' = Inr payload \<and> bn_tip env = Inr tip \<and>
     tx = blob_tx_of s payload (bx_Nonce tx) tip (sb_maxGasPrice s) defaultBlobFeeCapWei)"

text \<open>The \<open>k\<close>-th replacement: the placeholder payload at the same nonce, every fee multiplied by \<open>2 ^ k\<close>.\<close>

definition bumped_tx :: "blob_lib \<Rightarrow> blob_env \<Rightarrow> BlobTxSubmitter \<Rightarrow> u64 \<Rightarrow> nat \<Rightarrow> BlobTx \<Rightarrow> bool" where
  "bumped_tx bl env s n k tx \<longleftrightarrow> (\<exists>payload tip. encodeBlobTxPayload bl replacementBlobPayload ''replacement blob payload'' = Inr payload \<and>
     bn_tip2 env = Inr tip \<and> tx = blob_tx_of s payload n (tip * 2 ^ k) (sb_maxGasPrice s * 2 ^ k) (defaultBlobFeeCapWei * 2 ^ k))"

definition within_budget :: "BlobTxSubmitter \<Rightarrow> nat \<Rightarrow> bool" where
  "within_budget s k \<longleftrightarrow> AutoReplace (sb_stuckCfg s) \<and> 0 < Threshold (sb_stuckCfg s) \<and> 1 \<le> k \<and> k \<le> 8 \<and> int k \<le> MaxBumps (sb_stuckCfg s)"

definition replaces :: "blob_lib \<Rightarrow> blob_env \<Rightarrow> BlobTxSubmitter \<Rightarrow> u64 \<Rightarrow> blob_st \<Rightarrow> blob_st \<Rightarrow> bool" where
  "replaces bl env s n st st' \<longleftrightarrow> (\<exists>rep k. bs_sent st' = rep # bs_sent st \<and> bumped_tx bl env s n k rep \<and> within_budget s k \<and>
     int k = bumps st n + 1 \<and> bumps st' n = int k)"

definition same_sent :: "blob_st \<Rightarrow> blob_st \<Rightarrow> bool" where
  "same_sent st st' \<longleftrightarrow> bs_sent st' = bs_sent st \<and> bumps st' = bumps st"

lemma bump_Record [simp]: "BumpAttemptsUsedFor n (snd (Record a b m t)) = BumpAttemptsUsedFor n t"
  by (simp add: BumpAttemptsUsedFor_def Record_def reapStaleLocked_def Let_def)

lemma bump_Increment [simp]: "BumpAttemptsUsedFor n (IncrementBumpAttemptsFor n t) = BumpAttemptsUsedFor n t + 1"
  by (simp add: BumpAttemptsUsedFor_def IncrementBumpAttemptsFor_def Let_def)

lemma replacement_sends:
  fixes bl env s n k st
  defines "st' \<equiv> snd (submitReplacementBlobTx bl env s n k st)"
  shows "same_sent st st' \<or> (\<exists>rep. bs_sent st' = rep # bs_sent st \<and> 1 \<le> k \<and> k \<le> 8 \<and> bumped_tx bl env s n (nat k) rep \<and> bumps st' n = bumps st n + 1)"
  unfolding st'_def
  by (auto simp: submitReplacementBlobTx_def signBlobTx_def maxAllowedBumpNumber_def bumped_tx_def same_sent_def Let_def
      split: option.split sum.split)

lemma maybe_replacement_sends:
  fixes bl env s n hs st
  defines "st' \<equiv> maybeSubmitReplacementBlobTx bl env s n hs st"
  shows "same_sent st st' \<or> replaces bl env s n st st'"
proof -
  let ?k = "bumps st n + 1"
  have refl: "same_sent st st" by (simp add: same_sent_def)
  show ?thesis
  proof (cases "0 < Threshold (sb_stuckCfg s) \<and> Threshold (sb_stuckCfg s) \<le> hs \<and> AutoReplace (sb_stuckCfg s) \<and> bumps st n < MaxBumps (sb_stuckCfg s)")
    case True
    then have st': "st' = snd (submitReplacementBlobTx bl env s n ?k st)" by (simp add: st'_def maybeSubmitReplacementBlobTx_def Let_def)
    have "replaces bl env s n st st'" if "bs_sent st' = rep # bs_sent st" "1 \<le> ?k" "?k \<le> 8" "bumped_tx bl env s n (nat ?k) rep" "bumps st' n = bumps st n + 1" for rep
      unfolding replaces_def using that True by (intro exI [of _ rep] exI [of _ "nat ?k"]) (auto simp: within_budget_def)
    then show ?thesis using replacement_sends [of st bl env s n ?k] unfolding st' by blast
  next
    case False
    then show ?thesis using refl by (auto simp: st'_def maybeSubmitReplacementBlobTx_def Let_def)
  qed
qed

lemma handleSendError_sends:
  fixes bl env s err n st
  defines "st' \<equiv> handleSendError bl env s err n st"
  shows "same_sent st st' \<or> IsAlreadyReservedError (Some err) \<and> replaces bl env s n st st'"
proof (cases "IsAlreadyReservedError (Some err)")
  case False
  then show ?thesis by (simp add: st'_def handleSendError_def same_sent_def Let_def reset_nonce_def)
next
  case True
  let ?s1 = "if ShouldResetNonceOnSendError (Some err) then on_tx reset_nonce st else st"
  obtain hs tr where r: "Record (bn_clock env) (bn_clock env) n (ts_stuck (bs_tx ?s1)) = (hs, tr)" by (meson surj_pair)
  let ?s2 = "on_tx (\<lambda>t. t\<lparr>ts_stuck := tr\<rparr>) ?s1"
  have tr: "BumpAttemptsUsedFor m tr = bumps st m" for m using bump_Record [of m "bn_clock env" "bn_clock env" n "ts_stuck (bs_tx ?s1)"]
    by (auto simp: r reset_nonce_def)
  have "st' = maybeSubmitReplacementBlobTx bl env s n hs ?s2" using True r by (simp add: st'_def handleSendError_def Let_def)
  then have "same_sent ?s2 st' \<or> replaces bl env s n ?s2 st'" using maybe_replacement_sends [of ?s2 bl env s n hs] by simp
  then show ?thesis using True tr by (auto simp: same_sent_def replaces_def fun_eq_iff)
qed

text \<open>One call: nothing sent; the ordinary transaction accepted; or refused, with at most one replacement after it.\<close>

definition blob_post :: "blob_lib \<Rightarrow> blob_env \<Rightarrow> BlobTxSubmitter \<Rightarrow> byte list \<Rightarrow> blob_st \<Rightarrow> (go_error + hash list) outcome \<Rightarrow> blob_st \<Rightarrow> bool" where
  "blob_post bl env s data st res st' \<longleftrightarrow>
     same_sent st st' \<and> (\<forall>hs. res \<noteq> Ret (Inr hs)) \<or>
     (\<exists>tx. ordinary_tx bl env s data tx \<and>
        (same_sent (put_sent tx st) st' \<and> (\<forall>hs. res \<noteq> Ret (Inr hs)) \<or>
         bs_sent st' = tx # bs_sent st \<and> bn_send env tx = None \<and> res = Ret (Inr (bx_BlobHashes tx)) \<or>
         (\<exists>err. bn_send env tx = Some err \<and> IsAlreadyReservedError (Some err) \<and> res = Ret (Inl (wrapf ''send blob tx'' err)) \<and>
            replaces bl env s (bx_Nonce tx) (put_sent tx st) st')))"

lemma blob_post_cong:
  "bs_sent st1 = bs_sent st \<Longrightarrow> bumps st1 = bumps st \<Longrightarrow> bs_sent st1' = bs_sent st' \<Longrightarrow> bumps st1' = bumps st' \<Longrightarrow>
     blob_post bl env s data st1 res st1' = blob_post bl env s data st res st'"
  by (simp add: blob_post_def same_sent_def replaces_def fun_eq_iff)

lemma submit_leased_sends:
  assumes "encodeBlobTxPayload bl data ''blob payload'' = Inr p" "bn_tip env = Inr tip"
    and "submit_leased bl env s p tip tok n st = (res, st')"
  shows "blob_post bl env s data st res st'"
proof -
  let ?tx = "blob_tx_of s p n tip (sb_maxGasPrice s) defaultBlobFeeCapWei"
  have ord: "ordinary_tx bl env s data ?tx" "bx_Nonce ?tx = n" "bx_BlobHashes ?tx = [bp_versionedHash p]"
    using assms(1,2) by (simp_all add: ordinary_tx_def blob_tx_of_def)
  have early: "blob_post bl env s data st (Ret (Inl e)) (on_tx (release_nonce n c) st)" for e c
    by (simp add: blob_post_def same_sent_def release_nonce_def)
  have quiet: "blob_post bl env s data st r st1" if "same_sent (put_sent ?tx st) st1" "\<forall>hs. r \<noteq> Ret (Inr hs)" for r st1
    using that ord(1) unfolding blob_post_def by blast
  have ok: "blob_post bl env s data st (Ret (Inr [bp_versionedHash p])) st1" if "bs_sent st1 = ?tx # bs_sent st" "bn_send env ?tx = None" for st1
    using that ord(1,3) unfolding blob_post_def by metis
  have rep: "blob_post bl env s data st (Ret (Inl (wrapf ''send blob tx'' err))) st1"
    if "bn_send env ?tx = Some err" "same_sent (put_sent ?tx st) st1 \<or> IsAlreadyReservedError (Some err) \<and> replaces bl env s n (put_sent ?tx st) st1" for err st1
    using that(2)
  proof
    assume "same_sent (put_sent ?tx st) st1"
    then show ?thesis by (rule quiet) simp
  next
    assume "IsAlreadyReservedError (Some err) \<and> replaces bl env s n (put_sent ?tx st) st1"
    then show ?thesis using that(1) ord(1,2) unfolding blob_post_def by metis
  qed
  have rel: "blob_post bl env s data st r (on_tx (release_nonce n c) st1) = blob_post bl env s data st r st1" for r c st1
    by (rule blob_post_cong) (simp_all add: release_nonce_def)
  show ?thesis
    using assms(3) early quiet ok rep [OF _ handleSendError_sends]
    by (auto simp: submit_leased_def signBlobTx_def submitAndWait_def rel Let_def same_sent_def reset_nonce_def
        split: sum.splits option.splits if_splits)
qed

lemma SubmitBlobTx_sends:
  assumes "SubmitBlobTx bl env s data st = (res, st')"
  shows "blob_post bl env s data st res st'"
proof -
  have none: "blob_post bl env s data st (Ret (Inl e)) st1" if "bs_sent st1 = bs_sent st" "bumps st1 = bumps st" for e st1
    using that by (simp add: blob_post_def same_sent_def)
  have fin: "blob_post bl env s data st r (on_tx (\<lambda>t. t\<lparr>ts_coord := c t\<rparr>) st2)"
    if "submit_leased bl env s p tip tok n st1 = (r, st2)" "encodeBlobTxPayload bl data ''blob payload'' = Inr p" "bn_tip env = Inr tip"
      "bs_sent st1 = bs_sent st" "bumps st1 = bumps st" for p tip tok n st1 st2 r c
  proof -
    have "blob_post bl env s data st1 r st2" by (rule submit_leased_sends [OF that(2,3,1)])
    then have "blob_post bl env s data st r st2" using that(4,5) by (simp add: blob_post_def same_sent_def replaces_def fun_eq_iff)
    moreover have "blob_post bl env s data st r (on_tx (\<lambda>t. t\<lparr>ts_coord := c t\<rparr>) st2) = blob_post bl env s data st r st2"
      by (rule blob_post_cong) simp_all
    ultimately show ?thesis by simp
  qed
  show ?thesis using assms none
    by (auto simp: SubmitBlobTx_def Let_def split: sum.splits option.splits prod.splits intro: fin)
qed

section \<open>Runs\<close>

text \<open>Submissions one after the other, each with what the node answers to it.\<close>

fun run_blobs :: "blob_lib \<Rightarrow> BlobTxSubmitter \<Rightarrow> (blob_env \<times> byte list) list \<Rightarrow> blob_st \<Rightarrow> (go_error + hash list) outcome list \<times> blob_st" where
  "run_blobs bl s [] st = ([], st)"
| "run_blobs bl s ((env, data) # cs) st =
     (case SubmitBlobTx bl env s data st of (r, st1) \<Rightarrow> (case run_blobs bl s cs st1 of (rs, st2) \<Rightarrow> (r # rs, st2)))"

definition is_replacement :: "BlobTx \<Rightarrow> bool" where
  "is_replacement tx \<longleftrightarrow> bx_BlobFeeCap tx \<noteq> defaultBlobFeeCapWei"

definition bump_caps :: "BlobTx list \<Rightarrow> int list" where
  "bump_caps sent = map bx_BlobFeeCap (filter is_replacement (rev sent))"

text \<open>The replacements so far are the first \<open>m\<close> of the ladder, and \<open>m\<close> is what the tracker has counted for \<open>n\<close>.\<close>

definition ladder :: "BlobTxSubmitter \<Rightarrow> u64 \<Rightarrow> blob_st \<Rightarrow> nat \<Rightarrow> bool" where
  "ladder s n st m \<longleftrightarrow> bump_caps (bs_sent st) = map (\<lambda>k. defaultBlobFeeCapWei * 2 ^ k) [1..<Suc m] \<and> bumps st n = int m \<and>
     (m = 0 \<or> within_budget s m)"

lemma ordinary_cap [simp]: "ordinary_tx bl env s data tx \<Longrightarrow> \<not> is_replacement tx"
  by (auto simp: ordinary_tx_def is_replacement_def blob_tx_of_def dest: arg_cong [where f = bx_BlobFeeCap])

lemma bumped_cap:
  assumes "bumped_tx bl env s n k tx" "1 \<le> k"
  shows "is_replacement tx \<and> bx_BlobFeeCap tx = defaultBlobFeeCapWei * 2 ^ k"
proof -
  have "(1 :: int) < 2 ^ k" using assms(2) by (intro one_less_power) simp_all
  then show ?thesis using assms(1) by (auto simp: bumped_tx_def is_replacement_def blob_tx_of_def defaultBlobFeeCapWei_def)
qed

lemma same_sentD: "same_sent st st' \<Longrightarrow> bs_sent st' = bs_sent st" "same_sent st st' \<Longrightarrow> bumps st' n = bumps st n"
  by (simp_all add: same_sent_def fun_eq_iff)

lemma ladder_step:
  assumes "ladder s n st m" "blob_post bl env s data st res st'" "\<forall>hs. res \<noteq> Ret (Inr hs)" "list_all (\<lambda>tx. bx_Nonce tx = n) (bs_sent st')"
  shows "\<exists>m'. ladder s n st' m'"
proof -
  have same: "ladder s n st' m" if "same_sent st st'" using same_sentD [OF that] assms(1) by (simp add: ladder_def)
  have plain: "ladder s n st' m" if "same_sent (put_sent tx st) st'" "ordinary_tx bl env s data tx" for tx
    using same_sentD [OF that(1)] that(2) assms(1) by (simp add: ladder_def bump_caps_def)
  have more: "ladder s n st' (Suc m)" if rp: "replaces bl env s (bx_Nonce tx) (put_sent tx st) st'" and ord: "ordinary_tx bl env s data tx" for tx
  proof -
    obtain rep k where r: "bs_sent st' = rep # tx # bs_sent st" "bumped_tx bl env s (bx_Nonce tx) k rep" "within_budget s k"
        "int k = bumps st (bx_Nonce tx) + 1" "bumps st' (bx_Nonce tx) = int k"
      using rp unfolding replaces_def by auto
    have n: "bx_Nonce tx = n" using assms(4) r(1) by simp
    then have k: "k = Suc m" using r(4) assms(1) by (simp add: ladder_def)
    have cap: "is_replacement rep \<and> bx_BlobFeeCap rep = defaultBlobFeeCapWei * 2 ^ k" using bumped_cap [OF r(2)] k by simp
    show ?thesis using assms(1) r(1,3,5) ord n cap k by (simp add: ladder_def bump_caps_def)
  qed
  show ?thesis using assms(2,3) same plain more unfolding blob_post_def by blast
qed

lemma run_blobs_sent: "run_blobs bl s cs st = (rs, st') \<Longrightarrow> \<exists>new. bs_sent st' = new @ bs_sent st"
proof (induction cs arbitrary: st rs)
  case (Cons c cs)
  obtain env data where c: "c = (env, data)" by (cases c)
  obtain r st1 where r: "SubmitBlobTx bl env s data st = (r, st1)" by (meson surj_pair)
  obtain rs1 where rs: "run_blobs bl s cs st1 = (rs1, st')" using Cons.prems by (simp add: c r split: prod.splits)
  have "\<exists>new. bs_sent st1 = new @ bs_sent st"
    using SubmitBlobTx_sends [OF r] by (auto simp: blob_post_def same_sent_def replaces_def)
  then show ?case using Cons.IH [OF rs] by auto
qed simp

lemma run_blobs_ladder:
  assumes "run_blobs bl s cs st = (rs, st')" "ladder s n st m" "list_all (\<lambda>r. \<forall>hs. r \<noteq> Ret (Inr hs)) rs" "list_all (\<lambda>tx. bx_Nonce tx = n) (bs_sent st')"
  shows "\<exists>m'. ladder s n st' m'"
  using assms(1-3)
proof (induction cs arbitrary: st rs m)
  case (Cons c cs)
  obtain env data where c: "c = (env, data)" by (cases c)
  obtain r st1 where r: "SubmitBlobTx bl env s data st = (r, st1)" by (meson surj_pair)
  obtain rs1 where rs: "run_blobs bl s cs st1 = (rs1, st')" "rs = r # rs1" using Cons.prems(1) by (auto simp: c r split: prod.splits)
  have "list_all (\<lambda>tx. bx_Nonce tx = n) (bs_sent st1)" using run_blobs_sent [OF rs(1)] assms(4) by auto
  then obtain m1 where "ladder s n st1 m1" using ladder_step [OF Cons.prems(2) SubmitBlobTx_sends [OF r]] Cons.prems(3) rs(2) by auto
  then show ?case using Cons.IH [OF rs(1)] Cons.prems(3) rs(2) by simp
qed auto

definition demo_blob_lib :: blob_lib where
  "demo_blob_lib = \<lparr>bl_EncodeBlobData = Inr, bl_BlobToCommitment = Inr, bl_ComputeBlobProof = \<lambda>b c. Inr [], bl_VersionedHash = \<lambda>c. of_nat (length c)\<rparr>"

definition demo_blob_submitter :: BlobTxSubmitter where
  "demo_blob_submitter = \<lparr>sb_sender = 1, sb_maxGasPrice = 100, sb_stuckCfg = \<lparr>Threshold = 1, MaxBumps = 1, AutoReplace = True\<rparr>\<rparr>"

text \<open>A node whose pending nonce is \<open>n\<close> and which refuses every ordinary transaction as reserved.\<close>

definition refusing_env :: "u64 \<Rightarrow> blob_env" where
  "refusing_env n = \<lparr>bn_tip = Inr 10, bn_now = 0, bn_enterErr = errorf ''ctx'', bn_ctx1 = None, bn_fetch = Inr n, bn_signTx = \<lambda>t. Inr 1,
     bn_ctx2 = None, bn_send = \<lambda>t. Some (errorf alreadyReservedSubstr), bn_waitMined = \<lambda>t. Inr None, bn_clock = 0, bn_ctx3 = None,
     bn_tip2 = Inr 10, bn_ctx4 = None, bn_send2 = \<lambda>t. None\<rparr>"

definition demo_blob_st :: blob_st where
  "demo_blob_st = \<lparr>bs_tx = demo_state, bs_sent = []\<rparr>"

lemma reserved_err [simp]: "IsAlreadyReservedError (Some (errorf alreadyReservedSubstr))" "ShouldResetNonceOnSendError (Some (errorf alreadyReservedSubstr))"
  by (simp_all add: IsAlreadyReservedError_def ShouldResetNonceOnSendError_def errorf_def strings_Contains_def IsNonceDesyncError_def)

text \<open>Between submissions of one goroutine: no slot, no lease, a tracker with non-negative counts.\<close>

definition rested :: "blob_st \<Rightarrow> bool" where
  "rested st \<longleftrightarrow> ts_nonce (bs_tx st) = NewNonceManager \<and> inflightBlob (ts_coord (bs_tx st)) = [] \<and> inflightLegacy (ts_coord (bs_tx st)) = [] \<and>
     list_all (\<lambda>(k, e). 0 \<le> hits e) (entries (ts_stuck (bs_tx st)))"

lemma hits_Record:
  assumes "list_all (\<lambda>(k, e). 0 \<le> hits e) (entries t)"
  shows "1 \<le> fst (Record a b n t)" "list_all (\<lambda>(k, e). 0 \<le> hits e) (entries (snd (Record a b n t)))"
proof -
  have "list_all (\<lambda>(k, e). 0 \<le> hits e) (entries (reapStaleLocked a t))" using assms by (auto simp: reapStaleLocked_def list_all_iff Let_def)
  then have "0 \<le> hits e" if "map_of (entries (reapStaleLocked a t)) n = Some e" for e
    using map_of_SomeD [OF that] by (auto simp: list_all_iff)
  then show "1 \<le> fst (Record a b n t)" "list_all (\<lambda>(k, e). 0 \<le> hits e) (entries (snd (Record a b n t)))"
    using \<open>list_all (\<lambda>(k, e). 0 \<le> hits e) (entries (reapStaleLocked a t))\<close>
    by (auto simp: Record_def Let_def list_all_iff dest!: set_AList_update [THEN subsetD] split: option.splits)
qed

definition demo_rep :: "u64 \<Rightarrow> BlobTx" where
  "demo_rep n = blob_tx_of demo_blob_submitter \<lparr>bp_blob = [0], bp_commitment = [0], bp_proof = [], bp_versionedHash = 1\<rparr> n 20 200 2000000000"

lemma refused_replacement:
  assumes "1 \<le> hs" "bumps st n = 0"
  shows "maybeSubmitReplacementBlobTx demo_blob_lib (refusing_env n) demo_blob_submitter n hs st =
    put_sent (demo_rep n) (on_tx (\<lambda>t. t\<lparr>ts_stuck := IncrementBumpAttemptsFor n (ts_stuck t)\<rparr>) st)"
  using assms
  by (simp add: maybeSubmitReplacementBlobTx_def submitReplacementBlobTx_def encodeBlobTxPayload_def signBlobTx_def demo_blob_lib_def
      demo_blob_submitter_def refusing_env_def replacementBlobPayload_def maxAllowedBumpNumber_def defaultBlobFeeCapWei_def demo_rep_def Let_def)

lemma refused_handle:
  assumes "rested st \<or> list_all (\<lambda>(k, e). 0 \<le> hits e) (entries (ts_stuck (bs_tx st)))" "bumps st n = 0"
  shows "\<exists>tr. list_all (\<lambda>(k, e). 0 \<le> hits e) (entries tr) \<and> (\<forall>m. m \<noteq> n \<longrightarrow> BumpAttemptsUsedFor m tr = 0) \<and>
    handleSendError demo_blob_lib (refusing_env n) demo_blob_submitter (errorf alreadyReservedSubstr) n st =
      put_sent (demo_rep n) (on_tx (\<lambda>t. t\<lparr>ts_stuck := tr\<rparr>) (on_tx reset_nonce st))"
proof -
  obtain hs tr where rc: "Record 0 0 n (ts_stuck (bs_tx st)) = (hs, tr)" by (meson surj_pair)
  have tr: "1 \<le> hs" "list_all (\<lambda>(k, e). 0 \<le> hits e) (entries tr)" "BumpAttemptsUsedFor n tr = 0"
    using hits_Record [of "ts_stuck (bs_tx st)" 0 0 n] bump_Record [of n 0 0 n "ts_stuck (bs_tx st)"] assms by (auto simp: rc rested_def)
  have cl: "bn_clock (refusing_env n) = 0" "ts_stuck (reset_nonce t) = ts_stuck t" for t by (simp_all add: refusing_env_def reset_nonce_def)
  have "handleSendError demo_blob_lib (refusing_env n) demo_blob_submitter (errorf alreadyReservedSubstr) n st =
      put_sent (demo_rep n) (on_tx (\<lambda>t. t\<lparr>ts_stuck := IncrementBumpAttemptsFor n tr\<rparr>) (on_tx reset_nonce st))"
    using tr(1,3) by (simp add: handleSendError_def cl rc Let_def refused_replacement on_tx_def)
  then show ?thesis using tr(2)
    by (intro exI [of _ "IncrementBumpAttemptsFor n tr"]) (auto simp: IncrementBumpAttemptsFor_def BumpAttemptsUsedFor_def Let_def)
qed

lemma refused_call:
  assumes "rested st" "bumps st n = 0" "SubmitBlobTx demo_blob_lib (refusing_env n) demo_blob_submitter [1] st = (r, st')"
  shows "\<exists>tx. bs_sent st' = demo_rep n # tx # bs_sent st \<and> \<not> is_replacement tx \<and> rested st' \<and> (\<forall>m. m \<noteq> n \<longrightarrow> bumps st' m = 0)"
proof -
  define p where "p = \<lparr>bp_blob = [1], bp_commitment = [1], bp_proof = [], bp_versionedHash = (1 :: hash)\<rparr>"
  define tx where "tx = blob_tx_of demo_blob_submitter p n 10 100 1000000000"
  define nm where "nm = \<lparr>pendingNonce = n + 1, initialized = True, outstanding = 1, resetPending = False\<rparr>"
  have enc: "encodeBlobTxPayload demo_blob_lib [1] l = Inr p" for l by (simp add: encodeBlobTxPayload_def demo_blob_lib_def p_def)
  have nx: "NextNonce (bn_fetch (refusing_env n)) (ts_nonce (bs_tx st)) = (Inr n, nm)"
    using assms(1) by (simp add: rested_def NewNonceManager_def NextNonce_def refusing_env_def nm_def)
  obtain tok c1 where en: "Enter_try ClassBlob 0 (ts_coord (bs_tx st)) = Inr (tok, c1)" "inflightBlob (snd (Done (Some tok) c1)) = []" "inflightLegacy (snd (Done (Some tok) c1)) = []"
    using assms(1) by (auto simp: rested_def Enter_try_def add_entry_def Done_def release_def Let_def)
  have env: "bn_tip (refusing_env n) = Inr 10" "bn_now (refusing_env n) = 0" "bn_ctx1 (refusing_env n) = None" "bn_ctx2 (refusing_env n) = None"
    "bn_send (refusing_env n) t = Some (errorf alreadyReservedSubstr)" "signBlobTx (refusing_env n) demo_blob_submitter p n 10 (sb_maxGasPrice demo_blob_submitter) defaultBlobFeeCapWei = Inr (tx, 1)" for t
    by (simp_all add: refusing_env_def signBlobTx_def tx_def demo_blob_submitter_def defaultBlobFeeCapWei_def)
  let ?s2 = "put_sent tx (on_tx (\<lambda>t. t\<lparr>ts_coord := c1, ts_nonce := nm\<rparr>) st)"
  obtain tr where tr: "list_all (\<lambda>(k, e). 0 \<le> hits e) (entries tr)" "\<forall>m. m \<noteq> n \<longrightarrow> BumpAttemptsUsedFor m tr = 0"
      "handleSendError demo_blob_lib (refusing_env n) demo_blob_submitter (errorf alreadyReservedSubstr) n ?s2 =
        put_sent (demo_rep n) (on_tx (\<lambda>t. t\<lparr>ts_stuck := tr\<rparr>) (on_tx reset_nonce ?s2))"
    using refused_handle [of ?s2 n] assms(1,2) by (auto simp: rested_def)
  have st': "st' = on_tx (\<lambda>t. t\<lparr>ts_coord := snd (Done (Some tok) (ts_coord t))\<rparr>) (on_tx (release_nonce n True)
      (put_sent (demo_rep n) (on_tx (\<lambda>t. t\<lparr>ts_stuck := tr\<rparr>) (on_tx reset_nonce ?s2))))"
    using assms(3) tr(3) by (simp add: SubmitBlobTx_def enc env en nx submit_leased_def submitAndWait_def Let_def on_tx_def put_sent_def)
  have "ReleaseNonce n True (ResetNonce nm) = NewNonceManager"
    by (simp add: nm_def ReleaseNonce_def ResetNonce_def applyPendingResetLocked_def NewNonceManager_def Let_def)
  moreover have "\<not> is_replacement tx" by (simp add: tx_def is_replacement_def blob_tx_of_def defaultBlobFeeCapWei_def)
  ultimately show ?thesis using tr(1,2) en(2,3) by (intro exI [of _ tx]) (simp add: st' rested_def release_nonce_def reset_nonce_def)
qed

lemma demo_blob_rested: "rested demo_blob_st \<and> bumps demo_blob_st n = 0 \<and> bs_sent demo_blob_st = []"
  by (simp add: rested_def demo_blob_st_def demo_state_def NewSubpoolCoordinator_def NewStuckNonceTracker_def BumpAttemptsUsedFor_def)

section \<open>Properties\<close>

text \<open>
  C10. A blob submission gives back what it takes, and a success is a blob on chain. Whatever the node, the
  signer and the context answer, panics included, the slots of both classes and the nonce leases of the
  other goroutines are after the call what they were before it; and the call returns a hash only if the
  one transaction it sent, which carries the given data and the hash returned, was accepted and mined successfully.
\<close>

theorem blob_submit_restores:
  assumes "coord_wf (ts_coord (bs_tx st))" "ids_fresh (ts_coord (bs_tx st))" "nextID (ts_coord (bs_tx st)) \<noteq> - 1"
    and "nonce_inv (ts_nonce (bs_tx st)) H S" "blob_room env (ts_nonce (bs_tx st))"
    and "SubmitBlobTx bl env s data st = (res, st')"
  shows "slot_ids (ts_coord (bs_tx st')) = slot_ids (ts_coord (bs_tx st)) \<and> coord_wf (ts_coord (bs_tx st')) \<and>
    (\<exists>S'. nonce_inv (ts_nonce (bs_tx st')) H S') \<and>
    (\<forall>hs. res = Ret (Inr hs) \<longrightarrow> (\<exists>tx. ordinary_tx bl env s data tx \<and> bs_sent st' = tx # bs_sent st \<and> hs = bx_BlobHashes tx \<and> bn_send env tx = None))"
proof -
  have "\<exists>tx. ordinary_tx bl env s data tx \<and> bs_sent st' = tx # bs_sent st \<and> hs = bx_BlobHashes tx \<and> bn_send env tx = None"
    if "res = Ret (Inr hs)" for hs
    using SubmitBlobTx_sends [OF assms(6)] that by (auto simp: blob_post_def)
  then show ?thesis
    using SubmitBlobTx_slots [of st bl env s data] SubmitBlobTx_leases [OF assms(4,5), of bl s data] assms by auto
qed

theorem blob_submit_restores_witness:
  "slot_ids (ts_coord (bs_tx (snd (SubmitBlobTx demo_blob_lib (refusing_env 5) demo_blob_submitter [1] demo_blob_st)))) = slot_ids (ts_coord demo_state)"
  using blob_submit_restores [of demo_blob_st "[]" "[]" "refusing_env 5" demo_blob_lib demo_blob_submitter "[1]", OF _ _ _ _ _ prod.collapse [symmetric]] demo_state_ok
  by (simp add: demo_blob_st_def blob_room_def refusing_env_def demo_state_def NewNonceManager_def)

text \<open>
  Replacement fees climb a bounded ladder. In any run of submissions that all use one nonce and none of
  which succeeds, the replacements sent carry blob fee caps of 2, 4, 8, ... times the baseline in this
  order, at most MaxBumps and never more than eight of them.
\<close>

theorem replacement_ladder:
  assumes "run_blobs bl s cs st = (rs, st')" "bs_sent st = []" "bumps st n = 0"
    and "list_all (\<lambda>r. \<forall>hs. r \<noteq> Ret (Inr hs)) rs" "list_all (\<lambda>tx. bx_Nonce tx = n) (bs_sent st')"
  shows "\<exists>m. bump_caps (bs_sent st') = map (\<lambda>k. 1000000000 * 2 ^ k) [1..<Suc m] \<and> m \<le> 8 \<and> int m \<le> max 0 (MaxBumps (sb_stuckCfg s))"
proof -
  have "ladder s n st 0" using assms(2,3) by (simp add: ladder_def bump_caps_def)
  then obtain m where "ladder s n st' m" using run_blobs_ladder [OF assms(1) _ assms(4,5)] by blast
  then show ?thesis by (intro exI [of _ m]) (auto simp: ladder_def within_budget_def defaultBlobFeeCapWei_def)
qed



theorem replacement_ladder_witness:
  "\<exists>m. bump_caps (bs_sent (snd (run_blobs demo_blob_lib demo_blob_submitter [(refusing_env 5, [1])] demo_blob_st))) =
     map (\<lambda>k. 1000000000 * 2 ^ k) [1..<Suc m] \<and> m \<le> 8 \<and> int m \<le> 1"
proof -
  obtain r st' where run: "SubmitBlobTx demo_blob_lib (refusing_env 5) demo_blob_submitter [1] demo_blob_st = (r, st')" by (meson surj_pair)
  obtain tx where sent: "bs_sent st' = [demo_rep 5, tx]" using refused_call [OF _ _ run] demo_blob_rested by auto
  have post: "blob_post demo_blob_lib (refusing_env 5) demo_blob_submitter [1] demo_blob_st r st'" by (rule SubmitBlobTx_sends [OF run])
  then have "\<forall>hs. r \<noteq> Ret (Inr hs)" "bx_Nonce tx = bx_Nonce (demo_rep 5)"
    using sent demo_blob_rested by (auto simp: blob_post_def same_sent_def replaces_def bumped_tx_def blob_tx_of_def)
  then show ?thesis
    using replacement_ladder [of demo_blob_lib demo_blob_submitter "[(refusing_env 5, [1])]" demo_blob_st "[r]" st' 5] sent run demo_blob_rested
    by (auto simp: demo_rep_def blob_tx_of_def demo_blob_submitter_def)
qed

definition renewals :: "blob_st \<Rightarrow> nat" where
  "renewals st = length (filter (\<lambda>tx. is_replacement tx \<and> bx_Nonce tx = 5) (bs_sent st))"

lemma alternating_run:
  "rested st \<Longrightarrow> bumps st 5 = 0 \<Longrightarrow>
   renewals (snd (run_blobs demo_blob_lib demo_blob_submitter (concat (replicate N [(refusing_env 5, [1]), (refusing_env 6, [1])])) st)) = renewals st + N"
proof (induction N arbitrary: st)
  case (Suc N)
  obtain r1 st1 where s1: "SubmitBlobTx demo_blob_lib (refusing_env 5) demo_blob_submitter [1] st = (r1, st1)" by (meson surj_pair)
  obtain r2 st2 where s2: "SubmitBlobTx demo_blob_lib (refusing_env 6) demo_blob_submitter [1] st1 = (r2, st2)" by (meson surj_pair)
  have one: "renewals st1 = Suc (renewals st) \<and> rested st1 \<and> bumps st1 6 = 0" using refused_call [OF Suc.prems s1] by (auto simp: renewals_def demo_rep_def is_replacement_def blob_tx_of_def defaultBlobFeeCapWei_def)
  then have "renewals st2 = renewals st1 \<and> rested st2 \<and> bumps st2 5 = 0" using refused_call [OF _ _ s2] by (auto simp: renewals_def demo_rep_def blob_tx_of_def)
  then show ?case using Suc.IH [of st2] one s1 s2 by (simp add: case_prod_beta)
qed simp

text \<open>
  The budget does not bound a nonce whose turn alternates with another's. With MaxBumps 1, any number of
  refused submissions that alternate between two stuck nonces sends a replacement at the first
  nonce every time: the tracker remembers the budget of the nonce bumped last only.
\<close>

theorem alternating_nonces_renew_budget:
  "MaxBumps (sb_stuckCfg demo_blob_submitter) = 1 \<and>
   renewals (snd (run_blobs demo_blob_lib demo_blob_submitter (concat (replicate N [(refusing_env 5, [1]), (refusing_env 6, [1])])) demo_blob_st)) = N"
proof -
  have "rested demo_blob_st \<and> bumps demo_blob_st 5 = 0 \<and> renewals demo_blob_st = 0" using demo_blob_rested by (simp add: renewals_def)
  then show ?thesis using alternating_run [of demo_blob_st N] by (simp add: demo_blob_submitter_def)
qed

end
