(* ===== verification/Ollama_Client.thy ===== *)
theory Ollama_Client
  imports Inference_Stages
begin

text \<open>
  The inference client (internal/ollama/client.go): request options, batch and streamed generation, model
  verification and the reasoning allowance.

  The server is the record \<open>ollama_http\<close>: for a request, the reply (status, body read whole, body read line by
  line with the scanner's final error) or the fault that kept it from arriving. JSON decoding of a reply
  is the record \<open>ollama_json\<close>. A callback is a program over a state of its own and may fail. Temperatures
  and format values are kept as text.
\<close>

section \<open>Requests\<close>

definition deterministicSeed :: int where
  "deterministicSeed = 42"

record Options =
  o_NumPredict :: int
  o_NumCtx :: int
  o_Temperature :: string
  o_Seed :: int

datatype keep_alive = KeepNil | KeepNumber int | KeepString string

datatype think_value = ThinkNil | ThinkBool bool | ThinkString string

record GenerateRequest =
  gr_Model :: string
  gr_Prompt :: string
  gr_Stream :: bool
  gr_KeepAlive :: keep_alive
  gr_Options :: Options
  gr_Think :: think_value
  gr_Format :: "string option"
  gr_Images :: "string list"

record ChatRequest =
  cr_Model :: string
  cr_Messages :: "Message list"
  cr_Stream :: bool
  cr_KeepAlive :: keep_alive
  cr_Options :: Options
  cr_Think :: think_value
  cr_Format :: "string option"

record timings =
  t_TotalDuration :: int
  t_LoadDuration :: int
  t_PromptEvalCount :: int
  t_PromptEvalDuration :: int
  t_EvalCount :: int
  t_EvalDuration :: int

definition no_timings :: timings where
  "no_timings = \<lparr>t_TotalDuration = 0, t_LoadDuration = 0, t_PromptEvalCount = 0, t_PromptEvalDuration = 0, t_EvalCount = 0, t_EvalDuration = 0\<rparr>"

text \<open>One decoded line of a stream: \<open>response\<close> of /api/generate, \<open>message.content\<close> of /api/chat.\<close>

record stream_line =
  sl_Text :: string
  sl_Thinking :: string
  sl_Done :: bool
  sl_Error :: string
  sl_timings :: timings

datatype http_fault = MarshalFault go_error | CreateFault go_error | DoFault go_error

record http_reply =
  hr_Status :: int
  hr_Body :: "go_error + string"
  hr_Lines :: "string list"
  hr_ScanErr :: "go_error option"

record ollama_http =
  oh_generate :: "GenerateRequest \<Rightarrow> http_fault + http_reply"
  oh_chat :: "ChatRequest \<Rightarrow> http_fault + http_reply"
  oh_tags :: "http_fault + http_reply"
  oh_show :: "string \<Rightarrow> http_fault + http_reply"

record ollama_json =
  oj_generate :: "string \<Rightarrow> go_error + string"
  oj_chat :: "string \<Rightarrow> go_error + string \<times> string"
  oj_generateLine :: "string \<Rightarrow> go_error + stream_line"
  oj_chatLine :: "string \<Rightarrow> go_error + stream_line"
  oj_tags :: "string \<Rightarrow> go_error + string list"
  oj_show :: "string \<Rightarrow> go_error + string list"

record OllamaClient =
  oc_opts :: ClientOptions

definition ParseInt :: "string \<Rightarrow> int option" where
  "ParseInt s =
     (let neg = (case s of c # cs \<Rightarrow> c = CHR ''-'' | [] \<Rightarrow> False);
          body = (case s of c # cs \<Rightarrow> if c = CHR ''-'' \<or> c = CHR ''+'' then cs else s | [] \<Rightarrow> [])
      in if body = [] then None
         else case parse_digits 0 body of
           None \<Rightarrow> None
         | Some n \<Rightarrow> if neg then (if int n \<le> 2 ^ 63 then Some (- int n) else None)
                     else (if int n < 2 ^ 63 then Some (int n) else None))"

definition requestOptions :: "OllamaClient \<Rightarrow> Options" where
  "requestOptions c = \<lparr>o_NumPredict = opt_NumPredict (oc_opts c), o_NumCtx = opt_NumCtx (oc_opts c),
     o_Temperature = (case opt_Temperature (oc_opts c) of None \<Rightarrow> ''0'' | Some t \<Rightarrow> t), o_Seed = deterministicSeed\<rparr>"

definition thinkField :: "ClientOptions \<Rightarrow> think_value" where
  "thinkField o' =
     (if opt_ThinkLevel o' \<noteq> [] then ThinkString (opt_ThinkLevel o')
      else case opt_Think o' of Some b \<Rightarrow> ThinkBool b | None \<Rightarrow> ThinkNil)"

definition keepAlive :: "OllamaClient \<Rightarrow> keep_alive" where
  "keepAlive c =
     (if opt_KeepAlive (oc_opts c) = [] then KeepNil
      else case ParseInt (opt_KeepAlive (oc_opts c)) of Some n \<Rightarrow> KeepNumber n | None \<Rightarrow> KeepString (opt_KeepAlive (oc_opts c)))"

definition WithOverrides :: "OllamaClient \<Rightarrow> (ClientOptions \<Rightarrow> ClientOptions) \<Rightarrow> OllamaClient" where
  "WithOverrides c mutate = c\<lparr>oc_opts := mutate (oc_opts c)\<rparr>"

definition generate_request :: "OllamaClient \<Rightarrow> string \<Rightarrow> string \<Rightarrow> bool \<Rightarrow> string list \<Rightarrow> GenerateRequest" where
  "generate_request c model prompt stream images =
     \<lparr>gr_Model = model, gr_Prompt = prompt, gr_Stream = stream, gr_KeepAlive = keepAlive c, gr_Options = requestOptions c,
      gr_Think = thinkField (oc_opts c), gr_Format = opt_Format (oc_opts c), gr_Images = images\<rparr>"

definition chat_request :: "OllamaClient \<Rightarrow> string \<Rightarrow> Message list \<Rightarrow> bool \<Rightarrow> ChatRequest" where
  "chat_request c model messages stream =
     \<lparr>cr_Model = model, cr_Messages = messages, cr_Stream = stream, cr_KeepAlive = keepAlive c, cr_Options = requestOptions c,
      cr_Think = thinkField (oc_opts c), cr_Format = opt_Format (oc_opts c)\<rparr>"

fun fault_err :: "string \<Rightarrow> http_fault \<Rightarrow> go_error" where
  "fault_err name (MarshalFault e) = wrapf (''marshal '' @ name @ '' request'') e"
| "fault_err name (CreateFault e) = wrapf (''create '' @ name @ '' request'') e"
| "fault_err name (DoFault e) = wrapf (''ollama '' @ name @ '' request'') e"

section \<open>Batch calls\<close>

definition errEmptyGeneration :: "nat \<Rightarrow> nat \<Rightarrow> go_error option" where
  "errEmptyGeneration contentBytes thinkingBytes =
     (if 0 < contentBytes then None
      else if 0 < thinkingBytes
      then Some (sentinel_err ''ollama returned an empty response: the whole generation arrived as thinking'' ErrEmptyGeneration)
      else Some (sentinel_err ''ollama returned an empty response'' ErrEmptyGeneration))"

text \<open>The body of a reply with status 200, read whole.\<close>

definition read_reply :: "string \<Rightarrow> http_fault + http_reply \<Rightarrow> go_error + string" where
  "read_reply name r =
     (case r of
        Inl f \<Rightarrow> Inl (fault_err name f)
      | Inr reply \<Rightarrow>
          (case hr_Body reply of
             Inl e \<Rightarrow> Inl (wrapf (''read '' @ name @ '' response'') e)
           | Inr body \<Rightarrow> if hr_Status reply \<noteq> 200 then Inl (errorf (''ollama '' @ name @ '' returned status'')) else Inr body))"

definition Generate :: "ollama_http \<Rightarrow> ollama_json \<Rightarrow> OllamaClient \<Rightarrow> string \<Rightarrow> string \<Rightarrow> go_error + string" where
  "Generate http json c model prompt =
     (case read_reply ''generate'' (oh_generate http (generate_request c model prompt False [])) of
        Inl e \<Rightarrow> Inl e
      | Inr body \<Rightarrow>
          (case oj_generate json body of
             Inl e \<Rightarrow> Inl (wrapf ''unmarshal generate response'' e)
           | Inr response \<Rightarrow> (case errEmptyGeneration (length response) 0 of Some e \<Rightarrow> Inl e | None \<Rightarrow> Inr response)))"

definition Chat :: "ollama_http \<Rightarrow> ollama_json \<Rightarrow> OllamaClient \<Rightarrow> string \<Rightarrow> Message list \<Rightarrow> go_error + string" where
  "Chat http json c model messages =
     (case read_reply ''chat'' (oh_chat http (chat_request c model messages False)) of
        Inl e \<Rightarrow> Inl e
      | Inr body \<Rightarrow>
          (case oj_chat json body of
             Inl e \<Rightarrow> Inl (wrapf ''unmarshal chat response'' e)
           | Inr (content, thinking) \<Rightarrow>
               (case errEmptyGeneration (length content) (length thinking) of Some e \<Rightarrow> Inl e | None \<Rightarrow> Inr content)))"

section \<open>Streaming\<close>

record 's StreamHandlers =
  sh_OnToken :: "(string \<Rightarrow> ('s, go_error option) prog) option"
  sh_OnThinking :: "(string \<Rightarrow> ('s, go_error option) prog) option"

type_synonym stream_acc = "string \<times> nat \<times> timings"

definition callback :: "(string \<Rightarrow> ('s, go_error option) prog) option \<Rightarrow> string \<Rightarrow> string \<Rightarrow> ('s, go_error option) prog" where
  "callback f what delta =
     (if delta = [] then ret None
      else case f of None \<Rightarrow> ret None | Some g \<Rightarrow> do { r \<leftarrow> g delta; ret (map_option (wrapf what) r) })"

definition on_line :: "string \<Rightarrow> (string \<Rightarrow> go_error + stream_line) \<Rightarrow> 's StreamHandlers \<Rightarrow> string \<Rightarrow> stream_acc \<Rightarrow> ('s, go_error + bool \<times> stream_acc) prog" where
  "on_line name decode h line acc =
     (case decode line of
        Inl e \<Rightarrow> ret (Inl (wrapf (''unmarshal '' @ name @ '' stream line'') e))
      | Inr chunk \<Rightarrow>
          if sl_Error chunk \<noteq> [] then ret (Inl (errorf (''ollama '' @ name @ '' stream error: '' @ sl_Error chunk)))
          else check (callback (sh_OnThinking h) (name @ '' thinking callback'') (sl_Thinking chunk))
                 (check (callback (sh_OnToken h) (name @ '' token callback'') (sl_Text chunk))
                   (case acc of (full, thinking, lst) \<Rightarrow>
                      ret (Inr (sl_Done chunk, full @ sl_Text chunk, thinking + length (sl_Thinking chunk),
                                if sl_Done chunk then sl_timings chunk else lst)))))"

fun scan_lines :: "string \<Rightarrow> (string \<Rightarrow> 'a \<Rightarrow> ('s, go_error + bool \<times> 'a) prog) \<Rightarrow> go_error option \<Rightarrow> string list \<Rightarrow> 'a \<Rightarrow> ('s, go_error + 'a) prog" where
  "scan_lines name onLine scanErr [] acc =
     ret (Inl (case scanErr of
                 Some e \<Rightarrow> wrapf (''read '' @ name @ '' stream'') e
               | None \<Rightarrow> errorf (''ollama '' @ name @ '' stream ended before done'')))"
| "scan_lines name onLine scanErr (l # ls) acc =
     (let line = TrimSpace l in
      if line = [] then scan_lines name onLine scanErr ls acc
      else attempt (onLine line acc) (\<lambda>(done, acc'). if done then ret (Inr acc') else scan_lines name onLine scanErr ls acc'))"

definition ollama_stream :: "string \<Rightarrow> http_fault + http_reply \<Rightarrow> (string \<Rightarrow> 'a \<Rightarrow> ('s, go_error + bool \<times> 'a) prog) \<Rightarrow> 'a \<Rightarrow> ('s, go_error + 'a) prog" where
  "ollama_stream name r onLine acc =
     (case r of
        Inl f \<Rightarrow> ret (Inl (fault_err name f))
      | Inr reply \<Rightarrow>
          if hr_Status reply \<noteq> 200 then ret (Inl (errorf (''ollama '' @ name @ '' returned status'')))
          else scan_lines name onLine (hr_ScanErr reply) (hr_Lines reply) acc)"

definition timings_stats :: "timings \<Rightarrow> nat \<Rightarrow> StreamStats" where
  "timings_stats t thinkingBytes = \<lparr>ss_PromptTokens = t_PromptEvalCount t, ss_EvalTokens = t_EvalCount t, ss_ThinkingBytes = int thinkingBytes,
     ss_LoadDuration = t_LoadDuration t, ss_PromptEvalDuration = t_PromptEvalDuration t, ss_EvalDuration = t_EvalDuration t,
     ss_TotalDuration = t_TotalDuration t\<rparr>"

text \<open>What both streaming calls do with the accumulated stream.\<close>

definition finish_stream :: "go_error + stream_acc \<Rightarrow> StreamStats \<times> (go_error + string)" where
  "finish_stream r =
     (case r of
        Inl e \<Rightarrow> (no_stats, Inl e)
      | Inr (full, thinking, lst) \<Rightarrow>
          (timings_stats lst thinking, case errEmptyGeneration (length full) thinking of Some e \<Rightarrow> Inl e | None \<Rightarrow> Inr full))"

definition GenerateStream :: "ollama_http \<Rightarrow> ollama_json \<Rightarrow> OllamaClient \<Rightarrow> string \<Rightarrow> string \<Rightarrow> string list \<Rightarrow> 's StreamHandlers \<Rightarrow>
    ('s, StreamStats \<times> (go_error + string)) prog" where
  "GenerateStream http json c model prompt images h = do {
     r \<leftarrow> ollama_stream ''generate'' (oh_generate http (generate_request c model prompt True images))
            (on_line ''generate'' (oj_generateLine json) h) ([], 0, no_timings);
     ret (finish_stream r)
   }"

definition ChatStream :: "ollama_http \<Rightarrow> ollama_json \<Rightarrow> OllamaClient \<Rightarrow> string \<Rightarrow> Message list \<Rightarrow> 's StreamHandlers \<Rightarrow>
    ('s, StreamStats \<times> (go_error + string)) prog" where
  "ChatStream http json c model messages h = do {
     r \<leftarrow> ollama_stream ''chat'' (oh_chat http (chat_request c model messages True))
            (on_line ''chat'' (oj_chatLine json) h) ([], 0, no_timings);
     ret (finish_stream r)
   }"

section \<open>Models\<close>

text \<open>strings.CutSuffix, when the suffix is there.\<close>

definition CutSuffix :: "string \<Rightarrow> string \<Rightarrow> string option" where
  "CutSuffix s suf = (if suffix suf s then Some (take (length s - length suf) s) else None)"

definition model_loaded :: "string list \<Rightarrow> string \<Rightarrow> bool" where
  "model_loaded names m \<longleftrightarrow> list_ex (\<lambda>n. n = m \<or> CutSuffix n '':latest'' = Some m) names"

definition VerifyModels :: "ollama_http \<Rightarrow> ollama_json \<Rightarrow> string list \<Rightarrow> go_error option" where
  "VerifyModels http json models =
     (case read_reply ''tags'' (oh_tags http) of
        Inl e \<Rightarrow> Some e
      | Inr body \<Rightarrow>
          (case oj_tags json body of
             Inl e \<Rightarrow> Some (wrapf ''unmarshal tags response'' e)
           | Inr names \<Rightarrow>
               (let missing = filter (\<lambda>m. \<not> model_loaded names m) models
                in if missing \<noteq> [] then Some (errorf ''missing models on Ollama server'') else None)))"

definition capabilities :: "ollama_http \<Rightarrow> ollama_json \<Rightarrow> string \<Rightarrow> go_error + string list" where
  "capabilities http json model =
     (case oh_show http model of
        Inl f \<Rightarrow> Inl (case f of MarshalFault e \<Rightarrow> e | _ \<Rightarrow> fault_err ''show'' f)
      | Inr reply \<Rightarrow>
          if hr_Status reply \<noteq> 200 then Inl (errorf ''ollama show returned status'')
          else case hr_Body reply of
            Inl e \<Rightarrow> Inl (wrapf ''decode show response'' e)
          | Inr body \<Rightarrow> (case oj_show json body of Inl e \<Rightarrow> Inl (wrapf ''decode show response'' e) | Inr caps \<Rightarrow> Inr caps))"

fun ThinkingModels :: "ollama_http \<Rightarrow> ollama_json \<Rightarrow> string list \<Rightarrow> string list \<times> go_error list" where
  "ThinkingModels http json [] = ([], [])"
| "ThinkingModels http json (m # ms) =
     (case ThinkingModels http json ms of
        (thinking, errs) \<Rightarrow>
          (case capabilities http json m of
             Inl e \<Rightarrow> (thinking, wrapf m e # errs)
           | Inr caps \<Rightarrow> (if ''thinking'' \<in> set caps then m # thinking else thinking, errs)))"

definition allowance_step :: "int \<Rightarrow> string \<Rightarrow> (string \<times> ClientOptions) list \<Rightarrow> (string \<times> ClientOptions) list" where
  "allowance_step numPredict m out =
     (let o' = (case map_of out m of None \<Rightarrow> no_options | Some o' \<Rightarrow> o')
      in AList.update m (if opt_NumPredict o' = 0 then o'\<lparr>opt_NumPredict := numPredict\<rparr> else o') out)"

definition WithReasoningAllowance :: "(string \<times> ClientOptions) list \<Rightarrow> string list \<Rightarrow> int \<Rightarrow> int \<Rightarrow> (string \<times> ClientOptions) list" where
  "WithReasoningAllowance opts thinking base numPredict =
     (if thinking = [] \<or> base \<le> 0 \<or> numPredict \<le> base then opts
      else foldl (\<lambda>out m. allowance_step numPredict m out) opts thinking)"

section \<open>What a stream delivers\<close>

text \<open>The deltas of one decoded line and of a whole body, thinking or answer, up to the line that ends it.\<close>

definition chunk_deltas :: "stream_line \<Rightarrow> (bool \<times> string) list" where
  "chunk_deltas ch = filter (\<lambda>(_, d). d \<noteq> []) [(True, sl_Thinking ch), (False, sl_Text ch)]"

fun scan_deltas :: "(string \<Rightarrow> go_error + stream_line) \<Rightarrow> string list \<Rightarrow> (bool \<times> string) list" where
  "scan_deltas decode [] = []"
| "scan_deltas decode (l # ls) =
     (if TrimSpace l = [] then scan_deltas decode ls
      else case decode (TrimSpace l) of
        Inl e \<Rightarrow> []
      | Inr ch \<Rightarrow> if sl_Error ch \<noteq> [] then []
                  else chunk_deltas ch @ (if sl_Done ch then [] else scan_deltas decode ls))"

definition reply_deltas :: "(string \<Rightarrow> go_error + stream_line) \<Rightarrow> http_fault + http_reply \<Rightarrow> (bool \<times> string) list" where
  "reply_deltas decode r =
     (case r of Inl f \<Rightarrow> [] | Inr reply \<Rightarrow> if hr_Status reply \<noteq> 200 then [] else scan_deltas decode (hr_Lines reply))"

definition answer_text :: "(bool \<times> string) list \<Rightarrow> string" where
  "answer_text ds = concat (map snd (filter (\<lambda>(thinking, _). \<not> thinking) ds))"

text \<open>A body is complete when a line before any faulty one says done.\<close>

fun ends_done :: "(string \<Rightarrow> go_error + stream_line) \<Rightarrow> string list \<Rightarrow> bool" where
  "ends_done decode [] \<longleftrightarrow> False"
| "ends_done decode (l # ls) \<longleftrightarrow>
     (if TrimSpace l = [] then ends_done decode ls
      else case decode (TrimSpace l) of
        Inl e \<Rightarrow> False
      | Inr ch \<Rightarrow> sl_Error ch = [] \<and> (sl_Done ch \<or> ends_done decode ls))"

definition complete_reply :: "(string \<Rightarrow> go_error + stream_line) \<Rightarrow> http_fault + http_reply \<Rightarrow> bool" where
  "complete_reply decode r \<longleftrightarrow> (case r of Inl f \<Rightarrow> False | Inr reply \<Rightarrow> hr_Status reply = 200 \<and> ends_done decode (hr_Lines reply))"

text \<open>Handing deltas to the callbacks one by one, for callbacks that never fail.\<close>

definition deliver_one :: "'s StreamHandlers \<Rightarrow> bool \<times> string \<Rightarrow> 's \<Rightarrow> 's" where
  "deliver_one h td s =
     (case (if fst td then sh_OnThinking h else sh_OnToken h) of None \<Rightarrow> s | Some g \<Rightarrow> snd (run_state (g (snd td)) s))"

definition deliver_deltas :: "'s StreamHandlers \<Rightarrow> (bool \<times> string) list \<Rightarrow> 's \<Rightarrow> 's" where
  "deliver_deltas h ds s = foldl (\<lambda>s td. deliver_one h td s) s ds"

definition accepting :: "'s StreamHandlers \<Rightarrow> bool" where
  "accepting h \<longleftrightarrow> (\<forall>g d s. sh_OnToken h = Some g \<or> sh_OnThinking h = Some g \<longrightarrow> fst (run_state (g d) s) = None)"

definition no_handlers :: "unit StreamHandlers" where
  "no_handlers = \<lparr>sh_OnToken = None, sh_OnThinking = None\<rparr>"

definition recorder :: "(bool \<times> string) list StreamHandlers" where
  "recorder = \<lparr>sh_OnToken = Some (\<lambda>d. State (\<lambda>l. (None, l @ [(False, d)]))), sh_OnThinking = Some (\<lambda>d. State (\<lambda>l. (None, l @ [(True, d)])))\<rparr>"

lemma deliver_deltas_Nil [simp]: "deliver_deltas h [] s = s"
  by (simp add: deliver_deltas_def)

lemma deliver_deltas_Cons [simp]: "deliver_deltas h (d # ds) s = deliver_deltas h ds (deliver_one h d s)"
  by (simp add: deliver_deltas_def)

lemma deliver_deltas_append [simp]: "deliver_deltas h (ds @ es) s = deliver_deltas h es (deliver_deltas h ds s)"
  by (simp add: deliver_deltas_def)

lemma answer_text_Nil [simp]: "answer_text [] = []"
  by (simp add: answer_text_def)

lemma answer_text_append [simp]: "answer_text (ds @ es) = answer_text ds @ answer_text es"
  by (simp add: answer_text_def)

lemma answer_text_chunk [simp]: "answer_text (chunk_deltas ch) = sl_Text ch"
  by (simp add: answer_text_def chunk_deltas_def)

lemma accepting_no_handlers [simp]: "accepting no_handlers"
  by (simp add: accepting_def no_handlers_def)

lemma accepting_recorder [simp]: "accepting recorder"
  by (auto simp: accepting_def recorder_def)

lemma deliver_recorder [simp]: "deliver_deltas recorder ds l = l @ ds"
  by (induction ds arbitrary: l) (auto simp: deliver_one_def recorder_def)

lemma run_callback:
  assumes "accepting h"
  shows "run_state (callback (sh_OnThinking h) w d) s = (None, deliver_deltas h (filter (\<lambda>(_, d). d \<noteq> []) [(True, d)]) s)"
    and "run_state (callback (sh_OnToken h) w d) s = (None, deliver_deltas h (filter (\<lambda>(_, d). d \<noteq> []) [(False, d)]) s)"
proof -
  have g: "fst (run_state (g d) s) = None" if "sh_OnToken h = Some g \<or> sh_OnThinking h = Some g" for g
    using assms that unfolding accepting_def by blast
  show "run_state (callback (sh_OnThinking h) w d) s = (None, deliver_deltas h (filter (\<lambda>(_, d). d \<noteq> []) [(True, d)]) s)"
    using g by (cases "sh_OnThinking h") (auto simp: callback_def deliver_one_def split_beta)
  show "run_state (callback (sh_OnToken h) w d) s = (None, deliver_deltas h (filter (\<lambda>(_, d). d \<noteq> []) [(False, d)]) s)"
    using g by (cases "sh_OnToken h") (auto simp: callback_def deliver_one_def split_beta)
qed

text \<open>With callbacks that never fail, a stream's result does not depend on them, and they see the deltas of the body in order.\<close>

lemma run_on_line:
  assumes "accepting h"
  shows "run_state (on_line name decode h line acc) s =
    (fst (run_state (on_line name decode no_handlers line acc) ()),
     deliver_deltas h (case decode line of Inl e \<Rightarrow> [] | Inr ch \<Rightarrow> if sl_Error ch \<noteq> [] then [] else chunk_deltas ch) s)"
  using run_callback [OF assms] run_callback [OF accepting_no_handlers]
  by (cases acc) (simp add: on_line_def check_def chunk_deltas_def split: sum.splits)

lemma run_silent_line:
  "run_state (on_line name decode no_handlers line (full, n, t)) u =
    (case decode line of
       Inl e \<Rightarrow> Inl (wrapf (''unmarshal '' @ name @ '' stream line'') e)
     | Inr ch \<Rightarrow> if sl_Error ch \<noteq> [] then Inl (errorf (''ollama '' @ name @ '' stream error: '' @ sl_Error ch))
                 else Inr (sl_Done ch, full @ sl_Text ch, n + length (sl_Thinking ch), if sl_Done ch then sl_timings ch else t), u)"
  using run_callback [OF accepting_no_handlers] by (simp add: on_line_def check_def split: sum.splits)

lemma run_scan_lines:
  assumes "accepting h"
  shows "run_state (scan_lines name (on_line name decode h) scanErr ls acc) s =
    (fst (run_state (scan_lines name (on_line name decode no_handlers) scanErr ls acc) ()), deliver_deltas h (scan_deltas decode ls) s)"
proof (induction ls arbitrary: acc s)
  case (Cons l ls)
  then show ?case
    by (cases acc) (simp add: attempt_def Let_def run_on_line [OF assms] run_silent_line split: sum.splits)
qed simp

lemma run_ollama_stream:
  assumes "accepting h"
  shows "run_state (ollama_stream name r (on_line name decode h) acc) s =
    (fst (run_state (ollama_stream name r (on_line name decode no_handlers) acc) ()), deliver_deltas h (reply_deltas decode r) s)"
  by (simp add: ollama_stream_def reply_deltas_def run_scan_lines [OF assms] split: sum.splits)

text \<open>What an accumulated stream holds.\<close>

lemma scan_lines_result:
  assumes "fst (run_state (scan_lines name (on_line name decode no_handlers) scanErr ls (full, n, t)) ()) = Inr (full', n', t')"
  shows "ends_done decode ls \<and> full' = full @ answer_text (scan_deltas decode ls)"
  using assms
proof (induction ls arbitrary: full n t)
  case (Cons l ls)
  from Cons.prems show ?case
    by (simp add: attempt_def Let_def run_silent_line split: sum.splits if_splits) (auto dest!: Cons.IH)
qed simp

lemma ollama_stream_result:
  assumes "fst (run_state (ollama_stream name r (on_line name decode no_handlers) ([], 0, no_timings)) ()) = Inr (full, n, t)"
  shows "complete_reply decode r" "full = answer_text (reply_deltas decode r)"
  using assms scan_lines_result [where full = "[]"]
  by (auto simp: ollama_stream_def complete_reply_def reply_deltas_def split: sum.splits if_splits)

lemma finish_stream_Inr:
  assumes "finish_stream r = (stats, Inr text)"
  shows "\<exists>n t. r = Inr (text, n, t) \<and> text \<noteq> []"
  using assms by (auto simp: finish_stream_def errEmptyGeneration_def split: sum.splits prod.splits if_splits option.splits)

lemma run_ChatStream:
  assumes "accepting h"
  shows "run_state (ChatStream http json c m ms h) s =
    (fst (run_state (ChatStream http json c m ms no_handlers) ()), deliver_deltas h (reply_deltas (oj_chatLine json) (oh_chat http (chat_request c m ms True))) s)"
  by (simp add: ChatStream_def run_ollama_stream [OF assms] split: prod.splits)

lemma run_GenerateStream:
  assumes "accepting h"
  shows "run_state (GenerateStream http json c m p imgs h) s =
    (fst (run_state (GenerateStream http json c m p imgs no_handlers) ()),
     deliver_deltas h (reply_deltas (oj_generateLine json) (oh_generate http (generate_request c m p True imgs))) s)"
  by (simp add: GenerateStream_def run_ollama_stream [OF assms] split: prod.splits)

lemmas run_recorded = run_ChatStream [OF accepting_recorder] run_GenerateStream [OF accepting_recorder]

lemma ChatStream_Inr:
  assumes "fst (run_state (ChatStream http json c m ms no_handlers) ()) = (stats, Inr text)"
  shows "complete_reply (oj_chatLine json) (oh_chat http (chat_request c m ms True)) \<and> text \<noteq> [] \<and>
    text = answer_text (reply_deltas (oj_chatLine json) (oh_chat http (chat_request c m ms True)))"
proof -
  have "finish_stream (fst (run_state (ollama_stream ''chat'' (oh_chat http (chat_request c m ms True)) (on_line ''chat'' (oj_chatLine json) no_handlers) ([], 0, no_timings)) ())) = (stats, Inr text)"
    using assms by (simp add: ChatStream_def split_beta)
  then obtain n t where nt: "fst (run_state (ollama_stream ''chat'' (oh_chat http (chat_request c m ms True)) (on_line ''chat'' (oj_chatLine json) no_handlers) ([], 0, no_timings)) ()) = Inr (text, n, t)" "text \<noteq> []"
    by (blast dest: finish_stream_Inr)
  show ?thesis using ollama_stream_result [OF nt(1)] nt(2) by simp
qed

lemma GenerateStream_Inr:
  assumes "fst (run_state (GenerateStream http json c m p imgs no_handlers) ()) = (stats, Inr text)"
  shows "complete_reply (oj_generateLine json) (oh_generate http (generate_request c m p True imgs)) \<and> text \<noteq> [] \<and>
    text = answer_text (reply_deltas (oj_generateLine json) (oh_generate http (generate_request c m p True imgs)))"
proof -
  have "finish_stream (fst (run_state (ollama_stream ''generate'' (oh_generate http (generate_request c m p True imgs)) (on_line ''generate'' (oj_generateLine json) no_handlers) ([], 0, no_timings)) ())) = (stats, Inr text)"
    using assms by (simp add: GenerateStream_def split_beta)
  then obtain n t where nt: "fst (run_state (ollama_stream ''generate'' (oh_generate http (generate_request c m p True imgs)) (on_line ''generate'' (oj_generateLine json) no_handlers) ([], 0, no_timings)) ()) = Inr (text, n, t)" "text \<noteq> []"
    by (blast dest: finish_stream_Inr)
  show ?thesis using ollama_stream_result [OF nt(1)] nt(2) by simp
qed

section \<open>The reasoning allowance\<close>

definition num_predict_for :: "(string \<times> ClientOptions) list \<Rightarrow> string \<Rightarrow> int" where
  "num_predict_for opts m = (case map_of opts m of Some o' \<Rightarrow> opt_NumPredict o' | None \<Rightarrow> 0)"

lemma num_predict_step:
  "num_predict_for (allowance_step n m' opts) m = (if m = m' \<and> num_predict_for opts m = 0 then n else num_predict_for opts m)"
  by (auto simp: num_predict_for_def allowance_step_def Let_def update_conv' no_options_def split: option.splits)

lemma num_predict_fold:
  "n \<noteq> 0 \<Longrightarrow> num_predict_for (foldl (\<lambda>out m. allowance_step n m out) opts ms) m =
     (if m \<in> set ms \<and> num_predict_for opts m = 0 then n else num_predict_for opts m)"
  by (induction ms arbitrary: opts) (auto simp: num_predict_step)

lemma inferenceClientFor_num_predict:
  "jh_overridingClient h \<Longrightarrow> opt_NumPredict (fst (inferenceClientFor h m)) =
     (let n = num_predict_for (hc_ModelOptions (jh_cfg h)) m in if n \<noteq> 0 then n else opt_NumPredict (jh_clientOptions h))"
  by (auto simp: inferenceClientFor_def apply_override_def num_predict_for_def split: option.splits)

text \<open>
  The generation cap of a job: an explicit per-model cap always wins; without one, a model the server
  reports as thinking gets the reasoning allowance when that is larger than a positive base cap, and
  every other model the base cap.
\<close>

theorem reasoning_allowance_cap:
  assumes "jh_overridingClient h" "opt_NumPredict (jh_clientOptions h) = base"
    and "hc_ModelOptions (jh_cfg h) = WithReasoningAllowance opts thinking base allowance"
  shows "opt_NumPredict (fst (inferenceClientFor h m)) =
    (if num_predict_for opts m \<noteq> 0 then num_predict_for opts m
     else if m \<in> set thinking \<and> 0 < base \<and> base < allowance then allowance else base)"
  using assms(2,3) num_predict_fold [of allowance opts thinking m] unfolding inferenceClientFor_num_predict [OF assms(1)]
  by (cases "thinking = [] \<or> base \<le> 0 \<or> allowance \<le> base") (auto simp: WithReasoningAllowance_def Let_def)

section \<open>Properties\<close>

definition demo_line :: "string \<Rightarrow> go_error + stream_line" where
  "demo_line l = Inr \<lparr>sl_Text = l, sl_Thinking = (if l = ''He'' then ''hm'' else []), sl_Done = (l = ''llo''), sl_Error = [], sl_timings = no_timings\<rparr>"

definition demo_http :: ollama_http where
  "demo_http = \<lparr>oh_generate = \<lambda>r. Inr \<lparr>hr_Status = 200, hr_Body = Inr [], hr_Lines = [''He'', [], ''llo'', ''x''], hr_ScanErr = None\<rparr>,
     oh_chat = \<lambda>r. Inr \<lparr>hr_Status = 200, hr_Body = Inr [], hr_Lines = [''He'', [], ''llo'', ''x''], hr_ScanErr = None\<rparr>,
     oh_tags = Inl (DoFault (errorf ''down'')), oh_show = \<lambda>m. Inl (DoFault (errorf ''down''))\<rparr>"

definition demo_json :: ollama_json where
  "demo_json = \<lparr>oj_generate = \<lambda>b. Inr b, oj_chat = \<lambda>b. Inr (b, []), oj_generateLine = demo_line, oj_chatLine = demo_line,
     oj_tags = \<lambda>b. Inr [], oj_show = \<lambda>b. Inr []\<rparr>"

definition counting :: "nat StreamHandlers" where
  "counting = \<lparr>sh_OnToken = Some (\<lambda>d. State (\<lambda>n. (None, n + length d))), sh_OnThinking = None\<rparr>"

lemma demo_trim: "TrimSpace ''He'' = ''He''" "TrimSpace [] = []" "TrimSpace ''llo'' = ''llo''"
  by code_simp+

lemma demo_scan:
  "run_state (scan_lines name (on_line name demo_line no_handlers) None [''He'', [], ''llo'', ''x''] ([], 0, no_timings)) () =
     (Inr (''Hello'', 2, no_timings), ())"
  by (simp add: attempt_def run_silent_line Let_def demo_line_def demo_trim)

lemma demo_deltas: "scan_deltas demo_line [''He'', [], ''llo'', ''x''] = [(True, ''hm''), (False, ''He''), (False, ''llo'')]"
  by (simp add: demo_line_def chunk_deltas_def demo_trim)

lemma demo_chat:
  "run_state (ChatStream demo_http demo_json c m ms recorder) [] =
     ((timings_stats no_timings 2, Inr ''Hello''), [(True, ''hm''), (False, ''He''), (False, ''llo'')])"
  unfolding run_recorded
  by (simp add: reply_deltas_def demo_http_def demo_json_def demo_deltas ChatStream_def ollama_stream_def demo_scan
      finish_stream_def errEmptyGeneration_def deliver_one_def recorder_def del: scan_lines.simps scan_deltas.simps)

text \<open>
  A streaming call and its callbacks do not influence each other: with callbacks that never fail, the
  statistics and the result of ChatStream and GenerateStream are those of the same call with recording
  callbacks, and the callbacks end in the state they reach when handed the recorded deltas one after the
  other.
\<close>

theorem stream_equals_recorded_deltas:
  assumes "accepting h"
  shows "run_state (ChatStream http json c m ms h) s =
           (case run_state (ChatStream http json c m ms recorder) [] of (res, ds) \<Rightarrow> (res, deliver_deltas h ds s)) \<and>
         run_state (GenerateStream http json c m p imgs h) s =
           (case run_state (GenerateStream http json c m p imgs recorder) [] of (res, ds) \<Rightarrow> (res, deliver_deltas h ds s))"
  by (simp add: run_ChatStream [OF assms] run_GenerateStream [OF assms] run_recorded)

theorem stream_equals_recorded_deltas_witness:
  "run_state (ChatStream demo_http demo_json \<lparr>oc_opts = no_options\<rparr> ''m'' [] counting) 0 =
     ((timings_stats no_timings 2, Inr ''Hello''), 5)"
proof -
  have "accepting counting" by (auto simp: accepting_def counting_def)
  moreover have "run_state (ChatStream demo_http demo_json \<lparr>oc_opts = no_options\<rparr> ''m'' [] recorder) [] =
      ((timings_stats no_timings 2, Inr ''Hello''), [(True, ''hm''), (False, ''He''), (False, ''llo'')])"
    by (rule demo_chat)
  moreover have "deliver_deltas counting [(True, ''hm''), (False, ''He''), (False, ''llo'')] 0 = 5"
    by (simp add: deliver_one_def counting_def)
  ultimately show ?thesis
    using stream_equals_recorded_deltas [of counting demo_http demo_json "\<lparr>oc_opts = no_options\<rparr>" "''m''" "[]" 0] by simp
qed

end
