(* ===== verification/Streamed_Answer.thy ===== *)
theory Streamed_Answer
  imports Ollama_Client Job_Runs
begin

text \<open>
  The inference client (Ollama_Client), runInference (Inference_Stages) and the chunk streamer
  (Chunk_Stream) composed: what the consumer of a streamed job sees against what the job settles.
\<close>

section \<open>The client behind the pipeline\<close>

text \<open>
  A pipeline whose model calls are this client: a streaming call answers with the recorded deltas, the
  statistics and the result.
\<close>

definition ollama_backed :: "'c job_env \<Rightarrow> ollama_http \<Rightarrow> ollama_json \<Rightarrow> bool" where
  "ollama_backed je http json \<longleftrightarrow>
     (\<forall>o' m ms c. je_ChatStream je o' m ms c =
        (case run_state (ChatStream http json \<lparr>oc_opts = o'\<rparr> m ms recorder) [] of ((stats, r), ds) \<Rightarrow> ((ds, stats, r), c))) \<and>
     (\<forall>o' m p imgs c. je_GenerateStream je o' m p imgs c =
        (case run_state (GenerateStream http json \<lparr>oc_opts = o'\<rparr> m p imgs recorder) [] of ((stats, r), ds) \<Rightarrow> ((ds, stats, r), c)))"

definition frame_text :: "FrameKind \<Rightarrow> chunkStreamer \<Rightarrow> string" where
  "frame_text k s = concat (map (\<lambda>(n, k', b). if k' = k then b else []) (rev (cs_sent s)))"

lemma filter_tagged: "map snd (filter (\<lambda>kc. fst kc = k) (tagged k2 b)) = (if k2 = k then b else [])"
  by (simp add: tagged_def filter_map o_def)

lemma frame_text_chars: "frame_text k s = map snd (filter (\<lambda>kc. fst kc = k) (sent_chars s))"
proof -
  have "concat (map (\<lambda>(n, k', b). if k' = k then b else []) fs) =
      map snd (filter (\<lambda>kc. fst kc = k) (concat (map (\<lambda>(n, k, b). tagged k b) fs)))" for fs :: "(u32 \<times> FrameKind \<times> string) list"
  proof (induction fs)
    case (Cons f fs)
    obtain n k' b where "f = (n, k', b)" by (metis surj_pair)
    then show ?case using Cons by (simp only: list.map concat.simps prod.case filter_append map_append filter_tagged)
  qed simp
  then show ?thesis by (simp add: frame_text_def sent_chars_def)
qed

lemma delta_chars_Cons: "delta_chars ((k, d) # ds) = tagged k d @ delta_chars ds"
  by (simp add: delta_chars_def)

lemma text_of_deltas:
  assumes "frame_laws fk"
  shows "map snd (filter (\<lambda>kc. fst kc = fk_Text fk) (delta_chars (delta_kinds fk reasoning ds))) = answer_text ds"
proof (induction ds)
  case Nil
  then show ?case by (simp add: delta_chars_def delta_kinds_def)
next
  case (Cons td ds)
  have k: "fk_Reasoning fk \<noteq> fk_Text fk" 
  proof -
    have "distinct (fk_Stats fk # stream_kinds fk)" using assms unfolding frame_laws_def by (rule conjunct1)
    then show ?thesis by (simp add: stream_kinds_def)
  qed
  have step: "delta_kinds fk reasoning (td # ds) =
      (if reasoning \<or> \<not> fst td then [(if fst td then fk_Reasoning fk else fk_Text fk, snd td)] else []) @ delta_kinds fk reasoning ds"
    by (cases td) (simp add: delta_kinds_def)
  have a: "answer_text (td # ds) = (if fst td then [] else snd td) @ answer_text ds" by (cases td) (simp add: answer_text_def)
  show ?case unfolding step a using Cons k by (cases "reasoning \<or> \<not> fst td") (auto simp: delta_chars_Cons filter_tagged)
qed

lemma stream_all_feed: "stream_all fk se ds s = do { s1 \<leftarrow> feed_deltas fk se ds s; FlushAll fk se s1 }"
  by (induction ds arbitrary: s) (auto intro!: arg_cong2 [where f = State_Monad.bind] ext)

lemma wp_feed_flush:
  assumes "enc_ok se" "frame_laws fk"
  shows "wp (do { s1 \<leftarrow> feed_deltas fk se (delta_kinds fk reasoning ds) (new_streamer a b); FlushAll fk se s1 })
    (\<lambda>s' _. frame_text (fk_Text fk) s' = answer_text ds) st"
proof -
  have kinds: "fst ` set (delta_kinds fk reasoning ds) \<subseteq> set (stream_kinds fk)" by (auto simp: delta_kinds_def stream_kinds_def)
  let ?s = "new_streamer a b"
  have ok: "stream_ok fk ?s" "sent_chars ?s = []" "buffered ?s = []"
    by (simp_all add: stream_ok_def new_streamer_def numbered_def sent_chars_def buffered_def)
  show ?thesis unfolding stream_all_feed [symmetric]
    by (rule wp_stream_all [OF assms ok(1) kinds]) (simp add: ok fun_eq_iff frame_text_chars text_of_deltas [OF assms(2)])
qed

definition encrypts :: "'c job_env \<Rightarrow> byte list \<Rightarrow> bool" where
  "encrypts je key \<longleftrightarrow> (\<forall>b c. \<not> isl (fst (je_Encrypt je key b c)))"

lemma enc_ok_h_stream: "encrypts je key \<Longrightarrow> enc_ok (h_stream je key)"
  by (simp add: encrypts_def enc_ok_def h_stream_def hask_def split_beta)

text \<open>Feeding a streaming call's deltas and flushing, as runInference does.\<close>

lemma wp_streamed_call:
  assumes "encrypts je key" "frame_laws (pl_frames lib)"
  shows "wp (do {
      s1 \<leftarrow> feed_deltas (pl_frames lib) (h_stream je key) (delta_kinds (pl_frames lib) reasoning ds) (new_streamer a b);
      (case r of
         Inl e \<Rightarrow> ret (Some s1, stats, Inl e)
       | Inr response \<Rightarrow> do { s2 \<leftarrow> FlushAll (pl_frames lib) (h_stream je key) s1; ret (Some s2, stats, Inr response) })
    }) (\<lambda>(s, _, r') _. r' = r \<and> (\<forall>s2. s = Some s2 \<and> \<not> isl r \<longrightarrow> frame_text (fk_Text (pl_frames lib)) s2 = answer_text ds)) st"
proof (cases r)
  case (Inl e)
  then show ?thesis by (simp add: wp_def split_beta)
next
  case (Inr response)
  have "wp (feed_deltas (pl_frames lib) (h_stream je key) (delta_kinds (pl_frames lib) reasoning ds) (new_streamer a b))
      (\<lambda>s1. wp (FlushAll (pl_frames lib) (h_stream je key) s1) (\<lambda>s2 _. frame_text (fk_Text (pl_frames lib)) s2 = answer_text ds)) st"
    using wp_feed_flush [OF enc_ok_h_stream [OF assms(1)] assms(2)] by (simp add: wp_bind)
  then show ?thesis using Inr by (simp add: wp_simps)
qed

lemma wp_hask_eq: "wp (hask f ev) Q s = (case f (hs_env s) of (x, c) \<Rightarrow> Q x (s\<lparr>hs_env := c, hs_trace := ev x @ hs_trace s\<rparr>))"
  by (simp add: wp_def hask_def split: prod.splits)

lemma wp_hnote_eq: "wp (hnote e) Q s = Q () (s\<lparr>hs_trace := e # hs_trace s\<rparr>)"
  by (simp add: wp_def hnote_def)

section \<open>Property\<close>

definition ollama_env :: "int job_env" where
  "ollama_env = demo_env\<lparr>
     je_ChatStream := (\<lambda>o' m ms c. case run_state (ChatStream demo_http demo_json \<lparr>oc_opts = o'\<rparr> m ms recorder) [] of ((stats, r), ds) \<Rightarrow> ((ds, stats, r), c)),
     je_GenerateStream := (\<lambda>o' m p imgs c. case run_state (GenerateStream demo_http demo_json \<lparr>oc_opts = o'\<rparr> m p imgs recorder) [] of
        ((stats, r), ds) \<Rightarrow> ((ds, stats, r), c))\<rparr>"

definition chat_lib :: pkg_lib where
  "chat_lib = demo_lib\<lparr>pl_Conversation := \<lambda>e hist. Some []\<rparr>"

abbreviation demo_prompt :: promptEnvelope where
  "demo_prompt \<equiv> \<lparr>pe_Text = ''q'', pe_Images = [], pe_Audio = [], pe_AudioFormat = [], pe_AudioResponse = False, pe_Voice = [], pe_Messages = []\<rparr>"

abbreviation streamed_run :: "(chunkStreamer option \<times> StreamStats \<times> (go_error + string)) \<times> (int, redis_map) hst" where
  "streamed_run \<equiv> run_state (runInference ollama_env chat_lib (demo_handler small_ckpt) [9] no_options ''m'' demo_prompt [] (Some (new_streamer 0 0))) demo_start"

text \<open>
  C9. The answer a streamed job settles is the text its consumer saw: when the model is served by this
  client, every frame encrypts (a frame that does not is dropped) and inference returns a response, the text frames published to the gateway, read in order,
  concatenate to exactly that response, the response is not empty, and the server's body ended with a
  done line (a truncated stream is never an answer).
\<close>

theorem streamed_frames_are_the_answer:
  assumes "ollama_backed je http json" "encrypts je key" "frame_laws (pl_frames lib)" "\<not> is_speech h m"
    and "run_state (runInference je lib h key opts m prompt history (Some (new_streamer a b))) st = ((Some s', stats, Inr response), st')"
  shows "frame_text (fk_Text (pl_frames lib)) s' = response \<and> response \<noteq> [] \<and>
    (case pl_Conversation lib prompt history of
       Some ms \<Rightarrow> complete_reply (oj_chatLine json) (oh_chat http (chat_request \<lparr>oc_opts = opts\<rparr> m ms True))
     | None \<Rightarrow> complete_reply (oj_generateLine json) (oh_generate http (generate_request \<lparr>oc_opts = opts\<rparr> m (pe_Text prompt) True (pe_Images prompt))))"
    (is "_ \<and> _ \<and> ?C")
proof -
  let ?fk = "pl_frames lib"
  have chat: "je_ChatStream je opts m ms c = ((reply_deltas (oj_chatLine json) (oh_chat http (chat_request \<lparr>oc_opts = opts\<rparr> m ms True)),
      fst (run_state (ChatStream http json \<lparr>oc_opts = opts\<rparr> m ms no_handlers) ())), c)" for ms c
    using assms(1) by (simp add: ollama_backed_def run_recorded split: prod.splits)
  have gen: "je_GenerateStream je opts m q imgs c = ((reply_deltas (oj_generateLine json) (oh_generate http (generate_request \<lparr>oc_opts = opts\<rparr> m q True imgs)),
      fst (run_state (GenerateStream http json \<lparr>oc_opts = opts\<rparr> m q imgs no_handlers) ())), c)" for q imgs c
    using assms(1) by (simp add: ollama_backed_def run_recorded split: prod.splits)
  have feed: "wp (do {
      s1 \<leftarrow> feed_deltas ?fk (h_stream je key) (delta_kinds ?fk (hc_StreamReasoning (jh_cfg h)) ds) (new_streamer a b);
      (case r of
         Inl e \<Rightarrow> ret (Some s1, stats, Inl e)
       | Inr response \<Rightarrow> do { s2 \<leftarrow> FlushAll ?fk (h_stream je key) s1; ret (Some s2, stats, Inr response) })
    }) (\<lambda>(s, _, r') _. \<forall>s2 t. s = Some s2 \<and> r' = Inr t \<longrightarrow> frame_text (fk_Text ?fk) s2 = t \<and> t \<noteq> [] \<and> ?C) st2"
    if "\<And>t. r = Inr t \<Longrightarrow> ?C \<and> t \<noteq> [] \<and> t = answer_text ds" for ds r stats st2
    by (rule wp_mono [OF wp_streamed_call [OF assms(2,3)]]) (use that in auto)
  have "wp (runInference je lib h key opts m prompt history (Some (new_streamer a b)))
      (\<lambda>(s, _, r') _. \<forall>s2 t. s = Some s2 \<and> r' = Inr t \<longrightarrow> frame_text (fk_Text ?fk) s2 = t \<and> t \<noteq> [] \<and> ?C) st"
  proof (cases "pl_Conversation lib prompt history")
    case None
    obtain stats0 r0 where r0: "fst (run_state (GenerateStream http json \<lparr>oc_opts = opts\<rparr> m (pe_Text prompt) (pe_Images prompt) no_handlers) ()) = (stats0, r0)"
      by (meson surj_pair)
    have imp: "?C \<and> t \<noteq> [] \<and> t = answer_text (reply_deltas (oj_generateLine json) (oh_generate http (generate_request \<lparr>oc_opts = opts\<rparr> m (pe_Text prompt) True (pe_Images prompt))))"
      if "r0 = Inr t" for t using GenerateStream_Inr [OF r0 [unfolded that]] None by auto
    show ?thesis using assms(4) None r0 feed [OF imp] by (simp add: runInference_def wp_bind wp_hask_eq wp_hnote_eq gen)
  next
    case (Some ms)
    obtain stats0 r0 where r0: "fst (run_state (ChatStream http json \<lparr>oc_opts = opts\<rparr> m ms no_handlers) ()) = (stats0, r0)"
      by (meson surj_pair)
    have imp: "?C \<and> t \<noteq> [] \<and> t = answer_text (reply_deltas (oj_chatLine json) (oh_chat http (chat_request \<lparr>oc_opts = opts\<rparr> m ms True)))"
      if "r0 = Inr t" for t using ChatStream_Inr [OF r0 [unfolded that]] Some by auto
    show ?thesis using assms(4) Some r0 feed [OF imp] by (simp add: runInference_def wp_bind wp_hask_eq wp_hnote_eq chat)
  qed
  then show ?thesis using assms(5) by (auto dest: wp_run)
qed

lemma streamed_run_ok: "\<exists>s' stats st'. streamed_run = ((Some s', stats, Inr ''Hello''), st')"
  by (simp add: runInference_def is_speech_def demo_handler_def demo_config_def chat_lib_def ollama_env_def demo_chat hask_def hnote_def
      split: prod.splits)

theorem streamed_frames_are_the_answer_witness:
  "\<exists>s' stats st'. streamed_run = ((Some s', stats, Inr ''Hello''), st') \<and> frame_text ''text'' s' = ''Hello''"
proof -
  obtain s' stats st' where r: "streamed_run = ((Some s', stats, Inr ''Hello''), st')" using streamed_run_ok by blast
  have "ollama_backed ollama_env demo_http demo_json" "encrypts ollama_env [9]"
    by (simp_all add: ollama_backed_def ollama_env_def encrypts_def demo_env_def)
  moreover have "frame_laws (pl_frames chat_lib)"
    by (simp add: chat_lib_def demo_lib_def frame_laws_def demo_frames_def stream_kinds_def)
  moreover have "\<not> is_speech (demo_handler small_ckpt) ''m''" by (simp add: is_speech_def demo_handler_def demo_config_def)
  ultimately have "frame_text (fk_Text (pl_frames chat_lib)) s' = ''Hello''"
    using streamed_frames_are_the_answer [OF _ _ _ _ r] by blast
  then show ?thesis using r by (simp add: chat_lib_def demo_lib_def demo_frames_def)
qed

end
