(* ===== verification/Key_Store.thy ===== *)
theory Key_Store
  imports Pipeline_Types Cursor_Store "HOL-Library.AList"
begin

text \<open>
  The worker's keys at rest (internal/keystore/keystore.go, session_store.go): the ECDH key file and the
  store of session keys.

  A file holds a JSON document or bytes that do not parse; the documents of the two files are one record
  whose absent fields are empty. \<open>key_lib\<close> holds scrypt, AES-GCM decryption, the P-256 key parser and the
  JSON form of the key map; \<open>key_env\<close> is what one call meets: fresh randomness, the key pair generated,
  encryption under its random nonce and at most one I/O fault. The mutex makes an operation atomic. Keys
  are copied in and out, so zeroing them has no effect on callers.
\<close>

section \<open>Files\<close>

record key_doc =
  kd_version :: int
  kd_salt :: string
  kd_encryptedKey :: string
  kd_data :: string

type_synonym key_fs = "string \<Rightarrow> key_doc option option"

datatype key_fault = KfNone | KfStat | KfRead | KfMkdir | KfCreateTemp | KfWrite | KfChmod | KfClose | KfRename

record 'k key_lib =
  kl_scrypt :: "string \<Rightarrow> byte list \<Rightarrow> go_error + byte list"
  kl_Decrypt :: "byte list \<Rightarrow> byte list \<Rightarrow> go_error + byte list"
  kl_NewPrivateKey :: "byte list \<Rightarrow> go_error + 'k"
  kl_Bytes :: "'k \<Rightarrow> byte list"
  kl_marshalMap :: "(string \<times> string) list \<Rightarrow> byte list"
  kl_unmarshalMap :: "byte list \<Rightarrow> go_error + (string \<times> string) list"

record 'k key_env =
  ke_GenerateKeyPair :: "go_error + 'k"
  ke_salt :: "go_error + byte list"
  ke_Encrypt :: "byte list \<Rightarrow> byte list \<Rightarrow> go_error + byte list"
  ke_tmp :: string
  ke_fault :: key_fault

definition tmp_name :: "'k key_env \<Rightarrow> string \<Rightarrow> string" where
  "tmp_name env path = path @ ''-'' @ ke_tmp env @ ''.tmp''"

text \<open>A file in the course of being written does not parse.\<close>

definition writeAtomic :: "'k key_env \<Rightarrow> string \<Rightarrow> key_doc \<Rightarrow> key_fs \<Rightarrow> go_error option \<times> key_fs" where
  "writeAtomic env path data fs =
     (let tmpPath = tmp_name env path; created = fs(tmpPath \<mapsto> None); written = fs(tmpPath \<mapsto> Some data) in
      case ke_fault env of
        KfMkdir \<Rightarrow> (Some (errorf ''create keystore directory''), fs)
      | KfCreateTemp \<Rightarrow> (Some (errorf ''create temp keystore file''), fs)
      | KfWrite \<Rightarrow> (Some (errorf ''write temp keystore''), created(tmpPath := None))
      | KfChmod \<Rightarrow> (Some (errorf ''chmod temp keystore''), written(tmpPath := None))
      | KfClose \<Rightarrow> (Some (errorf ''close temp keystore''), written(tmpPath := None))
      | KfRename \<Rightarrow> (Some (errorf ''rename keystore''), written(tmpPath := None))
      | _ \<Rightarrow> (None, written(path \<mapsto> Some data, tmpPath := None)))"

text \<open>os.Stat reports a missing file; any other error of it leads to the load path.\<close>

definition missing :: "'k key_env \<Rightarrow> string \<Rightarrow> key_fs \<Rightarrow> bool" where
  "missing env path fs \<longleftrightarrow> ke_fault env \<noteq> KfStat \<and> fs path = None"

definition ReadFile :: "'k key_env \<Rightarrow> string \<Rightarrow> key_fs \<Rightarrow> go_error + key_doc option" where
  "ReadFile env path fs =
     (if ke_fault env = KfRead then Inl (errorf ''read'')
      else case fs path of None \<Rightarrow> Inl (sentinel_err ''file does not exist'' ErrNotExist) | Some d \<Rightarrow> Inr d)"

section \<open>The ECDH key\<close>

definition deriveKey :: "'k key_lib \<Rightarrow> string \<Rightarrow> byte list \<Rightarrow> go_error + byte list" where
  "deriveKey lib passphrase salt =
     (case kl_scrypt lib passphrase salt of Inl e \<Rightarrow> Inl (wrapf ''derive file key'' e) | Inr k \<Rightarrow> Inr k)"

definition generate_key :: "'k key_lib \<Rightarrow> 'k key_env \<Rightarrow> string \<Rightarrow> string \<Rightarrow> key_fs \<Rightarrow> (go_error + 'k) \<times> key_fs" where
  "generate_key lib env path passphrase fs =
     (case ke_GenerateKeyPair env of
        Inl e \<Rightarrow> (Inl (wrapf ''generate ECDH key pair'' e), fs)
      | Inr privKey \<Rightarrow>
          (case ke_salt env of
             Inl e \<Rightarrow> (Inl (wrapf ''generate salt'' e), fs)
           | Inr salt \<Rightarrow>
               (case deriveKey lib passphrase salt of
                  Inl e \<Rightarrow> (Inl e, fs)
                | Inr fileKey \<Rightarrow>
                    (case ke_Encrypt env fileKey (kl_Bytes lib privKey) of
                       Inl e \<Rightarrow> (Inl (wrapf ''encrypt ECDH private key'' e), fs)
                     | Inr ciphertext \<Rightarrow>
                         (case writeAtomic env path \<lparr>kd_version = 1, kd_salt = base64_Encode salt,
                                  kd_encryptedKey = base64_Encode ciphertext, kd_data = []\<rparr> fs of
                            (Some e, fs') \<Rightarrow> (Inl (wrapf ''write keystore'' e), fs')
                          | (None, fs') \<Rightarrow> (Inr privKey, fs'))))))"

definition Load :: "'k key_lib \<Rightarrow> 'k key_env \<Rightarrow> string \<Rightarrow> string \<Rightarrow> key_fs \<Rightarrow> go_error + 'k" where
  "Load lib env path passphrase fs =
     (case ReadFile env path fs of
        Inl e \<Rightarrow> Inl (wrapf ''read keystore'' e)
      | Inr None \<Rightarrow> Inl (errorf ''parse keystore'')
      | Inr (Some kf) \<Rightarrow>
          if kd_version kf \<noteq> 1 then Inl (errorf ''unsupported keystore version'')
          else case base64_Decode (kd_salt kf) of
            None \<Rightarrow> Inl (errorf ''decode salt'')
          | Some salt \<Rightarrow>
              (case base64_Decode (kd_encryptedKey kf) of
                 None \<Rightarrow> Inl (errorf ''decode encrypted key'')
               | Some ciphertext \<Rightarrow>
                   (case deriveKey lib passphrase salt of
                      Inl e \<Rightarrow> Inl e
                    | Inr fileKey \<Rightarrow>
                        (case kl_Decrypt lib fileKey ciphertext of
                           Inl e \<Rightarrow> Inl (wrapf ''decrypt ECDH private key (wrong passphrase?)'' e)
                         | Inr privBytes \<Rightarrow>
                             (case kl_NewPrivateKey lib privBytes of
                                Inl e \<Rightarrow> Inl (wrapf ''load ECDH private key from bytes'' e)
                              | Inr k \<Rightarrow> Inr k)))))"

definition LoadOrGenerate :: "'k key_lib \<Rightarrow> 'k key_env \<Rightarrow> string \<Rightarrow> string \<Rightarrow> key_fs \<Rightarrow> (go_error + 'k) \<times> key_fs" where
  "LoadOrGenerate lib env path passphrase fs =
     (if missing env path fs then generate_key lib env path passphrase fs else (Load lib env path passphrase fs, fs))"

section \<open>The session keys\<close>

record SessionKeyStore =
  sk_keys :: "(u64 \<times> byte list) list"
  sk_filePath :: string
  sk_fileKey :: "byte list"
  sk_salt :: "byte list"

definition raw_map :: "(u64 \<times> byte list) list \<Rightarrow> (string \<times> string) list" where
  "raw_map keys = map (\<lambda>(i, key). (FormatUint (unat i), base64_Encode key)) keys"

definition persist :: "'k key_lib \<Rightarrow> 'k key_env \<Rightarrow> SessionKeyStore \<Rightarrow> key_fs \<Rightarrow> go_error option \<times> key_fs" where
  "persist lib env s fs =
     (case ke_Encrypt env (sk_fileKey s) (kl_marshalMap lib (raw_map (sk_keys s))) of
        Inl e \<Rightarrow> (Some (wrapf ''encrypt session keys'' e), fs)
      | Inr ciphertext \<Rightarrow>
          writeAtomic env (sk_filePath s) \<lparr>kd_version = 1, kd_salt = base64_Encode (sk_salt s), kd_encryptedKey = [],
            kd_data = base64_Encode ciphertext\<rparr> fs)"

fun load_keys :: "(string \<times> string) list \<Rightarrow> (u64 \<times> byte list) list \<Rightarrow> go_error + (u64 \<times> byte list) list" where
  "load_keys [] keys = Inr keys"
| "load_keys ((k, v) # raw) keys =
     (case ParseUint k of
        Inl e \<Rightarrow> Inl (wrapf ''parse session ID'' e)
      | Inr i \<Rightarrow>
          (case base64_Decode v of
             None \<Rightarrow> Inl (errorf ''decode session key for ID'')
           | Some keyBytes \<Rightarrow> load_keys raw (AList.update i keyBytes keys)))"

definition create_store :: "'k key_lib \<Rightarrow> 'k key_env \<Rightarrow> string \<Rightarrow> string \<Rightarrow> key_fs \<Rightarrow> (go_error + SessionKeyStore) \<times> key_fs" where
  "create_store lib env filePath passphrase fs =
     (case ke_salt env of
        Inl e \<Rightarrow> (Inl (wrapf ''generate session store salt'' e), fs)
      | Inr salt \<Rightarrow>
          (case kl_scrypt lib passphrase salt of
             Inl e \<Rightarrow> (Inl (wrapf ''derive session store key'' e), fs)
           | Inr fileKey \<Rightarrow>
               (let s = \<lparr>sk_keys = [], sk_filePath = filePath, sk_fileKey = fileKey, sk_salt = salt\<rparr> in
                case persist lib env s fs of
                  (Some e, fs') \<Rightarrow> (Inl (wrapf ''persist initial session store'' e), fs')
                | (None, fs') \<Rightarrow> (Inr s, fs'))))"

definition load_store :: "'k key_lib \<Rightarrow> 'k key_env \<Rightarrow> string \<Rightarrow> string \<Rightarrow> key_fs \<Rightarrow> go_error + SessionKeyStore" where
  "load_store lib env filePath passphrase fs =
     (case ReadFile env filePath fs of
        Inl e \<Rightarrow> Inl (wrapf ''read session store'' e)
      | Inr None \<Rightarrow> Inl (errorf ''parse session store'')
      | Inr (Some sf) \<Rightarrow>
          if kd_version sf \<noteq> 1 then Inl (errorf ''unsupported session store version'')
          else case base64_Decode (kd_salt sf) of
            None \<Rightarrow> Inl (errorf ''decode session store salt'')
          | Some salt \<Rightarrow>
              (case kl_scrypt lib passphrase salt of
                 Inl e \<Rightarrow> Inl (wrapf ''derive session store key'' e)
               | Inr fileKey \<Rightarrow>
                   (case base64_Decode (kd_data sf) of
                      None \<Rightarrow> Inl (errorf ''decode session store data'')
                    | Some ciphertext \<Rightarrow>
                        (case kl_Decrypt lib fileKey ciphertext of
                           Inl e \<Rightarrow> Inl (wrapf ''decrypt session store (wrong passphrase?)'' e)
                         | Inr plaintext \<Rightarrow>
                             (case kl_unmarshalMap lib plaintext of
                                Inl e \<Rightarrow> Inl (wrapf ''unmarshal session keys'' e)
                              | Inr raw \<Rightarrow>
                                  (case load_keys raw [] of
                                     Inl e \<Rightarrow> Inl e
                                   | Inr keys \<Rightarrow> Inr \<lparr>sk_keys = keys, sk_filePath = filePath, sk_fileKey = fileKey, sk_salt = salt\<rparr>))))))"

definition NewSessionKeyStore :: "'k key_lib \<Rightarrow> 'k key_env \<Rightarrow> string \<Rightarrow> string \<Rightarrow> key_fs \<Rightarrow> (go_error + SessionKeyStore) \<times> key_fs" where
  "NewSessionKeyStore lib env filePath passphrase fs =
     (if missing env filePath fs then create_store lib env filePath passphrase fs
      else (load_store lib env filePath passphrase fs, fs))"

definition StoreKey :: "'k key_lib \<Rightarrow> 'k key_env \<Rightarrow> u64 \<Rightarrow> byte list \<Rightarrow> SessionKeyStore \<Rightarrow> key_fs \<Rightarrow> go_error option \<times> SessionKeyStore \<times> key_fs" where
  "StoreKey lib env sessionID key s fs =
     (let s' = s\<lparr>sk_keys := AList.update sessionID key (sk_keys s)\<rparr> in
      case persist lib env s' fs of (r, fs') \<Rightarrow> (r, s', fs'))"

definition GetKey :: "u64 \<Rightarrow> SessionKeyStore \<Rightarrow> go_error + byte list" where
  "GetKey sessionID s =
     (case map_of (sk_keys s) sessionID of None \<Rightarrow> Inl (errorf ''session key not found for session'') | Some key \<Rightarrow> Inr key)"

definition RemoveKey :: "'k key_lib \<Rightarrow> 'k key_env \<Rightarrow> u64 \<Rightarrow> SessionKeyStore \<Rightarrow> key_fs \<Rightarrow> go_error option \<times> SessionKeyStore \<times> key_fs" where
  "RemoveKey lib env sessionID s fs =
     (let s' = s\<lparr>sk_keys := AList.delete sessionID (sk_keys s)\<rparr> in
      case persist lib env s' fs of (r, fs') \<Rightarrow> (r, s', fs'))"

definition ZeroAll :: "'k key_lib \<Rightarrow> 'k key_env \<Rightarrow> SessionKeyStore \<Rightarrow> key_fs \<Rightarrow> go_error option \<times> SessionKeyStore \<times> key_fs" where
  "ZeroAll lib env s fs =
     (let s' = s\<lparr>sk_keys := []\<rparr> in
      case persist lib env s' fs of
        (r, fs') \<Rightarrow> (r, s'\<lparr>sk_fileKey := map (\<lambda>_. 0) (sk_fileKey s')\<rparr>, fs'))"

section \<open>The cache interface\<close>

text \<open>
  What the pipeline relies on: a key that was stored is what a lookup returns, whether or not writing the
  file succeeded, and the other sessions are not touched.
\<close>

locale key_cache =
  fixes get :: "u64 \<Rightarrow> 's \<Rightarrow> go_error + byte list"
    and store :: "'e \<Rightarrow> u64 \<Rightarrow> byte list \<Rightarrow> 's \<Rightarrow> 's"
    and remove :: "'e \<Rightarrow> u64 \<Rightarrow> 's \<Rightarrow> 's"
  assumes get_store: "get i (store e j k s) = (if i = j then Inr k else get i s)"
    and get_remove: "i \<noteq> j \<Longrightarrow> get i (remove e j s) = get i s" "isl (get j (remove e j s))"
begin

fun last_write :: "u64 \<Rightarrow> ('e \<times> u64 \<times> byte list option) list \<Rightarrow> byte list option option" where
  "last_write i [] = None"
| "last_write i ((e, j, k) # ops) = (case last_write i ops of Some r \<Rightarrow> Some r | None \<Rightarrow> if i = j then Some k else None)"

fun run_cache :: "('e \<times> u64 \<times> byte list option) list \<Rightarrow> 's \<Rightarrow> 's" where
  "run_cache [] s = s"
| "run_cache ((e, j, k) # ops) s = run_cache ops (case k of Some key \<Rightarrow> store e j key s | None \<Rightarrow> remove e j s)"

lemma get_run: "case last_write i ops of
    None \<Rightarrow> get i (run_cache ops s) = get i s
  | Some None \<Rightarrow> isl (get i (run_cache ops s))
  | Some (Some k) \<Rightarrow> get i (run_cache ops s) = Inr k"
proof (induction ops arbitrary: s)
  case (Cons op ops)
  obtain e j k where op: "op = (e, j, k)" by (metis surj_pair)
  show ?case using Cons [of "case k of Some key \<Rightarrow> store e j key s | None \<Rightarrow> remove e j s"] get_store get_remove
    by (auto simp: op split: option.splits)
qed simp

end

definition mem_store :: "('k key_lib \<times> 'k key_env \<times> key_fs) \<Rightarrow> u64 \<Rightarrow> byte list \<Rightarrow> SessionKeyStore \<Rightarrow> SessionKeyStore" where
  "mem_store e i k s = (case e of (lib, env, fs) \<Rightarrow> fst (snd (StoreKey lib env i k s fs)))"

definition mem_remove :: "('k key_lib \<times> 'k key_env \<times> key_fs) \<Rightarrow> u64 \<Rightarrow> SessionKeyStore \<Rightarrow> SessionKeyStore" where
  "mem_remove e i s = (case e of (lib, env, fs) \<Rightarrow> fst (snd (RemoveKey lib env i s fs)))"

lemma mem_keys [simp]:
  "sk_keys (mem_store e i k s) = AList.update i k (sk_keys s)" "sk_keys (mem_remove e i s) = AList.delete i (sk_keys s)"
  by (simp_all add: mem_store_def mem_remove_def StoreKey_def RemoveKey_def Let_def split: prod.splits)

interpretation skc: key_cache GetKey mem_store mem_remove
  by unfold_locales (auto simp: GetKey_def update_conv' delete_conv' split: option.splits)

section \<open>What the file holds\<close>

definition json_law :: "'k key_lib \<Rightarrow> bool" where
  "json_law lib \<longleftrightarrow> (\<forall>m. distinct (map fst m) \<longrightarrow>
     (\<exists>m'. kl_unmarshalMap lib (kl_marshalMap lib m) = Inr m' \<and> distinct (map fst m') \<and> set m' = set m))"

definition enc_law :: "'k key_lib \<Rightarrow> 'k key_env \<Rightarrow> bool" where
  "enc_law lib env \<longleftrightarrow> (\<forall>k p c. ke_Encrypt env k p = Inr c \<longrightarrow> kl_Decrypt lib k c = Inr p)"

lemma ParseUint_unat [simp]: "ParseUint (FormatUint (unat (i :: u64))) = Inr i"
proof -
  have "int (unat i) < 2 ^ 64" using unsigned_less [of i, where ?'a = int] by simp
  then show ?thesis using FormatUint_digits [of "unat i"] by (simp add: ParseUint_def parse_FormatUint)
qed

lemma FormatUint_unat_eq [simp]: "FormatUint (unat i) = FormatUint (unat j) \<longleftrightarrow> i = (j :: u64)"
  by (metis ParseUint_unat sum.inject(2))

lemma distinct_raw_map: "distinct (map fst keys) \<Longrightarrow> distinct (map fst (raw_map keys))"
  by (induction keys) (force simp: raw_map_def)+

lemma load_keys_raw:
  assumes "set raw \<subseteq> set (raw_map keys)" "distinct (map fst raw)" "distinct (map fst keys)"
  shows "\<exists>keys'. load_keys raw acc = Inr keys' \<and>
    (\<forall>i. map_of keys' i = (if FormatUint (unat i) \<in> fst ` set raw then map_of keys i else map_of acc i)) \<and>
    (distinct (map fst acc) \<longrightarrow> distinct (map fst keys'))"
  using assms
proof (induction raw arbitrary: acc)
  case (Cons kv raw)
  obtain i key where kv: "kv = (FormatUint (unat i), base64_Encode key)" "(i, key) \<in> set keys"
    using Cons.prems(1) by (auto simp: raw_map_def)
  have "map_of keys i = Some key" using kv(2) Cons.prems(3) by simp
  moreover obtain keys' where "load_keys raw (AList.update i key acc) = Inr keys'"
    "\<forall>j. map_of keys' j = (if FormatUint (unat j) \<in> fst ` set raw then map_of keys j else map_of (AList.update i key acc) j)"
    "distinct (map fst acc) \<longrightarrow> distinct (map fst keys')"
    using Cons.IH [of "AList.update i key acc"] Cons.prems distinct_update [of acc] by fastforce
  ultimately show ?case using kv(1) by (auto simp: update_conv')
qed simp

lemma tmp_name_neq [simp]: "tmp_name env path \<noteq> path" "path \<noteq> tmp_name env path"
  by (simp_all add: tmp_name_def)

lemma writeAtomic_path:
  "writeAtomic env path d fs = (r, fs') \<Longrightarrow> fs' path = (case r of None \<Rightarrow> Some (Some d) | Some e \<Rightarrow> fs path)"
  by (auto simp: writeAtomic_def Let_def split: key_fault.splits)

text \<open>The map the file of a store carries under a passphrase.\<close>

definition on_disk :: "'k key_lib \<Rightarrow> string \<Rightarrow> string \<Rightarrow> key_fs \<Rightarrow> (u64 \<rightharpoonup> byte list) \<Rightarrow> bool" where
  "on_disk lib path pass fs m \<longleftrightarrow> fs path \<noteq> None \<and>
     (\<forall>env. ke_fault env \<noteq> KfRead \<longrightarrow> (\<exists>s. load_store lib env path pass fs = Inr s \<and> map_of (sk_keys s) = m))"

definition store_ok :: "'k key_lib \<Rightarrow> string \<Rightarrow> string \<Rightarrow> SessionKeyStore \<Rightarrow> bool" where
  "store_ok lib path pass s \<longleftrightarrow> sk_filePath s = path \<and> kl_scrypt lib pass (sk_salt s) = Inr (sk_fileKey s) \<and> distinct (map fst (sk_keys s))"

lemma persist_disk:
  assumes "json_law lib" "enc_law lib env" "store_ok lib path pass s" "persist lib env s fs = (r, fs')"
  shows "if r = None then on_disk lib path pass fs' (map_of (sk_keys s)) else fs' path = fs path"
proof (cases "ke_Encrypt env (sk_fileKey s) (kl_marshalMap lib (raw_map (sk_keys s)))")
  case (Inl e)
  then show ?thesis using assms(4) by (auto simp: persist_def)
next
  case (Inr c)
  let ?d = "\<lparr>kd_version = 1, kd_salt = base64_Encode (sk_salt s), kd_encryptedKey = [], kd_data = base64_Encode c\<rparr>"
  have ok: "sk_filePath s = path" "kl_scrypt lib pass (sk_salt s) = Inr (sk_fileKey s)" "distinct (map fst (sk_keys s))"
    using assms(3) by (simp_all add: store_ok_def)
  have w: "fs' path = (case r of None \<Rightarrow> Some (Some ?d) | Some e \<Rightarrow> fs path)"
    using assms(4) Inr ok(1) by (intro writeAtomic_path) (simp add: persist_def)
  obtain raw where raw: "kl_unmarshalMap lib (kl_marshalMap lib (raw_map (sk_keys s))) = Inr raw" "distinct (map fst raw)" "set raw = set (raw_map (sk_keys s))"
    using assms(1) distinct_raw_map [OF ok(3)] by (auto simp: json_law_def)
  obtain keys where keys: "load_keys raw [] = Inr keys"
    "\<And>i. map_of keys i = (if FormatUint (unat i) \<in> fst ` set raw then map_of (sk_keys s) i else None)"
    using load_keys_raw [of raw "sk_keys s" "[]"] raw ok(3) by fastforce
  have "map_of keys = map_of (sk_keys s)"
    using keys(2) raw(3) by (fastforce simp: raw_map_def image_iff fun_eq_iff dest: map_of_SomeD intro!: sym [OF iffD2 [OF map_of_eq_None_iff]])
  then show ?thesis using w keys(1) raw(1) ok(2) Inr assms(2) unfolding enc_law_def on_disk_def
    by (auto simp: load_store_def ReadFile_def)
qed

lemma load_keys_distinct: "load_keys raw acc = Inr keys \<Longrightarrow> distinct (map fst acc) \<Longrightarrow> distinct (map fst keys)"
  by (induction raw acc rule: load_keys.induct) (auto simp: distinct_update split: sum.splits option.splits)

lemma load_store_env: "ke_fault env \<noteq> KfRead \<Longrightarrow> ke_fault env' \<noteq> KfRead \<Longrightarrow> load_store lib env path pass fs = load_store lib env' path pass fs"
  by (simp add: load_store_def ReadFile_def)

lemma load_store_ok:
  assumes "load_store lib env path pass fs = Inr s"
  shows "store_ok lib path pass s" "on_disk lib path pass fs (map_of (sk_keys s))"
proof -
  show "store_ok lib path pass s"
    using assms by (auto simp: load_store_def store_ok_def dest: load_keys_distinct split: sum.splits option.splits if_splits)
  have "ke_fault env \<noteq> KfRead" "fs path \<noteq> None" using assms by (auto simp: load_store_def ReadFile_def split: option.splits if_splits)
  then show "on_disk lib path pass fs (map_of (sk_keys s))" using assms load_store_env unfolding on_disk_def by metis
qed

lemma NewSessionKeyStore_ok:
  assumes "json_law lib" "enc_law lib env" "NewSessionKeyStore lib env path pass fs = (Inr s, fs')"
  shows "store_ok lib path pass s \<and> on_disk lib path pass fs' (map_of (sk_keys s))"
proof (cases "missing env path fs")
  case True
  then obtain salt key where "s = \<lparr>sk_keys = [], sk_filePath = path, sk_fileKey = key, sk_salt = salt\<rparr>"
    "kl_scrypt lib pass salt = Inr key" "persist lib env s fs = (None, fs')"
    using assms(3) by (auto simp: NewSessionKeyStore_def create_store_def Let_def split: sum.splits prod.splits option.splits)
  moreover then have "store_ok lib path pass s" by (simp add: store_ok_def)
  ultimately show ?thesis using persist_disk [OF assms(1,2)] by fastforce
next
  case False
  then show ?thesis using assms(3) load_store_ok by (auto simp: NewSessionKeyStore_def)
qed

section \<open>Runs\<close>

datatype key_op = OpStore u64 "byte list" | OpRemove u64

fun key_step :: "'k key_lib \<Rightarrow> 'k key_env \<Rightarrow> key_op \<Rightarrow> SessionKeyStore \<Rightarrow> key_fs \<Rightarrow> go_error option \<times> SessionKeyStore \<times> key_fs" where
  "key_step lib env (OpStore i k) s fs = StoreKey lib env i k s fs"
| "key_step lib env (OpRemove i) s fs = RemoveKey lib env i s fs"

fun run_keys :: "'k key_lib \<Rightarrow> ('k key_env \<times> key_op) list \<Rightarrow> SessionKeyStore \<Rightarrow> key_fs \<Rightarrow> go_error option list \<times> SessionKeyStore \<times> key_fs" where
  "run_keys lib [] s fs = ([], s, fs)"
| "run_keys lib ((env, op) # ops) s fs =
     (case key_step lib env op s fs of
        (r, s1, fs1) \<Rightarrow> (case run_keys lib ops s1 fs1 of (rs, s2, fs2) \<Rightarrow> (r # rs, s2, fs2)))"

text \<open>The specification: two maps, in memory and on disk; an operation changes the first, and the second becomes equal to it when the operation succeeds.\<close>

fun spec_op :: "key_op \<Rightarrow> (u64 \<rightharpoonup> byte list) \<Rightarrow> (u64 \<rightharpoonup> byte list)" where
  "spec_op (OpStore i k) m = m(i \<mapsto> k)"
| "spec_op (OpRemove i) m = m(i := None)"

fun spec_keys :: "(key_op \<times> bool) list \<Rightarrow> (u64 \<rightharpoonup> byte list) \<times> (u64 \<rightharpoonup> byte list) \<Rightarrow> (u64 \<rightharpoonup> byte list) \<times> (u64 \<rightharpoonup> byte list)" where
  "spec_keys [] md = md"
| "spec_keys ((op, ok) # ops) (mem, disk) = spec_keys ops (spec_op op mem, if ok then spec_op op mem else disk)"

lemma key_step_ok:
  assumes "json_law lib" "enc_law lib env" "store_ok lib path pass s" "on_disk lib path pass fs m" "key_step lib env op s fs = (r, s', fs')"
  shows "store_ok lib path pass s' \<and> map_of (sk_keys s') = spec_op op (map_of (sk_keys s)) \<and>
    on_disk lib path pass fs' (if r = None then map_of (sk_keys s') else m)"
proof -
  have keys: "persist lib env s' fs = (r, fs')" "store_ok lib path pass s'" "map_of (sk_keys s') = spec_op op (map_of (sk_keys s))"
    using assms(3,5)
    by (cases op; auto simp: StoreKey_def RemoveKey_def store_ok_def Let_def update_conv' delete_conv' distinct_update distinct_delete split: prod.splits)+
  have "on_disk lib path pass fs' m" if "fs' path = fs path"
    using assms(4) that by (simp add: on_disk_def load_store_def ReadFile_def)
  then show ?thesis using keys persist_disk [OF assms(1,2) keys(2,1)] by (auto split: if_splits)
qed

lemma run_keys_ok:
  assumes "json_law lib" "\<forall>(env, op)\<in>set ops. enc_law lib env" "store_ok lib path pass s" "on_disk lib path pass fs m" "run_keys lib ops s fs = (rs, s', fs')"
  shows "\<exists>m'. spec_keys (zip (map snd ops) (map (\<lambda>r. r = None) rs)) (map_of (sk_keys s), m) = (map_of (sk_keys s'), m') \<and> on_disk lib path pass fs' m'"
  using assms(2-)
proof (induction ops arbitrary: s fs m rs)
  case (Cons eo ops)
  obtain env op r s1 fs1 where st: "eo = (env, op)" "key_step lib env op s fs = (r, s1, fs1)" by (metis surj_pair)
  obtain rs1 where rest: "run_keys lib ops s1 fs1 = (rs1, s', fs')" "rs = r # rs1"
    using Cons.prems(4) st by (auto split: prod.splits)
  have "enc_law lib env" using Cons.prems(1) st(1) by simp
  from key_step_ok [OF assms(1) this Cons.prems(2,3) st(2)] Cons.IH [OF _ _ _ rest(1)] show ?case
    using Cons.prems(1) st(1) rest(2) by (auto split: if_splits)
qed auto

section \<open>A concrete library\<close>

definition mark_str :: "string \<Rightarrow> byte list" where
  "mark_str s = concat (map (\<lambda>c. [1, of_nat (of_char c)]) s) @ [0]"

fun unmark :: "string \<Rightarrow> byte list \<Rightarrow> string list" where
  "unmark cur [] = []"
| "unmark cur [b] = [rev cur]"
| "unmark cur (b # c # bs) = (if b = 0 then rev cur # unmark [] (c # bs) else unmark (char_of (unat c) # cur) bs)"

fun pair_up :: "string list \<Rightarrow> (string \<times> string) list" where
  "pair_up (k # v # r) = (k, v) # pair_up r"
| "pair_up _ = []"

definition mark_map :: "(string \<times> string) list \<Rightarrow> byte list" where
  "mark_map m = concat (map (\<lambda>(k, v). mark_str k @ mark_str v) m)"

lemma unmark_str: "unmark cur (mark_str s @ bs) = (rev cur @ s) # unmark [] bs"
proof (induction s arbitrary: cur)
  case Nil
  then show ?case by (cases bs) (simp_all add: mark_str_def)
next
  case (Cons c s)
  have "char_of (unat (of_nat (of_char c) :: byte)) = c" by (simp add: unat_of_nat)
  then show ?case using Cons [of "c # cur"] by (simp add: mark_str_def)
qed

lemma unmark_map: "pair_up (unmark [] (mark_map m)) = m"
proof (induction m)
  case (Cons kv m)
  then show ?case by (cases kv) (simp add: mark_map_def unmark_str)
qed (simp add: mark_map_def)

definition demo_keys :: "byte list key_lib" where
  "demo_keys = \<lparr>kl_scrypt = \<lambda>pass salt. Inr (0 # salt),
     kl_Decrypt = \<lambda>k c. if take (length k) c = k then Inr (drop (length k) c) else Inl (errorf ''message authentication failed''),
     kl_NewPrivateKey = Inr, kl_Bytes = id, kl_marshalMap = mark_map, kl_unmarshalMap = \<lambda>b. Inr (pair_up (unmark [] b))\<rparr>"

definition demo_key_env :: "key_fault \<Rightarrow> byte list key_env" where
  "demo_key_env flt = \<lparr>ke_GenerateKeyPair = Inr [4, 2], ke_salt = Inr [7], ke_Encrypt = \<lambda>k p. Inr (k @ p), ke_tmp = ''1'', ke_fault = flt\<rparr>"

lemma demo_key_laws: "json_law demo_keys" "enc_law demo_keys (demo_key_env flt)"
  by (simp_all add: json_law_def enc_law_def demo_keys_def demo_key_env_def unmark_map)

section \<open>Properties\<close>

text \<open>
  C14. The session keys survive a restart. Open a store and run any sequence of StoreKey and RemoveKey with
  any faults: memory always holds the effect of every operation, and reopening the file with the same
  passphrase succeeds and yields exactly the keys as of the last operation that reported success (a
  failed write leaves the previous file whole).
\<close>

theorem session_keys_durable:
  assumes "json_law lib" "enc_law lib env" "\<forall>(e, op)\<in>set ops. enc_law lib e" "ke_fault env' = KfNone"
    and "NewSessionKeyStore lib env path pass fs = (Inr s, fs1)" "run_keys lib ops s fs1 = (rs, s1, fs2)"
  shows "\<exists>s2. NewSessionKeyStore lib env' path pass fs2 = (Inr s2, fs2) \<and>
    spec_keys (zip (map snd ops) (map (\<lambda>r. r = None) rs)) (map_of (sk_keys s), map_of (sk_keys s)) = (map_of (sk_keys s1), map_of (sk_keys s2))"
proof -
  have "store_ok lib path pass s" "on_disk lib path pass fs1 (map_of (sk_keys s))"
    using NewSessionKeyStore_ok [OF assms(1,2,5)] by simp_all
  from run_keys_ok [OF assms(1,3) this assms(6)] obtain m where
    m: "spec_keys (zip (map snd ops) (map (\<lambda>r. r = None) rs)) (map_of (sk_keys s), map_of (sk_keys s)) = (map_of (sk_keys s1), m)"
      "on_disk lib path pass fs2 m" by blast
  then obtain s2 where "load_store lib env' path pass fs2 = Inr s2" "map_of (sk_keys s2) = m" "fs2 path \<noteq> None"
    using assms(4) unfolding on_disk_def by (metis key_fault.distinct(3))
  then show ?thesis using m(1) by (auto simp: NewSessionKeyStore_def missing_def)
qed

abbreviation demo_ops :: "(byte list key_env \<times> key_op) list" where
  "demo_ops \<equiv> [(demo_key_env KfNone, OpStore 7 [1]), (demo_key_env KfRename, OpStore 8 [2])]"

theorem session_keys_durable_witness:
  "\<exists>s1 fs2 s2. run_keys demo_keys demo_ops \<lparr>sk_keys = [], sk_filePath = ''k'', sk_fileKey = [0, 7], sk_salt = [7]\<rparr>
       (snd (NewSessionKeyStore demo_keys (demo_key_env KfNone) ''k'' ''pw'' (\<lambda>_. None))) = ([None, Some (errorf ''rename keystore'')], s1, fs2) \<and>
     NewSessionKeyStore demo_keys (demo_key_env KfNone) ''k'' ''pw'' fs2 = (Inr s2, fs2) \<and>
     GetKey 7 s2 = Inr [1] \<and> isl (GetKey 8 s2) \<and> GetKey 8 s1 = Inr [2]"
proof -
  let ?s = "\<lparr>sk_keys = [], sk_filePath = ''k'', sk_fileKey = [0, 7], sk_salt = [7 :: byte]\<rparr>"
  obtain fs1 where new: "NewSessionKeyStore demo_keys (demo_key_env KfNone) ''k'' ''pw'' (\<lambda>_. None) = (Inr ?s, fs1)"
    by (simp add: NewSessionKeyStore_def missing_def create_store_def persist_def writeAtomic_def demo_keys_def demo_key_env_def)
  obtain s1 fs2 where run: "run_keys demo_keys demo_ops ?s fs1 = ([None, Some (errorf ''rename keystore'')], s1, fs2)"
    by (simp add: StoreKey_def persist_def writeAtomic_def demo_keys_def demo_key_env_def)
  from session_keys_durable [OF demo_key_laws(1) demo_key_laws(2) _ _ new run, where env' = "demo_key_env KfNone"] obtain s2 where
    s2: "NewSessionKeyStore demo_keys (demo_key_env KfNone) ''k'' ''pw'' fs2 = (Inr s2, fs2)" "map_of (sk_keys s2) = [7 \<mapsto> [1]]" "map_of (sk_keys s1) = [7 \<mapsto> [1], 8 \<mapsto> [2]]"
    using demo_key_laws(2) by (auto simp: demo_key_env_def)
  then show ?thesis using new run by (auto simp: GetKey_def)
qed

text \<open>
  C38. The worker's encryption key is generated once. After LoadOrGenerate has returned a key, every later
  call on the same path and passphrase that can read the file returns that same key and leaves the file
  alone; a call that fails leaves the file as it was.
\<close>

theorem worker_key_stable:
  assumes "enc_law lib env" "\<And>k. kl_NewPrivateKey lib (kl_Bytes lib k) = Inr k" "ke_fault env' = KfNone"
    and "LoadOrGenerate lib env path pass fs = (r, fs1)"
  shows "case r of Inl e \<Rightarrow> fs1 path = fs path | Inr k \<Rightarrow> LoadOrGenerate lib env' path pass fs1 = (Inr k, fs1)"
proof (cases "missing env path fs")
  case True
  then have g: "generate_key lib env path pass fs = (r, fs1)" using assms(4) by (simp add: LoadOrGenerate_def)
  show ?thesis
  proof (cases r)
    case (Inl e)
    then show ?thesis using g by (auto simp: generate_key_def dest!: writeAtomic_path split: sum.splits prod.splits option.splits)
  next
    case (Inr k)
    then obtain salt fk c where k: "deriveKey lib pass salt = Inr fk" "ke_Encrypt env fk (kl_Bytes lib k) = Inr c"
      "fs1 path = Some (Some \<lparr>kd_version = 1, kd_salt = base64_Encode salt, kd_encryptedKey = base64_Encode c, kd_data = []\<rparr>)"
      using g by (auto simp: generate_key_def dest!: writeAtomic_path split: sum.splits prod.splits option.splits)
    then show ?thesis using Inr assms(1-3) by (simp add: LoadOrGenerate_def missing_def Load_def ReadFile_def enc_law_def)
  qed
next
  case False
  then have l: "Load lib env path pass fs = r" "fs1 = fs" using assms(4) by (auto simp: LoadOrGenerate_def)
  show ?thesis
  proof (cases r)
    case (Inr k)
    then have "ke_fault env \<noteq> KfRead" "fs path \<noteq> None" using l(1) by (auto simp: Load_def ReadFile_def split: option.splits if_splits)
    moreover then have "Load lib env' path pass fs = Load lib env path pass fs" using assms(3) by (simp add: Load_def ReadFile_def)
    ultimately show ?thesis using Inr l assms(3) by (auto simp: LoadOrGenerate_def missing_def)
  qed (use l in simp)
qed

theorem worker_key_stable_witness:
  "\<exists>fs1. LoadOrGenerate demo_keys (demo_key_env KfNone) ''k'' ''pw'' (\<lambda>_. None) = (Inr [4, 2], fs1) \<and>
     LoadOrGenerate demo_keys (demo_key_env KfNone) ''k'' ''pw'' fs1 = (Inr [4, 2], fs1)"
proof -
  obtain fs1 where g: "LoadOrGenerate demo_keys (demo_key_env KfNone) ''k'' ''pw'' (\<lambda>_. None) = (Inr [4, 2], fs1)"
    by (simp add: LoadOrGenerate_def missing_def generate_key_def deriveKey_def writeAtomic_def demo_keys_def demo_key_env_def)
  have "kl_NewPrivateKey demo_keys (kl_Bytes demo_keys k) = Inr k" for k by (simp add: demo_keys_def)
  moreover have "ke_fault (demo_key_env KfNone) = KfNone" by (simp add: demo_key_env_def)
  ultimately show ?thesis using worker_key_stable [OF demo_key_laws(2) _ _ g] g by auto
qed

text \<open>The cipher authenticates: a message does not open under another key of the same length.\<close>

definition auth_law :: "'k key_lib \<Rightarrow> 'k key_env \<Rightarrow> bool" where
  "auth_law lib env \<longleftrightarrow> (\<forall>k k' p c. ke_Encrypt env k p = Inr c \<longrightarrow> length k' = length k \<longrightarrow> k' \<noteq> k \<longrightarrow> isl (kl_Decrypt lib k' c))"

text \<open>
  ZeroAll overwrites the file key but leaves the store in use. A StoreKey that comes after it (a job
  still running when shutdown zeroes the keys) reports success and encrypts the file under the zero
  key: every later start with the right passphrase is refused until the file is removed.
\<close>

theorem zeroed_store_locks_out:
  assumes "auth_law lib env" "store_ok lib path pass s" "sk_fileKey s \<noteq> map (\<lambda>_. 0) (sk_fileKey s)"
    and "ZeroAll lib env0 s fs = (r, s1, fs1)" "StoreKey lib env i key s1 fs1 = (None, s2, fs2)"
  shows "isl (fst (NewSessionKeyStore lib env' path pass fs2)) \<and> snd (NewSessionKeyStore lib env' path pass fs2) = fs2 \<and> GetKey i s2 = Inr key"
proof -
  let ?z = "map (\<lambda>_. 0) (sk_fileKey s)"
  have ok: "sk_filePath s = path" "kl_scrypt lib pass (sk_salt s) = Inr (sk_fileKey s)" using assms(2) by (simp_all add: store_ok_def)
  have s1: "sk_filePath s1 = path" "sk_salt s1 = sk_salt s" "sk_fileKey s1 = ?z"
    using assms(4) ok(1) by (auto simp: ZeroAll_def Let_def split: prod.splits)
  obtain c where c: "ke_Encrypt env ?z (kl_marshalMap lib (raw_map (AList.update i key (sk_keys s1)))) = Inr c"
    "fs2 path = Some (Some \<lparr>kd_version = 1, kd_salt = base64_Encode (sk_salt s), kd_encryptedKey = [], kd_data = base64_Encode c\<rparr>)"
    "s2 = s1\<lparr>sk_keys := AList.update i key (sk_keys s1)\<rparr>"
    using assms(5) s1 by (auto simp: StoreKey_def persist_def Let_def dest!: writeAtomic_path split: prod.splits sum.splits)
  have "isl (kl_Decrypt lib (sk_fileKey s) c)"
    using assms(1,3) c(1) unfolding auth_law_def by (metis length_map)
  then show ?thesis using c(2,3) ok(2)
    by (auto simp: NewSessionKeyStore_def missing_def load_store_def ReadFile_def GetKey_def update_conv' isl_def)
qed

theorem zeroed_store_locks_out_witness:
  "\<exists>s1 fs1 s2 fs2. ZeroAll demo_keys (demo_key_env KfNone) \<lparr>sk_keys = [], sk_filePath = ''k'', sk_fileKey = [0, 7], sk_salt = [7]\<rparr> (\<lambda>_. None) = (None, s1, fs1) \<and>
     StoreKey demo_keys (demo_key_env KfNone) 5 [1] s1 fs1 = (None, s2, fs2) \<and>
     isl (fst (NewSessionKeyStore demo_keys (demo_key_env KfNone) ''k'' ''pw'' fs2))"
proof -
  let ?s = "\<lparr>sk_keys = [], sk_filePath = ''k'', sk_fileKey = [0, 7], sk_salt = [7 :: byte]\<rparr>"
  obtain s1 fs1 where z: "ZeroAll demo_keys (demo_key_env KfNone) ?s (\<lambda>_. None) = (None, s1, fs1)" "s1 = ?s\<lparr>sk_fileKey := [0, 0]\<rparr>"
    by (simp add: ZeroAll_def persist_def writeAtomic_def demo_keys_def demo_key_env_def)
  obtain s2 fs2 where t: "StoreKey demo_keys (demo_key_env KfNone) 5 [1] s1 fs1 = (None, s2, fs2)"
    by (simp add: StoreKey_def persist_def writeAtomic_def demo_keys_def demo_key_env_def)
  have "auth_law demo_keys (demo_key_env KfNone)" by (auto simp: auth_law_def demo_keys_def demo_key_env_def isl_def)
  moreover have "store_ok demo_keys ''k'' ''pw'' ?s" by (simp add: store_ok_def demo_keys_def)
  ultimately show ?thesis using zeroed_store_locks_out [OF _ _ _ z(1) t] z t by fastforce
qed

end
