(* ===== verification/Worker_Registration.thy ===== *)
theory Worker_Registration
  imports Job_Monad
begin

unbundle bit_operations_syntax

text \<open>
  On-chain registration (internal/registration/manager.go, validator.go): registering the worker with its
  models, rolling back, declaring capabilities, and the read-only check at start-up.

  The contract client (chain.RegistrationClient, ValidationClient) is the record \<open>reg_client\<close> over a state
  of its own; \<open>rs_log\<close> records the transactions and the reads EnsureRegistered and EnsureCapabilities decide on, with their answers,
  newest first. Capability masks are uint256.
\<close>

section \<open>State\<close>

datatype reg_event =
    EvIsRegistered address "go_error + bool"
  | EvWorkerKey address "go_error + byte list"
  | EvMinStake "go_error + int option"
  | EvRegister "byte list" int "go_error option"
  | EvAddModel hash "go_error option"
  | EvDeregister "go_error option"
  | EvMask string "go_error + 256 word"
  | EvCapabilities "go_error + 256 word"
  | EvSetCapabilities "256 word" "go_error option"

record 'c reg_client =
  rc_IsWorkerRegistered :: "address \<Rightarrow> 'c \<Rightarrow> (go_error + bool) \<times> 'c"
  rc_GetWorkerEncryptionKey :: "address \<Rightarrow> 'c \<Rightarrow> (go_error + byte list) \<times> 'c"
  rc_GetMinWorkerStake :: "'c \<Rightarrow> (go_error + int option) \<times> 'c"
  rc_RegisterWorker :: "byte list \<Rightarrow> int \<Rightarrow> 'c \<Rightarrow> go_error option \<times> 'c"
  rc_AddSupportedModel :: "hash \<Rightarrow> 'c \<Rightarrow> go_error option \<times> 'c"
  rc_DeregisterWorker :: "'c \<Rightarrow> go_error option \<times> 'c"
  rc_GetCapabilityMask :: "string \<Rightarrow> 'c \<Rightarrow> (go_error + 256 word) \<times> 'c"
  rc_GetWorkerCapabilities :: "address \<Rightarrow> 'c \<Rightarrow> (go_error + 256 word) \<times> 'c"
  rc_SetCapabilities :: "256 word \<Rightarrow> 'c \<Rightarrow> go_error option \<times> 'c"

record 'c reg_st =
  rs_chain :: 'c
  rs_log :: "reg_event list"

record RegistrationManager =
  rm_workerAddr :: address
  rm_modelIDs :: "hash list"

definition rcall :: "('c \<Rightarrow> 'x \<times> 'c) \<Rightarrow> ('x \<Rightarrow> reg_event list) \<Rightarrow> ('c reg_st, 'x) prog" where
  "rcall f ev = State (\<lambda>s. case f (rs_chain s) of (x, c) \<Rightarrow> (x, s\<lparr>rs_chain := c, rs_log := ev x @ rs_log s\<rparr>))"

section \<open>Registration\<close>

definition P256UncompressedPubKeyLength :: nat where
  "P256UncompressedPubKeyLength = 65"

definition P256UncompressedPrefix :: byte where
  "P256UncompressedPrefix = 4"

definition validateEncryptionPubKey :: "byte list \<Rightarrow> go_error option" where
  "validateEncryptionPubKey key =
     (if length key \<noteq> P256UncompressedPubKeyLength then Some (errorf ''encryption pubkey must be 65 bytes'')
      else if key ! 0 \<noteq> P256UncompressedPrefix then Some (errorf ''encryption pubkey must start with 0x04 prefix'')
      else None)"

text \<open>\<open>errors.Join\<close>: both messages, both chains.\<close>

definition errors_Join :: "go_error \<Rightarrow> go_error \<Rightarrow> go_error" where
  "errors_Join a b = \<lparr>err_msg = err_msg a @ [CHR 0x0A] @ err_msg b, err_is = err_is a @ err_is b,
     err_rpc = (case err_rpc a of None \<Rightarrow> err_rpc b | r \<Rightarrow> r)\<rparr>"

fun add_models :: "'c reg_client \<Rightarrow> hash list \<Rightarrow> ('c reg_st, go_error option) prog" where
  "add_models rc [] = ret None"
| "add_models rc (m # ms) = do {
     r \<leftarrow> rcall (rc_AddSupportedModel rc m) (\<lambda>r. [EvAddModel m r]);
     (case r of
        None \<Rightarrow> add_models rc ms
      | Some e \<Rightarrow> do {
          let modelErr = wrapf ''add supported model at index'' e;
          rollback \<leftarrow> rcall (rc_DeregisterWorker rc) (\<lambda>r. [EvDeregister r]);
          ret (Some (case rollback of None \<Rightarrow> modelErr | Some e2 \<Rightarrow> errors_Join modelErr (wrapf ''rollback deregister'' e2)))
        })
   }"

definition key_mismatch :: go_error where
  "key_mismatch = errorf ''local ECDH public key does not match on-chain key''"

definition choose_stake :: "'c reg_client \<Rightarrow> int option \<Rightarrow> ('c reg_st, go_error + int) prog" where
  "choose_stake rc stake =
     (case stake of
        Some v \<Rightarrow> ret (if v \<le> 0 then Inl (errorf ''stake must be positive'') else Inr v)
      | None \<Rightarrow> attempt (map_err (wrapf ''query min worker stake'') (rcall (rc_GetMinWorkerStake rc) (\<lambda>r. [EvMinStake r])))
          (\<lambda>minStake. ret (case minStake of
              None \<Rightarrow> Inl (errorf ''min worker stake from contract is nil or non-positive'')
            | Some v \<Rightarrow> if v \<le> 0 then Inl (errorf ''min worker stake from contract is nil or non-positive'') else Inr v)))"

definition EnsureRegistered :: "'c reg_client \<Rightarrow> RegistrationManager \<Rightarrow> byte list \<Rightarrow> int option \<Rightarrow> ('c reg_st, go_error option) prog" where
  "EnsureRegistered rc m ecdhPubKey stake =
     (case validateEncryptionPubKey ecdhPubKey of
        Some e \<Rightarrow> ret (Some (wrapf ''invalid encryption pubkey'' e))
      | None \<Rightarrow> do {
          registered \<leftarrow> rcall (rc_IsWorkerRegistered rc (rm_workerAddr m)) (\<lambda>r. [EvIsRegistered (rm_workerAddr m) r]);
          (case registered of
             Inl e \<Rightarrow> ret (Some (wrapf ''check registration status'' e))
           | Inr True \<Rightarrow> do {
               onChainKey \<leftarrow> rcall (rc_GetWorkerEncryptionKey rc (rm_workerAddr m)) (\<lambda>r. [EvWorkerKey (rm_workerAddr m) r]);
               ret (case onChainKey of
                      Inl e \<Rightarrow> Some (wrapf ''fetch on-chain encryption key'' e)
                    | Inr k \<Rightarrow> if k \<noteq> ecdhPubKey then Some key_mismatch else None)
             }
           | Inr False \<Rightarrow> do {
               st \<leftarrow> choose_stake rc stake;
               (case st of
                  Inl e \<Rightarrow> ret (Some e)
                | Inr v \<Rightarrow> do {
                    r \<leftarrow> rcall (rc_RegisterWorker rc ecdhPubKey v) (\<lambda>r. [EvRegister ecdhPubKey v r]);
                    (case r of Some e \<Rightarrow> ret (Some (wrapf ''register worker'' e)) | None \<Rightarrow> add_models rc (rm_modelIDs m))
                  })
             })
        })"

definition Deregister :: "'c reg_client \<Rightarrow> ('c reg_st, go_error option) prog" where
  "Deregister rc = do {
     r \<leftarrow> rcall (rc_DeregisterWorker rc) (\<lambda>r. [EvDeregister r]);
     ret (map_option (wrapf ''deregister worker'') r)
   }"

definition validate_registration :: "'c reg_client \<Rightarrow> address \<Rightarrow> byte list \<Rightarrow> ('c reg_st, go_error option) prog" where
  "validate_registration rc workerAddr ecdhPubKey = do {
     registered \<leftarrow> rcall (rc_IsWorkerRegistered rc workerAddr) (\<lambda>_. []);
     (case registered of
        Inl e \<Rightarrow> ret (Some (wrapf ''check registration status'' e))
      | Inr False \<Rightarrow> ret (Some (errorf ''worker is not registered on-chain''))
      | Inr True \<Rightarrow> do {
          onChainKey \<leftarrow> rcall (rc_GetWorkerEncryptionKey rc workerAddr) (\<lambda>_. []);
          ret (case onChainKey of
                 Inl e \<Rightarrow> Some (wrapf ''fetch on-chain encryption key'' e)
               | Inr k \<Rightarrow> if k \<noteq> ecdhPubKey then Some key_mismatch else None)
        })
   }"

section \<open>Capabilities\<close>

definition SelfContainedCapability :: string where
  "SelfContainedCapability = ''self-contained''"

definition SearchCapability :: string where
  "SearchCapability = ''search''"

definition DesiredCapabilities :: "bool \<Rightarrow> string list" where
  "DesiredCapabilities search = [SelfContainedCapability] @ (if search then [SearchCapability] else [])"

fun lookup_masks :: "'c reg_client \<Rightarrow> string list \<Rightarrow> 256 word \<Rightarrow> bool \<Rightarrow> ('c reg_st, 256 word \<times> bool) prog" where
  "lookup_masks rc [] want resolvedAll = ret (want, resolvedAll)"
| "lookup_masks rc (name # names) want resolvedAll = do {
     r \<leftarrow> rcall (rc_GetCapabilityMask rc name) (\<lambda>r. [EvMask name r]);
     (case r of
        Inl e \<Rightarrow> lookup_masks rc names want False
      | Inr bits \<Rightarrow>
          if bits = 0 then lookup_masks rc names want resolvedAll
          else lookup_masks rc names (want OR bits) resolvedAll)
   }"

definition EnsureCapabilities :: "'c reg_client \<Rightarrow> RegistrationManager \<Rightarrow> string list \<Rightarrow> ('c reg_st, unit) prog" where
  "EnsureCapabilities rc m names = do {
     res \<leftarrow> lookup_masks rc names 0 True;
     current \<leftarrow> rcall (rc_GetWorkerCapabilities rc (rm_workerAddr m)) (\<lambda>r. [EvCapabilities r]);
     (case current of
        Inl e \<Rightarrow> ret ()
      | Inr cur \<Rightarrow> do {
          let target = (case res of (want, resolvedAll) \<Rightarrow> if resolvedAll then want else cur OR want);
          if target = cur then ret ()
          else do {
            _ \<leftarrow> rcall (rc_SetCapabilities rc target) (\<lambda>r. [EvSetCapabilities target r]);
            ret ()
          }
        })
   }"

section \<open>What is sent\<close>

lemma wp_rcall: "(\<And>x c. Q x (s\<lparr>rs_chain := c, rs_log := ev x @ rs_log s\<rparr>)) \<Longrightarrow> wp (rcall f ev) Q s"
  by (simp add: wp_def rcall_def split: prod.splits)

definition logs :: "'c reg_st \<Rightarrow> reg_event list \<Rightarrow> 'c reg_st \<Rightarrow> bool" where
  "logs s evs s' \<longleftrightarrow> rs_log s' = rev evs @ rs_log s"

lemma logs_simps [simp]: "logs s [] s' \<longleftrightarrow> rs_log s' = rs_log s"
  "logs (s\<lparr>rs_chain := c, rs_log := e # rs_log s\<rparr>) evs s' \<longleftrightarrow> logs s (e # evs) s'"
  by (simp_all add: logs_def)

definition added :: "hash list \<Rightarrow> reg_event list" where
  "added ms = map (\<lambda>m. EvAddModel m None) ms"

text \<open>The transactions of adding models: all of them, or up to a failing one and then the rollback.\<close>

definition model_txs :: "hash list \<Rightarrow> go_error option \<Rightarrow> reg_event list \<Rightarrow> bool" where
  "model_txs ms r evs \<longleftrightarrow>
     (if r = None then evs = added ms
      else \<exists>as m bs e d. ms = as @ m # bs \<and> evs = added as @ [EvAddModel m (Some e), EvDeregister d])"

lemma model_txs_Cons: "model_txs ms r evs \<Longrightarrow> model_txs (m # ms) r (EvAddModel m None # evs)"
proof (cases r)
  case (Some y)
  assume "model_txs ms r evs"
  then obtain as m' bs e d where "ms = as @ m' # bs" "evs = added as @ [EvAddModel m' (Some e), EvDeregister d]"
    using Some by (auto simp: model_txs_def)
  then have "m # ms = (m # as) @ m' # bs \<and> EvAddModel m None # evs = added (m # as) @ [EvAddModel m' (Some e), EvDeregister d]"
    by (simp add: added_def)
  then show ?thesis using Some unfolding model_txs_def by (simp only: option.distinct if_False) blast
qed (simp add: model_txs_def added_def)

lemma model_txs_rollback: "model_txs (m # ms) (Some e') [EvAddModel m (Some e), EvDeregister d]"
  by (auto simp: model_txs_def added_def intro: exI [of _ "[]"])

lemma wp_add_models:
  "(\<And>r evs s'. logs s evs s' \<Longrightarrow> model_txs ms r evs \<Longrightarrow> Q r s') \<Longrightarrow> wp (add_models rc ms) Q s"
proof (induction ms arbitrary: s)
  case Nil
  then show ?case using Nil [of "[]" s None] by (simp add: wp_simps model_txs_def added_def)
next
  case (Cons m ms)
  show ?case unfolding add_models.simps wp_bind
  proof (rule wp_rcall)
    fix r c
    show "wp (case r of None \<Rightarrow> add_models rc ms | Some e \<Rightarrow> do {
          let modelErr = wrapf ''add supported model at index'' e;
          rollback \<leftarrow> rcall (rc_DeregisterWorker rc) (\<lambda>r. [EvDeregister r]);
          ret (Some (case rollback of None \<Rightarrow> modelErr | Some e2 \<Rightarrow> errors_Join modelErr (wrapf ''rollback deregister'' e2)))
        }) Q (s\<lparr>rs_chain := c, rs_log := [EvAddModel m r] @ rs_log s\<rparr>)"
    proof (cases r)
      case None
      show ?thesis unfolding None option.case
        by (rule Cons.IH, rule Cons.prems) (use model_txs_Cons in auto)
    next
      case (Some e)
      show ?thesis unfolding Some option.case Let_def wp_bind wp_ret
        by (rule wp_rcall, rule Cons.prems [OF _ model_txs_rollback]) (auto simp: logs_def)
    qed
  qed
qed

lemma logs_append: "logs s as s1 \<Longrightarrow> logs s1 bs s2 \<Longrightarrow> logs s (as @ bs) s2"
  by (simp add: logs_def)

lemma logs_rcall: "rs_log s' = e # rs_log s \<Longrightarrow> logs s [e] s'"
  by (simp add: logs_def)

text \<open>The transactions of registering with a chosen stake.\<close>

definition register_txs :: "hash list \<Rightarrow> byte list \<Rightarrow> int \<Rightarrow> go_error option \<Rightarrow> reg_event list \<Rightarrow> bool" where
  "register_txs models key stake r txs \<longleftrightarrow> 0 < stake \<and>
     (if r = None then txs = EvRegister key stake None # added models
      else (\<exists>e. txs = [EvRegister key stake (Some e)]) \<or>
        (\<exists>as m bs e d. models = as @ m # bs \<and> txs = EvRegister key stake None # added as @ [EvAddModel m (Some e), EvDeregister d]))"

text \<open>Where the stake comes from: the argument, or one read of the contract's minimum; none unless it is positive.\<close>

definition stake_from :: "int option \<Rightarrow> reg_event list \<Rightarrow> int option \<Rightarrow> bool" where
  "stake_from stake reads chosen \<longleftrightarrow>
     (case stake of
        Some v \<Rightarrow> reads = [] \<and> chosen = (if 0 < v then Some v else None)
      | None \<Rightarrow> \<exists>x. reads = [EvMinStake x] \<and>
          chosen = (case x of Inr (Some v) \<Rightarrow> if 0 < v then Some v else None | _ \<Rightarrow> None))"

lemma stake_from_pos: "stake_from stake reads (Some v) \<Longrightarrow> 0 < v"
proof (cases stake)
  case None
  assume "stake_from stake reads (Some v)"
  then obtain x :: "go_error + int option" where "Some v = (case x of Inr (Some v) \<Rightarrow> if 0 < v then Some v else None | _ \<Rightarrow> None)"
    using None by (auto simp: stake_from_def)
  then show ?thesis by (cases x) (auto split: option.splits if_splits)
qed (simp add: stake_from_def split: if_splits)

lemma wp_choose_stake:
  assumes "\<And>x s' q. logs s q s' \<Longrightarrow> stake_from stake q (case x of Inl e \<Rightarrow> None | Inr v \<Rightarrow> Some v) \<Longrightarrow> Q x s'"
  shows "wp (choose_stake rc stake) Q s"
proof (cases stake)
  case None
  have "Q x s'" if "rs_log s' = EvMinStake y # rs_log s"
      "(case x of Inl e \<Rightarrow> None | Inr v \<Rightarrow> Some v) = (case y of Inr (Some v) \<Rightarrow> if 0 < v then Some v else None | _ \<Rightarrow> None)" for x y s'
    using assms [OF logs_rcall [OF that(1)], of x] that(2) None by (simp add: stake_from_def)
  then show ?thesis using None
    by (auto simp: choose_stake_def wp_simps intro!: wp_rcall split: sum.splits option.splits)
next
  case (Some v)
  then show ?thesis using assms [of "[]" s] by (auto simp: choose_stake_def wp_simps stake_from_def)
qed

lemma valid_pubkey: "validateEncryptionPubKey key = None \<longleftrightarrow> length key = 65 \<and> hd key = 4"
  by (cases key) (auto simp: validateEncryptionPubKey_def P256UncompressedPubKeyLength_def P256UncompressedPrefix_def split: if_splits)

lemma wp_register:
  assumes "\<And>r s' evs. logs s evs s' \<Longrightarrow> register_txs ms key v r evs \<Longrightarrow> Q r s'" "0 < v"
  shows "wp (do {
      r \<leftarrow> rcall (rc_RegisterWorker rc key v) (\<lambda>r. [EvRegister key v r]);
      (case r of Some e \<Rightarrow> ret (Some (wrapf ''register worker'' e)) | None \<Rightarrow> add_models rc ms) }) Q s"
  unfolding wp_bind
proof (rule wp_rcall)
  fix r c
  let ?s = "s\<lparr>rs_chain := c, rs_log := [EvRegister key v r] @ rs_log s\<rparr>"
  have l: "logs s [EvRegister key v r] ?s" by (simp add: logs_def)
  show "wp (case r of None \<Rightarrow> add_models rc ms | Some e \<Rightarrow> ret (Some (wrapf ''register worker'' e))) Q ?s"
  proof (cases r)
    case None
    show ?thesis unfolding None option.case
    proof (rule wp_add_models)
      fix r' evs s'
      assume "logs (s\<lparr>rs_chain := c, rs_log := [EvRegister key v None] @ rs_log s\<rparr>) evs s'" "model_txs ms r' evs"
      then show "Q r' s'" using logs_append [OF l] None assms(2)
        by (intro assms(1) [of "EvRegister key v None # evs"]) (auto simp: register_txs_def model_txs_def split: if_splits)
    qed
  next
    case (Some e)
    then show ?thesis using assms(1) [OF l] assms(2) by (simp add: wp_simps register_txs_def)
  qed
qed

text \<open>
  The calls of one EnsureRegistered, for every answer: a malformed key stops it before any read; a failed read of the
  registration stops it; a registered worker's key is read and compared; an unregistered worker is registered.
\<close>

definition ensure_calls :: "RegistrationManager \<Rightarrow> byte list \<Rightarrow> int option \<Rightarrow> go_error option \<Rightarrow> reg_event list \<Rightarrow> bool" where
  "ensure_calls m key stake r evs \<longleftrightarrow>
     (if length key = 65 \<and> hd key = 4
      then \<exists>x rest. evs = EvIsRegistered (rm_workerAddr m) x # rest \<and>
        (case x of
           Inl e \<Rightarrow> rest = [] \<and> r \<noteq> None
         | Inr True \<Rightarrow> (\<exists>k. rest = [EvWorkerKey (rm_workerAddr m) k] \<and> (r = None \<longleftrightarrow> k = Inr key))
         | Inr False \<Rightarrow> (\<exists>reads chosen txs. rest = reads @ txs \<and> stake_from stake reads chosen \<and>
             (case chosen of None \<Rightarrow> txs = [] \<and> r \<noteq> None | Some v \<Rightarrow> register_txs (rm_modelIDs m) key v r txs)))
      else evs = [] \<and> r \<noteq> None)"

lemma wp_unregistered:
  assumes "\<And>r s' reads chosen txs. logs s (reads @ txs) s' \<Longrightarrow> stake_from stake reads chosen \<Longrightarrow>
      (case chosen of None \<Rightarrow> txs = [] \<and> r \<noteq> None | Some v \<Rightarrow> register_txs ms key v r txs) \<Longrightarrow> Q r s'"
  shows "wp (do {
      st \<leftarrow> choose_stake rc stake;
      (case st of
         Inl e \<Rightarrow> ret (Some e)
       | Inr v \<Rightarrow> do {
           r \<leftarrow> rcall (rc_RegisterWorker rc key v) (\<lambda>r. [EvRegister key v r]);
           (case r of Some e \<Rightarrow> ret (Some (wrapf ''register worker'' e)) | None \<Rightarrow> add_models rc ms) }) }) Q s"
  unfolding wp_bind
proof (rule wp_choose_stake)
  fix x :: "go_error + int" and s1 q
  assume q: "logs s q s1" "stake_from stake q (case x of Inl e \<Rightarrow> None | Inr v \<Rightarrow> Some v)"
  show "wp (case x of Inl e \<Rightarrow> ret (Some e) | Inr v \<Rightarrow> do {
           r \<leftarrow> rcall (rc_RegisterWorker rc key v) (\<lambda>r. [EvRegister key v r]);
           (case r of Some e \<Rightarrow> ret (Some (wrapf ''register worker'' e)) | None \<Rightarrow> add_models rc ms) }) Q s1"
  proof (cases x)
    case (Inl e)
    then show ?thesis using assms [of q "[]" s1 None "Some e"] q by (simp add: wp_simps)
  next
    case (Inr v)
    show ?thesis unfolding Inr sum.case
      by (rule wp_register, rule assms [OF logs_append [OF q(1)] q(2)]) (use q(2) stake_from_pos in \<open>auto simp: Inr\<close>)
  qed
qed

lemma wp_EnsureRegistered:
  "wp (EnsureRegistered rc m key stake) (\<lambda>r s'. \<exists>evs. logs s evs s' \<and> ensure_calls m key stake r evs) s"
proof (cases "validateEncryptionPubKey key")
  case (Some e)
  then have "\<not> (length key = 65 \<and> hd key = 4)" using valid_pubkey [of key] by simp
  then show ?thesis using Some by (auto simp: EnsureRegistered_def wp_simps ensure_calls_def intro!: exI [of _ "[]"])
next
  case None
  then have key: "length key = 65 \<and> hd key = 4" by (simp add: valid_pubkey)
  let ?P = "\<lambda>r s'. \<exists>evs. logs s evs s' \<and> ensure_calls m key stake r evs"
  show ?thesis unfolding EnsureRegistered_def None option.case wp_bind
  proof (rule wp_rcall)
    fix x c
    define s1 where "s1 = s\<lparr>rs_chain := c, rs_log := [EvIsRegistered (rm_workerAddr m) x] @ rs_log s\<rparr>"
    have l: "logs s [EvIsRegistered (rm_workerAddr m) x] s1" by (simp add: logs_def s1_def)
    have post: "?P r s'" if "logs s1 rest s'" "ensure_calls m key stake r (EvIsRegistered (rm_workerAddr m) x # rest)" for r s' rest
      using logs_append [OF l that(1)] that(2) by auto
    consider (err) e where "x = Inl e" | (reg) "x = Inr True" | (unreg) "x = Inr False" by (cases x) auto
    then show "wp (case x of Inl e \<Rightarrow> ret (Some (wrapf ''check registration status'' e))
           | Inr True \<Rightarrow> do {
               onChainKey \<leftarrow> rcall (rc_GetWorkerEncryptionKey rc (rm_workerAddr m)) (\<lambda>r. [EvWorkerKey (rm_workerAddr m) r]);
               ret (case onChainKey of
                      Inl e \<Rightarrow> Some (wrapf ''fetch on-chain encryption key'' e)
                    | Inr k \<Rightarrow> if k \<noteq> key then Some key_mismatch else None) }
           | Inr False \<Rightarrow> do {
               st \<leftarrow> choose_stake rc stake;
               (case st of
                  Inl e \<Rightarrow> ret (Some e)
                | Inr v \<Rightarrow> do {
                    r \<leftarrow> rcall (rc_RegisterWorker rc key v) (\<lambda>r. [EvRegister key v r]);
                    (case r of Some e \<Rightarrow> ret (Some (wrapf ''register worker'' e)) | None \<Rightarrow> add_models rc (rm_modelIDs m)) }) })
        ?P (s\<lparr>rs_chain := c, rs_log := [EvIsRegistered (rm_workerAddr m) x] @ rs_log s\<rparr>)"
    proof cases
      case err
      have "?P (Some (wrapf ''check registration status'' e)) s1"
        using key err by (intro post [of "[]"]) (simp_all add: ensure_calls_def)
      then show ?thesis unfolding s1_def [symmetric] unfolding err by (simp add: wp_ret)
    next
      case reg
      have "?P (case k of Inl e \<Rightarrow> Some (wrapf ''fetch on-chain encryption key'' e) | Inr k' \<Rightarrow> if k' \<noteq> key then Some key_mismatch else None)
          (s1\<lparr>rs_chain := c', rs_log := [EvWorkerKey (rm_workerAddr m) k] @ rs_log s1\<rparr>)" for k c'
        using key reg by (intro post [of "[EvWorkerKey (rm_workerAddr m) k]"]) (auto simp: logs_def ensure_calls_def split: sum.splits)
      then show ?thesis unfolding s1_def [symmetric] unfolding reg sum.case bool.case wp_bind by (intro wp_rcall) (simp add: wp_simps)
    next
      case unreg
      show ?thesis unfolding s1_def [symmetric] unfolding unreg sum.case bool.case
      proof (rule wp_unregistered)
        fix r s' reads chosen txs
        assume "logs s1 (reads @ txs) s'" "stake_from stake reads chosen"
          "case chosen of None \<Rightarrow> txs = [] \<and> r \<noteq> None | Some v \<Rightarrow> register_txs (rm_modelIDs m) key v r txs"
        then show "?P r s'" using key unreg by (intro post [of "reads @ txs"]) (auto simp: ensure_calls_def)
      qed
    qed
  qed
qed

section \<open>Capability masks\<close>

definition known_masks :: "reg_event list \<Rightarrow> 256 word" where
  "known_masks evs = foldr (\<lambda>e w. case e of EvMask _ (Inr b) \<Rightarrow> b OR w | _ \<Rightarrow> w) evs 0"

definition all_known :: "reg_event list \<Rightarrow> bool" where
  "all_known evs \<longleftrightarrow> list_all (\<lambda>e. case e of EvMask _ (Inl _) \<Rightarrow> False | _ \<Rightarrow> True) evs"

definition mask_reads :: "string list \<Rightarrow> reg_event list \<Rightarrow> bool" where
  "mask_reads names evs \<longleftrightarrow> list_all2 (\<lambda>n e. \<exists>r. e = EvMask n r) names evs"

lemma wp_lookup_masks:
  "(\<And>evs s'. logs s evs s' \<Longrightarrow> mask_reads names evs \<Longrightarrow> Q (want OR known_masks evs, resolved \<and> all_known evs) s') \<Longrightarrow>
   wp (lookup_masks rc names want resolved) Q s"
proof (induction names arbitrary: s want resolved)
  case Nil
  then show ?case using Nil [of "[]" s] by (simp add: wp_simps mask_reads_def known_masks_def all_known_def)
next
  case (Cons n names)
  have step: "wp (lookup_masks rc names w b) Q (s\<lparr>rs_chain := c, rs_log := EvMask n r # rs_log s\<rparr>)"
    if wb: "\<And>evs. w OR known_masks evs = want OR known_masks (EvMask n r # evs)" "\<And>evs. (b \<and> all_known evs) = (resolved \<and> all_known (EvMask n r # evs))"
    for r c w b
  proof (rule Cons.IH)
    fix evs s' assume "logs (s\<lparr>rs_chain := c, rs_log := EvMask n r # rs_log s\<rparr>) evs s'" "mask_reads names evs"
    then have "Q (want OR known_masks (EvMask n r # evs), resolved \<and> all_known (EvMask n r # evs)) s'"
      by (intro Cons.prems) (auto simp: mask_reads_def)
    then show "Q (w OR known_masks evs, b \<and> all_known evs) s'" by (simp only: wb)
  qed
  show ?case
    by (auto simp: wp_simps known_masks_def all_known_def or.assoc intro!: wp_rcall step split: sum.splits)
qed

definition caps_target :: "reg_event list \<Rightarrow> 256 word \<Rightarrow> 256 word" where
  "caps_target reads now = (if all_known reads then known_masks reads else now OR known_masks reads)"

definition caps_sent :: "reg_event list \<Rightarrow> go_error + 256 word \<Rightarrow> reg_event list \<Rightarrow> bool" where
  "caps_sent reads cur sent \<longleftrightarrow>
     (case cur of
        Inl e \<Rightarrow> sent = []
      | Inr now \<Rightarrow> if caps_target reads now = now then sent = [] else \<exists>r. sent = [EvSetCapabilities (caps_target reads now) r])"

lemma wp_EnsureCapabilities:
  "wp (EnsureCapabilities rc m names)
     (\<lambda>_ s'. \<exists>reads cur sent. logs s (reads @ EvCapabilities cur # sent) s' \<and> mask_reads names reads \<and> caps_sent reads cur sent) s"
  unfolding EnsureCapabilities_def wp_bind
proof (rule wp_lookup_masks)
  fix reads s1
  assume a: "logs s reads s1" "mask_reads names reads"
  have post: "\<exists>reads' cur' sent'. logs s (reads' @ EvCapabilities cur' # sent') s2 \<and> mask_reads names reads' \<and> caps_sent reads' cur' sent'"
    if "rs_log s2 = rev sent @ EvCapabilities cur # rs_log s1" "caps_sent reads cur sent" for cur sent s2
    using a that by (intro exI [of _ reads] exI [of _ cur] exI [of _ sent]) (simp add: logs_def)
  show "wp (rcall (rc_GetWorkerCapabilities rc (rm_workerAddr m)) (\<lambda>r. [EvCapabilities r]))
     (\<lambda>x. wp (case x of Inl e \<Rightarrow> ret () | Inr cur \<Rightarrow> do {
          let target = (case (0 OR known_masks reads, True \<and> all_known reads) of (want, resolvedAll) \<Rightarrow> if resolvedAll then want else cur OR want);
          if target = cur then ret ()
          else do { _ \<leftarrow> rcall (rc_SetCapabilities rc target) (\<lambda>r. [EvSetCapabilities target r]); ret () } })
        (\<lambda>_ s'. \<exists>reads cur sent. logs s (reads @ EvCapabilities cur # sent) s' \<and> mask_reads names reads \<and> caps_sent reads cur sent)) s1"
  proof (rule wp_rcall)
    fix cur c
    show "wp (case cur of Inl e \<Rightarrow> ret () | Inr cur \<Rightarrow> do {
          let target = (case (0 OR known_masks reads, True \<and> all_known reads) of (want, resolvedAll) \<Rightarrow> if resolvedAll then want else cur OR want);
          if target = cur then ret ()
          else do { _ \<leftarrow> rcall (rc_SetCapabilities rc target) (\<lambda>r. [EvSetCapabilities target r]); ret () } })
        (\<lambda>_ s'. \<exists>reads cur sent. logs s (reads @ EvCapabilities cur # sent) s' \<and> mask_reads names reads \<and> caps_sent reads cur sent)
        (s1\<lparr>rs_chain := c, rs_log := [EvCapabilities cur] @ rs_log s1\<rparr>)"
    proof (cases cur)
      case (Inl e)
      then show ?thesis using post [of _ "[]" cur] by (simp add: wp_simps caps_sent_def)
    next
      case (Inr now)
      have "wp (if caps_target reads now = now then ret ()
          else do { _ \<leftarrow> rcall (rc_SetCapabilities rc (caps_target reads now)) (\<lambda>r. [EvSetCapabilities (caps_target reads now) r]); ret () })
        (\<lambda>_ s'. \<exists>reads cur sent. logs s (reads @ EvCapabilities cur # sent) s' \<and> mask_reads names reads \<and> caps_sent reads cur sent)
        (s1\<lparr>rs_chain := c, rs_log := [EvCapabilities cur] @ rs_log s1\<rparr>)"
      proof (cases "caps_target reads now = now")
        case True
        then show ?thesis using Inr by (simp add: wp_simps post [of _ "[]" "Inr now"] caps_sent_def [of reads "Inr now"])
      next
        case False
        then have "caps_sent reads cur [EvSetCapabilities (caps_target reads now) r]" for r using Inr by (simp add: caps_sent_def)
        then have "wp (rcall (rc_SetCapabilities rc (caps_target reads now)) (\<lambda>r. [EvSetCapabilities (caps_target reads now) r]))
          (\<lambda>_ s'. \<exists>reads cur sent. logs s (reads @ EvCapabilities cur # sent) s' \<and> mask_reads names reads \<and> caps_sent reads cur sent)
          (s1\<lparr>rs_chain := c, rs_log := [EvCapabilities cur] @ rs_log s1\<rparr>)"
          by (intro wp_rcall post [where cur = cur]) simp_all
        then show ?thesis using False by (simp add: wp_simps)
      qed
      moreover have "(case (0 OR known_masks reads, True \<and> all_known reads) of (want, resolvedAll) \<Rightarrow> if resolvedAll then want else now OR want) =
          caps_target reads now" by (simp add: caps_target_def)
      ultimately show ?thesis unfolding Inr by (simp only: sum.case Let_def)
    qed
  qed
qed

section \<open>Properties\<close>

text \<open>A registry: whether the worker is registered, its mask; model 2 is not in the catalogue, the search capability cannot be resolved.\<close>

definition demo_registry :: "(bool \<times> 256 word) reg_client" where
  "demo_registry = \<lparr>rc_IsWorkerRegistered = \<lambda>a c. (Inr (fst c), c), rc_GetWorkerEncryptionKey = \<lambda>a c. (Inr [], c),
     rc_GetMinWorkerStake = \<lambda>c. (Inr (Some 5), c), rc_RegisterWorker = \<lambda>k v c. (None, (True, snd c)),
     rc_AddSupportedModel = \<lambda>m c. (if m = 2 then Some (errorf ''unknown model'') else None, c),
     rc_DeregisterWorker = \<lambda>c. (None, (False, snd c)),
     rc_GetCapabilityMask = \<lambda>n c. (if n = ''search'' then Inl (errorf ''rpc'') else Inr 1, c),
     rc_GetWorkerCapabilities = \<lambda>a c. (Inr (snd c), c), rc_SetCapabilities = \<lambda>b c. (None, (fst c, b))\<rparr>"

abbreviation demo_key65 :: "byte list" where
  "demo_key65 \<equiv> 4 # replicate 64 9"

text \<open>
  The capability declaration never takes away what it does not know about. EnsureCapabilities reads the
  mask of every desired name and the worker's mask and then sends at most one transaction; it sends one
  exactly when the target differs from the current mask; the target is the union of the masks of the
  desired names when every lookup succeeded (capabilities no longer wanted are cleared), and otherwise
  keeps every current bit and adds the known ones.
\<close>

theorem capabilities_synced:
  assumes "run_state (EnsureCapabilities rc m names) s = (x, s')"
  shows "\<exists>reads cur sent. logs s (reads @ EvCapabilities cur # sent) s' \<and> mask_reads names reads \<and>
    (case cur of
       Inl e \<Rightarrow> sent = []
     | Inr now \<Rightarrow> (\<exists>target. (if target = now then sent = [] else \<exists>r. sent = [EvSetCapabilities target r]) \<and>
         (if all_known reads then target = known_masks reads else target = now OR known_masks reads \<and> target AND now = now)))"
proof -
  have keep: "(now OR w) AND now = now" for now w :: "256 word" by (auto simp: bit_eq_iff bit_simps)
  obtain reads cur sent where r: "logs s (reads @ EvCapabilities cur # sent) s'" "mask_reads names reads" "caps_sent reads cur sent"
    using wp_run [OF wp_EnsureCapabilities assms] by blast
  show ?thesis
  proof (intro exI conjI)
    show "case cur of Inl e \<Rightarrow> sent = [] | Inr now \<Rightarrow> (\<exists>target. (if target = now then sent = [] else \<exists>r. sent = [EvSetCapabilities target r]) \<and>
         (if all_known reads then target = known_masks reads else target = now OR known_masks reads \<and> target AND now = now))"
    proof (cases cur)
      case (Inr now)
      have "if all_known reads then caps_target reads now = known_masks reads
          else caps_target reads now = now OR known_masks reads \<and> caps_target reads now AND now = now"
        using keep by (simp add: caps_target_def)
      then show ?thesis using r(3) unfolding Inr sum.case caps_sent_def by blast
    qed (use r(3) in \<open>simp add: caps_sent_def\<close>)
  qed (rule r)+
qed

text \<open>
  C24. What EnsureRegistered does, for every answer of the chain. A public key that is not 65 bytes starting with 4 is refused before
  anything is read. The first call reads the registration of the worker's address. When the read fails, so does the call, with
  nothing sent. When the address is registered, its on-chain key is read, nothing is sent, and the call succeeds exactly when that key is
  the local one (the models it serves are not looked at). When it is not registered, the stake is the given one or the
  contract's minimum, read once; without a positive stake the call fails with nothing sent; otherwise it sends registerWorker with the key
  and that stake, and, if that succeeded, adds the configured models in order: it succeeds exactly when all were added, and
  when one fails it sends nothing more than the deregistration that follows at once.
\<close>

theorem registration_all_or_nothing:
  assumes "run_state (EnsureRegistered rc m key stake) s = (r, s')"
  shows "\<exists>evs. logs s evs s' \<and>
    (if length key = 65 \<and> hd key = 4
     then \<exists>x rest. evs = EvIsRegistered (rm_workerAddr m) x # rest \<and>
       (case x of
          Inl e \<Rightarrow> rest = [] \<and> r \<noteq> None
        | Inr True \<Rightarrow> (\<exists>k. rest = [EvWorkerKey (rm_workerAddr m) k] \<and> (r = None \<longleftrightarrow> k = Inr key))
        | Inr False \<Rightarrow> (\<exists>reads chosen txs. rest = reads @ txs \<and> stake_from stake reads chosen \<and>
            (case chosen of
               None \<Rightarrow> txs = [] \<and> r \<noteq> None
             | Some v \<Rightarrow> 0 < v \<and>
                 (if r = None then txs = EvRegister key v None # added (rm_modelIDs m)
                  else (\<exists>e. txs = [EvRegister key v (Some e)]) \<or>
                    (\<exists>as y bs e d. rm_modelIDs m = as @ y # bs \<and> txs = EvRegister key v None # added as @ [EvAddModel y (Some e), EvDeregister d])))))
     else evs = [] \<and> r \<noteq> None)"
proof -
  obtain evs where "logs s evs s'" "ensure_calls m key stake r evs" using wp_run [OF wp_EnsureRegistered assms] by blast
  then show ?thesis unfolding ensure_calls_def register_txs_def by blast
qed

theorem capabilities_synced_witness:
  "\<exists>reads r. rs_log (snd (run_state (EnsureCapabilities demo_registry \<lparr>rm_workerAddr = 1, rm_modelIDs = []\<rparr> (DesiredCapabilities True))
     \<lparr>rs_chain = (True, 2), rs_log = []\<rparr>)) = [EvSetCapabilities 3 r, EvCapabilities (Inr 2)] @ reads"
proof -
  let ?m = "EnsureCapabilities demo_registry \<lparr>rm_workerAddr = 1, rm_modelIDs = []\<rparr> (DesiredCapabilities True)"
  have run: "run_state ?m \<lparr>rs_chain = (True, 2), rs_log = []\<rparr> = ((), snd (run_state ?m \<lparr>rs_chain = (True, 2), rs_log = []\<rparr>))" by (simp add: prod_eq_iff)
  have log: "rs_log (snd (run_state ?m \<lparr>rs_chain = (True, 2), rs_log = []\<rparr>)) =
      [EvSetCapabilities 3 None, EvCapabilities (Inr 2), EvMask ''search'' (Inl (errorf ''rpc'')), EvMask ''self-contained'' (Inr 1)]"
    by (simp add: EnsureCapabilities_def DesiredCapabilities_def SelfContainedCapability_def SearchCapability_def rcall_def demo_registry_def)
  show ?thesis using capabilities_synced [OF run] by (auto simp: logs_def log)
qed

lemma rollback_run:
  "(case run_state (EnsureRegistered demo_registry \<lparr>rm_workerAddr = 1, rm_modelIDs = [1, 2, 3]\<rparr> demo_key65 None) \<lparr>rs_chain = (False, 0), rs_log = []\<rparr> of
      (r, s') \<Rightarrow> r \<noteq> None \<and> rs_log s' = [EvDeregister None, EvAddModel 2 (Some (errorf ''unknown model'')), EvAddModel 1 None,
        EvRegister demo_key65 5 None, EvMinStake (Inr (Some 5)), EvIsRegistered 1 (Inr False)])"
  by (simp add: EnsureRegistered_def validateEncryptionPubKey_def P256UncompressedPubKeyLength_def P256UncompressedPrefix_def
      choose_stake_def attempt_def map_err_def rcall_def demo_registry_def Let_def)

theorem registration_all_or_nothing_witness:
  "\<exists>r s' as y bs. run_state (EnsureRegistered demo_registry \<lparr>rm_workerAddr = 1, rm_modelIDs = [1, 2, 3]\<rparr> demo_key65 None)
      \<lparr>rs_chain = (False, 0), rs_log = []\<rparr> = (r, s') \<and> [1, 2, 3] = as @ y # bs \<and>
    rev (rs_log s') = [EvIsRegistered 1 (Inr False), EvMinStake (Inr (Some 5)), EvRegister demo_key65 5 None] @
      added as @ [EvAddModel y (Some (errorf ''unknown model'')), EvDeregister None]"
proof -
  obtain r s' where run: "run_state (EnsureRegistered demo_registry \<lparr>rm_workerAddr = 1, rm_modelIDs = [1, 2, 3]\<rparr> demo_key65 None)
      \<lparr>rs_chain = (False, 0), rs_log = []\<rparr> = (r, s')" by (meson surj_pair)
  have log: "r \<noteq> None" "rev (rs_log s') = [EvIsRegistered 1 (Inr False), EvMinStake (Inr (Some 5)), EvRegister demo_key65 5 None,
      EvAddModel 1 None, EvAddModel 2 (Some (errorf ''unknown model'')), EvDeregister None]"
    using rollback_run unfolding run by simp_all
  obtain evs where evs: "evs = rev (rs_log s')" and "\<exists>x rest. evs = EvIsRegistered 1 x # rest \<and>
       (x = Inr False \<longrightarrow> (\<exists>reads chosen txs. rest = reads @ txs \<and> stake_from None reads chosen \<and>
          (case chosen of None \<Rightarrow> txs = [] | Some v \<Rightarrow> (\<exists>e. txs = [EvRegister demo_key65 v (Some e)]) \<or>
             (\<exists>as y bs e d. [1, 2, 3] = as @ y # bs \<and> txs = EvRegister demo_key65 v None # added as @ [EvAddModel y (Some e), EvDeregister d]))))"
    using registration_all_or_nothing [OF run] log(1) by (fastforce simp: logs_def split: option.splits)
  then show ?thesis using run log(2) unfolding evs stake_from_def
    by (fastforce split: option.splits)
qed

end
