(* ===== verification/Gateway_Client.thy ===== *)
theory Gateway_Client
  imports Job_Monad Pipeline_Types Cursor_Store
begin

text \<open>
  The worker-gateway client (internal/gateway/client.go) and the job stream over its WebSocket
  (internal/gateway/websocket.go).

  \<open>gw_net\<close> answers an HTTP exchange with the status and body of the response or the transport error, dials the
  WebSocket and reads the clock, from a state of its own. \<open>gw_lib\<close> holds JSON decoding,
  RFC 3339 parsing and the secp256k1 signature over the hash of a message. \<open>gs_log\<close> records the requests
  with the token they carry, newest first. A body that cannot be read
  further counts as a decoding error.
\<close>

section \<open>State\<close>

record gw_heartbeat =
  gh_ActiveJobs :: int
  gh_MaxJobs :: int
  gh_Models :: "string list"
  gh_Capabilities :: "string list"
  gh_ProtocolVersion :: int
  gh_OllamaStatus :: string
  gh_Uptime :: int

datatype gw_body =
    NoBody
  | VerifyBody string string
  | HeartbeatBody gw_heartbeat
  | ResponseBody u64 u32 u32 "byte list" string string

datatype gw_event =
    EvGet string string
  | EvPost string gw_body string
  | EvDial string string

record gw_lib =
  gl_decodeChallenge :: "string \<Rightarrow> go_error + string"
  gl_decodeAuth :: "string \<Rightarrow> go_error + string \<times> string"
  gl_decodeJob :: "string \<Rightarrow> go_error + JobPayload"
  gl_parseRFC3339 :: "string \<Rightarrow> go_error + int"
  gl_Keccak256 :: "byte list \<Rightarrow> byte list"
  gl_Sign :: "byte list \<Rightarrow> go_error + byte list"
  gl_durationString :: "int \<Rightarrow> string"

record 'c gw_net =
  gn_get :: "string \<Rightarrow> string \<Rightarrow> 'c \<Rightarrow> (go_error + int \<times> string) \<times> 'c"
  gn_post :: "string \<Rightarrow> gw_body \<Rightarrow> string \<Rightarrow> 'c \<Rightarrow> (go_error + int \<times> string) \<times> 'c"
  gn_now :: "'c \<Rightarrow> int \<times> 'c"
  gn_dial :: "string \<Rightarrow> string \<Rightarrow> 'c \<Rightarrow> go_error option \<times> 'c"

record 'c gw_st =
  gs_net :: 'c
  gs_baseURL :: string
  gs_token :: string
  gs_expiresAt :: int
  gs_log :: "gw_event list"

definition gcall :: "('c \<Rightarrow> 'x \<times> 'c) \<Rightarrow> gw_event list \<Rightarrow> ('c gw_st, 'x) prog" where
  "gcall f ev = State (\<lambda>s. case f (gs_net s) of (x, c) \<Rightarrow> (x, s\<lparr>gs_net := c, gs_log := ev @ gs_log s\<rparr>))"

definition getToken :: "('c gw_st, string) prog" where
  "getToken = State (\<lambda>s. (gs_token s, s))"

definition set_auth :: "string \<Rightarrow> int \<Rightarrow> ('c gw_st, unit) prog" where
  "set_auth token expiry = State (\<lambda>s. ((), s\<lparr>gs_token := token, gs_expiresAt := expiry\<rparr>))"

fun TrimRightSlash :: "string \<Rightarrow> string" where
  "TrimRightSlash s = rev (dropWhile (\<lambda>c. c = CHR ''/'') (rev s))"

definition NewClient :: "'c \<Rightarrow> string \<Rightarrow> 'c gw_st" where
  "NewClient c baseURL = \<lparr>gs_net = c, gs_baseURL = TrimRightSlash baseURL, gs_token = [], gs_expiresAt = 0, gs_log = []\<rparr>"

section \<open>HTTP\<close>

definition doGet :: "'c gw_net \<Rightarrow> string \<Rightarrow> string \<Rightarrow> ('c gw_st, go_error + int \<times> string) prog" where
  "doGet net path token = do { s \<leftarrow> State_Monad.get; gcall (gn_get net (gs_baseURL s @ path) token) [EvGet (gs_baseURL s @ path) token] }"

definition doPost :: "'c gw_net \<Rightarrow> string \<Rightarrow> gw_body \<Rightarrow> string \<Rightarrow> ('c gw_st, go_error + int \<times> string) prog" where
  "doPost net path body token = do {
     s \<leftarrow> State_Monad.get;
     gcall (gn_post net (gs_baseURL s @ path) body token) [EvPost (gs_baseURL s @ path) body token]
   }"

definition personal_message :: "string \<Rightarrow> string" where
  "personal_message m = [CHR 0x19] @ ''Ethereum Signed Message:'' @ [CHR 0x0A] @ FormatUint (length m) @ m"

text \<open>go-ethereum signatures are 65 bytes; V goes from 0/1 to 27/28.\<close>

definition normalize_v :: "byte list \<Rightarrow> byte list" where
  "normalize_v sig = sig[64 := sig ! 64 + 27]"

definition Authenticate :: "gw_lib \<Rightarrow> 'c gw_net \<Rightarrow> ('c gw_st, go_error option) prog" where
  "Authenticate lib net = do {
     challengeResp \<leftarrow> doGet net ''/api/auth/challenge'' [];
     (case challengeResp of
        Inl e \<Rightarrow> ret (Some (wrapf ''get challenge'' e))
      | Inr (_, body) \<Rightarrow>
          (case gl_decodeChallenge lib body of
             Inl e \<Rightarrow> ret (Some (wrapf ''decode challenge'' e))
           | Inr message \<Rightarrow>
               (case gl_Sign lib (gl_Keccak256 lib (string_bytes (personal_message message))) of
                  Inl e \<Rightarrow> ret (Some (wrapf ''sign challenge'' e))
                | Inr sig \<Rightarrow> do {
                    verifyResp \<leftarrow> doPost net ''/api/auth/verify'' (VerifyBody message (''0x'' @ hex_EncodeToString (normalize_v sig))) [];
                    (case verifyResp of
                       Inl e \<Rightarrow> ret (Some (wrapf ''verify signature'' e))
                     | Inr (status, vbody) \<Rightarrow>
                         if status \<noteq> 200 then ret (Some (errorf ''auth verify failed''))
                         else case gl_decodeAuth lib vbody of
                           Inl e \<Rightarrow> ret (Some (wrapf ''decode auth response'' e))
                         | Inr (token, expiresAt) \<Rightarrow> do {
                             expiry \<leftarrow> (case gl_parseRFC3339 lib expiresAt of
                                Inr t \<Rightarrow> ret t
                              | Inl e \<Rightarrow> do { now \<leftarrow> gcall (gn_now net) []; ret (now + 30 * Minute) });
                             _ \<leftarrow> set_auth token expiry;
                             ret None
                           })
                  })))
   }"

definition needs_refresh :: "'c gw_st \<Rightarrow> int \<Rightarrow> bool" where
  "needs_refresh s now \<longleftrightarrow> gs_token s = [] \<or> gs_expiresAt s - now < 5 * Minute"

definition ensureAuth :: "gw_lib \<Rightarrow> 'c gw_net \<Rightarrow> ('c gw_st, go_error option) prog" where
  "ensureAuth lib net = do {
     s \<leftarrow> State_Monad.get;
     now \<leftarrow> (if gs_token s = [] then ret 0 else gcall (gn_now net) []);
     if needs_refresh s now then Authenticate lib net else ret None
   }"

text \<open>The calls that expect 204 and differ in path, body and wording.\<close>

definition post_expecting_204 :: "gw_lib \<Rightarrow> 'c gw_net \<Rightarrow> string \<Rightarrow> string \<Rightarrow> string \<Rightarrow> gw_body \<Rightarrow> ('c gw_st, go_error option) prog" where
  "post_expecting_204 lib net what failed path body = do {
     auth \<leftarrow> ensureAuth lib net;
     (case auth of
        Some e \<Rightarrow> ret (Some (wrapf ''auth'' e))
      | None \<Rightarrow> do {
          token \<leftarrow> getToken;
          resp \<leftarrow> doPost net path body token;
          ret (case resp of
                 Inl e \<Rightarrow> Some (wrapf what e)
               | Inr (status, _) \<Rightarrow> if status \<noteq> 204 then Some (errorf failed) else None)
        })
   }"

definition SendHeartbeat :: "gw_lib \<Rightarrow> 'c gw_net \<Rightarrow> gw_heartbeat \<Rightarrow> ('c gw_st, go_error option) prog" where
  "SendHeartbeat lib net payload = post_expecting_204 lib net ''post heartbeat'' ''heartbeat failed'' ''/api/heartbeat'' (HeartbeatBody payload)"

definition SendDrain :: "gw_lib \<Rightarrow> 'c gw_net \<Rightarrow> ('c gw_st, go_error option) prog" where
  "SendDrain lib net = post_expecting_204 lib net ''post drain'' ''drain failed'' ''/api/worker/drain'' NoBody"

definition SendUndrain :: "gw_lib \<Rightarrow> 'c gw_net \<Rightarrow> ('c gw_st, go_error option) prog" where
  "SendUndrain lib net = post_expecting_204 lib net ''post undrain'' ''undrain failed'' ''/api/worker/undrain'' NoBody"

definition gw_PublishResponse :: "gw_lib \<Rightarrow> 'c gw_net \<Rightarrow> u64 \<Rightarrow> u64 \<Rightarrow> string \<Rightarrow> string \<Rightarrow> byte list \<Rightarrow> u32 \<Rightarrow> u32 \<Rightarrow> ('c gw_st, go_error option) prog" where
  "gw_PublishResponse lib net jobID sessionID correlationID signature payload sequence totalChunks =
     post_expecting_204 lib net ''post response'' ''response publish failed'' (''/api/jobs/'' @ FormatUint (unat jobID) @ ''/response'')
       (ResponseBody sessionID sequence totalChunks payload signature correlationID)"

definition PollJob :: "gw_lib \<Rightarrow> 'c gw_net \<Rightarrow> int \<Rightarrow> ('c gw_st, go_error + JobPayload option) prog" where
  "PollJob lib net timeout = do {
     auth \<leftarrow> ensureAuth lib net;
     (case auth of
        Some e \<Rightarrow> ret (Inl (wrapf ''auth'' e))
      | None \<Rightarrow> do {
          token \<leftarrow> getToken;
          resp \<leftarrow> doGet net (''/api/jobs/poll?timeout='' @ gl_durationString lib timeout) token;
          ret (case resp of
                 Inl e \<Rightarrow> Inl (wrapf ''poll job'' e)
               | Inr (status, body) \<Rightarrow>
                   if status = 204 then Inr None
                   else if status \<noteq> 200 then Inl (errorf ''poll failed'')
                   else case gl_decodeJob lib body of Inl e \<Rightarrow> Inl (wrapf ''decode job payload'' e) | Inr job \<Rightarrow> Inr (Some job))
        })
   }"

section \<open>The job socket\<close>

text \<open>strings.Replace with count 1.\<close>

fun replace_first :: "string \<Rightarrow> string \<Rightarrow> string \<Rightarrow> string" where
  "replace_first old new [] = (if old = [] then new else [])"
| "replace_first old new (c # cs) =
     (if take (length old) (c # cs) = old then new @ drop (length old) (c # cs) else c # replace_first old new cs)"

definition jobs_url :: "string \<Rightarrow> string" where
  "jobs_url baseURL = replace_first ''https://'' ''wss://'' (replace_first ''http://'' ''ws://'' baseURL) @ ''/api/jobs/stream''"

definition wsTypeReady :: string where "wsTypeReady = ''ready''"
definition wsTypeAck :: string where "wsTypeAck = ''ack''"
definition wsTypeDone :: string where "wsTypeDone = ''done''"
definition wsTypeJob :: string where "wsTypeJob = ''job''"

record wsOutgoing =
  wo_Type :: string
  wo_JobID :: u64
  wo_Slots :: int
  wo_Error :: string

record wsIncoming =
  wi_Type :: string
  wi_JobID :: u64
  wi_Payload :: string

text \<open>
  A session on the socket. Its inputs are the results of reading (an error, bytes that are no message, a
  message), each with the result of the write that may follow, and the ends of handlers, which run
  beside the read loop. \<open>wx_out\<close> lists the messages written, \<open>wx_jobs\<close> the jobs handed to the handler, both
  newest first.
\<close>

datatype ws_phase = WsOpen | WsDraining go_error | WsClosed go_error

record ws_sess =
  wx_phase :: ws_phase
  wx_inflight :: "u64 list"
  wx_out :: "wsOutgoing list"
  wx_jobs :: "(u64 \<times> JobPayload) list"

datatype ws_input =
    WsRead "go_error + wsIncoming option" "go_error option"
  | WsFinish u64 "go_error option" "go_error option"

definition settle_drain :: "ws_sess \<Rightarrow> ws_sess" where
  "settle_drain x = (case wx_phase x of WsDraining e \<Rightarrow> if wx_inflight x = [] then x\<lparr>wx_phase := WsClosed e\<rparr> else x | _ \<Rightarrow> x)"

definition ready_msg :: "int \<Rightarrow> wsOutgoing" where
  "ready_msg slots = \<lparr>wo_Type = wsTypeReady, wo_JobID = 0, wo_Slots = slots, wo_Error = []\<rparr>"

definition ack_msg :: "u64 \<Rightarrow> wsOutgoing" where
  "ack_msg jobID = \<lparr>wo_Type = wsTypeAck, wo_JobID = jobID, wo_Slots = 0, wo_Error = []\<rparr>"

definition done_msg :: "u64 \<Rightarrow> go_error option \<Rightarrow> wsOutgoing" where
  "done_msg jobID err = \<lparr>wo_Type = wsTypeDone, wo_JobID = jobID, wo_Slots = 0, wo_Error = (case err of None \<Rightarrow> [] | Some e \<Rightarrow> err_msg e)\<rparr>"

definition on_message :: "gw_lib \<Rightarrow> go_error option \<Rightarrow> wsIncoming \<Rightarrow> ws_sess \<Rightarrow> ws_sess" where
  "on_message lib writeErr msg x =
     (if wi_Type msg \<noteq> wsTypeJob then x
      else case gl_decodeJob lib (wi_Payload msg) of
        Inl e \<Rightarrow> x
      | Inr job \<Rightarrow>
          (case writeErr of
             Some e \<Rightarrow> settle_drain (x\<lparr>wx_phase := WsDraining (wrapf ''send ack for job'' e)\<rparr>)
           | None \<Rightarrow> x\<lparr>wx_out := ack_msg (wi_JobID msg) # wx_out x, wx_inflight := wi_JobID msg # wx_inflight x,
                       wx_jobs := (wi_JobID msg, job) # wx_jobs x\<rparr>))"

fun ws_step :: "gw_lib \<Rightarrow> ws_input \<Rightarrow> ws_sess \<Rightarrow> ws_sess" where
  "ws_step lib (WsRead r writeErr) x =
     (if wx_phase x \<noteq> WsOpen then x
      else case r of
        Inl e \<Rightarrow> settle_drain (x\<lparr>wx_phase := WsDraining (wrapf ''read'' e)\<rparr>)
      | Inr None \<Rightarrow> x
      | Inr (Some msg) \<Rightarrow> on_message lib writeErr msg x)"
| "ws_step lib (WsFinish jobID handlerErr writeErr) x =
     (if jobID \<notin> set (wx_inflight x) then x
      else settle_drain (x\<lparr>wx_inflight := remove1 jobID (wx_inflight x),
        wx_out := (if writeErr = None then done_msg jobID handlerErr # wx_out x else wx_out x)\<rparr>))"

definition ws_open :: "int \<Rightarrow> ws_sess" where
  "ws_open slots = \<lparr>wx_phase = WsOpen, wx_inflight = [], wx_out = [ready_msg slots], wx_jobs = []\<rparr>"

text \<open>streamOnce: authenticate, dial, send ready, then the session; \<open>readyErr\<close> is the result of writing the ready message.\<close>

definition connect_jobs :: "gw_lib \<Rightarrow> 'c gw_net \<Rightarrow> ('c gw_st, go_error option) prog" where
  "connect_jobs lib net = do {
     auth \<leftarrow> ensureAuth lib net;
     (case auth of
        Some e \<Rightarrow> ret (Some (wrapf ''auth'' e))
      | None \<Rightarrow> do {
          s \<leftarrow> State_Monad.get;
          r \<leftarrow> gcall (gn_dial net (jobs_url (gs_baseURL s)) (gs_token s)) [EvDial (jobs_url (gs_baseURL s)) (gs_token s)];
          ret (map_option (wrapf ''websocket dial'') r)
        })
   }"

definition streamOnce :: "gw_lib \<Rightarrow> 'c gw_net \<Rightarrow> int \<Rightarrow> go_error option \<Rightarrow> ws_input list \<Rightarrow> ('c gw_st, bool \<times> (go_error + ws_sess)) prog" where
  "streamOnce lib net slots readyErr ins = do {
     r \<leftarrow> connect_jobs lib net;
     ret (case r of
            Some e \<Rightarrow> (False, Inl e)
          | None \<Rightarrow>
              (case readyErr of
                 Some e \<Rightarrow> (True, Inl (wrapf ''send ready'' e))
               | None \<Rightarrow> (True, Inr (fold (ws_step lib) ins (ws_open slots)))))
   }"

text \<open>The delay before the next attempt, after a session that did or did not connect, and the following backoff.\<close>

definition stream_backoff :: "bool \<Rightarrow> int \<Rightarrow> int \<times> int" where
  "stream_backoff connected backoff =
     (let b = (if connected then Second else backoff); b2 = i64 (b * 2) in (b, if b2 > 30 * Second then 30 * Second else b2))"

fun stream_delays :: "bool list \<Rightarrow> int \<Rightarrow> int list" where
  "stream_delays [] backoff = []"
| "stream_delays (c # cs) backoff = (case stream_backoff c backoff of (d, b) \<Rightarrow> d # stream_delays cs b)"

section \<open>Sessions\<close>

definition msg_jobs :: "string \<Rightarrow> wsOutgoing list \<Rightarrow> u64 list" where
  "msg_jobs t ms = map wo_JobID (filter (\<lambda>m. wo_Type m = t) ms)"

lemma msg_jobs_Cons [simp]: "msg_jobs t (m # ms) = (if wo_Type m = t then wo_JobID m # msg_jobs t ms else msg_jobs t ms)"
  by (simp add: msg_jobs_def)

lemma msg_types [simp]:
  "wo_Type (ready_msg n) = ''ready''" "wo_Type (ack_msg j) = ''ack''" "wo_Type (done_msg j e) = ''done''"
  "wo_JobID (ack_msg j) = j" "wo_JobID (done_msg j e) = j" "wsTypeAck = ''ack''" "wsTypeDone = ''done''"
  by (simp_all add: ready_msg_def ack_msg_def done_msg_def wsTypeReady_def wsTypeAck_def wsTypeDone_def)

text \<open>Acknowledged jobs are the handled ones; each is in flight or was finished, and reported at most once.\<close>

definition ws_inv :: "bool \<Rightarrow> ws_sess \<Rightarrow> bool" where
  "ws_inv exact x \<longleftrightarrow> map fst (wx_jobs x) = msg_jobs wsTypeAck (wx_out x) \<and>
     (\<forall>j. count_list (msg_jobs wsTypeDone (wx_out x)) j + count_list (wx_inflight x) j \<le> count_list (map fst (wx_jobs x)) j) \<and>
     (exact \<longrightarrow> (\<forall>j. count_list (msg_jobs wsTypeDone (wx_out x)) j + count_list (wx_inflight x) j = count_list (map fst (wx_jobs x)) j)) \<and>
     (\<forall>e. wx_phase x = WsClosed e \<longrightarrow> wx_inflight x = [])"

lemma settle_drain_inv: "ws_inv exact x \<Longrightarrow> ws_inv exact (settle_drain x)"
  by (auto simp: settle_drain_def ws_inv_def split: ws_phase.splits)

lemma count_remove1: "j \<in> set xs \<Longrightarrow> count_list (remove1 j xs) i + (if i = j then 1 else 0) = count_list xs i"
  by (induction xs) auto

fun clean_finish :: "ws_input \<Rightarrow> bool" where
  "clean_finish (WsFinish j h w) \<longleftrightarrow> w = None"
| "clean_finish _ \<longleftrightarrow> True"

lemma finish_inv:
  assumes "ws_inv exact x" "j \<in> set (wx_inflight x)" "exact \<longrightarrow> w = None"
  shows "ws_inv exact (x\<lparr>wx_inflight := remove1 j (wx_inflight x), wx_out := (if w = None then done_msg j h # wx_out x else wx_out x)\<rparr>)"
proof -
  have c: "count_list (wx_inflight x) i = count_list (remove1 j (wx_inflight x)) i + (if i = j then 1 else 0)" for i
    using count_remove1 [OF assms(2)] by simp
  have "wx_phase x = WsClosed e \<Longrightarrow> remove1 j (wx_inflight x) = []" for e using assms(1) by (simp add: ws_inv_def)
  then show ?thesis using assms(1,3) unfolding ws_inv_def c by (auto split: if_splits)
qed

lemma on_message_inv: "ws_inv exact x \<Longrightarrow> wx_phase x = WsOpen \<Longrightarrow> ws_inv exact (on_message lib w m x)"
proof -
  assume inv: "ws_inv exact x" "wx_phase x = WsOpen"
  then have "ws_inv exact (x\<lparr>wx_phase := WsDraining e\<rparr>)" for e by (auto simp: ws_inv_def)
  moreover have "ws_inv exact (x\<lparr>wx_out := ack_msg j # wx_out x, wx_inflight := j # wx_inflight x, wx_jobs := (j, job) # wx_jobs x\<rparr>)" for j job
    using inv by (auto simp: ws_inv_def)
  ultimately show ?thesis using inv(1) by (auto simp: on_message_def intro!: settle_drain_inv split: sum.splits option.splits)
qed

lemma ws_step_inv: "ws_inv exact x \<Longrightarrow> (exact \<longrightarrow> clean_finish i) \<Longrightarrow> ws_inv exact (ws_step lib i x)"
proof (cases i)
  case (WsRead r w)
  assume "ws_inv exact x"
  moreover then have "ws_inv exact (x\<lparr>wx_phase := WsDraining e\<rparr>)" for e by (auto simp: ws_inv_def)
  ultimately show ?thesis using WsRead by (auto intro!: settle_drain_inv on_message_inv split: sum.splits option.splits)
next
  case (WsFinish j h w)
  assume "ws_inv exact x" "exact \<longrightarrow> clean_finish i"
  then show ?thesis using WsFinish finish_inv [of exact x j w h] settle_drain_inv by auto
qed

lemma ws_run_inv: "ws_inv exact x \<Longrightarrow> (exact \<longrightarrow> list_all clean_finish ins) \<Longrightarrow> ws_inv exact (fold (ws_step lib) ins x)"
  by (induction ins arbitrary: x) (auto simp: ws_step_inv)

text \<open>
  C28. Jobs over the WebSocket. In every session, whatever arrives and whenever handlers finish, the jobs handed to the
  handler are exactly those acknowledged, in the order of the acknowledgements. The reports of done and the handlers still running
  together never exceed the acknowledgements of a job; they are equal when no write of a done report failed (a failed one is
  only logged, so such a job is then neither running nor reported). The connection is closed only when no handler is running.
\<close>

theorem socket_session_accounts:
  assumes "run_state (streamOnce lib net slots readyErr ins) s = ((connected, Inr x), s')"
  shows "map fst (wx_jobs x) = msg_jobs wsTypeAck (wx_out x) \<and>
    (\<forall>j. count_list (msg_jobs wsTypeDone (wx_out x)) j + count_list (wx_inflight x) j \<le> count_list (map fst (wx_jobs x)) j) \<and>
    (list_all clean_finish ins \<longrightarrow>
      (\<forall>j. count_list (msg_jobs wsTypeDone (wx_out x)) j + count_list (wx_inflight x) j = count_list (map fst (wx_jobs x)) j)) \<and>
    (\<forall>e. wx_phase x = WsClosed e \<longrightarrow> wx_inflight x = [])"
proof -
  have x: "x = fold (ws_step lib) ins (ws_open slots)" using assms by (auto simp: streamOnce_def split: prod.splits option.splits)
  have "ws_inv b (ws_open slots)" for b by (simp add: ws_inv_def ws_open_def msg_jobs_def [of _ "[]"])
  then have "ws_inv (list_all clean_finish ins) x" unfolding x by (rule ws_run_inv) simp
  then show ?thesis unfolding ws_inv_def by blast
qed

definition demo_gw_lib :: gw_lib where
  "demo_gw_lib = \<lparr>gl_decodeChallenge = \<lambda>b. Inr b, gl_decodeAuth = \<lambda>b. Inr (''tok'', b), gl_decodeJob = \<lambda>b. if b = [] then Inl (errorf ''EOF'') else
       Inr \<lparr>jp_JobID = 7, jp_SessionID = 3, jp_Consumer = 1, jp_Worker = 2, jp_ModelID = b, jp_PromptBlobHash = 8, jp_BlockNumber = 1,
            jp_Timestamp = 0, jp_CorrelationID = [], jp_PriorJobIDs = []\<rparr>,
     gl_parseRFC3339 = \<lambda>t. Inl (errorf ''bad time''), gl_Keccak256 = id, gl_Sign = \<lambda>h. Inr (replicate 65 0), gl_durationString = \<lambda>t. ''30s''\<rparr>"

definition demo_net :: "int gw_net" where
  "demo_net = \<lparr>gn_get = \<lambda>p t c. (Inr (200, ''nonce''), c), gn_post = \<lambda>p b t c. (Inr (if t = [] then 200 else 204, ''soon''), c),
     gn_now = \<lambda>c. (c, c + 1), gn_dial = \<lambda>u t c. (None, c)\<rparr>"

abbreviation demo_ws :: "ws_input list" where
  "demo_ws \<equiv> [WsRead (Inr (Some \<lparr>wi_Type = ''job'', wi_JobID = 7, wi_Payload = ''m''\<rparr>)) None,
     WsRead (Inl (errorf ''EOF'')) None, WsFinish 7 (Some (errorf ''boom'')) None]"

theorem socket_session_accounts_witness:
  "\<exists>x s'. run_state (streamOnce demo_gw_lib demo_net 1 None demo_ws) (NewClient 0 ''http://g/'') = ((True, Inr x), s') \<and>
     wx_phase x = WsClosed (wrapf ''read'' (errorf ''EOF'')) \<and> msg_jobs wsTypeDone (wx_out x) = [7] \<and> wx_inflight x = []"
proof -
  let ?x = "fold (ws_step demo_gw_lib) demo_ws (ws_open 1)"
  obtain s' where run: "run_state (streamOnce demo_gw_lib demo_net 1 None demo_ws) (NewClient 0 ''http://g/'') = ((True, Inr ?x), s')"
    by (simp add: streamOnce_def connect_jobs_def ensureAuth_def needs_refresh_def NewClient_def Authenticate_def doGet_def doPost_def gcall_def
        set_auth_def demo_net_def demo_gw_lib_def)
  have "wx_phase ?x = WsClosed (wrapf ''read'' (errorf ''EOF''))" "msg_jobs wsTypeDone (wx_out ?x) = [7]"
    by (simp_all add: ws_open_def on_message_def settle_drain_def demo_gw_lib_def wsTypeJob_def msg_jobs_def [of _ "[]"])
  then show ?thesis using socket_session_accounts [OF run] run by blast
qed

section \<open>Authorisation and backoff\<close>

text \<open>A call that succeeded was sent with the client's current token, and a token that is not refreshed in the call has five more minutes.\<close>

lemma gateway_post_authorised:
  assumes "run_state (post_expecting_204 lib net what failed path body) s = (None, s')"
  shows "\<exists>auth. gs_log s' = EvPost (gs_baseURL s @ path) body (gs_token s') # auth @ gs_log s \<and>
    (auth = [] \<longrightarrow> gs_token s' = gs_token s \<and> gs_token s \<noteq> [] \<and> 5 * Minute \<le> gs_expiresAt s - fst (gn_now net (gs_net s)))"
  using assms
  by (auto simp: post_expecting_204_def ensureAuth_def getToken_def doPost_def doGet_def gcall_def needs_refresh_def Authenticate_def set_auth_def
      split: prod.splits option.splits sum.splits if_splits)

lemma stream_delays_bounds:
  assumes "Second \<le> backoff" "backoff \<le> 30 * Second"
  shows "list_all (\<lambda>d. Second \<le> d \<and> d \<le> 30 * Second) (stream_delays cs backoff)"
  using assms
proof (induction cs arbitrary: backoff)
  case (Cons c cs)
  have "in_i64 (backoff * 2)" "in_i64 2000000000" using Cons.prems by (simp_all add: in_i64_def)
  then show ?case using Cons.prems Cons.IH by (auto simp: stream_backoff_def Let_def)
qed simp

end
