(* ===== verification/Response_Publisher.thy ===== *)
theory Response_Publisher
  imports Gateway_Client Chunk_Stream "HOL-Library.Sublist"
begin

text \<open>
  The two ResponsePublisher implementations behind the pipeline's frames: RedisResponsePublisher
  (internal/pipeline/handler.go) publishes to the session's Redis channel, StreamPublisher
  (internal/gateway/stream.go) queues for a WebSocket and falls back to HTTP for the terminal frame.

  A call is a value of \<open>pub_call\<close>; the frame it stands for is \<open>frame_of\<close>. Publishing never reports an
  error to the pipeline, so what can be promised is which frames are handed on and in which order; the
  locale \<open>frame_plane\<close> states it for both. Marshalling a frame cannot fail (its fields are numbers, strings
  and bytes).
\<close>

section \<open>Frames\<close>

datatype MessageType = MsgChunk | MsgMetadata | MsgComplete | MsgError

record PubSubMessage =
  pm_Type :: MessageType
  pm_Kind :: FrameKind
  pm_JobID :: u64
  pm_SessionID :: u64
  pm_Sequence :: u32
  pm_TotalChunks :: u32
  pm_Payload :: "byte list"
  pm_Signature :: string
  pm_CorrelationID :: string
  pm_Timestamp :: int

datatype pub_call =
    CallChunk u64 u64 string u32 FrameKind "byte list"
  | CallMetadata u64 u64 string "byte list"
  | CallResponse u64 u64 string string "byte list" u32
  | CallError u64 u64 string

definition at_least_one :: "u32 \<Rightarrow> u32" where
  "at_least_one n = (if n = 0 then 1 else n)"

fun frame_of :: "frame_lib \<Rightarrow> int \<Rightarrow> pub_call \<Rightarrow> PubSubMessage" where
  "frame_of fk now (CallChunk jobID sessionID corr sequence kind payload) =
     \<lparr>pm_Type = MsgChunk, pm_Kind = fk_Normalize fk kind, pm_JobID = jobID, pm_SessionID = sessionID, pm_Sequence = sequence,
      pm_TotalChunks = 0, pm_Payload = payload, pm_Signature = [], pm_CorrelationID = corr, pm_Timestamp = now\<rparr>"
| "frame_of fk now (CallMetadata jobID sessionID corr payload) =
     \<lparr>pm_Type = MsgMetadata, pm_Kind = [], pm_JobID = jobID, pm_SessionID = sessionID, pm_Sequence = 0,
      pm_TotalChunks = 1, pm_Payload = payload, pm_Signature = [], pm_CorrelationID = corr, pm_Timestamp = now\<rparr>"
| "frame_of fk now (CallResponse jobID sessionID corr signature ciphertext totalFrames) =
     \<lparr>pm_Type = MsgComplete, pm_Kind = [], pm_JobID = jobID, pm_SessionID = sessionID, pm_Sequence = at_least_one totalFrames,
      pm_TotalChunks = at_least_one totalFrames, pm_Payload = ciphertext, pm_Signature = signature, pm_CorrelationID = corr, pm_Timestamp = now\<rparr>"
| "frame_of fk now (CallError jobID sessionID corr) =
     \<lparr>pm_Type = MsgError, pm_Kind = [], pm_JobID = jobID, pm_SessionID = sessionID, pm_Sequence = 0,
      pm_TotalChunks = 0, pm_Payload = [], pm_Signature = [], pm_CorrelationID = corr, pm_Timestamp = now\<rparr>"

section \<open>Redis\<close>

text \<open>\<open>rp_sent\<close>: the PUBLISH commands issued, newest first, with their errors.\<close>

record redis_pub =
  rp_sent :: "(string \<times> PubSubMessage \<times> go_error option) list"
  rp_failures :: int

definition rp_publish :: "go_error option \<Rightarrow> PubSubMessage \<Rightarrow> redis_pub \<Rightarrow> redis_pub" where
  "rp_publish err msg p =
     p\<lparr>rp_sent := (''session:'' @ FormatUint (unat (pm_SessionID msg)) @ '':responses'', msg, err) # rp_sent p,
       rp_failures := (if err = None then rp_failures p else rp_failures p + 1)\<rparr>"

text \<open>PublishMetadata publishes the same way and does not count failures.\<close>

definition rp_PublishMetadata :: "go_error option \<Rightarrow> PubSubMessage \<Rightarrow> redis_pub \<Rightarrow> redis_pub" where
  "rp_PublishMetadata err msg p =
     p\<lparr>rp_sent := (''session:'' @ FormatUint (unat (pm_SessionID msg)) @ '':responses'', msg, err) # rp_sent p\<rparr>"

fun rp_call :: "frame_lib \<Rightarrow> int \<times> go_error option \<Rightarrow> pub_call \<Rightarrow> redis_pub \<Rightarrow> redis_pub" where
  "rp_call fk (now, err) (CallMetadata j i c b) p = rp_PublishMetadata err (frame_of fk now (CallMetadata j i c b)) p"
| "rp_call fk (now, err) call p = rp_publish err (frame_of fk now call) p"

section \<open>The stream\<close>

definition streamBufferSize :: nat where
  "streamBufferSize = 256"

text \<open>
  \<open>PbDialing\<close>: between connections; \<open>PbPumping\<close>: connected; \<open>PbEnded\<close>: the pump has returned and the
  connected flag is not yet cleared. \<open>pb_wire\<close> lists the frames written to the socket and \<open>pb_handed\<close> those
  taken by the queue or given to the HTTP fallback, oldest first; \<open>pb_lost\<close> those whose write failed.
\<close>

datatype pb_phase = PbDialing | PbPumping | PbEnded

record 'c stream_pub =
  pb_client :: "'c gw_st"
  pb_frames :: "PubSubMessage list"
  pb_phase :: pb_phase
  pb_backoff :: int
  pb_wire :: "PubSubMessage list"
  pb_lost :: "PubSubMessage list"
  pb_taken :: "PubSubMessage list"
  pb_handed :: "PubSubMessage list"

definition NewStreamPublisher :: "'c gw_st \<Rightarrow> 'c stream_pub" where
  "NewStreamPublisher client = \<lparr>pb_client = client, pb_frames = [], pb_phase = PbDialing, pb_backoff = Second, pb_wire = [], pb_lost = [],
     pb_taken = [], pb_handed = []\<rparr>"

definition Connected :: "'c stream_pub \<Rightarrow> bool" where
  "Connected p \<longleftrightarrow> pb_phase p \<noteq> PbDialing"

definition pb_enqueue :: "PubSubMessage \<Rightarrow> 'c stream_pub \<Rightarrow> bool \<times> 'c stream_pub" where
  "pb_enqueue msg p =
     (if length (pb_frames p) < streamBufferSize
      then (True, p\<lparr>pb_frames := pb_frames p @ [msg], pb_taken := pb_taken p @ [msg], pb_handed := pb_handed p @ [msg]\<rparr>)
      else (False, p))"

definition pb_PublishResponse :: "frame_lib \<Rightarrow> gw_lib \<Rightarrow> 'c gw_net \<Rightarrow> int \<Rightarrow> u64 \<Rightarrow> u64 \<Rightarrow> string \<Rightarrow> string \<Rightarrow> byte list \<Rightarrow> u32 \<Rightarrow> 'c stream_pub \<Rightarrow> 'c stream_pub" where
  "pb_PublishResponse fk lib net now jobID sessionID corr signature ciphertext totalFrames p =
     (let total = at_least_one totalFrames; msg = frame_of fk now (CallResponse jobID sessionID corr signature ciphertext total);
          (ok, p1) = (if Connected p then pb_enqueue msg p else (False, p))
      in if ok then p1
         else p1\<lparr>pb_client := snd (run_state (gw_PublishResponse lib net jobID sessionID corr signature ciphertext total total) (pb_client p1)),
                 pb_handed := pb_handed p1 @ [msg]\<rparr>)"

fun pb_call :: "frame_lib \<Rightarrow> gw_lib \<times> 'c gw_net \<times> int \<Rightarrow> pub_call \<Rightarrow> 'c stream_pub \<Rightarrow> 'c stream_pub" where
  "pb_call fk (lib, net, now) (CallResponse j i c sig b n) p = pb_PublishResponse fk lib net now j i c sig b n p"
| "pb_call fk (lib, net, now) (CallError j i c) p = p"
| "pb_call fk (lib, net, now) call p = snd (pb_enqueue (frame_of fk now call) p)"

definition stream_url :: "string \<Rightarrow> string" where
  "stream_url baseURL = replace_first ''http'' ''ws'' baseURL @ ''/api/stream/responses''"

definition pb_dial :: "gw_lib \<Rightarrow> 'c gw_net \<Rightarrow> ('c gw_st, go_error option) prog" where
  "pb_dial lib net = do {
     auth \<leftarrow> ensureAuth lib net;
     (case auth of
        Some e \<Rightarrow> ret (Some (wrapf ''auth'' e))
      | None \<Rightarrow> do {
          s \<leftarrow> State_Monad.get;
          gcall (gn_dial net (stream_url (gs_baseURL s)) (gs_token s)) [EvDial (stream_url (gs_baseURL s)) (gs_token s)]
        })
   }"

text \<open>One turn of Run: dial, and on failure wait and double the backoff.\<close>

definition pb_connect :: "gw_lib \<Rightarrow> 'c gw_net \<Rightarrow> 'c stream_pub \<Rightarrow> 'c stream_pub" where
  "pb_connect lib net p =
     (case run_state (pb_dial lib net) (pb_client p) of
        (Some e, c) \<Rightarrow> p\<lparr>pb_client := c, pb_backoff := (if pb_backoff p < 30 * Second then i64 (pb_backoff p * 2) else pb_backoff p)\<rparr>
      | (None, c) \<Rightarrow> p\<lparr>pb_client := c, pb_backoff := Second, pb_phase := PbPumping\<rparr>)"

text \<open>One turn of pump: take the oldest frame and write it; a failed write loses it and ends the pump.\<close>

definition pb_pump :: "go_error option \<Rightarrow> 'c stream_pub \<Rightarrow> 'c stream_pub" where
  "pb_pump writeErr p =
     (case pb_frames p of
        [] \<Rightarrow> p
      | msg # rest \<Rightarrow>
          (case writeErr of
             None \<Rightarrow> p\<lparr>pb_frames := rest, pb_wire := pb_wire p @ [msg]\<rparr>
           | Some e \<Rightarrow> p\<lparr>pb_frames := rest, pb_lost := pb_lost p @ [msg], pb_phase := PbEnded\<rparr>))"

text \<open>Publish calls of the pipeline and the steps of the Run goroutine interleave freely.\<close>

inductive pb_step :: "frame_lib \<Rightarrow> PubSubMessage list \<times> 'c stream_pub \<Rightarrow> PubSubMessage list \<times> 'c stream_pub \<Rightarrow> bool" for fk where
  Call: "pb_step fk (pub, p) (pub @ [frame_of fk now call], pb_call fk (lib, net, now) call p)"
| Connect: "pb_phase p = PbDialing \<Longrightarrow> pb_step fk (pub, p) (pub, pb_connect lib net p)"
| Write: "pb_phase p = PbPumping \<Longrightarrow> pb_step fk (pub, p) (pub, pb_pump w p)"
| Broken: "pb_phase p = PbPumping \<Longrightarrow> pb_step fk (pub, p) (pub, p\<lparr>pb_phase := PbEnded\<rparr>)"
| Ended: "pb_phase p = PbEnded \<Longrightarrow> pb_step fk (pub, p) (pub, p\<lparr>pb_phase := PbDialing\<rparr>)"

inductive_cases pb_stepE: "pb_step fk (pub, p) s'"

section \<open>The contract\<close>

text \<open>
  What a publisher promises the pipeline: a call hands on its own frame or nothing, and the terminal
  frame always.
\<close>

fun is_response :: "pub_call \<Rightarrow> bool" where
  "is_response (CallResponse j i c sig b n) \<longleftrightarrow> True"
| "is_response _ \<longleftrightarrow> False"

abbreviation completes :: "PubSubMessage list \<Rightarrow> PubSubMessage list" where
  "completes fs \<equiv> filter (\<lambda>m. pm_Type m = MsgComplete) fs"

locale frame_plane =
  fixes call :: "'e \<Rightarrow> pub_call \<Rightarrow> 's \<Rightarrow> 's"
    and handed :: "'s \<Rightarrow> PubSubMessage list"
    and frame :: "'e \<Rightarrow> pub_call \<Rightarrow> PubSubMessage"
  assumes handed_call: "handed (call e c s) \<in> {handed s, handed s @ [frame e c]}"
    and handed_response: "is_response c \<Longrightarrow> handed (call e c s) = handed s @ [frame e c]"
    and frame_type: "pm_Type (frame e c) = MsgComplete \<longleftrightarrow> is_response c"
begin

lemma handed_step: "\<exists>fs. handed (call e c s) = handed s @ fs \<and> subseq fs [frame e c] \<and> completes fs = completes [frame e c]"
  using handed_call [of e c s] handed_response [of c e s] frame_type [of e c] by auto

lemma handed_run:
  "\<exists>fs. handed (fold (\<lambda>(e, c). call e c) cs s) = handed s @ fs \<and> subseq fs (map (\<lambda>(e, c). frame e c) cs) \<and>
     completes fs = completes (map (\<lambda>(e, c). frame e c) cs)"
proof (induction cs arbitrary: s)
  case (Cons ec cs)
  obtain e c where ec: "ec = (e, c)" by (meson surj_pair)
  obtain f where f: "handed (call e c s) = handed s @ f" "subseq f [frame e c]" "completes f = completes [frame e c]"
    using handed_step by blast
  obtain fs where fs: "handed (fold (\<lambda>(e, c). call e c) cs (call e c s)) = handed (call e c s) @ fs"
    "subseq fs (map (\<lambda>(e, c). frame e c) cs)" "completes fs = completes (map (\<lambda>(e, c). frame e c) cs)" using Cons by blast
  have "subseq (f @ fs) ([frame e c] @ map (\<lambda>(e, c). frame e c) cs)" using f(2) fs(2) by (rule list_emb_append_mono)
  moreover have "completes (f @ fs) = completes ([frame e c] @ map (\<lambda>(e, c). frame e c) cs)" using f(3) fs(3) by (simp only: filter_append)
  ultimately show ?case using ec f(1) fs(1) by (intro exI [of _ "f @ fs"]) simp
qed simp

end

lemma frame_of_type [simp]: "pm_Type (frame_of fk now c) = MsgComplete \<longleftrightarrow> is_response c"
  by (cases c) simp_all

lemma at_least_one_idem [simp]: "at_least_one (at_least_one n) = at_least_one n"
  by (simp add: at_least_one_def)

definition rp_handed :: "redis_pub \<Rightarrow> PubSubMessage list" where
  "rp_handed p = rev (map (\<lambda>(ch, m, err). m) (rp_sent p))"

interpretation redis: frame_plane "rp_call fk" rp_handed "\<lambda>e c. frame_of fk (fst e) c" for fk
proof
  fix e c s
  show "rp_handed (rp_call fk e c s) \<in> {rp_handed s, rp_handed s @ [frame_of fk (fst e) c]}"
    by (cases e; cases c) (simp_all add: rp_handed_def rp_publish_def rp_PublishMetadata_def)
  show "is_response c \<Longrightarrow> rp_handed (rp_call fk e c s) = rp_handed s @ [frame_of fk (fst e) c]"
    by (cases e; cases c) (simp_all add: rp_handed_def rp_publish_def)
qed simp

lemma pb_handed_call:
  "pb_handed (pb_call fk (lib, net, now) c p) \<in> {pb_handed p, pb_handed p @ [frame_of fk now c]}"
  "is_response c \<Longrightarrow> pb_handed (pb_call fk (lib, net, now) c p) = pb_handed p @ [frame_of fk now c]"
  by (cases c; simp add: pb_enqueue_def pb_PublishResponse_def Let_def split: prod.splits; auto split: if_splits)+

interpretation stream: frame_plane "pb_call fk" pb_handed "\<lambda>e c. frame_of fk (snd (snd e)) c" for fk
proof
  fix e :: "gw_lib \<times> 'c gw_net \<times> int" and c s
  obtain lib net now where e: "e = (lib, net, now)" by (metis surj_pair)
  show "pb_handed (pb_call fk e c s) \<in> {pb_handed s, pb_handed s @ [frame_of fk (snd (snd e)) c]}"
    unfolding e snd_conv by (rule pb_handed_call)
  show "is_response c \<Longrightarrow> pb_handed (pb_call fk e c s) = pb_handed s @ [frame_of fk (snd (snd e)) c]"
    unfolding e snd_conv by (rule pb_handed_call)
qed simp

section \<open>The stream's queue\<close>

text \<open>
  The queue in order: what it took is what was pumped followed by what waits, and what was pumped is a
  shuffle of what was written with what was lost.
\<close>

definition pumped :: "PubSubMessage list \<Rightarrow> 'c stream_pub \<Rightarrow> bool" where
  "pumped t p \<longleftrightarrow> pb_taken p = t @ pb_frames p \<and> t \<in> shuffles (pb_wire p) (pb_lost p)"

lemma shuffles_snoc:
  "zs \<in> shuffles xs ys \<Longrightarrow> zs @ [z] \<in> shuffles (xs @ [z]) ys \<and> zs @ [z] \<in> shuffles xs (ys @ [z])"
proof (induction xs ys arbitrary: zs rule: shuffles.induct)
  case (1 ys)
  then show ?case by (induction ys arbitrary: zs) auto
next
  case (2 xs)
  then show ?case by (induction xs arbitrary: zs) auto
qed auto

lemma shuffles_subseq: "zs \<in> shuffles xs ys \<Longrightarrow> subseq xs zs"
  by (induction xs ys arbitrary: zs rule: shuffles.induct) auto

definition pb_inv :: "PubSubMessage list \<times> 'c stream_pub \<Rightarrow> bool" where
  "pb_inv s \<longleftrightarrow> (case s of (pub, p) \<Rightarrow>
     length (pb_frames p) \<le> streamBufferSize \<and> (\<exists>t. pumped t p) \<and> subseq (pb_taken p) (pb_handed p) \<and>
     subseq (pb_handed p) pub \<and> completes (pb_handed p) = completes pub)"

lemma pumped_frame [simp]:
  "pumped t (p\<lparr>pb_client := c\<rparr>) = pumped t p" "pumped t (p\<lparr>pb_handed := h\<rparr>) = pumped t p"
  "pumped t (p\<lparr>pb_phase := ph\<rparr>) = pumped t p" "pumped t (p\<lparr>pb_backoff := bo\<rparr>) = pumped t p"
  by (simp_all add: pumped_def)

lemma pb_inv_enqueue:
  assumes "pb_inv (pub, p)" "pb_enqueue m p = (ok, p')"
  shows "if ok then pb_inv (pub @ [m], p') else p' = p" "\<not> ok \<Longrightarrow> pm_Type m \<noteq> MsgComplete \<Longrightarrow> pb_inv (pub @ [m], p)"
proof -
  have "subseq (pb_taken p @ [m]) (pb_handed p @ [m])" "subseq (pb_handed p @ [m]) (pub @ [m])"
    using assms(1) by (auto simp: pb_inv_def)
  moreover have "\<exists>t. pumped t (p\<lparr>pb_frames := pb_frames p @ [m], pb_taken := pb_taken p @ [m], pb_handed := h\<rparr>)" for h
    using assms(1) by (auto simp: pb_inv_def pumped_def)
  ultimately show "if ok then pb_inv (pub @ [m], p') else p' = p"
    using assms by (auto simp: pb_inv_def pb_enqueue_def split: if_splits)
  show "pm_Type m \<noteq> MsgComplete \<Longrightarrow> pb_inv (pub @ [m], p)" using assms(1) by (auto simp: pb_inv_def)
qed

lemma pb_inv_offer: "pb_inv (pub, p) \<Longrightarrow> pm_Type m \<noteq> MsgComplete \<Longrightarrow> pb_inv (pub @ [m], snd (pb_enqueue m p))"
  using pb_inv_enqueue [of pub p m] by (cases "pb_enqueue m p") (auto split: if_splits)

lemma pb_inv_fallback:
  assumes "pb_inv (pub, p)"
  shows "pb_inv (pub @ [m], p\<lparr>pb_client := c, pb_handed := pb_handed p @ [m]\<rparr>)"
  using assms by (auto simp: pb_inv_def)

lemma pb_inv_call:
  assumes "pb_inv (pub, p)"
  shows "pb_inv (pub @ [frame_of fk now call], pb_call fk (lib, net, now) call p)"
proof (cases call)
  case (CallResponse j i c sig b n)
  let ?m = "frame_of fk now call"
  have m: "frame_of fk now (CallResponse j i c sig b (at_least_one n)) = ?m" using CallResponse by simp
  show ?thesis using CallResponse assms pb_inv_enqueue(1) [OF assms, of ?m] pb_inv_fallback [OF assms, of ?m]
    unfolding CallResponse pb_call.simps pb_PublishResponse_def Let_def m [unfolded CallResponse]
    by (auto split: prod.splits if_splits)
next
  case (CallError j i c)
  then show ?thesis using assms by (auto simp: pb_inv_def)
qed (simp_all add: pb_inv_offer [OF assms])

lemma pumped_pump:
  assumes "pumped t p"
  shows "\<exists>t'. pumped t' (pb_pump w p)"
proof (cases "pb_frames p")
  case Nil
  then show ?thesis using assms by (auto simp: pb_pump_def)
next
  case (Cons m rest)
  then have "pumped (t @ [m]) (pb_pump w p)"
    using assms shuffles_snoc [of t "pb_wire p" "pb_lost p" m] by (cases w) (auto simp: pb_pump_def pumped_def)
  then show ?thesis by blast
qed

lemma pb_inv_step: "pb_step fk s s' \<Longrightarrow> pb_inv s \<Longrightarrow> pb_inv s'"
proof (induction rule: pb_step.induct)
  case (Write p pub w)
  then obtain t where "pumped t p" by (auto simp: pb_inv_def)
  from pumped_pump [OF this, of w] show ?case using Write.prems
    by (auto simp: pb_inv_def pb_pump_def split: list.splits option.splits)
next
  case (Call pub p now call lib net)
  then show ?case by (rule pb_inv_call)
qed (auto simp: pb_connect_def pb_inv_def split: prod.splits option.splits)

lemma pb_inv_reachable: "(pb_step fk)\<^sup>*\<^sup>* s s' \<Longrightarrow> pb_inv s \<Longrightarrow> pb_inv s'"
  by (induction rule: rtranclp_induct) (auto intro: pb_inv_step)

text \<open>
  C16. Frames over the gateway stream. Whatever interleaving of the pipeline's publish calls with
  connecting, writing and losing the connection: at most 256 frames wait; the frames the queue took are, in
  order, a subsequence of the frames published, and they are the frames pumped so far followed by the
  frames waiting; the frames pumped are those written and those lost with a failed write, each list in
  the order of publication and no frame in both, so the reader of the socket sees an ordered
  subsequence of what was published; and each terminal frame was taken by the queue or given to the HTTP endpoint.
\<close>

theorem stream_frames_in_order:
  assumes "(pb_step fk)\<^sup>*\<^sup>* ([], NewStreamPublisher client) (pub, p)"
  shows "length (pb_frames p) \<le> 256 \<and> subseq (pb_taken p) pub \<and>
    (\<exists>t. pb_taken p = t @ pb_frames p \<and> t \<in> shuffles (pb_wire p) (pb_lost p)) \<and>
    subseq (pb_wire p @ pb_frames p) pub \<and> completes (pb_handed p) = completes pub"
proof -
  have "pumped [] (NewStreamPublisher client)" by (simp add: pumped_def NewStreamPublisher_def)
  then have "pb_inv ([], NewStreamPublisher client)" unfolding pb_inv_def by (auto simp: NewStreamPublisher_def)
  then have inv: "pb_inv (pub, p)" by (rule pb_inv_reachable [OF assms])
  then obtain t where t: "pb_taken p = t @ pb_frames p" "t \<in> shuffles (pb_wire p) (pb_lost p)"
    by (auto simp: pb_inv_def pumped_def)
  have taken: "subseq (pb_taken p) pub" using inv by (auto simp: pb_inv_def intro: subseq_order.trans)
  have "subseq (pb_wire p @ pb_frames p) (t @ pb_frames p)" using shuffles_subseq [OF t(2)] by (intro list_emb_append_mono) auto
  then have "subseq (pb_wire p @ pb_frames p) pub" using taken unfolding t(1) by (rule subseq_order.trans)
  then show ?thesis using inv t taken unfolding pb_inv_def streamBufferSize_def by auto
qed

definition offline_call :: pub_call where
  "offline_call = CallResponse 7 3 ''c'' ''sig'' [1] 0"

theorem stream_frames_in_order_witness:
  "\<exists>p. (pb_step demo_frames)\<^sup>*\<^sup>* ([], NewStreamPublisher (NewClient (0 :: int) ''http://g'')) ([frame_of demo_frames 5 offline_call], p) \<and>
     pb_frames p = [] \<and> completes (pb_handed p) = [frame_of demo_frames 5 offline_call]"
proof -
  let ?p = "pb_call demo_frames (demo_gw_lib, demo_net, 5) offline_call (NewStreamPublisher (NewClient (0 :: int) ''http://g''))"
  have step: "(pb_step demo_frames)\<^sup>*\<^sup>* ([], NewStreamPublisher (NewClient (0 :: int) ''http://g'')) ([frame_of demo_frames 5 offline_call], ?p)"
    using pb_step.Call [of demo_frames "[]" _ 5 offline_call demo_gw_lib demo_net] by (intro r_into_rtranclp) (simp only: append_Nil)
  have "pb_frames ?p = []" by (simp add: offline_call_def pb_PublishResponse_def Connected_def NewStreamPublisher_def Let_def)
  then show ?thesis using step stream_frames_in_order [OF step] by (intro exI [of _ ?p] conjI) (auto simp: offline_call_def)
qed

end
