(* ===== verification/Go_Parse.thy ===== *)
theory Go_Parse
  imports Ollama_Client
begin

text \<open>
  Standard-library parsing that the configuration code relies on: decimal integers (math/big,
  strconv), booleans, durations (time), splitting of strings and of host:port pairs (net). Strings are byte strings.
  time.ParseDuration computes the fractional part of a component in float64; that one product is the argument
  \<open>fl\<close>, given the digits after the point, the unit in nanoseconds and the power of ten.
\<close>

section \<open>Integers and booleans\<close>

definition SetString :: "string \<Rightarrow> int option" where
  "SetString s =
     (let neg = (case s of c # cs \<Rightarrow> c = CHR ''-'' | [] \<Rightarrow> False);
          body = (case s of c # cs \<Rightarrow> if c = CHR ''-'' \<or> c = CHR ''+'' then cs else s | [] \<Rightarrow> [])
      in if body = [] then None else map_option (\<lambda>n. if neg then - int n else int n) (parse_digits 0 body))"

definition ParseBool :: "string \<Rightarrow> bool option" where
  "ParseBool s =
     (if s \<in> set [''1'', ''t'', ''T'', ''TRUE'', ''true'', ''True''] then Some True
      else if s \<in> set [''0'', ''f'', ''F'', ''FALSE'', ''false'', ''False''] then Some False
      else None)"

lemma ParseInt_SetString: "ParseInt s = (case SetString s of None \<Rightarrow> None | Some n \<Rightarrow> if in_i64 n then Some n else None)"
  by (auto simp: ParseInt_def SetString_def in_i64_def Let_def split: list.splits option.splits)

lemma digit_val_sign [simp]: "digit_val (CHR ''+'') = None" "digit_val (CHR ''-'') = None"
  by (simp_all add: digit_val_def)

lemma uint_of_nat_u64: "m < 2 ^ 64 \<Longrightarrow> uint (of_nat m :: u64) = int m"
  by (simp add: unsigned_of_nat take_bit_nat_eq_self)

lemma ParseUint_SetString: "ParseUint s = Inr n \<Longrightarrow> SetString s = Some (uint n)"
  using uint_of_nat_u64 by (cases s) (auto simp: ParseUint_def SetString_def Let_def split: option.splits if_splits)

section \<open>Strings\<close>

fun strings_Split :: "char \<Rightarrow> string \<Rightarrow> string list" where
  "strings_Split c [] = [[]]"
| "strings_Split c (x # xs) =
     (if x = c then [] # strings_Split c xs
      else case strings_Split c xs of w # ws \<Rightarrow> (x # w) # ws | [] \<Rightarrow> [[x]])"

definition strings_Cut :: "char \<Rightarrow> string \<Rightarrow> string \<times> string \<times> bool" where
  "strings_Cut c s =
     (if c \<in> set s then (takeWhile (\<lambda>x. x \<noteq> c) s, tl (dropWhile (\<lambda>x. x \<noteq> c) s), True) else (s, [], False))"

definition strings_Join :: "char \<Rightarrow> string list \<Rightarrow> string" where
  "strings_Join c ws = (case ws of [] \<Rightarrow> [] | w # vs \<Rightarrow> w @ concat (map (\<lambda>v. c # v) vs))"

lemma Split_nonempty [simp]: "strings_Split c s \<noteq> []"
  by (induction s) (auto split: list.splits)

lemma Split_plain [simp]: "c \<notin> set s \<Longrightarrow> strings_Split c s = [s]"
  by (induction s) auto

lemma Split_append: "c \<notin> set w \<Longrightarrow> strings_Split c (w @ c # s) = w # strings_Split c s"
  by (induction w) auto

lemma Split_Join: "ws \<noteq> [] \<Longrightarrow> \<forall>w\<in>set ws. c \<notin> set w \<Longrightarrow> strings_Split c (strings_Join c ws) = ws"
proof (induction ws)
  case (Cons w ws)
  then show ?case by (cases ws) (auto simp: strings_Join_def Split_append)
qed simp

lemma Split_pieces: "w \<in> set (strings_Split c s) \<Longrightarrow> c \<notin> set w"
  by (induction s arbitrary: w) (auto split: list.splits if_splits)

section \<open>Durations\<close>

fun leadingInt :: "nat \<Rightarrow> string \<Rightarrow> (nat \<times> string) option" where
  "leadingInt x [] = Some (x, [])"
| "leadingInt x (c # cs) =
     (case digit_val c of
        None \<Rightarrow> Some (x, c # cs)
      | Some d \<Rightarrow> if 2 ^ 63 div 10 < x then None
                   else if 2 ^ 63 < x * 10 + d then None
                   else leadingInt (x * 10 + d) cs)"

fun leadingFraction :: "nat \<Rightarrow> nat \<Rightarrow> bool \<Rightarrow> string \<Rightarrow> nat \<times> nat \<times> string" where
  "leadingFraction x scale overflow [] = (x, scale, [])"
| "leadingFraction x scale overflow (c # cs) =
     (case digit_val c of
        None \<Rightarrow> (x, scale, c # cs)
      | Some d \<Rightarrow> if overflow \<or> (2 ^ 63 - 1) div 10 < x \<or> 2 ^ 63 < x * 10 + d
                   then leadingFraction x scale True cs
                   else leadingFraction (x * 10 + d) (scale * 10) False cs)"

definition duration_unit :: "string \<Rightarrow> nat option" where
  "duration_unit u = map_of
     [(''ns'', 1), (''us'', 1000), ([CHR 0xC2, CHR 0xB5, CHR ''s''], 1000), ([CHR 0xCE, CHR 0xBC, CHR ''s''], 1000),
      (''ms'', 1000000), (''s'', 1000000000), (''m'', 60000000000), (''h'', 3600000000000)] u"

definition numeric_char :: "char \<Rightarrow> bool" where
  "numeric_char c \<longleftrightarrow> c = CHR ''.'' \<or> digit_val c \<noteq> None"

text \<open>One component: a number with its unit, in nanoseconds, and the rest of the string.\<close>

definition duration_part :: "(nat \<Rightarrow> nat \<Rightarrow> nat \<Rightarrow> nat) \<Rightarrow> string \<Rightarrow> (nat \<times> string) option" where
  "duration_part fl s =
     (if s = [] \<or> \<not> numeric_char (hd s) then None
      else case leadingInt 0 s of
        None \<Rightarrow> None
      | Some (v, s1) \<Rightarrow>
          (let (f, scale, s2) = (if s1 \<noteq> [] \<and> hd s1 = CHR ''.'' then leadingFraction 0 1 False (tl s1) else (0, 1, s1));
               pre = length s1 \<noteq> length s;
               post = (s1 \<noteq> [] \<and> hd s1 = CHR ''.'' \<and> length s2 \<noteq> length (tl s1));
               u = takeWhile (\<lambda>c. \<not> numeric_char c) s2; s3 = dropWhile (\<lambda>c. \<not> numeric_char c) s2
           in if \<not> pre \<and> \<not> post then None
              else if u = [] then None
              else case duration_unit u of
                None \<Rightarrow> None
              | Some unit \<Rightarrow>
                  if 2 ^ 63 div unit < v then None
                  else let n = v * unit + (if 0 < f then fl f unit scale else 0)
                       in if 0 < f \<and> 2 ^ 63 < n then None else Some (n, s3)))"

lemma leadingInt_length: "leadingInt x s = Some (v, s1) \<Longrightarrow> length s1 \<le> length s"
  by (induction x s rule: leadingInt.induct) (auto simp: Let_def split: option.splits if_splits)

lemma leadingFraction_length: "leadingFraction x sc o' s = (f, sc', s1) \<Longrightarrow> length s1 \<le> length s"
  by (induction x sc o' s rule: leadingFraction.induct) (auto simp: Let_def split: option.splits if_splits)

lemma duration_part_length: "duration_part fl s = Some (n, rest) \<Longrightarrow> length rest < length s"
proof -
  assume a: "duration_part fl s = Some (n, rest)"
  then obtain v s1 where s1: "leadingInt 0 s = Some (v, s1)" by (auto simp: duration_part_def split: option.splits if_splits)
  obtain f scale s2 where s2: "(if s1 \<noteq> [] \<and> hd s1 = CHR ''.'' then leadingFraction 0 1 False (tl s1) else (0, 1, s1)) = (f, scale, s2)"
    by (metis prod_cases3)
  have "length s2 \<le> length s1" using s2 leadingFraction_length [of 0 1 False "tl s1"] by (fastforce split: if_splits)
  moreover have "takeWhile (\<lambda>c. \<not> numeric_char c) s2 \<noteq> []" "rest = dropWhile (\<lambda>c. \<not> numeric_char c) s2"
    using a s1 s2 by (auto simp: duration_part_def Let_def split: option.splits if_splits)
  moreover then have "length rest < length s2" by (metis length_append length_greater_0_conv less_add_same_cancel2 takeWhile_dropWhile_id)
  ultimately show ?thesis using leadingInt_length [OF s1] by simp
qed

function duration_loop :: "(nat \<Rightarrow> nat \<Rightarrow> nat \<Rightarrow> nat) \<Rightarrow> nat \<Rightarrow> string \<Rightarrow> nat option" where
  "duration_loop fl d s =
     (if s = [] then Some d
      else case duration_part fl s of
        None \<Rightarrow> None
      | Some (v, rest) \<Rightarrow>
          (let d' = (d + v) mod 2 ^ 64 in if 2 ^ 63 < d' then None else duration_loop fl d' rest))"
  by pat_completeness auto
termination by (relation "measure (\<lambda>(fl, d, s). length s)") (auto dest: duration_part_length)

declare duration_loop.simps [simp del]

definition ParseDuration :: "(nat \<Rightarrow> nat \<Rightarrow> nat \<Rightarrow> nat) \<Rightarrow> string \<Rightarrow> int option" where
  "ParseDuration fl orig =
     (let neg = (case orig of c # cs \<Rightarrow> c = CHR ''-'' | [] \<Rightarrow> False);
          s = (case orig of c # cs \<Rightarrow> if c = CHR ''-'' \<or> c = CHR ''+'' then cs else orig | [] \<Rightarrow> [])
      in if s = ''0'' then Some 0
         else if s = [] then None
         else case duration_loop fl 0 s of
           None \<Rightarrow> None
         | Some d \<Rightarrow> if neg then Some (- int d) else if 2 ^ 63 - 1 < d then None else Some (int d))"

text \<open>A duration is an int64.\<close>

lemma duration_loop_le: "duration_loop fl d s = Some n \<Longrightarrow> d \<le> 2 ^ 63 \<Longrightarrow> n \<le> 2 ^ 63"
proof (induction fl d s rule: duration_loop.induct)
  case (1 fl d s)
  show ?case
  proof (cases "s = []")
    case True
    then show ?thesis using 1(2,3) by (simp add: duration_loop.simps [of fl d "[]"])
  next
    case False
    then obtain v rest where p: "duration_part fl s = Some (v, rest)" using 1(2) by (auto simp: duration_loop.simps [of fl d s] split: option.splits)
    then have "duration_loop fl ((d + v) mod 2 ^ 64) rest = Some n" "(d + v) mod 2 ^ 64 \<le> 2 ^ 63"
      using 1(2) False by (auto simp: duration_loop.simps [of fl d s] Let_def split: if_splits)
    then show ?thesis using 1(1) [OF False p refl refl] by simp
  qed
qed

lemma ParseDuration_i64: "ParseDuration fl s = Some d \<Longrightarrow> in_i64 d"
  by (auto simp: ParseDuration_def Let_def in_i64_def dest!: duration_loop_le split: option.splits if_splits)

end
