(* ===== verification/Worker_Config.thy ===== *)
theory Worker_Config
  imports Complex_Main Go_Parse Release_Config
begin

text \<open>
  The worker's configuration (internal/config/config.go): reading the environment, validation, model
  ids, REDIS_URL diagnostics, and the translation into the release configuration
  (internal/service/service.go, buildReleaseConfig). ConfigFromEnv (internal/release/config.go) is the CLI's loader of the
  release part.

  The environment is a function from names to values, the empty string for an unset variable. go-ethereum's address parser and Keccak,
  net/url and go-redis are arguments (\<open>config_lib\<close>), as is strconv.ParseFloat, whose results are
  \<open>float64\<close> values. Messages carry the variable, not the offending value.
\<close>

type_synonym environment = "string \<Rightarrow> string"

datatype float64 = F_NaN | F_NegInf | F_PosInf | F_Fin rat

text \<open>IEEE comparison: every comparison with a NaN is false.\<close>

fun f_less :: "float64 \<Rightarrow> float64 \<Rightarrow> bool" where
  "f_less F_NaN y \<longleftrightarrow> False"
| "f_less x F_NaN \<longleftrightarrow> False"
| "f_less F_NegInf y \<longleftrightarrow> y \<noteq> F_NegInf"
| "f_less x F_NegInf \<longleftrightarrow> False"
| "f_less F_PosInf y \<longleftrightarrow> False"
| "f_less x F_PosInf \<longleftrightarrow> True"
| "f_less (F_Fin a) (F_Fin b) \<longleftrightarrow> a < b"

record config_lib =
  cl_IsHexAddress :: "string \<Rightarrow> bool"
  cl_HexToAddress :: "string \<Rightarrow> address"
  cl_Keccak256 :: "byte list \<Rightarrow> byte list"
  cl_urlParse :: "string \<Rightarrow> (string \<times> string) option"
  cl_IsLoopback :: "string \<Rightarrow> bool"
  cl_ParseFloat :: "string \<Rightarrow> float64 option"
  cl_fraction :: "nat \<Rightarrow> nat \<Rightarrow> nat \<Rightarrow> nat"

section \<open>The record\<close>

record Config =
  cf_WorkerKeystorePath :: string
  cf_WorkerKeystorePassword :: string
  cf_EncryptionKeystorePath :: string
  cf_RPCURL :: string
  cf_ChainID :: int
  cf_WorkerRegistryAddress :: address
  cf_AIConfigAddress :: address
  cf_JobRegistryAddress :: address
  cf_GasPriceMultiplierBps :: int
  cf_MaxGasPrice :: "int option"
  cf_SupportedModels :: "string list"
  cf_RedisURL :: string
  cf_RedisPassword :: string
  cf_HeartbeatInterval :: int
  cf_OllamaURL :: string
  cf_OllamaTimeout :: int
  cf_SearchEnabled :: bool
  cf_TavilyAPIKey :: string
  cf_TavilyURL :: string
  cf_SearchTimeout :: int
  cf_SearchMaxResults :: int
  cf_OllamaStream :: bool
  cf_OllamaKeepAlive :: string
  cf_OllamaNumPredict :: int
  cf_OllamaNumCtx :: int
  cf_OllamaThink :: bool
  cf_OllamaReasoningNumPredict :: int
  cf_ModelOptions :: "(string \<times> ClientOptions) list"
  cf_StreamChunkTokens :: int
  cf_StreamChunkInterval :: int
  cf_StreamReasoning :: bool
  cf_DeadlineGuardEnabled :: bool
  cf_SettleReserve :: int
  cf_CompletionReserve :: int
  cf_MinInferenceBudget :: int
  cf_STTEnabled :: bool
  cf_STTSidecarURL :: string
  cf_STTTimeout :: int
  cf_TTSEnabled :: bool
  cf_TTSSidecarURL :: string
  cf_TTSVoice :: string
  cf_SpeechModelName :: string
  cf_TTSMaxChars :: int
  cf_TTSTimeout :: int
  cf_BeaconAPIURL :: string
  cf_MaxConcurrentJobs :: int
  cf_AckTxTimeout :: int
  cf_BlobTxTimeout :: int
  cf_BlobFetchTimeout :: int
  cf_BlobFetchRetries :: int
  cf_SessionKeyFile :: string
  cf_ReceiptPollInterval :: int
  cf_AckOverlapEnabled :: bool
  cf_RedisPublishTimeout :: int
  cf_CheckpointTTL :: int
  cf_CheckpointMaxBytes :: int
  cf_StuckNonceThreshold :: int
  cf_StuckNonceMaxBumps :: int
  cf_StuckNonceAutoReplace :: bool
  cf_ShutdownTimeout :: int
  cf_DrainTTLOverride :: int
  cf_DrainSlack :: int
  cf_WorkerGatewayURL :: string
  cf_MetricsListenAddr :: string
  cf_MetricsAllowPublic :: bool
  cf_ReleaseEnabled :: bool
  cf_ReleaseStatePath :: string
  cf_ReleaseInterval :: int
  cf_ReleaseProbeInterval :: int
  cf_ReleaseBatchThreshold :: int
  cf_ReleaseMaxBatchSize :: int
  cf_ReleaseTxTimeout :: int
  cf_ReleaseStartBlock :: u64
  cf_ReleaseChunkSize :: u64
  cf_ReleaseConfirmations :: u64
  cf_ReleaseReconcileInterval :: int
  cf_ReleaseBackoffBase :: int
  cf_ReleaseBackoffMax :: int
  cf_ReleasePausedCycleBackoff :: int
  cf_ReleaseStaleDisputeWarnAfter :: int
  cf_ReleaseDisputeWindowOverride :: int
  cf_ReleaseDisputeWindowCacheTTL :: int
  cf_SortitionEnabled :: bool
  cf_SessionManagerAddress :: address
  cf_SortitionStateDir :: string
  cf_SortitionChunkSize :: u64
  cf_SortitionPollInterval :: int
  cf_SortitionConfirmations :: u64
  cf_SortitionSessionLookbackBlocks :: u64
  cf_SortitionSessionRetryLimit :: int
  cf_LogLevel :: string
  cf_LogFormat :: string

text \<open>Go's zero value: what a field holds until Load assigns it.\<close>

definition zero_config :: Config where
  "zero_config = \<lparr>
    cf_WorkerKeystorePath = [], cf_WorkerKeystorePassword = [], cf_EncryptionKeystorePath = [], cf_RPCURL = [], cf_ChainID = 0,
    cf_WorkerRegistryAddress = 0, cf_AIConfigAddress = 0, cf_JobRegistryAddress = 0, cf_GasPriceMultiplierBps = 0, cf_MaxGasPrice = None,
    cf_SupportedModels = [], cf_RedisURL = [], cf_RedisPassword = [], cf_HeartbeatInterval = 0, cf_OllamaURL = [], cf_OllamaTimeout = 0,
    cf_SearchEnabled = False, cf_TavilyAPIKey = [], cf_TavilyURL = [], cf_SearchTimeout = 0, cf_SearchMaxResults = 0, cf_OllamaStream = False,
    cf_OllamaKeepAlive = [], cf_OllamaNumPredict = 0, cf_OllamaNumCtx = 0, cf_OllamaThink = False, cf_OllamaReasoningNumPredict = 0,
    cf_ModelOptions = [], cf_StreamChunkTokens = 0, cf_StreamChunkInterval = 0, cf_StreamReasoning = False, cf_DeadlineGuardEnabled = False,
    cf_SettleReserve = 0, cf_CompletionReserve = 0, cf_MinInferenceBudget = 0, cf_STTEnabled = False, cf_STTSidecarURL = [], cf_STTTimeout = 0,
    cf_TTSEnabled = False, cf_TTSSidecarURL = [], cf_TTSVoice = [], cf_SpeechModelName = [], cf_TTSMaxChars = 0, cf_TTSTimeout = 0,
    cf_BeaconAPIURL = [], cf_MaxConcurrentJobs = 0, cf_AckTxTimeout = 0, cf_BlobTxTimeout = 0, cf_BlobFetchTimeout = 0, cf_BlobFetchRetries = 0,
    cf_SessionKeyFile = [], cf_ReceiptPollInterval = 0, cf_AckOverlapEnabled = False, cf_RedisPublishTimeout = 0, cf_CheckpointTTL = 0,
    cf_CheckpointMaxBytes = 0, cf_StuckNonceThreshold = 0, cf_StuckNonceMaxBumps = 0, cf_StuckNonceAutoReplace = False, cf_ShutdownTimeout = 0,
    cf_DrainTTLOverride = 0, cf_DrainSlack = 0, cf_WorkerGatewayURL = [], cf_MetricsListenAddr = [], cf_MetricsAllowPublic = False,
    cf_ReleaseEnabled = False, cf_ReleaseStatePath = [], cf_ReleaseInterval = 0, cf_ReleaseProbeInterval = 0, cf_ReleaseBatchThreshold = 0,
    cf_ReleaseMaxBatchSize = 0, cf_ReleaseTxTimeout = 0, cf_ReleaseStartBlock = 0, cf_ReleaseChunkSize = 0, cf_ReleaseConfirmations = 0,
    cf_ReleaseReconcileInterval = 0, cf_ReleaseBackoffBase = 0, cf_ReleaseBackoffMax = 0, cf_ReleasePausedCycleBackoff = 0,
    cf_ReleaseStaleDisputeWarnAfter = 0, cf_ReleaseDisputeWindowOverride = 0, cf_ReleaseDisputeWindowCacheTTL = 0, cf_SortitionEnabled = False,
    cf_SessionManagerAddress = 0, cf_SortitionStateDir = [], cf_SortitionChunkSize = 0, cf_SortitionPollInterval = 0, cf_SortitionConfirmations = 0,
    cf_SortitionSessionLookbackBlocks = 0, cf_SortitionSessionRetryLimit = 0, cf_LogLevel = [], cf_LogFormat = []\<rparr>"

section \<open>Parsing variables\<close>

type_synonym 'a loading = "(string list, 'a) prog"

definition append_err :: "string \<Rightarrow> unit loading" where
  "append_err m = State (\<lambda>errs. ((), errs @ [m]))"

definition envOrDefault :: "environment \<Rightarrow> string \<Rightarrow> string \<Rightarrow> string" where
  "envOrDefault env key defaultVal = (if env key \<noteq> [] then env key else defaultVal)"

definition parseDuration :: "config_lib \<Rightarrow> environment \<Rightarrow> string \<Rightarrow> string \<Rightarrow> int loading" where
  "parseDuration lib env key defaultVal =
     (case ParseDuration (cl_fraction lib) (envOrDefault env key defaultVal) of
        None \<Rightarrow> do { append_err (key @ '': invalid duration''); ret 0 }
      | Some d \<Rightarrow> ret d)"

definition parseBool :: "environment \<Rightarrow> string \<Rightarrow> bool \<Rightarrow> bool loading" where
  "parseBool env key defaultVal =
     (let raw = TrimSpace (env key); low = strings_ToLower raw in
      if raw = [] then ret defaultVal
      else if low \<in> set [''true'', ''1'', ''yes'', ''on''] then ret True
      else if low \<in> set [''false'', ''0'', ''no'', ''off''] then ret False
      else do { append_err (key @ '': invalid boolean''); ret defaultVal })"

definition parseUint64 :: "environment \<Rightarrow> string \<Rightarrow> u64 \<Rightarrow> u64 loading" where
  "parseUint64 env key defaultVal =
     (if env key = [] then ret defaultVal
      else case SetString (env key) of
        None \<Rightarrow> do { append_err (key @ '': invalid integer''); ret defaultVal }
      | Some v \<Rightarrow>
          if v < 0 then do { append_err (key @ '': must be non-negative''); ret defaultVal }
          else if 2 ^ 64 \<le> v then do { append_err (key @ '': value overflows uint64''); ret defaultVal }
          else ret (of_int v))"

text \<open>On the 64-bit targets \<open>int\<close> is \<open>int64\<close>, so the last check of parseInt never fires.\<close>

definition parseInt :: "environment \<Rightarrow> string \<Rightarrow> int \<Rightarrow> int loading" where
  "parseInt env key defaultVal =
     (if env key = [] then ret defaultVal
      else case SetString (env key) of
        None \<Rightarrow> do { append_err (key @ '': invalid integer''); ret defaultVal }
      | Some v \<Rightarrow>
          if \<not> in_i64 v then do { append_err (key @ '': value overflows int64''); ret defaultVal }
          else ret v)"

section \<open>MODEL_OPTIONS\<close>

definition cutLast :: "string \<Rightarrow> char \<Rightarrow> string \<times> string \<times> bool" where
  "cutLast s sep =
     (if sep \<in> set s then (rev (tl (dropWhile (\<lambda>c. c \<noteq> sep) (rev s))), rev (takeWhile (\<lambda>c. c \<noteq> sep) (rev s)), True)
      else (s, [], False))"

text \<open>The value of one option: the entry with that knob set, or None for a value out of range or an unknown key.\<close>

definition option_value :: "config_lib \<Rightarrow> string \<Rightarrow> string \<Rightarrow> ClientOptions \<Rightarrow> ClientOptions option" where
  "option_value lib key value opts =
     (if key = ''num_predict'' then
        (case ParseInt value of
           None \<Rightarrow> None
         | Some v \<Rightarrow> if v = 0 \<or> v < -2 then None else Some (opts\<lparr>opt_NumPredict := v\<rparr>))
      else if key = ''num_ctx'' then
        (case ParseInt value of None \<Rightarrow> None | Some v \<Rightarrow> if v \<le> 0 then None else Some (opts\<lparr>opt_NumCtx := v\<rparr>))
      else if key = ''temperature'' then
        (case cl_ParseFloat lib value of
           None \<Rightarrow> None
         | Some v \<Rightarrow> if f_less v (F_Fin 0) \<or> f_less (F_Fin 2) v then None else Some (opts\<lparr>opt_Temperature := Some value\<rparr>))
      else if key = ''think'' then
        (if value \<in> set [''low'', ''medium'', ''high''] then Some (opts\<lparr>opt_ThinkLevel := value\<rparr>) else None)
      else None)"

fun option_pairs :: "config_lib \<Rightarrow> string \<Rightarrow> string list \<Rightarrow> string list \<Rightarrow> ClientOptions \<Rightarrow> bool \<Rightarrow> (ClientOptions \<times> bool) loading" where
  "option_pairs lib name [] seen opts entryOK = ret (opts, entryOK)"
| "option_pairs lib name (pair # pairs) seen opts entryOK =
     (case strings_Cut (CHR ''='') (TrimSpace pair) of
        (key, value, found) \<Rightarrow>
          if \<not> found \<or> key = [] \<or> value = [] then
            do { append_err (''MODEL_OPTIONS: '' @ name @ '': malformed option''); option_pairs lib name pairs seen opts False }
          else if key \<in> set seen then
            do { append_err (''MODEL_OPTIONS: '' @ name @ '': duplicate key''); option_pairs lib name pairs seen opts False }
          else case option_value lib key value opts of
            None \<Rightarrow> do { append_err (''MODEL_OPTIONS: '' @ name @ '': '' @ key); option_pairs lib name pairs (key # seen) opts False }
          | Some opts' \<Rightarrow> option_pairs lib name pairs (key # seen) opts' entryOK)"

fun option_entries :: "config_lib \<Rightarrow> string list \<Rightarrow> string list \<Rightarrow> (string \<times> ClientOptions) list \<Rightarrow> (string \<times> ClientOptions) list loading" where
  "option_entries lib supported [] out = ret out"
| "option_entries lib supported (raw # entries) out =
     (let entry = TrimSpace raw in
      if entry = [] then option_entries lib supported entries out
      else case cutLast entry (CHR '':'') of
        (before, pairs, found) \<Rightarrow>
          (let name = TrimSpace before in
           if \<not> found \<or> name = [] \<or> CHR ''='' \<notin> set pairs then
             do { append_err ''MODEL_OPTIONS: malformed entry''; option_entries lib supported entries out }
           else if name \<notin> set supported then
             do { append_err (''MODEL_OPTIONS: model '' @ name @ '' is not in SUPPORTED_MODELS''); option_entries lib supported entries out }
           else if name \<in> fst ` set out then
             do { append_err (''MODEL_OPTIONS: duplicate entry for model '' @ name); option_entries lib supported entries out }
           else do {
             (opts, entryOK) \<leftarrow> option_pairs lib name (strings_Split (CHR '','') pairs) [] no_options True;
             option_entries lib supported entries (if entryOK then out @ [(name, opts)] else out)
           }))"

definition parseModelOptions :: "config_lib \<Rightarrow> string \<Rightarrow> string list \<Rightarrow> (string \<times> ClientOptions) list loading" where
  "parseModelOptions lib raw supported =
     (let t = TrimSpace raw in
      if t = [] then ret []
      else do {
        out \<leftarrow> option_entries lib supported (strings_Split (CHR '';'') t) [];
        errs \<leftarrow> State_Monad.get;
        ret (if errs \<noteq> [] then [] else out)
      })"

section \<open>Load\<close>

definition required_address :: "config_lib \<Rightarrow> environment \<Rightarrow> string \<Rightarrow> address loading" where
  "required_address lib env key =
     (if env key = [] then do { append_err (key @ '' is required''); ret 0 }
      else if \<not> cl_IsHexAddress lib (env key) then do { append_err (key @ '': invalid hex address''); ret 0 }
      else ret (cl_HexToAddress lib (env key)))"

definition load_chainID :: "environment \<Rightarrow> int loading" where
  "load_chainID env =
     (if env ''CHAIN_ID'' = [] then do { append_err ''CHAIN_ID is required''; ret 0 }
      else case SetString (env ''CHAIN_ID'') of
        None \<Rightarrow> do { append_err ''CHAIN_ID: invalid integer''; ret 0 }
      | Some v \<Rightarrow> if \<not> in_i64 v then do { append_err ''CHAIN_ID: value overflows int64''; ret 0 } else ret v)"

definition load_maxGas :: "environment \<Rightarrow> int option loading" where
  "load_maxGas env =
     (if env ''MAX_GAS_PRICE'' = [] then ret (Some (100 * 1000000000))
      else case SetString (env ''MAX_GAS_PRICE'') of
        None \<Rightarrow> do { append_err ''MAX_GAS_PRICE: invalid decimal wei value''; ret None }
      | Some v \<Rightarrow> if v \<le> 0 then do { append_err ''MAX_GAS_PRICE: must be positive''; ret None } else ret (Some v))"

definition split_models :: "string \<Rightarrow> string list" where
  "split_models s = filter (\<lambda>m. m \<noteq> []) (map TrimSpace (strings_Split (CHR '','') s))"

definition load_models :: "environment \<Rightarrow> string list loading" where
  "load_models env =
     (if env ''SUPPORTED_MODELS'' = [] then do { append_err ''SUPPORTED_MODELS is required''; ret [] }
      else let models = split_models (env ''SUPPORTED_MODELS'') in
        if models = [] then do { append_err ''SUPPORTED_MODELS: no valid model entries after parsing''; ret [] }
        else ret models)"

text \<open>The fields Load reads as they are.\<close>

definition load_strings :: "environment \<Rightarrow> Config" where
  "load_strings env = zero_config\<lparr>
     cf_WorkerKeystorePath := env ''WORKER_KEYSTORE_PATH'',
     cf_WorkerKeystorePassword := env ''WORKER_KEYSTORE_PASSWORD'',
     cf_EncryptionKeystorePath := envOrDefault env ''ENCRYPTION_KEYSTORE_PATH'' ''data/worker-encryption.key'',
     cf_RPCURL := envOrDefault env ''RPC_URL'' ''http://localhost:8545'',
     cf_RedisURL := envOrDefault env ''REDIS_URL'' ''redis://localhost:6379'',
     cf_RedisPassword := env ''REDIS_PASSWORD'',
     cf_OllamaURL := envOrDefault env ''OLLAMA_URL'' ''http://localhost:11434'',
     cf_TavilyAPIKey := env ''TAVILY_API_KEY'',
     cf_TavilyURL := envOrDefault env ''TAVILY_URL'' ''https://api.tavily.com'',
     cf_BeaconAPIURL := envOrDefault env ''BEACON_API_URL'' ''http://localhost:3500'',
     cf_SessionKeyFile := envOrDefault env ''SESSION_KEY_FILE'' ''data/session-keys.enc'',
     cf_WorkerGatewayURL := env ''WORKER_GATEWAY_URL'',
     cf_MetricsListenAddr := envOrDefault env ''WORKER_METRICS_ADDR'' ''127.0.0.1:9101'',
     cf_OllamaKeepAlive := envOrDefault env ''OLLAMA_KEEP_ALIVE'' ''-1'',
     cf_LogLevel := envOrDefault env ''LOG_LEVEL'' ''info'',
     cf_LogFormat := envOrDefault env ''LOG_FORMAT'' ''json''\<rparr>"

definition load_chain :: "config_lib \<Rightarrow> environment \<Rightarrow> Config \<Rightarrow> Config loading" where
  "load_chain lib env c = do {
     vChainID \<leftarrow> load_chainID env;
     vWorkerRegistryAddress \<leftarrow> required_address lib env ''WORKER_REGISTRY_ADDRESS'';
     vAIConfigAddress \<leftarrow> required_address lib env ''AI_CONFIG_ADDRESS'';
     vJobRegistryAddress \<leftarrow> required_address lib env ''JOB_REGISTRY_ADDRESS'';
     vGasPriceMultiplierBps \<leftarrow> parseInt env ''GAS_PRICE_MULTIPLIER_BPS'' 11000;
     vMaxGasPrice \<leftarrow> load_maxGas env;
     vSupportedModels \<leftarrow> load_models env;
     ret (c\<lparr>cf_ChainID := vChainID,
       cf_WorkerRegistryAddress := vWorkerRegistryAddress,
       cf_AIConfigAddress := vAIConfigAddress,
       cf_JobRegistryAddress := vJobRegistryAddress,
       cf_GasPriceMultiplierBps := vGasPriceMultiplierBps,
       cf_MaxGasPrice := vMaxGasPrice,
       cf_SupportedModels := vSupportedModels\<rparr>)
   }"

definition non_negative :: "string \<Rightarrow> int \<Rightarrow> unit loading" where
  "non_negative key d = (if d < 0 then append_err (key @ '': must be >= 0'') else ret ())"

definition load_timeouts :: "config_lib \<Rightarrow> environment \<Rightarrow> Config \<Rightarrow> Config loading" where
  "load_timeouts lib env c = do {
     vHeartbeatInterval \<leftarrow> parseDuration lib env ''HEARTBEAT_INTERVAL'' ''10s'';
     vShutdownTimeout \<leftarrow> parseDuration lib env ''SHUTDOWN_TIMEOUT'' ''30s'';
     vDrainTTLOverride \<leftarrow> parseDuration lib env ''LIGHTCHAIN_DRAIN_TTL'' ''0s'';
     non_negative ''LIGHTCHAIN_DRAIN_TTL'' vDrainTTLOverride;
     vDrainSlack \<leftarrow> parseDuration lib env ''LIGHTCHAIN_DRAIN_SLACK'' ''2h'';
     non_negative ''LIGHTCHAIN_DRAIN_SLACK'' vDrainSlack;
     vOllamaTimeout \<leftarrow> parseDuration lib env ''OLLAMA_TIMEOUT'' ''120s'';
     vSearchEnabled \<leftarrow> parseBool env ''SEARCH_ENABLED'' False;
     vSearchTimeout \<leftarrow> parseDuration lib env ''SEARCH_TIMEOUT'' ''10s'';
     vSearchMaxResults \<leftarrow> parseInt env ''SEARCH_MAX_RESULTS'' 5;
     vAckTxTimeout \<leftarrow> parseDuration lib env ''ACK_TX_TIMEOUT'' ''15s'';
     vBlobTxTimeout \<leftarrow> parseDuration lib env ''BLOB_TX_TIMEOUT'' ''90s'';
     vBlobFetchTimeout \<leftarrow> parseDuration lib env ''BLOB_FETCH_TIMEOUT'' ''10s'';
     vReceiptPollInterval \<leftarrow> parseDuration lib env ''RECEIPT_POLL_INTERVAL'' ''2s'';
     vRedisPublishTimeout \<leftarrow> parseDuration lib env ''REDIS_PUBLISH_TIMEOUT'' ''5s'';
     vMaxConcurrentJobs \<leftarrow> parseInt env ''MAX_CONCURRENT_JOBS'' 2;
     vBlobFetchRetries \<leftarrow> parseInt env ''BLOB_FETCH_RETRIES'' 3;
     ret (c\<lparr>cf_HeartbeatInterval := vHeartbeatInterval, cf_ShutdownTimeout := vShutdownTimeout,
       cf_DrainTTLOverride := vDrainTTLOverride, cf_DrainSlack := vDrainSlack, cf_OllamaTimeout := vOllamaTimeout,
       cf_SearchEnabled := vSearchEnabled, cf_SearchTimeout := vSearchTimeout, cf_SearchMaxResults := vSearchMaxResults,
       cf_AckTxTimeout := vAckTxTimeout, cf_BlobTxTimeout := vBlobTxTimeout, cf_BlobFetchTimeout := vBlobFetchTimeout,
       cf_ReceiptPollInterval := vReceiptPollInterval, cf_RedisPublishTimeout := vRedisPublishTimeout,
       cf_MaxConcurrentJobs := vMaxConcurrentJobs, cf_BlobFetchRetries := vBlobFetchRetries\<rparr>)
   }"

definition load_streaming :: "config_lib \<Rightarrow> environment \<Rightarrow> Config \<Rightarrow> Config loading" where
  "load_streaming lib env c = do {
     vAckOverlapEnabled \<leftarrow> parseBool env ''ACK_OVERLAP_ENABLED'' True;
     vOllamaStream \<leftarrow> parseBool env ''OLLAMA_STREAM'' True;
     vOllamaNumPredict \<leftarrow> parseInt env ''OLLAMA_NUM_PREDICT'' 1024;
     vOllamaNumCtx \<leftarrow> parseInt env ''OLLAMA_NUM_CTX'' 0;
     vOllamaThink \<leftarrow> parseBool env ''OLLAMA_THINK'' False;
     vOllamaReasoningNumPredict \<leftarrow> parseInt env ''OLLAMA_REASONING_NUM_PREDICT'' 4096;
     vStreamChunkTokens \<leftarrow> parseInt env ''STREAM_CHUNK_TOKENS'' 32;
     vStreamChunkInterval \<leftarrow> parseDuration lib env ''STREAM_CHUNK_INTERVAL'' ''100ms'';
     vStreamReasoning \<leftarrow> parseBool env ''STREAM_REASONING'' True;
     vModelOptions \<leftarrow> parseModelOptions lib (env ''MODEL_OPTIONS'') (cf_SupportedModels c);
     ret (c\<lparr>cf_AckOverlapEnabled := vAckOverlapEnabled,
       cf_OllamaStream := vOllamaStream,
       cf_OllamaNumPredict := vOllamaNumPredict,
       cf_OllamaNumCtx := vOllamaNumCtx,
       cf_OllamaThink := vOllamaThink,
       cf_OllamaReasoningNumPredict := vOllamaReasoningNumPredict,
       cf_StreamChunkTokens := vStreamChunkTokens,
       cf_StreamChunkInterval := vStreamChunkInterval,
       cf_StreamReasoning := vStreamReasoning,
       cf_ModelOptions := vModelOptions\<rparr>)
   }"

definition load_voice :: "config_lib \<Rightarrow> environment \<Rightarrow> Config \<Rightarrow> Config loading" where
  "load_voice lib env c = do {
     vDeadlineGuardEnabled \<leftarrow> parseBool env ''DEADLINE_GUARD_ENABLED'' True;
     vSettleReserve \<leftarrow> parseDuration lib env ''DEADLINE_SETTLE_RESERVE'' ''25s'';
     vCompletionReserve \<leftarrow> parseDuration lib env ''DEADLINE_COMPLETION_RESERVE'' ''12s'';
     vMinInferenceBudget \<leftarrow> parseDuration lib env ''DEADLINE_MIN_INFERENCE_BUDGET'' ''10s'';
     vSTTEnabled \<leftarrow> parseBool env ''STT_ENABLED'' False;
     vSTTTimeout \<leftarrow> parseDuration lib env ''STT_TIMEOUT'' ''10s'';
     vTTSEnabled \<leftarrow> parseBool env ''TTS_ENABLED'' False;
     vTTSMaxChars \<leftarrow> parseInt env ''TTS_MAX_CHARS'' 4000;
     vTTSTimeout \<leftarrow> parseDuration lib env ''TTS_TIMEOUT'' ''20s'';
     vStuckNonceThreshold \<leftarrow> parseInt env ''WORKER_STUCK_NONCE_THRESHOLD'' 5;
     vStuckNonceMaxBumps \<leftarrow> parseInt env ''WORKER_STUCK_NONCE_MAX_BUMPS'' 3;
     vStuckNonceAutoReplace \<leftarrow> parseBool env ''WORKER_STUCK_NONCE_AUTOREPLACE'' True;
     vMetricsAllowPublic \<leftarrow> parseBool env ''WORKER_METRICS_ALLOW_PUBLIC'' False;
     vCheckpointTTL \<leftarrow> parseDuration lib env ''WORKER_CHECKPOINT_TTL'' ''2h'';
     vCheckpointMaxBytes \<leftarrow> parseInt env ''WORKER_CHECKPOINT_MAX_BYTES'' 262144;
     ret (c\<lparr>cf_DeadlineGuardEnabled := vDeadlineGuardEnabled,
       cf_SettleReserve := vSettleReserve,
       cf_CompletionReserve := vCompletionReserve,
       cf_MinInferenceBudget := vMinInferenceBudget,
       cf_STTEnabled := vSTTEnabled,
       cf_STTTimeout := vSTTTimeout,
       cf_TTSEnabled := vTTSEnabled,
       cf_TTSMaxChars := vTTSMaxChars,
       cf_TTSTimeout := vTTSTimeout,
       cf_StuckNonceThreshold := vStuckNonceThreshold,
       cf_StuckNonceMaxBumps := vStuckNonceMaxBumps,
       cf_StuckNonceAutoReplace := vStuckNonceAutoReplace,
       cf_MetricsAllowPublic := vMetricsAllowPublic,
       cf_CheckpointTTL := vCheckpointTTL,
       cf_CheckpointMaxBytes := vCheckpointMaxBytes,
       cf_STTSidecarURL := envOrDefault env ''STT_SIDECAR_URL'' ''http://127.0.0.1:8100'',
       cf_TTSSidecarURL := envOrDefault env ''TTS_SIDECAR_URL'' ''http://127.0.0.1:8101'',
       cf_TTSVoice := envOrDefault env ''TTS_VOICE'' ''af_heart'',
       cf_SpeechModelName := envOrDefault env ''SPEECH_MODEL_NAME'' ''tts-piper''\<rparr>)
   }"

definition load_release :: "config_lib \<Rightarrow> environment \<Rightarrow> Config \<Rightarrow> Config loading" where
  "load_release lib env c = do {
     vReleaseEnabled \<leftarrow> parseBool env ''RELEASE_ENABLED'' True;
     vReleaseInterval \<leftarrow> parseDuration lib env ''RELEASE_INTERVAL'' ''8h'';
     vReleaseProbeInterval \<leftarrow> parseDuration lib env ''RELEASE_PROBE_INTERVAL'' ''5m'';
     vReleaseBatchThreshold \<leftarrow> parseInt env ''RELEASE_BATCH_THRESHOLD'' 20;
     vReleaseMaxBatchSize \<leftarrow> parseInt env ''RELEASE_MAX_BATCH_SIZE'' 50;
     vReleaseTxTimeout \<leftarrow> parseDuration lib env ''RELEASE_TX_TIMEOUT'' ''120s'';
     vReleaseStartBlock \<leftarrow> parseUint64 env ''RELEASE_RECONCILE_START_BLOCK'' 0;
     vReleaseChunkSize \<leftarrow> parseUint64 env ''RELEASE_RECONCILE_CHUNK_SIZE'' 5000;
     vReleaseConfirmations \<leftarrow> parseUint64 env ''RELEASE_RECONCILE_CONFIRMATIONS'' 5;
     vReleaseReconcileInterval \<leftarrow> parseDuration lib env ''RELEASE_RECONCILE_INTERVAL'' ''1h'';
     vReleaseBackoffBase \<leftarrow> parseDuration lib env ''RELEASE_BACKOFF_BASE'' ''15m'';
     vReleaseBackoffMax \<leftarrow> parseDuration lib env ''RELEASE_BACKOFF_MAX'' ''24h'';
     vReleasePausedCycleBackoff \<leftarrow> parseDuration lib env ''RELEASE_PAUSED_CYCLE_BACKOFF'' ''1h'';
     vReleaseStaleDisputeWarnAfter \<leftarrow> parseDuration lib env ''RELEASE_STALE_DISPUTE_WARN_AFTER'' ''168h'';
     vReleaseDisputeWindowOverride \<leftarrow> parseDuration lib env ''RELEASE_DISPUTE_WINDOW_OVERRIDE'' ''0s'';
     vReleaseDisputeWindowCacheTTL \<leftarrow> parseDuration lib env ''RELEASE_DISPUTE_WINDOW_CACHE_TTL'' ''15m'';
     ret (c\<lparr>cf_ReleaseEnabled := vReleaseEnabled,
       cf_ReleaseInterval := vReleaseInterval,
       cf_ReleaseProbeInterval := vReleaseProbeInterval,
       cf_ReleaseBatchThreshold := vReleaseBatchThreshold,
       cf_ReleaseMaxBatchSize := vReleaseMaxBatchSize,
       cf_ReleaseTxTimeout := vReleaseTxTimeout,
       cf_ReleaseStartBlock := vReleaseStartBlock,
       cf_ReleaseChunkSize := vReleaseChunkSize,
       cf_ReleaseConfirmations := vReleaseConfirmations,
       cf_ReleaseReconcileInterval := vReleaseReconcileInterval,
       cf_ReleaseBackoffBase := vReleaseBackoffBase,
       cf_ReleaseBackoffMax := vReleaseBackoffMax,
       cf_ReleasePausedCycleBackoff := vReleasePausedCycleBackoff,
       cf_ReleaseStaleDisputeWarnAfter := vReleaseStaleDisputeWarnAfter,
       cf_ReleaseDisputeWindowOverride := vReleaseDisputeWindowOverride,
       cf_ReleaseDisputeWindowCacheTTL := vReleaseDisputeWindowCacheTTL,
       cf_ReleaseStatePath := envOrDefault env ''RELEASE_STATE_PATH'' ''./release_state.json''\<rparr>)
   }"

definition optional_address :: "config_lib \<Rightarrow> environment \<Rightarrow> string \<Rightarrow> address loading" where
  "optional_address lib env key =
     (if env key = [] then ret 0
      else if \<not> cl_IsHexAddress lib (env key) then do { append_err (key @ '': invalid hex address''); ret 0 }
      else ret (cl_HexToAddress lib (env key)))"

definition load_sortition :: "config_lib \<Rightarrow> environment \<Rightarrow> Config \<Rightarrow> Config loading" where
  "load_sortition lib env c = do {
     vSortitionEnabled \<leftarrow> parseBool env ''SORTITION_ENABLED'' False;
     vSessionManagerAddress \<leftarrow> optional_address lib env ''SESSION_MANAGER_ADDRESS'';
     vSortitionChunkSize \<leftarrow> parseUint64 env ''SORTITION_CHUNK_SIZE'' 5000;
     vSortitionPollInterval \<leftarrow> parseDuration lib env ''SORTITION_POLL_INTERVAL'' ''1s'';
     vSortitionConfirmations \<leftarrow> parseUint64 env ''SORTITION_CONFIRMATIONS'' 0;
     vSortitionSessionLookbackBlocks \<leftarrow> parseUint64 env ''SORTITION_SESSION_LOOKBACK_BLOCKS'' 2000;
     vSortitionSessionRetryLimit \<leftarrow> parseInt env ''SORTITION_SESSION_RETRY_LIMIT'' 10;
     ret (c\<lparr>cf_SortitionEnabled := vSortitionEnabled,
       cf_SessionManagerAddress := vSessionManagerAddress,
       cf_SortitionChunkSize := vSortitionChunkSize,
       cf_SortitionPollInterval := vSortitionPollInterval,
       cf_SortitionConfirmations := vSortitionConfirmations,
       cf_SortitionSessionLookbackBlocks := vSortitionSessionLookbackBlocks,
       cf_SortitionSessionRetryLimit := vSortitionSessionRetryLimit,
       cf_SortitionStateDir := envOrDefault env ''SORTITION_STATE_DIR'' ''data/sortition-state''\<rparr>)
   }"

definition load_all :: "config_lib \<Rightarrow> environment \<Rightarrow> Config loading" where
  "load_all lib env = do {
     c1 \<leftarrow> load_chain lib env (load_strings env);
     c2 \<leftarrow> load_timeouts lib env c1;
     c3 \<leftarrow> load_streaming lib env c2;
     c4 \<leftarrow> load_voice lib env c3;
     c5 \<leftarrow> load_release lib env c4;
     load_sortition lib env c5
   }"

definition Load :: "config_lib \<Rightarrow> environment \<Rightarrow> string list + Config" where
  "Load lib env = (case run_state (load_all lib env) [] of (cfg, errs) \<Rightarrow> if errs \<noteq> [] then Inl errs else Inr cfg)"

end
