(* ===== verification/Config_Checks.thy ===== *)
theory Config_Checks
  imports Worker_Config
begin

text \<open>
  Validation of the configuration (internal/config/config.go, Validate; internal/metrics/metrics.go,
  ValidateListenAddr), model ids, REDIS_URL diagnostics, the release part of the configuration
  (internal/service/service.go, buildReleaseConfig) and the CLI's loader of it (internal/release/config.go, ConfigFromEnv), with
  the properties of loading and validating.
\<close>

section \<open>The metrics address\<close>

definition SplitHost :: "string \<Rightarrow> string option" where
  "SplitHost hostport =
     (case cutLast hostport (CHR '':'') of
        (before, port, found) \<Rightarrow>
          if \<not> found then None
          else if hd hostport = CHR ''['' then
            (let host = takeWhile (\<lambda>c. c \<noteq> CHR '']'') (tl hostport) in
             if before \<noteq> CHR ''['' # host @ '']'' \<or> CHR ''['' \<in> set (tl hostport) \<or> CHR '']'' \<in> set port then None
             else Some host)
          else if CHR '':'' \<in> set before \<or> CHR ''['' \<in> set hostport \<or> CHR '']'' \<in> set hostport then None
          else Some before)"

definition ValidateListenAddr :: "config_lib \<Rightarrow> string \<Rightarrow> bool \<Rightarrow> string option" where
  "ValidateListenAddr lib addr allowPublic =
     (if addr = [] then None
      else case SplitHost addr of
        None \<Rightarrow> Some ''address''
      | Some host \<Rightarrow>
          if allowPublic then None
          else if host \<in> set [''127.0.0.1'', ''localhost'', ''::1''] then None
          else if host \<in> set ['''', ''0.0.0.0'', ''::''] then Some ''metrics: listen address must be loopback''
          else if cl_IsLoopback lib host then None
          else Some ''metrics: listen address must be loopback'')"

section \<open>Validate\<close>

definition validateSidecarURL :: "config_lib \<Rightarrow> string \<Rightarrow> string \<Rightarrow> string list" where
  "validateSidecarURL lib key raw =
     Release_Config.check (case cl_urlParse lib raw of
        None \<Rightarrow> True
      | Some (scheme, host) \<Rightarrow> host = [] \<or> scheme \<notin> set [''http'', ''https'']) (key @ '': must be a parseable http(s) URL'')"

definition validate_core :: "Config \<Rightarrow> string list" where
  "validate_core c =
     Release_Config.check (cf_WorkerKeystorePath c = []) ''WORKER_KEYSTORE_PATH is required'' @
     Release_Config.check (cf_WorkerKeystorePassword c = []) ''WORKER_KEYSTORE_PASSWORD is required'' @
     Release_Config.check (cf_ChainID c \<le> 0) ''CHAIN_ID must be positive'' @
     Release_Config.check (cf_WorkerRegistryAddress c = 0) ''WORKER_REGISTRY_ADDRESS must be a non-zero address'' @
     Release_Config.check (cf_AIConfigAddress c = 0) ''AI_CONFIG_ADDRESS must be a non-zero address'' @
     Release_Config.check (cf_JobRegistryAddress c = 0) ''JOB_REGISTRY_ADDRESS must be a non-zero address'' @
     Release_Config.check (cf_SupportedModels c = []) ''SUPPORTED_MODELS: at least one model is required'' @
     Release_Config.check (cf_HeartbeatInterval c \<le> 0) ''HEARTBEAT_INTERVAL must be positive'' @
     Release_Config.check (cf_ShutdownTimeout c \<le> 0) ''SHUTDOWN_TIMEOUT must be positive'' @
     Release_Config.check (cf_GasPriceMultiplierBps c \<le> 0) ''GAS_PRICE_MULTIPLIER_BPS must be positive'' @
     Release_Config.check (cf_MaxConcurrentJobs c \<le> 0) ''MAX_CONCURRENT_JOBS must be positive'' @
     Release_Config.check (cf_OllamaTimeout c \<le> 0) ''OLLAMA_TIMEOUT must be positive'' @
     (if cf_SearchEnabled c then
        Release_Config.check (cf_TavilyAPIKey c = []) ''TAVILY_API_KEY is required when SEARCH_ENABLED=true'' @
        Release_Config.check (cf_SearchTimeout c \<le> 0) ''SEARCH_TIMEOUT must be positive'' @
        Release_Config.check (cf_SearchMaxResults c \<le> 0) ''SEARCH_MAX_RESULTS must be positive''
      else []) @
     Release_Config.check (cf_AckTxTimeout c \<le> 0) ''ACK_TX_TIMEOUT must be positive'' @
     Release_Config.check (cf_BlobTxTimeout c \<le> 0) ''BLOB_TX_TIMEOUT must be positive'' @
     Release_Config.check (cf_BlobFetchTimeout c \<le> 0) ''BLOB_FETCH_TIMEOUT must be positive'' @
     Release_Config.check (cf_BlobFetchRetries c \<le> 0) ''BLOB_FETCH_RETRIES must be positive'' @
     Release_Config.check (cf_ReceiptPollInterval c \<le> 0) ''RECEIPT_POLL_INTERVAL must be positive'' @
     Release_Config.check (cf_RedisPublishTimeout c \<le> 0) ''REDIS_PUBLISH_TIMEOUT must be positive'' @
     Release_Config.check (cf_OllamaNumPredict c = 0 \<or> cf_OllamaNumPredict c < -2) ''OLLAMA_NUM_PREDICT must be positive, -1 (unlimited) or -2 (fill context)'' @
     Release_Config.check (cf_OllamaNumCtx c < 0) ''OLLAMA_NUM_CTX must be >= 0 (0 leaves the model default)'' @
     Release_Config.check (cf_StreamChunkTokens c \<le> 0) ''STREAM_CHUNK_TOKENS must be positive'' @
     Release_Config.check (cf_StreamChunkInterval c \<le> 0) ''STREAM_CHUNK_INTERVAL must be positive''"

definition validate_features :: "config_lib \<Rightarrow> Config \<Rightarrow> string list" where
  "validate_features lib c =
     (if cf_DeadlineGuardEnabled c then
        Release_Config.check (cf_SettleReserve c \<le> 0) ''DEADLINE_SETTLE_RESERVE must be positive'' @
        Release_Config.check (cf_CompletionReserve c \<le> 0) ''DEADLINE_COMPLETION_RESERVE must be positive'' @
        Release_Config.check (cf_MinInferenceBudget c \<le> 0) ''DEADLINE_MIN_INFERENCE_BUDGET must be positive'' @
        Release_Config.check (cf_SettleReserve c \<le> cf_CompletionReserve c) ''DEADLINE_SETTLE_RESERVE must be > DEADLINE_COMPLETION_RESERVE''
      else []) @
     (if cf_STTEnabled c then
        validateSidecarURL lib ''STT_SIDECAR_URL'' (cf_STTSidecarURL c) @
        Release_Config.check (cf_STTTimeout c \<le> 0) ''STT_TIMEOUT must be positive''
      else []) @
     (if cf_TTSEnabled c then
        validateSidecarURL lib ''TTS_SIDECAR_URL'' (cf_TTSSidecarURL c) @
        Release_Config.check (cf_TTSTimeout c \<le> 0) ''TTS_TIMEOUT must be positive'' @
        Release_Config.check (cf_TTSMaxChars c < 0) ''TTS_MAX_CHARS must be >= 0 (0 = no limit)''
      else []) @
     Release_Config.check (cf_LogFormat c \<notin> set [''json'', ''text'']) ''LOG_FORMAT: must be json or text'' @
     Release_Config.check (cf_StuckNonceThreshold c \<le> 0) ''WORKER_STUCK_NONCE_THRESHOLD must be positive'' @
     Release_Config.check (cf_StuckNonceMaxBumps c \<le> 0) ''WORKER_STUCK_NONCE_MAX_BUMPS must be positive'' @
     (case ValidateListenAddr lib (cf_MetricsListenAddr c) (cf_MetricsAllowPublic c) of None \<Rightarrow> [] | Some e \<Rightarrow> [''WORKER_METRICS_ADDR: '' @ e])"

definition validate_release_part :: "Config \<Rightarrow> string list" where
  "validate_release_part c =
     Release_Config.check (cf_ReleaseStatePath c = []) ''RELEASE_STATE_PATH must not be empty'' @
     (if cf_ReleaseEnabled c then
        Release_Config.check (cf_ReleaseInterval c \<le> 0) ''RELEASE_INTERVAL must be positive'' @
        Release_Config.check (cf_ReleaseProbeInterval c \<le> 0) ''RELEASE_PROBE_INTERVAL must be positive'' @
        Release_Config.check (cf_ReleaseInterval c < cf_ReleaseProbeInterval c) ''RELEASE_PROBE_INTERVAL must be at most RELEASE_INTERVAL'' @
        Release_Config.check (cf_ReleaseBatchThreshold c < 1) ''RELEASE_BATCH_THRESHOLD must be at least 1'' @
        Release_Config.check (cf_ReleaseMaxBatchSize c < 1) ''RELEASE_MAX_BATCH_SIZE must be at least 1'' @
        Release_Config.check (cf_ReleaseTxTimeout c \<le> 0) ''RELEASE_TX_TIMEOUT must be positive'' @
        Release_Config.check (cf_ReleaseChunkSize c = 0) ''RELEASE_RECONCILE_CHUNK_SIZE must be at least 1'' @
        Release_Config.check (cf_ReleaseReconcileInterval c \<le> 0) ''RELEASE_RECONCILE_INTERVAL must be positive'' @
        Release_Config.check (cf_ReleaseBackoffBase c \<le> 0) ''RELEASE_BACKOFF_BASE must be positive'' @
        Release_Config.check (cf_ReleaseBackoffMax c < cf_ReleaseBackoffBase c) ''RELEASE_BACKOFF_MAX must be at least RELEASE_BACKOFF_BASE'' @
        Release_Config.check (cf_ReleasePausedCycleBackoff c \<le> 0) ''RELEASE_PAUSED_CYCLE_BACKOFF must be positive'' @
        Release_Config.check (cf_ReleaseDisputeWindowCacheTTL c < 0) ''RELEASE_DISPUTE_WINDOW_CACHE_TTL must not be negative''
      else [])"

definition Validate :: "config_lib \<Rightarrow> Config \<Rightarrow> string list" where
  "Validate lib c =
     validate_core c @ validate_features lib c @ validate_release_part c @
     Release_Config.check (cf_SortitionEnabled c \<and> cf_SessionManagerAddress c = 0) ''SESSION_MANAGER_ADDRESS is required when SORTITION_ENABLED=true''"

section \<open>The release configuration\<close>

definition buildReleaseConfig :: "Config \<Rightarrow> Release_Config.Config" where
  "buildReleaseConfig cfg = \<lparr>Enabled = cf_ReleaseEnabled cfg, StatePath = cf_ReleaseStatePath cfg, Interval = cf_ReleaseInterval cfg,
     ProbeInterval = cf_ReleaseProbeInterval cfg, BatchThreshold = cf_ReleaseBatchThreshold cfg, MaxBatchSize = cf_ReleaseMaxBatchSize cfg,
     TxTimeout = cf_ReleaseTxTimeout cfg, StartBlock = cf_ReleaseStartBlock cfg, ChunkSize = cf_ReleaseChunkSize cfg,
     Confirmations = cf_ReleaseConfirmations cfg, ReconcileInterval = cf_ReleaseReconcileInterval cfg,
     BackoffBase = cf_ReleaseBackoffBase cfg, BackoffMax = cf_ReleaseBackoffMax cfg, PausedCycleBackoff = cf_ReleasePausedCycleBackoff cfg,
     StaleDisputeWarnAfter = cf_ReleaseStaleDisputeWarnAfter cfg, DisputeWindowOverride = cf_ReleaseDisputeWindowOverride cfg,
     DisputeWindowCacheTTL = cf_ReleaseDisputeWindowCacheTTL cfg\<rparr>"

text \<open>The closures of ConfigFromEnv: an unset variable keeps the default, an unparsable one is an error.\<close>

definition override_with :: "environment \<Rightarrow> (string \<Rightarrow> 'a option) \<Rightarrow> string \<Rightarrow> string \<Rightarrow> 'a \<Rightarrow> 'a loading" where
  "override_with env parse what key target =
     (if env key = [] then ret target
      else case parse (env key) of
        None \<Rightarrow> do { append_err (key @ '': invalid '' @ what); ret target }
      | Some v \<Rightarrow> ret v)"

definition overrideBool :: "environment \<Rightarrow> string \<Rightarrow> bool \<Rightarrow> bool loading" where
  "overrideBool env = override_with env ParseBool ''bool''"

definition overrideDuration :: "config_lib \<Rightarrow> environment \<Rightarrow> string \<Rightarrow> int \<Rightarrow> int loading" where
  "overrideDuration lib env = override_with env (ParseDuration (cl_fraction lib)) ''duration''"

definition overrideInt :: "environment \<Rightarrow> string \<Rightarrow> int \<Rightarrow> int loading" where
  "overrideInt env = override_with env ParseInt ''int''"

definition overrideUint64 :: "environment \<Rightarrow> string \<Rightarrow> u64 \<Rightarrow> u64 loading" where
  "overrideUint64 env = override_with env (\<lambda>s. case ParseUint s of Inl e \<Rightarrow> None | Inr v \<Rightarrow> Some v) ''uint64''"

definition release_from_env :: "config_lib \<Rightarrow> environment \<Rightarrow> Release_Config.Config loading" where
  "release_from_env lib env = (let d = DefaultConfig in do {
     vEnabled \<leftarrow> overrideBool env ''RELEASE_ENABLED'' (Enabled d);
     vInterval \<leftarrow> overrideDuration lib env ''RELEASE_INTERVAL'' (Interval d);
     vProbeInterval \<leftarrow> overrideDuration lib env ''RELEASE_PROBE_INTERVAL'' (ProbeInterval d);
     vBatchThreshold \<leftarrow> overrideInt env ''RELEASE_BATCH_THRESHOLD'' (BatchThreshold d);
     vMaxBatchSize \<leftarrow> overrideInt env ''RELEASE_MAX_BATCH_SIZE'' (MaxBatchSize d);
     vTxTimeout \<leftarrow> overrideDuration lib env ''RELEASE_TX_TIMEOUT'' (TxTimeout d);
     vStartBlock \<leftarrow> overrideUint64 env ''RELEASE_RECONCILE_START_BLOCK'' (StartBlock d);
     vChunkSize \<leftarrow> overrideUint64 env ''RELEASE_RECONCILE_CHUNK_SIZE'' (ChunkSize d);
     vConfirmations \<leftarrow> overrideUint64 env ''RELEASE_RECONCILE_CONFIRMATIONS'' (Confirmations d);
     vReconcileInterval \<leftarrow> overrideDuration lib env ''RELEASE_RECONCILE_INTERVAL'' (ReconcileInterval d);
     vBackoffBase \<leftarrow> overrideDuration lib env ''RELEASE_BACKOFF_BASE'' (BackoffBase d);
     vBackoffMax \<leftarrow> overrideDuration lib env ''RELEASE_BACKOFF_MAX'' (BackoffMax d);
     vPausedCycleBackoff \<leftarrow> overrideDuration lib env ''RELEASE_PAUSED_CYCLE_BACKOFF'' (PausedCycleBackoff d);
     vStaleDisputeWarnAfter \<leftarrow> overrideDuration lib env ''RELEASE_STALE_DISPUTE_WARN_AFTER'' (StaleDisputeWarnAfter d);
     vDisputeWindowOverride \<leftarrow> overrideDuration lib env ''RELEASE_DISPUTE_WINDOW_OVERRIDE'' (DisputeWindowOverride d);
     vDisputeWindowCacheTTL \<leftarrow> overrideDuration lib env ''RELEASE_DISPUTE_WINDOW_CACHE_TTL'' (DisputeWindowCacheTTL d);
     ret \<lparr>Enabled = vEnabled, StatePath = envOrDefault env ''RELEASE_STATE_PATH'' (StatePath d), Interval = vInterval,
       ProbeInterval = vProbeInterval, BatchThreshold = vBatchThreshold, MaxBatchSize = vMaxBatchSize, TxTimeout = vTxTimeout,
       StartBlock = vStartBlock, ChunkSize = vChunkSize, Confirmations = vConfirmations, ReconcileInterval = vReconcileInterval,
       BackoffBase = vBackoffBase, BackoffMax = vBackoffMax, PausedCycleBackoff = vPausedCycleBackoff,
       StaleDisputeWarnAfter = vStaleDisputeWarnAfter, DisputeWindowOverride = vDisputeWindowOverride,
       DisputeWindowCacheTTL = vDisputeWindowCacheTTL\<rparr>
   })"

definition ConfigFromEnv :: "config_lib \<Rightarrow> environment \<Rightarrow> string list + Release_Config.Config" where
  "ConfigFromEnv lib env = (case run_state (release_from_env lib env) [] of (cfg, errs) \<Rightarrow> if errs \<noteq> [] then Inl errs else Inr cfg)"

section \<open>Model ids\<close>

definition hexNibble :: "char \<Rightarrow> byte option" where
  "hexNibble c =
     (let n = of_char c :: nat in
      if 48 \<le> n \<and> n \<le> 57 then Some (of_nat (n - 48))
      else if 97 \<le> n \<and> n \<le> 102 then Some (of_nat (n - 97) + 10)
      else if 65 \<le> n \<and> n \<le> 70 then Some (of_nat (n - 65) + 10)
      else None)"

fun hex_pairs :: "string \<Rightarrow> byte list option" where
  "hex_pairs (c # d # cs) =
     (case (hexNibble c, hexNibble d) of
        (Some hi, Some lo) \<Rightarrow> map_option (\<lambda>b. or (push_bit 4 hi) lo # b) (hex_pairs cs)
      | _ \<Rightarrow> None)"
| "hex_pairs _ = Some []"

definition hexDecode :: "string \<Rightarrow> byte list option" where
  "hexDecode s = (if odd (length s) then None else hex_pairs s)"

text \<open>copy into a [32]byte: the first 32 bytes, zero-filled.\<close>

definition bytes32 :: "byte list \<Rightarrow> byte list" where
  "bytes32 b = take 32 b @ replicate (32 - length b) 0"

definition ParseModelID :: "config_lib \<Rightarrow> string \<Rightarrow> go_error + byte list" where
  "ParseModelID lib s =
     (if prefix ''0x'' s \<or> prefix ''0X'' s then
        (let hex = drop 2 s in
         if length hex \<noteq> 64 then Inl (errorf ''ParseModelID: hex model ID must be 64 hex chars'')
         else case hexDecode hex of
           None \<Rightarrow> Inl (errorf ''ParseModelID: invalid hex'')
         | Some b \<Rightarrow> Inr (bytes32 b))
      else Inr (bytes32 (cl_Keccak256 lib (string_bytes s))))"

definition modelIDToHex :: "byte list \<Rightarrow> string" where
  "modelIDToHex i = ''0x'' @ hex_EncodeToString i"

section \<open>REDIS\_URL\<close>

record redis_options =
  ro_Addr :: string
  ro_Username :: string
  ro_Password :: string
  ro_DB :: int

text \<open>An error of redis.ParseURL: its text and, when a *url.Error is in the chain, the text inside that.\<close>

record parse_error =
  pe_msg :: string
  pe_urlErr :: "string option"

definition redisURLFaultByPrefix :: "(string \<times> string) list" where
  "redisURLFaultByPrefix =
     [(''net/url: invalid control character'', ''control character''),
      (''missing protocol scheme'', ''missing scheme''),
      (''first path segment in URL cannot contain colon'', ''missing scheme''),
      (''net/url: invalid userinfo'', ''bad character in user or password''),
      (''invalid port'', ''bad port''),
      (''invalid URL escape'', ''bad percent-escape''),
      (''invalid character'', ''bad host''),
      (''invalid IP-literal'', ''bad host''),
      (''missing '' @ [CHR 0x27] @ '']'' @ [CHR 0x27] @ '' in host'', ''bad host''),
      (''invalid host'', ''bad host''),
      (''redis: invalid URL scheme'', ''bad scheme, want redis, rediss or unix''),
      (''redis: invalid database number'', ''bad database number''),
      (''redis: invalid URL path'', ''bad path, want /<database number>''),
      (''redis: empty unix socket path'', ''empty unix socket path''),
      (''redis: unexpected option'', ''unknown query option''),
      (''redis: invalid '', ''bad query option value'')]"

definition redisURLFault :: "parse_error \<Rightarrow> string" where
  "redisURLFault err =
     (let msg = (case pe_urlErr err of Some m \<Rightarrow> m | None \<Rightarrow> pe_msg err) in
      case find (\<lambda>(p, fault). prefix p msg) redisURLFaultByPrefix of Some (p, fault) \<Rightarrow> fault | None \<Rightarrow> ''malformed URL'')"

definition RedisOptions :: "(string \<Rightarrow> parse_error + redis_options) \<Rightarrow> string \<Rightarrow> string \<Rightarrow> go_error + redis_options" where
  "RedisOptions ParseURL redisURL password =
     (case ParseURL redisURL of
        Inl err \<Rightarrow> Inl (errorf (''invalid REDIS_URL: '' @ redisURLFault err @
          '' (URL not shown, it may hold a password; a password's special characters must be percent-encoded)''))
      | Inr opts \<Rightarrow> Inr (if password \<noteq> [] then opts\<lparr>ro_Password := password\<rparr> else opts))"

section \<open>Runs without errors\<close>

text \<open>
  A parser only appends to the error list, so a run of the loader that ends without errors is a run of
  each of its parsers without errors.
\<close>

named_theorems loading_rules

definition appends :: "'a loading \<Rightarrow> bool" where
  "appends p \<longleftrightarrow> (\<forall>errs. \<exists>es. snd (run_state p errs) = errs @ es)"

definition clean :: "'a loading \<Rightarrow> 'a \<Rightarrow> bool" where
  "clean p v \<longleftrightarrow> run_state p [] = (v, [])"

lemma appends_ret [loading_rules]: "appends (ret v)"
  by (simp add: appends_def)

lemma appends_get [loading_rules]: "appends State_Monad.get"
  by (simp add: appends_def State_Monad.get_def)

lemma appends_err [loading_rules]: "appends (append_err m)"
  by (simp add: appends_def append_err_def)

lemma appends_bind [loading_rules]: "appends p \<Longrightarrow> (\<And>v. appends (f v)) \<Longrightarrow> appends (State_Monad.bind p f)"
  unfolding appends_def by (auto split: prod.splits) (metis append.assoc snd_conv)

lemma appends_if [loading_rules]: "(b \<Longrightarrow> appends p) \<Longrightarrow> (\<not> b \<Longrightarrow> appends q) \<Longrightarrow> appends (if b then p else q)"
  by simp

lemma appends_option [loading_rules]: "(x = None \<Longrightarrow> appends p) \<Longrightarrow> (\<And>y. appends (f y)) \<Longrightarrow> appends (case x of None \<Rightarrow> p | Some y \<Rightarrow> f y)"
  by (simp split: option.splits)

lemma appends_prod [loading_rules]: "(\<And>a b. appends (f a b)) \<Longrightarrow> appends (case x of (a, b) \<Rightarrow> f a b)"
  by (simp split: prod.splits)

lemma appends_let [loading_rules]: "(\<And>v. appends (f v)) \<Longrightarrow> appends (let v = x in f v)"
  by simp

lemma clean_ret [simp]: "clean (ret v) w \<longleftrightarrow> v = w"
  by (auto simp: clean_def)

lemma clean_err [simp]: "\<not> clean (append_err m) u"
  by (simp add: clean_def append_err_def)

lemma clean_bind: "(\<And>v. appends (f v)) \<Longrightarrow> clean (State_Monad.bind p f) c \<longleftrightarrow> (\<exists>v. clean p v \<and> clean (f v) c)"
proof -
  assume f: "\<And>v. appends (f v)"
  obtain v es where p: "run_state p [] = (v, es)" by (metis surj_pair)
  obtain es' where "snd (run_state (f v) es) = es @ es'" using f unfolding appends_def by metis
  then show ?thesis using p by (auto simp: clean_def)
qed

lemma appends_parsers [loading_rules]:
  "appends (parseDuration lib env k ds)" "appends (parseBool env k b)" "appends (parseInt env k i)" "appends (parseUint64 env k u)"
  "appends (override_with env parse what k t)" "appends (required_address lib env k)" "appends (optional_address lib env k)"
  "appends (load_chainID env)" "appends (load_maxGas env)" "appends (load_models env)" "appends (non_negative k i)"
  unfolding parseDuration_def parseBool_def parseInt_def parseUint64_def override_with_def required_address_def optional_address_def
    load_chainID_def load_maxGas_def load_models_def non_negative_def Let_def
  by (intro loading_rules)+

lemma appends_overrides [loading_rules]:
  "appends (overrideBool env k b)" "appends (overrideDuration lib env k i)" "appends (overrideInt env k i)" "appends (overrideUint64 env k u)"
  by (simp_all add: overrideBool_def overrideDuration_def overrideInt_def overrideUint64_def loading_rules)

lemma appends_option_pairs [loading_rules]: "appends (option_pairs lib name pairs seen opts ok)"
  by (induction pairs arbitrary: seen opts ok) (auto intro!: loading_rules)

lemma appends_option_entries [loading_rules]: "appends (option_entries lib ms entries out)"
  by (induction entries arbitrary: out) (auto simp: Let_def intro!: loading_rules)

lemma appends_stages [loading_rules]:
  "appends (parseModelOptions lib raw ms)" "appends (load_chain lib env c)" "appends (load_timeouts lib env c)" "appends (load_streaming lib env c)"
  "appends (load_voice lib env c)" "appends (load_release lib env c)" "appends (load_sortition lib env c)"
  unfolding load_chain_def load_timeouts_def load_streaming_def load_voice_def load_release_def load_sortition_def parseModelOptions_def Let_def
  by (intro loading_rules)+

section \<open>The two loaders of the release configuration\<close>

lemma Load_clean: "Load lib env = Inr c \<longleftrightarrow> clean (load_all lib env) c"
  by (auto simp: Load_def clean_def split: prod.splits)

lemma ConfigFromEnv_clean: "ConfigFromEnv lib env = Inr r \<longleftrightarrow> clean (release_from_env lib env) r"
  by (auto simp: ConfigFromEnv_def clean_def split: prod.splits)

lemma load_release_fields:
  assumes "clean (load_release lib env c) c'"
  shows "clean (parseBool env ''RELEASE_ENABLED'' True) (cf_ReleaseEnabled c') \<and>
    clean (parseDuration lib env ''RELEASE_INTERVAL'' ''8h'') (cf_ReleaseInterval c') \<and>
    clean (parseDuration lib env ''RELEASE_PROBE_INTERVAL'' ''5m'') (cf_ReleaseProbeInterval c') \<and>
    clean (parseDuration lib env ''RELEASE_TX_TIMEOUT'' ''120s'') (cf_ReleaseTxTimeout c') \<and>
    clean (parseDuration lib env ''RELEASE_RECONCILE_INTERVAL'' ''1h'') (cf_ReleaseReconcileInterval c') \<and>
    clean (parseDuration lib env ''RELEASE_BACKOFF_BASE'' ''15m'') (cf_ReleaseBackoffBase c') \<and>
    clean (parseDuration lib env ''RELEASE_BACKOFF_MAX'' ''24h'') (cf_ReleaseBackoffMax c') \<and>
    clean (parseDuration lib env ''RELEASE_PAUSED_CYCLE_BACKOFF'' ''1h'') (cf_ReleasePausedCycleBackoff c') \<and>
    clean (parseDuration lib env ''RELEASE_STALE_DISPUTE_WARN_AFTER'' ''168h'') (cf_ReleaseStaleDisputeWarnAfter c') \<and>
    clean (parseDuration lib env ''RELEASE_DISPUTE_WINDOW_OVERRIDE'' ''0s'') (cf_ReleaseDisputeWindowOverride c') \<and>
    clean (parseDuration lib env ''RELEASE_DISPUTE_WINDOW_CACHE_TTL'' ''15m'') (cf_ReleaseDisputeWindowCacheTTL c') \<and>
    clean (parseInt env ''RELEASE_BATCH_THRESHOLD'' 20) (cf_ReleaseBatchThreshold c') \<and>
    clean (parseInt env ''RELEASE_MAX_BATCH_SIZE'' 50) (cf_ReleaseMaxBatchSize c') \<and>
    clean (parseUint64 env ''RELEASE_RECONCILE_START_BLOCK'' 0) (cf_ReleaseStartBlock c') \<and>
    clean (parseUint64 env ''RELEASE_RECONCILE_CHUNK_SIZE'' 5000) (cf_ReleaseChunkSize c') \<and>
    clean (parseUint64 env ''RELEASE_RECONCILE_CONFIRMATIONS'' 5) (cf_ReleaseConfirmations c') \<and>
    cf_ReleaseStatePath c' = envOrDefault env ''RELEASE_STATE_PATH'' ''./release_state.json''"
  using assms by (clarsimp simp: load_release_def clean_bind loading_rules)

lemma release_from_env_fields:
  assumes "clean (release_from_env lib env) r"
  shows "clean (overrideBool env ''RELEASE_ENABLED'' True) (Enabled r) \<and>
    clean (overrideDuration lib env ''RELEASE_INTERVAL'' (8 * Hour)) (Interval r) \<and>
    clean (overrideDuration lib env ''RELEASE_PROBE_INTERVAL'' (5 * Minute)) (ProbeInterval r) \<and>
    clean (overrideDuration lib env ''RELEASE_TX_TIMEOUT'' (120 * Second)) (TxTimeout r) \<and>
    clean (overrideDuration lib env ''RELEASE_RECONCILE_INTERVAL'' (Hour)) (ReconcileInterval r) \<and>
    clean (overrideDuration lib env ''RELEASE_BACKOFF_BASE'' (15 * Minute)) (BackoffBase r) \<and>
    clean (overrideDuration lib env ''RELEASE_BACKOFF_MAX'' (24 * Hour)) (BackoffMax r) \<and>
    clean (overrideDuration lib env ''RELEASE_PAUSED_CYCLE_BACKOFF'' (Hour)) (PausedCycleBackoff r) \<and>
    clean (overrideDuration lib env ''RELEASE_STALE_DISPUTE_WARN_AFTER'' (168 * Hour)) (StaleDisputeWarnAfter r) \<and>
    clean (overrideDuration lib env ''RELEASE_DISPUTE_WINDOW_OVERRIDE'' (0)) (DisputeWindowOverride r) \<and>
    clean (overrideDuration lib env ''RELEASE_DISPUTE_WINDOW_CACHE_TTL'' (15 * Minute)) (DisputeWindowCacheTTL r) \<and>
    clean (overrideInt env ''RELEASE_BATCH_THRESHOLD'' 20) (BatchThreshold r) \<and>
    clean (overrideInt env ''RELEASE_MAX_BATCH_SIZE'' 50) (MaxBatchSize r) \<and>
    clean (overrideUint64 env ''RELEASE_RECONCILE_START_BLOCK'' 0) (StartBlock r) \<and>
    clean (overrideUint64 env ''RELEASE_RECONCILE_CHUNK_SIZE'' 5000) (ChunkSize r) \<and>
    clean (overrideUint64 env ''RELEASE_RECONCILE_CONFIRMATIONS'' 5) (Confirmations r) \<and>
    StatePath r = envOrDefault env ''RELEASE_STATE_PATH'' ''./release_state.json''"
  using assms by (clarsimp simp: release_from_env_def clean_bind loading_rules Let_def DefaultConfig_def)

lemma load_sortition_release: "clean (load_sortition lib env c) c' \<Longrightarrow> buildReleaseConfig c' = buildReleaseConfig c"
  by (auto simp: load_sortition_def clean_bind loading_rules buildReleaseConfig_def)

lemma ParseDuration_defaults [simp]:
  "ParseDuration fl ''0s'' = Some 0" "ParseDuration fl ''100ms'' = Some (100 * Millisecond)" "ParseDuration fl ''1s'' = Some Second"
  "ParseDuration fl ''2s'' = Some (2 * Second)" "ParseDuration fl ''5s'' = Some (5 * Second)" "ParseDuration fl ''10s'' = Some (10 * Second)"
  "ParseDuration fl ''12s'' = Some (12 * Second)" "ParseDuration fl ''15s'' = Some (15 * Second)" "ParseDuration fl ''20s'' = Some (20 * Second)"
  "ParseDuration fl ''25s'' = Some (25 * Second)" "ParseDuration fl ''30s'' = Some (30 * Second)" "ParseDuration fl ''90s'' = Some (90 * Second)"
  "ParseDuration fl ''120s'' = Some (120 * Second)" "ParseDuration fl ''5m'' = Some (5 * Minute)" "ParseDuration fl ''15m'' = Some (15 * Minute)"
  "ParseDuration fl ''1h'' = Some Hour" "ParseDuration fl ''2h'' = Some (2 * Hour)" "ParseDuration fl ''8h'' = Some (8 * Hour)"
  "ParseDuration fl ''24h'' = Some (24 * Hour)" "ParseDuration fl ''168h'' = Some (168 * Hour)"
  by (simp_all add: ParseDuration_def duration_loop.simps duration_part_def numeric_char_def digit_val_def duration_unit_def Let_def)

lemma clean_override: "clean (override_with env parse what k t) v \<longleftrightarrow> (if env k = [] then v = t else parse (env k) = Some v)"
  by (auto simp: override_with_def clean_bind loading_rules split: option.splits)

lemma clean_parseDuration: "clean (parseDuration lib env k ds) v \<longleftrightarrow> ParseDuration (cl_fraction lib) (envOrDefault env k ds) = Some v"
  by (auto simp: parseDuration_def clean_bind loading_rules split: option.splits)

lemma clean_parseInt: "clean (parseInt env k d) v \<longleftrightarrow> (if env k = [] then v = d else ParseInt (env k) = Some v)"
  by (auto simp: parseInt_def ParseInt_SetString clean_bind loading_rules split: option.splits)

lemma clean_parseUint64: "clean (parseUint64 env k d) v \<longleftrightarrow> (if env k = [] then v = d else SetString (env k) = Some (uint v))"
  using unsigned_less [of v, where ?'a = int] by (auto simp: parseUint64_def clean_bind loading_rules uint_word_of_int split: option.splits)

lemma parseBool_ParseBool: "clean (parseBool env k b) v \<Longrightarrow> ParseBool (env k) = Some w \<Longrightarrow> v = w"
  by (auto simp: ParseBool_def parseBool_def TrimSpace_def is_space_def strings_ToLower_def to_lower_char_def char_of_def Let_def clean_bind loading_rules split: if_splits)

lemma agree_Bool: "clean (parseBool env k b) v \<Longrightarrow> clean (overrideBool env k b) w \<Longrightarrow> v = w"
  using parseBool_ParseBool [of env k b v w]
  by (auto simp: overrideBool_def clean_override parseBool_def TrimSpace_def split: if_splits)

lemma agree_Duration: "clean (parseDuration lib env k ds) v \<Longrightarrow> clean (overrideDuration lib env k d) w \<Longrightarrow> ParseDuration (cl_fraction lib) ds = Some d \<Longrightarrow> v = w"
  by (auto simp: overrideDuration_def clean_override clean_parseDuration envOrDefault_def split: if_splits)

lemma agree_Int: "clean (parseInt env k d) v \<Longrightarrow> clean (overrideInt env k d) w \<Longrightarrow> v = w"
  by (auto simp: overrideInt_def clean_override clean_parseInt split: if_splits)

lemma agree_Uint: "clean (parseUint64 env k d) v \<Longrightarrow> clean (overrideUint64 env k d) w \<Longrightarrow> v = w"
  using ParseUint_SetString [of "env k" w] by (auto simp: overrideUint64_def clean_override clean_parseUint64 word_uint_eq_iff split: if_splits sum.splits)

lemma validate_release_part_iff: "validate_release_part c = [] \<longleftrightarrow> Release_Config.Validate (buildReleaseConfig c) = []"
  by (auto simp: validate_release_part_def Release_Config.Validate_def buildReleaseConfig_def)

lemma release_parts_agree:
  assumes "clean (load_release lib env c) c'" "clean (release_from_env lib env) r"
  shows "buildReleaseConfig c' = r"
proof -
  note a = load_release_fields [OF assms(1)] and b = release_from_env_fields [OF assms(2)]
  have
    "cf_ReleaseEnabled c' = Enabled r \<and> cf_ReleaseInterval c' = Interval r \<and> cf_ReleaseProbeInterval c' = ProbeInterval r \<and>
     cf_ReleaseBatchThreshold c' = BatchThreshold r \<and> cf_ReleaseMaxBatchSize c' = MaxBatchSize r \<and>
     cf_ReleaseTxTimeout c' = TxTimeout r \<and> cf_ReleaseStartBlock c' = StartBlock r \<and> cf_ReleaseChunkSize c' = ChunkSize r \<and>
     cf_ReleaseConfirmations c' = Confirmations r \<and> cf_ReleaseReconcileInterval c' = ReconcileInterval r \<and>
     cf_ReleaseBackoffBase c' = BackoffBase r \<and> cf_ReleaseBackoffMax c' = BackoffMax r \<and>
     cf_ReleasePausedCycleBackoff c' = PausedCycleBackoff r \<and> cf_ReleaseStaleDisputeWarnAfter c' = StaleDisputeWarnAfter r \<and>
     cf_ReleaseDisputeWindowOverride c' = DisputeWindowOverride r \<and>
     cf_ReleaseDisputeWindowCacheTTL c' = DisputeWindowCacheTTL r \<and> cf_ReleaseStatePath c' = StatePath r"
    using a b by (elim conjE, intro conjI)
      (erule (1) agree_Bool | erule (1) agree_Int | erule (1) agree_Uint | (erule (1) agree_Duration, rule ParseDuration_defaults) | erule (1) trans [OF _ sym])+
  then show ?thesis by (simp add: buildReleaseConfig_def)
qed

lemma unset_parsers:
  assumes "env k = []"
  shows "parseInt env k i = ret i" "parseUint64 env k u = ret u" "parseBool env k b = ret b" "envOrDefault env k d = d"
    "ParseDuration (cl_fraction lib) ds = Some n \<Longrightarrow> parseDuration lib env k ds = ret n" "optional_address lib env k = ret 0"
  using assms by (simp_all add: parseInt_def parseUint64_def parseBool_def envOrDefault_def parseDuration_def optional_address_def TrimSpace_def)

end
