(* ===== verification/Config_Properties.thy ===== *)
theory Config_Properties
  imports Config_Checks
begin

text \<open>
  What loading and validating the configuration guarantees: the worker and the CLI read the same release
  configuration, the defaults are a valid configuration, MODEL_OPTIONS entries are well formed, model ids
  round-trip, and the metrics endpoint is not public by accident.
\<close>

section \<open>Defaults\<close>

definition required_vars :: "string list" where
  "required_vars = [''WORKER_KEYSTORE_PATH'', ''WORKER_KEYSTORE_PASSWORD'', ''CHAIN_ID'', ''WORKER_REGISTRY_ADDRESS'',
     ''AI_CONFIG_ADDRESS'', ''JOB_REGISTRY_ADDRESS'', ''SUPPORTED_MODELS'']"

definition only_required :: "config_lib \<Rightarrow> environment \<Rightarrow> bool" where
  "only_required lib env \<longleftrightarrow> (\<forall>k. k \<notin> set (''MODEL_OPTIONS'' # required_vars) \<longrightarrow> env k = []) \<and>
     env ''WORKER_KEYSTORE_PATH'' \<noteq> [] \<and> env ''WORKER_KEYSTORE_PASSWORD'' \<noteq> [] \<and>
     (\<exists>n. SetString (env ''CHAIN_ID'') = Some n \<and> 0 < n \<and> n < 2 ^ 63) \<and>
     (\<forall>k\<in>set [''WORKER_REGISTRY_ADDRESS'', ''AI_CONFIG_ADDRESS'', ''JOB_REGISTRY_ADDRESS''].
        env k \<noteq> [] \<and> cl_IsHexAddress lib (env k) \<and> cl_HexToAddress lib (env k) \<noteq> 0) \<and>
     split_models (env ''SUPPORTED_MODELS'') \<noteq> []"

lemma Split_nil_models [simp]: "split_models [] = []"
  by (simp add: split_models_def TrimSpace_def)

lemma load_chain_required:
  assumes "only_required lib env" "SetString (env ''CHAIN_ID'') = Some n" "0 < n" "n < 2 ^ 63"
  shows "load_chain lib env c = ret (c\<lparr>cf_ChainID := n, cf_WorkerRegistryAddress := cl_HexToAddress lib (env ''WORKER_REGISTRY_ADDRESS''),
    cf_AIConfigAddress := cl_HexToAddress lib (env ''AI_CONFIG_ADDRESS''), cf_JobRegistryAddress := cl_HexToAddress lib (env ''JOB_REGISTRY_ADDRESS''),
    cf_GasPriceMultiplierBps := 11000, cf_MaxGasPrice := Some (100 * 1000000000), cf_SupportedModels := split_models (env ''SUPPORTED_MODELS'')\<rparr>)"
proof -
  have u: "env ''GAS_PRICE_MULTIPLIER_BPS'' = []" "env ''MAX_GAS_PRICE'' = []" using assms(1) by (simp_all add: only_required_def required_vars_def)
  have "env ''CHAIN_ID'' \<noteq> []" "env ''SUPPORTED_MODELS'' \<noteq> []" using assms(1,2) by (auto simp: only_required_def SetString_def)
  then show ?thesis using assms u
    by (simp add: load_chain_def load_chainID_def load_maxGas_def load_models_def required_address_def unset_parsers in_i64_def only_required_def Let_def)
qed

text \<open>With nothing but these variables every other parser returns its default.\<close>

lemma default_load:
  assumes "only_required lib env"
  shows "\<exists>C. load_all lib env = (do { mo \<leftarrow> parseModelOptions lib (env ''MODEL_OPTIONS'') (split_models (env ''SUPPORTED_MODELS'')); ret (C mo) }) \<and>
    (\<forall>mo. Validate lib (C mo) = [] \<and> buildReleaseConfig (C mo) = DefaultConfig \<and> cf_SupportedModels (C mo) = split_models (env ''SUPPORTED_MODELS'') \<and>
      cf_ModelOptions (C mo) = mo \<and> cf_MetricsListenAddr (C mo) = ''127.0.0.1:9101'' \<and> \<not> cf_MetricsAllowPublic (C mo))"
proof -
  obtain n where n: "SetString (env ''CHAIN_ID'') = Some n" "0 < n" "n < 2 ^ 63" using assms by (auto simp: only_required_def)
  have u: "k \<notin> set (''MODEL_OPTIONS'' # required_vars) \<Longrightarrow> env k = []" for k using assms by (simp add: only_required_def)
  note u = u [unfolded required_vars_def]
  have r: "env ''WORKER_KEYSTORE_PATH'' \<noteq> []" "env ''WORKER_KEYSTORE_PASSWORD'' \<noteq> []" "split_models (env ''SUPPORTED_MODELS'') \<noteq> []"
    "cl_HexToAddress lib (env ''WORKER_REGISTRY_ADDRESS'') \<noteq> 0" "cl_HexToAddress lib (env ''AI_CONFIG_ADDRESS'') \<noteq> 0"
    "cl_HexToAddress lib (env ''JOB_REGISTRY_ADDRESS'') \<noteq> 0"
    using assms by (simp_all add: only_required_def)
  have stages: "load_all lib env = (do { c2 \<leftarrow> load_timeouts lib env c; c3 \<leftarrow> load_streaming lib env c2; c4 \<leftarrow> load_voice lib env c3; c5 \<leftarrow> load_release lib env c4; load_sortition lib env c5 })"
    if "load_chain lib env (load_strings env) = ret c" for c using that by (simp add: load_all_def)
  show ?thesis
    unfolding stages [OF load_chain_required [OF assms n]]
    apply (rule exI, rule conjI)
     apply (simp add: load_timeouts_def load_streaming_def load_voice_def load_release_def load_sortition_def unset_parsers u non_negative_def)
    apply (simp add: Validate_def validate_core_def validate_features_def validate_release_part_def buildReleaseConfig_def DefaultConfig_def load_strings_def r n not_le u
      unset_parsers ValidateListenAddr_def SplitHost_def cutLast_def)
    done
qed

lemma default_Load:
  assumes "only_required lib env" "clean (parseModelOptions lib (env ''MODEL_OPTIONS'') (split_models (env ''SUPPORTED_MODELS''))) mo"
  shows "\<exists>c. Load lib env = Inr c \<and> Validate lib c = [] \<and> buildReleaseConfig c = DefaultConfig \<and> cf_SupportedModels c = split_models (env ''SUPPORTED_MODELS'') \<and>
    cf_ModelOptions c = mo \<and> cf_MetricsListenAddr c = ''127.0.0.1:9101'' \<and> \<not> cf_MetricsAllowPublic c"
proof -
  from default_load [OF assms(1)] obtain C where
    "load_all lib env = (do { mo \<leftarrow> parseModelOptions lib (env ''MODEL_OPTIONS'') (split_models (env ''SUPPORTED_MODELS'')); ret (C mo) })" and
    C: "\<forall>mo. Validate lib (C mo) = [] \<and> buildReleaseConfig (C mo) = DefaultConfig \<and> cf_SupportedModels (C mo) = split_models (env ''SUPPORTED_MODELS'') \<and>
      cf_ModelOptions (C mo) = mo \<and> cf_MetricsListenAddr (C mo) = ''127.0.0.1:9101'' \<and> \<not> cf_MetricsAllowPublic (C mo)" by blast
  then have "Load lib env = Inr (C mo)" using assms(2) by (auto simp: Load_clean clean_bind loading_rules)
  then show ?thesis using C by blast
qed

section \<open>Model options\<close>

text \<open>
  What an entry of MODEL_OPTIONS may set: zero and empty mean that the process-wide value stays. The range
  check on the temperature lets a NaN pass.
\<close>

definition good_options :: "config_lib \<Rightarrow> ClientOptions \<Rightarrow> bool" where
  "good_options lib opts \<longleftrightarrow>
     -2 \<le> opt_NumPredict opts \<and> in_i64 (opt_NumPredict opts) \<and> 0 \<le> opt_NumCtx opts \<and> in_i64 (opt_NumCtx opts) \<and>
     opt_ThinkLevel opts \<in> set [[], ''low'', ''medium'', ''high''] \<and>
     (case opt_Temperature opts of
        None \<Rightarrow> True
      | Some t \<Rightarrow> cl_ParseFloat lib t = Some F_NaN \<or> (\<exists>q. cl_ParseFloat lib t = Some (F_Fin q) \<and> 0 \<le> q \<and> q \<le> 2)) \<and>
     opt_KeepAlive opts = [] \<and> opt_Think opts = None \<and> opt_Format opts = None"

lemma good_no_options: "good_options lib no_options"
  by (simp add: good_options_def no_options_def in_i64_def)

lemma temperature_range: "\<not> f_less v (F_Fin 0) \<Longrightarrow> \<not> f_less (F_Fin 2) v \<Longrightarrow> v = F_NaN \<or> (\<exists>q. v = F_Fin q \<and> 0 \<le> q \<and> q \<le> 2)"
  by (cases v) auto

lemma option_value_cases:
  assumes "option_value lib k v opts = Some opts'"
  obtains n where "opts' = opts\<lparr>opt_NumPredict := n\<rparr>" "-2 \<le> n" "in_i64 n"
  | n where "opts' = opts\<lparr>opt_NumCtx := n\<rparr>" "0 < n" "in_i64 n"
  | x where "opts' = opts\<lparr>opt_Temperature := Some v\<rparr>" "cl_ParseFloat lib v = Some x" "\<not> f_less x (F_Fin 0)" "\<not> f_less (F_Fin 2) x"
  | "opts' = opts\<lparr>opt_ThinkLevel := v\<rparr>" "v \<in> set [''low'', ''medium'', ''high'']"
proof -
  consider "k = ''num_predict''" | "k = ''num_ctx''" | "k = ''temperature''" | "k = ''think''"
    using assms unfolding option_value_def by (meson option.distinct(1))
  then show thesis
  proof cases
    case 1
    then show thesis using assms that(1) by (auto simp: option_value_def ParseInt_SetString not_less split: option.split_asm if_split_asm)
  next
    case 2
    then show thesis using assms that(2) by (auto simp: option_value_def ParseInt_SetString not_le split: option.split_asm if_split_asm)
  next
    case 3
    then show thesis using assms that(3) by (auto simp: option_value_def split: option.split_asm if_split_asm)
  next
    case 4
    then show thesis using assms that(4) by (simp add: option_value_def split: if_split_asm)
  qed
qed

lemma good_option_value: "option_value lib k v opts = Some opts' \<Longrightarrow> good_options lib opts \<Longrightarrow> good_options lib opts'"
  by (erule option_value_cases) (auto simp: good_options_def dest: temperature_range)

lemma good_option_pairs:
  "clean (option_pairs lib name pairs seen opts ok) (opts', ok') \<Longrightarrow> good_options lib opts \<Longrightarrow> good_options lib opts'"
proof (induction pairs arbitrary: seen opts ok)
  case (Cons pair pairs)
  then show ?case
    by (auto simp: clean_bind loading_rules dest: good_option_value split: prod.splits if_splits option.splits)
qed simp

definition good_entries :: "config_lib \<Rightarrow> string list \<Rightarrow> (string \<times> ClientOptions) list \<Rightarrow> bool" where
  "good_entries lib supported out \<longleftrightarrow> distinct (map fst out) \<and> (\<forall>(name, opts)\<in>set out. name \<in> set supported \<and> good_options lib opts)"

lemma good_entries_add:
  "good_entries lib supported out \<Longrightarrow> name \<in> set supported \<Longrightarrow> name \<notin> fst ` set out \<Longrightarrow> good_options lib opts \<Longrightarrow> good_entries lib supported (out @ [(name, opts)])"
  by (auto simp: good_entries_def)

lemma good_option_entries:
  "clean (option_entries lib supported entries out) out' \<Longrightarrow> good_entries lib supported out \<Longrightarrow> good_entries lib supported out'"
proof (induction entries arbitrary: out)
  case (Cons entry entries)
  obtain before pairs found where cut: "cutLast (TrimSpace entry) (CHR '':'') = (before, pairs, found)" by (metis prod_cases3)
  show ?case
  proof (cases "TrimSpace entry = []")
    case False
    then obtain opts ok where "clean (option_pairs lib (TrimSpace before) (strings_Split (CHR '','') pairs) [] no_options True) (opts, ok)"
      "clean (option_entries lib supported entries (if ok then out @ [(TrimSpace before, opts)] else out)) out'"
      "TrimSpace before \<in> set supported" "TrimSpace before \<notin> fst ` set out"
      using Cons.prems(1) cut by (auto simp: clean_bind loading_rules Let_def split: if_split_asm)
    then show ?thesis using Cons.IH good_option_pairs [OF _ good_no_options] good_entries_add [OF Cons.prems(2)] Cons.prems(2) by (metis (full_types))
  qed (use Cons in simp)
qed simp

lemma clean_get [simp]: "clean State_Monad.get v \<longleftrightarrow> v = []"
  by (auto simp: clean_def State_Monad.get_def)

lemma clean_get_errs: "clean (do { out \<leftarrow> p; errs \<leftarrow> State_Monad.get; ret (if errs \<noteq> [] then [] else out) }) v \<longleftrightarrow> clean p v"
  by (auto simp: clean_def State_Monad.get_def split: prod.splits)

lemma good_parseModelOptions: "clean (parseModelOptions lib raw supported) out \<Longrightarrow> good_entries lib supported out"
  unfolding parseModelOptions_def Let_def clean_get_errs if_distrib [of "\<lambda>p. clean p out"]
  using good_option_entries [of lib supported _ "[]" out] by (auto simp: good_entries_def split: if_split_asm)

section \<open>Model ids\<close>

lemma hexNibble_value: "hexNibble c = map_option of_nat (hex_value c)"
  by (auto simp: hex_value_def hexNibble_def Let_def)

lemma hex_value_lt: "hex_value c = Some m \<Longrightarrow> m < 16"
  by (auto simp: hex_value_def Let_def split: if_splits)

lemma join_nibbles:
  assumes "lo < 16"
  shows "or (push_bit 4 (of_nat hi)) (of_nat lo) = (of_nat (16 * hi + lo) :: byte)"
proof -
  have "(of_nat lo :: byte) = take_bit 4 (of_nat lo)" using assms by (simp add: take_bit_of_nat take_bit_nat_eq_self)
  moreover have "and (push_bit 4 (of_nat hi)) (take_bit 4 (of_nat lo :: byte)) = 0" by (auto simp: bit_eq_iff bit_simps)
  ultimately have "and (push_bit 4 (of_nat hi)) (of_nat lo :: byte) = 0" by simp
  then have "push_bit 4 (of_nat hi) + of_nat lo = or (push_bit 4 (of_nat hi)) (of_nat lo :: byte)" by (rule disjunctive_add_eq_or)
  then show ?thesis by (simp add: push_bit_eq_mult mult.commute)
qed

lemma hex_pairs_stdlib: "even (length s) \<Longrightarrow> hex_pairs s = hex_DecodeString s"
proof (induction s rule: hex_DecodeString.induct)
  case (3 c d cs)
  then show ?case by (auto simp: hexNibble_value join_nibbles dest: hex_value_lt split: option.splits)
qed simp_all

lemma DecodeString_length: "hex_DecodeString s = Some b \<Longrightarrow> length s = 2 * length b"
  by (induction s arbitrary: b rule: hex_DecodeString.induct) (auto split: option.splits)

lemma DecodeString_odd: "odd (length s) \<Longrightarrow> hex_DecodeString s = None"
  using DecodeString_length by (cases "hex_DecodeString s") fastforce+

lemma hexDecode_stdlib: "hexDecode s = hex_DecodeString s"
  by (simp add: hexDecode_def hex_pairs_stdlib DecodeString_odd)

lemma Encode_length: "length (hex_EncodeToString b) = 2 * length b"
  by (induction b) (simp_all add: hex_EncodeToString_def)

section \<open>Frames of the loader\<close>

lemma later_stages_keep_models:
  "clean (load_voice lib env c) c' \<Longrightarrow> (cf_ModelOptions c', cf_SupportedModels c') = (cf_ModelOptions c, cf_SupportedModels c)"
  "clean (load_release lib env c) c' \<Longrightarrow> (cf_ModelOptions c', cf_SupportedModels c') = (cf_ModelOptions c, cf_SupportedModels c)"
  "clean (load_sortition lib env c) c' \<Longrightarrow> (cf_ModelOptions c', cf_SupportedModels c') = (cf_ModelOptions c, cf_SupportedModels c)"
  by (auto simp: load_voice_def load_release_def load_sortition_def clean_bind loading_rules)

lemma load_streaming_models:
  "clean (load_streaming lib env c) c' \<Longrightarrow> cf_SupportedModels c' = cf_SupportedModels c \<and> clean (parseModelOptions lib (env ''MODEL_OPTIONS'') (cf_SupportedModels c)) (cf_ModelOptions c')"
  by (auto simp: load_streaming_def clean_bind loading_rules)

lemma Load_models:
  assumes "Load lib env = Inr c"
  shows "clean (parseModelOptions lib (env ''MODEL_OPTIONS'') (cf_SupportedModels c)) (cf_ModelOptions c)"
proof -
  obtain c2 c3 c4 c5 where "clean (load_streaming lib env c2) c3" "clean (load_voice lib env c3) c4" "clean (load_release lib env c4) c5" "clean (load_sortition lib env c5) c"
    using assms by (auto simp: Load_clean load_all_def clean_bind loading_rules)
  then show ?thesis by (auto dest!: load_streaming_models later_stages_keep_models)
qed

section \<open>Properties\<close>

text \<open>A concrete environment and library for the witnesses.\<close>

definition demo_cfg_lib :: config_lib where
  "demo_cfg_lib = \<lparr>cl_IsHexAddress = \<lambda>s. s \<noteq> [], cl_HexToAddress = \<lambda>s. 1, cl_Keccak256 = \<lambda>b. take 32 b,
     cl_urlParse = \<lambda>s. None, cl_IsLoopback = \<lambda>s. False, cl_ParseFloat = \<lambda>s. if s = ''NaN'' then Some F_NaN else None, cl_fraction = \<lambda>f u s. f * u div s\<rparr>"

definition demo_env :: environment where
  "demo_env k = (case map_of (zip (''MODEL_OPTIONS'' # required_vars)
     [''gpt-oss:20b:num_predict=2048,temperature=NaN;'', ''k'', ''p'', ''7'', ''a'', ''b'', ''c'', ''m, gpt-oss:20b'']) k of None \<Rightarrow> [] | Some v \<Rightarrow> v)"

lemma demo_models: "split_models (demo_env ''SUPPORTED_MODELS'') = [''m'', ''gpt-oss:20b'']"
  by (simp add: demo_env_def required_vars_def split_models_def TrimSpace_def is_space_def)

lemma demo_env_required: "only_required demo_cfg_lib demo_env"
proof -
  have "demo_env k = []" if "k \<notin> set (''MODEL_OPTIONS'' # required_vars)" for k using that by (simp add: demo_env_def required_vars_def)
  then show ?thesis using demo_models
    by (simp add: only_required_def) (simp add: demo_env_def required_vars_def demo_cfg_lib_def SetString_def digit_val_def)
qed

lemma demo_model_options: "clean (parseModelOptions demo_cfg_lib (demo_env ''MODEL_OPTIONS'') (split_models (demo_env ''SUPPORTED_MODELS'')))
    [(''gpt-oss:20b'', no_options\<lparr>opt_NumPredict := 2048, opt_Temperature := Some ''NaN''\<rparr>)]"
  unfolding demo_models
  by (simp add: demo_env_def parseModelOptions_def clean_get_errs TrimSpace_def is_space_def cutLast_def strings_Cut_def option_value_def
    ParseInt_def digit_val_def demo_cfg_lib_def clean_bind loading_rules Let_def)

text \<open>
  C18. One environment, one release configuration. Whenever both the worker's loader and the CLI's loader accept
  the environment, the release configuration the worker builds is the one the CLI reads; and the worker's checks
  on those fields accept it exactly when the release package's own Validate does.
\<close>

theorem loaders_agree:
  assumes "Load lib env = Inr c" "ConfigFromEnv lib env = Inr r"
  shows "buildReleaseConfig c = r \<and> (validate_release_part c = [] \<longleftrightarrow> Release_Config.Validate r = [])"
proof -
  obtain c4 c5 where "clean (load_release lib env c4) c5" "clean (load_sortition lib env c5) c"
    using assms(1) by (auto simp: Load_clean load_all_def clean_bind loading_rules)
  then have "buildReleaseConfig c = r"
    using release_parts_agree assms(2) load_sortition_release by (metis ConfigFromEnv_clean)
  then show ?thesis using validate_release_part_iff by blast
qed

theorem loaders_agree_witness:
  "\<exists>c r. Load demo_cfg_lib demo_env = Inr c \<and> ConfigFromEnv demo_cfg_lib demo_env = Inr r \<and> buildReleaseConfig c = r \<and> Release_Config.Validate r = []"
proof -
  obtain c where c: "Load demo_cfg_lib demo_env = Inr c" using default_Load [OF demo_env_required demo_model_options] by blast
  have u: "demo_env k = []" if "k \<notin> set (''MODEL_OPTIONS'' # required_vars)" for k using that by (simp add: demo_env_def required_vars_def)
  have "ConfigFromEnv demo_cfg_lib demo_env = Inr DefaultConfig"
    by (simp add: ConfigFromEnv_def release_from_env_def overrideBool_def overrideDuration_def overrideInt_def overrideUint64_def override_with_def
      envOrDefault_def u required_vars_def Let_def)
  then show ?thesis using c loaders_agree [of demo_cfg_lib demo_env c DefaultConfig] DefaultConfig_valid by blast
qed

text \<open>
  The defaults are a working configuration. An environment that sets the seven required variables, well
  formed, and at most a MODEL_OPTIONS that parses, loads; the result passes Validate, its release part is
  release.DefaultConfig(), it has the listed models and the parsed overrides.
\<close>

theorem default_environment_valid:
  assumes "only_required lib env" "clean (parseModelOptions lib (env ''MODEL_OPTIONS'') (split_models (env ''SUPPORTED_MODELS''))) mo"
  shows "\<exists>c. Load lib env = Inr c \<and> Validate lib c = [] \<and> buildReleaseConfig c = DefaultConfig \<and>
    cf_SupportedModels c = split_models (env ''SUPPORTED_MODELS'') \<and> cf_ModelOptions c = mo"
  using default_Load [OF assms] by blast

theorem default_environment_valid_witness:
  "\<exists>c. Load demo_cfg_lib demo_env = Inr c \<and> Validate demo_cfg_lib c = [] \<and> cf_SupportedModels c = [''m'', ''gpt-oss:20b'']"
  using default_environment_valid [OF demo_env_required demo_model_options] unfolding demo_models by blast

text \<open>
  C35. Overrides in force are well formed. In a configuration that loaded, MODEL_OPTIONS names each model at most
  once, only models of SUPPORTED_MODELS, and sets only num_predict (positive, -1 or -2), num_ctx (positive), a think
  level, and a temperature that lies in [0, 2] or is a NaN.
\<close>

theorem model_options_well_formed:
  assumes "Load lib env = Inr c"
  shows "distinct (map fst (cf_ModelOptions c)) \<and> (\<forall>(name, opts)\<in>set (cf_ModelOptions c). name \<in> set (cf_SupportedModels c) \<and> good_options lib opts)"
  using good_parseModelOptions [OF Load_models [OF assms]] by (simp add: good_entries_def)

theorem model_options_well_formed_witness:
  "\<exists>c. Load demo_cfg_lib demo_env = Inr c \<and> fst ` set (cf_ModelOptions c) = {''gpt-oss:20b''} \<and> good_options demo_cfg_lib (snd (hd (cf_ModelOptions c))) \<and>
     opt_Temperature (snd (hd (cf_ModelOptions c))) = Some ''NaN''"
proof -
  obtain c where c: "Load demo_cfg_lib demo_env = Inr c"
    "cf_ModelOptions c = [(''gpt-oss:20b'', no_options\<lparr>opt_NumPredict := 2048, opt_Temperature := Some ''NaN''\<rparr>)]"
    using default_Load [OF demo_env_required demo_model_options] by blast
  then show ?thesis using model_options_well_formed [OF c(1)] by auto
qed

text \<open>
  Model ids. hexDecode is encoding/hex's decoder, and every 32-byte id that modelIDToHex prints is read back by
  ParseModelID, whatever the case of its prefix.
\<close>

theorem model_id_round_trip:
  "hexDecode = hex_DecodeString \<and> (length i = 32 \<longrightarrow> ParseModelID lib (modelIDToHex i) = Inr i \<and> ParseModelID lib (''0X'' @ drop 2 (modelIDToHex i)) = Inr i)"
  by (auto simp: hexDecode_stdlib fun_eq_iff ParseModelID_def modelIDToHex_def Encode_length bytes32_def)

theorem model_id_round_trip_witness:
  "ParseModelID demo_cfg_lib (modelIDToHex (replicate 32 171)) = Inr (replicate 32 171)"
  using model_id_round_trip [of "replicate 32 171" demo_cfg_lib] by simp

text \<open>
  Metrics stay private. A validated configuration that does not set WORKER_METRICS_ALLOW_PUBLIC either
  disables the metrics endpoint or binds it to localhost or a loopback address, never to all interfaces.
\<close>

theorem metrics_not_public:
  assumes "Validate lib c = []" "\<not> cf_MetricsAllowPublic c" "cf_MetricsListenAddr c \<noteq> []"
  shows "\<exists>host. SplitHost (cf_MetricsListenAddr c) = Some host \<and> host \<notin> set ['''', ''0.0.0.0'', ''::''] \<and>
    (host \<in> set [''127.0.0.1'', ''localhost'', ''::1''] \<or> cl_IsLoopback lib host)"
proof -
  have "ValidateListenAddr lib (cf_MetricsListenAddr c) (cf_MetricsAllowPublic c) = None"
    using assms(1) by (simp add: Validate_def validate_features_def split: option.splits)
  then show ?thesis using assms(2,3) by (auto simp: ValidateListenAddr_def split: option.splits if_splits)
qed

theorem metrics_not_public_witness:
  "\<exists>c. Validate demo_cfg_lib c = [] \<and> SplitHost (cf_MetricsListenAddr c) = Some ''127.0.0.1''"
proof -
  obtain c where c: "Validate demo_cfg_lib c = []" "cf_MetricsListenAddr c = ''127.0.0.1:9101''" "\<not> cf_MetricsAllowPublic c"
    using default_Load [OF demo_env_required demo_model_options] by blast
  then show ?thesis using metrics_not_public [OF c(1) c(3)] by (auto simp: SplitHost_def cutLast_def)
qed

definition redis_fault_texts :: "string set" where
  "redis_fault_texts = (\<lambda>fault. ''invalid REDIS_URL: '' @ fault @
     '' (URL not shown, it may hold a password; a password's special characters must be percent-encoded)'') `
       insert ''malformed URL'' (snd ` set redisURLFaultByPrefix)"

lemma find_in_set: "find P xs = Some x \<Longrightarrow> x \<in> set xs"
  by (induction xs) (auto split: if_splits)

lemma redisURLFault_fixed: "redisURLFault e \<in> insert ''malformed URL'' (snd ` set redisURLFaultByPrefix)"
  by (force simp: redisURLFault_def Let_def dest: find_in_set split: option.splits)

text \<open>
  A bad REDIS\_URL does not leak. Whatever the URL and however its parser words the failure, the error text is
  one of a fixed set of at most seventeen, so no part of a password reaches the log; REDIS\_PASSWORD, when set,
  replaces the password of the URL.
\<close>

theorem redis_error_hides_url:
  "(case RedisOptions ParseURL redisURL password of
      Inl e \<Rightarrow> err_msg e \<in> redis_fault_texts
    | Inr opts \<Rightarrow> ro_Password opts = (if password \<noteq> [] then password else ro_Password (projr (ParseURL redisURL)))) \<and>
   finite redis_fault_texts \<and> card redis_fault_texts \<le> 17"
proof (intro conjI)
  show "case RedisOptions ParseURL redisURL password of
      Inl e \<Rightarrow> err_msg e \<in> redis_fault_texts
    | Inr opts \<Rightarrow> ro_Password opts = (if password \<noteq> [] then password else ro_Password (projr (ParseURL redisURL)))"
    using redisURLFault_fixed by (auto simp: RedisOptions_def redis_fault_texts_def errorf_def split: sum.splits)
  show "finite redis_fault_texts" by (simp add: redis_fault_texts_def)
  have "card (insert ''malformed URL'' (snd ` set redisURLFaultByPrefix)) \<le> Suc (length redisURLFaultByPrefix)"
    by (intro card_insert_le_m1 order_trans [OF card_image_le]) (simp_all add: card_length)
  then show "card redis_fault_texts \<le> 17"
    unfolding redis_fault_texts_def by (intro order_trans [OF card_image_le]) (simp_all add: redisURLFaultByPrefix_def)
qed

end
