(* ===== verification/Contract_Calls.thy ===== *)
theory Contract_Calls
  imports Tx_Submit
begin

text \<open>
  The contract operations of the chain client (internal/chain/client.go): the constructor, the
  transactions of the three contracts over submitPreparedTx, and the asynchronous acknowledgement. The generated bindings are the argument
  \<open>ch_pack\<close>, which turns a call and its options (nonce, gas price, value) into a transaction; the bindings of the
  job registry and of the session manager may be absent.
\<close>

section \<open>The client\<close>

datatype contract_call =
    CallRegisterWorker "byte list"
  | CallAddSupportedModel hash
  | CallSetCapabilities "256 word"
  | CallDeregisterWorker
  | CallReinstate
  | CallTopUpStake
  | CallClaimSession "256 word"
  | CallAcknowledgeJob "256 word"
  | CallCompleteJob "256 word" hash hash
  | CallReleaseJob "256 word"
  | CallReleaseJobs "256 word list"
  | CallWithdraw

record ChainClient =
  ch_mulBps :: int
  ch_minedWait :: int
  ch_jobRegistry :: bool
  ch_sessionManager :: bool
  ch_pack :: "contract_call \<Rightarrow> u64 \<Rightarrow> int \<Rightarrow> int option \<Rightarrow> go_error + tx"

text \<open>What the constructor meets: the result of dialling and of each binding.\<close>

record dial_env =
  de_dial :: "go_error option"
  de_registry :: "go_error option"
  de_aiConfig :: "go_error option"
  de_jobRegistry :: "go_error option"
  de_sessionManager :: "go_error option"

text \<open>The error, or the client; the flag tells whether the connection is open afterwards.\<close>

definition NewChainClient ::
  "dial_env \<Rightarrow> (contract_call \<Rightarrow> u64 \<Rightarrow> int \<Rightarrow> int option \<Rightarrow> go_error + tx) \<Rightarrow> int \<Rightarrow> address \<Rightarrow> address \<Rightarrow> bool \<Rightarrow> int \<Rightarrow> (go_error + ChainClient) \<times> bool" where
  "NewChainClient env pack chainID jobRegistryAddr sessionManagerAddr hasKey gasMulBps =
     (if \<not> hasKey then (Inl (errorf ''signingKey must not be nil''), False)
      else if chainID \<le> 0 then (Inl (errorf ''chainID must be positive''), False)
      else if gasMulBps \<le> 0 then (Inl (errorf ''gasMulBps must be positive''), False)
      else case de_dial env of
        Some e \<Rightarrow> (Inl (wrapf ''dial RPC'' e), False)
      | None \<Rightarrow>
          (case de_registry env of
             Some e \<Rightarrow> (Inl (wrapf ''bind WorkerRegistry'' e), False)
           | None \<Rightarrow>
               (case de_aiConfig env of
                  Some e \<Rightarrow> (Inl (wrapf ''bind AIConfig'' e), False)
                | None \<Rightarrow>
                    (case if jobRegistryAddr \<noteq> 0 then de_jobRegistry env else None of
                       Some e \<Rightarrow> (Inl (wrapf ''bind JobRegistry'' e), False)
                     | None \<Rightarrow>
                         (case if sessionManagerAddr \<noteq> 0 then de_sessionManager env else None of
                            Some e \<Rightarrow> (Inl (wrapf ''bind SessionManager'' e), False)
                          | None \<Rightarrow>
                              (Inr \<lparr>ch_mulBps = gasMulBps, ch_minedWait = 0, ch_jobRegistry = (jobRegistryAddr \<noteq> 0),
                                 ch_sessionManager = (sessionManagerAddr \<noteq> 0), ch_pack = pack\<rparr>, True))))))"

definition require_registry :: "ChainClient \<Rightarrow> go_error option" where
  "require_registry c = (if \<not> ch_jobRegistry c then Some (errorf ''jobRegistry not configured: zero jobRegistryAddr was provided to NewChainClient'') else None)"

definition require_manager :: "ChainClient \<Rightarrow> go_error option" where
  "require_manager c = (if \<not> ch_sessionManager c then Some (errorf ''session manager binding not configured'') else None)"

section \<open>Transactions\<close>

type_synonym tx_op = "bcast_env \<Rightarrow> wait_env \<Rightarrow> tx_state \<Rightarrow> go_error option outcome \<times> tx_state"

definition submit_call :: "ChainClient \<Rightarrow> string \<Rightarrow> int option \<Rightarrow> contract_call \<Rightarrow> tx_op" where
  "submit_call c txName value call env wenv st =
     submitPreparedTx (ch_mulBps c) (ch_minedWait c) txName value (env\<lparr>be_build := ch_pack c call\<rparr>) wenv st"

definition guarded :: "go_error option \<Rightarrow> tx_op \<Rightarrow> tx_op" where
  "guarded r f env wenv st = (case r of Some e \<Rightarrow> (Ret (Some e), st) | None \<Rightarrow> f env wenv st)"

definition RegisterWorker :: "ChainClient \<Rightarrow> byte list \<Rightarrow> int \<Rightarrow> tx_op" where
  "RegisterWorker c encryptionPubKey stake = submit_call c ''RegisterWorker'' (Some stake) (CallRegisterWorker encryptionPubKey)"

definition AddSupportedModel :: "ChainClient \<Rightarrow> hash \<Rightarrow> tx_op" where
  "AddSupportedModel c modelID = submit_call c ''AddSupportedModel'' None (CallAddSupportedModel modelID)"

definition SetCapabilities :: "ChainClient \<Rightarrow> 256 word \<Rightarrow> tx_op" where
  "SetCapabilities c mask' = submit_call c ''SetCapabilities'' None (CallSetCapabilities mask')"

definition DeregisterWorker :: "ChainClient \<Rightarrow> tx_op" where
  "DeregisterWorker c = submit_call c ''DeregisterWorker'' None CallDeregisterWorker"

definition Reinstate :: "ChainClient \<Rightarrow> tx_op" where
  "Reinstate c = submit_call c ''Reinstate'' None CallReinstate"

definition TopUpStake :: "ChainClient \<Rightarrow> int \<Rightarrow> tx_op" where
  "TopUpStake c amount = submit_call c ''TopUpStake'' (Some amount) CallTopUpStake"

text \<open>\<open>new(big.Int).SetUint64(id)\<close> as a contract argument.\<close>

definition SetUint64 :: "u64 \<Rightarrow> 256 word" where
  "SetUint64 = ucast"

definition ClaimSession :: "ChainClient \<Rightarrow> u64 \<Rightarrow> tx_op" where
  "ClaimSession c reqID = guarded (require_manager c) (submit_call c ''ClaimSession'' None (CallClaimSession (SetUint64 reqID)))"

definition AcknowledgeJob :: "ChainClient \<Rightarrow> u64 \<Rightarrow> tx_op" where
  "AcknowledgeJob c jobID = guarded (require_registry c) (submit_call c ''AcknowledgeJob'' None (CallAcknowledgeJob (SetUint64 jobID)))"

definition CompleteJob :: "ChainClient \<Rightarrow> u64 \<Rightarrow> hash \<Rightarrow> hash \<Rightarrow> tx_op" where
  "CompleteJob c jobID blobHash ciphertextHash =
     guarded (require_registry c) (submit_call c ''CompleteJob'' None (CallCompleteJob (SetUint64 jobID) blobHash ciphertextHash))"

definition ReleaseJob :: "ChainClient \<Rightarrow> u64 \<Rightarrow> tx_op" where
  "ReleaseJob c jobID = guarded (require_registry c) (submit_call c ''ReleaseJob'' None (CallReleaseJob (SetUint64 jobID)))"

definition ReleaseJobs :: "ChainClient \<Rightarrow> u64 list \<Rightarrow> tx_op" where
  "ReleaseJobs c jobIDs =
     guarded (require_registry c)
       (guarded (if jobIDs = [] then Some (errorf ''ReleaseJobs: empty jobIDs slice'') else None)
         (submit_call c ''ReleaseJobs'' None (CallReleaseJobs (map SetUint64 jobIDs))))"

definition Withdraw :: "ChainClient \<Rightarrow> tx_op" where
  "Withdraw c = guarded (require_registry c) (submit_call c ''Withdraw'' None CallWithdraw)"

text \<open>The asynchronous acknowledgement: the hash and the pending transaction, whose Wait is the join function.\<close>

definition AcknowledgeJobAsync :: "ChainClient \<Rightarrow> u64 \<Rightarrow> bcast_env \<Rightarrow> tx_state \<Rightarrow> (go_error + hash \<times> PendingTx) \<times> tx_state" where
  "AcknowledgeJobAsync c jobID env st =
     (case require_registry c of
        Some e \<Rightarrow> (Inl e, st)
      | None \<Rightarrow>
          (case broadcastPreparedTx (ch_mulBps c) ''AcknowledgeJob'' None (env\<lparr>be_build := ch_pack c (CallAcknowledgeJob (SetUint64 jobID))\<rparr>) st of
             (Inl e, st') \<Rightarrow> (Inl e, st')
           | (Inr p, st') \<Rightarrow> (Inr (tx_hash (pt_tx p), p), st')))"

section \<open>All operations\<close>

datatype chain_op =
    OpRegisterWorker "byte list" int
  | OpAddSupportedModel hash
  | OpSetCapabilities "256 word"
  | OpDeregisterWorker
  | OpReinstate
  | OpTopUpStake int
  | OpClaimSession u64
  | OpAcknowledgeJob u64
  | OpCompleteJob u64 hash hash
  | OpReleaseJob u64
  | OpReleaseJobs "u64 list"
  | OpWithdraw

fun run_op :: "ChainClient \<Rightarrow> chain_op \<Rightarrow> tx_op" where
  "run_op c (OpRegisterWorker k s) = RegisterWorker c k s"
| "run_op c (OpAddSupportedModel m) = AddSupportedModel c m"
| "run_op c (OpSetCapabilities m) = SetCapabilities c m"
| "run_op c OpDeregisterWorker = DeregisterWorker c"
| "run_op c OpReinstate = Reinstate c"
| "run_op c (OpTopUpStake a) = TopUpStake c a"
| "run_op c (OpClaimSession i) = ClaimSession c i"
| "run_op c (OpAcknowledgeJob j) = AcknowledgeJob c j"
| "run_op c (OpCompleteJob j b h) = CompleteJob c j b h"
| "run_op c (OpReleaseJob j) = ReleaseJob c j"
| "run_op c (OpReleaseJobs js) = ReleaseJobs c js"
| "run_op c OpWithdraw = Withdraw c"

text \<open>What each operation may send: its own call with its own value.\<close>

fun op_call :: "chain_op \<Rightarrow> contract_call \<times> int option" where
  "op_call (OpRegisterWorker k s) = (CallRegisterWorker k, Some s)"
| "op_call (OpAddSupportedModel m) = (CallAddSupportedModel m, None)"
| "op_call (OpSetCapabilities m) = (CallSetCapabilities m, None)"
| "op_call OpDeregisterWorker = (CallDeregisterWorker, None)"
| "op_call OpReinstate = (CallReinstate, None)"
| "op_call (OpTopUpStake a) = (CallTopUpStake, Some a)"
| "op_call (OpClaimSession i) = (CallClaimSession (ucast i), None)"
| "op_call (OpAcknowledgeJob j) = (CallAcknowledgeJob (ucast j), None)"
| "op_call (OpCompleteJob j b h) = (CallCompleteJob (ucast j) b h, None)"
| "op_call (OpReleaseJob j) = (CallReleaseJob (ucast j), None)"
| "op_call (OpReleaseJobs js) = (CallReleaseJobs (map ucast js), None)"
| "op_call OpWithdraw = (CallWithdraw, None)"

fun op_ready :: "ChainClient \<Rightarrow> chain_op \<Rightarrow> bool" where
  "op_ready c (OpClaimSession i) \<longleftrightarrow> ch_sessionManager c"
| "op_ready c (OpAcknowledgeJob j) \<longleftrightarrow> ch_jobRegistry c"
| "op_ready c (OpCompleteJob j b h) \<longleftrightarrow> ch_jobRegistry c"
| "op_ready c (OpReleaseJob j) \<longleftrightarrow> ch_jobRegistry c"
| "op_ready c (OpReleaseJobs js) \<longleftrightarrow> ch_jobRegistry c \<and> js \<noteq> []"
| "op_ready c OpWithdraw \<longleftrightarrow> ch_jobRegistry c"
| "op_ready c _ \<longleftrightarrow> True"

section \<open>What goes on the wire\<close>

lemma wire_frame [simp]:
  "ts_wire (release_nonce n b st) = ts_wire st" "ts_wire (reset_nonce st) = ts_wire st" "ts_wire (abandon tok st) = ts_wire st"
  by (simp_all add: release_nonce_def reset_nonce_def abandon_def)

lemma send_failed_wire [simp]: "ts_wire (snd (send_failed nm env e n t st)) = ts_wire st"
  by (simp add: send_failed_def Let_def)

text \<open>
  The SendTransaction calls of one submission, newest first: none; one; or two, where the first was answered with a nonce
  desync and the second carries the next nonce. All are built from the same call, gas price and value.
\<close>

definition sends_of :: "(u64 \<Rightarrow> int \<Rightarrow> int option \<Rightarrow> go_error + tx) \<Rightarrow> int option \<Rightarrow> (tx \<times> go_error option) list \<Rightarrow> bool" where
  "sends_of build v ws \<longleftrightarrow>
     ws = [] \<or> (\<exists>t n gp e. ws = [(t, e)] \<and> build n gp v = Inr t) \<or>
     (\<exists>t t' n gp e e'. ws = [(t', e'), (t, Some e)] \<and> IsNonceDesyncError (Some e) \<and> build n gp v = Inr t \<and> build (n + 1) gp v = Inr t')"

abbreviation accepted :: "(tx \<times> go_error option) list \<Rightarrow> tx list" where
  "accepted ws \<equiv> map fst (filter (\<lambda>(t, e). e = None) ws)"

lemma sends_of_bounds: "sends_of build v ws \<Longrightarrow> length ws \<le> 2 \<and> length (accepted ws) \<le> 1"
  by (auto simp: sends_of_def)

lemma resend_wire:
  assumes "resendWithFreshNonce env gp v n st = (r, st')" "initialized (ts_nonce st)" "outstanding (ts_nonce st) > 0"
    "pendingNonce (ts_nonce st) = n + 1"
  shows "(r = None \<and> ts_wire st' = ts_wire st) \<or>
    (\<exists>t. be_build env (n + 1) gp v = Inr t \<and> ts_wire st' = (t, be_resend env t) # ts_wire st \<and>
       r = (if be_resend env t = None then Some (t, n + 1) else None))"
  using assms by (auto simp: resendWithFreshNonce_def Let_def resend_next simp del: ts_coord_frame split: sum.splits option.splits)

text \<open>
  What one broadcast adds to the wire: the calls above, and a success returns the transaction of the newest call, the only
  accepted one.
\<close>

definition sent_some :: "bcast_env \<Rightarrow> int option \<Rightarrow> (tx \<times> go_error option) list \<Rightarrow> (go_error + PendingTx) \<times> tx_state \<Rightarrow> bool" where
  "sent_some env v w x \<longleftrightarrow>
     (\<exists>ws. ts_wire (snd x) = ws @ w \<and> sends_of (be_build env) v ws \<and>
        (case fst x of
           Inl e \<Rightarrow> accepted ws = []
         | Inr p \<Rightarrow> accepted ws = [pt_tx p] \<and> pt_waitErr p = None))"

lemma sent_none: "ts_wire st = w \<Longrightarrow> sent_some env v w (Inl e, st)"
  by (simp add: sent_some_def sends_of_def)

lemma broadcast_send_wire:
  assumes "be_build env n gp v = Inr t" "initialized (ts_nonce st)" "outstanding (ts_nonce st) > 0" "pendingNonce (ts_nonce st) = n + 1"
  shows "sent_some env v (ts_wire st) (broadcast_send nm env gp v tok n t st)"
proof (cases "be_send env t")
  case None
  then show ?thesis using assms(1)
    by (auto simp: sent_some_def sends_of_def broadcast_send_def Let_def intro!: exI [of _ "[(t, None)]"])
next
  case (Some err)
  let ?st = "st\<lparr>ts_wire := (t, Some err) # ts_wire st\<rparr>"
  let ?out = "broadcast_send nm env gp v tok n t st"
  have failed: ?thesis if "?out = (Inl e, st1)" "ts_wire st1 = (t, Some err) # ts_wire st" for e st1
    using that assms(1) by (auto simp: sent_some_def sends_of_def intro!: exI [of _ "[(t, Some err)]"])
  show ?thesis
  proof (cases "IsNonceDesyncError (Some err)")
    case False
    then have "?out = (Inl (fst (send_failed nm env err n t ?st)), abandon tok (snd (send_failed nm env err n t ?st)))"
      using Some by (simp add: broadcast_send_def Let_def case_prod_beta)
    then show ?thesis by (rule failed) simp
  next
    case desync: True
    obtain o' st1 where r: "resendWithFreshNonce env gp v n ?st = (o', st1)" by (metis surj_pair)
    note out = broadcast_send_def [of nm env gp v tok n t st, unfolded Let_def Some option.case, simplified desync r if_True prod.case case_prod_beta]
    from resend_wire [OF r] assms(2-4) consider (none) "o' = None" "ts_wire st1 = (t, Some err) # ts_wire st"
      | (again) t' where "be_build env (n + 1) gp v = Inr t'" "ts_wire st1 = (t', be_resend env t') # (t, Some err) # ts_wire st"
          "o' = (if be_resend env t' = None then Some (t', n + 1) else None)" by auto
    then show ?thesis
    proof cases
      case none
      then have "?out = (Inl (fst (send_failed nm env err n t st1)), abandon tok (snd (send_failed nm env err n t st1)))" using out by simp
      then show ?thesis by (rule failed) (simp add: none)
    next
      case again
      have "sends_of (be_build env) v [(t', be_resend env t'), (t, Some err)]"
        using assms(1) again(1) desync by (auto simp: sends_of_def)
      then show ?thesis using out again(2,3)
        by (auto simp: sent_some_def intro!: exI [of _ "[(t', be_resend env t'), (t, Some err)]"])
    qed
  qed
qed

lemma broadcast_wire: "sent_some env v (ts_wire st) (broadcastPreparedTx mul nm v env st)"
proof -
  have "sent_some env v (ts_wire st) (broadcast_send nm env gp v tok n t (st\<lparr>ts_coord := c, ts_nonce := m\<rparr>))"
    if "be_build env n gp v = Inr t" "NextNonce (be_fetch env) (ts_nonce st) = (Inr n, m)" for gp tok n t c m
    using broadcast_send_wire [OF that(1), of "st\<lparr>ts_coord := c, ts_nonce := m\<rparr>"] NextNonce_InrD [OF that(2)] by simp
  then show ?thesis
    by (auto simp: broadcastPreparedTx_def Let_def intro!: sent_none split: option.split sum.split prod.split)
qed

lemma awaitMined_wire [simp]: "ts_wire (snd (awaitMined mw wenv nm t tok st)) = ts_wire st"
  by (auto simp: awaitMined_def Let_def split: sum.splits option.splits prod.splits outcome.splits)

lemma submit_wire:
  assumes "submitPreparedTx mul mw nm v env wenv st = (r, st')"
  shows "\<exists>ws. ts_wire st' = ws @ ts_wire st \<and> sends_of (be_build env) v ws \<and> (r = Ret None \<longrightarrow> accepted ws \<noteq> [])"
proof -
  obtain b st1 where b: "broadcastPreparedTx mul nm v env st = (b, st1)" by (metis surj_pair)
  obtain ws where ws: "ts_wire st1 = ws @ ts_wire st" "sends_of (be_build env) v ws"
      "case b of Inl e \<Rightarrow> accepted ws = [] | Inr p \<Rightarrow> accepted ws = [pt_tx p] \<and> pt_waitErr p = None"
    using broadcast_wire [of env v st mul nm] b by (auto simp: sent_some_def)
  show ?thesis
  proof (cases b)
    case (Inl e)
    then show ?thesis using assms b ws by (auto simp: submitPreparedTx_def)
  next
    case (Inr p)
    then have "st' = snd (awaitMined mw wenv (pt_name p) (pt_tx p) (pt_token p) st1)"
      using assms b ws(3) by (auto simp: submitPreparedTx_def PendingTx_Wait_def split: prod.splits)
    then show ?thesis using ws Inr by auto
  qed
qed

lemma run_op_submit:
  "op_ready c op \<Longrightarrow> \<exists>nm. run_op c op env wenv st = submit_call c nm (snd (op_call op)) (fst (op_call op)) env wenv st"
  "\<not> op_ready c op \<Longrightarrow> \<exists>e. run_op c op env wenv st = (Ret (Some e), st)"
  by (cases op; force simp: RegisterWorker_def AddSupportedModel_def SetCapabilities_def DeregisterWorker_def Reinstate_def TopUpStake_def
      ClaimSession_def AcknowledgeJob_def CompleteJob_def ReleaseJob_def ReleaseJobs_def Withdraw_def guarded_def
      require_registry_def require_manager_def SetUint64_def)+

lemma nonce_room_build [simp]: "nonce_room (env\<lparr>be_build := b\<rparr>) nm = nonce_room env nm"
  by (simp add: nonce_room_def)

section \<open>Properties\<close>

definition demo_client :: ChainClient where
  "demo_client = \<lparr>ch_mulBps = 12000, ch_minedWait = 0, ch_jobRegistry = True, ch_sessionManager = True,
     ch_pack = (\<lambda>call n gp v. Inr \<lparr>tx_nonce = n, tx_hash = (if call = CallWithdraw then 5 else 6), tx_to = Some 2\<rparr>)\<rparr>"

text \<open>
  C17. Every transaction the client can send. For each of its twelve contract operations, whatever the node answers: it calls
  SendTransaction at most twice, each time with the operation's own call and value, and a second time only after the node answered the
  first with a nonce desync, with the next nonce and the same gas price; at most one of the calls is answered as accepted, and
  success means that one was. Without the contract binding (or with no job to release) nothing happens but an error. The
  coordinator's slots are as before and no nonce lease is leaked or duplicated. (What a call that was answered with an error did at the
  node is outside the client's knowledge.)
\<close>

theorem contract_operations_safe:
  assumes "coord_wf (ts_coord st)" "ids_fresh (ts_coord st)" "nextID (ts_coord st) \<noteq> - 1"
    and "nonce_inv (ts_nonce st) H S" "nonce_room env (ts_nonce st)" "run_op c op env wenv st = (r, st')"
  shows "(if op_ready c op
          then \<exists>ws. ts_wire st' = ws @ ts_wire st \<and> sends_of (ch_pack c (fst (op_call op))) (snd (op_call op)) ws \<and>
            length ws \<le> 2 \<and> length (accepted ws) \<le> 1 \<and> (r = Ret None \<longrightarrow> accepted ws \<noteq> [])
          else st' = st \<and> (\<exists>e. r = Ret (Some e))) \<and>
         slot_ids (ts_coord st') = slot_ids (ts_coord st) \<and> coord_wf (ts_coord st') \<and> (\<exists>S'. nonce_inv (ts_nonce st') H S')"
proof (cases "op_ready c op")
  case True
  then obtain nm where s: "submitPreparedTx (ch_mulBps c) (ch_minedWait c) nm (snd (op_call op)) (env\<lparr>be_build := ch_pack c (fst (op_call op))\<rparr>) wenv st = (r, st')"
    using run_op_submit(1) [of c op env wenv st] assms(6) by (auto simp: submit_call_def)
  let ?env = "env\<lparr>be_build := ch_pack c (fst (op_call op))\<rparr>"
  have room: "nonce_room ?env (ts_nonce st)" using assms(5) by simp
  obtain ws where ws: "ts_wire st' = ws @ ts_wire st" "sends_of (ch_pack c (fst (op_call op))) (snd (op_call op)) ws" "r = Ret None \<longrightarrow> accepted ws \<noteq> []"
    using submit_wire [OF s] by auto
  then show ?thesis
    using True sends_of_bounds [OF ws(2)] submit_restores_slots [OF assms(1-3), of "ch_mulBps c" "ch_minedWait c" nm "snd (op_call op)" ?env wenv]
      submit_keeps_leases [OF assms(4) room, of "ch_mulBps c" "ch_minedWait c" nm "snd (op_call op)" wenv] s
    by auto
next
  case False
  then show ?thesis using run_op_submit(2) [of c op env wenv st] assms by auto
qed

text \<open>A node whose pool is one nonce ahead: the first send is refused, the second accepted and mined.\<close>

definition desync_env :: bcast_env where
  "desync_env = demo_env\<lparr>be_send := (\<lambda>t. Some (errorf ''nonce too low'')), be_resend := (\<lambda>t. None)\<rparr>"

lemma desync_run:
  "map (\<lambda>(t, e). (tx_nonce t, e)) (ts_wire (snd (run_op demo_client OpWithdraw desync_env demo_wait demo_state))) =
     [(8, None), (7, Some (errorf ''nonce too low''))]"
  by code_simp

theorem contract_operations_safe_witness:
  "slot_ids (ts_coord (snd (run_op demo_client OpWithdraw desync_env demo_wait demo_state))) = slot_ids (ts_coord demo_state) \<and>
   length (accepted (ts_wire (snd (run_op demo_client OpWithdraw desync_env demo_wait demo_state)))) \<le> 1 \<and>
   map (\<lambda>(t, e). (tx_nonce t, e)) (ts_wire (snd (run_op demo_client OpWithdraw desync_env demo_wait demo_state))) =
     [(8, None), (7, Some (errorf ''nonce too low''))] \<and>
   snd (run_op (demo_client\<lparr>ch_jobRegistry := False\<rparr>) OpWithdraw desync_env demo_wait demo_state) = demo_state"
proof -
  have room: "nonce_room desync_env (ts_nonce demo_state)"
    by (simp add: desync_env_def demo_env_def demo_state_def nonce_room_def NewNonceManager_def)
  note safe = contract_operations_safe [OF demo_state_ok room prod.collapse [symmetric], of _ OpWithdraw demo_wait]
  have "ts_wire demo_state = []" by (simp add: demo_state_def)
  then show ?thesis
    using safe [of demo_client] safe [of "demo_client\<lparr>ch_jobRegistry := False\<rparr>"] desync_run by (auto simp: demo_client_def)
qed

text \<open>
  Acknowledging asynchronously is acknowledging. Broadcasting with AcknowledgeJobAsync and joining gives the
  result and the state of AcknowledgeJob; a second join returns the same result and changes nothing more.
\<close>

theorem async_ack_equals_sync:
  "(case AcknowledgeJobAsync c jobID env st of
      (Inl e, st1) \<Rightarrow> AcknowledgeJob c jobID env wenv st = (Ret (Some e), st1)
    | (Inr (h, p), st1) \<Rightarrow> h = tx_hash (pt_tx p) \<and>
        (case PendingTx_Wait (ch_minedWait c) wenv p st1 of
           (r, p', st2) \<Rightarrow> AcknowledgeJob c jobID env wenv st = (r, st2) \<and> PendingTx_Wait (ch_minedWait c) wenv' p' st2 = (r, p', st2)))"
  by (auto simp: AcknowledgeJobAsync_def AcknowledgeJob_def guarded_def submit_call_def submitPreparedTx_def PendingTx_Wait_def
      split: option.splits prod.splits sum.splits)

end
