(* ===== verification/Rpc_Failover.thy ===== *)
theory Rpc_Failover
  imports Go_Parse
begin

text \<open>
  The chain RPC connection (internal/chain/dial.go): which endpoints RPC\_URL names and how a request moves between
  them. The HTTP exchange is the argument \<open>rt_send\<close> (attempt number, endpoint), the atomic index \<open>current\<close> is the
  state, and what the other goroutines that share the transport do to it is the argument \<open>rt_others\<close>. URL syntax is
  an argument; the connection itself is made by go-ethereum.
\<close>

section \<open>Dialling\<close>

record rpc_url =
  ru_scheme :: string
  ru_string :: string

datatype dial_plan =
    DialError go_error
  | DialPlain string
  | DialFailover "rpc_url list" int

definition DefaultRPCTimeout :: int where
  "DefaultRPCTimeout = 15 * Second"

fun parse_targets :: "(string \<Rightarrow> go_error + rpc_url) \<Rightarrow> string list \<Rightarrow> go_error + rpc_url list" where
  "parse_targets urlParse [] = Inr []"
| "parse_targets urlParse (raw # raws) =
     (let raw' = TrimSpace raw in
      if raw' = [] then parse_targets urlParse raws
      else case urlParse raw' of
        Inl e \<Rightarrow> Inl (wrapf ''RPC_URL'' e)
      | Inr u \<Rightarrow>
          (case parse_targets urlParse raws of Inl e \<Rightarrow> Inl e | Inr us \<Rightarrow> Inr (u # us)))"

definition is_http :: "rpc_url \<Rightarrow> bool" where
  "is_http u \<longleftrightarrow> ru_scheme u = ''http'' \<or> ru_scheme u = ''https''"

definition DialRPC :: "(string \<Rightarrow> go_error + rpc_url) \<Rightarrow> string \<Rightarrow> int \<Rightarrow> dial_plan" where
  "DialRPC urlParse rpcURL timeout =
     (case parse_targets urlParse (strings_Split (CHR '','') rpcURL) of
        Inl e \<Rightarrow> DialError e
      | Inr targets \<Rightarrow>
          if targets = [] then DialError (errorf ''RPC_URL is empty'')
          else case find (\<lambda>u. \<not> is_http u) targets of
            Some u \<Rightarrow>
              if length targets > 1 then DialError (errorf ''RPC_URL: only http(s) endpoints can be listed together'')
              else DialPlain (ru_string u)
          | None \<Rightarrow> DialFailover targets (i64 (timeout * (int (length targets) + 1))))"

section \<open>One request\<close>

text \<open>
  \<open>rt_getBody\<close>: whether the body can be read again, and the result of doing so at each attempt; \<open>rt_cancelled\<close>:
  whether the request's context has ended when attempt i has failed.
\<close>

record 'r rt_env =
  rt_getBody :: "(nat \<Rightarrow> go_error option) option"
  rt_send :: "nat \<Rightarrow> nat \<Rightarrow> go_error + int \<times> 'r"
  rt_cancelled :: "nat \<Rightarrow> bool"
  rt_others :: "nat \<Rightarrow> nat \<Rightarrow> nat"

datatype 'r rt_result = RtResponse int 'r | RtError "go_error option"

definition replay_body :: "'r rt_env \<Rightarrow> nat \<Rightarrow> go_error option \<Rightarrow> 'r rt_result option" where
  "replay_body env i lastErr =
     (if i = 0 then None
      else case rt_getBody env of
        None \<Rightarrow> Some (RtError lastErr)
      | Some body \<Rightarrow> map_option (\<lambda>e. RtError (Some e)) (body i))"

definition CompareAndSwap :: "nat \<Rightarrow> nat \<Rightarrow> nat \<Rightarrow> nat" where
  "CompareAndSwap old new v = (if v = old then new else v)"

text \<open>
  Attempt i: it ends the request (with the result, the index afterwards and the endpoint tried, if any), or it
  fails with an error and the loop goes on.
\<close>

definition rt_failed :: "'r rt_env \<Rightarrow> nat \<Rightarrow> nat \<Rightarrow> nat \<Rightarrow> nat \<Rightarrow> go_error \<Rightarrow> ('r rt_result \<times> nat \<times> nat list) + (go_error \<times> nat)" where
  "rt_failed env n i idx cur err =
     (if rt_cancelled env i then Inl (RtError (Some err), cur, [idx])
      else Inr (err, if n > 1 then CompareAndSwap idx ((idx + 1) mod n) cur else cur))"

definition rt_attempt :: "'r rt_env \<Rightarrow> nat \<Rightarrow> nat \<Rightarrow> nat \<Rightarrow> go_error option \<Rightarrow> nat \<Rightarrow> ('r rt_result \<times> nat \<times> nat list) + (go_error \<times> nat)" where
  "rt_attempt env n start i lastErr cur =
     (case replay_body env i lastErr of
        Some r \<Rightarrow> Inl (r, cur, [])
      | None \<Rightarrow>
          (let idx = (start + i) mod n; cur = rt_others env i cur in
           case rt_send env i idx of
             Inl e \<Rightarrow> rt_failed env n i idx cur e
           | Inr (status, resp) \<Rightarrow>
               if status < 500 then Inl (RtResponse status resp, idx, [idx])
               else if i = n - 1 then Inl (RtResponse status resp, cur, [idx])
               else rt_failed env n i idx cur (errorf ''endpoint answered with a server error'')))"

fun rt_loop :: "'r rt_env \<Rightarrow> nat \<Rightarrow> nat \<Rightarrow> nat list \<Rightarrow> go_error option \<Rightarrow> nat \<Rightarrow> 'r rt_result \<times> nat \<times> nat list" where
  "rt_loop env n start [] lastErr cur = (RtError lastErr, cur, [])"
| "rt_loop env n start (i # is) lastErr cur =
     (case rt_attempt env n start i lastErr cur of
        Inl x \<Rightarrow> x
      | Inr (err, cur') \<Rightarrow>
          (case rt_loop env n start is (Some err) cur' of (r, c, tried) \<Rightarrow> (r, c, (start + i) mod n # tried)))"

definition RoundTrip :: "'r rt_env \<Rightarrow> nat \<Rightarrow> nat \<Rightarrow> 'r rt_result \<times> nat \<times> nat list" where
  "RoundTrip env n cur = rt_loop env n cur [0..<n] None cur"

section \<open>Where a request goes\<close>

definition tried_order :: "nat \<Rightarrow> nat \<Rightarrow> nat \<Rightarrow> nat \<Rightarrow> nat list" where
  "tried_order n start i k = map (\<lambda>j. (start + j) mod n) [i..<k]"

lemma tried_order_cons: "i < k \<Longrightarrow> (start + i) mod n # tried_order n start (Suc i) k = tried_order n start i k"
  by (simp add: tried_order_def upt_rec [of i])

lemma tried_order_distinct: "distinct (tried_order n start 0 n)"
proof -
  have "inj_on (\<lambda>j. (start + j) mod n) {0..<n}"
  proof (rule linorder_inj_onI)
    fix a b assume "a < b" "a \<in> {0..<n}" "b \<in> {0..<n}"
    then have "\<not> n dvd (b - a)" by (auto dest: dvd_imp_le)
    then show "(start + a) mod n \<noteq> (start + b) mod n"
      using \<open>a < b\<close> by (metis add_diff_cancel_left diff_add_inverse less_imp_le_nat mod_eq_dvd_iff_nat nat_add_left_cancel_le)
  qed auto
  then show ?thesis by (simp add: tried_order_def distinct_map)
qed

lemma rt_attempt_tried:
  "rt_attempt env n start i l c = Inl x \<Longrightarrow> snd (snd x) = [] \<or> snd (snd x) = [(start + i) mod n]"
  by (auto simp: rt_attempt_def rt_failed_def Let_def split: option.splits sum.splits prod.splits if_splits)

lemma rt_loop_order:
  assumes "i \<le> n"
  shows "\<exists>k. i \<le> k \<and> k \<le> n \<and> snd (snd (rt_loop env n start [i..<n] lastErr cur)) = tried_order n start i k"
  using assms
proof (induction "n - i" arbitrary: i lastErr cur)
  case 0 then show ?case by (auto simp: tried_order_def)
next
  case (Suc m)
  then have i: "i < n" "[i..<n] = i # [Suc i..<n]" by (auto simp: upt_rec)
  have one: "[(start + i) mod n] = tried_order n start i (Suc i)" by (simp add: tried_order_def)
  have more: "\<exists>k. i \<le> k \<and> k \<le> n \<and> (start + i) mod n # snd (snd (rt_loop env n start [Suc i..<n] l c)) = tried_order n start i k" for l c
    using Suc(1) [of "Suc i" l c] Suc(2) i(1) tried_order_cons by (metis Suc_diff_Suc Suc_leD Suc_leI diff_Suc_1 less_eq_Suc_le)
  have "\<exists>k. i \<le> k \<and> k \<le> n \<and> [(start + i) mod n] = tried_order n start i k" using one i(1) by (intro exI [of _ "Suc i"]) simp
  moreover have "\<exists>k. i \<le> k \<and> k \<le> n \<and> [] = tried_order n start i k" using i(1) by (intro exI [of _ i]) (simp add: tried_order_def)
  ultimately show ?case
  proof (cases "rt_attempt env n start i lastErr cur")
    case (Inl x)
    then show ?thesis using rt_attempt_tried [OF Inl] \<open>\<exists>k. i \<le> k \<and> k \<le> n \<and> [] = tried_order n start i k\<close>
        \<open>\<exists>k. i \<le> k \<and> k \<le> n \<and> [(start + i) mod n] = tried_order n start i k\<close> by (auto simp: i(2))
  next
    case (Inr ec)
    then show ?thesis using more [of "Some (fst ec)" "snd ec"] by (simp add: i(2) case_prod_beta)
  qed
qed

definition answers :: "'r rt_env \<Rightarrow> nat \<Rightarrow> nat \<Rightarrow> nat \<Rightarrow> bool" where
  "answers env n start i \<longleftrightarrow> (case rt_send env i ((start + i) mod n) of Inr (status, resp) \<Rightarrow> status < 500 | Inl e \<Rightarrow> False)"

definition answer_of :: "'r rt_env \<Rightarrow> nat \<Rightarrow> nat \<Rightarrow> nat \<Rightarrow> 'r rt_result" where
  "answer_of env n start i = (case rt_send env i ((start + i) mod n) of Inr (status, resp) \<Rightarrow> RtResponse status resp | Inl e \<Rightarrow> RtError (Some e))"

definition replayable :: "'r rt_env \<Rightarrow> bool" where
  "replayable env \<longleftrightarrow> (\<exists>body. rt_getBody env = Some body \<and> (\<forall>i. body i = None))"

lemma replay_body_replayable [simp]: "replayable env \<Longrightarrow> replay_body env i lastErr = None"
  by (auto simp: replayable_def replay_body_def)

definition demo_rpc :: "string rt_env" where
  "demo_rpc = \<lparr>rt_getBody = Some (\<lambda>i. None), rt_send = (\<lambda>i idx. if idx = 1 then Inr (502, ''bad gateway'') else if idx = 2 then Inl (errorf ''timeout'') else Inr (200, ''ok'')),
     rt_cancelled = (\<lambda>i. False), rt_others = (\<lambda>i cur. cur)\<rparr>"

lemma rt_attempt_answered:
  assumes "replayable env" "answers env n start i"
  shows "rt_attempt env n start i l c = Inl (answer_of env n start i, (start + i) mod n, [(start + i) mod n])"
  using assms by (auto simp: rt_attempt_def Let_def answers_def answer_of_def split: sum.splits)

lemma rt_attempt_unanswered:
  assumes "replayable env" "\<not> rt_cancelled env i" "\<not> answers env n start i"
  shows "(\<exists>e c'. rt_attempt env n start i l c = Inr (e, c') \<and> (i = n - 1 \<longrightarrow> answer_of env n start i = RtError (Some e))) \<or>
    (i = n - 1 \<and> (\<exists>c'. rt_attempt env n start i l c = Inl (answer_of env n start i, c', [(start + i) mod n])))"
  using assms by (auto simp: rt_attempt_def rt_failed_def Let_def answers_def answer_of_def split: sum.splits)

lemma rt_loop_answered:
  assumes "replayable env" "i < n" "answers env n start i"
  shows "rt_loop env n start [i..<n] l c = (answer_of env n start i, (start + i) mod n, tried_order n start i (Suc i))"
  using assms rt_attempt_answered [OF assms(1,3)] by (simp add: upt_rec [of i] tried_order_def)

lemma rt_loop_unanswered:
  assumes "replayable env" "\<not> rt_cancelled env i" "i < n" "\<not> answers env n start i"
  shows "(Suc i = n \<and> fst (rt_loop env n start [i..<n] l c) = answer_of env n start i \<and> snd (snd (rt_loop env n start [i..<n] l c)) = tried_order n start i n) \<or>
    (Suc i < n \<and> (\<exists>l' c' r cur t. rt_loop env n start [Suc i..<n] l' c' = (r, cur, t) \<and> rt_loop env n start [i..<n] l c = (r, cur, (start + i) mod n # t)))"
proof (cases "Suc i = n")
  case True
  then show ?thesis using rt_attempt_unanswered [OF assms(1,2,4), of l c] by (auto simp: upt_rec [of i] tried_order_def)
next
  case False
  then obtain e c' where "rt_attempt env n start i l c = Inr (e, c')" using rt_attempt_unanswered [OF assms(1,2,4), of l c] assms(3) by auto
  then show ?thesis using False assms(3)
    by (cases "rt_loop env n start [Suc i..<n] (Some e) c'") (auto simp: upt_rec [of i])
qed

lemma find_upt_Cons: "i < n \<Longrightarrow> find P [i..<n] = (if P i then Some i else find P [Suc i..<n])" for i n :: nat
  by (simp add: upt_rec [of i])

lemma rt_loop_complete:
  assumes "replayable env" "\<And>i. \<not> rt_cancelled env i" "i < n"
  shows "case find (answers env n start) [i..<n] of
      Some k \<Rightarrow> rt_loop env n start [i..<n] l c = (answer_of env n start k, (start + k) mod n, tried_order n start i (Suc k))
    | None \<Rightarrow> fst (rt_loop env n start [i..<n] l c) = answer_of env n start (n - 1) \<and> snd (snd (rt_loop env n start [i..<n] l c)) = tried_order n start i n"
  using assms(3)
proof (induction "n - i" arbitrary: i l c)
  case (Suc m)
  show ?case
  proof (cases "answers env n start i")
    case True
    then show ?thesis using rt_loop_answered [OF assms(1) Suc(3)] Suc(3) by (simp add: find_upt_Cons)
  next
    case False
    have f: "find (answers env n start) [i..<n] = find (answers env n start) [Suc i..<n]" using False Suc(3) by (simp add: find_upt_Cons)
    from rt_loop_unanswered [OF assms(1,2) Suc(3) False, of l c] show ?thesis
    proof (elim disjE conjE exE)
      assume "Suc i = n" "fst (rt_loop env n start [i..<n] l c) = answer_of env n start i" "snd (snd (rt_loop env n start [i..<n] l c)) = tried_order n start i n"
      then show ?thesis unfolding f by auto
    next
      fix l' c' r cur t
      assume l: "Suc i < n" "rt_loop env n start [Suc i..<n] l' c' = (r, cur, t)" "rt_loop env n start [i..<n] l c = (r, cur, (start + i) mod n # t)"
      have k: "Suc i \<le> k" if "find (answers env n start) [Suc i..<n] = Some k" for k
        using that by (auto simp: find_Some_iff)
      show ?thesis
        using Suc(1) [of "Suc i" l' c'] Suc(2) l k tried_order_cons [of i _ start n] unfolding f by (auto split: option.splits)
    qed
  qed
qed simp

section \<open>The failover property\<close>

text \<open>
  C32. Failover. A request is offered to the endpoints in cyclic order from the one that answered last, to each at
  most once. If its body can be read again and its context lives, it gets the answer of the first endpoint that
  answers below 500, which becomes the endpoint of the next request; if there is none it has been offered to all
  of them and gets what the last one said.
\<close>

theorem failover_finds_answer:
  assumes "n > 0"
  shows "(\<exists>k\<le>n. snd (snd (RoundTrip env n cur)) = tried_order n cur 0 k) \<and> distinct (snd (snd (RoundTrip env n cur))) \<and>
    (replayable env \<and> (\<forall>i. \<not> rt_cancelled env i) \<longrightarrow>
      (case find (answers env n cur) [0..<n] of
         Some k \<Rightarrow> RoundTrip env n cur = (answer_of env n cur k, (cur + k) mod n, tried_order n cur 0 (Suc k))
       | None \<Rightarrow> fst (RoundTrip env n cur) = answer_of env n cur (n - 1) \<and> set (snd (snd (RoundTrip env n cur))) = {0..<n}))"
proof -
  have d: "distinct (tried_order n cur 0 k)" if "k \<le> n" for k
    using distinct_take [OF tried_order_distinct, of k n cur] that by (simp add: tried_order_def take_map min_def)
  have all: "set (tried_order n cur 0 n) = {0..<n}"
  proof (rule card_subset_eq)
    show "set (tried_order n cur 0 n) \<subseteq> {0..<n}" using assms by (auto simp: tried_order_def)
    show "card (set (tried_order n cur 0 n)) = card {0..<n}"
      using distinct_card [OF tried_order_distinct, of n cur] by (simp add: tried_order_def)
  qed simp
  have "\<exists>k\<le>n. snd (snd (RoundTrip env n cur)) = tried_order n cur 0 k"
    using rt_loop_order [of 0 n env cur None cur] by (auto simp: RoundTrip_def)
  moreover have "case find (answers env n cur) [0..<n] of
      Some k \<Rightarrow> RoundTrip env n cur = (answer_of env n cur k, (cur + k) mod n, tried_order n cur 0 (Suc k))
    | None \<Rightarrow> fst (RoundTrip env n cur) = answer_of env n cur (n - 1) \<and> set (snd (snd (RoundTrip env n cur))) = {0..<n}"
    if "replayable env \<and> (\<forall>i. \<not> rt_cancelled env i)"
    using rt_loop_complete [of env 0 n cur None cur] that assms all
    unfolding RoundTrip_def by (simp split: option.split_asm option.split)
  ultimately show ?thesis using d by auto
qed

theorem failover_finds_answer_witness:
  "RoundTrip demo_rpc 4 1 = (RtResponse 200 ''ok'', 3, [1, 2, 3])"
  using failover_finds_answer [of 4 demo_rpc 1]
  by (simp add: demo_rpc_def replayable_def answers_def answer_of_def tried_order_def upt_rec)

end
