(* ===== verification/Operator_Stake.thy ===== *)
theory Operator_Stake
  imports Go_Parse Chain_Reads
begin

text \<open>
  The operator commands that move stake and money (internal/cli/handler.go Reinstate and TopUpStake,
  internal/cli/settlement.go Balance and Withdraw, internal/cli/preflight.go amounts and the cooldown, internal/cli/init.go
  confirmation). The chain interface ReinstateChain (and the two methods of SettlementClient) is the record
  \<open>op_chain\<close> over a state of its own; \<open>op_log\<close> records the reads and transactions, newest first. Printed lines
  are left out, except the question of a confirmation; contexts are part of the answers.
\<close>

section \<open>Amounts\<close>

definition lcaiToWei :: "int \<Rightarrow> int" where
  "lcaiToWei n = n * 1000000000000000000"

definition gasBufferLCAI :: int where
  "gasBufferLCAI = 50"

definition ParseLCAI :: "string \<Rightarrow> go_error + int" where
  "ParseLCAI s =
     (case strings_Cut (CHR ''.'') s of (whole, frac, _) \<Rightarrow>
        let digits = whole @ frac in
        if digits = [] \<or> length frac > 18 \<or> list_ex (\<lambda>c. digit_val c = None) digits
        then Inl (errorf ''not an LCAI amount'')
        else case SetString (digits @ replicate (18 - length frac) (CHR ''0'')) of
          None \<Rightarrow> Inl (errorf ''not an LCAI amount'')
        | Some wei \<Rightarrow> if wei = 0 then Inl (errorf ''the amount must be more than 0 LCAI'') else Inr wei)"

text \<open>Time left of a suspension, in nanoseconds: int64 arithmetic on the low 64 bits of the contract's answer.\<close>

definition cooldown :: "int \<Rightarrow> HeadInfo \<Rightarrow> int" where
  "cooldown until head = i64 (i64 (i64 until - hd_Timestamp head) * Second)"

section \<open>State\<close>

datatype op_event =
    OpRegistered "go_error + bool"
  | OpSuspended "go_error + bool"
  | OpStake "go_error + int"
  | OpMinStake "go_error + int"
  | OpUntil "go_error + int"
  | OpHead "go_error + HeadInfo"
  | OpBalance "go_error + int"
  | OpEarned "go_error + int option"
  | OpAsked string
  | OpTxReinstate "go_error option"
  | OpTxTopUp int "go_error option"
  | OpTxWithdraw "go_error option"

record 'c op_chain =
  oc_Head :: "'c \<Rightarrow> (go_error + HeadInfo) \<times> 'c"
  oc_IsWorkerRegistered :: "'c \<Rightarrow> (go_error + bool) \<times> 'c"
  oc_IsWorkerSuspended :: "'c \<Rightarrow> (go_error + bool) \<times> 'c"
  oc_GetSuspendedUntil :: "'c \<Rightarrow> (go_error + int) \<times> 'c"
  oc_Balance :: "'c \<Rightarrow> (go_error + int) \<times> 'c"
  oc_GetWorkerStake :: "'c \<Rightarrow> (go_error + int) \<times> 'c"
  oc_GetMinWorkerStake :: "'c \<Rightarrow> (go_error + int) \<times> 'c"
  oc_Reinstate :: "'c \<Rightarrow> go_error option \<times> 'c"
  oc_TopUpStake :: "int \<Rightarrow> 'c \<Rightarrow> go_error option \<times> 'c"
  oc_WorkerBalance :: "'c \<Rightarrow> (go_error + int option) \<times> 'c"
  oc_Withdraw :: "'c \<Rightarrow> go_error option \<times> 'c"

record 'c op_st =
  op_state :: 'c
  op_log :: "op_event list"
  op_in :: "string list option"

definition ocall :: "('c \<Rightarrow> 'x \<times> 'c) \<Rightarrow> ('x \<Rightarrow> op_event) \<Rightarrow> ('c op_st, 'x) prog" where
  "ocall f ev = State (\<lambda>s. case f (op_state s) of (x, c) \<Rightarrow> (x, s\<lparr>op_state := c, op_log := ev x # op_log s\<rparr>))"

definition read_or :: "string \<Rightarrow> ('c \<Rightarrow> (go_error + 'x) \<times> 'c) \<Rightarrow> (go_error + 'x \<Rightarrow> op_event) \<Rightarrow> ('c op_st, go_error + 'x) prog" where
  "read_or what f ev = map_err (wrapf what) (ocall f ev)"

text \<open>\<open>ask\<close> and \<open>confirm\<close>: the input is absent or a list of lines; at its end the answer is empty.\<close>

definition ask :: "string \<Rightarrow> ('c op_st, string) prog" where
  "ask question = State (\<lambda>s. (case op_in s of Some (line # _) \<Rightarrow> TrimSpace line | _ \<Rightarrow> [],
     s\<lparr>op_log := OpAsked question # op_log s, op_in := map_option tl (op_in s)\<rparr>))"

definition confirm :: "string \<Rightarrow> ('c op_st, bool) prog" where
  "confirm question = do { answer \<leftarrow> ask question; let a = strings_ToLower answer; ret (a = ''y'' \<or> a = ''yes'') }"

section \<open>Commands\<close>

definition refuse :: "bool \<Rightarrow> string \<Rightarrow> ('s, go_error + 'b) prog \<Rightarrow> ('s, go_error + 'b) prog" where
  "refuse b msg m = (if b then ret (Inl (errorf msg)) else m)"

definition op_Reinstate :: "'c op_chain \<Rightarrow> ('c op_st, go_error + unit) prog" where
  "op_Reinstate ch =
     attempt (read_or ''read registration'' (oc_IsWorkerRegistered ch) OpRegistered) (\<lambda>registered.
     refuse (\<not> registered) ''worker is not registered'' (
     attempt (read_or ''read suspension'' (oc_IsWorkerSuspended ch) OpSuspended) (\<lambda>suspended.
     refuse (\<not> suspended) ''worker is not suspended'' (
     attempt (read_or ''read stake'' (oc_GetWorkerStake ch) OpStake) (\<lambda>stake.
     attempt (read_or ''read the minimum stake'' (oc_GetMinWorkerStake ch) OpMinStake) (\<lambda>minStake.
     refuse (stake < minStake) ''stake is below the on-chain minimum; nothing was sent'' (
     attempt (read_or ''read the cooldown end'' (oc_GetSuspendedUntil ch) OpUntil) (\<lambda>until.
     attempt (read_or ''read the latest block'' (oc_Head ch) OpHead) (\<lambda>head.
     refuse (cooldown until head > 0) ''the suspension cooldown still runs; nothing was sent'' (do {
       r \<leftarrow> ocall (oc_Reinstate ch) OpTxReinstate;
       ret (case r of
              None \<Rightarrow> Inr ()
            | Some e \<Rightarrow> Inl (if strings_Contains (err_msg e) ''reverted'' then wrapf ''the chain rejects reinstate'' e else e))
     }))))))))))"

definition op_TopUpStake :: "'c op_chain \<Rightarrow> bool \<Rightarrow> int \<Rightarrow> ('c op_st, go_error + unit) prog" where
  "op_TopUpStake ch yes amount =
     attempt (read_or ''read registration'' (oc_IsWorkerRegistered ch) OpRegistered) (\<lambda>registered.
     refuse (\<not> registered) ''worker is not registered'' (
     attempt (read_or ''read balance'' (oc_Balance ch) OpBalance) (\<lambda>bal.
     refuse (bal \<le> amount) ''topping up needs gas on top; nothing was sent'' (
     attempt (read_or ''read stake'' (oc_GetWorkerStake ch) OpStake) (\<lambda>stake.
     attempt (read_or ''read the minimum stake'' (oc_GetMinWorkerStake ch) OpMinStake) (\<lambda>minStake.
     attempt (read_or ''read suspension'' (oc_IsWorkerSuspended ch) OpSuspended) (\<lambda>suspended. do {
       go \<leftarrow> (if yes then ret True else confirm ''Add to the stake of the worker? [y/N] '');
       refuse (\<not> go) ''top-up not confirmed, nothing was sent'' (do {
         r \<leftarrow> ocall (oc_TopUpStake ch amount) (OpTxTopUp amount);
         ret (case r of None \<Rightarrow> Inr () | Some e \<Rightarrow> Inl e)
       })
     })))))))"

definition op_BalanceCmd :: "'c op_chain option \<Rightarrow> ('c op_st, go_error + int option) prog" where
  "op_BalanceCmd settlement =
     (case settlement of
        None \<Rightarrow> ret (Inl (errorf ''Balance: Settlement client not configured''))
      | Some ch \<Rightarrow> read_or ''read worker balance'' (oc_WorkerBalance ch) OpEarned)"

definition op_Withdraw :: "'c op_chain option \<Rightarrow> ('c op_st, go_error + unit) prog" where
  "op_Withdraw settlement =
     (case settlement of
        None \<Rightarrow> ret (Inl (errorf ''Withdraw: Settlement client not configured''))
      | Some ch \<Rightarrow>
          attempt (read_or ''read pre-withdraw balance'' (oc_WorkerBalance ch) OpEarned) (\<lambda>pre.
            if pre = None \<or> pre = Some 0 then ret (Inr ())
            else do {
              r \<leftarrow> ocall (oc_Withdraw ch) OpTxWithdraw;
              (case r of
                 Some e \<Rightarrow> ret (Inl (wrapf ''withdraw tx'' e))
               | None \<Rightarrow> do { post \<leftarrow> ocall (oc_WorkerBalance ch) OpEarned; ret (Inr ()) })
            }))"

section \<open>Lemmas\<close>

lemma wp_ocall [wp_simps]:
  "wp (ocall f ev) Q = (\<lambda>s. case f (op_state s) of (x, c) \<Rightarrow> Q x (s\<lparr>op_state := c, op_log := ev x # op_log s\<rparr>))"
  by (auto simp: wp_def ocall_def fun_eq_iff split: prod.splits)

lemma wp_read_or [wp_simps]:
  "wp (read_or what f ev) Q = (\<lambda>s. case f (op_state s) of (x, c) \<Rightarrow>
     Q (case x of Inl e \<Rightarrow> Inl (wrapf what e) | Inr v \<Rightarrow> Inr v) (s\<lparr>op_state := c, op_log := ev x # op_log s\<rparr>))"
  by (simp add: read_or_def wp_simps)

lemma wp_refuse [wp_simps]: "wp (refuse b msg m) Q = (if b then Q (Inl (errorf msg)) else wp m Q)"
  by (simp add: refuse_def wp_simps)

lemma wp_ask [wp_simps]:
  "wp (ask question) Q = (\<lambda>s. Q (case op_in s of Some (line # _) \<Rightarrow> TrimSpace line | _ \<Rightarrow> [])
     (s\<lparr>op_log := OpAsked question # op_log s, op_in := map_option tl (op_in s)\<rparr>))"
  by (simp add: wp_def ask_def fun_eq_iff)

fun op_sends :: "op_event \<Rightarrow> bool" where
  "op_sends (OpTxReinstate r) \<longleftrightarrow> True"
| "op_sends (OpTxTopUp a r) \<longleftrightarrow> True"
| "op_sends (OpTxWithdraw r) \<longleftrightarrow> True"
| "op_sends _ \<longleftrightarrow> False"

text \<open>The reads that must directly precede a reinstate transaction (newest first).\<close>

definition reinstate_reads :: "int \<Rightarrow> HeadInfo \<Rightarrow> int \<Rightarrow> int \<Rightarrow> op_event list" where
  "reinstate_reads until head stake minStake =
     [OpHead (Inr head), OpUntil (Inr until), OpMinStake (Inr minStake), OpStake (Inr stake), OpSuspended (Inr True), OpRegistered (Inr True)]"

definition top_up_reads :: "int \<Rightarrow> int \<Rightarrow> int \<Rightarrow> bool \<Rightarrow> op_event list" where
  "top_up_reads bal stake minStake suspended =
     [OpSuspended (Inr suspended), OpMinStake (Inr minStake), OpStake (Inr stake), OpBalance (Inr bal), OpRegistered (Inr True)]"

definition reinstated :: "go_error + unit \<Rightarrow> op_event list \<Rightarrow> bool" where
  "reinstated r log \<longleftrightarrow> (\<exists>x until head stake minStake. log = OpTxReinstate x # reinstate_reads until head stake minStake \<and>
     minStake \<le> stake \<and> cooldown until head \<le> 0 \<and> (r = Inr () \<longleftrightarrow> x = None))"

definition answered_yes :: "string list option \<Rightarrow> op_event list \<Rightarrow> bool" where
  "answered_yes inp q \<longleftrightarrow> (\<exists>line ls t. inp = Some (line # ls) \<and> strings_ToLower (TrimSpace line) \<in> {''y'', ''yes''} \<and> q = [OpAsked t])"

definition topped_up :: "bool \<Rightarrow> int \<Rightarrow> string list option \<Rightarrow> go_error + unit \<Rightarrow> op_event list \<Rightarrow> bool" where
  "topped_up yes amount inp r log \<longleftrightarrow> (\<exists>x bal stake minStake suspended q. log = OpTxTopUp amount x # q @ top_up_reads bal stake minStake suspended \<and>
     amount < bal \<and> (if yes then q = [] else answered_yes inp q) \<and> (r = Inr () \<longleftrightarrow> x = None))"

definition withdrawn :: "go_error + unit \<Rightarrow> op_event list \<Rightarrow> bool" where
  "withdrawn r log \<longleftrightarrow> (\<exists>bal x q. log = q @ [OpTxWithdraw x, OpEarned (Inr (Some bal))] \<and> bal \<noteq> 0 \<and> \<not> list_ex op_sends q \<and> (r = Inr () \<longleftrightarrow> x = None))"

lemma cooldown_exact:
  assumes "0 \<le> until" "until < 2 ^ 63" "0 \<le> hd_Timestamp head" "hd_Timestamp head < 2 ^ 63" "until - hd_Timestamp head \<le> 9223372036"
    "hd_Timestamp head - until \<le> 9223372036"
  shows "cooldown until head = (until - hd_Timestamp head) * Second"
  using assms by (simp add: cooldown_def i64_id in_i64_def)

lemma Reinstate_wp:
  assumes "op_log s = []"
  shows "wp (op_Reinstate ch) (\<lambda>r s'. if list_ex op_sends (op_log s') then reinstated r (op_log s') else r \<noteq> Inr ()) s"
  using assms by (auto simp: op_Reinstate_def wp_simps reinstated_def reinstate_reads_def split: prod.splits sum.splits option.splits)

lemma TopUp_wp:
  assumes "op_log s = []"
  shows "wp (op_TopUpStake ch yes amount) (\<lambda>r s'. if list_ex op_sends (op_log s') then topped_up yes amount (op_in s) r (op_log s') else r \<noteq> Inr ()) s"
  using assms
  by (cases yes) (auto simp: op_TopUpStake_def confirm_def Let_def wp_simps topped_up_def answered_yes_def top_up_reads_def strings_ToLower_def
      split: prod.splits sum.splits option.splits list.splits)

lemma Withdraw_wp:
  assumes "op_log s = []"
  shows "wp (op_Withdraw (Some ch)) (\<lambda>r s'. if list_ex op_sends (op_log s') then withdrawn r (op_log s')
     else r = Inr () \<longleftrightarrow> op_log s' = [OpEarned (Inr None)] \<or> op_log s' = [OpEarned (Inr (Some 0))]) s"
  using assms by (auto simp: op_Withdraw_def wp_simps withdrawn_def split: prod.splits sum.splits option.splits)

lemma parse_digits_acc: "parse_digits acc s = map_option (\<lambda>v. acc * 10 ^ length s + v) (parse_digits 0 s)"
proof (induction s arbitrary: acc)
  case (Cons c s)
  show ?case
    using Cons [of "acc * 10 + the (digit_val c)"] Cons [of "the (digit_val c)"]
    by (cases "digit_val c"; cases "parse_digits 0 s") (simp_all add: algebra_simps)
qed simp

lemma parse_digits_all: "parse_digits acc s = None \<longleftrightarrow> list_ex (\<lambda>c. digit_val c = None) s"
  by (induction s arbitrary: acc) (auto split: option.splits)

lemma digit_val_0 [simp]: "digit_val (CHR ''0'') = Some 0"
  by (simp add: digit_val_def)

lemma parse_digits_zeros: "parse_digits a (replicate k (CHR ''0'')) = Some (a * 10 ^ k)"
  by (induction k arbitrary: a) (simp_all add: algebra_simps)

lemma SetString_digits:
  assumes "parse_digits 0 s = Some v" "s \<noteq> []"
  shows "SetString s = Some (int v)"
  using assms by (cases s) (auto simp: SetString_def Let_def split: option.splits)

lemma dot_no_digit [simp]: "digit_val (CHR ''.'') = None"
  by (simp add: digit_val_def)

section \<open>Properties\<close>

lemma Cut_at: "c \<notin> set w \<Longrightarrow> strings_Cut c (w @ c # f) = (w, f, True)"
  by (induction w) (auto simp: strings_Cut_def split: if_splits)

lemma ParseLCAI_parts:
  assumes "CHR ''.'' \<notin> set w" "t = [] \<or> hd t = CHR ''.''"
  shows "(case parse_digits 0 w of
      None \<Rightarrow> \<exists>e. ParseLCAI (w @ t) = Inl e
    | Some a \<Rightarrow> (case parse_digits 0 (tl t) of
        None \<Rightarrow> \<exists>e. ParseLCAI (w @ t) = Inl e
      | Some b \<Rightarrow> (let n = a * 10 ^ 18 + b * 10 ^ (18 - length (tl t)) in
          if w @ tl t = [] \<or> length (tl t) > 18 \<or> n = 0 then \<exists>e. ParseLCAI (w @ t) = Inl e else ParseLCAI (w @ t) = Inr (int n))))"
proof -
  have cut: "\<exists>found. strings_Cut (CHR ''.'') (w @ t) = (w, tl t, found)"
    using assms by (cases t) (auto simp: Cut_at, auto simp: strings_Cut_def)
  have bad: "\<exists>e. ParseLCAI (w @ t) = Inl e" if "list_ex (\<lambda>c. digit_val c = None) (w @ tl t)"
    using cut that by (auto simp: ParseLCAI_def Let_def)
  show ?thesis
  proof (cases "parse_digits 0 w")
    case None
    then show ?thesis using bad parse_digits_all [of 0 w] by simp
  next
    case (Some a)
    show ?thesis
    proof (cases "parse_digits 0 (tl t)")
      case None
      then show ?thesis using Some bad parse_digits_all [of 0 "tl t"] by simp
    next
      case b: (Some b)
      have digits: "\<not> list_ex (\<lambda>c. digit_val c = None) (w @ tl t)"
        using parse_digits_all [of 0 w] parse_digits_all [of 0 "tl t"] Some b by simp
      show ?thesis
      proof (cases "w @ tl t = [] \<or> length (tl t) > 18")
        case True
        then show ?thesis using Some b cut by (auto simp: ParseLCAI_def Let_def)
      next
        case False
        have "parse_digits 0 ((w @ tl t) @ replicate (18 - length (tl t)) (CHR ''0'')) = Some ((a * 10 ^ length (tl t) + b) * 10 ^ (18 - length (tl t)))"
          using Some b parse_digits_acc [of a "tl t"] by (simp add: parse_digits_append parse_digits_zeros)
        moreover have "(a * 10 ^ length (tl t) + b) * 10 ^ (18 - length (tl t)) = a * 10 ^ 18 + b * 10 ^ (18 - length (tl t))"
          using False by (simp add: algebra_simps flip: power_add)
        ultimately have "SetString ((w @ tl t) @ replicate (18 - length (tl t)) (CHR ''0'')) = Some (int (a * 10 ^ 18 + b * 10 ^ (18 - length (tl t))))"
          using False by (metis SetString_digits append_is_Nil_conv)
        then show ?thesis using False digits cut Some b by (auto simp: ParseLCAI_def Let_def simp del: of_nat_add of_nat_mult)
      qed
    qed
  qed
qed

definition lcai_value :: "string \<Rightarrow> string \<Rightarrow> nat option" where
  "lcai_value w f =
     (case (parse_digits 0 w, parse_digits 0 f) of
        (Some a, Some b) \<Rightarrow> if w @ f = [] \<or> length f > 18 then None else Some (a * 10 ^ 18 + b * 10 ^ (18 - length f))
      | _ \<Rightarrow> None)"

text \<open>
  Amounts are exact. A string w or w.f (w without a point) is accepted as an LCAI amount exactly when w and f are
  digits, not both empty, with at most 18 decimals, and its value is not zero; the result is that value in wei,
  without rounding.
\<close>

theorem lcai_amounts_exact:
  assumes "CHR ''.'' \<notin> set w" "t = [] \<or> hd t = CHR ''.''"
  shows "ParseLCAI (w @ t) = Inr wei \<longleftrightarrow> (\<exists>n. lcai_value w (tl t) = Some n \<and> n > 0 \<and> wei = int n)"
  using ParseLCAI_parts [OF assms] unfolding lcai_value_def Let_def
  by (cases "parse_digits 0 w"; cases "parse_digits 0 (tl t)") (auto split: if_splits)

theorem lcai_amounts_exact_witness:
  "ParseLCAI ''60.25'' = Inr 60250000000000000000"
  using lcai_amounts_exact [of "''60''" "''.25''" 60250000000000000000]
  by (simp add: lcai_value_def digit_val_def)

definition demo_op_chain :: "unit op_chain" where
  "demo_op_chain = \<lparr>oc_Head = \<lambda>c. (Inr \<lparr>hd_Number = 9, hd_Timestamp = 1000\<rparr>, c), oc_IsWorkerRegistered = \<lambda>c. (Inr True, c),
     oc_IsWorkerSuspended = \<lambda>c. (Inr True, c), oc_GetSuspendedUntil = \<lambda>c. (Inr 900, c), oc_Balance = \<lambda>c. (Inr 70, c),
     oc_GetWorkerStake = \<lambda>c. (Inr 50, c), oc_GetMinWorkerStake = \<lambda>c. (Inr 50, c), oc_Reinstate = \<lambda>c. (None, c),
     oc_TopUpStake = \<lambda>a c. (None, c), oc_WorkerBalance = \<lambda>c. (Inr (Some 5), c), oc_Withdraw = \<lambda>c. (None, c)\<rparr>"

definition demo_op :: "unit op_st" where
  "demo_op = \<lparr>op_state = (), op_log = [], op_in = Some [''Yes'']\<rparr>"

text \<open>
  The reinstate command calls the chain client at most once, directly after
  reads that showed the worker registered, suspended, staked to the minimum and (for a cooldown within 292 years of
  the head, the range of a duration; beyond it the difference wraps) past its cooldown; it reports success exactly when that call succeeded.
\<close>

theorem reinstate_guarded:
  assumes "op_log s = []" "run_state (op_Reinstate ch) s = (r, s')"
  shows "(if list_ex op_sends (op_log s') then reinstated r (op_log s') else r \<noteq> Inr ()) \<and>
    (OpUntil (Inr until) \<in> set (op_log s') \<longrightarrow> OpHead (Inr head) \<in> set (op_log s') \<longrightarrow> list_ex op_sends (op_log s') \<longrightarrow>
     0 \<le> until \<longrightarrow> until < 2 ^ 63 \<longrightarrow> 0 \<le> hd_Timestamp head \<longrightarrow> hd_Timestamp head < 2 ^ 63 \<longrightarrow> \<bar>until - hd_Timestamp head\<bar> \<le> 9223372036 \<longrightarrow>
     until \<le> hd_Timestamp head)"
  using wp_run [OF Reinstate_wp [OF assms(1)] assms(2)] cooldown_exact [of until head]
  by (auto simp: reinstated_def reinstate_reads_def)

theorem reinstate_guarded_witness:
  "\<exists>s'. run_state (op_Reinstate demo_op_chain) demo_op = (Inr (), s') \<and> reinstated (Inr ()) (op_log s')"
proof -
  obtain s' where "run_state (op_Reinstate demo_op_chain) demo_op = (Inr (), s')"
    by (simp add: op_Reinstate_def attempt_def read_or_def map_err_def ocall_def refuse_def demo_op_chain_def cooldown_def i64_def)
  then show ?thesis using reinstate_guarded [of demo_op demo_op_chain "Inr ()" s' 0 "\<lparr>hd_Number = 0, hd_Timestamp = 0\<rparr>"] by (auto simp: demo_op_def split: if_splits)
qed

text \<open>
  C34. Money moves on demand. The top-up command calls the chain client's topUpStake at most once, with exactly the asked amount, and
  only after every read has succeeded, the worker was read as registered and holding more than the amount, and the operator has
  answered yes (or passed --yes); it reports success exactly when the call was made and returned no error. The withdraw command
  calls withdraw at most once, and only for a balance that was read as not zero; it reports success exactly when that call
  returned no error, or, with no call made, when the balance was read as zero or absent. (One call of the client may broadcast a
  second time after a nonce desync; see contract operations.)
\<close>

theorem money_commands_guarded:
  assumes "op_log s = []" "run_state (op_TopUpStake ch yes amount) s = (r, s')" "run_state (op_Withdraw (Some ch)) s = (r2, s2)"
  shows "(if list_ex op_sends (op_log s') then topped_up yes amount (op_in s) r (op_log s') else r \<noteq> Inr ()) \<and>
    (if list_ex op_sends (op_log s2) then withdrawn r2 (op_log s2)
     else r2 = Inr () \<longleftrightarrow> op_log s2 = [OpEarned (Inr None)] \<or> op_log s2 = [OpEarned (Inr (Some 0))])"
  using wp_run [OF TopUp_wp [OF assms(1)] assms(2)] wp_run [OF Withdraw_wp [OF assms(1)] assms(3)] by blast

theorem money_commands_guarded_witness:
  "topped_up False 60 (Some [''Yes'']) (fst (run_state (op_TopUpStake demo_op_chain False 60) demo_op))
     (op_log (snd (run_state (op_TopUpStake demo_op_chain False 60) demo_op)))"
proof -
  have "list_ex op_sends (op_log (snd (run_state (op_TopUpStake demo_op_chain False 60) demo_op)))"
    by (simp add: op_TopUpStake_def attempt_def read_or_def map_err_def ocall_def refuse_def confirm_def ask_def demo_op_chain_def demo_op_def
        TrimSpace_def is_space_def strings_ToLower_def to_lower_char_def char_of_def bit_0)
  then show ?thesis using money_commands_guarded [OF _ prod.collapse [symmetric] prod.collapse [symmetric], of demo_op demo_op_chain False 60]
    by (simp add: demo_op_def)
qed

end
