(* ===== verification/Operator_Preflight.thy ===== *)
theory Operator_Preflight
  imports Operator_Stake Gateway_Client
begin

text \<open>
  The preflight command (internal/cli/preflight.go): the checks an operator runs before going live. The answers of
  the node, of the HTTP probes and of the key file are the record \<open>probe\<close>; the head is read twice. A report keeps
  its counters and, for every line, its status and the name of the check; the text of the lines is left out.
\<close>

section \<open>Answers\<close>

datatype check_status = PASS | WARN | FAIL | SKIP

record report =
  rp_lines :: "(check_status \<times> string) list"
  rp_passed :: nat
  rp_warned :: nat
  rp_fail :: nat

record probe =
  pr_ChainID :: "go_error + int"
  pr_Head :: "go_error + HeadInfo"
  pr_Head2 :: "go_error + HeadInfo"
  pr_now :: int
  pr_Balance :: "go_error + int"
  pr_IsWorkerRegistered :: "go_error + bool"
  pr_IsWorkerSuspended :: "go_error + bool"
  pr_GetSuspendedUntil :: "go_error + int"
  pr_GetWorkerStake :: "go_error + int"
  pr_GetMinWorkerStake :: "go_error + int"
  pr_GetWorkerEncryptionKey :: "go_error + byte list"
  pr_IsModelWhitelisted :: "hash \<Rightarrow> go_error + bool"
  pr_IsModelEnabled :: "hash \<Rightarrow> go_error + bool"
  pr_WorkerSupportsModel :: "hash \<Rightarrow> go_error + bool"
  pr_LoadECDHKey :: "go_error + byte list"
  pr_Authenticate :: "go_error option"
  pr_tags :: "go_error + int \<times> (go_error + string list)"
  pr_beacon :: "go_error + int \<times> (go_error + string)"

record PreflightHandler =
  ph_ChainID :: int
  ph_ModelIDs :: "hash list"
  ph_ModelNames :: "string list"
  ph_LoadECDHKey :: bool
  ph_Gateway :: bool
  ph_OllamaURL :: string
  ph_BeaconURL :: string

definition rpass :: "string \<Rightarrow> report \<Rightarrow> report" where
  "rpass name r = r\<lparr>rp_passed := rp_passed r + 1, rp_lines := rp_lines r @ [(PASS, name)]\<rparr>"

definition rwarn :: "string \<Rightarrow> report \<Rightarrow> report" where
  "rwarn name r = r\<lparr>rp_warned := rp_warned r + 1, rp_lines := rp_lines r @ [(WARN, name)]\<rparr>"

definition failf :: "string \<Rightarrow> report \<Rightarrow> report" where
  "failf name r = r\<lparr>rp_fail := rp_fail r + 1, rp_lines := rp_lines r @ [(FAIL, name)]\<rparr>"

definition rskip :: "string \<Rightarrow> report \<Rightarrow> report" where
  "rskip name r = r\<lparr>rp_lines := rp_lines r @ [(SKIP, name)]\<rparr>"

section \<open>Checks\<close>

definition publishedMinStakeLCAI :: "int \<Rightarrow> int option" where
  "publishedMinStakeLCAI = [8200 \<mapsto> 5000, 9200 \<mapsto> 50000]"

definition headStaleAfter :: int where
  "headStaleAfter = 60 * Second"

text \<open>\<open>now.Sub\<close> saturates; \<open>Round\<close> goes to the nearest multiple, halfway away from zero.\<close>

definition duration_Sub :: "int \<Rightarrow> int \<Rightarrow> int" where
  "duration_Sub a b = max (- (2 ^ 63)) (min (2 ^ 63 - 1) (a - b))"

definition duration_Round :: "int \<Rightarrow> int \<Rightarrow> int" where
  "duration_Round d m =
     (let r = d - go_div d m * m in
      if d < 0 then (if - r + - r < m then d - r else max (- (2 ^ 63)) (d - r - m))
      else (if r + r < m then d - r else min (2 ^ 63 - 1) (d - r + m)))"

definition checkRPC :: "PreflightHandler \<Rightarrow> probe \<Rightarrow> report \<Rightarrow> bool \<times> report" where
  "checkRPC h p r =
     (case pr_ChainID p of
        Inl e \<Rightarrow> (False, failf ''rpc'' r)
      | Inr cid \<Rightarrow>
          if i64 cid \<noteq> ph_ChainID h then (False, failf ''rpc'' r)
          else case pr_Head p of
            Inl e \<Rightarrow> (False, failf ''rpc'' r)
          | Inr head \<Rightarrow>
              (True, if duration_Round (duration_Sub (pr_now p) (hd_Timestamp head * Second)) Second > headStaleAfter
                     then rwarn ''rpc'' r else rpass ''rpc'' r))"

definition checkSuspension :: "probe \<Rightarrow> report \<Rightarrow> report" where
  "checkSuspension p r =
     (case pr_IsWorkerSuspended p of
        Inl e \<Rightarrow> failf ''suspended'' r
      | Inr suspended \<Rightarrow>
          if \<not> suspended then rpass ''suspended'' r
          else case pr_GetSuspendedUntil p of
            Inl e \<Rightarrow> failf ''suspended'' r
          | Inr until \<Rightarrow>
              (case pr_Head2 p of
                 Inl e \<Rightarrow> failf ''suspended'' r
               | Inr head \<Rightarrow> if cooldown until head > 0 then failf ''suspended'' r else failf ''suspended'' r))"

definition checkStake :: "probe \<Rightarrow> int \<Rightarrow> report \<Rightarrow> report" where
  "checkStake p minStake r =
     (case pr_GetWorkerStake p of
        Inl e \<Rightarrow> failf ''stake'' r
      | Inr stake \<Rightarrow> if stake < minStake then failf ''stake'' r else rpass ''stake'' r)"

definition checkBalance :: "probe \<Rightarrow> bool \<Rightarrow> int option \<Rightarrow> report \<Rightarrow> report" where
  "checkBalance p registered minStake r =
     (case pr_Balance p of
        Inl e \<Rightarrow> failf ''balance'' r
      | Inr bal \<Rightarrow>
          (let buffer = lcaiToWei gasBufferLCAI in
           if registered then
             (if bal = 0 then failf ''balance'' r
              else if bal < buffer then rwarn ''balance'' r
              else rpass ''balance'' r)
           else case minStake of
             None \<Rightarrow> rskip ''balance'' r
           | Some m \<Rightarrow>
               (if bal < m then failf ''balance'' r
                else if bal < m + buffer then rwarn ''balance'' r
                else rpass ''balance'' r)))"

definition checkECDH :: "PreflightHandler \<Rightarrow> probe \<Rightarrow> bool \<Rightarrow> report \<Rightarrow> report" where
  "checkECDH h p registered r =
     (if \<not> ph_LoadECDHKey h then rskip ''ecdh'' r
      else case pr_LoadECDHKey p of
        Inl e \<Rightarrow>
          if errors_Is e ErrNotExist \<and> \<not> registered then rwarn ''ecdh'' r
          else failf ''ecdh'' r
      | Inr key \<Rightarrow>
          if \<not> registered then rpass ''ecdh'' r
          else case pr_GetWorkerEncryptionKey p of
            Inl e \<Rightarrow> failf ''ecdh'' r
          | Inr onChain \<Rightarrow> if onChain \<noteq> key then failf ''ecdh'' r else rpass ''ecdh'' r)"

definition check_model :: "probe \<Rightarrow> bool \<Rightarrow> hash \<Rightarrow> report \<Rightarrow> report" where
  "check_model p registered mid r =
     (case pr_IsModelWhitelisted p mid of
        Inl e \<Rightarrow> failf ''model'' r
      | Inr whitelisted \<Rightarrow>
          if \<not> whitelisted then failf ''model'' r
          else case pr_IsModelEnabled p mid of
            Inl e \<Rightarrow> failf ''model'' r
          | Inr enabled \<Rightarrow>
              if \<not> enabled then failf ''model'' r
              else if \<not> registered then rpass ''model'' r
              else case pr_WorkerSupportsModel p mid of
                Inl e \<Rightarrow> failf ''model'' r
              | Inr supported \<Rightarrow> if \<not> supported then failf ''model'' r else rpass ''model'' r)"

definition checkModels :: "PreflightHandler \<Rightarrow> probe \<Rightarrow> bool \<Rightarrow> report \<Rightarrow> report" where
  "checkModels h p registered r =
     (if ph_ModelIDs h = [] then rskip ''model'' r
      else if length (ph_ModelNames h) \<noteq> length (ph_ModelIDs h) then failf ''model'' r
      else fold (check_model p registered) (ph_ModelIDs h) r)"

definition checkChain :: "PreflightHandler \<Rightarrow> probe \<Rightarrow> report \<Rightarrow> report" where
  "checkChain h p r =
     (case pr_IsWorkerRegistered p of
        Inl e \<Rightarrow> failf ''registered'' r
      | Inr registered \<Rightarrow>
          (let r1 = (if registered then checkSuspension p (rpass ''registered'' r) else failf ''registered'' r);
               minStake = (case pr_GetMinWorkerStake p of Inl e \<Rightarrow> None | Inr m \<Rightarrow> Some m);
               r2 = (case minStake of
                       None \<Rightarrow> failf ''stake'' r1
                     | Some m \<Rightarrow>
                         (let r' = (case publishedMinStakeLCAI (ph_ChainID h) of
                                      Some pub \<Rightarrow> if m \<noteq> lcaiToWei pub then rwarn ''stake'' r1 else r1
                                    | None \<Rightarrow> r1)
                          in if registered then checkStake p m r' else rskip ''stake'' r'))
           in checkModels h p registered (checkECDH h p registered (checkBalance p registered minStake r2))))"

definition checkGateway :: "PreflightHandler \<Rightarrow> probe \<Rightarrow> report \<Rightarrow> report" where
  "checkGateway h p r =
     (if \<not> ph_Gateway h then rskip ''gateway'' r
      else case pr_Authenticate p of Some e \<Rightarrow> failf ''gateway'' r | None \<Rightarrow> rpass ''gateway'' r)"

definition checkOllama :: "PreflightHandler \<Rightarrow> probe \<Rightarrow> report \<Rightarrow> report" where
  "checkOllama h p r =
     (if ph_OllamaURL h = [] then rskip ''ollama'' r
      else case pr_tags p of
        Inl e \<Rightarrow> failf ''ollama'' r
      | Inr (status, body) \<Rightarrow>
          if status \<noteq> 200 then failf ''ollama'' r
          else case body of
            Inl e \<Rightarrow> failf ''ollama'' r
          | Inr present \<Rightarrow>
              (let missing = filter (\<lambda>name. name \<notin> set present \<and> name @ '':latest'' \<notin> set present) (ph_ModelNames h);
                   r' = fold (\<lambda>name. failf ''ollama'') missing r
               in if missing = [] then rpass ''ollama'' r' else r'))"

definition checkBeacon :: "PreflightHandler \<Rightarrow> probe \<Rightarrow> report \<Rightarrow> report" where
  "checkBeacon h p r =
     (if ph_BeaconURL h = [] then rskip ''beacon'' r
      else case pr_beacon p of
        Inl e \<Rightarrow> failf ''beacon'' r
      | Inr (status, body) \<Rightarrow>
          if status \<noteq> 200 then failf ''beacon'' r
          else case body of Inl e \<Rightarrow> failf ''beacon'' r | Inr version \<Rightarrow> rpass ''beacon'' r)"

definition preflight_Run :: "PreflightHandler \<Rightarrow> probe \<Rightarrow> bool \<times> report" where
  "preflight_Run h p =
     (let r0 = \<lparr>rp_lines = [], rp_passed = 0, rp_warned = 0, rp_fail = 0\<rparr>;
          r1 = (case checkRPC h p r0 of (ok, r) \<Rightarrow> if ok then checkChain h p r else rskip ''chain'' r);
          r2 = checkBeacon h p (checkOllama h p (checkGateway h p r1))
      in (rp_fail r2 = 0, r2))"

section \<open>What a pass means\<close>

definition node_ready :: "PreflightHandler \<Rightarrow> probe \<Rightarrow> bool" where
  "node_ready h p \<longleftrightarrow> (\<exists>cid head. pr_ChainID p = Inr cid \<and> i64 cid = ph_ChainID h \<and> pr_Head p = Inr head)"

definition worker_ready :: "PreflightHandler \<Rightarrow> probe \<Rightarrow> bool" where
  "worker_ready h p \<longleftrightarrow> pr_IsWorkerRegistered p = Inr True \<and> pr_IsWorkerSuspended p = Inr False \<and>
     (\<exists>m s. pr_GetMinWorkerStake p = Inr m \<and> pr_GetWorkerStake p = Inr s \<and> m \<le> s) \<and>
     (\<exists>b. pr_Balance p = Inr b \<and> b \<noteq> 0) \<and>
     (ph_LoadECDHKey h \<longrightarrow> (\<exists>k. pr_LoadECDHKey p = Inr k \<and> pr_GetWorkerEncryptionKey p = Inr k))"

definition models_ready :: "PreflightHandler \<Rightarrow> probe \<Rightarrow> bool" where
  "models_ready h p \<longleftrightarrow> ph_ModelIDs h = [] \<or> length (ph_ModelNames h) = length (ph_ModelIDs h) \<and>
     (\<forall>m\<in>set (ph_ModelIDs h). pr_IsModelWhitelisted p m = Inr True \<and> pr_IsModelEnabled p m = Inr True \<and> pr_WorkerSupportsModel p m = Inr True)"

definition services_ready :: "PreflightHandler \<Rightarrow> probe \<Rightarrow> bool" where
  "services_ready h p \<longleftrightarrow> (ph_Gateway h \<longrightarrow> pr_Authenticate p = None) \<and>
     (ph_OllamaURL h \<noteq> [] \<longrightarrow> (\<exists>present. pr_tags p = Inr (200, Inr present) \<and> list_all (\<lambda>n. n \<in> set present \<or> n @ '':latest'' \<in> set present) (ph_ModelNames h))) \<and>
     (ph_BeaconURL h \<noteq> [] \<longrightarrow> (\<exists>v. pr_beacon p = Inr (200, Inr v)))"

named_theorems report_simps "what a line adds to the failures"

lemma report_fail [report_simps]:
  "rp_fail (rpass n r) = rp_fail r" "rp_fail (rwarn n r) = rp_fail r" "rp_fail (rskip n r) = rp_fail r" "rp_fail (failf n r) = Suc (rp_fail r)"
  by (simp_all add: rpass_def rwarn_def rskip_def failf_def)

lemma fold_failf [report_simps]: "rp_fail (fold (\<lambda>x. failf n) xs r) = rp_fail r + length xs"
  by (induction xs arbitrary: r) (simp_all add: report_simps)

lemma fails_trans:
  fixes a b c :: nat
  shows "a \<le> b \<and> (b = a \<longleftrightarrow> P) \<Longrightarrow> b \<le> c \<and> (c = b \<longleftrightarrow> Q) \<Longrightarrow> a \<le> c \<and> (c = a \<longleftrightarrow> P \<and> Q)"
  by auto

text \<open>Each check keeps the failures and adds none exactly when its part is in order.\<close>

lemma check_model_fail:
  "rp_fail r \<le> rp_fail (check_model p registered m r) \<and>
   (rp_fail (check_model p registered m r) = rp_fail r \<longleftrightarrow>
      pr_IsModelWhitelisted p m = Inr True \<and> pr_IsModelEnabled p m = Inr True \<and> (registered \<longrightarrow> pr_WorkerSupportsModel p m = Inr True))"
  by (auto simp: check_model_def report_simps split: sum.splits)

lemma fold_check_model:
  "rp_fail r \<le> rp_fail (fold (check_model p reg) ms r) \<and>
   (rp_fail (fold (check_model p reg) ms r) = rp_fail r \<longleftrightarrow>
      (\<forall>m\<in>set ms. pr_IsModelWhitelisted p m = Inr True \<and> pr_IsModelEnabled p m = Inr True \<and> (reg \<longrightarrow> pr_WorkerSupportsModel p m = Inr True)))"
proof (induction ms arbitrary: r)
  case (Cons m ms)
  let ?f = "\<lambda>r. rp_fail (fold (check_model p reg) ms r)" and ?r = "check_model p reg m r"
  have "rp_fail r \<le> ?f ?r \<and> (?f ?r = rp_fail r \<longleftrightarrow> rp_fail ?r = rp_fail r \<and> ?f ?r = rp_fail ?r)"
    using Cons [of ?r] check_model_fail [of r p reg m] by linarith
  then show ?case using Cons [of ?r] check_model_fail [of r p reg m] by simp
qed simp

lemma checkModels_fail:
  "rp_fail r \<le> rp_fail (checkModels h p reg r) \<and> (reg \<longrightarrow> (rp_fail (checkModels h p reg r) = rp_fail r \<longleftrightarrow> models_ready h p))"
  using fold_check_model [of r p reg "ph_ModelIDs h"] by (auto simp: checkModels_def models_ready_def report_simps)

lemma checkECDH_fail:
  "rp_fail r \<le> rp_fail (checkECDH h p reg r) \<and>
   (reg \<longrightarrow> (rp_fail (checkECDH h p reg r) = rp_fail r \<longleftrightarrow> (ph_LoadECDHKey h \<longrightarrow> (\<exists>k. pr_LoadECDHKey p = Inr k \<and> pr_GetWorkerEncryptionKey p = Inr k))))"
  by (auto simp: checkECDH_def report_simps split: sum.splits)

lemma checkBalance_fail:
  "rp_fail r \<le> rp_fail (checkBalance p reg m r) \<and> (reg \<longrightarrow> (rp_fail (checkBalance p reg m r) = rp_fail r \<longleftrightarrow> (\<exists>b. pr_Balance p = Inr b \<and> b \<noteq> 0)))"
  by (auto simp: checkBalance_def report_simps Let_def split: sum.splits option.splits)

lemma checkStake_fail:
  "rp_fail r \<le> rp_fail (checkStake p m r) \<and> (rp_fail (checkStake p m r) = rp_fail r \<longleftrightarrow> (\<exists>s. pr_GetWorkerStake p = Inr s \<and> m \<le> s))"
  by (auto simp: checkStake_def report_simps split: sum.splits)

lemma checkSuspension_fail:
  "rp_fail r \<le> rp_fail (checkSuspension p r) \<and> (rp_fail (checkSuspension p r) = rp_fail r \<longleftrightarrow> pr_IsWorkerSuspended p = Inr False)"
  by (auto simp: checkSuspension_def report_simps split: sum.splits)

lemma services_fail:
  "rp_fail r \<le> rp_fail (checkBeacon h p (checkOllama h p (checkGateway h p r))) \<and>
   (rp_fail (checkBeacon h p (checkOllama h p (checkGateway h p r))) = rp_fail r \<longleftrightarrow> services_ready h p)"
proof -
  have g: "rp_fail r \<le> rp_fail (checkGateway h p r) \<and> (rp_fail (checkGateway h p r) = rp_fail r \<longleftrightarrow> (ph_Gateway h \<longrightarrow> pr_Authenticate p = None))" for r
    by (auto simp: checkGateway_def report_simps split: option.splits)
  have o: "rp_fail r \<le> rp_fail (checkOllama h p r) \<and> (rp_fail (checkOllama h p r) = rp_fail r \<longleftrightarrow>
      (ph_OllamaURL h \<noteq> [] \<longrightarrow> (\<exists>present. pr_tags p = Inr (200, Inr present) \<and> list_all (\<lambda>n. n \<in> set present \<or> n @ '':latest'' \<in> set present) (ph_ModelNames h))))" for r
    by (auto simp: checkOllama_def report_simps Let_def filter_empty_conv list_all_iff split: sum.splits)
  have b: "rp_fail r \<le> rp_fail (checkBeacon h p r) \<and> (rp_fail (checkBeacon h p r) = rp_fail r \<longleftrightarrow> (ph_BeaconURL h \<noteq> [] \<longrightarrow> (\<exists>v. pr_beacon p = Inr (200, Inr v))))" for r
    by (auto simp: checkBeacon_def report_simps split: sum.splits)
  show ?thesis unfolding services_ready_def
    using fails_trans [OF fails_trans [OF g [of r] o [of "checkGateway h p r"]] b [of "checkOllama h p (checkGateway h p r)"]] by (simp add: conj_assoc)
qed

lemma checkChain_fail:
  "rp_fail r \<le> rp_fail (checkChain h p r) \<and> (rp_fail (checkChain h p r) = rp_fail r \<longleftrightarrow> worker_ready h p \<and> models_ready h p)"
proof (cases "pr_IsWorkerRegistered p")
  case (Inl e)
  then show ?thesis by (simp add: checkChain_def report_simps worker_ready_def)
next
  case (Inr registered)
  define r1 where "r1 = (if registered then checkSuspension p (rpass ''registered'' r) else failf ''registered'' r)"
  define m where "m = (case pr_GetMinWorkerStake p of Inl e \<Rightarrow> None | Inr m \<Rightarrow> Some m)"
  define r2 where "r2 = (case m of None \<Rightarrow> failf ''stake'' r1
     | Some m \<Rightarrow> (let r' = (case publishedMinStakeLCAI (ph_ChainID h) of Some pub \<Rightarrow> if m \<noteq> lcaiToWei pub then rwarn ''stake'' r1 else r1 | None \<Rightarrow> r1)
         in if registered then checkStake p m r' else rskip ''stake'' r'))"
  define r3 where "r3 = checkBalance p registered m r2"
  define r4 where "r4 = checkECDH h p registered r3"
  have run: "checkChain h p r = checkModels h p registered r4"
    unfolding checkChain_def r4_def r3_def r2_def r1_def m_def by (simp add: Inr Let_def)
  have s1: "rp_fail r \<le> rp_fail r1 \<and> (rp_fail r1 = rp_fail r \<longleftrightarrow> registered \<and> pr_IsWorkerSuspended p = Inr False)"
    using checkSuspension_fail [of "rpass ''registered'' r" p] by (simp add: r1_def report_simps)
  have s2: "rp_fail r1 \<le> rp_fail r2 \<and> (registered \<longrightarrow> (rp_fail r2 = rp_fail r1 \<longleftrightarrow> (\<exists>m s. pr_GetMinWorkerStake p = Inr m \<and> pr_GetWorkerStake p = Inr s \<and> m \<le> s)))"
    using checkStake_fail [of r1 p] checkStake_fail [of "rwarn ''stake'' r1" p]
    by (auto simp: r2_def m_def report_simps Let_def split: sum.splits option.splits)
  note s3 = checkBalance_fail [of r2 p registered m, folded r3_def]
  note s4 = checkECDH_fail [of r3 h p registered, folded r4_def]
  note s5 = checkModels_fail [of r4 h p registered]
  show ?thesis
  proof (cases registered)
    case True
    have "rp_fail r \<le> rp_fail (checkModels h p registered r4) \<and> (rp_fail (checkModels h p registered r4) = rp_fail r \<longleftrightarrow>
        ((((registered \<and> pr_IsWorkerSuspended p = Inr False) \<and> (\<exists>m s. pr_GetMinWorkerStake p = Inr m \<and> pr_GetWorkerStake p = Inr s \<and> m \<le> s)) \<and>
          (\<exists>b. pr_Balance p = Inr b \<and> b \<noteq> 0)) \<and> (ph_LoadECDHKey h \<longrightarrow> (\<exists>k. pr_LoadECDHKey p = Inr k \<and> pr_GetWorkerEncryptionKey p = Inr k))) \<and> models_ready h p)"
      by (rule fails_trans [OF fails_trans [OF fails_trans [OF fails_trans [OF s1]]]]) (use s2 s3 s4 s5 True in simp_all)
    then show ?thesis unfolding run worker_ready_def Inr by simp
  next
    case False
    have "rp_fail r < rp_fail r1" using s1 False by linarith
    also have "\<dots> \<le> rp_fail r2" using s2 by simp
    also have "\<dots> \<le> rp_fail r3" using s3 by simp
    also have "\<dots> \<le> rp_fail r4" using s4 by simp
    also have "\<dots> \<le> rp_fail (checkModels h p registered r4)" using s5 by simp
    finally show ?thesis unfolding run worker_ready_def Inr using False by simp
  qed
qed

text \<open>
  C31. Preflight is exact. The command reports success exactly when the node serves the configured chain, the worker is
  registered, not suspended, staked to the minimum, funded and (when a key is configured) holds the key
  registered on chain, every listed model is whitelisted, enabled and added, and every configured service answers:
  the gateway authenticates, Ollama has every model, the beacon API reports a version.
\<close>

theorem preflight_exact:
  "fst (preflight_Run h p) \<longleftrightarrow> node_ready h p \<and> worker_ready h p \<and> models_ready h p \<and> services_ready h p"
proof -
  define r0 :: report where "r0 = \<lparr>rp_lines = [], rp_passed = 0, rp_warned = 0, rp_fail = 0\<rparr>"
  define r1 where "r1 = (case checkRPC h p r0 of (ok, r) \<Rightarrow> if ok then checkChain h p r else rskip ''chain'' r)"
  have rpc: "(\<exists>r. checkRPC h p r0 = (True, r) \<and> rp_fail r = 0 \<and> node_ready h p) \<or> (\<exists>r. checkRPC h p r0 = (False, r) \<and> rp_fail r > 0 \<and> \<not> node_ready h p)"
    by (auto simp: checkRPC_def node_ready_def report_simps r0_def split: sum.splits)
  have "rp_fail r1 = 0 \<longleftrightarrow> node_ready h p \<and> worker_ready h p \<and> models_ready h p"
    using rpc
  proof (elim disjE exE conjE)
    fix r assume "checkRPC h p r0 = (True, r)" "rp_fail r = 0" "node_ready h p"
    then show ?thesis using checkChain_fail [of r h p] by (simp add: r1_def)
  qed (simp add: r1_def report_simps)
  moreover have "fst (preflight_Run h p) \<longleftrightarrow> rp_fail (checkBeacon h p (checkOllama h p (checkGateway h p r1))) = 0"
    by (simp add: preflight_Run_def Let_def r1_def r0_def)
  ultimately show ?thesis using services_fail [of r1 h p] by auto
qed

end
