(* ===== verification/Operator_Registration.thy ===== *)
theory Operator_Registration
  imports Worker_Registration Release_Reconciler Config_Checks
begin

text \<open>
  The operator commands around registration (internal/cli/handler.go, models.go, settlement.go): parsing of the
  model list, register with the seed of the release reconciler, add-models, deregister and status; and the check
  the service makes of its model list. The contract client is that of Worker\_Registration, the state file that of
  Release\_Store; printed lines are left out, except what status reports.
\<close>

section \<open>Model lists\<close>

fun parse_models :: "config_lib \<Rightarrow> string list \<Rightarrow> byte list set \<Rightarrow> go_error + byte list list" where
  "parse_models lib [] seen = Inr []"
| "parse_models lib (s # ss) seen =
     (case ParseModelID lib s of
        Inl e \<Rightarrow> Inl (wrapf ''parse model'' e)
      | Inr mid \<Rightarrow>
          if mid \<in> seen then Inl (errorf ''duplicate model ID'')
          else case parse_models lib ss (insert mid seen) of Inl e \<Rightarrow> Inl e | Inr ids \<Rightarrow> Inr (mid # ids))"

definition ParseAndDeduplicateModelIDs :: "config_lib \<Rightarrow> string list \<Rightarrow> go_error + byte list list" where
  "ParseAndDeduplicateModelIDs lib models = parse_models lib models {}"

text \<open>The two loops of service.New: parse all, then reject duplicates.\<close>

fun service_parse :: "config_lib \<Rightarrow> string list \<Rightarrow> go_error + byte list list" where
  "service_parse lib [] = Inr []"
| "service_parse lib (s # ss) =
     (case ParseModelID lib s of
        Inl e \<Rightarrow> Inl (wrapf ''parse model ID'' e)
      | Inr mid \<Rightarrow> (case service_parse lib ss of Inl e \<Rightarrow> Inl e | Inr ids \<Rightarrow> Inr (mid # ids)))"

fun first_duplicate :: "byte list list \<Rightarrow> byte list set \<Rightarrow> byte list option" where
  "first_duplicate [] seen = None"
| "first_duplicate (mid # ids) seen = (if mid \<in> seen then Some mid else first_duplicate ids (insert mid seen))"

definition service_model_ids :: "config_lib \<Rightarrow> string list \<Rightarrow> go_error + byte list list" where
  "service_model_ids lib models =
     (case service_parse lib models of
        Inl e \<Rightarrow> Inl e
      | Inr ids \<Rightarrow>
          (case first_duplicate ids {} of
             Some mid \<Rightarrow> Inl (errorf (''duplicate model ID in SUPPORTED_MODELS: '' @ modelIDToHex mid))
           | None \<Rightarrow> Inr ids))"

section \<open>The reconcile seed\<close>

record 'c ReconcileSeed =
  se_Head :: "'c \<Rightarrow> (go_error + HeadInfo) \<times> 'c"
  se_NonceAt :: "address \<Rightarrow> u64 \<Rightarrow> 'c \<Rightarrow> (go_error + u64) \<times> 'c"
  se_ChainID :: u64
  se_JobRegistry :: address
  se_StatePath :: string
  se_Confirmations :: u64

text \<open>What the file system answers: the stat of the directory, its owner, and a fault of each store operation.\<close>

record seed_fs =
  sf_stat :: "go_error option"
  sf_owned :: bool
  sf_open :: io_fault
  sf_seed :: io_fault

definition freshWorkerSafeHead :: "'c reg_client \<Rightarrow> 'c ReconcileSeed option \<Rightarrow> address \<Rightarrow> ('c reg_st, u64 \<times> go_error option) prog" where
  "freshWorkerSafeHead rc seed worker =
     (case seed of
        None \<Rightarrow> ret (0, None)
      | Some s \<Rightarrow> do {
          registered \<leftarrow> rcall (rc_IsWorkerRegistered rc worker) (\<lambda>_. []);
          (case registered of
             Inl e \<Rightarrow> ret (0, Some e)
           | Inr True \<Rightarrow> ret (0, None)
           | Inr False \<Rightarrow> do {
               head \<leftarrow> rcall (se_Head s) (\<lambda>_. []);
               (case head of
                  Inl e \<Rightarrow> ret (0, Some e)
                | Inr hi \<Rightarrow>
                    if hd_Number hi < se_Confirmations s then ret (0, None)
                    else do {
                      let safeHead = hd_Number hi - se_Confirmations s;
                      nonce \<leftarrow> rcall (se_NonceAt s worker safeHead) (\<lambda>_. []);
                      ret (case nonce of Inl e \<Rightarrow> (0, Some e) | Inr n \<Rightarrow> if n \<noteq> 0 then (0, None) else (safeHead, None))
                    })
             })
        })"

definition seed_identity :: "'c ReconcileSeed \<Rightarrow> address \<Rightarrow> StoreIdentity" where
  "seed_identity s worker = \<lparr>IdChainID = se_ChainID s, IdJobRegistry = se_JobRegistry s, IdWorkerAddress = worker\<rparr>"

definition storeReconcileBlock :: "addr_lib \<Rightarrow> 'c ReconcileSeed \<Rightarrow> seed_fs \<Rightarrow> address \<Rightarrow> u64 \<Rightarrow> disk \<Rightarrow> go_error option \<times> disk" where
  "storeReconcileBlock lib s fs worker block d =
     (if se_JobRegistry s = 0 then (Some (errorf ''JOB_REGISTRY_ADDRESS is not set''), d)
      else case sf_stat fs of
        Some e \<Rightarrow> (Some e, d)
      | None \<Rightarrow>
          if \<not> sf_owned fs then (Some (errorf ''the directory belongs to another user''), d)
          else case NewFileStore lib (se_StatePath s) (seed_identity s worker) (sf_open fs) d of
            (Inl e, d1) \<Rightarrow> (Some e, d1)
          | (Inr store, d1) \<Rightarrow>
              (case SeedReconcileBlock lib store (sf_seed fs) block d1 of
                 (Inl e, d2) \<Rightarrow> (Some e, d2)
               | (Inr seeded, d2) \<Rightarrow> (None, d2)))"

text \<open>The disk afterwards; an error only prints a note.\<close>

definition seedReconcileBlock :: "addr_lib \<Rightarrow> 'c ReconcileSeed option \<Rightarrow> seed_fs \<Rightarrow> address \<Rightarrow> u64 \<Rightarrow> go_error option \<Rightarrow> disk \<Rightarrow> disk" where
  "seedReconcileBlock lib seed fs worker block err d =
     (case seed of
        Some s \<Rightarrow> if err = None \<and> block \<noteq> 0 then snd (storeReconcileBlock lib s fs worker block d) else d
      | None \<Rightarrow> d)"

section \<open>Commands\<close>

record 'c cli_handler =
  ha_WorkerAddr :: address
  ha_ModelIDs :: "hash list"
  ha_ModelNames :: "string list"
  ha_WorkerStake :: "int option"
  ha_LoadECDHKey :: "go_error + byte list"
  ha_ReconcileSeed :: "'c ReconcileSeed option"

definition cli_Keygen :: "'c cli_handler \<Rightarrow> go_error + string" where
  "cli_Keygen h = (case ha_LoadECDHKey h of Inl e \<Rightarrow> Inl (wrapf ''load/generate ECDH key'' e) | Inr pub \<Rightarrow> Inr (''0x'' @ hex_EncodeToString pub))"

definition cli_Register :: "addr_lib \<Rightarrow> 'c reg_client \<Rightarrow> 'c cli_handler \<Rightarrow> seed_fs \<Rightarrow> 'c reg_st \<Rightarrow> disk \<Rightarrow> go_error option \<times> 'c reg_st \<times> disk" where
  "cli_Register lib rc h fs st d =
     (if ha_ModelIDs h = [] then (Some (errorf ''SUPPORTED_MODELS is required for registration''), st, d)
      else case ha_LoadECDHKey h of
        Inl e \<Rightarrow> (Some (wrapf ''load/generate ECDH key'' e), st, d)
      | Inr pub \<Rightarrow>
          (case run_state (freshWorkerSafeHead rc (ha_ReconcileSeed h) (ha_WorkerAddr h)) st of
             ((seedBlock, seedErr), st1) \<Rightarrow>
               (case run_state (EnsureRegistered rc \<lparr>rm_workerAddr = ha_WorkerAddr h, rm_modelIDs = ha_ModelIDs h\<rparr> pub (ha_WorkerStake h)) st1 of
                  (Some e, st2) \<Rightarrow> (Some (wrapf ''registration'' e), st2, d)
                | (None, st2) \<Rightarrow> (None, st2, seedReconcileBlock lib (ha_ReconcileSeed h) fs (ha_WorkerAddr h) seedBlock seedErr d))))"

fun add_each :: "'c reg_client \<Rightarrow> (hash \<times> string) list \<Rightarrow> ('c reg_st, (string \<times> go_error) list) prog" where
  "add_each rc [] = ret []"
| "add_each rc ((modelID, name) # ms) = do {
     r \<leftarrow> rcall (rc_AddSupportedModel rc modelID) (\<lambda>r. [EvAddModel modelID r]);
     failed \<leftarrow> add_each rc ms;
     ret (case r of Some e \<Rightarrow> (name, e) # failed | None \<Rightarrow> failed)
   }"

definition cli_AddModels :: "'c reg_client \<Rightarrow> 'c cli_handler \<Rightarrow> ('c reg_st, go_error option) prog" where
  "cli_AddModels rc h =
     (if ha_ModelIDs h = [] then ret (Some (errorf ''SUPPORTED_MODELS is required for add-models''))
      else if length (ha_ModelNames h) \<noteq> length (ha_ModelIDs h) then ret (Some (errorf ''ModelNames length does not match ModelIDs length''))
      else do {
        failed \<leftarrow> add_each rc (zip (ha_ModelIDs h) (ha_ModelNames h));
        ret (if failed \<noteq> [] then Some (errorf ''model(s) not added'') else None)
      })"

definition cli_Deregister :: "'c reg_client \<Rightarrow> ('c reg_st, go_error option) prog" where
  "cli_Deregister rc = do { r \<leftarrow> Deregister rc; ret (map_option (wrapf ''deregistration'') r) }"

datatype cli_status = NotRegistered | KeyNotRead | LocalKeyMissing "byte list" | KeysMatch bool

definition cli_Status :: "'c reg_client \<Rightarrow> 'c cli_handler \<Rightarrow> ('c reg_st, go_error + cli_status) prog" where
  "cli_Status rc h = do {
     registered \<leftarrow> rcall (rc_IsWorkerRegistered rc (ha_WorkerAddr h)) (\<lambda>_. []);
     (case registered of
        Inl e \<Rightarrow> ret (Inl (wrapf ''check registration status'' e))
      | Inr False \<Rightarrow> ret (Inr NotRegistered)
      | Inr True \<Rightarrow> do {
          onChainKey \<leftarrow> rcall (rc_GetWorkerEncryptionKey rc (ha_WorkerAddr h)) (\<lambda>_. []);
          ret (case onChainKey of
                 Inl e \<Rightarrow> Inr KeyNotRead
               | Inr k \<Rightarrow> (case ha_LoadECDHKey h of Inl e \<Rightarrow> Inr (LocalKeyMissing k) | Inr pub \<Rightarrow> Inr (KeysMatch (hex_EncodeToString k = hex_EncodeToString pub))))
        })
   }"

section \<open>Model lists agree\<close>

lemma parse_models_Inr:
  "parse_models lib ss seen = Inr ids \<Longrightarrow> service_parse lib ss = Inr ids \<and> distinct ids \<and> set ids \<inter> seen = {}"
  by (induction ss arbitrary: seen ids) (fastforce split: sum.splits if_splits)+

lemma service_parse_Inr:
  "service_parse lib ss = Inr ids \<Longrightarrow> distinct ids \<Longrightarrow> set ids \<inter> seen = {} \<Longrightarrow> parse_models lib ss seen = Inr ids"
proof (induction ss arbitrary: seen ids)
  case (Cons s ss)
  then obtain mid rest where "ParseModelID lib s = Inr mid" "service_parse lib ss = Inr rest" "ids = mid # rest"
    by (auto split: sum.splits)
  then show ?case using Cons.IH [of rest "insert mid seen"] Cons.prems(2,3) by simp
qed simp

lemma parse_models_iff: "parse_models lib ss {} = Inr ids \<longleftrightarrow> service_parse lib ss = Inr ids \<and> distinct ids"
  using parse_models_Inr [of lib ss "{}" ids] service_parse_Inr [of lib ss ids "{}"] by auto

lemma first_duplicate_None: "first_duplicate ids seen = None \<longleftrightarrow> distinct ids \<and> set ids \<inter> seen = {}"
  by (induction ids arbitrary: seen) auto

lemma first_duplicate_Some: "first_duplicate ids {} = Some x \<Longrightarrow> \<not> distinct ids"
  using first_duplicate_None [of ids "{}"] by auto

lemma service_parse_iff: "service_parse lib ss = Inr ids \<longleftrightarrow> map (ParseModelID lib) ss = map Inr ids"
  by (induction ss arbitrary: ids) (auto split: sum.splits, metis)

text \<open>
  The CLI and the service read the same models. A model list is accepted by the operator commands exactly when
  the service accepts it, with the same ids in the same order: every entry parses and no two give the same id.
\<close>

theorem model_lists_agree:
  "(ParseAndDeduplicateModelIDs lib models = Inr ids \<longleftrightarrow> service_model_ids lib models = Inr ids) \<and>
   (service_model_ids lib models = Inr ids \<longleftrightarrow> map (ParseModelID lib) models = map Inr ids \<and> distinct ids)"
  by (auto simp: ParseAndDeduplicateModelIDs_def service_model_ids_def parse_models_iff service_parse_iff [symmetric] first_duplicate_None
      dest: first_duplicate_Some split: sum.splits option.splits)

section \<open>The seed\<close>

lemma NewFileStore_data:
  "NewFileStore lib path ident flt d = (r, d') \<Longrightarrow>
   (case r of
      Inl e \<Rightarrow> d_data d' = d_data d
    | Inr s \<Rightarrow> fs_identity s = ident \<and>
        (d_data d = NoFile \<and> d_data d' = Doc (pinSnapshot lib s (emptySnapshot lib s)) \<or>
         (\<exists>snap. d_data d = Doc snap \<and> d_data d' = Doc snap \<and> verifyIdentityLocked lib s snap = None)))"
  by (auto simp: NewFileStore_def Let_def withLock_def readSnapshotLocked_def sentinel_err_def errors_Is_def errorf_def
      split: if_splits data_file.splits option.splits prod.splits sum.splits dest!: write_data)

text \<open>A state file that registration may leave behind: none, or one without jobs whose cursor is 0 or the seed.\<close>

definition seeded_file :: "addr_lib \<Rightarrow> StoreIdentity \<Rightarrow> u64 \<Rightarrow> data_file \<Rightarrow> bool" where
  "seeded_file lib ident block f \<longleftrightarrow> f = NoFile \<or>
     (\<exists>snap. f = Doc snap \<and> (\<forall>s. fs_identity s = ident \<longrightarrow> snap_ok lib s snap) \<and> Pending snap = [] \<and> LastReconciledBlock snap \<in> {0, block})"

lemma snap_ok_identity: "fs_identity s = fs_identity s' \<Longrightarrow> snap_ok lib s snap = snap_ok lib s' snap"
  by (simp add: snap_ok_def verifyIdentityLocked_def)

lemma seeded_open:
  assumes "addr_lib_ok lib" "seeded_file lib ident block (d_data d)" "NewFileStore lib path ident flt d = (r, d')"
  shows "seeded_file lib ident block (d_data d') \<and> (\<forall>s. r = Inr s \<longrightarrow> fs_identity s = ident \<and> d_data d' \<noteq> NoFile)"
proof (cases r)
  case (Inl e)
  then show ?thesis using NewFileStore_data [OF assms(3)] assms(2) by simp
next
  case (Inr s)
  note data = NewFileStore_data [OF assms(3), unfolded Inr, simplified]
  have empty: "snap_ok lib s (pinSnapshot lib s (emptySnapshot lib s))"
    using assms(1) by (simp add: snap_ok_pin emptySnapshot_def)
  have id: "fs_identity s = ident" using data by simp
  have "seeded_file lib ident block (Doc (pinSnapshot lib s (emptySnapshot lib s)))"
    unfolding seeded_file_def
  proof (intro disjI2 exI conjI)
    show "\<forall>s'. fs_identity s' = ident \<longrightarrow> snap_ok lib s' (pinSnapshot lib s (emptySnapshot lib s))"
      using empty id snap_ok_identity by metis
  qed (simp_all add: emptySnapshot_def pinSnapshot_def)
  then show ?thesis using data assms(2) Inr by (elim conjE disjE exE) simp_all
qed

lemma seeded_seed:
  assumes "addr_lib_ok lib" "seeded_file lib (fs_identity s) block (d_data d)" "SeedReconcileBlock lib s flt block d = (r, d')"
  shows "seeded_file lib (fs_identity s) block (d_data d')"
proof -
  have ok: "snap_ok lib s' (pinSnapshot lib s (snap\<lparr>LastReconciledBlock := block\<rparr>))" if "fs_identity s' = fs_identity s" "Pending snap = []" for snap s'
    using snap_ok_identity [OF that(1)] snap_ok_pin [OF assms(1), of "snap\<lparr>LastReconciledBlock := block\<rparr>" s] that(2) by simp
  show ?thesis
    using mutate_result [OF assms(3) [unfolded SeedReconcileBlock_def]] assms(2) ok
    by (auto simp: seeded_file_def pinSnapshot_def split: if_splits)
qed

lemma storeReconcileBlock_seeded:
  assumes "addr_lib_ok lib" "seeded_file lib (seed_identity s worker) block (d_data d)"
  shows "seeded_file lib (seed_identity s worker) block (d_data (snd (storeReconcileBlock lib s fs worker block d)))"
proof (cases "NewFileStore lib (se_StatePath s) (seed_identity s worker) (sf_open fs) d")
  case (Pair r d1)
  note opened = seeded_open [OF assms Pair]
  show ?thesis
  proof (cases r)
    case (Inl e)
    then show ?thesis using assms(2) opened Pair by (simp add: storeReconcileBlock_def split: option.split)
  next
    case (Inr store)
    obtain r2 d2 where sd: "SeedReconcileBlock lib store (sf_seed fs) block d1 = (r2, d2)" by fastforce
    have "seeded_file lib (seed_identity s worker) block (d_data d2)"
      using seeded_seed [OF assms(1) _ sd] opened Inr by simp
    then show ?thesis using assms(2) Pair Inr sd by (cases r2) (simp_all add: storeReconcileBlock_def split: option.split)
  qed
qed

text \<open>
  The fact the seed rests on (comment of freshWorkerSafeHead): registration and completion act for their sender, so
  a key that had sent no transaction by a block has completed no job up to it.
\<close>

definition nonce_law :: "'c ReconcileSeed \<Rightarrow> address \<Rightarrow> (u64 \<times> u64) set \<Rightarrow> bool" where
  "nonce_law s w evs \<longleftrightarrow> (\<forall>block c c'. se_NonceAt s w block c = (Inr 0, c') \<longrightarrow> (\<forall>(b, j)\<in>evs. block < b))"

lemma freshWorkerSafeHead_sound:
  assumes "nonce_law s w evs" "run_state (freshWorkerSafeHead rc (Some s) w) st = ((block, err), st')" "block \<noteq> 0"
  shows "\<forall>(b, j)\<in>evs. block < b"
proof -
  have "wp (freshWorkerSafeHead rc (Some s) w) (\<lambda>r s'. fst r \<noteq> 0 \<longrightarrow> (\<exists>c c'. se_NonceAt s w (fst r) c = (Inr 0, c'))) st"
    by (auto simp: freshWorkerSafeHead_def wp_def rcall_def Let_def split: prod.splits sum.splits bool.splits)
  from wp_run [OF this assms(2)] show ?thesis using assms(1,3) unfolding nonce_law_def by auto
qed

lemma Register_disk:
  assumes "cli_Register lib rc h fs st d = (e, st', d')" "ha_ReconcileSeed h = Some s"
  shows "d' = d \<or> (\<exists>block st1 st2. run_state (freshWorkerSafeHead rc (Some s) (ha_WorkerAddr h)) st1 = ((block, None), st2) \<and> block \<noteq> 0 \<and>
    d' = snd (storeReconcileBlock lib s fs (ha_WorkerAddr h) block d))"
  using assms by (auto simp: cli_Register_def seedReconcileBlock_def split: if_splits sum.splits prod.splits option.splits)

lemma Register_seeded:
  assumes "addr_lib_ok lib" "d_data d = NoFile" "ha_ReconcileSeed h = Some s" "nonce_law s (ha_WorkerAddr h) evs"
    and "cli_Register lib rc h fs st d = (e, st', d')"
  obtains block where "seeded_file lib (seed_identity s (ha_WorkerAddr h)) block (d_data d')" "block = 0 \<or> (\<forall>(b, j)\<in>evs. block < b)"
proof -
  have fresh: "seeded_file lib ident block (d_data d)" for ident block using assms(2) by (simp add: seeded_file_def)
  from Register_disk [OF assms(5,3)] show thesis
  proof (elim disjE exE conjE)
    assume "d' = d"
    then show thesis using that fresh by blast
  next
    fix block st1 st2
    assume f: "run_state (freshWorkerSafeHead rc (Some s) (ha_WorkerAddr h)) st1 = ((block, None), st2)" "block \<noteq> 0"
      and d': "d' = snd (storeReconcileBlock lib s fs (ha_WorkerAddr h) block d)"
    show thesis using that storeReconcileBlock_seeded [OF assms(1) fresh] freshWorkerSafeHead_sound [OF assms(4) f] d' by blast
  qed
qed

lemma seeded_file_inv:
  assumes "addr_lib_ok lib" "seeded_file lib (fs_identity store) block (d_data (w_disk w))" "d_data (w_disk w) \<noteq> NoFile"
  shows "fs_inv lib store w \<and> a_cursor (fs_abs w) \<in> {0, block}"
  using assms by (auto simp: seeded_file_def fs_inv_def fs_abs_def abs_file_def abs_snap_def)

definition demo_seed :: "unit ReconcileSeed" where
  "demo_seed = \<lparr>se_Head = \<lambda>c. (Inr \<lparr>hd_Number = 18, hd_Timestamp = 1000\<rparr>, c), se_NonceAt = \<lambda>w b c. (Inr (if b < 20 then 0 else 1), c),
     se_ChainID = 7, se_JobRegistry = 1, se_StatePath = ''state'', se_Confirmations = 5\<rparr>"

definition demo_handler :: "unit cli_handler" where
  "demo_handler = \<lparr>ha_WorkerAddr = 2, ha_ModelIDs = [1], ha_ModelNames = [''m''], ha_WorkerStake = None,
     ha_LoadECDHKey = Inr (4 # replicate 64 0), ha_ReconcileSeed = Some demo_seed\<rparr>"

definition demo_reg_client :: "unit reg_client" where
  "demo_reg_client = \<lparr>rc_IsWorkerRegistered = \<lambda>w c. (Inr False, c), rc_GetWorkerEncryptionKey = \<lambda>w c. (Inr [], c),
     rc_GetMinWorkerStake = \<lambda>c. (Inr (Some 5), c), rc_RegisterWorker = \<lambda>k v c. (None, c), rc_AddSupportedModel = \<lambda>m c. (None, c),
     rc_DeregisterWorker = \<lambda>c. (None, c), rc_GetCapabilityMask = \<lambda>n c. (Inr 0, c), rc_GetWorkerCapabilities = \<lambda>w c. (Inr 0, c),
     rc_SetCapabilities = \<lambda>m c. (None, c)\<rparr>"

abbreviation demo_seed_fs :: seed_fs where
  "demo_seed_fs \<equiv> \<lparr>sf_stat = None, sf_owned = True, sf_open = NoFault, sf_seed = NoFault\<rparr>"

text \<open>
  C29. A seeded reconciler misses nothing. Let a worker without a state file register, with whatever failures of the
  file system, and let the reconciler then run on the state file (any number of blocks later, with
  RELEASE\_RECONCILE\_START\_BLOCK unset). If a key without transactions by a block has completed no job up to it and the
  node's log answers are complete, then every job the worker completed in a block up to the cursor is pending or was
  read from the chain as settled: the blocks the seed skips held none of its jobs.
\<close>

theorem seeded_reconcile_complete:
  assumes "addr_lib_ok lib" "d_data d = NoFile" "ha_ReconcileSeed h = Some s" "nonce_law s (ha_WorkerAddr h) evs"
    and "cli_Register lib rc h fs st d = (e, st', d')"
    and "NewFileStore lib path (seed_identity s (ha_WorkerAddr h)) flt d' = (Inr store, d'')"
    and "rec_store r = FileStore_ops lib store" "rec_workerAddr r = ha_WorkerAddr h" "StartBlock (rec_cfg r) = 0"
    and "logs_complete (rec_chain r) (ha_WorkerAddr h) evs"
    and "w_disk (rs_store rst) = d''" "Run fuel r rst = Some (e2, rst')"
    and "(b, j) \<in> evs" "b \<noteq> 0" "b \<le> a_cursor (fs_abs (rs_store rst'))"
  shows "recorded fs_abs (ha_WorkerAddr h) rst' j"
proof -
  obtain block where sd: "seeded_file lib (seed_identity s (ha_WorkerAddr h)) block (d_data d')" and none: "block = 0 \<or> (\<forall>(b, j)\<in>evs. block < b)"
    using Register_seeded [OF assms(1-5)] .
  have "fs_inv lib store (rs_store rst) \<and> a_cursor (fs_abs (rs_store rst)) \<in> {0, block}"
    using seeded_open [OF assms(1) sd assms(6)] assms(11) by (intro seeded_file_inv [OF assms(1)]) auto
  then have inv: "fs_inv lib store (rs_store rst)" and cur: "a_cursor (fs_abs (rs_store rst)) \<in> {0, block}" by auto
  have above: "a_cursor (fs_abs (rs_store rst)) < b" using cur none assms(13,14) by (auto simp: word_neq_0_conv)
  then have "start_block (rec_cfg r) (a_cursor (fs_abs (rs_store rst))) \<le> b"
    using assms(9) by (simp add: start_block_def inc_le)
  then show ?thesis
    using file_store.Run_covers [OF inv assms(7) assms(10) [folded assms(8)] assms(12)] above assms(8,13,15) by auto
qed

definition demo_after_register :: disk where
  "demo_after_register = snd (snd (cli_Register demo_lib demo_reg_client demo_handler demo_seed_fs
     \<lparr>Worker_Registration.reg_st.rs_chain = (), rs_log = []\<rparr> \<lparr>d_data = NoFile, d_tmp = NoFile\<rparr>))"

definition demo_opened :: "(go_error + FileStore) \<times> disk" where
  "demo_opened = NewFileStore demo_lib ''state'' (seed_identity demo_seed 2) NoFault demo_after_register"

definition demo_seeded_st :: "(unit, store_world) recon_st" where
  "demo_seeded_st = \<lparr>Release_Reconciler.recon_st.rs_chain = (), rs_store = \<lparr>w_disk = snd demo_opened, w_faults = []\<rparr>, rs_trace = []\<rparr>"

theorem seeded_reconcile_complete_witness:
  "recorded fs_abs 2 (snd (the (Run 40 demo_recon demo_seeded_st))) 4"
proof -
  let ?x = "the (Run 40 demo_recon demo_seeded_st)"
  have cur: "LastReconciledBlock (case d_data (w_disk (rs_store (snd ?x))) of Doc snap \<Rightarrow> snap) = 25 \<and>
      (case d_data (w_disk (rs_store (snd ?x))) of Doc _ \<Rightarrow> True | _ \<Rightarrow> False)" by code_simp
  then have cur': "a_cursor (fs_abs (rs_store (snd ?x))) = 25"
    by (auto simp: fs_abs_def abs_file_def abs_snap_def split: data_file.splits)
  have some: "(case Run 40 demo_recon demo_seeded_st of None \<Rightarrow> False | Some _ \<Rightarrow> True)" by code_simp
  then have run: "Run 40 demo_recon demo_seeded_st = Some (fst ?x, snd ?x)" by (auto split: option.splits)
  have "fst demo_opened = Inr demo_store" by code_simp
  then have opened: "NewFileStore demo_lib ''state'' (seed_identity demo_seed (ha_WorkerAddr demo_handler)) NoFault demo_after_register = (Inr demo_store, snd demo_opened)"
    by (metis demo_handler_def cli_handler.select_convs(1) demo_opened_def prod.collapse)
  have law: "nonce_law demo_seed (ha_WorkerAddr demo_handler) {(20, 4)}"
    by (auto simp: nonce_law_def demo_seed_def split: if_splits)
  have logs: "logs_complete (rec_chain demo_recon) (ha_WorkerAddr demo_handler) {(20, 4)}"
    by (auto simp: logs_complete_def demo_recon_def demo_recon_chain_def split: if_splits)
  have reg: "cli_Register demo_lib demo_reg_client demo_handler demo_seed_fs \<lparr>Worker_Registration.reg_st.rs_chain = (), rs_log = []\<rparr> \<lparr>d_data = NoFile, d_tmp = NoFile\<rparr> =
      (e, st, demo_after_register)" if "e = fst (cli_Register demo_lib demo_reg_client demo_handler demo_seed_fs \<lparr>Worker_Registration.reg_st.rs_chain = (), rs_log = []\<rparr> \<lparr>d_data = NoFile, d_tmp = NoFile\<rparr>)"
      "st = fst (snd (cli_Register demo_lib demo_reg_client demo_handler demo_seed_fs \<lparr>Worker_Registration.reg_st.rs_chain = (), rs_log = []\<rparr> \<lparr>d_data = NoFile, d_tmp = NoFile\<rparr>))" for e st
    using that by (simp add: demo_after_register_def)
  have "recorded fs_abs (ha_WorkerAddr demo_handler) (snd ?x) 4"
    using seeded_reconcile_complete [OF demo_lib_ok _ _ law reg [OF refl refl] opened _ _ _ logs _ run, of 20 4] cur'
    by (simp add: demo_handler_def demo_recon_def demo_seeded_st_def DefaultConfig_def)
  then show ?thesis by (simp add: demo_handler_def)
qed

section \<open>The other commands\<close>

fun add_results :: "'c reg_client \<Rightarrow> hash list \<Rightarrow> 'c \<Rightarrow> go_error option list \<times> 'c" where
  "add_results rc [] c = ([], c)"
| "add_results rc (m # ms) c =
     (case rc_AddSupportedModel rc m c of (r, c1) \<Rightarrow> (case add_results rc ms c1 of (rs, c2) \<Rightarrow> (r # rs, c2)))"

lemma add_results_length: "add_results rc ms c = (rs, c') \<Longrightarrow> length rs = length ms"
  by (induction ms arbitrary: c rs) (auto split: prod.splits)

lemma add_each_run:
  assumes "length ns = length ms" "add_results rc ms (Worker_Registration.reg_st.rs_chain s) = (rs, c)"
  shows "\<exists>failed. run_state (add_each rc (zip ms ns)) s = (failed, s\<lparr>Worker_Registration.reg_st.rs_chain := c, rs_log := rev (map2 EvAddModel ms rs) @ rs_log s\<rparr>) \<and>
    (failed = [] \<longleftrightarrow> (\<forall>r\<in>set rs. r = None))"
  using assms
proof (induction ms arbitrary: ns rs s)
  case (Cons m ms)
  obtain n ns' where ns: "ns = n # ns'" using Cons.prems(1) by (cases ns) auto
  obtain r c1 where r: "rc_AddSupportedModel rc m (Worker_Registration.reg_st.rs_chain s) = (r, c1)" by fastforce
  obtain rs' where rs: "add_results rc ms c1 = (rs', c)" "rs = r # rs'" using Cons.prems(2) r by (auto split: prod.splits)
  show ?case
    using Cons.IH [of ns' "s\<lparr>Worker_Registration.reg_st.rs_chain := c1, rs_log := EvAddModel m r # rs_log s\<rparr>" rs'] Cons.prems(1) ns r rs
    by (cases r) (auto simp: rcall_def)
qed simp

text \<open>
  One bad model does not strand the rest. add-models sends one transaction for every model, in order, whatever
  the earlier ones gave, and reports success exactly when all of them succeeded.
\<close>

theorem add_models_all:
  assumes "ha_ModelIDs h \<noteq> []" "length (ha_ModelNames h) = length (ha_ModelIDs h)" "run_state (cli_AddModels rc h) s = (e, s')"
  shows "\<exists>rs. length rs = length (ha_ModelIDs h) \<and> rs_log s' = rev (map2 EvAddModel (ha_ModelIDs h) rs) @ rs_log s \<and> (e = None \<longleftrightarrow> (\<forall>r\<in>set rs. r = None))"
proof -
  obtain rs c where r: "add_results rc (ha_ModelIDs h) (Worker_Registration.reg_st.rs_chain s) = (rs, c)" by fastforce
  then show ?thesis
    using add_each_run [OF assms(2) r] add_results_length [OF r] assms
    by (intro exI [of _ rs]) (auto simp: cli_AddModels_def split: if_splits)
qed

theorem add_models_all_witness:
  "rs_log (snd (run_state (cli_AddModels demo_reg_client demo_handler) (reg_st.make () []))) = [EvAddModel 1 None]"
proof -
  have "run_state (cli_AddModels demo_reg_client demo_handler) (reg_st.make () []) = (None, snd (run_state (cli_AddModels demo_reg_client demo_handler) (reg_st.make () [])))"
    by (simp add: cli_AddModels_def demo_handler_def demo_reg_client_def rcall_def)
  from add_models_all [OF _ _ this] show ?thesis
    by (auto simp: demo_handler_def reg_st.defs length_Suc_conv)
qed

lemma hex_inj: "hex_EncodeToString a = hex_EncodeToString b \<longleftrightarrow> a = b"
  by (metis hex_decode_encode option.inject)

text \<open>Status reports matching keys exactly when the service's start-up check would pass on the same answers.\<close>

lemma status_predicts_start:
  assumes "ha_LoadECDHKey h = Inr pub"
  shows "fst (run_state (cli_Status rc h) st) = Inr (KeysMatch True) \<longleftrightarrow> fst (run_state (validate_registration rc (ha_WorkerAddr h) pub) st) = None"
  using assms
  by (auto simp: hex_inj cli_Status_def validate_registration_def rcall_def key_mismatch_def split: prod.splits sum.splits bool.splits) 

end
