(* ===== verification/Drain_Marker.thy ===== *)
theory Drain_Marker
  imports Config_Properties
begin

text \<open>
  The operator configuration (internal/config/registration.go) and the drain marker as the operator sets it
  (internal/cli/drain.go) and as the worker sets it when it stops (internal/service/service.go). The writes of the
  marker (package pkg/types, the gateway) and the on-chain dispute window are arguments; an event records each write
  that was attempted.
\<close>

section \<open>The operator configuration\<close>

record RegistrationConfig =
  rg_WorkerKeystorePath :: string
  rg_WorkerKeystorePassword :: string
  rg_EncryptionKeystorePath :: string
  rg_RPCURL :: string
  rg_ChainID :: int
  rg_WorkerRegistryAddress :: address
  rg_AIConfigAddress :: address
  rg_JobRegistryAddress :: address
  rg_RedisURL :: string
  rg_WorkerGatewayURL :: string
  rg_RedisPassword :: string
  rg_OllamaURL :: string
  rg_BeaconAPIURL :: string
  rg_DrainTTLOverride :: int
  rg_DrainSlack :: int
  rg_SupportedModels :: "string list"
  rg_WorkerStake :: "int option"
  rg_GasPriceMultiplierBps :: int
  rg_MaxGasPrice :: "int option"
  rg_LogLevel :: string
  rg_LogFormat :: string

definition load_stake :: "environment \<Rightarrow> int option loading" where
  "load_stake env =
     (if env ''WORKER_STAKE'' = [] then ret None
      else case SetString (env ''WORKER_STAKE'') of
        None \<Rightarrow> do { append_err ''WORKER_STAKE: invalid decimal wei value''; ret None }
      | Some v \<Rightarrow> if v < 0 then do { append_err ''WORKER_STAKE: must be non-negative''; ret None } else ret (Some v))"

definition drain_duration :: "config_lib \<Rightarrow> environment \<Rightarrow> string \<Rightarrow> (int \<Rightarrow> bool) \<Rightarrow> int loading" where
  "drain_duration lib env key bad =
     (if env key = [] then ret 0
      else case ParseDuration (cl_fraction lib) (env key) of
        None \<Rightarrow> do { append_err (key @ '': invalid duration''); ret 0 }
      | Some d \<Rightarrow> if bad d then do { append_err (key @ '': out of range''); ret 0 } else ret d)"

definition registration_load :: "config_lib \<Rightarrow> environment \<Rightarrow> RegistrationConfig loading" where
  "registration_load lib env = do {
     vChainID \<leftarrow> load_chainID env;
     vRegistry \<leftarrow> required_address lib env ''WORKER_REGISTRY_ADDRESS'';
     vAIConfig \<leftarrow> required_address lib env ''AI_CONFIG_ADDRESS'';
     vJobRegistry \<leftarrow> optional_address lib env ''JOB_REGISTRY_ADDRESS'';
     vStake \<leftarrow> load_stake env;
     vTTL \<leftarrow> drain_duration lib env ''LIGHTCHAIN_DRAIN_TTL'' (\<lambda>d. d \<le> 0);
     vSlack \<leftarrow> drain_duration lib env ''LIGHTCHAIN_DRAIN_SLACK'' (\<lambda>d. d < 0);
     vGas \<leftarrow> parseInt env ''GAS_PRICE_MULTIPLIER_BPS'' 11000;
     vMaxGas \<leftarrow> load_maxGas env;
     ret \<lparr>rg_WorkerKeystorePath = env ''WORKER_KEYSTORE_PATH'', rg_WorkerKeystorePassword = env ''WORKER_KEYSTORE_PASSWORD'',
       rg_EncryptionKeystorePath = envOrDefault env ''ENCRYPTION_KEYSTORE_PATH'' ''data/worker-encryption.key'',
       rg_RPCURL = envOrDefault env ''RPC_URL'' ''http://localhost:8545'', rg_ChainID = vChainID,
       rg_WorkerRegistryAddress = vRegistry, rg_AIConfigAddress = vAIConfig, rg_JobRegistryAddress = vJobRegistry,
       rg_RedisURL = env ''REDIS_URL'', rg_WorkerGatewayURL = env ''WORKER_GATEWAY_URL'', rg_RedisPassword = env ''REDIS_PASSWORD'',
       rg_OllamaURL = envOrDefault env ''OLLAMA_URL'' ''http://localhost:11434'',
       rg_BeaconAPIURL = envOrDefault env ''BEACON_API_URL'' ''http://localhost:3500'',
       rg_DrainTTLOverride = vTTL, rg_DrainSlack = vSlack,
       rg_SupportedModels = split_models (env ''SUPPORTED_MODELS''), rg_WorkerStake = vStake,
       rg_GasPriceMultiplierBps = vGas, rg_MaxGasPrice = vMaxGas,
       rg_LogLevel = envOrDefault env ''LOG_LEVEL'' ''info'', rg_LogFormat = envOrDefault env ''LOG_FORMAT'' ''json''\<rparr>
   }"

definition LoadRegistration :: "config_lib \<Rightarrow> environment \<Rightarrow> string list + RegistrationConfig" where
  "LoadRegistration lib env = (case run_state (registration_load lib env) [] of (cfg, errs) \<Rightarrow> if errs \<noteq> [] then Inl errs else Inr cfg)"

definition registration_Validate :: "RegistrationConfig \<Rightarrow> string list" where
  "registration_Validate c =
     (if rg_WorkerKeystorePath c = [] then [''WORKER_KEYSTORE_PATH is required''] else []) @
     (if rg_WorkerKeystorePassword c = [] then [''WORKER_KEYSTORE_PASSWORD is required''] else []) @
     (if rg_ChainID c \<le> 0 then [''CHAIN_ID must be positive''] else []) @
     (if rg_WorkerRegistryAddress c = 0 then [''WORKER_REGISTRY_ADDRESS must be a non-zero address''] else []) @
     (if rg_AIConfigAddress c = 0 then [''AI_CONFIG_ADDRESS must be a non-zero address''] else []) @
     (if rg_GasPriceMultiplierBps c \<le> 0 then [''GAS_PRICE_MULTIPLIER_BPS must be positive''] else []) @
     (if rg_LogFormat c \<noteq> ''json'' \<and> rg_LogFormat c \<noteq> ''text'' then [''LOG_FORMAT: must be json or text''] else [])"

definition ValidateForSettlement :: "RegistrationConfig \<Rightarrow> string list" where
  "ValidateForSettlement c =
     (if rg_JobRegistryAddress c = 0 then [''JOB_REGISTRY_ADDRESS must be a non-zero address for balance/withdraw/release''] else [])"

section \<open>The marker\<close>

datatype drain_event = SetDraining int | ClearDraining | GatewayDrain | GatewayUndrain

record drain_env =
  dr_SetDraining :: "go_error option"
  dr_Undrain :: "go_error option"
  dr_SendDrain :: "go_error option"
  dr_SendUndrain :: "go_error option"
  dr_GetDisputeWindow :: "go_error + int"

definition DrainTTLFallback :: int where
  "DrainTTLFallback = 24 * Hour"

subsection \<open>The operator\<close>

record DrainHandler =
  dh_RedisClient :: bool
  dh_Gateway :: bool
  dh_ChainClient :: bool
  dh_DrainTTLOverride :: int
  dh_DrainSlack :: int
  dh_SkipConfirm :: bool
  dh_Stdin :: "string list option"

definition cli_computeDrainTTL :: "DrainHandler \<Rightarrow> drain_env \<Rightarrow> int" where
  "cli_computeDrainTTL h env =
     (if dh_DrainTTLOverride h > 0 then dh_DrainTTLOverride h
      else let slack = (if dh_DrainSlack h \<le> 0 then 2 * Hour else dh_DrainSlack h) in
        if \<not> dh_ChainClient h then DrainTTLFallback
        else case dr_GetDisputeWindow env of Inl e \<Rightarrow> DrainTTLFallback | Inr dw \<Rightarrow> i64 (dw + slack))"

definition cli_Drain :: "DrainHandler \<Rightarrow> drain_env \<Rightarrow> go_error option \<times> drain_event list" where
  "cli_Drain h env =
     (if dh_Gateway h then
        (case dr_SendDrain env of
           Some e \<Rightarrow> (Some (wrapf ''send drain via gateway'' e), [GatewayDrain])
         | None \<Rightarrow> (None, [GatewayDrain]))
      else if \<not> dh_RedisClient h then (Some (errorf ''drain requires either a Redis client or a gateway client''), [])
      else let ttl = cli_computeDrainTTL h env in
        case dr_SetDraining env of
          Some e \<Rightarrow> (Some (wrapf ''set drain marker'' e), [SetDraining ttl])
        | None \<Rightarrow> (None, [SetDraining ttl]))"

definition confirmUndrain :: "DrainHandler \<Rightarrow> go_error option" where
  "confirmUndrain h =
     (case dh_Stdin h of
        None \<Rightarrow> Some (errorf ''undrain not confirmed (no stdin available; pass --yes for unattended use)'')
      | Some [] \<Rightarrow> Some (errorf ''undrain not confirmed (no input)'')
      | Some (line # _) \<Rightarrow>
          (let answer = TrimSpace (strings_ToLower line) in
           if answer \<noteq> ''y'' \<and> answer \<noteq> ''yes'' then Some (errorf ''undrain aborted by operator'') else None))"

definition cli_Undrain :: "DrainHandler \<Rightarrow> drain_env \<Rightarrow> go_error option \<times> drain_event list" where
  "cli_Undrain h env =
     (case if dh_SkipConfirm h then None else confirmUndrain h of
        Some e \<Rightarrow> (Some e, [])
      | None \<Rightarrow>
          if dh_Gateway h then
            (case dr_SendUndrain env of
               Some e \<Rightarrow> (Some (wrapf ''send undrain via gateway'' e), [GatewayUndrain])
             | None \<Rightarrow> (None, [GatewayUndrain]))
          else if \<not> dh_RedisClient h then (Some (errorf ''undrain requires either a Redis client or a gateway client''), [])
          else case dr_Undrain env of
            Some e \<Rightarrow> (Some (wrapf ''delete drain marker'' e), [ClearDraining])
          | None \<Rightarrow> (None, [ClearDraining]))"

subsection \<open>The worker\<close>

definition defaultDrainSlack :: int where
  "defaultDrainSlack = 2 * Hour"

definition drainSlack :: "Config option \<Rightarrow> int" where
  "drainSlack cfg = (case cfg of Some c \<Rightarrow> if cf_DrainSlack c > 0 then cf_DrainSlack c else defaultDrainSlack | None \<Rightarrow> defaultDrainSlack)"

definition svc_computeDrainTTL :: "Config option \<Rightarrow> bool \<Rightarrow> drain_env \<Rightarrow> int" where
  "svc_computeDrainTTL cfg chainClient env =
     (if (case cfg of Some c \<Rightarrow> cf_DrainTTLOverride c > 0 | None \<Rightarrow> False) then cf_DrainTTLOverride (the cfg)
      else if \<not> chainClient then DrainTTLFallback
      else case dr_GetDisputeWindow env of Inl e \<Rightarrow> DrainTTLFallback | Inr dw \<Rightarrow> i64 (dw + drainSlack cfg))"

definition markDrainOnShutdown :: "Config option \<Rightarrow> bool \<Rightarrow> bool \<Rightarrow> bool \<Rightarrow> bool \<Rightarrow> drain_env \<Rightarrow> drain_event list" where
  "markDrainOnShutdown cfg gwClient redis chainClient gatewayMode env =
     (if gatewayMode then (if \<not> gwClient then [] else [GatewayDrain])
      else if \<not> redis then []
      else [SetDraining (svc_computeDrainTTL cfg chainClient env)])"

section \<open>One environment, one marker\<close>

lemma appends_registration [loading_rules]:
  "appends (load_stake env)" "appends (drain_duration lib env k bad)"
  unfolding load_stake_def drain_duration_def by (intro loading_rules)+

lemma LoadRegistration_clean: "LoadRegistration lib env = Inr g \<longleftrightarrow> clean (registration_load lib env) g"
  by (auto simp: LoadRegistration_def clean_def split: prod.splits)

lemma registration_fields:
  assumes "LoadRegistration lib env = Inr g"
  shows "clean (load_chainID env) (rg_ChainID g)" "clean (required_address lib env ''WORKER_REGISTRY_ADDRESS'') (rg_WorkerRegistryAddress g)"
    "clean (required_address lib env ''AI_CONFIG_ADDRESS'') (rg_AIConfigAddress g)" "clean (optional_address lib env ''JOB_REGISTRY_ADDRESS'') (rg_JobRegistryAddress g)"
    "clean (drain_duration lib env ''LIGHTCHAIN_DRAIN_TTL'' (\<lambda>d. d \<le> 0)) (rg_DrainTTLOverride g)"
    "clean (drain_duration lib env ''LIGHTCHAIN_DRAIN_SLACK'' (\<lambda>d. d < 0)) (rg_DrainSlack g)"
    "clean (parseInt env ''GAS_PRICE_MULTIPLIER_BPS'' 11000) (rg_GasPriceMultiplierBps g)" "clean (load_maxGas env) (rg_MaxGasPrice g)"
    "rg_SupportedModels g = split_models (env ''SUPPORTED_MODELS'')" "rg_RPCURL g = envOrDefault env ''RPC_URL'' ''http://localhost:8545''"
    "rg_EncryptionKeystorePath g = envOrDefault env ''ENCRYPTION_KEYSTORE_PATH'' ''data/worker-encryption.key''"
  using assms unfolding LoadRegistration_clean registration_load_def by (auto simp: clean_bind loading_rules)

text \<open>What the two loaders have in common.\<close>

record operator_view =
  ov_chain :: "int \<times> address \<times> address \<times> address"
  ov_gas :: "int \<times> int option"
  ov_models :: "string list"
  ov_drain :: "int \<times> int"
  ov_paths :: "string \<times> string"

definition worker_view :: "Config \<Rightarrow> operator_view" where
  "worker_view c = \<lparr>ov_chain = (cf_ChainID c, cf_WorkerRegistryAddress c, cf_AIConfigAddress c, cf_JobRegistryAddress c),
     ov_gas = (cf_GasPriceMultiplierBps c, cf_MaxGasPrice c), ov_models = cf_SupportedModels c,
     ov_drain = (cf_DrainTTLOverride c, drainSlack (Some c)), ov_paths = (cf_RPCURL c, cf_EncryptionKeystorePath c)\<rparr>"

definition cli_view :: "RegistrationConfig \<Rightarrow> operator_view" where
  "cli_view g = \<lparr>ov_chain = (rg_ChainID g, rg_WorkerRegistryAddress g, rg_AIConfigAddress g, rg_JobRegistryAddress g),
     ov_gas = (rg_GasPriceMultiplierBps g, rg_MaxGasPrice g), ov_models = rg_SupportedModels g,
     ov_drain = (rg_DrainTTLOverride g, if rg_DrainSlack g \<le> 0 then 2 * Hour else rg_DrainSlack g),
     ov_paths = (rg_RPCURL g, rg_EncryptionKeystorePath g)\<rparr>"

lemma later_stages_keep_view:
  "clean (load_streaming lib env c) c' \<Longrightarrow> worker_view c' = worker_view c"
  "clean (load_voice lib env c) c' \<Longrightarrow> worker_view c' = worker_view c"
  "clean (load_release lib env c) c' \<Longrightarrow> worker_view c' = worker_view c"
  "clean (load_sortition lib env c) c' \<Longrightarrow> worker_view c' = worker_view c"
  by (clarsimp simp: load_streaming_def load_voice_def load_release_def load_sortition_def clean_bind loading_rules worker_view_def drainSlack_def)+

lemma load_chain_fields:
  assumes "clean (load_chain lib env (load_strings env)) c'"
  shows "clean (load_chainID env) (cf_ChainID c')" "clean (required_address lib env ''WORKER_REGISTRY_ADDRESS'') (cf_WorkerRegistryAddress c')"
    "clean (required_address lib env ''AI_CONFIG_ADDRESS'') (cf_AIConfigAddress c')" "clean (required_address lib env ''JOB_REGISTRY_ADDRESS'') (cf_JobRegistryAddress c')"
    "clean (parseInt env ''GAS_PRICE_MULTIPLIER_BPS'' 11000) (cf_GasPriceMultiplierBps c')" "clean (load_maxGas env) (cf_MaxGasPrice c')"
    "clean (load_models env) (cf_SupportedModels c')" "cf_RPCURL c' = envOrDefault env ''RPC_URL'' ''http://localhost:8545''"
    "cf_EncryptionKeystorePath c' = envOrDefault env ''ENCRYPTION_KEYSTORE_PATH'' ''data/worker-encryption.key''"
  using assms by (auto simp: load_chain_def clean_bind loading_rules load_strings_def)

lemma load_timeouts_fields:
  assumes "clean (load_timeouts lib env c) c'"
  shows "clean (parseDuration lib env ''LIGHTCHAIN_DRAIN_TTL'' ''0s'') (cf_DrainTTLOverride c')"
    "clean (parseDuration lib env ''LIGHTCHAIN_DRAIN_SLACK'' ''2h'') (cf_DrainSlack c')"
    "(worker_view c')\<lparr>ov_drain := x\<rparr> = (worker_view c)\<lparr>ov_drain := x\<rparr>"
  using assms by (auto simp: load_timeouts_def clean_bind loading_rules worker_view_def)

lemma clean_unique: "clean p v \<Longrightarrow> clean p w \<Longrightarrow> v = w"
  by (simp add: clean_def)

lemma clean_addresses: "clean (required_address lib env k) v \<Longrightarrow> clean (optional_address lib env k) w \<Longrightarrow> v = w"
  by (auto simp: required_address_def optional_address_def clean_bind loading_rules split: if_splits)

lemma clean_drain_duration:
  "clean (drain_duration lib env k bad) v \<longleftrightarrow> (if env k = [] then v = 0 else ParseDuration (cl_fraction lib) (env k) = Some v \<and> \<not> bad v)"
  by (auto simp: drain_duration_def clean_bind loading_rules split: option.splits)

lemma clean_models: "clean (load_models env) ms \<Longrightarrow> ms = split_models (env ''SUPPORTED_MODELS'')"
  by (auto simp: load_models_def clean_bind loading_rules Let_def split: if_splits)

lemma drain_durations_agree:
  assumes "clean (parseDuration lib env ''LIGHTCHAIN_DRAIN_TTL'' ''0s'') v" "clean (drain_duration lib env ''LIGHTCHAIN_DRAIN_TTL'' bad) w"
    "clean (parseDuration lib env ''LIGHTCHAIN_DRAIN_SLACK'' ''2h'') v'" "clean (drain_duration lib env ''LIGHTCHAIN_DRAIN_SLACK'' bad') w'"
  shows "v = w" "(if v' > 0 then v' else 2 * Hour) = (if w' \<le> 0 then 2 * Hour else w')"
  using assms unfolding clean_drain_duration clean_parseDuration
  by (auto simp: envOrDefault_def split: if_splits)

text \<open>What both loaders read of one environment is the same.\<close>

lemma loaded_views_agree:
  assumes "Load lib env = Inr c" "LoadRegistration lib env = Inr g"
  shows "worker_view c = cli_view g"
proof -
  obtain c1 c2 c3 c4 c5 where c: "clean (load_chain lib env (load_strings env)) c1" "clean (load_timeouts lib env c1) c2"
    "clean (load_streaming lib env c2) c3" "clean (load_voice lib env c3) c4" "clean (load_release lib env c4) c5" "clean (load_sortition lib env c5) c"
    using assms(1) by (auto simp: Load_clean load_all_def clean_bind loading_rules)
  note g = registration_fields [OF assms(2)] and c1 = load_chain_fields [OF c(1)] and c2 = load_timeouts_fields [OF c(2)]
  have "(worker_view c2)\<lparr>ov_drain := d\<rparr> = (cli_view g)\<lparr>ov_drain := d\<rparr>" for d
    using c2(3) clean_unique [OF c1(1) g(1)] clean_unique [OF c1(2) g(2)] clean_unique [OF c1(3) g(3)] clean_addresses [OF c1(4) g(4)]
      clean_unique [OF c1(5) g(7)] clean_unique [OF c1(6) g(8)] clean_models [OF c1(7)] c1(8,9) g(9-11)
    by (simp add: worker_view_def cli_view_def)
  moreover have "ov_drain (worker_view c2) = ov_drain (cli_view g)"
    using drain_durations_agree [OF c2(1) g(5) c2(2) g(6)] by (simp add: worker_view_def cli_view_def drainSlack_def defaultDrainSlack_def split: if_splits)
  ultimately have "worker_view c2 = cli_view g"
    by (metis operator_view.surjective operator_view.update_convs(4))
  then show ?thesis using later_stages_keep_view c(3-6) by metis
qed

lemma demo_registration:
  "\<exists>g. LoadRegistration demo_cfg_lib demo_env = Inr g \<and> rg_DrainTTLOverride g = 0 \<and> rg_DrainSlack g = 0"
proof -
  have u: "demo_env k = []" if "k \<notin> set (''MODEL_OPTIONS'' # required_vars)" for k using that by (simp add: demo_env_def required_vars_def)
  have r: "SetString (demo_env ''CHAIN_ID'') = Some n \<Longrightarrow> 0 < n \<Longrightarrow> n < 2 ^ 63 \<Longrightarrow> load_chainID demo_env = ret n"
    "k \<in> set [''WORKER_REGISTRY_ADDRESS'', ''AI_CONFIG_ADDRESS'', ''JOB_REGISTRY_ADDRESS''] \<Longrightarrow>
       required_address demo_cfg_lib demo_env k = ret 1 \<and> optional_address demo_cfg_lib demo_env k = ret 1" for n k
    using demo_env_required
    by (auto simp: only_required_def load_chainID_def required_address_def optional_address_def demo_cfg_lib_def SetString_def in_i64_def Let_def)
  obtain n where "SetString (demo_env ''CHAIN_ID'') = Some n" "0 < n" "n < 2 ^ 63" using demo_env_required by (auto simp: only_required_def)
  from r(1) [OF this] show ?thesis
    by (simp add: LoadRegistration_def registration_load_def r(2) load_stake_def drain_duration_def load_maxGas_def unset_parsers u required_vars_def)
qed

text \<open>
  C30. One environment, one drain marker. Whenever the worker's loader and the operator's loader both accept an
  environment, they read the same chain id, contract addresses, gas limits, model list and drain durations; and
  the lifetime that the worker gives the marker when it stops is the lifetime that the operator's drain command
  gives it, for every answer of the chain to the dispute window query.
\<close>

theorem operator_config_agrees:
  assumes "Load lib env = Inr c" "LoadRegistration lib env = Inr g"
    and "dh_ChainClient h = cc" "dh_DrainTTLOverride h = rg_DrainTTLOverride g" "dh_DrainSlack h = rg_DrainSlack g"
  shows "worker_view c = cli_view g \<and> svc_computeDrainTTL (Some c) cc denv = cli_computeDrainTTL h denv"
proof -
  have v: "worker_view c = cli_view g" using loaded_views_agree assms(1,2) .
  then have "cf_DrainTTLOverride c = rg_DrainTTLOverride g" "drainSlack (Some c) = (if rg_DrainSlack g \<le> 0 then 2 * Hour else rg_DrainSlack g)"
    by (simp_all add: worker_view_def cli_view_def)
  then show ?thesis using v assms(3-5) by (simp add: svc_computeDrainTTL_def cli_computeDrainTTL_def Let_def split: sum.split)
qed

theorem operator_config_agrees_witness:
  "\<exists>c g. Load demo_cfg_lib demo_env = Inr c \<and> LoadRegistration demo_cfg_lib demo_env = Inr g \<and> worker_view c = cli_view g \<and>
     svc_computeDrainTTL (Some c) True \<lparr>dr_SetDraining = None, dr_Undrain = None, dr_SendDrain = None, dr_SendUndrain = None, dr_GetDisputeWindow = Inr Hour\<rparr> = 3 * Hour"
proof -
  obtain c g where c: "Load demo_cfg_lib demo_env = Inr c" and g: "LoadRegistration demo_cfg_lib demo_env = Inr g" "rg_DrainTTLOverride g = 0" "rg_DrainSlack g = 0"
    using default_Load [OF demo_env_required demo_model_options] demo_registration by blast
  let ?h = "\<lparr>dh_RedisClient = True, dh_Gateway = False, dh_ChainClient = True, dh_DrainTTLOverride = 0, dh_DrainSlack = 0, dh_SkipConfirm = False, dh_Stdin = None\<rparr>"
  show ?thesis
    using c g operator_config_agrees [OF c g(1), where h = ?h and cc = True and
        denv = "\<lparr>dr_SetDraining = None, dr_Undrain = None, dr_SendDrain = None, dr_SendUndrain = None, dr_GetDisputeWindow = Inr Hour\<rparr>"]
    by (simp add: cli_computeDrainTTL_def i64_def)
qed

end
