(* ===== verification/Operator_Watch.thy ===== *)
theory Operator_Watch
  imports Operator_Preflight Config_Checks
begin

text \<open>
  The watch daemon (internal/cli/watch.go, internal/config/watch.go). It reads the worker's chain state, heartbeat
  and services and posts a webhook message when a check starts failing, stays failing and recovers. Clock, chain,
  HTTP and Redis are functions on a world state of any type; the world may change in any way between two ticks.
  The log records every observation of a check and every post with the webhook's answer.
\<close>

section \<open>State\<close>

record SessionClaim =
  sc_ReqID :: u64
  sc_Worker :: address
  sc_Block :: u64

record 'c WatchChain =
  wc_Head :: "'c \<Rightarrow> (go_error + HeadInfo) \<times> 'c"
  wc_IsWorkerRegistered :: "'c \<Rightarrow> (go_error + bool) \<times> 'c"
  wc_IsWorkerSuspended :: "'c \<Rightarrow> (go_error + bool) \<times> 'c"
  wc_GetSuspendedUntil :: "'c \<Rightarrow> (go_error + int) \<times> 'c"
  wc_GetWorkerStake :: "'c \<Rightarrow> (go_error + int) \<times> 'c"
  wc_GetMinWorkerStake :: "'c \<Rightarrow> (go_error + int) \<times> 'c"
  wc_SessionClaims :: "u64 \<Rightarrow> u64 \<Rightarrow> 'c \<Rightarrow> (go_error + SessionClaim list) \<times> 'c"
  wc_EligibleAt :: "u64 \<Rightarrow> address \<Rightarrow> u64 \<Rightarrow> 'c \<Rightarrow> (go_error + bool) \<times> 'c"
  wc_RequiredCapabilities :: "u64 \<Rightarrow> 'c \<Rightarrow> (go_error + int) \<times> 'c"

datatype msg_title = TitleFailing | TitleStillFailing int | TitleRecovered int

record webhookMessage =
  wm_recovered :: bool
  wm_check :: string
  wm_worker :: address
  wm_chain :: int
  wm_title :: msg_title
  wm_problem :: string
  wm_timestamp :: int

record 'c WatchHandler =
  wh_Chain :: "'c WatchChain"
  wh_WorkerAddr :: address
  wh_ChainID :: int
  wh_LivenessURL :: string
  wh_OllamaURL :: string
  wh_Heartbeat :: "('c \<Rightarrow> (go_error + int option) \<times> 'c) option"
  wh_HeartbeatMaxAge :: int
  wh_MissedClaims :: int
  wh_Cooldown :: int
  wh_get :: "string \<Rightarrow> 'c \<Rightarrow> (go_error + int) \<times> 'c"
  wh_post :: "webhookMessage \<Rightarrow> 'c \<Rightarrow> (go_error + int) \<times> 'c"
  wh_now :: "'c \<Rightarrow> int \<times> 'c"

text \<open>The zero time of \<open>since\<close> is \<open>None\<close>; \<open>lastAlert\<close> is read only while \<open>alerted\<close>.\<close>

record checkState =
  ck_alerted :: bool
  ck_lastAlert :: int
  ck_since :: "int option"

record claimTracker =
  ct_scanned :: u64
  ct_missed :: int

datatype watch_event =
    Seen (ev_check: string) (ev_problem: string)
  | Sent (ev_check: string) (ev_time: int) (ev_recovered: bool) (ev_ok: bool)

record 'c watch_st =
  ws_world :: 'c
  ws_checks :: "string \<Rightarrow> checkState option"
  ws_claims :: claimTracker
  ws_log :: "watch_event list"

definition wcall :: "('c \<Rightarrow> 'x \<times> 'c) \<Rightarrow> ('c watch_st, 'x) prog" where
  "wcall f = State (\<lambda>s. case f (ws_world s) of (x, c) \<Rightarrow> (x, s\<lparr>ws_world := c\<rparr>))"

definition wnote :: "watch_event \<Rightarrow> ('c watch_st, unit) prog" where
  "wnote ev = State (\<lambda>s. ((), s\<lparr>ws_log := ev # ws_log s\<rparr>))"

definition put_check :: "string \<Rightarrow> checkState \<Rightarrow> ('c watch_st, unit) prog" where
  "put_check c st = State (\<lambda>s. ((), s\<lparr>ws_checks := (ws_checks s)(c \<mapsto> st)\<rparr>))"

definition get_check :: "string \<Rightarrow> ('c watch_st, checkState) prog" where
  "get_check c = State (\<lambda>s. (case ws_checks s c of
     None \<Rightarrow> \<lparr>ck_alerted = False, ck_lastAlert = 0, ck_since = None\<rparr> | Some st \<Rightarrow> st, s))"

section \<open>Messages\<close>

definition notify :: "'c WatchHandler \<Rightarrow> string \<Rightarrow> msg_title \<Rightarrow> string \<Rightarrow> bool \<Rightarrow> ('c watch_st, bool) prog" where
  "notify h c title desc recovered = do {
     now \<leftarrow> wcall (wh_now h);
     r \<leftarrow> wcall (wh_post h \<lparr>wm_recovered = recovered, wm_check = c, wm_worker = wh_WorkerAddr h, wm_chain = wh_ChainID h,
       wm_title = title, wm_problem = desc, wm_timestamp = now\<rparr>);
     ret (case r of Inl e \<Rightarrow> False | Inr status \<Rightarrow> go_div status 100 = 2)
   }"

definition observe :: "'c WatchHandler \<Rightarrow> string \<Rightarrow> string \<Rightarrow> ('c watch_st, unit) prog" where
  "observe h c problem = do {
     st \<leftarrow> get_check c;
     put_check c st;
     wnote (Seen c problem);
     now \<leftarrow> wcall (wh_now h);
     if problem \<noteq> [] then do {
       let since = (case ck_since st of None \<Rightarrow> now | Some t \<Rightarrow> t);
       let st = st\<lparr>ck_since := Some since\<rparr>;
       put_check c st;
       if ck_alerted st \<and> duration_Sub now (ck_lastAlert st) < wh_Cooldown h then ret ()
       else do {
         let title = (if ck_alerted st then TitleStillFailing (duration_Round (duration_Sub now since) Second) else TitleFailing);
         ok \<leftarrow> notify h c title problem False;
         wnote (Sent c now False ok);
         if ok then put_check c (st\<lparr>ck_alerted := True, ck_lastAlert := now\<rparr>) else ret ()
       }
     } else case ck_since st of
       None \<Rightarrow> ret ()
     | Some since \<Rightarrow>
         if ck_alerted st then do {
           ok \<leftarrow> notify h c (TitleRecovered (duration_Round (duration_Sub now since) Second)) [] True;
           wnote (Sent c now True ok);
           if \<not> ok then ret () else put_check c (st\<lparr>ck_alerted := False, ck_since := None\<rparr>)
         } else put_check c (st\<lparr>ck_alerted := False, ck_since := None\<rparr>)
   }"

section \<open>Checks\<close>

definition watch_probe :: "'c WatchHandler \<Rightarrow> string \<Rightarrow> ('c watch_st, string) prog" where
  "watch_probe h target = do {
     r \<leftarrow> wcall (wh_get h target);
     ret (case r of Inl e \<Rightarrow> ''unreachable'' | Inr status \<Rightarrow> if status \<noteq> 200 then ''unexpected status'' else [])
   }"

text \<open>The heartbeat read: \<open>None\<close> is redis.Nil.\<close>

definition checkHeartbeat :: "'c WatchHandler \<Rightarrow> ('c \<Rightarrow> (go_error + int option) \<times> 'c) \<Rightarrow> ('c watch_st, string) prog" where
  "checkHeartbeat h hget = do {
     r \<leftarrow> wcall hget;
     case r of
       Inl e \<Rightarrow> ret ''cannot read heartbeat''
     | Inr None \<Rightarrow> ret ''no heartbeat in Redis''
     | Inr (Some last_beat) \<Rightarrow> do {
         now \<leftarrow> wcall (wh_now h);
         ret (if duration_Sub now (last_beat * Second) > wh_HeartbeatMaxAge h then ''last heartbeat too old'' else [])
       }
   }"

definition claimGraceBlocks :: u64 where
  "claimGraceBlocks = 5"

definition maxClaimScan :: u64 where
  "maxClaimScan = 100"

definition missedClaim :: "'c WatchHandler \<Rightarrow> SessionClaim \<Rightarrow> ('c watch_st, bool) prog" where
  "missedClaim h cl =
     (if sc_Block cl \<le> claimGraceBlocks then ret False
      else do {
        caps \<leftarrow> wcall (wc_RequiredCapabilities (wh_Chain h) (sc_ReqID cl));
        case caps of
          Inl e \<Rightarrow> ret False
        | Inr n \<Rightarrow>
            if n \<noteq> 0 then ret False
            else do {
              eligible \<leftarrow> wcall (wc_EligibleAt (wh_Chain h) (sc_ReqID cl) (wh_WorkerAddr h) (sc_Block cl - claimGraceBlocks));
              ret (case eligible of Inl e \<Rightarrow> False | Inr b \<Rightarrow> b)
            }
      })"

definition set_missed :: "(int \<Rightarrow> int) \<Rightarrow> ('c watch_st, unit) prog" where
  "set_missed f = State (\<lambda>s. ((), s\<lparr>ws_claims := (ws_claims s)\<lparr>ct_missed := f (ct_missed (ws_claims s))\<rparr>\<rparr>))"

definition set_scanned :: "u64 \<Rightarrow> ('c watch_st, unit) prog" where
  "set_scanned b = State (\<lambda>s. ((), s\<lparr>ws_claims := (ws_claims s)\<lparr>ct_scanned := b\<rparr>\<rparr>))"

definition get_claims :: "('c watch_st, claimTracker) prog" where
  "get_claims = State (\<lambda>s. (ws_claims s, s))"

fun count_claims :: "'c WatchHandler \<Rightarrow> SessionClaim list \<Rightarrow> ('c watch_st, unit) prog" where
  "count_claims h [] = ret ()"
| "count_claims h (cl # cls) = do {
     (if sc_Worker cl = wh_WorkerAddr h then set_missed (\<lambda>_. 0)
      else do { m \<leftarrow> missedClaim h cl; if m then set_missed (\<lambda>n. n + 1) else ret () });
     count_claims h cls
   }"

definition scan_from :: "u64 \<Rightarrow> u64 \<Rightarrow> u64" where
  "scan_from scanned head = (let from = scanned + 1 in if head - from \<ge> maxClaimScan then head - maxClaimScan + 1 else from)"

definition checkClaims :: "'c WatchHandler \<Rightarrow> u64 \<Rightarrow> ('c watch_st, go_error + string) prog" where
  "checkClaims h head = do {
     c0 \<leftarrow> get_claims;
     (if ct_scanned c0 = 0 then set_scanned head else ret ());
     c \<leftarrow> get_claims;
     attempt
       (if head > ct_scanned c then
          attempt (wcall (wc_SessionClaims (wh_Chain h) (scan_from (ct_scanned c) head) head)) (\<lambda>claims.
            do { count_claims h claims; set_scanned head; ret (Inr ()) })
        else ret (Inr ()))
       (\<lambda>_. do {
          c' \<leftarrow> get_claims;
          ret (Inr (if ct_missed c' \<ge> wh_MissedClaims h then ''sessions went to other workers'' else []))
        })
   }"

type_synonym finding = "string \<times> string"

definition chainFindings :: "'c WatchHandler \<Rightarrow> ('c watch_st, go_error + finding list) prog" where
  "chainFindings h =
     attempt (wcall (wc_Head (wh_Chain h))) (\<lambda>head. do {
     now \<leftarrow> wcall (wh_now h);
     let rpc = (''rpc'', if duration_Round (duration_Sub now (hd_Timestamp head * Second)) Second > headStaleAfter then ''head is old'' else []);
     attempt (wcall (wc_IsWorkerRegistered (wh_Chain h))) (\<lambda>registered.
     if \<not> registered then ret (Inr [rpc, (''registered'', ''worker is not registered on-chain'')])
     else attempt (wcall (wc_IsWorkerSuspended (wh_Chain h))) (\<lambda>suspended.
     attempt (if suspended then
                attempt (wcall (wc_GetSuspendedUntil (wh_Chain h))) (\<lambda>until.
                  ret (Inr (if cooldown until head > 0 then ''worker is suspended'' else ''suspension cooldown ended'')))
              else ret (Inr [])) (\<lambda>susp.
     attempt (wcall (wc_GetWorkerStake (wh_Chain h))) (\<lambda>stake.
     attempt (wcall (wc_GetMinWorkerStake (wh_Chain h))) (\<lambda>minStake.
     let out = [rpc, (''registered'', []), (''suspended'', susp), (''stake'', if stake < minStake then ''below the on-chain minimum'' else [])] in
     if wh_MissedClaims h > 0 then
       attempt (checkClaims h (hd_Number head)) (\<lambda>problem. ret (Inr (out @ [(''claims'', problem)])))
     else ret (Inr out)))))) })"

fun observe_all :: "'c WatchHandler \<Rightarrow> finding list \<Rightarrow> ('c watch_st, unit) prog" where
  "observe_all h [] = ret ()"
| "observe_all h ((c, p) # fs) = do { observe h c p; observe_all h fs }"

definition watch_Tick :: "'c WatchHandler \<Rightarrow> ('c watch_st, unit) prog" where
  "watch_Tick h = do {
     (if wh_LivenessURL h \<noteq> [] then do { p \<leftarrow> watch_probe h (wh_LivenessURL h); observe h ''liveness'' p } else ret ());
     (case wh_Heartbeat h of None \<Rightarrow> ret () | Some hget \<Rightarrow> do { p \<leftarrow> checkHeartbeat h hget; observe h ''heartbeat'' p });
     p \<leftarrow> watch_probe h (TrimRightSlash (wh_OllamaURL h) @ ''/api/tags'');
     observe h ''ollama'' p;
     findings \<leftarrow> chainFindings h;
     case findings of
       Inl e \<Rightarrow> observe h ''rpc'' ''chain read failed''
     | Inr fs \<Rightarrow> observe_all h fs
   }"

section \<open>Settings\<close>

record WatchConfig =
  wg_WebhookURL :: string
  wg_Interval :: int
  wg_Cooldown :: int
  wg_MissedClaims :: int
  wg_WorkerAddress :: address
  wg_MetricsAddr :: string
  wg_HeartbeatInterval :: int
  wg_RedisURL :: string
  wg_RedisPassword :: string
  wg_SessionManagerAddress :: address

definition err_if :: "bool \<Rightarrow> string \<Rightarrow> unit loading" where
  "err_if b msg = (if b then append_err msg else ret ())"

definition watch_worker_env :: "config_lib \<Rightarrow> environment \<Rightarrow> address loading" where
  "watch_worker_env lib env =
     (let w = env ''WATCH_WORKER_ADDRESS'' in
      if w = [] then ret 0
      else if \<not> cl_IsHexAddress lib w \<or> cl_HexToAddress lib w = 0
      then do { append_err ''WATCH_WORKER_ADDRESS: must be a non-zero hex address''; ret 0 }
      else ret (cl_HexToAddress lib w))"

definition watch_load :: "config_lib \<Rightarrow> environment \<Rightarrow> WatchConfig loading" where
  "watch_load lib env = do {
     vInterval \<leftarrow> parseDuration lib env ''WATCH_INTERVAL'' ''30s'';
     vCooldown \<leftarrow> parseDuration lib env ''WATCH_COOLDOWN'' ''1h'';
     vMissed \<leftarrow> parseInt env ''WATCH_MISSED_CLAIMS'' 3;
     vBeat \<leftarrow> parseDuration lib env ''HEARTBEAT_INTERVAL'' ''10s'';
     let url = env ''WATCH_WEBHOOK_URL'';
     (if url = [] then append_err ''WATCH_WEBHOOK_URL is required''
      else err_if (case cl_urlParse lib url of None \<Rightarrow> True | Some (scheme, host) \<Rightarrow> host = [] \<or> scheme \<noteq> ''http'' \<and> scheme \<noteq> ''https'')
        ''WATCH_WEBHOOK_URL: must be an http(s) URL'');
     err_if (vInterval \<le> 0) ''WATCH_INTERVAL: must be positive'';
     err_if (vCooldown < 0) ''WATCH_COOLDOWN: must be >= 0'';
     err_if (vMissed < 0) ''WATCH_MISSED_CLAIMS: must be >= 0'';
     err_if (vBeat \<le> 0) ''HEARTBEAT_INTERVAL: must be positive'';
     vManager \<leftarrow> optional_address lib env ''SESSION_MANAGER_ADDRESS'';
     vWorker \<leftarrow> watch_worker_env lib env;
     ret \<lparr>wg_WebhookURL = url, wg_Interval = vInterval, wg_Cooldown = vCooldown, wg_MissedClaims = vMissed, wg_WorkerAddress = vWorker,
       wg_MetricsAddr = envOrDefault env ''WORKER_METRICS_ADDR'' ''127.0.0.1:9101'', wg_HeartbeatInterval = vBeat,
       wg_RedisURL = envOrDefault env ''REDIS_URL'' ''redis://localhost:6379'', wg_RedisPassword = env ''REDIS_PASSWORD'',
       wg_SessionManagerAddress = vManager\<rparr>
   }"

definition LoadWatch :: "config_lib \<Rightarrow> environment \<Rightarrow> string list + WatchConfig" where
  "LoadWatch lib env = (case run_state (watch_load lib env) [] of (cfg, errs) \<Rightarrow> if errs \<noteq> [] then Inl errs else Inr cfg)"

text \<open>The address field of a keystore file; reading and decoding the file are arguments.\<close>

definition KeystoreAddress :: "config_lib \<Rightarrow> (string \<Rightarrow> go_error + string) \<Rightarrow> (string \<Rightarrow> go_error + string) \<Rightarrow> string \<Rightarrow> go_error + address" where
  "KeystoreAddress lib readFile jsonAddress path =
     (case readFile path of
        Inl e \<Rightarrow> Inl e
      | Inr raw \<Rightarrow>
          (case jsonAddress raw of
             Inl e \<Rightarrow> Inl (wrapf ''parse keystore'' e)
           | Inr a \<Rightarrow> if \<not> cl_IsHexAddress lib a then Inl (errorf ''keystore has no address field'') else Inr (cl_HexToAddress lib a)))"

definition WatchWorkerAddress :: "config_lib \<Rightarrow> (string \<Rightarrow> go_error + string) \<Rightarrow> (string \<Rightarrow> go_error + string) \<Rightarrow> string \<Rightarrow> address \<Rightarrow> string \<Rightarrow> go_error + address" where
  "WatchWorkerAddress lib readFile jsonAddress flag envAddr keystorePath =
     (if flag \<noteq> [] then
        if \<not> cl_IsHexAddress lib flag then Inl (errorf ''--worker must be a hex address'') else Inr (cl_HexToAddress lib flag)
      else if envAddr \<noteq> 0 then Inr envAddr
      else if keystorePath \<noteq> [] then KeystoreAddress lib readFile jsonAddress keystorePath
      else Inl (errorf ''watch needs --worker, WATCH_WORKER_ADDRESS or WORKER_KEYSTORE_PATH''))"

section \<open>What the operator was told\<close>

lemma wp_watch [wp_simps]:
  "wp (wcall f) Qa = (\<lambda>s. case f (ws_world s) of (x, c) \<Rightarrow> Qa x (s\<lparr>ws_world := c\<rparr>))"
  "wp (wnote ev) Q = (\<lambda>s. Q () (s\<lparr>ws_log := ev # ws_log s\<rparr>))"
  "wp (put_check c st) Q = (\<lambda>s. Q () (s\<lparr>ws_checks := (ws_checks s)(c \<mapsto> st)\<rparr>))"
  "wp (get_check c) Qc = (\<lambda>s. Qc (case ws_checks s c of None \<Rightarrow> \<lparr>ck_alerted = False, ck_lastAlert = 0, ck_since = None\<rparr> | Some st \<Rightarrow> st) s)"
  "wp (set_missed g) Q = (\<lambda>s. Q () (s\<lparr>ws_claims := (ws_claims s)\<lparr>ct_missed := g (ct_missed (ws_claims s))\<rparr>\<rparr>))"
  "wp (set_scanned b) Q = (\<lambda>s. Q () (s\<lparr>ws_claims := (ws_claims s)\<lparr>ct_scanned := b\<rparr>\<rparr>))"
  "wp get_claims Qt = (\<lambda>s. Qt (ws_claims s) s)"
  by (auto simp: wp_def wcall_def wnote_def put_check_def get_check_def set_missed_def set_scanned_def get_claims_def fun_eq_iff split: prod.splits)

definition about :: "string \<Rightarrow> watch_event list \<Rightarrow> watch_event list" where
  "about c = filter (\<lambda>e. ev_check e = c)"

definition accepted :: "watch_event list \<Rightarrow> watch_event list" where
  "accepted = filter (\<lambda>e. case e of Seen _ _ \<Rightarrow> False | Sent _ _ _ ok \<Rightarrow> ok)"

text \<open>Whether the last message the webhook took, newest first, was an alert.\<close>

definition told :: "watch_event list \<Rightarrow> bool" where
  "told l \<longleftrightarrow> (case accepted l of [] \<Rightarrow> False | e # _ \<Rightarrow> \<not> ev_recovered e)"

fun latest_problem :: "watch_event list \<Rightarrow> string" where
  "latest_problem [] = []"
| "latest_problem (Seen c p # l) = p"
| "latest_problem (Sent c t r ok # l) = latest_problem l"

text \<open>Recoveries follow alerts; a repeated alert keeps the cooldown.\<close>

fun paced :: "int \<Rightarrow> watch_event list \<Rightarrow> bool" where
  "paced cd [] = True"
| "paced cd (e # l) \<longleftrightarrow> paced cd l \<and>
     (case l of
        [] \<Rightarrow> \<not> ev_recovered e
      | e' # _ \<Rightarrow> if ev_recovered e then \<not> ev_recovered e' else ev_recovered e' \<or> duration_Sub (ev_time e) (ev_time e') \<ge> cd)"

definition up_to_date :: "watch_event list \<Rightarrow> bool" where
  "up_to_date l \<longleftrightarrow> (\<exists>c t r l'. l = Sent c t r False # l') \<or> (told l \<longleftrightarrow> latest_problem l \<noteq> [])"

definition remembers :: "checkState option \<Rightarrow> watch_event list \<Rightarrow> bool" where
  "remembers st l \<longleftrightarrow> (case st of
     None \<Rightarrow> l = []
   | Some st \<Rightarrow> (ck_alerted st \<longleftrightarrow> told l) \<and> (ck_alerted st \<longrightarrow> ck_since st \<noteq> None \<and> ck_lastAlert st = ev_time (hd (accepted l))))"

definition check_inv :: "int \<Rightarrow> checkState option \<Rightarrow> watch_event list \<Rightarrow> bool" where
  "check_inv cd st l \<longleftrightarrow> paced cd (accepted l) \<and> up_to_date l \<and> remembers st l"

definition watch_inv :: "'c WatchHandler \<Rightarrow> 'c watch_st \<Rightarrow> bool" where
  "watch_inv h s \<longleftrightarrow> (\<forall>c. check_inv (wh_Cooldown h) (ws_checks s c) (about c (ws_log s)))"

lemma about_Cons [simp]: "about c (e # l) = (if ev_check e = c then e # about c l else about c l)" "about c [] = []"
  by (simp_all add: about_def)

lemma accepted_Cons [simp]:
  "accepted (Seen c p # l) = accepted l" "accepted (Sent c t r ok # l) = (if ok then Sent c t r ok # accepted l else accepted l)" "accepted [] = []"
  by (simp_all add: accepted_def)

lemma told_Cons [simp]: "told (Seen c p # l) = told l" "told (Sent c t r ok # l) = (if ok then \<not> r else told l)" "told [] = False"
  by (simp_all add: told_def)

lemma told_accepted: "told l \<Longrightarrow> \<exists>e l'. accepted l = e # l' \<and> \<not> ev_recovered e"
  by (auto simp: told_def split: list.splits)

lemma not_told_accepted: "\<not> told l \<Longrightarrow> accepted l = [] \<or> (\<exists>e l'. accepted l = e # l' \<and> ev_recovered e)"
  by (auto simp: told_def split: list.splits)

text \<open>One observation, for one check: the events it adds and the state it leaves.\<close>

lemma check_inv_fresh: "check_inv cd None l \<Longrightarrow> check_inv cd (Some \<lparr>ck_alerted = False, ck_lastAlert = 0, ck_since = None\<rparr>) l"
  by (auto simp: check_inv_def remembers_def)

lemma check_inv_seen:
  assumes "check_inv cd (Some st) l" "ck_alerted st \<longleftrightarrow> p \<noteq> []" "ck_alerted st' = ck_alerted st" "ck_alerted st' \<Longrightarrow> ck_lastAlert st' = ck_lastAlert st \<and> ck_since st' \<noteq> None"
  shows "check_inv cd (Some st') (Seen c p # l)"
  using assms by (auto simp: check_inv_def remembers_def up_to_date_def)

lemma check_inv_alert:
  assumes "check_inv cd (Some st) l" "p \<noteq> []" "ck_alerted st \<Longrightarrow> duration_Sub now (ck_lastAlert st) \<ge> cd"
    "st' = (if ok then st\<lparr>ck_since := Some t, ck_alerted := True, ck_lastAlert := now\<rparr> else st\<lparr>ck_since := Some t\<rparr>)"
  shows "check_inv cd (Some st') (Sent c now False ok # Seen c p # l)"
  using assms by (cases "ck_alerted st") (auto simp: check_inv_def remembers_def up_to_date_def dest!: told_accepted not_told_accepted)

lemma check_inv_recovery:
  assumes "check_inv cd (Some st) l" "ck_alerted st"
    "st' = (if ok then st\<lparr>ck_alerted := False, ck_since := None\<rparr> else st)"
  shows "check_inv cd (Some st') (Sent c now True ok # Seen c [] # l)"
  using assms by (auto simp: check_inv_def remembers_def up_to_date_def dest!: told_accepted)

lemma wp_notify:
  "wp (notify h c title desc rec) Q s \<longleftrightarrow> (case run_state (notify h c title desc rec) s of (ok, s') \<Rightarrow> Q ok (s\<lparr>ws_world := ws_world s'\<rparr>))"
  by (auto simp: notify_def wp_def wcall_def split: prod.splits)

definition observed :: "'c WatchHandler \<Rightarrow> string \<Rightarrow> string \<Rightarrow> 'c watch_st \<Rightarrow> 'c watch_st \<Rightarrow> bool" where
  "observed h c p s s' \<longleftrightarrow> (\<exists>w st evs. s' = s\<lparr>ws_world := w, ws_checks := (ws_checks s)(c \<mapsto> st), ws_log := evs @ ws_log s\<rparr> \<and>
     (\<forall>e\<in>set evs. ev_check e = c) \<and> check_inv (wh_Cooldown h) (Some st) (evs @ about c (ws_log s)))"

lemma observed_seen:
  "check_inv (wh_Cooldown h) (Some st) (Seen c p # about c (ws_log s)) \<Longrightarrow>
   observed h c p s (s\<lparr>ws_world := w, ws_checks := (ws_checks s)(c \<mapsto> st), ws_log := Seen c p # ws_log s\<rparr>)"
  unfolding observed_def by (intro exI [of _ w] exI [of _ st] exI [of _ "[Seen c p]"]) simp

lemma observed_sent:
  "check_inv (wh_Cooldown h) (Some st) (Sent c t r ok # Seen c p # about c (ws_log s)) \<Longrightarrow>
   observed h c p s (s\<lparr>ws_world := w, ws_checks := (ws_checks s)(c \<mapsto> st), ws_log := Sent c t r ok # Seen c p # ws_log s\<rparr>)"
  unfolding observed_def by (intro exI [of _ w] exI [of _ st] exI [of _ "[Sent c t r ok, Seen c p]"]) simp

lemma watch_st_updates:
  "s\<lparr>ws_log := l, ws_world := w\<rparr> = s\<lparr>ws_world := w, ws_log := l\<rparr>"
  "s\<lparr>ws_checks := k, ws_world := w\<rparr> = s\<lparr>ws_world := w, ws_checks := k\<rparr>"
  "s\<lparr>ws_log := l, ws_checks := k\<rparr> = s\<lparr>ws_checks := k, ws_log := l\<rparr>"
  by simp_all

lemma wp_observe:
  assumes "check_inv (wh_Cooldown h) (ws_checks s c) (about c (ws_log s))"
  shows "wp (observe h c p) (\<lambda>_. observed h c p s) s"
proof -
  define st where "st = (case ws_checks s c of None \<Rightarrow> \<lparr>ck_alerted = False, ck_lastAlert = 0, ck_since = None\<rparr> | Some st \<Rightarrow> st)"
  obtain now w where now: "wh_now h (ws_world s) = (now, w)" by (cases "wh_now h (ws_world s)")
  have inv: "check_inv (wh_Cooldown h) (Some st) (about c (ws_log s))" using assms check_inv_fresh by (auto simp: st_def split: option.split)
  then have since: "ck_alerted st \<Longrightarrow> ck_since st \<noteq> None" by (simp add: check_inv_def remembers_def)
  let ?t = "case ck_since st of None \<Rightarrow> now | Some t \<Rightarrow> t"
  consider (quiet) "p \<noteq> []" "ck_alerted st" "duration_Sub now (ck_lastAlert st) < wh_Cooldown h"
    | (alert) "p \<noteq> []" "ck_alerted st \<Longrightarrow> wh_Cooldown h \<le> duration_Sub now (ck_lastAlert st)"
    | (calm) "p = []" "\<not> ck_alerted st" | (recover) "p = []" "ck_alerted st" by fastforce
  then show ?thesis
  proof cases
    case quiet
    then have "check_inv (wh_Cooldown h) (Some (st\<lparr>ck_since := Some ?t\<rparr>)) (Seen c p # about c (ws_log s))" by (intro check_inv_seen [OF inv]) auto
    from observed_seen [OF this] quiet show ?thesis by (simp add: observe_def wp_simps watch_st_updates st_def [symmetric] now Let_def)
  next
    case alert
    note told = observed_sent [OF check_inv_alert [where t = ?t and ok = True, OF inv alert refl]]
      observed_sent [OF check_inv_alert [where t = ?t and ok = False, OF inv alert refl]]
    show ?thesis using alert told
      by (auto simp: observe_def wp_simps wp_notify watch_st_updates st_def [symmetric] now Let_def split: prod.split)
  next
    case calm
    note told = observed_seen [OF check_inv_seen [OF inv]]
    show ?thesis using calm told [of p] by (auto simp: observe_def wp_simps watch_st_updates st_def [symmetric] now Let_def split: option.split)
  next
    case recover
    note told = observed_sent [OF check_inv_recovery [where ok = True, OF inv recover(2) refl]]
      observed_sent [OF check_inv_recovery [where ok = False, OF inv recover(2) refl]]
    show ?thesis using recover told since
      by (auto simp: observe_def wp_simps wp_notify watch_st_updates st_def [symmetric] now Let_def split: prod.split option.split)
  qed
qed

lemma keeps_observe: "keeps (watch_inv h) (observe h c p)"
proof (rule keepsI)
  fix s assume inv: "watch_inv h s"
  then have "wp (observe h c p) (\<lambda>_. observed h c p s) s" by (intro wp_observe) (simp add: watch_inv_def)
  then show "wp (observe h c p) (\<lambda>_. watch_inv h) s"
  proof (rule wp_mono)
    fix s' assume "observed h c p s s'"
    then show "watch_inv h s'" using inv by (auto simp: observed_def watch_inv_def about_def)
  qed
qed

lemma keeps_watch [intro!]:
  "keeps (watch_inv h) (wcall f)" "keeps (watch_inv h) (set_missed g)" "keeps (watch_inv h) (set_scanned b)" "keeps (watch_inv h) get_claims"
  by (auto simp: keeps_def wp_simps watch_inv_def split: prod.split)

lemma keeps_count_claims [intro!]: "keeps (watch_inv h) (count_claims h' cls)"
  by (induction cls) (auto simp: missedClaim_def)

lemma keeps_observe_all: "keeps (watch_inv h) (observe_all h fs)"
  by (induction h fs rule: observe_all.induct) (auto intro: keeps_observe)

lemma keeps_chainFindings: "keeps (watch_inv h) (chainFindings h')"
  by (auto simp: chainFindings_def checkClaims_def Let_def)

lemma keeps_Tick: "keeps (watch_inv h) (watch_Tick h)"
  unfolding watch_Tick_def watch_probe_def checkHeartbeat_def
  by (auto intro: keeps_observe keeps_observe_all keeps_chainFindings)

section \<open>Runs of the daemon\<close>

text \<open>
  A run ticks once in each world of a list: what happened between two ticks is arbitrary. Every tick looks at the
  checks of \<open>always_checked\<close>; the other chain checks only when the chain can be read.
\<close>

fun watch_run :: "'c WatchHandler \<Rightarrow> 'c list \<Rightarrow> 'c watch_st \<Rightarrow> 'c watch_st" where
  "watch_run h [] s = s"
| "watch_run h (w # ws) s = watch_run h ws (snd (run_state (watch_Tick h) (s\<lparr>ws_world := w\<rparr>)))"

definition watch_init :: "'c \<Rightarrow> 'c watch_st" where
  "watch_init w = \<lparr>ws_world = w, ws_checks = Map.empty, ws_claims = \<lparr>ct_scanned = 0, ct_missed = 0\<rparr>, ws_log = []\<rparr>"

definition always_checked :: "'c WatchHandler \<Rightarrow> string set" where
  "always_checked h = {''ollama'', ''rpc''} \<union> (if wh_LivenessURL h \<noteq> [] then {''liveness''} else {}) \<union>
     (if wh_Heartbeat h \<noteq> None then {''heartbeat''} else {})"

definition looks :: "string \<Rightarrow> watch_event list \<Rightarrow> nat" where
  "looks c l = length (filter is_Seen (about c l))"

lemma looks_Cons [simp]: "looks c (Seen d p # l) = (if d = c then Suc (looks c l) else looks c l)" "looks c (Sent d t r ok # l) = looks c l" "looks c [] = 0"
  by (simp_all add: looks_def)

abbreviation looked :: "string \<Rightarrow> nat \<Rightarrow> 'c watch_st \<Rightarrow> bool" where
  "looked c n s \<equiv> n \<le> looks c (ws_log s)"

lemma observe_looks: "wp (observe h c p) (\<lambda>_ s'. looks d (ws_log s') = looks d (ws_log s) + (if d = c then 1 else 0)) s"
  by (auto simp: observe_def wp_simps wp_notify Let_def split: prod.split option.split)

lemma observe_looked: "(if d = c then looked d (n - 1) s else looked d n s) \<Longrightarrow> wp (observe h c p) (\<lambda>_. looked d n) s"
  by (rule wp_mono [OF observe_looks [where d = d]]) (auto split: if_splits)

lemma keeps_looked [intro!]:
  "keeps (looked d n) (wcall f)" "keeps (looked d n) (set_missed g)" "keeps (looked d n) (set_scanned b)" "keeps (looked d n) get_claims"
  by (auto simp: keeps_def wp_simps split: prod.split)

lemma keeps_looked_observe [intro!]: "keeps (looked d n) (observe h c p)"
  by (intro keepsI observe_looked) auto

lemma keeps_looked_all [intro!]: "keeps (looked d n) (observe_all h fs)"
  by (induction h fs rule: observe_all.induct) auto

lemma keeps_looked_findings [intro!]: "keeps (looked d n) (chainFindings h)"
proof -
  have "keeps (looked d n) (count_claims h cls)" for cls by (induction cls) (auto simp: missedClaim_def)
  then show ?thesis by (auto simp: chainFindings_def checkClaims_def Let_def)
qed

text \<open>The findings of a readable chain begin with the rpc check.\<close>

definition yields :: "('a \<Rightarrow> bool) \<Rightarrow> ('s, 'a) prog \<Rightarrow> bool" where
  "yields P m \<longleftrightarrow> (\<forall>s. wp m (\<lambda>r _. P r) s)"

lemma yields_intros:
  "P x \<Longrightarrow> yields P (ret x)" "(\<And>x. yields P (f x)) \<Longrightarrow> yields P (State_Monad.bind m f)"
  "(\<And>e. P' (Inl e)) \<Longrightarrow> (\<And>x. yields P' (g x)) \<Longrightarrow> yields P' (attempt n g)"
  by (auto simp: yields_def wp_simps wp_def split: prod.split sum.split)

lemma findings_rpc: "yields (\<lambda>r. \<forall>fs. r = Inr fs \<longrightarrow> (\<exists>p fs'. fs = (''rpc'', p) # fs')) (chainFindings h)"
  unfolding chainFindings_def Let_def by (auto intro!: yields_intros)

definition raises :: "string \<Rightarrow> ('c watch_st, 'a) prog \<Rightarrow> bool" where
  "raises c m \<longleftrightarrow> (\<forall>n s. looked c n s \<longrightarrow> wp m (\<lambda>_. looked c (Suc n)) s)"

lemma raises_first: "raises c m \<Longrightarrow> (\<And>x n. keeps (looked c n) (f x)) \<Longrightarrow> raises c (State_Monad.bind m f)"
  unfolding raises_def wp_bind by (blast intro: wp_mono keepsD)

lemma raises_then: "(\<And>n. keeps (looked c n) m) \<Longrightarrow> (\<And>x. raises c (f x)) \<Longrightarrow> raises c (State_Monad.bind m f)"
  unfolding raises_def wp_bind by (blast intro: wp_mono keepsD)

lemma raises_observe: "raises c (observe h c p)"
  unfolding raises_def by (auto intro: observe_looked)

lemma raises_findings:
  fixes h :: "'a WatchHandler"
  shows "raises ''rpc'' (State_Monad.bind (chainFindings h) (\<lambda>r. case r of Inl e \<Rightarrow> observe h ''rpc'' e' | Inr fs \<Rightarrow> observe_all h fs))"
  unfolding raises_def wp_bind
proof (intro allI impI)
  fix n and s :: "'a watch_st" assume "looked ''rpc'' n s"
  then have "wp (chainFindings h) (\<lambda>r s'. looked ''rpc'' n s' \<and> (\<forall>fs. r = Inr fs \<longrightarrow> (\<exists>p fs'. fs = (''rpc'', p) # fs'))) s"
    by (intro wp_conj keepsD [OF keeps_looked_findings] findings_rpc [unfolded yields_def, THEN spec])
  moreover have "raises ''rpc'' (observe_all h ((''rpc'', p) # fs))" for p fs
    by (simp, rule raises_first [OF raises_observe]) auto
  ultimately show "wp (chainFindings h) (\<lambda>x. wp (case x of Inl e \<Rightarrow> observe h ''rpc'' e' | Inr fs \<Rightarrow> observe_all h fs) (\<lambda>_. looked ''rpc'' (Suc n))) s"
    using raises_observe [of "''rpc''" h e'] unfolding raises_def by (elim wp_mono) (auto split: sum.split)
qed

lemma Tick_looks:
  fixes h :: "'a WatchHandler"
  shows "c \<in> always_checked h \<Longrightarrow> raises c (watch_Tick h)"
proof -
  let ?probe = "\<lambda>c u. State_Monad.bind (watch_probe h u) (observe h c)"
  have k: "keeps (looked c n) (watch_probe h u)" "keeps (looked c n) (checkHeartbeat h g)" for n u g
    by (auto simp: watch_probe_def checkHeartbeat_def)
  have look: "raises c (?probe c u)" "raises c (State_Monad.bind (checkHeartbeat h g) (observe h c))" for u g
    using k by (auto intro!: raises_then raises_observe)
  assume "c \<in> always_checked h"
  then consider "c = ''liveness''" "wh_LivenessURL h \<noteq> []" | g where "c = ''heartbeat''" "wh_Heartbeat h = Some g" | "c = ''ollama''" | "c = ''rpc''"
    by (auto simp: always_checked_def split: if_splits)
  then show ?thesis
  proof cases
    case 1
    show ?thesis unfolding watch_Tick_def by (rule raises_first) (use 1 look k in auto)
  next
    case (2 g)
    have rest: "raises c (State_Monad.bind (case wh_Heartbeat h of None \<Rightarrow> ret () | Some hget \<Rightarrow> State_Monad.bind (checkHeartbeat h hget) (observe h ''heartbeat'')) f)"
      if "\<And>x n. keeps (looked c n) (f x)" for f :: "unit \<Rightarrow> ('a watch_st, unit) prog" by (rule raises_first) (use 2 look that in auto)
    show ?thesis unfolding watch_Tick_def by (rule raises_then) (use k in auto, rule rest, use k in auto)
  next
    case 3
    have probe: "raises c (State_Monad.bind (watch_probe h u) (\<lambda>p. State_Monad.bind (observe h c p) f))" if "\<And>x n. keeps (looked c n) (f x)"
      for u and f :: "unit \<Rightarrow> ('a watch_st, unit) prog" by (rule raises_then, use k in simp, rule raises_first [OF raises_observe that])
    show ?thesis unfolding watch_Tick_def 3 [symmetric] by (rule raises_then, (use k 3 in auto)[1], rule raises_then, (use k 3 in auto)[1], rule probe, auto)
  next
    case 4
    show ?thesis unfolding watch_Tick_def 4
      by (rule raises_then, (use k [unfolded 4] in auto)[1], rule raises_then, (use k [unfolded 4] in auto)[1], rule raises_then, (use k [unfolded 4] in auto)[1], rule raises_then, (use k [unfolded 4] in auto)[1], rule raises_findings)
  qed
qed

lemma watch_run_inv:
  assumes "watch_inv h s" "c \<in> always_checked h \<Longrightarrow> looked c n s"
  shows "watch_inv h (watch_run h ws s) \<and> (c \<in> always_checked h \<longrightarrow> looked c (n + length ws) (watch_run h ws s))"
  using assms
proof (induction ws arbitrary: s n)
  case (Cons w ws)
  obtain u s' where t: "run_state (watch_Tick h) (s\<lparr>ws_world := w\<rparr>) = (u, s')" by (metis surj_pair)
  have "watch_inv h s'" using wp_run [OF keepsD [OF keeps_Tick] t] Cons.prems(1) by (simp add: watch_inv_def)
  moreover have "c \<in> always_checked h \<Longrightarrow> looked c (Suc n) s'" using Tick_looks Cons.prems(2) wp_run [OF _ t] unfolding raises_def by fastforce
  ultimately show ?case using Cons.IH [of s' "Suc n"] t by simp
qed simp

section \<open>Missed claims\<close>

text \<open>The blocks a tick scans for claims follow those scanned before, at most the last hundred.\<close>

lemma scan_window:
  assumes "scanned < head"
  shows "scanned < scan_from scanned head" "scan_from scanned head \<le> head" "uint head - uint (scan_from scanned head) < 100"
    "uint head - uint scanned \<le> 100 \<Longrightarrow> scan_from scanned head = scanned + 1"
proof -
  have b: "0 \<le> uint scanned" "uint scanned < uint head" "uint head < 2 ^ 64"
    using assms uint_lt2p [of head] by (auto simp: word_less_def)
  have "(uint head - (uint scanned + 1)) mod 2 ^ 64 = uint head - uint scanned - 1" using b by (subst mod_pos_pos_trivial) linarith+
  then have frm: "uint (scanned + 1) = uint scanned + 1" "uint (head - (scanned + 1)) = uint head - uint scanned - 1"
    using b by (simp_all add: uint_word_ariths mod_pos_pos_trivial)
  have last: "uint (head - 100 + 1) = uint head - 99" if "uint head - uint scanned - 1 \<ge> 100"
  proof -
    have "(uint head - 99) mod 2 ^ 64 = uint head - 99" using b that by (subst mod_pos_pos_trivial) linarith+
    then show ?thesis by (simp add: uint_word_ariths)
  qed
  have *: "scan_from scanned head = (if uint head - uint scanned - 1 \<ge> 100 then head - 100 + 1 else scanned + 1)"
    by (simp add: scan_from_def Let_def maxClaimScan_def word_le_def frm)
  show "scanned < scan_from scanned head" "scan_from scanned head \<le> head" "uint head - uint (scan_from scanned head) < 100"
    "uint head - uint scanned \<le> 100 \<Longrightarrow> scan_from scanned head = scanned + 1"
    unfolding * using b frm last by (auto simp: word_less_def word_le_def)
qed

section \<open>The property\<close>

lemma watch_init_inv: "watch_inv h (watch_init w)"
  by (simp add: watch_init_def watch_inv_def check_inv_def up_to_date_def remembers_def)

text \<open>A worker whose Ollama is down and comes back; the world is the time and whether Ollama answers.\<close>

definition demo_watch :: "(int \<times> bool) WatchHandler" where
  "demo_watch = \<lparr>wh_Chain = \<lparr>wc_Head = \<lambda>w. (Inr \<lparr>hd_Number = 7, hd_Timestamp = fst w div Second\<rparr>, w), wc_IsWorkerRegistered = Pair (Inr True),
       wc_IsWorkerSuspended = Pair (Inr False), wc_GetSuspendedUntil = Pair (Inr 0), wc_GetWorkerStake = Pair (Inr 5), wc_GetMinWorkerStake = Pair (Inr 5),
       wc_SessionClaims = \<lambda>a b. Pair (Inr []), wc_EligibleAt = \<lambda>a b c. Pair (Inr True), wc_RequiredCapabilities = \<lambda>a. Pair (Inr 0)\<rparr>,
     wh_WorkerAddr = 1, wh_ChainID = 9200, wh_LivenessURL = [], wh_OllamaURL = ''http://o/'', wh_Heartbeat = None, wh_HeartbeatMaxAge = 0,
     wh_MissedClaims = 0, wh_Cooldown = Hour, wh_get = \<lambda>u w. (Inr (if snd w then 200 else 502), w), wh_post = \<lambda>m. Pair (Inr 204), wh_now = \<lambda>w. (fst w, w)\<rparr>"

text \<open>
  C26. The operator is told what the checks find. In any run of the watch daemon, whatever happens to the node, the
  services and the webhook between and during the ticks, for every check: the messages that the webhook accepted
  begin with an alert, a recovery is sent only after an alert, and two alerts with no recovery between them are at
  least the cooldown apart; and unless the webhook refused the last message, the operator's last message is an alert
  exactly if the check failed when it was last looked at. Every tick looks at the RPC node, Ollama and, where
  configured, the liveness endpoint and the heartbeat.
\<close>

theorem watch_informs_operator:
  "let evs = ws_log (watch_run h ws (watch_init w)) in
    paced (wh_Cooldown h) (accepted (about c evs)) \<and>
    ((\<exists>t r l. about c evs = Sent c t r False # l) \<or> (told (about c evs) \<longleftrightarrow> latest_problem (about c evs) \<noteq> [])) \<and>
    (c \<in> always_checked h \<longrightarrow> length ws \<le> looks c evs)"
proof -
  have i: "watch_inv h (watch_run h ws (watch_init w))" "c \<in> always_checked h \<longrightarrow> looked c (length ws) (watch_run h ws (watch_init w))"
    using watch_run_inv [OF watch_init_inv, of c h 0 w ws] by auto
  let ?l = "about c (ws_log (watch_run h ws (watch_init w)))"
  have p: "paced (wh_Cooldown h) (accepted ?l)" and u: "up_to_date ?l" using i(1) by (auto simp: watch_inv_def check_inv_def)
  have "d = c" if "?l = Sent d t r False # l'" for d t r l'
  proof -
    have "Sent d t r False \<in> set ?l" using that by simp
    then show "d = c" by (simp add: about_def)
  qed
  with u have "(\<exists>t r l. ?l = Sent c t r False # l) \<or> (told ?l \<longleftrightarrow> latest_problem ?l \<noteq> [])"
    unfolding up_to_date_def by blast
  then show ?thesis unfolding Let_def using p i(2) by (intro conjI)
qed

theorem watch_informs_operator_witness:
  "let evs = ws_log (watch_run demo_watch [(0, False), (Minute, False), (2 * Minute, True)] (watch_init (0, True))) in
     paced Hour (accepted (about ''ollama'' evs)) \<and> 3 \<le> looks ''ollama'' evs"
proof -
  have "wh_Cooldown demo_watch = Hour" "''ollama'' \<in> always_checked demo_watch" by (simp_all add: demo_watch_def always_checked_def)
  then show ?thesis
    using watch_informs_operator [of demo_watch "[(0, False), (Minute, False), (2 * Minute, True)]" "(0, True)" "''ollama''"]
    by (auto simp only: Let_def list.size)
qed

end
