(* ===== verification/Heartbeat_Monitor.thy ===== *)
theory Heartbeat_Monitor
  imports Operator_Watch
begin

text \<open>
  The Redis heartbeat (internal/heartbeat/monitor.go) and how the watch daemon reads it. The field names, the status
  and the protocol version are those of package pkg/types and are left out; the key is one hash with an expiry.
  Worker, Redis and watch are taken to share one clock, in nanoseconds.
\<close>

section \<open>The monitor\<close>

definition OllamaStatusReady :: string where
  "OllamaStatusReady = ''ready''"

definition OllamaStatusUnreachable :: string where
  "OllamaStatusUnreachable = ''unreachable''"

record Monitor =
  mo_Interval :: int
  mo_modelIDs :: "string list"
  mo_capabilities :: "string list"
  mo_maxJobs :: int
  mo_startedAt :: int

record heartbeat_hash =
  hb_lastHeartbeat :: int
  hb_activeJobs :: int
  hb_maxJobs :: int
  hb_models :: "string list"
  hb_ollamaStatus :: string
  hb_uptime :: int
  hb_capabilities :: "string list"

type_synonym heartbeat_key = "(heartbeat_hash \<times> int) option"

text \<open>The outcome of the Redis transaction: a failed one may have been executed.\<close>

record beat =
  bt_now :: int
  bt_ollama :: "go_error + int"
  bt_jobs :: int
  bt_exec :: "(go_error \<times> bool) option"

definition KeyTTL :: "int \<Rightarrow> int" where
  "KeyTTL interval = i64 (3 * interval)"

definition CheckOllama :: "go_error + int \<Rightarrow> string" where
  "CheckOllama resp =
     (case resp of
        Inl e \<Rightarrow> OllamaStatusUnreachable
      | Inr status \<Rightarrow> if status = 200 then OllamaStatusReady else OllamaStatusUnreachable)"

text \<open>PEXPIRE takes milliseconds; a positive duration below one is sent as one.\<close>

definition formatMs :: "int \<Rightarrow> int" where
  "formatMs dur = (if 0 < dur \<and> dur < Millisecond then 1 else go_div dur Millisecond)"

definition beat_hash :: "Monitor \<Rightarrow> beat \<Rightarrow> heartbeat_hash" where
  "beat_hash m b = \<lparr>hb_lastHeartbeat = bt_now b div Second, hb_activeJobs = bt_jobs b, hb_maxJobs = mo_maxJobs m, hb_models = mo_modelIDs m,
     hb_ollamaStatus = CheckOllama (bt_ollama b), hb_uptime = go_div (duration_Sub (bt_now b) (mo_startedAt m)) Second, hb_capabilities = mo_capabilities m\<rparr>"

definition emit :: "Monitor \<Rightarrow> beat \<Rightarrow> heartbeat_key \<Rightarrow> go_error option \<times> heartbeat_key" where
  "emit m b key =
     (let written = Some (beat_hash m b, bt_now b + formatMs (KeyTTL (mo_Interval m)) * Millisecond) in
      case bt_exec b of
        Some (e, executed) \<Rightarrow> (Some (wrapf ''write heartbeat'' e), if executed then written else key)
      | None \<Rightarrow> (None, written))"

text \<open>\<open>Start\<close>: nothing for a non-positive interval, else one emit at once and one at each tick, errors ignored.\<close>

definition monitor_Start :: "Monitor \<Rightarrow> beat list \<Rightarrow> heartbeat_key \<Rightarrow> heartbeat_key" where
  "monitor_Start m beats key = (if mo_Interval m \<le> 0 then key else fold (\<lambda>b k. snd (emit m b k)) beats key)"

section \<open>What a reader finds\<close>

definition redis_HGet :: "heartbeat_key \<Rightarrow> int \<Rightarrow> go_error + int option" where
  "redis_HGet key t = Inr (case key of None \<Rightarrow> None | Some (h, expiry) \<Rightarrow> if t < expiry then Some (hb_lastHeartbeat h) else None)"

text \<open>The watch daemon on this key: the world is the key and the time.\<close>

definition watches :: "'c WatchHandler \<Rightarrow> ('c \<Rightarrow> (go_error + int option) \<times> 'c) \<Rightarrow> ('c \<Rightarrow> heartbeat_key \<times> int) \<Rightarrow> bool" where
  "watches h hget view \<longleftrightarrow> (\<forall>w. wh_now h w = (snd (view w), w) \<and> hget w = (redis_HGet (fst (view w)) (snd (view w)), w))"

lemma checkHeartbeat_result:
  assumes "watches h hget view"
  shows "fst (run_state (checkHeartbeat h hget) s) =
    (case fst (view (ws_world s)) of
       None \<Rightarrow> ''no heartbeat in Redis''
     | Some (hash, expiry) \<Rightarrow>
         if expiry \<le> snd (view (ws_world s)) then ''no heartbeat in Redis''
         else if duration_Sub (snd (view (ws_world s))) (hb_lastHeartbeat hash * Second) > wh_HeartbeatMaxAge h then ''last heartbeat too old'' else [])"
  using assms by (auto simp: watches_def checkHeartbeat_def wcall_def redis_HGet_def split: option.split prod.split)

lemma fold_failed: "\<forall>b\<in>set bs. \<exists>e. bt_exec b = Some (e, False) \<Longrightarrow> fold (\<lambda>b k. snd (emit m b k)) bs key = key"
  by (induction bs arbitrary: key) (auto simp: emit_def)

lemma Start_last:
  assumes "mo_Interval m > 0" "bt_exec b = None" "\<forall>b'\<in>set later. \<exists>e. bt_exec b' = Some (e, False)"
  shows "monitor_Start m (earlier @ b # later) key = Some (beat_hash m b, bt_now b + formatMs (KeyTTL (mo_Interval m)) * Millisecond)"
  using assms fold_failed by (simp add: monitor_Start_def emit_def)

lemma ttl_bounds:
  assumes "Millisecond \<le> i" "3 * i < 2 ^ 63"
  shows "formatMs (KeyTTL i) * Millisecond \<le> 3 * i" "3 * i - Millisecond < formatMs (KeyTTL i) * Millisecond" "KeyTTL i = 3 * i"
proof -
  show ttl: "KeyTTL i = 3 * i" using assms by (simp add: KeyTTL_def i64_id in_i64_def)
  then have "formatMs (KeyTTL i) = 3 * i div Millisecond" using assms by (simp add: formatMs_def go_div_nonneg)
  then show "formatMs (KeyTTL i) * Millisecond \<le> 3 * i" "3 * i - Millisecond < formatMs (KeyTTL i) * Millisecond"
    by simp_all
qed

definition demo_watch_key :: "(heartbeat_key \<times> int) WatchHandler" where
  "demo_watch_key = \<lparr>wh_Chain = \<lparr>wc_Head = Pair (Inr \<lparr>hd_Number = 7, hd_Timestamp = 0\<rparr>), wc_IsWorkerRegistered = Pair (Inr True),
       wc_IsWorkerSuspended = Pair (Inr False), wc_GetSuspendedUntil = Pair (Inr 0), wc_GetWorkerStake = Pair (Inr 5), wc_GetMinWorkerStake = Pair (Inr 5),
       wc_SessionClaims = \<lambda>a b. Pair (Inr []), wc_EligibleAt = \<lambda>a b c. Pair (Inr True), wc_RequiredCapabilities = \<lambda>a. Pair (Inr 0)\<rparr>,
     wh_WorkerAddr = 1, wh_ChainID = 9200, wh_LivenessURL = [], wh_OllamaURL = [],
     wh_Heartbeat = Some (\<lambda>w. (redis_HGet (fst w) (snd w), w)), wh_HeartbeatMaxAge = KeyTTL (10 * Second), wh_MissedClaims = 0, wh_Cooldown = Hour,
     wh_get = \<lambda>u w. (Inr 200, w), wh_post = \<lambda>m w. (Inr 204, w), wh_now = \<lambda>w. (snd w, w)\<rparr>"

text \<open>
  C40. Three intervals decide. Let the worker's last heartbeat that Redis took be at time t, all later ones having
  failed. The watch daemon, which derives its limit from the same interval, finds the heartbeat check in order as long
  as less than three intervals less one second (the resolution of the timestamp) have passed, and finds it failing once
  three intervals have passed, whatever the heartbeats before were.
\<close>

theorem heartbeat_three_intervals:
  assumes "Second \<le> mo_Interval m" "3 * mo_Interval m < 2 ^ 63"
    and "bt_exec b = None" "\<forall>b'\<in>set later. \<exists>e. bt_exec b' = Some (e, False)"
    and "watches h hget view" "wh_HeartbeatMaxAge h = KeyTTL (mo_Interval m)"
    and "view (ws_world s) = (monitor_Start m (earlier @ b # later) key, now)" "bt_now b \<le> now"
  shows "(now - bt_now b < 3 * mo_Interval m - Second \<longrightarrow> fst (run_state (checkHeartbeat h hget) s) = []) \<and>
    (now - bt_now b \<ge> 3 * mo_Interval m \<longrightarrow> fst (run_state (checkHeartbeat h hget) s) \<noteq> [])"
proof -
  have ms: "Millisecond \<le> mo_Interval m" using assms(1) by simp
  have "monitor_Start m (earlier @ b # later) key = Some (beat_hash m b, bt_now b + formatMs (KeyTTL (mo_Interval m)) * Millisecond)"
    by (rule Start_last) (use assms in auto)
  then have r: "fst (run_state (checkHeartbeat h hget) s) =
      (if bt_now b + formatMs (KeyTTL (mo_Interval m)) * Millisecond \<le> now then ''no heartbeat in Redis''
       else if duration_Sub now (bt_now b div Second * Second) > 3 * mo_Interval m then ''last heartbeat too old'' else [])"
    unfolding checkHeartbeat_result [OF assms(5)] assms(6,7) ttl_bounds(3) [OF ms assms(2)] by (simp add: beat_hash_def)
  have "now - bt_now b div Second * Second < now - bt_now b + Second"
    using pos_mod_bound [of Second "bt_now b"] by (simp add: minus_mod_eq_div_mult [symmetric])
  then have "duration_Sub now (bt_now b div Second * Second) \<le> 3 * mo_Interval m" if "now - bt_now b < 3 * mo_Interval m - Second"
    using that assms(1,2) by (simp add: duration_Sub_def)
  then show ?thesis using r ttl_bounds(1,2) [OF ms assms(2)] by auto
qed

theorem heartbeat_three_intervals_witness:
  "\<exists>m b. let key = monitor_Start m [b] None in
     fst (run_state (checkHeartbeat demo_watch_key (\<lambda>w. (redis_HGet (fst w) (snd w), w))) (watch_init (key, 20 * Second))) = [] \<and>
     fst (run_state (checkHeartbeat demo_watch_key (\<lambda>w. (redis_HGet (fst w) (snd w), w))) (watch_init (key, 30 * Second))) \<noteq> []"
proof -
  let ?m = "\<lparr>mo_Interval = 10 * Second, mo_modelIDs = [], mo_capabilities = [], mo_maxJobs = 1, mo_startedAt = 0\<rparr>"
  let ?b = "\<lparr>bt_now = 0, bt_ollama = Inr 200, bt_jobs = 0, bt_exec = None\<rparr>"
  have *: "watches demo_watch_key (\<lambda>w. (redis_HGet (fst w) (snd w), w)) id" by (simp add: watches_def demo_watch_key_def)
  have "(now < 29 * Second \<longrightarrow> fst (run_state (checkHeartbeat demo_watch_key (\<lambda>w. (redis_HGet (fst w) (snd w), w))) (watch_init (monitor_Start ?m [?b] None, now))) = []) \<and>
    (now \<ge> 30 * Second \<longrightarrow> fst (run_state (checkHeartbeat demo_watch_key (\<lambda>w. (redis_HGet (fst w) (snd w), w))) (watch_init (monitor_Start ?m [?b] None, now))) \<noteq> [])"
    if "0 \<le> now" for now
    using heartbeat_three_intervals [of ?m ?b "[]" demo_watch_key "\<lambda>w. (redis_HGet (fst w) (snd w), w)" id "watch_init (monitor_Start ?m [?b] None, now)" "[]" None now] * that
    by (simp add: demo_watch_key_def watch_init_def)
  from this [of "20 * Second"] this [of "30 * Second"] show ?thesis
    by (intro exI [of _ ?m] exI [of _ ?b]) (simp add: Let_def)
qed

end
