(* ===== verification/Service_Lifecycle.thy ===== *)
theory Service_Lifecycle
  imports Drain_Marker Operator_Registration Heartbeat_Monitor Session_Watcher Job_Watcher Response_Publisher
begin

text \<open>
  The worker process (internal/service/service.go): \<open>New\<close> builds the components of the profile the configuration
  selects, \<open>Run\<close> starts them, waits for the signal and stops them in order, \<open>Main\<close> turns the outcome into the exit
  code. A component pointer is a boolean or an option, the outcome of every step that leaves the process (files,
  keystores, chain, Redis, gateway) is a field of a record of answers, and the events record what is opened, started,
  stopped and closed.
\<close>

section \<open>Configuration of the parts\<close>

definition modelIDToName :: "byte list list \<Rightarrow> string list \<Rightarrow> (string \<times> string) list" where
  "modelIDToName ids names = concat (map (\<lambda>(mid, name).
     [(strings_ToLower (modelIDToHex mid), name), (drop 2 (strings_ToLower (modelIDToHex mid)), name)]) (zip ids names))"

definition guard_settings :: "Config \<Rightarrow> guard_config" where
  "guard_settings cfg = \<lparr>gc_DeadlineGuardEnabled = cf_DeadlineGuardEnabled cfg, gc_SettleReserve = cf_SettleReserve cfg,
     gc_CompletionReserve = cf_CompletionReserve cfg, gc_MinInferenceBudget = cf_MinInferenceBudget cfg\<rparr>"

definition service_handler_config :: "Config \<Rightarrow> (string \<times> string) list \<Rightarrow> HandlerConfig" where
  "service_handler_config cfg names = \<lparr>hc_ModelIDToName = names, hc_ChainID = Some (cf_ChainID cfg), hc_JobRegistryAddr = cf_JobRegistryAddress cfg,
     hc_AckOverlapEnabled = cf_AckOverlapEnabled cfg, hc_StreamEnabled = cf_OllamaStream cfg, hc_StreamReasoning = cf_StreamReasoning cfg,
     hc_StreamChunkTokens = cf_StreamChunkTokens cfg, hc_StreamChunkInterval = cf_StreamChunkInterval cfg, hc_ModelOptions = cf_ModelOptions cfg,
     hc_guard = guard_settings cfg, hc_STTEnabled = cf_STTEnabled cfg, hc_TTSEnabled = cf_TTSEnabled cfg, hc_TTSVoice = cf_TTSVoice cfg,
     hc_SpeechModelName = cf_SpeechModelName cfg, hc_TTSMaxChars = cf_TTSMaxChars cfg, hc_TTSTimeout = cf_TTSTimeout cfg,
     hc_SearchMaxResults = cf_SearchMaxResults cfg\<rparr>"

text \<open>The handler of gateway mode: the same without streaming.\<close>

definition gateway_handler_config :: "Config \<Rightarrow> (string \<times> string) list \<Rightarrow> HandlerConfig" where
  "gateway_handler_config cfg names = \<lparr>hc_ModelIDToName = names, hc_ChainID = Some (cf_ChainID cfg), hc_JobRegistryAddr = cf_JobRegistryAddress cfg,
     hc_AckOverlapEnabled = cf_AckOverlapEnabled cfg, hc_StreamEnabled = False, hc_StreamReasoning = False,
     hc_StreamChunkTokens = 0, hc_StreamChunkInterval = 0, hc_ModelOptions = cf_ModelOptions cfg,
     hc_guard = guard_settings cfg, hc_STTEnabled = cf_STTEnabled cfg, hc_TTSEnabled = cf_TTSEnabled cfg, hc_TTSVoice = cf_TTSVoice cfg,
     hc_SpeechModelName = cf_SpeechModelName cfg, hc_TTSMaxChars = cf_TTSMaxChars cfg, hc_TTSTimeout = cf_TTSTimeout cfg,
     hc_SearchMaxResults = cf_SearchMaxResults cfg\<rparr>"

definition session_watcher_opts :: "Config \<Rightarrow> address \<Rightarrow> int \<Rightarrow> SessionWatcherOpts" where
  "session_watcher_opts cfg worker ownCaps = \<lparr>o_Worker = worker, o_MaxConcurrent = cf_MaxConcurrentJobs cfg, o_ChunkSize = cf_SortitionChunkSize cfg,
     o_Confirmations = cf_SortitionConfirmations cfg, o_OwnCapabilities = Some ownCaps, o_LookbackBlocks = cf_SortitionSessionLookbackBlocks cfg\<rparr>"

definition job_watcher_opts :: "Config \<Rightarrow> address \<Rightarrow> JobWatcherOpts" where
  "job_watcher_opts cfg worker = \<lparr>jo_Worker = worker, jo_MaxConcurrent = cf_MaxConcurrentJobs cfg, jo_ChunkSize = cf_SortitionChunkSize cfg,
     jo_Confirmations = cf_SortitionConfirmations cfg, jo_SessionRetryLimit = cf_SortitionSessionRetryLimit cfg,
     jo_LookbackBlocks = cf_SortitionSessionLookbackBlocks cfg\<rparr>"

definition advertised_capabilities :: "Config \<Rightarrow> string list" where
  "advertised_capabilities cfg = (if cf_SearchEnabled cfg \<and> cf_TavilyAPIKey cfg \<noteq> [] then [SearchCapability] else [])"

definition buildMetricsServer :: "Config \<Rightarrow> string option" where
  "buildMetricsServer cfg = (if cf_MetricsListenAddr cfg = [] then None else Some (cf_MetricsListenAddr cfg))"

section \<open>New\<close>

datatype resource = RCoordinator | RChainClient | RRedis | RReleaseStore

datatype start_event =
    Opened resource
  | Closed resource
  | StartupReconcile
  | Authenticated
  | FirstBeat
  | SeedCoordinator u64 u64
  | DeclareCapabilities "string list"

record svc_io =
  so_readKeystore :: "go_error option"
  so_decryptKey :: "go_error + address"
  so_loadECDH :: "go_error option"
  so_dialChain :: "go_error option"
  so_validate :: "go_error option"
  so_sessionKeys :: "go_error option"
  so_thinking :: "string list"
  so_BLOB_MODE :: string
  so_redisURL :: "go_error option"
  so_bind :: "go_error option"
  so_releaseStore :: "go_error option"
  so_authenticate :: "go_error option"
  so_emit :: "go_error option"
  so_pendingNonce :: "go_error + u64"
  so_latestNonce :: "go_error + u64"
  so_cursorStore :: "go_error option"
  so_capabilities :: "go_error + int"

record Service =
  sv_cfg :: Config
  sv_workerAddr :: address
  sv_redis :: bool
  sv_monitor :: bool
  sv_asynqQueue :: "string option"
  sv_handler :: HandlerConfig
  sv_checkpoints :: bool
  sv_gwClient :: bool
  sv_gwHandler :: "HandlerConfig option"
  sv_streamPub :: bool
  sv_metricsServer :: "string option"
  sv_advertisedModels :: "string list"
  sv_advertisedCaps :: "string list"
  sv_release :: "Release_Config.Config option"
  sv_sessionWatcher :: "SessionWatcherOpts option"
  sv_jobWatcher :: "JobWatcherOpts option"

text \<open>\<open>StartNilClose\<close>: a method is called on the nil Redis client.\<close>

datatype startup = StartFailed go_error | StartNilClose | Started Service

type_synonym starting = "(start_event list, startup) prog"

definition sv_note :: "start_event \<Rightarrow> (start_event list, unit) prog" where
  "sv_note ev = State (\<lambda>l. ((), l @ [ev]))"

fun close_all :: "resource list \<Rightarrow> (start_event list, unit) prog" where
  "close_all [] = ret ()"
| "close_all (r # rs) = do { sv_note (Closed r); close_all rs }"

definition fail_start :: "resource list \<Rightarrow> go_error \<Rightarrow> starting" where
  "fail_start rs e = do { close_all rs; ret (StartFailed e) }"

definition need :: "go_error option \<Rightarrow> string \<Rightarrow> resource list \<Rightarrow> starting \<Rightarrow> starting" where
  "need r what rs k = (case r of Some e \<Rightarrow> fail_start rs (wrapf what e) | None \<Rightarrow> k)"

definition if_redis :: "bool \<Rightarrow> resource list" where
  "if_redis redisClient = (if redisClient then [RRedis] else [])"

definition seed_coordinator :: "svc_io \<Rightarrow> (start_event list, unit) prog" where
  "seed_coordinator io =
     (case (so_pendingNonce io, so_latestNonce io) of
        (Inr p, Inr l) \<Rightarrow> sv_note (SeedCoordinator p l)
      | _ \<Rightarrow> ret ())"

text \<open>The blob mode; \<open>redisOptions\<close> and the client it opens.\<close>

definition open_redis :: "svc_io \<Rightarrow> (bool \<Rightarrow> starting) \<Rightarrow> starting" where
  "open_redis io k = need (so_redisURL io) ''parse Redis URL'' [RChainClient] (do { sv_note (Opened RRedis); k True })"

definition New_blob :: "svc_io \<Rightarrow> (bool \<Rightarrow> starting) \<Rightarrow> starting" where
  "New_blob io k =
     (let blobMode = strings_ToLower (TrimSpace (so_BLOB_MODE io)) in
      if blobMode = ''redis'' then open_redis io k
      else if blobMode = [] \<or> blobMode = ''beacon'' then k False
      else fail_start [RChainClient] (errorf ''unsupported BLOB_MODE''))"

definition New_watchers :: "svc_io \<Rightarrow> Config \<Rightarrow> Service \<Rightarrow> starting" where
  "New_watchers io cfg svc =
     (if \<not> cf_SortitionEnabled cfg then ret (Started svc)
      else case so_cursorStore io of
        Some e \<Rightarrow>
          if \<not> sv_redis svc then ret StartNilClose
          else fail_start [RRedis, RChainClient] (wrapf ''open sortition cursor store'' e)
      | None \<Rightarrow> do {
          sv_note (DeclareCapabilities (DesiredCapabilities (cf_SearchEnabled cfg \<and> cf_TavilyAPIKey cfg \<noteq> [])));
          let ownCaps = (case so_capabilities io of Inl e \<Rightarrow> 0 | Inr c \<Rightarrow> c);
          ret (Started (svc\<lparr>sv_sessionWatcher := Some (session_watcher_opts cfg (sv_workerAddr svc) ownCaps),
            sv_jobWatcher := Some (job_watcher_opts cfg (sv_workerAddr svc))\<rparr>))
        })"

definition New_gateway :: "svc_io \<Rightarrow> Config \<Rightarrow> (string \<times> string) list \<Rightarrow> Service \<Rightarrow> starting" where
  "New_gateway io cfg names svc =
     need (so_authenticate io) ''authenticate with worker-gateway'' (if_redis (sv_redis svc) @ [RChainClient]) (do {
       sv_note Authenticated;
       seed_coordinator io;
       ret (Started (svc\<lparr>sv_gwClient := True, sv_gwHandler := Some (gateway_handler_config cfg names)\<rparr>))
     })"

definition New_direct :: "(address \<Rightarrow> string) \<Rightarrow> svc_io \<Rightarrow> Config \<Rightarrow> Service \<Rightarrow> starting" where
  "New_direct addrHex io cfg svc = (
     let svc = (if cf_SortitionEnabled cfg then svc else svc\<lparr>sv_asynqQueue := Some (''worker:'' @ strings_ToLower (addrHex (sv_workerAddr svc)))\<rparr>) in
     if sv_redis svc then do {
       sv_note FirstBeat;
       need (so_emit io) ''initial heartbeat write failed'' [RRedis, RChainClient] (do {
         seed_coordinator io; New_watchers io cfg (svc\<lparr>sv_monitor := True\<rparr>) })
     } else do { seed_coordinator io; New_watchers io cfg svc })"

definition New_release :: "(address \<Rightarrow> string) \<Rightarrow> svc_io \<Rightarrow> Config \<Rightarrow> (string \<times> string) list \<Rightarrow> Service \<Rightarrow> starting" where
  "New_release addrHex io cfg names svc =
     need (so_releaseStore io) ''open release store'' (if_redis (sv_redis svc) @ [RChainClient]) (do {
       sv_note (Opened RReleaseStore);
       (if cf_ReleaseEnabled cfg then sv_note StartupReconcile else ret ());
       let svc = (if cf_ReleaseEnabled cfg then svc\<lparr>sv_release := Some (buildReleaseConfig cfg)\<rparr> else svc);
       if cf_SortitionEnabled cfg \<and> cf_WorkerGatewayURL cfg \<noteq> [] then
         need (so_authenticate io) ''authenticate with worker-gateway'' (if_redis (sv_redis svc) @ [RChainClient]) (do {
           sv_note Authenticated;
           New_direct addrHex io cfg (svc\<lparr>sv_gwClient := True, sv_streamPub := True\<rparr>) })
       else if cf_WorkerGatewayURL cfg \<noteq> [] then New_gateway io cfg names svc
       else New_direct addrHex io cfg svc
     })"

definition empty_service :: "Config \<Rightarrow> address \<Rightarrow> byte list list \<Rightarrow> (string \<times> string) list \<Rightarrow> bool \<Rightarrow> Service" where
  "empty_service cfg worker ids names redisClient = \<lparr>sv_cfg = cfg, sv_workerAddr = worker, sv_redis = redisClient, sv_monitor = False, sv_asynqQueue = None,
     sv_handler = service_handler_config cfg names, sv_checkpoints = redisClient, sv_gwClient = False, sv_gwHandler = None, sv_streamPub = False,
     sv_metricsServer = buildMetricsServer cfg, sv_advertisedModels = map modelIDToHex ids, sv_advertisedCaps = advertised_capabilities cfg,
     sv_release = None, sv_sessionWatcher = None, sv_jobWatcher = None\<rparr>"

definition New_chain :: "(address \<Rightarrow> string) \<Rightarrow> svc_io \<Rightarrow> Config \<Rightarrow> address \<Rightarrow> byte list list \<Rightarrow> starting" where
  "New_chain addrHex io cfg worker ids = do {
     sv_note (Opened RCoordinator);
     need (so_dialChain io) ''connect to chain'' [RCoordinator] (do {
       sv_note (Opened RChainClient);
       need (so_validate io) ''validate registration'' [RChainClient] (
       need (so_sessionKeys io) ''create session key store'' [RChainClient] (
       let cfg = (if cf_OllamaReasoningNumPredict cfg > 0
                  then cfg\<lparr>cf_ModelOptions := WithReasoningAllowance (cf_ModelOptions cfg) (so_thinking io) (cf_OllamaNumPredict cfg) (cf_OllamaReasoningNumPredict cfg)\<rparr>
                  else cfg);
           names = modelIDToName ids (cf_SupportedModels cfg)
       in New_blob io (\<lambda>blobRedis.
            let with_redis = (\<lambda>redisClient. need (so_bind io) ''metrics.Bind'' [RChainClient]
                  (New_release addrHex io cfg names (empty_service cfg worker ids names redisClient)))
            in if cf_WorkerGatewayURL cfg = [] \<and> \<not> blobRedis then open_redis io with_redis else with_redis blobRedis)))
     })
   }"

definition service_New :: "config_lib \<Rightarrow> (address \<Rightarrow> string) \<Rightarrow> svc_io \<Rightarrow> Config \<Rightarrow> starting" where
  "service_New lib addrHex io cfg =
     need (so_readKeystore io) ''read keystore'' [] (
     case so_decryptKey io of
       Inl e \<Rightarrow> fail_start [] (wrapf ''decrypt Ethereum keystore'' e)
     | Inr worker \<Rightarrow>
         need (so_loadECDH io) ''load ECDH keystore'' [] (
         case service_model_ids lib (cf_SupportedModels cfg) of
           Inl e \<Rightarrow> fail_start [] e
         | Inr ids \<Rightarrow> New_chain addrHex io cfg worker ids))"

section \<open>Run\<close>

text \<open>How a bounded wait ends: the component returned, or the wait was given up with the component still running.\<close>

datatype wait_end = Returned | TimedOut

datatype run_event =
    RunMetrics | RunScheduler | RunReconciler | RunMonitor | RunGatewayBeat | RunStream | RunSessionWatcher | RunJobWatcher | RunStreamJobs | RunAsynq
  | RunSignal | RunDrain drain_event | JobsDone | JobsCancelled | JobsAbandoned
  | StopMetrics | StopAsynq wait_end | ZeroKeys | StopMonitor wait_end | StopScheduler wait_end | StopReconciler wait_end | CloseStore | CloseRedis | CloseChain | CloseCoordinator

text \<open>
  How the waits end: whether the Asynq server returned before the signal, whether the jobs returned before
  SHUTDOWN\_TIMEOUT and, if not, within the grace after their cancellation; how the queue server's Shutdown ended (it waits
  for its jobs up to a limit of its own and puts the unfinished ones back into the queue); how the waits for the heartbeat monitor, the
  scheduler and the reconciler ended (each is given up when the shutdown context expires); the result of zeroing the session keys; and
  whether the context had expired when shutdown returned, which it has whenever a wait on it was given up.
\<close>

record run_io =
  rn_asynqExit :: "go_error option option"
  rn_jobsInTime :: bool
  rn_jobsInGrace :: bool
  rn_asynqStop :: wait_end
  rn_monitorStop :: wait_end
  rn_schedulerStop :: wait_end
  rn_reconcilerStop :: wait_end
  rn_zeroAll :: "go_error option"
  rn_expired :: bool
  rn_drain :: drain_env

datatype run_result = RunPanic | RunReturned "go_error list"

definition startReleaseSubsystem :: "Service \<Rightarrow> run_event list" where
  "startReleaseSubsystem s = (if sv_release s = None then [] else [RunReconciler, RunScheduler])"

text \<open>\<open>late\<close>: the context had expired before the call. In the three selects both branches may be ready.\<close>

definition gave_up :: "Service \<Rightarrow> run_io \<Rightarrow> bool" where
  "gave_up s io \<longleftrightarrow> sv_monitor s \<and> rn_monitorStop io = TimedOut \<or>
     sv_release s \<noteq> None \<and> (rn_schedulerStop io = TimedOut \<or> rn_reconcilerStop io = TimedOut)"

definition shutdown :: "Service \<Rightarrow> run_io \<Rightarrow> bool \<Rightarrow> go_error list \<times> run_event list" where
  "shutdown s io late =
     ((case rn_zeroAll io of None \<Rightarrow> [] | Some e \<Rightarrow> [wrapf ''zero session keys'' e]) @
      (if late \<or> rn_expired io \<or> gave_up s io then [errorf ''shutdown timeout exceeded''] else []),
      (if sv_metricsServer s \<noteq> None then [StopMetrics] else []) @
      (if sv_asynqQueue s \<noteq> None then [StopAsynq (rn_asynqStop io)] else []) @
      [ZeroKeys] @
      (if sv_monitor s then [StopMonitor (rn_monitorStop io)] else []) @
      (if sv_release s \<noteq> None then [StopScheduler (rn_schedulerStop io), StopReconciler (rn_reconcilerStop io)] else []) @
      [CloseStore] @
      (if sv_redis s then [CloseRedis] else []) @
      [CloseChain, CloseCoordinator])"

definition drained :: "Service \<Rightarrow> run_io \<Rightarrow> bool \<Rightarrow> run_event list" where
  "drained s io gatewayMode = map RunDrain (markDrainOnShutdown (Some (sv_cfg s)) (sv_gwClient s) (sv_redis s) True gatewayMode (rn_drain io))"

definition runSortitionMode :: "Service \<Rightarrow> run_io \<Rightarrow> run_result \<times> run_event list" where
  "runSortitionMode s io =
     (case sv_jobWatcher s of
        None \<Rightarrow> (RunPanic, [])
      | Some jw \<Rightarrow>
          (let waits = (if rn_jobsInTime io then [JobsDone]
                        else JobsCancelled # [if rn_jobsInGrace io then JobsDone else JobsAbandoned]);
               (errs, stops) = shutdown s io (\<not> rn_jobsInTime io)
           in (RunReturned errs,
               startReleaseSubsystem s @ (if sv_monitor s then [RunMonitor] else []) @ (if sv_gwClient s then [RunGatewayBeat] else []) @
               (if sv_streamPub s then [RunStream] else []) @ [RunSessionWatcher, RunJobWatcher, RunSignal] @
               drained s io (sv_gwClient s) @ waits @ stops)))"

definition runGatewayMode :: "Service \<Rightarrow> run_io \<Rightarrow> run_result \<times> run_event list" where
  "runGatewayMode s io =
     (case sv_gwHandler s of
        None \<Rightarrow> (RunPanic, [])
      | Some hc \<Rightarrow>
          (let (errs, stops) = shutdown s io False
           in (RunReturned errs, startReleaseSubsystem s @ [RunGatewayBeat, RunStreamJobs, RunSignal] @ drained s io True @ stops)))"

definition runDirectMode :: "Service \<Rightarrow> run_io \<Rightarrow> run_result \<times> run_event list" where
  "runDirectMode s io =
     (if \<not> sv_monitor s \<or> sv_asynqQueue s = None then (RunPanic, [])
      else
        (let runErr = (case rn_asynqExit io of
               None \<Rightarrow> []
             | Some (Some e) \<Rightarrow> [wrapf ''asynq server'' e]
             | Some None \<Rightarrow> [errorf ''asynq server exited unexpectedly'']);
             (errs, stops) = shutdown s io False
         in (RunReturned (runErr @ errs), [RunMonitor] @ startReleaseSubsystem s @ [RunAsynq, RunSignal] @ drained s io False @ stops)))"

definition service_Run :: "Service \<Rightarrow> run_io \<Rightarrow> run_result \<times> run_event list" where
  "service_Run s io =
     (let (r, evs) = (if sv_sessionWatcher s \<noteq> None then runSortitionMode s io
                      else if sv_gwClient s then runGatewayMode s io
                      else runDirectMode s io)
      in (r, (if sv_metricsServer s \<noteq> None then [RunMetrics] else []) @ evs))"

text \<open>The process exit code; \<open>None\<close> is a crash.\<close>

definition service_Main :: "config_lib \<Rightarrow> (address \<Rightarrow> string) \<Rightarrow> environment \<Rightarrow> svc_io \<Rightarrow> run_io \<Rightarrow> nat option" where
  "service_Main lib addrHex env io rio =
     (case Load lib env of
        Inl e \<Rightarrow> Some 1
      | Inr cfg \<Rightarrow>
          if Validate lib cfg \<noteq> [] then Some 1
          else case fst (run_state (service_New lib addrHex io cfg) []) of
            StartFailed e \<Rightarrow> Some 1
          | StartNilClose \<Rightarrow> None
          | Started s \<Rightarrow>
              (case fst (service_Run s rio) of RunPanic \<Rightarrow> None | RunReturned errs \<Rightarrow> Some (if errs = [] then 0 else 1)))"

section \<open>Heartbeat and answers over the gateway\<close>

definition gatewayHeartbeatPayload :: "int \<Rightarrow> Service \<Rightarrow> int \<Rightarrow> string \<Rightarrow> int \<Rightarrow> gw_heartbeat" where
  "gatewayHeartbeatPayload protocolVersion s jobs ollamaStatus uptime = \<lparr>gh_ActiveJobs = jobs, gh_MaxJobs = cf_MaxConcurrentJobs (sv_cfg s),
     gh_Models = sv_advertisedModels s, gh_Capabilities = sv_advertisedCaps s, gh_ProtocolVersion = protocolVersion,
     gh_OllamaStatus = ollamaStatus, gh_Uptime = go_div uptime Second\<rparr>"

record 'c gateway_pub =
  gp_client :: "'c gw_st"
  gp_handed :: "PubSubMessage list"
  gp_failures :: nat

definition gp_PublishResponse :: "frame_lib \<Rightarrow> gw_lib \<Rightarrow> 'c gw_net \<Rightarrow> int \<Rightarrow> u64 \<Rightarrow> u64 \<Rightarrow> string \<Rightarrow> string \<Rightarrow> byte list \<Rightarrow> u32 \<Rightarrow> 'c gateway_pub \<Rightarrow> 'c gateway_pub" where
  "gp_PublishResponse fk lib net now jobID sessionID corr signature ciphertext totalFrames p =
     (let total = at_least_one totalFrames;
          (err, client) = run_state (gw_PublishResponse lib net jobID sessionID corr signature ciphertext total total) (gp_client p)
      in p\<lparr>gp_client := client, gp_handed := gp_handed p @ [frame_of fk now (CallResponse jobID sessionID corr signature ciphertext total)],
           gp_failures := gp_failures p + (if err = None then 0 else 1)\<rparr>)"

text \<open>Metadata, error and chunk frames are not sent: the endpoint makes every frame a final one.\<close>

fun gp_call :: "frame_lib \<Rightarrow> gw_lib \<times> 'c gw_net \<times> int \<Rightarrow> pub_call \<Rightarrow> 'c gateway_pub \<Rightarrow> 'c gateway_pub" where
  "gp_call fk (lib, net, now) (CallResponse j i c sig b n) p = gp_PublishResponse fk lib net now j i c sig b n p"
| "gp_call fk (lib, net, now) (CallMetadata j i c b) p = p"
| "gp_call fk (lib, net, now) (CallError j i c) p = p"
| "gp_call fk (lib, net, now) (CallChunk j i c n k b) p = p"

interpretation gateway: frame_plane "gp_call fk" gp_handed "\<lambda>e c. frame_of fk (snd (snd e)) c" for fk
proof
  fix e :: "gw_lib \<times> 'c gw_net \<times> int" and c s
  obtain lib net now where e: "e = (lib, net, now)" by (metis surj_pair)
  show "gp_handed (gp_call fk e c s) \<in> {gp_handed s, gp_handed s @ [frame_of fk (snd (snd e)) c]}"
    by (cases c) (simp_all add: e gp_PublishResponse_def Let_def split: prod.split)
  show "is_response c \<Longrightarrow> gp_handed (gp_call fk e c s) = gp_handed s @ [frame_of fk (snd (snd e)) c]"
    by (cases c) (simp_all add: e gp_PublishResponse_def Let_def split: prod.split)
qed simp

section \<open>What starts\<close>

lemma wp_sv_note [wp_simps]: "wp (sv_note ev) Q = (\<lambda>l. Q () (l @ [ev]))"
  by (simp add: wp_def sv_note_def fun_eq_iff)

lemma wp_close_all [wp_simps]: "wp (close_all rs) Q = (\<lambda>l. Q () (l @ map Closed rs))"
  by (induction rs arbitrary: Q) (simp_all add: wp_simps fun_eq_iff)

lemma wp_need [wp_simps]:
  "wp (need r what rs k) Q = (case r of None \<Rightarrow> wp k Q | Some e \<Rightarrow> (\<lambda>l. Q (StartFailed (wrapf what e)) (l @ map Closed rs)))"
  by (simp add: need_def fail_start_def wp_simps split: option.split)

lemma wp_fail_start [wp_simps]: "wp (fail_start rs e) Q = (\<lambda>l. Q (StartFailed e) (l @ map Closed rs))"
  by (simp add: fail_start_def wp_simps)

definition opened :: "start_event list \<Rightarrow> resource set" where
  "opened l = {r. Opened r \<in> set l}"

definition shut :: "start_event list \<Rightarrow> resource set" where
  "shut l = {r. Closed r \<in> set l}"

lemma opened_simps [simp]:
  "opened [] = {}" "opened (l @ m) = opened l \<union> opened m" "opened (Opened r # l) = insert r (opened l)" "opened (Closed r # l) = opened l"
  "opened (StartupReconcile # l) = opened l" "opened (Authenticated # l) = opened l" "opened (FirstBeat # l) = opened l"
  "opened (SeedCoordinator p q # l) = opened l" "opened (DeclareCapabilities cs # l) = opened l"
  by (auto simp: opened_def)

lemma shut_simps [simp]:
  "shut [] = {}" "shut (l @ m) = shut l \<union> shut m" "shut (Opened r # l) = shut l" "shut (Closed r # l) = insert r (shut l)"
  "shut (StartupReconcile # l) = shut l" "shut (Authenticated # l) = shut l" "shut (FirstBeat # l) = shut l"
  "shut (SeedCoordinator p q # l) = shut l" "shut (DeclareCapabilities cs # l) = shut l"
  by (auto simp: shut_def)

lemma closing [simp]: "opened (map Closed rs) = {}" "shut (map Closed rs) = set rs"
  by (auto simp: opened_def shut_def)

text \<open>The components of the four profiles: direct, gateway, sortition, and sortition with the gateway for egress.\<close>

definition profile_ok :: "Config \<Rightarrow> Service \<Rightarrow> bool" where
  "profile_ok cfg s \<longleftrightarrow>
     (sv_sessionWatcher s \<noteq> None \<longleftrightarrow> cf_SortitionEnabled cfg) \<and> (sv_jobWatcher s \<noteq> None \<longleftrightarrow> cf_SortitionEnabled cfg) \<and>
     (sv_gwClient s \<longleftrightarrow> cf_WorkerGatewayURL cfg \<noteq> []) \<and> (sv_streamPub s \<longleftrightarrow> cf_SortitionEnabled cfg \<and> cf_WorkerGatewayURL cfg \<noteq> []) \<and>
     (sv_gwHandler s \<noteq> None \<longleftrightarrow> \<not> cf_SortitionEnabled cfg \<and> cf_WorkerGatewayURL cfg \<noteq> []) \<and>
     (sv_asynqQueue s \<noteq> None \<longleftrightarrow> \<not> cf_SortitionEnabled cfg \<and> cf_WorkerGatewayURL cfg = []) \<and>
     (sv_monitor s \<longleftrightarrow> sv_redis s \<and> (cf_SortitionEnabled cfg \<or> cf_WorkerGatewayURL cfg = [])) \<and>
     (cf_WorkerGatewayURL cfg = [] \<longrightarrow> sv_redis s) \<and> (sv_release s \<noteq> None \<longleftrightarrow> cf_ReleaseEnabled cfg)"

definition start_ok :: "svc_io \<Rightarrow> Config \<Rightarrow> startup \<Rightarrow> start_event list \<Rightarrow> bool" where
  "start_ok io cfg r l = (case r of
     Started s \<Rightarrow> opened l = {RCoordinator, RChainClient, RReleaseStore} \<union> set (if_redis (sv_redis s)) \<and> shut l = {} \<and> profile_ok cfg s
   | StartFailed e \<Rightarrow> (RChainClient \<in> opened l \<longrightarrow> RChainClient \<in> shut l) \<and> (RRedis \<in> opened l \<and> so_bind io = None \<longrightarrow> RRedis \<in> shut l)
   | StartNilClose \<Rightarrow> cf_SortitionEnabled cfg \<and> cf_WorkerGatewayURL cfg \<noteq> [] \<and> strings_ToLower (TrimSpace (so_BLOB_MODE io)) \<noteq> ''redis'' \<and> so_cursorStore io \<noteq> None)"

definition holding :: "bool \<Rightarrow> resource set \<Rightarrow> start_event list \<Rightarrow> bool" where
  "holding redis rs l \<longleftrightarrow> opened l = rs \<union> set (if_redis redis) \<and> shut l = {}"

lemma holding_frame [simp]:
  "holding b rs (l @ [StartupReconcile]) = holding b rs l" "holding b rs (l @ [Authenticated]) = holding b rs l" "holding b rs (l @ [FirstBeat]) = holding b rs l"
  "holding b rs (l @ [SeedCoordinator p q]) = holding b rs l" "holding b rs (l @ [DeclareCapabilities cs]) = holding b rs l"
  by (simp_all add: holding_def)

lemma holding_opens: "holding b rs l \<Longrightarrow> holding b (insert RReleaseStore rs) (l @ [Opened RReleaseStore])"
  by (simp add: holding_def)

text \<open>No Redis client in the external profile means that the blob mode is not redis.\<close>

definition redis_known :: "svc_io \<Rightarrow> Config \<Rightarrow> bool \<Rightarrow> bool" where
  "redis_known io cfg redis \<longleftrightarrow> (redis \<longleftrightarrow> cf_WorkerGatewayURL cfg = [] \<or> strings_ToLower (TrimSpace (so_BLOB_MODE io)) = ''redis'')"

lemma failed_ok: "holding b rs l \<Longrightarrow> RRedis \<notin> rs \<Longrightarrow> start_ok io cfg (StartFailed e) (l @ map Closed (if_redis b @ [RChainClient]))"
  by (auto simp: holding_def start_ok_def if_redis_def)

abbreviation running :: "resource set" where
  "running \<equiv> {RCoordinator, RChainClient, RReleaseStore}"

lemma watchers_ok:
  assumes "holding (sv_redis s) running l" "redis_known io cfg (sv_redis s)"
    "sv_sessionWatcher s = None" "sv_jobWatcher s = None" "sv_gwHandler s = None" "sv_gwClient s \<longleftrightarrow> cf_WorkerGatewayURL cfg \<noteq> []"
    "sv_streamPub s \<longleftrightarrow> cf_SortitionEnabled cfg \<and> cf_WorkerGatewayURL cfg \<noteq> []" "sv_asynqQueue s \<noteq> None \<longleftrightarrow> \<not> cf_SortitionEnabled cfg"
    "sv_monitor s = sv_redis s" "sv_release s \<noteq> None \<longleftrightarrow> cf_ReleaseEnabled cfg" "cf_SortitionEnabled cfg \<or> cf_WorkerGatewayURL cfg = []"
  shows "wp (New_watchers io cfg s) (start_ok io cfg) l"
  using assms failed_ok [of True running l io cfg]
  by (auto simp: New_watchers_def wp_simps start_ok_def profile_ok_def holding_def redis_known_def if_redis_def Let_def split: option.split)

lemma wp_seed [wp_simps]:
  "wp (seed_coordinator io) Q = (\<lambda>l. Q () (l @ (case (so_pendingNonce io, so_latestNonce io) of (Inr p, Inr q) \<Rightarrow> [SeedCoordinator p q] | _ \<Rightarrow> [])))"
  by (simp add: seed_coordinator_def wp_simps split: sum.split)

lemma holding_extend: "opened m = {} \<Longrightarrow> shut m = {} \<Longrightarrow> holding b rs (l @ m) = holding b rs l"
  by (simp add: holding_def)

lemma quiet_seed [simp]:
  "opened (case x of Inl e \<Rightarrow> [] | Inr p \<Rightarrow> (case y of Inl e \<Rightarrow> [] | Inr q \<Rightarrow> [SeedCoordinator p q])) = {}"
  "shut (case x of Inl e \<Rightarrow> [] | Inr p \<Rightarrow> (case y of Inl e \<Rightarrow> [] | Inr q \<Rightarrow> [SeedCoordinator p q])) = {}"
  by (simp_all split: sum.split)

definition bare :: "Config \<Rightarrow> Service \<Rightarrow> bool" where
  "bare cfg s \<longleftrightarrow> sv_sessionWatcher s = None \<and> sv_jobWatcher s = None \<and> sv_gwHandler s = None \<and> sv_asynqQueue s = None \<and> \<not> sv_monitor s \<and>
     (sv_release s \<noteq> None \<longleftrightarrow> cf_ReleaseEnabled cfg)"

lemma direct_ok:
  assumes "holding (sv_redis s) running l" "redis_known io cfg (sv_redis s)" "bare cfg s" "sv_gwClient s \<longleftrightarrow> cf_WorkerGatewayURL cfg \<noteq> []"
    "sv_streamPub s \<longleftrightarrow> cf_SortitionEnabled cfg \<and> cf_WorkerGatewayURL cfg \<noteq> []" "cf_SortitionEnabled cfg \<or> cf_WorkerGatewayURL cfg = []"
  shows "wp (New_direct addrHex io cfg s) (start_ok io cfg) l"
proof -
  define s1 where "s1 = (if cf_SortitionEnabled cfg then s else s\<lparr>sv_asynqQueue := Some (''worker:'' @ strings_ToLower (addrHex (sv_workerAddr s)))\<rparr>)"
  have s1: "sv_redis s1 = sv_redis s" "bare cfg (s1\<lparr>sv_asynqQueue := None\<rparr>)" "sv_gwClient s1 = sv_gwClient s" "sv_streamPub s1 = sv_streamPub s"
    "sv_asynqQueue s1 \<noteq> None \<longleftrightarrow> \<not> cf_SortitionEnabled cfg" "\<not> sv_monitor s1"
    using assms(3) by (simp_all add: s1_def bare_def)
  have new: "New_direct addrHex io cfg s = (if sv_redis s1 then do {
       sv_note FirstBeat;
       need (so_emit io) ''initial heartbeat write failed'' [RRedis, RChainClient] (do {
         seed_coordinator io; New_watchers io cfg (s1\<lparr>sv_monitor := True\<rparr>) })
     } else do { seed_coordinator io; New_watchers io cfg s1 })"
    by (simp add: New_direct_def s1_def Let_def)
  have watch: "wp (New_watchers io cfg s2) (start_ok io cfg) (l @ m)"
    if "s2 \<in> {s1, s1\<lparr>sv_monitor := True\<rparr>}" "sv_monitor s2 = sv_redis s2" "opened m = {}" "shut m = {}" for s2 m
  proof (rule watchers_ok)
    show "sv_sessionWatcher s2 = None" "sv_jobWatcher s2 = None" "sv_gwHandler s2 = None" "sv_gwClient s2 = (cf_WorkerGatewayURL cfg \<noteq> [])"
      "sv_streamPub s2 = (cf_SortitionEnabled cfg \<and> cf_WorkerGatewayURL cfg \<noteq> [])" "(sv_asynqQueue s2 \<noteq> None) = (\<not> cf_SortitionEnabled cfg)"
      "(sv_release s2 \<noteq> None) = cf_ReleaseEnabled cfg"
      using that(1) s1(2-5) assms(4,5) unfolding bare_def by auto
    have r: "sv_redis s2 = sv_redis s" using that(1) s1(1) by auto
    show "holding (sv_redis s2) running (l @ m)" "redis_known io cfg (sv_redis s2)" using assms(1,2) that(3,4) by (simp_all add: r holding_extend)
  qed (use that(2) assms(6) in simp_all)
  show ?thesis
  proof (cases "sv_redis s1")
    case True
    then show ?thesis using failed_ok [of True running "l @ [FirstBeat]" io cfg] assms(1) s1(1)
      by (cases "so_emit io") (simp_all add: new wp_simps if_redis_def, rule watch, simp_all)
  next
    case False
    then show ?thesis using s1(6) by (simp add: new wp_simps) (rule watch, simp_all)
  qed
qed

lemma gateway_ok:
  assumes "holding (sv_redis s) running l" "bare cfg s" "\<not> sv_streamPub s" "\<not> cf_SortitionEnabled cfg" "cf_WorkerGatewayURL cfg \<noteq> []"
  shows "wp (New_gateway io cfg names s) (start_ok io cfg) l"
proof (cases "so_authenticate io")
  case None
  then show ?thesis using assms
    by (simp add: New_gateway_def wp_simps start_ok_def profile_ok_def bare_def holding_def)
next
  case (Some e)
  then show ?thesis using failed_ok [OF assms(1)] by (simp add: New_gateway_def wp_simps)
qed

lemma release_ok:
  assumes "holding (sv_redis s) {RCoordinator, RChainClient} l" "redis_known io cfg (sv_redis s)" "bare cfg (s\<lparr>sv_release := if cf_ReleaseEnabled cfg then Some (buildReleaseConfig cfg) else None\<rparr>)"
    "sv_release s = None" "\<not> sv_gwClient s" "\<not> sv_streamPub s"
  shows "wp (New_release addrHex io cfg names s) (start_ok io cfg) l"
proof (cases "so_releaseStore io")
  case (Some e)
  then show ?thesis using failed_ok [OF assms(1)] by (simp add: New_release_def wp_simps)
next
  case None
  define s1 where "s1 = (if cf_ReleaseEnabled cfg then s\<lparr>sv_release := Some (buildReleaseConfig cfg)\<rparr> else s)"
  define l1 where "l1 = l @ [Opened RReleaseStore] @ (if cf_ReleaseEnabled cfg then [StartupReconcile] else [])"
  have s1: "sv_redis s1 = sv_redis s" "bare cfg s1" "\<not> sv_gwClient s1" "\<not> sv_streamPub s1"
    using assms(3-6) by (simp_all add: s1_def bare_def split: if_splits)
  have l1: "holding (sv_redis s1) running l1" using assms(1) by (auto simp: l1_def holding_def s1)
  let ?rest = "if cf_SortitionEnabled cfg \<and> cf_WorkerGatewayURL cfg \<noteq> [] then
         need (so_authenticate io) ''authenticate with worker-gateway'' (if_redis (sv_redis s1) @ [RChainClient]) (do {
           sv_note Authenticated;
           New_direct addrHex io cfg (s1\<lparr>sv_gwClient := True, sv_streamPub := True\<rparr>) })
       else if cf_WorkerGatewayURL cfg \<noteq> [] then New_gateway io cfg names s1
       else New_direct addrHex io cfg s1"
  have ext: "wp (New_direct addrHex io cfg (s1\<lparr>sv_gwClient := True, sv_streamPub := True\<rparr>)) (start_ok io cfg) (l1 @ [Authenticated])"
    if "cf_SortitionEnabled cfg" "cf_WorkerGatewayURL cfg \<noteq> []"
    by (rule direct_ok) (use that l1 s1 assms(2) in \<open>simp_all add: bare_def\<close>)
  have dir: "wp (New_direct addrHex io cfg s1) (start_ok io cfg) l1" if "cf_WorkerGatewayURL cfg = []"
    by (rule direct_ok) (use that l1 s1 assms(2) in simp_all)
  have "wp ?rest (start_ok io cfg) l1"
    using ext dir gateway_ok [OF l1 s1(2,4)] failed_ok [OF l1] by (auto simp: wp_simps split: option.split)
  then show ?thesis using None
    by (cases "cf_ReleaseEnabled cfg"; cases "cf_SortitionEnabled cfg"; cases "cf_WorkerGatewayURL cfg = []") (simp_all add: New_release_def wp_simps l1_def s1_def Let_def)
qed

lemma start_ok_cong:
  "cf_SortitionEnabled cfg' = cf_SortitionEnabled cfg \<Longrightarrow> cf_WorkerGatewayURL cfg' = cf_WorkerGatewayURL cfg \<Longrightarrow> cf_ReleaseEnabled cfg' = cf_ReleaseEnabled cfg \<Longrightarrow>
   start_ok io cfg' = start_ok io cfg"
  by (simp add: start_ok_def profile_ok_def fun_eq_iff cong: startup.case_cong)

lemma chain_ok: "wp (New_chain addrHex io cfg worker ids) (start_ok io cfg) []"
proof -
  define cfg1 where "cfg1 = (if cf_OllamaReasoningNumPredict cfg > 0
                  then cfg\<lparr>cf_ModelOptions := WithReasoningAllowance (cf_ModelOptions cfg) (so_thinking io) (cf_OllamaNumPredict cfg) (cf_OllamaReasoningNumPredict cfg)\<rparr>
                  else cfg)"
  have "start_ok io cfg1 = start_ok io cfg" by (rule start_ok_cong) (simp_all add: cfg1_def)
  then have cfg1: "start_ok io cfg1 = start_ok io cfg" "redis_known io cfg1 = redis_known io cfg" "cf_WorkerGatewayURL cfg1 = cf_WorkerGatewayURL cfg"
    by (simp_all add: cfg1_def redis_known_def fun_eq_iff)
  let ?l = "[Opened RCoordinator, Opened RChainClient]"
  let ?names = "modelIDToName ids (cf_SupportedModels cfg1)"
  let ?go = "\<lambda>b. need (so_bind io) ''metrics.Bind'' [RChainClient] (New_release addrHex io cfg1 ?names (empty_service cfg1 worker ids ?names b))"
  have go: "wp (?go b) (start_ok io cfg) (?l @ map Opened (if_redis b))" if "redis_known io cfg b" for b
  proof -
    have "wp (New_release addrHex io cfg1 ?names (empty_service cfg1 worker ids ?names b)) (start_ok io cfg1) (?l @ map Opened (if_redis b))"
      by (rule release_ok) (use that cfg1(2) in \<open>auto simp: empty_service_def holding_def if_redis_def bare_def\<close>)
    then show ?thesis by (cases "so_bind io") (simp_all add: wp_simps cfg1 start_ok_def if_redis_def)
  qed
  have dial: "wp (open_redis io ?go) (start_ok io cfg) ?l" if "redis_known io cfg True"
    using go [OF that] by (cases "so_redisURL io") (simp_all add: open_redis_def wp_simps if_redis_def start_ok_def)
  have "wp (New_blob io (\<lambda>b. if cf_WorkerGatewayURL cfg1 = [] \<and> \<not> b then open_redis io ?go else ?go b)) (start_ok io cfg) ?l"
  proof -
    consider (redis) "strings_ToLower (TrimSpace (so_BLOB_MODE io)) = ''redis''"
      | (beacon) "strings_ToLower (TrimSpace (so_BLOB_MODE io)) \<in> {[], ''beacon''}" | (bad) "strings_ToLower (TrimSpace (so_BLOB_MODE io)) \<notin> {''redis'', [], ''beacon''}" by blast
    then show ?thesis
    proof cases
      case redis
      then show ?thesis using dial by (simp add: New_blob_def open_redis_def redis_known_def)
    next
      case beacon
      then have "redis_known io cfg (cf_WorkerGatewayURL cfg = [])" by (auto simp: redis_known_def)
      then show ?thesis using beacon dial go [of False]
        by (cases "cf_WorkerGatewayURL cfg = []") (auto simp: New_blob_def cfg1(3) if_redis_def)
    next
      case bad
      then show ?thesis by (simp add: New_blob_def wp_simps start_ok_def)
    qed
  qed
  then show ?thesis
    by (simp add: New_chain_def wp_simps cfg1_def [symmetric] Let_def start_ok_def split: option.split)
qed

lemma New_ok: "run_state (service_New lib addrHex io cfg) [] = (r, l) \<Longrightarrow> start_ok io cfg r l"
proof -
  have "wp (service_New lib addrHex io cfg) (start_ok io cfg) []"
    using chain_ok [of addrHex io cfg] by (auto simp: service_New_def wp_simps start_ok_def split: option.split sum.split)
  then show "run_state (service_New lib addrHex io cfg) [] = (r, l) \<Longrightarrow> start_ok io cfg r l" by (rule wp_run)
qed

section \<open>What stops\<close>

definition before :: "run_event \<Rightarrow> run_event list \<Rightarrow> run_event set" where
  "before x evs = set (takeWhile (\<lambda>e. e \<noteq> x) evs)"

lemma before_Nil [simp]: "before x [] = {}"
  by (simp add: before_def)

lemma before_Cons [simp]: "before x (e # es) = (if e = x then {} else insert e (before x es))"
  by (cases "e = x") (simp_all add: before_def)

lemma before_append [simp]: "before x (xs @ ys) = (if x \<in> set xs then before x xs else set xs \<union> before x ys)"
  by (induction xs) auto

lemma drained_events: "set (drained s io g) \<subseteq> range RunDrain"
  by (auto simp: drained_def)

lemma drained_other [simp]:
  "x \<notin> range RunDrain \<Longrightarrow> x \<notin> set (drained s io g)"
  using drained_events by blast

lemma drain_marks:
  "set (drained s io (sv_gwClient s)) = (if sv_gwClient s then {RunDrain GatewayDrain} else if sv_redis s then {RunDrain (SetDraining (svc_computeDrainTTL (Some (sv_cfg s)) True (rn_drain io)))} else {})"
  "set (drained s io True) = (if sv_gwClient s then {RunDrain GatewayDrain} else {})"
  "set (drained s io False) = (if sv_redis s then {RunDrain (SetDraining (svc_computeDrainTTL (Some (sv_cfg s)) True (rn_drain io)))} else {})"
  by (simp_all add: drained_def markDrainOnShutdown_def)

text \<open>
  The order of a stop: the worker was advertised before the signal; the drain marker is written, and the jobs are waited for as the
  profile does, before the session keys are zeroed; whatever uses the store, Redis or the chain has been waited for before
  these are closed, in this order, and the coordinator last.
\<close>

definition job_wait :: "Config \<Rightarrow> run_io \<Rightarrow> run_event set" where
  "job_wait cfg io =
     (if cf_SortitionEnabled cfg then {if rn_jobsInTime io \<or> rn_jobsInGrace io then JobsDone else JobsAbandoned}
      else if cf_WorkerGatewayURL cfg \<noteq> [] then {}
      else {StopAsynq (rn_asynqStop io)})"

abbreviation job_waits :: "run_event set" where
  "job_waits \<equiv> {JobsDone, JobsAbandoned} \<union> range StopAsynq"

definition stops_in_order :: "Config \<Rightarrow> Service \<Rightarrow> run_io \<Rightarrow> run_event list \<Rightarrow> bool" where
  "stops_in_order cfg s io evs \<longleftrightarrow>
     before RunSignal evs \<inter> {RunMonitor, RunGatewayBeat} \<noteq> {} \<and>
     before ZeroKeys evs \<inter> range RunDrain = (if cf_WorkerGatewayURL cfg \<noteq> [] then {RunDrain GatewayDrain}
       else {RunDrain (SetDraining (svc_computeDrainTTL (Some (sv_cfg s)) True (rn_drain io)))}) \<and>
     before ZeroKeys evs \<inter> job_waits = job_wait cfg io \<and>
     before CloseStore evs \<supseteq> {RunSignal, ZeroKeys} \<union> (if sv_monitor s then {StopMonitor (rn_monitorStop io)} else {}) \<union>
       (if cf_ReleaseEnabled cfg then {RunScheduler, RunReconciler, StopScheduler (rn_schedulerStop io), StopReconciler (rn_reconcilerStop io)} else {}) \<and>
     before CloseChain evs \<supseteq> insert CloseStore (before CloseStore evs) \<union> (if sv_redis s then {CloseRedis} else {}) \<and>
     (\<exists>us. evs = us @ [CloseChain, CloseCoordinator] \<and> CloseChain \<notin> set us \<and> CloseCoordinator \<notin> set us)"

lemma shutdown_events:
  "before ZeroKeys (snd (shutdown s io t)) = (if sv_metricsServer s \<noteq> None then {StopMetrics} else {}) \<union> (if sv_asynqQueue s \<noteq> None then {StopAsynq (rn_asynqStop io)} else {})"
  "before CloseStore (snd (shutdown s io t)) \<supseteq> {ZeroKeys} \<union> (if sv_monitor s then {StopMonitor (rn_monitorStop io)} else {}) \<union>
     (if sv_release s \<noteq> None then {StopScheduler (rn_schedulerStop io), StopReconciler (rn_reconcilerStop io)} else {})"
  "before CloseChain (snd (shutdown s io t)) \<supseteq> insert CloseStore (before CloseStore (snd (shutdown s io t))) \<union> (if sv_redis s then {CloseRedis} else {})"
  "\<exists>us. snd (shutdown s io t) = us @ [CloseChain, CloseCoordinator] \<and> CloseChain \<notin> set us \<and> CloseCoordinator \<notin> set us"
proof -
  show "before CloseChain (snd (shutdown s io t)) \<supseteq> insert CloseStore (before CloseStore (snd (shutdown s io t))) \<union> (if sv_redis s then {CloseRedis} else {})"
    by (auto simp: shutdown_def split: if_splits)
qed (simp_all add: shutdown_def)

abbreviation starts :: "run_event set" where
  "starts \<equiv> {RunMetrics, RunScheduler, RunReconciler, RunMonitor, RunGatewayBeat, RunStream, RunSessionWatcher, RunJobWatcher, RunStreamJobs, RunAsynq}"

lemma stops_parts:
  assumes evs: "evs = pre @ RunSignal # d @ w @ snd (shutdown s io t)" and pre: "set pre \<subseteq> starts" and w: "set w \<subseteq> {JobsDone, JobsCancelled, JobsAbandoned}"
    and adv: "set pre \<inter> {RunMonitor, RunGatewayBeat} \<noteq> {}" and rel: "sv_release s \<noteq> None \<Longrightarrow> {RunScheduler, RunReconciler} \<subseteq> set pre" "sv_release s \<noteq> None \<longleftrightarrow> cf_ReleaseEnabled cfg"
    and d: "set d = (if cf_WorkerGatewayURL cfg \<noteq> [] then {RunDrain GatewayDrain} else {RunDrain (SetDraining (svc_computeDrainTTL (Some (sv_cfg s)) True (rn_drain io)))})"
    and jw: "set w \<inter> {JobsDone, JobsAbandoned} \<union> (if sv_asynqQueue s \<noteq> None then {StopAsynq (rn_asynqStop io)} else {}) = job_wait cfg io"
  shows "stops_in_order cfg s io evs"
proof -
  let ?stops = "snd (shutdown s io t)"
  have split: "before x evs = set pre \<union> {RunSignal} \<union> set d \<union> set w \<union> before x ?stops" and out: "x \<notin> set pre \<union> {RunSignal} \<union> set d \<union> set w"
    if "x \<in> {ZeroKeys, CloseStore, CloseChain, CloseCoordinator}" for x
  proof -
    have x: "x \<notin> starts" "x \<notin> {JobsDone, JobsCancelled, JobsAbandoned}" "x \<noteq> RunSignal" "x \<notin> range RunDrain" using that by auto
    then have "x \<notin> set pre" "x \<notin> set w" "x \<notin> set d" using pre w d by (auto split: if_splits)
    then show "before x evs = set pre \<union> {RunSignal} \<union> set d \<union> set w \<union> before x ?stops" "x \<notin> set pre \<union> {RunSignal} \<union> set d \<union> set w"
      using x(3) unfolding evs by auto
  qed
  have "RunSignal \<notin> set pre" using pre by auto
  then have "before RunSignal evs = set pre" unfolding evs by simp
  moreover have "before ZeroKeys evs \<inter> range RunDrain = set d"
    using pre w d unfolding split [of ZeroKeys, simplified] shutdown_events(1) by (auto split: if_splits)
  moreover have "before ZeroKeys evs \<inter> job_waits = job_wait cfg io"
    using pre w d unfolding split [of ZeroKeys, simplified] shutdown_events(1) jw [symmetric] by (auto split: if_splits)
  moreover have "before CloseStore evs \<supseteq> {RunSignal, ZeroKeys} \<union> (if sv_monitor s then {StopMonitor (rn_monitorStop io)} else {}) \<union>
       (if cf_ReleaseEnabled cfg then {RunScheduler, RunReconciler, StopScheduler (rn_schedulerStop io), StopReconciler (rn_reconcilerStop io)} else {})"
    using shutdown_events(2) [of s io t] rel unfolding split [of CloseStore, simplified] by (auto split: if_splits)
  moreover have "before CloseChain evs \<supseteq> insert CloseStore (before CloseStore evs) \<union> (if sv_redis s then {CloseRedis} else {})"
    using shutdown_events(3) [of s io t] unfolding split [of CloseStore, simplified] split [of CloseChain, simplified] by blast
  moreover have "\<exists>us. evs = us @ [CloseChain, CloseCoordinator] \<and> CloseChain \<notin> set us \<and> CloseCoordinator \<notin> set us"
  proof -
    obtain us where us: "?stops = us @ [CloseChain, CloseCoordinator]" "CloseChain \<notin> set us" "CloseCoordinator \<notin> set us" using shutdown_events(4) by blast
    then show ?thesis using out [of CloseChain] out [of CloseCoordinator] unfolding evs
      by (intro exI [of _ "pre @ RunSignal # d @ w @ us"]) auto
  qed
  ultimately show ?thesis using adv d unfolding stops_in_order_def by simp
qed

text \<open>Run ends without an error: the keys were zeroed, no wait on the context was given up, and the queue server did not end by itself.\<close>

definition clean_run :: "Config \<Rightarrow> Service \<Rightarrow> run_io \<Rightarrow> bool" where
  "clean_run cfg s io \<longleftrightarrow> rn_zeroAll io = None \<and> \<not> rn_expired io \<and> (cf_SortitionEnabled cfg \<longrightarrow> rn_jobsInTime io) \<and>
     (sv_monitor s \<longrightarrow> rn_monitorStop io = Returned) \<and>
     (cf_ReleaseEnabled cfg \<longrightarrow> rn_schedulerStop io = Returned \<and> rn_reconcilerStop io = Returned) \<and>
     (\<not> cf_SortitionEnabled cfg \<and> cf_WorkerGatewayURL cfg = [] \<longrightarrow> rn_asynqExit io = None)"

lemma Run_ordered:
  assumes ok: "profile_ok cfg s" and run: "service_Run s io = (r, evs)"
  shows "\<exists>errs. r = RunReturned errs \<and> (errs = [] \<longleftrightarrow> clean_run cfg s io) \<and> stops_in_order cfg s io evs"
proof -
  let ?m = "if sv_metricsServer s \<noteq> None then [RunMetrics] else []"
  have wait: "w \<noteq> TimedOut \<longleftrightarrow> w = Returned" for w by (cases w) simp_all
  have rel': "sv_release s \<noteq> None \<longleftrightarrow> cf_ReleaseEnabled cfg" using ok by (simp add: profile_ok_def)
  have errs: "fst (shutdown s io late) = [] \<longleftrightarrow> rn_zeroAll io = None \<and> \<not> late \<and> \<not> rn_expired io \<and>
      (sv_monitor s \<longrightarrow> rn_monitorStop io = Returned) \<and> (cf_ReleaseEnabled cfg \<longrightarrow> rn_schedulerStop io = Returned \<and> rn_reconcilerStop io = Returned)" for late
    unfolding shutdown_def gave_up_def rel' [symmetric] by (auto simp: wait split: option.split)
  note rel = startReleaseSubsystem_def [of s]
  consider (sort) "cf_SortitionEnabled cfg" | (gw) "\<not> cf_SortitionEnabled cfg" "cf_WorkerGatewayURL cfg \<noteq> []"
    | (direct) "\<not> cf_SortitionEnabled cfg" "cf_WorkerGatewayURL cfg = []" by blast
  then show ?thesis
  proof cases
    case sort
    let ?pre = "?m @ startReleaseSubsystem s @ (if sv_monitor s then [RunMonitor] else []) @ (if sv_gwClient s then [RunGatewayBeat] else []) @
               (if sv_streamPub s then [RunStream] else []) @ [RunSessionWatcher, RunJobWatcher]"
    let ?w = "if rn_jobsInTime io then [JobsDone] else JobsCancelled # [if rn_jobsInGrace io then JobsDone else JobsAbandoned]"
    let ?t = "\<not> rn_jobsInTime io"
    obtain jw sw where "sv_jobWatcher s = Some jw" "sv_sessionWatcher s = Some sw" using ok sort by (auto simp: profile_ok_def)
    then have run': "r = RunReturned (fst (shutdown s io ?t))" "evs = ?pre @ RunSignal # drained s io (sv_gwClient s) @ ?w @ snd (shutdown s io ?t)"
      using run by (auto simp: service_Run_def runSortitionMode_def Let_def split: prod.splits)
    have "stops_in_order cfg s io evs"
      by (rule stops_parts [OF run'(2)]) (use ok sort in \<open>auto simp: rel profile_ok_def drain_marks job_wait_def\<close>)
    then show ?thesis using run'(1) errs sort by (auto simp: clean_run_def)
  next
    case gw
    then obtain hc where "sv_gwHandler s = Some hc" "sv_sessionWatcher s = None" "sv_gwClient s" using ok by (auto simp: profile_ok_def)
    then have run': "r = RunReturned (fst (shutdown s io False))"
      "evs = (?m @ startReleaseSubsystem s @ [RunGatewayBeat, RunStreamJobs]) @ RunSignal # drained s io True @ [] @ snd (shutdown s io False)"
      using run by (auto simp: service_Run_def runGatewayMode_def Let_def split: prod.splits)
    have "stops_in_order cfg s io evs"
      by (rule stops_parts [OF run'(2)]) (use ok gw in \<open>auto simp: rel profile_ok_def drain_marks job_wait_def\<close>)
    then show ?thesis using run'(1) errs gw by (auto simp: clean_run_def)
  next
    case direct
    then obtain q where q: "sv_asynqQueue s = Some q" "sv_sessionWatcher s = None" "\<not> sv_gwClient s" "sv_monitor s" using ok by (auto simp: profile_ok_def)
    then have run': "\<exists>e. r = RunReturned (e @ fst (shutdown s io False)) \<and> (e = [] \<longleftrightarrow> rn_asynqExit io = None)"
      "evs = (?m @ [RunMonitor] @ startReleaseSubsystem s @ [RunAsynq]) @ RunSignal # drained s io False @ [] @ snd (shutdown s io False)"
      using run by (auto simp: service_Run_def runDirectMode_def Let_def split: prod.splits option.splits)
    have "stops_in_order cfg s io evs"
      by (rule stops_parts [OF run'(2)]) (use ok direct in \<open>auto simp: rel profile_ok_def drain_marks job_wait_def\<close>)
    then show ?thesis using run'(1) errs direct q by (auto simp: clean_run_def)
  qed
qed

section \<open>Properties\<close>

text \<open>The process crashes, instead of exiting with a code, only where the cursor store of the external profile cannot be opened.\<close>

lemma crash_only_on_cursor_store:
  assumes "service_Main lib addrHex env io rio = None"
  shows "\<exists>cfg. Load lib env = Inr cfg \<and> cf_SortitionEnabled cfg \<and> cf_WorkerGatewayURL cfg \<noteq> [] \<and>
    strings_ToLower (TrimSpace (so_BLOB_MODE io)) \<noteq> ''redis'' \<and> so_cursorStore io \<noteq> None"
proof -
  obtain cfg where cfg: "Load lib env = Inr cfg" using assms by (auto simp: service_Main_def split: sum.splits)
  obtain r l where new: "run_state (service_New lib addrHex io cfg) [] = (r, l)" by (metis surj_pair)
  have ok: "start_ok io cfg r l" using New_ok [OF new] .
  have "r = StartNilClose"
  proof (cases r)
    case (Started s)
    then have "profile_ok cfg s" using ok by (simp add: start_ok_def)
    from Run_ordered [OF this] obtain errs where "fst (service_Run s rio) = RunReturned errs" by (metis surj_pair fst_conv)
    then show ?thesis using assms cfg new Started by (simp add: service_Main_def split: if_splits)
  qed (use assms cfg new in \<open>simp_all add: service_Main_def split: if_splits\<close>)
  then show ?thesis using ok cfg by (auto simp: start_ok_def)
qed

text \<open>
  C25. The process starts whole or not at all. If New succeeds, the coordinator, the chain client, the release store
  and, exactly if the service has one, the Redis client are open, nothing was closed, and the components are those of
  the profile: the chain watchers exactly with SORTITION\_ENABLED, the gateway client exactly with a gateway URL, the
  task queue and the Redis heartbeat in direct mode, and the release scheduler exactly with RELEASE\_ENABLED. If it
  fails, the chain connection and the Redis connection it opened are closed again (the latter except after a failed
  registration of the metrics). A method is called on a nil Redis client only when the cursor store cannot be opened
  in the external profile with blobs from the beacon node.
\<close>

theorem service_starts_whole:
  "case run_state (service_New lib addrHex io cfg) [] of
     (Started s, l) \<Rightarrow> opened l = {RCoordinator, RChainClient, RReleaseStore} \<union> set (if_redis (sv_redis s)) \<and> shut l = {} \<and> profile_ok cfg s
   | (StartFailed e, l) \<Rightarrow> opened l \<inter> {RChainClient, RRedis} \<subseteq> shut l \<union> (if so_bind io = None then {} else {RRedis})
   | (StartNilClose, l) \<Rightarrow> cf_SortitionEnabled cfg \<and> cf_WorkerGatewayURL cfg \<noteq> [] \<and>
       strings_ToLower (TrimSpace (so_BLOB_MODE io)) \<noteq> ''redis'' \<and> so_cursorStore io \<noteq> None"
  using New_ok [of lib addrHex io cfg] by (auto simp: start_ok_def split: prod.split startup.splits)

definition demo_svc_io :: svc_io where
  "demo_svc_io = \<lparr>so_readKeystore = None, so_decryptKey = Inr 1, so_loadECDH = None, so_dialChain = None, so_validate = None, so_sessionKeys = None,
     so_thinking = [], so_BLOB_MODE = [], so_redisURL = None, so_bind = None, so_releaseStore = None, so_authenticate = None, so_emit = None,
     so_pendingNonce = Inr 3, so_latestNonce = Inr 1, so_cursorStore = None, so_capabilities = Inr 0\<rparr>"

definition demo_run_io :: run_io where
  "demo_run_io = \<lparr>rn_asynqExit = None, rn_jobsInTime = True, rn_jobsInGrace = True, rn_asynqStop = Returned, rn_monitorStop = Returned, rn_schedulerStop = Returned,
     rn_reconcilerStop = Returned, rn_zeroAll = None, rn_expired = False,
     rn_drain = \<lparr>dr_SetDraining = None, dr_Undrain = None, dr_SendDrain = None, dr_SendUndrain = None, dr_GetDisputeWindow = Inr Hour\<rparr>\<rparr>"

lemma demo_service_starts: "\<exists>s. run_state (service_New demo_cfg_lib (\<lambda>a. ''0xA'') demo_svc_io zero_config) [] =
  (Started s, [Opened RCoordinator, Opened RChainClient, Opened RRedis, Opened RReleaseStore, FirstBeat, SeedCoordinator 3 1])"
  by (simp add: service_New_def need_def New_chain_def New_blob_def open_redis_def New_release_def New_direct_def New_watchers_def empty_service_def
    sv_note_def seed_coordinator_def demo_svc_io_def zero_config_def service_model_ids_def TrimSpace_def strings_ToLower_def Let_def)



end
