(* ===== verification/Operator_Init.thy ===== *)
theory Operator_Init
  imports Operator_Registration Operator_Preflight
begin

text \<open>
  The guided setup (internal/cli/init.go): the worker key, registration with stake, missing models, preflight. The
  registration commands are those of the CLI handler; the other reads of the chain, the keystore format and the
  preflight's probes are arguments. The trace records the answers the run relied on and the commands it gave, newest
  first.
\<close>

section \<open>The worker key\<close>

record 'k key_io =
  ki_readKeystore :: "go_error + string"
  ki_decrypt :: "string \<Rightarrow> go_error + 'k"
  ki_readFile :: "string \<Rightarrow> go_error + string"
  ki_HexToECDSA :: "string \<Rightarrow> 'k option"
  ki_GenerateKey :: "go_error + 'k"
  ki_writeKeystore :: "'k \<Rightarrow> go_error option"

text \<open>The key prompt: the answer, whether to generate, or the file to import, and the lines that are left.\<close>

fun key_prompt :: "string list \<Rightarrow> (go_error + string option) \<times> string list" where
  "key_prompt [] = (Inl (errorf ''no answer to the key prompt''), [])"
| "key_prompt (line # lines) =
     (let answer = strings_ToLower (TrimSpace line) in
      if answer = ''g'' \<or> answer = ''generate'' then (Inr None, lines)
      else if answer = ''i'' \<or> answer = ''import'' then
        (case lines of
           [] \<Rightarrow> (Inl (errorf ''no key file given''), [])
         | file # rest \<Rightarrow> if TrimSpace file \<noteq> [] then (Inr (Some (TrimSpace file)), rest) else key_prompt rest)
      else key_prompt lines)"

definition TrimPrefix0x :: "string \<Rightarrow> string" where
  "TrimPrefix0x s = (if take 2 s = ''0x'' then drop 2 s else s)"

datatype 'k key_event = KeyWritten 'k "go_error option"

definition EnsureKey :: "'k key_io \<Rightarrow> bool \<Rightarrow> string \<Rightarrow> string list option \<Rightarrow> (go_error + 'k) \<times> 'k key_event list \<times> string list option" where
  "EnsureKey io generate importKeyFile input =
     (case ki_readKeystore io of
        Inr data \<Rightarrow>
          ((case ki_decrypt io data of Inl e \<Rightarrow> Inl (wrapf ''cannot open the worker key'' e) | Inr k \<Rightarrow> Inr k), [], input)
      | Inl e \<Rightarrow>
          if \<not> errors_Is e ErrNotExist then (Inl (wrapf ''read worker key'' e), [], input)
          else
            (case (if generate \<or> importKeyFile \<noteq> [] then (Inr (if importKeyFile = [] then None else Some importKeyFile), input)
                   else (case input of
                           None \<Rightarrow> (Inl (errorf ''no answer to the key prompt''), None)
                         | Some lines \<Rightarrow> (case key_prompt lines of (r, rest) \<Rightarrow> (r, Some rest)))) of
               (Inl e, rest) \<Rightarrow> (Inl e, [], rest)
             | (Inr source, rest) \<Rightarrow>
                 (let key = (case source of
                        Some file \<Rightarrow>
                          (case ki_readFile io file of
                             Inl e \<Rightarrow> Inl (wrapf ''read key file'' e)
                           | Inr raw \<Rightarrow>
                               (case ki_HexToECDSA io (TrimPrefix0x (TrimSpace raw)) of
                                  None \<Rightarrow> Inl (errorf ''file does not hold a hex private key'')
                                | Some k \<Rightarrow> Inr k))
                      | None \<Rightarrow> (case ki_GenerateKey io of Inl e \<Rightarrow> Inl (wrapf ''generate worker key'' e) | Inr k \<Rightarrow> Inr k))
                  in case key of
                       Inl e \<Rightarrow> (Inl e, [], rest)
                     | Inr k \<Rightarrow>
                         (case ki_writeKeystore io k of
                            Some e \<Rightarrow> (Inl e, [KeyWritten k (Some e)], rest)
                          | None \<Rightarrow> (Inr k, [KeyWritten k None], rest)))))"

section \<open>State\<close>

datatype init_event =
    InitChainID int
  | InitWhitelisted hash bool
  | InitEnabled hash bool
  | InitRegistered bool
  | InitStake int
  | InitBalance int
  | InitConfirmed
  | InitRegister int
  | InitSupports hash bool
  | InitAddModels "hash list"
  | InitPreflight bool

record 'c InitChain =
  ic_reg :: "'c reg_client"
  ic_ChainID :: "'c \<Rightarrow> (go_error + int) \<times> 'c"
  ic_GetMinWorkerStake :: "'c \<Rightarrow> (go_error + int) \<times> 'c"
  ic_Balance :: "'c \<Rightarrow> (go_error + int) \<times> 'c"
  ic_IsModelWhitelisted :: "hash \<Rightarrow> 'c \<Rightarrow> (go_error + bool) \<times> 'c"
  ic_IsModelEnabled :: "hash \<Rightarrow> 'c \<Rightarrow> (go_error + bool) \<times> 'c"
  ic_WorkerSupportsModel :: "address \<Rightarrow> hash \<Rightarrow> 'c \<Rightarrow> (go_error + bool) \<times> 'c"
  ic_probe :: "'c \<Rightarrow> probe \<times> 'c"

record 'c InitHandler =
  ih_WorkerAddr :: address
  ih_ChainID :: int
  ih_ModelIDs :: "hash list"
  ih_ModelNames :: "string list"
  ih_WorkerStake :: "int option"
  ih_LoadECDHKey :: "go_error + byte list"
  ih_Preflight :: PreflightHandler
  ih_Yes :: bool
  ih_ReconcileSeed :: "'c ReconcileSeed option"

record 'c init_st =
  is_reg :: "'c reg_st"
  is_disk :: disk
  is_in :: "string list option"
  is_log :: "init_event list"

definition inote :: "init_event \<Rightarrow> ('c init_st, unit) prog" where
  "inote ev = State (\<lambda>s. ((), s\<lparr>is_log := ev # is_log s\<rparr>))"

definition on_reg :: "('c reg_st, 'x) prog \<Rightarrow> ('c init_st, 'x) prog" where
  "on_reg m = State (\<lambda>s. case run_state m (is_reg s) of (x, r) \<Rightarrow> (x, s\<lparr>is_reg := r\<rparr>))"

definition iread :: "string \<Rightarrow> ('c \<Rightarrow> (go_error + 'x) \<times> 'c) \<Rightarrow> ('x \<Rightarrow> init_event) \<Rightarrow> ('c init_st, go_error + 'x) prog" where
  "iread what f ev = do {
     r \<leftarrow> on_reg (rcall f (\<lambda>_. []));
     case r of Inl e \<Rightarrow> ret (Inl (wrapf what e)) | Inr x \<Rightarrow> do { inote (ev x); ret (Inr x) }
   }"

definition iconfirm :: "('c init_st, bool) prog" where
  "iconfirm = State (\<lambda>s. (case is_in s of
       Some (line # _) \<Rightarrow> (let a = strings_ToLower (TrimSpace line) in a = ''y'' \<or> a = ''yes'')
     | _ \<Rightarrow> False, s\<lparr>is_in := map_option tl (is_in s)\<rparr>))"

definition register_cmd :: "addr_lib \<Rightarrow> 'c InitChain \<Rightarrow> 'c cli_handler \<Rightarrow> seed_fs \<Rightarrow> ('c init_st, go_error option) prog" where
  "register_cmd lib ch h fs = State (\<lambda>s. case cli_Register lib (ic_reg ch) h fs (is_reg s) (is_disk s) of (r, st, d) \<Rightarrow> (r, s\<lparr>is_reg := st, is_disk := d\<rparr>))"

section \<open>Steps\<close>

fun init_checkModels :: "'c InitChain \<Rightarrow> hash list \<Rightarrow> ('c init_st, go_error + unit) prog" where
  "init_checkModels ch [] = ret (Inr ())"
| "init_checkModels ch (m # ms) =
     attempt (iread ''read model'' (ic_IsModelWhitelisted ch m) (InitWhitelisted m)) (\<lambda>whitelisted.
     if \<not> whitelisted then ret (Inl (errorf ''model is not on this network's model list''))
     else attempt (iread ''read model'' (ic_IsModelEnabled ch m) (InitEnabled m)) (\<lambda>enabled.
     if \<not> enabled then ret (Inl (errorf ''model is on the list but disabled''))
     else init_checkModels ch ms))"

definition init_register :: "addr_lib \<Rightarrow> 'c InitChain \<Rightarrow> seed_fs \<Rightarrow> 'c InitHandler \<Rightarrow> ('c init_st, go_error + unit) prog" where
  "init_register lib ch fs h =
     attempt (case ih_WorkerStake h of
                Some stake \<Rightarrow> do { inote (InitStake stake); ret (Inr stake) }
              | None \<Rightarrow> iread ''read the minimum stake'' (ic_GetMinWorkerStake ch) InitStake) (\<lambda>stake.
     attempt (iread ''read balance'' (ic_Balance ch) InitBalance) (\<lambda>bal.
     if bal \<le> stake then ret (Inl (errorf ''worker holds too little; registering stakes and needs gas on top''))
     else do {
       ok \<leftarrow> (if ih_Yes h then ret True else iconfirm);
       if \<not> ok then ret (Inl (errorf ''registration not confirmed, nothing was staked''))
       else do {
         inote InitConfirmed;
         inote (InitRegister stake);
         r \<leftarrow> register_cmd lib ch \<lparr>ha_WorkerAddr = ih_WorkerAddr h, ha_ModelIDs = ih_ModelIDs h, ha_ModelNames = ih_ModelNames h,
           ha_WorkerStake = Some stake, ha_LoadECDHKey = ih_LoadECDHKey h, ha_ReconcileSeed = ih_ReconcileSeed h\<rparr> fs;
         ret (case r of None \<Rightarrow> Inr () | Some e \<Rightarrow> Inl (wrapf ''registration failed'' e))
       }
     }))"

fun missing_models :: "'c InitChain \<Rightarrow> address \<Rightarrow> (hash \<times> string) list \<Rightarrow> ('c init_st, go_error + (hash \<times> string) list) prog" where
  "missing_models ch worker [] = ret (Inr [])"
| "missing_models ch worker ((m, name) # ms) =
     attempt (iread ''read the worker's models'' (ic_WorkerSupportsModel ch worker m) (InitSupports m)) (\<lambda>added.
     attempt (missing_models ch worker ms) (\<lambda>rest. ret (Inr (if added then rest else (m, name) # rest))))"

definition addMissingModels :: "'c InitChain \<Rightarrow> 'c InitHandler \<Rightarrow> ('c init_st, go_error + unit) prog" where
  "addMissingModels ch h =
     attempt (missing_models ch (ih_WorkerAddr h) (zip (ih_ModelIDs h) (ih_ModelNames h))) (\<lambda>missing.
     if missing = [] then ret (Inr ())
     else do {
       inote (InitAddModels (map fst missing));
       r \<leftarrow> on_reg (cli_AddModels (ic_reg ch) \<lparr>ha_WorkerAddr = ih_WorkerAddr h, ha_ModelIDs = map fst missing, ha_ModelNames = map snd missing,
         ha_WorkerStake = None, ha_LoadECDHKey = ih_LoadECDHKey h, ha_ReconcileSeed = None\<rparr>);
       ret (case r of None \<Rightarrow> Inr () | Some e \<Rightarrow> Inl (wrapf ''add models'' e))
     })"

definition init_Run :: "addr_lib \<Rightarrow> 'c InitChain \<Rightarrow> seed_fs \<Rightarrow> 'c InitHandler \<Rightarrow> ('c init_st, go_error + unit) prog" where
  "init_Run lib ch fs h =
     (if ih_ModelIDs h = [] then ret (Inl (errorf ''SUPPORTED_MODELS is empty''))
      else attempt (iread ''cannot reach the chain RPC'' (ic_ChainID ch) InitChainID) (\<lambda>cid.
        if i64 cid \<noteq> ih_ChainID h then ret (Inl (errorf ''RPC_URL points at another network''))
        else attempt (init_checkModels ch (ih_ModelIDs h)) (\<lambda>_.
        attempt (iread ''read registration'' (rc_IsWorkerRegistered (ic_reg ch) (ih_WorkerAddr h)) InitRegistered) (\<lambda>registered.
        attempt (if registered then ret (Inr ()) else init_register lib ch fs h) (\<lambda>_.
        attempt (addMissingModels ch h) (\<lambda>_. do {
          p \<leftarrow> on_reg (rcall (ic_probe ch) (\<lambda>_. []));
          let ok = fst (preflight_Run (ih_Preflight h) p);
          inote (InitPreflight ok);
          ret (if ok then Inr () else Inl (errorf ''preflight found problems''))
        }))))))"

section \<open>Nothing is spent early\<close>

text \<open>What must have been read before a command that costs money.\<close>

definition models_checked :: "'c InitHandler \<Rightarrow> init_event set \<Rightarrow> bool" where
  "models_checked h L \<longleftrightarrow> (\<exists>cid. InitChainID cid \<in> L \<and> i64 cid = ih_ChainID h) \<and>
     (\<forall>m\<in>set (ih_ModelIDs h). InitWhitelisted m True \<in> L \<and> InitEnabled m True \<in> L)"

definition may_register :: "'c InitHandler \<Rightarrow> int \<Rightarrow> init_event set \<Rightarrow> bool" where
  "may_register h stake L \<longleftrightarrow> models_checked h L \<and> InitRegistered False \<in> L \<and> InitStake stake \<in> L \<and> (\<exists>bal. InitBalance bal \<in> L \<and> stake < bal) \<and> InitConfirmed \<in> L"

definition may_add :: "'c InitHandler \<Rightarrow> hash list \<Rightarrow> init_event set \<Rightarrow> bool" where
  "may_add h ms L \<longleftrightarrow> models_checked h L \<and> (InitRegistered True \<in> L \<or> InitConfirmed \<in> L) \<and> ms \<noteq> [] \<and> set ms \<subseteq> set (ih_ModelIDs h) \<and> (\<forall>m\<in>set ms. InitSupports m False \<in> L)"

fun init_justified :: "'c InitHandler \<Rightarrow> init_event list \<Rightarrow> bool" where
  "init_justified h [] = True"
| "init_justified h (e # L) \<longleftrightarrow> init_justified h L \<and>
     (case e of InitRegister stake \<Rightarrow> may_register h stake (set L) | InitAddModels ms \<Rightarrow> may_add h ms (set L) | _ \<Rightarrow> True)"

definition spends :: "init_event \<Rightarrow> bool" where
  "spends e \<longleftrightarrow> (case e of InitRegister _ \<Rightarrow> True | InitAddModels _ \<Rightarrow> True | _ \<Rightarrow> False)"

definition confirmed :: "'c InitHandler \<Rightarrow> string list option \<Rightarrow> bool" where
  "confirmed h input \<longleftrightarrow> ih_Yes h \<or> (\<exists>line rest. input = Some (line # rest) \<and> strings_ToLower (TrimSpace line) \<in> {''y'', ''yes''})"

definition init_at :: "'c InitHandler \<Rightarrow> 'c init_st \<Rightarrow> init_event set \<Rightarrow> 'c init_st \<Rightarrow> bool" where
  "init_at h s0 F s \<longleftrightarrow> init_justified h (is_log s) \<and> F \<subseteq> set (is_log s) \<and> (InitConfirmed \<in> set (is_log s) \<longrightarrow> confirmed h (is_in s0)) \<and>
     (InitConfirmed \<notin> set (is_log s) \<longrightarrow> is_in s = is_in s0) \<and>
     ((\<exists>e\<in>set (is_log s). spends e) \<or> reg_st.rs_log (is_reg s) = reg_st.rs_log (is_reg s0))"

lemma wp_init [wp_simps]:
  "wp (inote ev) Qu = (\<lambda>s. Qu () (s\<lparr>is_log := ev # is_log s\<rparr>))"
  "wp (on_reg m) Q = (\<lambda>s. case run_state m (is_reg s) of (x, r) \<Rightarrow> Q x (s\<lparr>is_reg := r\<rparr>))"
  by (auto simp: wp_def inote_def on_reg_def fun_eq_iff split: prod.split)

lemma wp_iread_I:
  assumes "init_at h s0 F s" "\<And>x. \<not> spends (ev x) \<and> ev x \<noteq> InitConfirmed"
    "\<And>e s'. init_at h s0 F s' \<Longrightarrow> Q (Inl e) s'" "\<And>x s'. init_at h s0 (insert (ev x) F) s' \<Longrightarrow> Q (Inr x) s'"
  shows "wp (iread what f ev) Q s"
proof -
  obtain r c where f: "run_state (rcall f (\<lambda>_. [])) (is_reg s) = (r, c)" by (metis surj_pair)
  then have c: "reg_st.rs_log c = reg_st.rs_log (is_reg s)" by (auto simp: rcall_def split: prod.splits)
  have "init_at h s0 F (s\<lparr>is_reg := c\<rparr>)" using assms(1) c by (simp add: init_at_def)
  moreover have "init_at h s0 (insert (ev x) F) (s\<lparr>is_reg := c, is_log := ev x # is_log s\<rparr>)" for x
    using assms(1) assms(2) [of x] c by (auto simp: init_at_def spends_def split: init_event.splits)
  ultimately show ?thesis using assms(3,4) by (cases r) (simp_all add: iread_def wp_simps f)
qed

lemma init_at_mono: "init_at h s0 F' s \<Longrightarrow> F \<subseteq> F' \<Longrightarrow> init_at h s0 F s"
  by (auto simp: init_at_def)

lemma wp_iread_attempt:
  assumes "init_at h s0 F s" "\<And>x. \<not> spends (ev x) \<and> ev x \<noteq> InitConfirmed"
    "\<And>e s'. init_at h s0 F s' \<Longrightarrow> Q (Inl e) s'" "\<And>x s'. init_at h s0 (insert (ev x) F) s' \<Longrightarrow> wp (k x) Q s'"
  shows "wp (attempt (iread what f ev) k) Q s"
  unfolding wp_attempt by (rule wp_iread_I [OF assms(1,2)]) (use assms(3,4) in auto)

lemma wp_refuse_if: "(b \<Longrightarrow> Q (Inl e) s) \<Longrightarrow> (\<not> b \<Longrightarrow> wp m Q s) \<Longrightarrow> wp (if b then ret (Inl e) else m) Q s"
  by (simp add: wp_simps)

lemma checkModels_wp:
  assumes "init_at h s0 F s" "\<And>e s'. init_at h s0 F s' \<Longrightarrow> Q (Inl e) s'"
    "\<And>s'. init_at h s0 (F \<union> (\<lambda>m. InitWhitelisted m True) ` set ms \<union> (\<lambda>m. InitEnabled m True) ` set ms) s' \<Longrightarrow> Q (Inr ()) s'"
  shows "wp (init_checkModels ch ms) Q s"
  using assms
proof (induction ms arbitrary: F s)
  case Nil then show ?case by (simp add: wp_simps)
next
  case (Cons m ms)
  have err: "Q (Inl e) s'" if "init_at h s0 F' s'" "F \<subseteq> F'" for e s' F' using that Cons.prems(2) init_at_mono by blast
  have rest: "wp (init_checkModels ch ms) Q s2" if "init_at h s0 (insert (InitEnabled m True) (insert (InitWhitelisted m True) F)) s2" for s2
    by (rule Cons.IH [OF that]) (auto intro: err intro!: Cons.prems(3) elim: init_at_mono)
  show ?case unfolding init_checkModels.simps
  proof (rule wp_iread_attempt [OF Cons.prems(1)], goal_cases)
    case (3 x s1)
    then show ?case
    proof (intro wp_refuse_if, goal_cases)
      case 2
      show ?case
        by (rule wp_iread_attempt [OF 2(1)]) (use 2(2) in \<open>auto simp: spends_def wp_ret intro!: wp_refuse_if rest intro: err\<close>)
    qed (auto intro: err)
  qed (auto simp: spends_def intro: err)
qed

text \<open>The end of a run; a question that was answered with no has used up input.\<close>

definition init_end :: "'c InitHandler \<Rightarrow> 'c init_st \<Rightarrow> 'c init_st \<Rightarrow> bool" where
  "init_end h s0 s \<longleftrightarrow> init_justified h (is_log s) \<and> (InitConfirmed \<in> set (is_log s) \<longrightarrow> confirmed h (is_in s0)) \<and>
     ((\<exists>e\<in>set (is_log s). spends e) \<or> reg_st.rs_log (is_reg s) = reg_st.rs_log (is_reg s0))"

lemma init_at_end: "init_at h s0 F s \<Longrightarrow> init_end h s0 s"
  by (simp add: init_at_def init_end_def)

abbreviation step_post :: "'c InitHandler \<Rightarrow> 'c init_st \<Rightarrow> init_event set \<Rightarrow> go_error + unit \<Rightarrow> 'c init_st \<Rightarrow> bool" where
  "step_post h s0 F r s \<equiv> (case r of Inl _ \<Rightarrow> init_end h s0 s | Inr _ \<Rightarrow> init_at h s0 F s)"

lemma wp_iconfirm [wp_simps]:
  "wp iconfirm Q = (\<lambda>s. Q (case is_in s of Some (line # _) \<Rightarrow> strings_ToLower (TrimSpace line) \<in> {''y'', ''yes''} | _ \<Rightarrow> False) (s\<lparr>is_in := map_option tl (is_in s)\<rparr>))"
  by (auto simp: wp_def iconfirm_def fun_eq_iff Let_def split: option.split list.split)

lemma wp_register_cmd:
  "(\<And>r st d. Q r (s\<lparr>is_reg := st, is_disk := d\<rparr>)) \<Longrightarrow> wp (register_cmd lib ch hh fs) Q s"
  by (simp add: wp_def register_cmd_def split: prod.split)

lemma confirmed_register_wp:
  assumes "init_at h s0 (insert (InitBalance bal) (insert (InitStake stake) F)) s" "stake < bal" "models_checked h F" "InitRegistered False \<in> F"
  shows "wp (do {
       ok \<leftarrow> (if ih_Yes h then ret True else iconfirm);
       if \<not> ok then ret (Inl e)
       else do { inote InitConfirmed; inote (InitRegister stake); r \<leftarrow> register_cmd lib ch hh fs; ret (g r) } }) (step_post h s0 (insert InitConfirmed F)) s"
proof -
  let ?yes = "case is_in s of Some (line # _) \<Rightarrow> strings_ToLower (TrimSpace line) \<in> {''y'', ''yes''} | _ \<Rightarrow> False"
  have c: "confirmed h (is_in s0)" if "ih_Yes h \<or> ?yes"
  proof -
    have "is_in s = is_in s0 \<or> confirmed h (is_in s0)" using assms(1) by (auto simp: init_at_def)
    moreover have "confirmed h (is_in s)" using that by (auto simp: confirmed_def split: option.splits list.splits)
    ultimately show ?thesis by auto
  qed
  have m: "may_register h stake (insert InitConfirmed (set (is_log s)))"
    using assms by (auto simp: may_register_def models_checked_def init_at_def)
  have ok: "wp (do { inote InitConfirmed; inote (InitRegister stake); r \<leftarrow> register_cmd lib ch hh fs; ret (g r) }) (step_post h s0 (insert InitConfirmed F)) (s\<lparr>is_in := i\<rparr>)"
    if "confirmed h (is_in s0)" for i
    unfolding wp_bind wp_init wp_ret
    by (rule wp_register_cmd) (use that assms(1) m in \<open>auto simp: init_at_def init_end_def spends_def split: sum.split\<close>)
  have no: "init_end h s0 (s\<lparr>is_in := i\<rparr>)" for i using init_at_end [OF assms(1)] by (simp add: init_end_def)
  show ?thesis
  proof (cases "ih_Yes h")
    case True
    then show ?thesis using ok [OF c, of "is_in s"] by (simp add: wp_bind wp_ret)
  next
    case False
    then show ?thesis using ok [OF c] no by (auto simp: wp_bind wp_ret wp_iconfirm)
  qed
qed

lemma register_wp:
  assumes "init_at h s0 F s" "models_checked h F" "InitRegistered False \<in> F"
  shows "wp (init_register lib ch fs h) (step_post h s0 (insert InitConfirmed F)) s"
proof -
  note fin = confirmed_register_wp [OF _ _ assms(2,3)]
  have balance: "wp (attempt (iread w (ic_Balance ch) InitBalance) (\<lambda>bal. if bal \<le> stake then ret (Inl e1)
      else do {
       ok \<leftarrow> (if ih_Yes h then ret True else iconfirm);
       if \<not> ok then ret (Inl e)
       else do { inote InitConfirmed; inote (InitRegister stake); r \<leftarrow> register_cmd lib ch hh fs; ret (g r) } })) (step_post h s0 (insert InitConfirmed F)) s1"
    if "init_at h s0 (insert (InitStake stake) F) s1" for s1 w e1 e stake hh and g :: "go_error option \<Rightarrow> go_error + unit"
  proof (rule wp_iread_attempt [OF that], goal_cases)
    case (3 bal s2)
    then show ?case by (intro wp_refuse_if fin) (auto intro: init_at_end)
  qed (auto simp: spends_def intro: init_at_end)
  show ?thesis
  proof (cases "ih_WorkerStake h")
    case None
    show ?thesis unfolding init_register_def None option.case
    proof (rule wp_iread_attempt [OF assms(1)], goal_cases)
      case (3 stake s1) then show ?case by (rule balance)
    qed (auto simp: spends_def intro: init_at_end)
  next
    case (Some stake)
    have "init_at h s0 (insert (InitStake stake) F) (s\<lparr>is_log := InitStake stake # is_log s\<rparr>)" using assms(1) by (auto simp: init_at_def)
    from balance [OF this] show ?thesis unfolding init_register_def Some option.case wp_attempt wp_bind wp_init wp_ret sum.case .
  qed
qed

lemma missing_wp:
  assumes "init_at h s0 F s" "\<And>e s'. init_at h s0 F s' \<Longrightarrow> Q (Inl e) s'"
    "\<And>ms' s'. set ms' \<subseteq> set ms \<Longrightarrow> init_at h s0 (F \<union> (\<lambda>m. InitSupports (fst m) False) ` set ms') s' \<Longrightarrow> Q (Inr ms') s'"
  shows "wp (missing_models ch worker ms) Q s"
  using assms
proof (induction ms arbitrary: F s Q)
  case Nil then show ?case by (simp add: wp_simps)
next
  case (Cons m ms)
  obtain mid name where m: "m = (mid, name)" by (cases m)
  have err: "Q (Inl e) s'" if "init_at h s0 F' s'" "F \<subseteq> F'" for e s' F' using that Cons.prems(2) init_at_mono by blast
  show ?case unfolding m missing_models.simps
  proof (rule wp_iread_attempt [OF Cons.prems(1)], goal_cases)
    case (3 x s1)
    show ?case unfolding wp_attempt
    proof (rule Cons.IH [OF 3], goal_cases)
      case (2 ms' s')
      then have "Q (Inr (if x then ms' else (mid, name) # ms')) s'"
        by (intro Cons.prems(3)) (auto simp: m elim: init_at_mono)
      then show ?case by (simp add: wp_ret)
    qed (auto intro: err)
  qed (auto simp: spends_def intro: err)
qed

lemma addMissing_wp:
  assumes "init_at h s0 F s" "models_checked h F" "InitRegistered True \<in> F \<or> InitConfirmed \<in> F"
  shows "wp (addMissingModels ch h) (step_post h s0 F) s"
  unfolding addMissingModels_def wp_attempt
proof (rule missing_wp [OF assms(1)], goal_cases)
  case (2 ms' s')
  then have "set (map fst ms') \<subseteq> set (ih_ModelIDs h)" by (fastforce dest: set_zip_leftD)
  then have "ms' \<noteq> [] \<Longrightarrow> may_add h (map fst ms') (set (is_log s'))"
    using 2 assms(2,3) by (auto simp: may_add_def models_checked_def init_at_def)
  then show ?case using 2 by (auto simp: wp_simps init_at_def init_end_def spends_def split: prod.split option.split)
qed (simp add: init_at_end)

lemma init_Run_wp:
  assumes "is_log s = []"
  shows "wp (init_Run lib ch fs h) (\<lambda>r s'. init_end h s s' \<and> (r = Inr () \<longrightarrow> InitPreflight True \<in> set (is_log s'))) s"
proof -
  let ?Q = "\<lambda>r s'. init_end h s s' \<and> (r = Inr () \<longrightarrow> InitPreflight True \<in> set (is_log s'))"
  have err: "?Q (Inl e) s'" if "init_at h s F s'" for e F s' using init_at_end [OF that] by simp
  have start: "init_at h s {} s" using assms by (simp add: init_at_def)
  let ?flight = "do {
          p \<leftarrow> on_reg (rcall (ic_probe ch) (\<lambda>_. []));
          let ok = fst (preflight_Run (ih_Preflight h) p);
          inote (InitPreflight ok);
          ret (if ok then Inr () else Inl (errorf ''preflight found problems'')) }"
  have flight: "wp ?flight ?Q s'" if "init_at h s F s'" for F s'
    using that by (auto simp: wp_simps rcall_def init_at_def init_end_def spends_def Let_def split: prod.split)
  have add: "wp (attempt (addMissingModels ch h) (\<lambda>_. ?flight)) ?Q s'" if "init_at h s F s'" "models_checked h F" "InitRegistered True \<in> F \<or> InitConfirmed \<in> F" for F s'
    unfolding wp_attempt by (rule wp_mono [OF addMissing_wp [OF that]]) (auto intro: flight split: sum.splits)
  have reg: "wp (attempt (if registered then ret (Inr ()) else init_register lib ch fs h) (\<lambda>_. attempt (addMissingModels ch h) (\<lambda>_. ?flight))) ?Q s'"
    if "init_at h s (insert (InitRegistered registered) F) s'" "models_checked h F" for F s' registered
  proof (cases registered)
    case True
    then show ?thesis using add that by (simp add: wp_attempt [where m = "ret _"] wp_ret models_checked_def)
  next
    case False
    have mc: "models_checked h (insert (InitRegistered False) F)" using that(2) by (auto simp: models_checked_def)
    have "init_at h s (insert (InitRegistered False) F) s'" using that(1) False by simp
    from register_wp [OF this mc] have "wp (init_register lib ch fs h) (step_post h s (insert InitConfirmed (insert (InitRegistered False) F))) s'" by simp
    then show ?thesis unfolding if_not_P [OF False] wp_attempt [where m = "init_register _ _ _ _"]
      by (rule wp_mono) (use mc in \<open>auto simp: models_checked_def intro!: add split: sum.splits\<close>)
  qed
  show ?thesis
  proof (cases "ih_ModelIDs h = []")
    case True
    then show ?thesis using err [OF start] by (simp add: init_Run_def wp_ret)
  next
    case False
    show ?thesis unfolding init_Run_def if_not_P [OF False]
    proof (rule wp_iread_attempt [OF start], goal_cases)
      case (3 cid s1)
      show ?case
      proof (rule wp_refuse_if)
        assume cid: "\<not> i64 cid \<noteq> ih_ChainID h"
        show "wp (attempt (init_checkModels ch (ih_ModelIDs h)) (\<lambda>_.
            attempt (iread ''read registration'' (rc_IsWorkerRegistered (ic_reg ch) (ih_WorkerAddr h)) InitRegistered) (\<lambda>registered.
            attempt (if registered then ret (Inr ()) else init_register lib ch fs h) (\<lambda>_. attempt (addMissingModels ch h) (\<lambda>_. ?flight))))) ?Q s1"
          unfolding wp_attempt [where m = "init_checkModels _ _"]
        proof (rule checkModels_wp [OF 3], goal_cases)
          case (2 s2)
          let ?F = "{InitChainID cid} \<union> (\<lambda>m. InitWhitelisted m True) ` set (ih_ModelIDs h) \<union> (\<lambda>m. InitEnabled m True) ` set (ih_ModelIDs h)"
          have "models_checked h ?F" using cid by (auto simp: models_checked_def)
          then show ?case unfolding sum.case
          proof (intro wp_iread_attempt [OF 2], goal_cases)
            case (3 registered s3) then show ?case by (intro reg) auto
          qed (auto simp: spends_def intro: init_at_end)
        qed (simp add: init_at_end)
      qed (use 3 init_at_end in auto)
    qed (auto simp: spends_def intro: init_at_end)
  qed
qed

section \<open>Properties\<close>

text \<open>A key that is there is not replaced, and the key that is returned is the stored one.\<close>

lemma EnsureKey_keeps:
  assumes "EnsureKey io generate file input = (r, evs, rest)"
  shows "evs \<noteq> [] \<Longrightarrow> \<exists>e. ki_readKeystore io = Inl e \<and> errors_Is e ErrNotExist"
    "r = Inr k \<Longrightarrow> (if evs = [] then \<exists>data. ki_readKeystore io = Inr data \<and> ki_decrypt io data = Inr k else evs = [KeyWritten k None])"
  using assms by (auto simp: EnsureKey_def Let_def split: sum.splits if_splits option.splits prod.splits)

definition demo_init_chain :: "unit InitChain" where
  "demo_init_chain = \<lparr>ic_reg = demo_reg_client, ic_ChainID = \<lambda>c. (Inr 7, c), ic_GetMinWorkerStake = \<lambda>c. (Inr 5, c), ic_Balance = \<lambda>c. (Inr 9, c),
     ic_IsModelWhitelisted = \<lambda>m c. (Inr True, c), ic_IsModelEnabled = \<lambda>m c. (Inr True, c), ic_WorkerSupportsModel = \<lambda>w m c. (Inl (errorf ''timeout''), c),
     ic_probe = \<lambda>c. (\<lparr>pr_ChainID = Inr 7, pr_Head = Inr \<lparr>hd_Number = 1, hd_Timestamp = 0\<rparr>, pr_Head2 = Inr \<lparr>hd_Number = 1, hd_Timestamp = 0\<rparr>, pr_now = 0,
       pr_Balance = Inr 9, pr_IsWorkerRegistered = Inr True, pr_IsWorkerSuspended = Inr False, pr_GetSuspendedUntil = Inr 0, pr_GetWorkerStake = Inr 5,
       pr_GetMinWorkerStake = Inr 5, pr_GetWorkerEncryptionKey = Inr [], pr_IsModelWhitelisted = \<lambda>m. Inr True, pr_IsModelEnabled = \<lambda>m. Inr True,
       pr_WorkerSupportsModel = \<lambda>m. Inr True, pr_LoadECDHKey = Inr [], pr_Authenticate = None, pr_tags = Inr (200, Inr []), pr_beacon = Inr (200, Inr [])\<rparr>, c)\<rparr>"

definition demo_init :: "unit InitHandler" where
  "demo_init = \<lparr>ih_WorkerAddr = 2, ih_ChainID = 7, ih_ModelIDs = [1], ih_ModelNames = [''m''], ih_WorkerStake = None, ih_LoadECDHKey = Inr (4 # replicate 64 0),
     ih_Preflight = \<lparr>ph_ChainID = 7, ph_ModelIDs = [1], ph_ModelNames = [''m''], ph_LoadECDHKey = False, ph_Gateway = False, ph_OllamaURL = [], ph_BeaconURL = []\<rparr>,
     ih_Yes = False, ih_ReconcileSeed = None\<rparr>"

definition demo_init_st :: "unit init_st" where
  "demo_init_st = \<lparr>is_reg = \<lparr>Worker_Registration.reg_st.rs_chain = (), rs_log = []\<rparr>, is_disk = \<lparr>d_data = NoFile, d_tmp = NoFile\<rparr>, is_in = Some [''yes''], is_log = []\<rparr>"

lemma demo_init_log:
  "is_log (snd (run_state (init_Run demo_lib demo_init_chain demo_seed_fs demo_init) demo_init_st)) =
     [InitRegister 5, InitConfirmed, InitBalance 9, InitStake 5, InitRegistered False, InitEnabled 1 True, InitWhitelisted 1 True, InitChainID 7]"
  by (simp add: init_Run_def attempt_def iread_def inote_def on_reg_def rcall_def init_register_def iconfirm_def register_cmd_def addMissingModels_def
    demo_init_chain_def demo_init_def demo_init_st_def demo_reg_client_def i64_def TrimSpace_def is_space_def strings_ToLower_def to_lower_char_def Let_def split: prod.split option.split)



end
