(* ===== verification/Operator_Release.thy ===== *)
theory Operator_Release
  imports Release_Scheduler Release_Reconciler
begin

text \<open>
  The release command of the operator (internal/cli/settlement.go, Release): one pass of the reconciler, then one
  cycle of the scheduler on the same store and chain client, a report, and the exit status. The chain interface
  SettlementClient is one record that serves both; the printed report is a list of \<open>release_line\<close>.
\<close>

section \<open>The command\<close>

record 'c SettlementClient =
  sm_Head :: "'c \<Rightarrow> (go_error + HeadInfo) \<times> 'c"
  sm_FilterJobCompleted :: "address \<Rightarrow> u64 \<Rightarrow> u64 \<Rightarrow> 'c \<Rightarrow> (go_error + JobCompletedEvent list) \<times> 'c"
  sm_GetJobState :: "u64 \<Rightarrow> 'c \<Rightarrow> (go_error + JobStateInfo) \<times> 'c"
  sm_GetDisputeWindow :: "'c \<Rightarrow> (go_error + int) \<times> 'c"
  sm_ReleaseJob :: "u64 \<Rightarrow> 'c \<Rightarrow> go_error option \<times> 'c"
  sm_ReleaseJobs :: "u64 list \<Rightarrow> 'c \<Rightarrow> go_error option \<times> 'c"

definition NewReconciler :: "'s store_ops \<Rightarrow> 'c SettlementClient \<Rightarrow> address \<Rightarrow> Config \<Rightarrow> ('c, 's) Reconciler" where
  "NewReconciler store ch w cfg = \<lparr>rec_store = store,
     rec_chain = \<lparr>rc_Head = sm_Head ch, rc_FilterJobCompleted = sm_FilterJobCompleted ch, rc_GetJobState = sm_GetJobState ch\<rparr>,
     rec_workerAddr = w, rec_cfg = cfg\<rparr>"

definition NewScheduler :: "'s store_ops \<Rightarrow> 'c SettlementClient \<Rightarrow> address \<Rightarrow> Config \<Rightarrow> ('c, 's) Scheduler" where
  "NewScheduler store ch w cfg = \<lparr>sch_store = store,
     sch_chain = \<lparr>sc_Head = sm_Head ch, sc_GetDisputeWindow = sm_GetDisputeWindow ch, sc_GetJobState = sm_GetJobState ch,
       sc_ReleaseJob = sm_ReleaseJob ch, sc_ReleaseJobs = sm_ReleaseJobs ch\<rparr>,
     sch_workerAddr = w, sch_cfg = cfg\<rparr>"

datatype release_line =
    ReconciliationComplete
  | CycleBlocked int
  | CyclePaused int
  | NoJobsReady
  | BatchRecovered nat nat
  | CycleFailures nat nat nat
  | CycleComplete nat nat
  | PendingAfter nat

record ('c, 's) rel_st =
  rl_chain :: 'c
  rl_store :: 's
  rl_recon :: "recon_event list"
  rl_sched :: "sched_event list"

definition reconcile_part :: "nat \<Rightarrow> ('c, 's) Reconciler \<Rightarrow> ('c, 's) rel_st \<Rightarrow> (go_error option \<times> ('c, 's) rel_st) option" where
  "reconcile_part fuel r st =
     map_option (\<lambda>(e, rst). (e, st\<lparr>rl_chain := rs_chain rst, rl_store := rs_store rst, rl_recon := rs_trace rst\<rparr>))
       (Run fuel r \<lparr>rs_chain = rl_chain st, rs_store = rl_store st, rs_trace = rl_recon st\<rparr>)"

definition cycle_part :: "('c, 's) Scheduler \<Rightarrow> ('c, 's) rel_st \<Rightarrow> (go_error + CycleResult) \<times> ('c, 's) rel_st" where
  "cycle_part sd st =
     (case RunOnce sd \<lparr>ss_chain = rl_chain st, ss_store = rl_store st, ss_trace = rl_sched st\<rparr> of
        (r, sst) \<Rightarrow> (r, st\<lparr>rl_chain := ss_chain sst, rl_store := ss_store sst, rl_sched := ss_trace sst\<rparr>))"

definition cycle_line :: "CycleResult \<Rightarrow> release_line" where
  "cycle_line res =
     (if BackoffActive res then CycleBlocked (NextAllowedAt res)
      else if Paused res then CyclePaused (NextAllowedAt res)
      else if Candidates res = 0 then NoJobsReady
      else if BatchReverted res \<and> Failed res = 0 then BatchRecovered (Released res) (Dropped res)
      else if 0 < Failed res then CycleFailures (Released res) (Failed res) (Dropped res)
      else CycleComplete (Released res) (Dropped res))"

definition cycle_exit :: "CycleResult \<Rightarrow> go_error option" where
  "cycle_exit res =
     (if Paused res then Some (errorf ''release cycle paused: contract paused'')
      else if 0 < Failed res then Some (errorf ''release cycle: per-job release(s) failed'')
      else None)"

definition release_cycle_part :: "'s store_ops \<Rightarrow> ('c, 's) Scheduler \<Rightarrow> ('c, 's) rel_st \<Rightarrow> go_error option \<times> release_line list \<times> ('c, 's) rel_st" where
  "release_cycle_part store sd st =
     (case cycle_part sd st of
        (Inl e, st1) \<Rightarrow> (Some (wrapf ''release cycle'' e), [], st1)
      | (Inr res, st1) \<Rightarrow>
          (case st_Pending store (rl_store st1) of
             (Inl e, s2) \<Rightarrow> (Some (wrapf ''read pending after cycle'' e), [cycle_line res], st1\<lparr>rl_store := s2\<rparr>)
           | (Inr pending, s2) \<Rightarrow> (cycle_exit res, [cycle_line res, PendingAfter (length pending)], st1\<lparr>rl_store := s2\<rparr>)))"

definition cli_Release ::
  "nat \<Rightarrow> 'c SettlementClient option \<Rightarrow> 's store_ops option \<Rightarrow> address \<Rightarrow> Config \<Rightarrow> bool \<Rightarrow> ('c, 's) rel_st \<Rightarrow>
     (go_error option \<times> release_line list \<times> ('c, 's) rel_st) option" where
  "cli_Release fuel settlement releaseStore w cfg reconcileOnly st =
     (case settlement of
        None \<Rightarrow> Some (Some (errorf ''Release: Settlement client not configured''), [], st)
      | Some ch \<Rightarrow>
     (case releaseStore of
        None \<Rightarrow> Some (Some (errorf ''Release: release store not configured''), [], st)
      | Some store \<Rightarrow>
     (case reconcile_part fuel (NewReconciler store ch w cfg) st of
        None \<Rightarrow> None
      | Some (Some e, st1) \<Rightarrow> Some (Some (wrapf ''reconcile'' e), [], st1)
      | Some (None, st1) \<Rightarrow>
          if reconcileOnly then Some (None, [ReconciliationComplete], st1)
          else (case release_cycle_part store (NewScheduler store ch w cfg) st1 of
             (e, out, st2) \<Rightarrow> Some (e, ReconciliationComplete # out, st2)))))"

section \<open>The cycle as RunOnce runs it\<close>

text \<open>
  \<open>cycle_effect\<close>: the cursor stays, a job is missing only if the trace accounts for it, and a cycle that is not
  paused neither counts a pause nor moves the gate; one without failures changes no entry it keeps.
\<close>

definition cycle_effect ::
  "('s \<Rightarrow> bool) \<Rightarrow> ('s \<Rightarrow> abs_store) \<Rightarrow> address \<Rightarrow> bool \<Rightarrow> ('c, 's) sched_st \<Rightarrow> ('c, 's) sched_st \<Rightarrow> bool" where
  "cycle_effect ok ab w clean st st' \<longleftrightarrow>
     ok (ss_store st') \<and> a_cursor (ab (ss_store st')) = a_cursor (ab (ss_store st)) \<and>
     (\<forall>j. a_pending (ab (ss_store st)) j \<noteq> None \<and> a_pending (ab (ss_store st')) j = None \<longrightarrow>
        list_ex (accounts w j) (ss_trace st')) \<and>
     (clean \<longrightarrow> count_list (ss_trace st') IncPauseEvent = count_list (ss_trace st) IncPauseEvent \<and>
        a_nextAllowed (ab (ss_store st')) = a_nextAllowed (ab (ss_store st)) \<and>
        a_pending (ab (ss_store st')) \<subseteq>\<^sub>m a_pending (ab (ss_store st)))"

lemma cycle_effect_same:
  "ok (ss_store st') \<Longrightarrow> ab (ss_store st') = ab (ss_store st) \<Longrightarrow> ss_trace st' = ss_trace st \<Longrightarrow> cycle_effect ok ab w clean st st'"
  by (auto simp: cycle_effect_def)

lemma cycle_effect_from:
  "ab (ss_store st1) = ab (ss_store st) \<Longrightarrow> ss_trace st1 = ss_trace st \<Longrightarrow>
   cycle_effect ok ab w clean st1 st' = cycle_effect ok ab w clean st st'"
  by (simp add: cycle_effect_def)

lemma disputeWindow_eq:
  assumes "disputeWindow sd st = (r, st1)"
  shows "ss_store st1 = ss_store st" "ss_trace st1 = ss_trace st"
  using assms on_chain_eq [of "sc_GetDisputeWindow (sch_chain sd)" st r st1] by (auto simp: disputeWindow_def split: if_splits)

lemma pending_count: "job_list_of m ps \<Longrightarrow> length ps = card (dom m)"
  using distinct_card [of "map JobID ps"] by (auto simp: job_list_of_def dom_map_of_conv_image_fst image_image)

text \<open>What one run of the command means for the jobs and the store.\<close>

definition release_effect ::
  "('s \<Rightarrow> bool) \<Rightarrow> ('s \<Rightarrow> abs_store) \<Rightarrow> address \<Rightarrow> Config \<Rightarrow> (u64 \<times> u64) set \<Rightarrow> bool \<Rightarrow> go_error option \<Rightarrow> release_line list \<Rightarrow>
     ('c, 's) rel_st \<Rightarrow> ('c, 's) rel_st \<Rightarrow> bool" where
  "release_effect ok ab w cfg log reconcileOnly err out st st' \<longleftrightarrow>
     ok (rl_store st') \<and>
     (\<forall>b j. a_cursor (ab (rl_store st')) \<noteq> a_cursor (ab (rl_store st)) \<longrightarrow> (b, j) \<in> log \<longrightarrow>
        start_block cfg (a_cursor (ab (rl_store st))) \<le> b \<longrightarrow> b \<le> a_cursor (ab (rl_store st')) \<longrightarrow>
        a_pending (ab (rl_store st')) j \<noteq> None \<or> list_ex (shows_nothing_owed w j) (rl_recon st') \<or>
        list_ex (accounts w j) (rl_sched st')) \<and>
     (\<forall>j. a_pending (ab (rl_store st)) j \<noteq> None \<longrightarrow> a_pending (ab (rl_store st')) j = None \<longrightarrow>
        list_ex (accounts w j) (rl_sched st')) \<and>
     (err = None \<longrightarrow>
        count_list (rl_sched st') IncPauseEvent = count_list (rl_sched st) IncPauseEvent \<and>
        a_nextAllowed (ab (rl_store st')) = a_nextAllowed (ab (rl_store st)) \<and>
        (\<forall>j p q. a_pending (ab (rl_store st)) j = Some p \<longrightarrow> a_pending (ab (rl_store st')) j = Some q \<longrightarrow> q = p) \<and>
        (\<not> reconcileOnly \<longrightarrow> last out = PendingAfter (card (dom (a_pending (ab (rl_store st')))))))"

context release_store
begin

lemma runReleaseCycle_effect:
  assumes "inv (ss_store st)" "sch_store sd = ops" "runReleaseCycle sd head window pending st = (res, st')"
  shows "cycle_effect inv abs (sch_workerAddr sd) (\<not> Paused res \<and> Failed res = 0) st st'"
proof -
  obtain st1 where p: "progress inv abs (sch_workerAddr sd) st st1" and u: "unblamed abs res st st1"
      and c: "cycle_close sd (hd_Timestamp head) res st1 st'"
    using cycle_shape [OF assms] by blast
  show ?thesis using close_store [OF progress_ok [OF p] assms(2) c] close_trace [OF c] p u
    by (auto simp: cycle_effect_def progress_def same_gates_def unblamed_def)
qed

lemma RunOnce_effect:
  assumes inv: "inv (ss_store st)" and sd: "sch_store sd = ops" and run: "RunOnce sd st = (r, st')"
  shows "cycle_effect inv abs (sch_workerAddr sd) (case r of Inl e \<Rightarrow> True | Inr res \<Rightarrow> \<not> Paused res \<and> Failed res = 0) st st'"
proof -
  obtain h st1 where h: "on_chain (sc_Head (sch_chain sd)) st = (h, st1)" by (metis prod.exhaust)
  obtain g st2 where g: "on_store (st_GetNextAllowedAttempt ops) st1 = (g, st2)" by (metis prod.exhaust)
  obtain d st3 where d: "disputeWindow sd st2 = (d, st3)" by (metis prod.exhaust)
  obtain q st4 where q: "on_store (st_Pending ops) st3 = (q, st4)" by (metis prod.exhaust)
  have s1: "inv (ss_store st1)" "abs (ss_store st1) = abs (ss_store st)" "ss_trace st1 = ss_trace st"
    using inv on_chain_eq [OF h] by simp_all
  have s2: "inv (ss_store st2)" "abs (ss_store st2) = abs (ss_store st)" "ss_trace st2 = ss_trace st"
    using GetNextAllowedAttempt_law [OF s1(1) on_store_eq(1) [OF g]] on_store_eq [OF g] s1 by simp_all
  have s3: "inv (ss_store st3)" "abs (ss_store st3) = abs (ss_store st)" "ss_trace st3 = ss_trace st"
    using disputeWindow_eq [OF d] s2 by simp_all
  have s4: "inv (ss_store st4)" "abs (ss_store st4) = abs (ss_store st)" "ss_trace st4 = ss_trace st"
    using Pending_law [OF s3(1) on_store_eq(1) [OF q]] on_store_eq [OF q] s3 by simp_all
  note same = cycle_effect_same [of inv st1 abs st, OF s1] cycle_effect_same [of inv st2 abs st, OF s2] cycle_effect_same [of inv st3 abs st, OF s3] cycle_effect_same [of inv st4 abs st, OF s4]
  have cyc: "cycle_effect inv abs (sch_workerAddr sd) (\<not> Paused res \<and> Failed res = 0) st st5"
    if "runReleaseCycle sd head window pending st4 = (res, st5)" for head window pending res st5
    using runReleaseCycle_effect [OF s4(1) sd that] cycle_effect_from [of abs st4 st, OF s4(2,3)] by simp
  show ?thesis using run h g d q sd same
    by (auto simp: RunOnce_def split: sum.splits if_splits prod.splits dest: cyc)
qed

lemma cycle_part_effect:
  assumes "inv (rl_store st)" "cycle_part (NewScheduler ops ch w cfg) st = (r, st')"
  shows "cycle_effect inv abs w (case r of Inl e \<Rightarrow> True | Inr res \<Rightarrow> \<not> Paused res \<and> Failed res = 0)
      \<lparr>ss_chain = rl_chain st, ss_store = rl_store st, ss_trace = rl_sched st\<rparr>
      \<lparr>ss_chain = rl_chain st', ss_store = rl_store st', ss_trace = rl_sched st'\<rparr> \<and> rl_recon st' = rl_recon st"
  using RunOnce_effect [of "\<lparr>ss_chain = rl_chain st, ss_store = rl_store st, ss_trace = rl_sched st\<rparr>" "NewScheduler ops ch w cfg"] assms
  by (auto simp: cycle_part_def NewScheduler_def cycle_effect_def split: prod.splits)

lemma reconcile_part_covers:
  assumes "inv (rl_store st)" "logs_complete \<lparr>rc_Head = sm_Head ch, rc_FilterJobCompleted = sm_FilterJobCompleted ch, rc_GetJobState = sm_GetJobState ch\<rparr> w log"
    and "reconcile_part fuel (NewReconciler ops ch w cfg) st = Some (e, st')"
  shows "inv (rl_store st')" "a_pending (abs (rl_store st)) \<subseteq>\<^sub>m a_pending (abs (rl_store st'))"
    "a_nextAllowed (abs (rl_store st')) = a_nextAllowed (abs (rl_store st))" "rl_sched st' = rl_sched st"
    "a_cursor (abs (rl_store st')) \<noteq> a_cursor (abs (rl_store st)) \<Longrightarrow> (b, j) \<in> log \<Longrightarrow>
      start_block cfg (a_cursor (abs (rl_store st))) \<le> b \<Longrightarrow> b \<le> a_cursor (abs (rl_store st')) \<Longrightarrow>
      a_pending (abs (rl_store st')) j \<noteq> None \<or> list_ex (shows_nothing_owed w j) (rl_recon st')"
proof -
  let ?st = "\<lparr>rs_chain = rl_chain st, rs_store = rl_store st, rs_trace = rl_recon st\<rparr>"
  obtain rst where run: "Run fuel (NewReconciler ops ch w cfg) ?st = Some (e, rst)"
      and st': "st' = st\<lparr>rl_chain := rs_chain rst, rl_store := rs_store rst, rl_recon := rs_trace rst\<rparr>"
    using assms(3) by (auto simp: reconcile_part_def)
  have c: "grows inv abs ?st rst \<and> (a_cursor (abs (rs_store rst)) = a_cursor (abs (rl_store st)) \<or>
      (\<forall>b j. (b, j) \<in> log \<longrightarrow> start_block cfg (a_cursor (abs (rl_store st))) \<le> b \<longrightarrow>
        b \<le> a_cursor (abs (rs_store rst)) \<longrightarrow> recorded abs w rst j))"
    using Run_covers [of ?st "NewReconciler ops ch w cfg" log fuel e rst] run assms(1,2) by (simp add: NewReconciler_def)
  then show "inv (rl_store st')" "a_pending (abs (rl_store st)) \<subseteq>\<^sub>m a_pending (abs (rl_store st'))"
    "a_nextAllowed (abs (rl_store st')) = a_nextAllowed (abs (rl_store st))" "rl_sched st' = rl_sched st"
    by (simp_all add: grows_def st')
  show "a_cursor (abs (rl_store st')) \<noteq> a_cursor (abs (rl_store st)) \<Longrightarrow> (b, j) \<in> log \<Longrightarrow>
      start_block cfg (a_cursor (abs (rl_store st))) \<le> b \<Longrightarrow> b \<le> a_cursor (abs (rl_store st')) \<Longrightarrow>
      a_pending (abs (rl_store st')) j \<noteq> None \<or> list_ex (shows_nothing_owed w j) (rl_recon st')"
    using c by (auto simp: recorded_def st')
qed

lemma release_cycle_part_effect:
  assumes "inv (rl_store st)" "release_cycle_part ops (NewScheduler ops ch w cfg) st = (err, out, st')"
  shows "cycle_effect inv abs w (err = None)
      \<lparr>ss_chain = rl_chain st, ss_store = rl_store st, ss_trace = rl_sched st\<rparr>
      \<lparr>ss_chain = rl_chain st', ss_store = rl_store st', ss_trace = rl_sched st'\<rparr>"
    and "rl_recon st' = rl_recon st"
    and "err = None \<Longrightarrow> last out = PendingAfter (card (dom (a_pending (abs (rl_store st')))))"
proof -
  obtain r st1 where c: "cycle_part (NewScheduler ops ch w cfg) st = (r, st1)" by (metis prod.exhaust)
  obtain q s2 where q: "st_Pending ops (rl_store st1) = (q, s2)" by (metis prod.exhaust)
  note e = cycle_part_effect [OF assms(1) c]
  have i1: "inv (rl_store st1)" using e by (simp add: cycle_effect_def)
  note law = Pending_law [OF i1 q]
  show "cycle_effect inv abs w (err = None)
      \<lparr>ss_chain = rl_chain st, ss_store = rl_store st, ss_trace = rl_sched st\<rparr>
      \<lparr>ss_chain = rl_chain st', ss_store = rl_store st', ss_trace = rl_sched st'\<rparr>"
    using e law assms(2) c q
    by (cases r; cases q) (auto simp: release_cycle_part_def cycle_effect_def cycle_exit_def split: if_splits)
  show "rl_recon st' = rl_recon st"
    using e assms(2) c q by (cases r; cases q) (auto simp: release_cycle_part_def)
  show "err = None \<Longrightarrow> last out = PendingAfter (card (dom (a_pending (abs (rl_store st')))))"
    using law assms(2) c q by (cases r; cases q) (auto simp: release_cycle_part_def pending_count)
qed

lemma cli_Release_effect:
  assumes inv: "inv (rl_store st)"
    and logs: "logs_complete \<lparr>rc_Head = sm_Head ch, rc_FilterJobCompleted = sm_FilterJobCompleted ch, rc_GetJobState = sm_GetJobState ch\<rparr> w log"
    and run: "cli_Release fuel (Some ch) (Some ops) w cfg reconcileOnly st = Some (err, out, st')"
  shows "release_effect inv abs w cfg log reconcileOnly err out st st'"
proof -
  obtain e1 st1 where r: "reconcile_part fuel (NewReconciler ops ch w cfg) st = Some (e1, st1)"
    using run by (cases "reconcile_part fuel (NewReconciler ops ch w cfg) st") (auto simp: cli_Release_def)
  note c = reconcile_part_covers [OF inv logs r]
  show ?thesis
  proof (cases "e1 \<noteq> None \<or> reconcileOnly")
    case True
    then have "st' = st1" "err \<noteq> None \<or> reconcileOnly" using run r by (cases e1; auto simp: cli_Release_def)+
    then show ?thesis using c by (fastforce simp: release_effect_def map_le_def dom_def)
  next
    case False
    obtain e2 out2 where k: "release_cycle_part ops (NewScheduler ops ch w cfg) st1 = (err, out2, st')"
        and out: "out = ReconciliationComplete # out2"
      using run r False by (auto simp: cli_Release_def split: prod.splits)
    have ne: "out2 \<noteq> []" if "err = None"
      using k that by (auto simp: release_cycle_part_def split: sum.splits prod.splits)
    note f = release_cycle_part_effect [OF c(1) k]
    show ?thesis unfolding release_effect_def
    proof (intro conjI impI allI)
      show "inv (rl_store st')" using f(1) by (simp add: cycle_effect_def)
    next
      fix b j
      assume "a_cursor (abs (rl_store st')) \<noteq> a_cursor (abs (rl_store st))" "(b, j) \<in> log"
        "start_block cfg (a_cursor (abs (rl_store st))) \<le> b" "b \<le> a_cursor (abs (rl_store st'))"
      then show "a_pending (abs (rl_store st')) j \<noteq> None \<or> list_ex (shows_nothing_owed w j) (rl_recon st') \<or>
          list_ex (accounts w j) (rl_sched st')"
        using c(5) [of b j] f(1,2) by (auto simp: cycle_effect_def)
    next
      fix j
      assume "a_pending (abs (rl_store st)) j \<noteq> None" "a_pending (abs (rl_store st')) j = None"
      then show "list_ex (accounts w j) (rl_sched st')" using c(2) f(1) by (fastforce simp: cycle_effect_def map_le_def dom_def)
    qed (use c f out ne in \<open>auto simp: cycle_effect_def map_le_def dom_def\<close>)
  qed
qed

end

lemma Run_ends:
  assumes "\<And>c h c'. rc_Head (rec_chain r) c = (Inr h, c') \<Longrightarrow>
      unat (hd_Number h) + unat (chunk_size (rec_cfg r)) < 2 ^ 64 \<and> unat (hd_Number h) < fuel"
  shows "\<exists>res. Run fuel r st = Some res"
proof -
  obtain q st1 where q: "rs_call (st_GetReconcileBlock (rec_store r)) st = (q, st1)" by (metis prod.exhaust)
  obtain h st2 where h: "rc_call (\<lambda>_. []) (rc_Head (rec_chain r)) st1 = (h, st2)" by (metis prod.exhaust)
  show ?thesis
  proof (cases "\<exists>cursor head. q = Inr cursor \<and> h = Inr head \<and> Confirmations (rec_cfg r) \<le> hd_Number head")
    case True
    then obtain cursor head where e: "q = Inr cursor" "h = Inr head" and c: "Confirmations (rec_cfg r) \<le> hd_Number head" by blast
    let ?safe = "hd_Number head - Confirmations (rec_cfg r)"
    have "unat ?safe \<le> unat (hd_Number head)" using c by (simp add: word_le_nat_alt [symmetric] word_sub_le)
    moreover have "unat (hd_Number head) + unat (chunk_size (rec_cfg r)) < 2 ^ 64 \<and> unat (hd_Number head) < fuel"
      using assms rc_call_eq(1) [OF h] e(2) by blast
    moreover have "chunk_size (rec_cfg r) \<noteq> 0" by (simp add: chunk_size_def)
    ultimately have "\<exists>res. scan_loop fuel r (chunk_size (rec_cfg r)) ?safe (start_block (rec_cfg r) cursor) st2 = Some res"
      by (intro scan_loop_enough_fuel) linarith+
    then show ?thesis using q h e by (auto simp: Run_def Let_def)
  next
    case False
    then show ?thesis using q h by (cases q; cases h) (auto simp: Run_def Let_def)
  qed
qed

lemma cli_Release_ends:
  assumes "\<And>c h c'. sm_Head ch c = (Inr h, c') \<Longrightarrow>
      unat (hd_Number h) + unat (chunk_size cfg) < 2 ^ 64 \<and> unat (hd_Number h) < fuel"
  shows "\<exists>err out st'. cli_Release fuel (Some ch) (Some ops) w cfg reconcileOnly st = Some (err, out, st')"
proof -
  obtain e st1 where "reconcile_part fuel (NewReconciler ops ch w cfg) st = Some (e, st1)"
    using Run_ends [of "NewReconciler ops ch w cfg" fuel "\<lparr>rs_chain = rl_chain st, rs_store = rl_store st, rs_trace = rl_recon st\<rparr>"] assms
    by (auto simp: NewReconciler_def reconcile_part_def)
  then show ?thesis by (cases e) (auto simp: cli_Release_def split: prod.splits)
qed

section \<open>Property\<close>

definition demo_settlement :: "unit SettlementClient" where
  "demo_settlement = \<lparr>sm_Head = \<lambda>c. (Inr \<lparr>hd_Number = 30, hd_Timestamp = 1000\<rparr>, c),
     sm_FilterJobCompleted = \<lambda>w lo hi c.
       (Inr (if lo \<le> 20 \<and> 20 \<le> hi then [\<lparr>jc_JobID = 4, jc_Worker = 2, jc_BlockNumber = 20\<rparr>] else []), c),
     sm_GetJobState = \<lambda>j c.
       (Inr \<lparr>ji_State = JobStateCompleted, ji_Worker = 2, ji_CompletedAt = 100, ji_EscrowedFee = Some 5\<rparr>, c),
     sm_GetDisputeWindow = \<lambda>c. (Inr (60 * Second), c), sm_ReleaseJob = \<lambda>j c. (None, c), sm_ReleaseJobs = \<lambda>js c. (None, c)\<rparr>"

definition demo_release :: "(go_error option \<times> release_line list \<times> (unit, store_world) rel_st) option" where
  "demo_release = cli_Release 40 (Some demo_settlement) (Some (FileStore_ops demo_lib demo_store)) 2 (DefaultConfig\<lparr>ChunkSize := 8\<rparr>) False
     \<lparr>rl_chain = (), rl_store = demo_world [], rl_recon = [], rl_sched = []\<rparr>"

text \<open>
  C22. The release command returns, accounts for every payout and does not report success over a failure. Whatever the chain and
  the disk answer, as long as the node's log filter is complete and a head it reports leaves room for one more chunk
  below 2^64 (\<open>fuel\<close> chunks, more than the head's number, are enough): a job of this worker completed between the old and the new reconcile cursor is pending
  afterwards, or was read in this run as settled or not this worker's, or was released in this run; a job that was pending
  before and is gone was released or read as settled; the state file stays well formed. And if the command exits with
  success, it met no pause of the contract and left the pause gate alone, no job that is still pending was
  charged with a failure, and the last line of its report is the number of jobs pending in the file.
\<close>

theorem release_command_honest:
  assumes "fs_inv lib s (rl_store st)"
    and "logs_complete \<lparr>rc_Head = sm_Head ch, rc_FilterJobCompleted = sm_FilterJobCompleted ch, rc_GetJobState = sm_GetJobState ch\<rparr> w log"
    and "\<And>c h c'. sm_Head ch c = (Inr h, c') \<Longrightarrow>
      unat (hd_Number h) + unat (chunk_size cfg) < 2 ^ 64 \<and> unat (hd_Number h) < fuel"
  shows "\<exists>err out st'. cli_Release fuel (Some ch) (Some (FileStore_ops lib s)) w cfg reconcileOnly st = Some (err, out, st') \<and>
    release_effect (fs_inv lib s) fs_abs w cfg log reconcileOnly err out st st'"
proof -
  obtain err out st' where run: "cli_Release fuel (Some ch) (Some (FileStore_ops lib s)) w cfg reconcileOnly st = Some (err, out, st')"
    using cli_Release_ends [of ch cfg fuel "FileStore_ops lib s" w reconcileOnly st] assms(3) by blast
  with file_store.cli_Release_effect [OF assms(1,2) run] show ?thesis by blast
qed

theorem release_command_honest_witness:
  "\<exists>st'. demo_release = Some (None, [ReconciliationComplete, CycleComplete 1 0, PendingAfter 0], st') \<and>
     release_effect (fs_inv demo_lib demo_store) fs_abs 2 (DefaultConfig\<lparr>ChunkSize := 8\<rparr>) {(20, 4)} False None
       [ReconciliationComplete, CycleComplete 1 0, PendingAfter 0]
       \<lparr>rl_chain = (), rl_store = demo_world [], rl_recon = [], rl_sched = []\<rparr> st'"
proof -
  have "(case demo_release of Some (e, out, st') \<Rightarrow> e = None \<and> out = [ReconciliationComplete, CycleComplete 1 0, PendingAfter 0] | None \<Rightarrow> False)"
    by code_simp
  then obtain st' where run: "demo_release = Some (None, [ReconciliationComplete, CycleComplete 1 0, PendingAfter 0], st')"
    by (auto split: option.splits)
  have logs: "logs_complete \<lparr>rc_Head = sm_Head demo_settlement, rc_FilterJobCompleted = sm_FilterJobCompleted demo_settlement,
      rc_GetJobState = sm_GetJobState demo_settlement\<rparr> 2 {(20, 4)}"
    by (auto simp: logs_complete_def demo_settlement_def split: if_splits)
  have head: "unat (hd_Number h) + unat (chunk_size (DefaultConfig\<lparr>ChunkSize := 8\<rparr>)) < 2 ^ 64 \<and> unat (hd_Number h) < 40"
    if "sm_Head demo_settlement c = (Inr h, c')" for c h c'
    using that by (auto simp: demo_settlement_def chunk_size_def)
  have "fs_inv demo_lib demo_store (rl_store \<lparr>rl_chain = (), rl_store = demo_world [], rl_recon = [], rl_sched = []\<rparr>)"
    by (simp add: demo_world_inv)
  from release_command_honest [where reconcileOnly = False, OF this logs head] show ?thesis using run by (auto simp: demo_release_def)
qed

end
