(* ===== verification/Voice_Client.thy ===== *)
theory Voice_Client
  imports Job_Runs Gateway_Client
begin

text \<open>
  The clients of the pipeline's side services: the voice sidecars (internal/voice/client.go), web search
  (internal/search/client.go) and the artifact frames (internal/pipeline/artifact.go), with what the speech and transcription
  stages of a job rest on.

  HTTP is the record \<open>voice_http\<close>: the answer to a request, over a state of any type, with the body as the chunks that
  arrive and the error that ends them early. The timeout of a request reaches the code as such an error; closing the
  body and cancelling the context are left out. The speed of a speech request is always 1.0.
\<close>

section \<open>Voice sidecars\<close>

record ttsRequest =
  tr_Text :: string
  tr_Voice :: string
  tr_Stream :: bool
  tr_MaxBytes :: int

record voice_resp =
  vr_StatusCode :: int
  vr_Body :: "byte list list"
  vr_fault :: "go_error option"
  vr_XAudioTruncated :: string

record 'c voice_http =
  vh_badURL :: "string \<Rightarrow> go_error option"
  vh_transcribe :: "string \<Rightarrow> byte list \<Rightarrow> 'c \<Rightarrow> (go_error + voice_resp) \<times> 'c"
  vh_speak :: "string \<Rightarrow> ttsRequest \<Rightarrow> 'c \<Rightarrow> (go_error + voice_resp) \<times> 'c"
  vh_text :: "byte list \<Rightarrow> go_error + string"

record voice_client =
  vc_sttURL :: string
  vc_ttsURL :: string
  vc_sttTimeout :: int
  vc_ttsTimeout :: int

definition voice_New :: "string \<Rightarrow> string \<Rightarrow> int \<Rightarrow> int \<Rightarrow> voice_client" where
  "voice_New sttURL ttsURL sttTimeout ttsTimeout =
     \<lparr>vc_sttURL = TrimRightSlash sttURL, vc_ttsURL = TrimRightSlash ttsURL,
      vc_sttTimeout = (if sttTimeout \<le> 0 then 10 * Second else sttTimeout),
      vc_ttsTimeout = (if ttsTimeout \<le> 0 then 20 * Second else ttsTimeout)\<rparr>"

definition maxTranscriptionBody :: int where
  "maxTranscriptionBody = 1048576"

definition readSlack :: int where
  "readSlack = 4096"

text \<open>io.ReadAll of an io.LimitReader: a fault behind the limit is never reached.\<close>

definition read_limited :: "int \<Rightarrow> voice_resp \<Rightarrow> go_error + byte list" where
  "read_limited limit resp =
     (let body = concat (vr_Body resp) in
      if limit \<le> int (length body) then Inr (take (nat limit) body)
      else case vr_fault resp of Some e \<Rightarrow> Inl e | None \<Rightarrow> Inr body)"

definition is_2xx :: "int \<Rightarrow> bool" where
  "is_2xx status \<longleftrightarrow> 200 \<le> status \<and> status < 300"

definition bad_audio :: "string \<Rightarrow> go_error" where
  "bad_audio m = sentinel_err (''voice sidecar rejected the request: '' @ m) ErrBadAudio"

definition voice_classifyStatus :: "int \<Rightarrow> go_error option" where
  "voice_classifyStatus status =
     (if is_2xx status then None
      else if status = 400 \<or> status = 413 \<or> status = 422 then Some (bad_audio ''status'')
      else Some (errorf ''voice sidecar status (retryable)''))"

definition Transcribe :: "'c voice_http \<Rightarrow> voice_client \<Rightarrow> byte list \<Rightarrow> string \<Rightarrow> 'c \<Rightarrow> (go_error + string) \<times> 'c" where
  "Transcribe vh c audio format w =
     (if vc_sttURL c = [] then (Inl (bad_audio ''STT sidecar URL not configured''), w)
      else if format \<noteq> [] \<and> strings_ToLower format \<noteq> ''wav'' then (Inl (bad_audio ''sidecar only decodes WAV''), w)
      else if audio = [] then (Inl (bad_audio ''empty audio body''), w)
      else case vh_badURL vh (vc_sttURL c @ ''/v1/transcribe'') of
        Some e \<Rightarrow> (Inl (wrapf ''build transcription request'' e), w)
      | None \<Rightarrow>
     (case vh_transcribe vh (vc_sttURL c @ ''/v1/transcribe'') audio w of
        (Inl e, w1) \<Rightarrow> (Inl (wrapf ''transcription request'' e), w1)
      | (Inr resp, w1) \<Rightarrow>
     (case read_limited maxTranscriptionBody resp of
        Inl e \<Rightarrow> (Inl (wrapf ''read transcription response'' e), w1)
      | Inr respBody \<Rightarrow>
     (case voice_classifyStatus (vr_StatusCode resp) of
        Some e \<Rightarrow> (Inl e, w1)
      | None \<Rightarrow>
     (case vh_text vh respBody of
        Inl e \<Rightarrow> (Inl (bad_audio ''undecodable transcription body''), w1)
      | Inr text \<Rightarrow> (Inr text, w1))))))"

definition SynthesizeSettled ::
  "'c voice_http \<Rightarrow> voice_client \<Rightarrow> string \<Rightarrow> string \<Rightarrow> int \<Rightarrow> 'c \<Rightarrow> (go_error + byte list \<times> bool) \<times> 'c" where
  "SynthesizeSettled vh c text voice maxBytes w =
     (if vc_ttsURL c = [] then (Inl (bad_audio ''TTS sidecar URL not configured''), w)
      else case vh_badURL vh (vc_ttsURL c @ ''/v1/tts.mp3'') of
        Some e \<Rightarrow> (Inl (wrapf ''build speech request'' e), w)
      | None \<Rightarrow>
     (case vh_speak vh (vc_ttsURL c @ ''/v1/tts.mp3'') \<lparr>tr_Text = text, tr_Voice = voice, tr_Stream = False, tr_MaxBytes = maxBytes\<rparr> w of
        (Inl e, w1) \<Rightarrow> (Inl (wrapf ''speech request'' e), w1)
      | (Inr resp, w1) \<Rightarrow>
     (case voice_classifyStatus (vr_StatusCode resp) of
        Some e \<Rightarrow> (Inl e, w1)
      | None \<Rightarrow>
     (case read_limited (i64 (maxBytes + readSlack)) resp of
        Inl e \<Rightarrow> (Inl (wrapf ''read speech response'' e), w1)
      | Inr audio \<Rightarrow>
          if audio = [] then (Inl (bad_audio ''sidecar returned no audio''), w1)
          else if 0 < maxBytes \<and> maxBytes < int (length audio) then (Inl (bad_audio ''over the limit''), w1)
          else (Inr (audio, vr_XAudioTruncated resp = ''true''), w1)))))"

definition Synthesize ::
  "'c voice_http \<Rightarrow> voice_client \<Rightarrow> string \<Rightarrow> string \<Rightarrow> 'c \<Rightarrow> (go_error + byte list list \<times> go_error option) \<times> 'c" where
  "Synthesize vh c text voice w =
     (if vc_ttsURL c = [] then (Inl (bad_audio ''TTS sidecar URL not configured''), w)
      else case vh_badURL vh (vc_ttsURL c @ ''/v1/tts'') of
        Some e \<Rightarrow> (Inl (wrapf ''build speech request'' e), w)
      | None \<Rightarrow>
     (case vh_speak vh (vc_ttsURL c @ ''/v1/tts'') \<lparr>tr_Text = text, tr_Voice = voice, tr_Stream = True, tr_MaxBytes = 0\<rparr> w of
        (Inl e, w1) \<Rightarrow> (Inl (wrapf ''speech request'' e), w1)
      | (Inr resp, w1) \<Rightarrow>
          (case voice_classifyStatus (vr_StatusCode resp) of
             Some e \<Rightarrow> (Inl e, w1)
           | None \<Rightarrow> (Inr (vr_Body resp, vr_fault resp), w1))))"

section \<open>Web search\<close>

record tavilyRequest =
  tq_APIKey :: string
  tq_Query :: string
  tq_MaxResults :: int
  tq_SearchDepth :: string

text \<open>The body of an answer, decoded: title, URL and content of each result.\<close>

record 'c tavily_http =
  th_badURL :: "string \<Rightarrow> go_error option"
  th_post :: "string \<Rightarrow> tavilyRequest \<Rightarrow> 'c \<Rightarrow> (go_error + int \<times> (go_error + (string \<times> string \<times> string) list)) \<times> 'c"

definition number_sources :: "(string \<times> string \<times> string) list \<Rightarrow> Source list" where
  "number_sources rs = map (\<lambda>(i, title, url, content). \<lparr>so_Position = int i + 1, so_Title = title, so_URL = url, so_Snippet = content\<rparr>)
     (enumerate 0 rs)"

definition tavily_Search :: "'c tavily_http \<Rightarrow> string \<Rightarrow> string \<Rightarrow> string \<Rightarrow> int \<Rightarrow> 'c \<Rightarrow> (go_error + Source list) \<times> 'c" where
  "tavily_Search th baseURL apiKey query maxResults w =
     (case th_badURL th (baseURL @ ''/search'') of
        Some e \<Rightarrow> (Inl (wrapf ''build tavily request'' e), w)
      | None \<Rightarrow>
     (case th_post th (baseURL @ ''/search'')
             \<lparr>tq_APIKey = apiKey, tq_Query = query, tq_MaxResults = maxResults, tq_SearchDepth = ''basic''\<rparr> w of
        (Inl e, w1) \<Rightarrow> (Inl (wrapf ''tavily request'' e), w1)
      | (Inr (status, body), w1) \<Rightarrow>
          if status \<noteq> 200 then (Inl (errorf ''tavily returned status''), w1)
          else (case body of
             Inl e \<Rightarrow> (Inl (wrapf ''decode tavily response'' e), w1)
           | Inr results \<Rightarrow> (Inr (number_sources results), w1))))"

section \<open>Artifact frames\<close>

record artifactDescriptor =
  ad_ArtifactType :: string
  ad_Schema :: string
  ad_Payload :: string
  ad_Settled :: bool

definition maxArtifactDescriptorBytes :: nat where
  "maxArtifactDescriptorBytes = 8192"

text \<open>\<open>marshal\<close> is encoding/json: it refuses a payload that is not JSON. The streamer comes back as it is after the call.\<close>

definition emitArtifact ::
  "(artifactDescriptor \<Rightarrow> go_error + string) \<Rightarrow> frame_lib \<Rightarrow> 's stream_env \<Rightarrow> chunkStreamer option \<Rightarrow> string \<Rightarrow> string \<Rightarrow> string \<Rightarrow>
     ('s, go_error option \<times> chunkStreamer option) prog" where
  "emitArtifact marshal fk se streamer artifactType schema payload =
     (case streamer of
        None \<Rightarrow> ret (None, None)
      | Some s \<Rightarrow>
          if artifactType = [] \<or> schema = [] then ret (Some (errorf ''artifact descriptor requires artifactType and schema''), Some s)
          else if payload = [] then ret (Some (errorf ''artifact descriptor requires a payload''), Some s)
          else case marshal \<lparr>ad_ArtifactType = artifactType, ad_Schema = schema, ad_Payload = payload, ad_Settled = False\<rparr> of
            Inl e \<Rightarrow> ret (Some (wrapf ''encode artifact descriptor'' e), Some s)
          | Inr raw \<Rightarrow>
              if maxArtifactDescriptorBytes < length raw then ret (Some (errorf ''artifact descriptor exceeds the limit''), Some s)
              else do { s1 \<leftarrow> PublishBytes fk se (fk_Artifact fk) raw s; ret (None, Some s1) })"

text \<open>The citations are numbered from 1 in the order of the results; an artifact that is refused leaves no frame behind.\<close>

lemma number_sources_positions: "map so_Position (number_sources rs) = map int [1..<Suc (length rs)]"
  by (rule nth_equalityI) (simp_all add: number_sources_def nth_enumerate_eq del: upt_Suc split: prod.splits)

lemma emitArtifact_refused:
  "run_state (emitArtifact marshal fk se streamer ty schema payload) st = ((Some e, streamer'), st') \<Longrightarrow> streamer' = streamer \<and> st' = st"
  by (auto simp: emitArtifact_def split: option.splits if_splits sum.splits prod.splits)

section \<open>What the stages of a job get\<close>

lemma base64_length: "length (base64_Encode bs) = 4 * ((length bs + 2) div 3)"
  by (induction bs rule: base64_Encode.induct, simp_all add: Let_def, presburger)

lemma read_limited_whole:
  assumes "read_limited limit resp = Inr body" "int (length body) < limit"
  shows "body = concat (vr_Body resp) \<and> vr_fault resp = None"
  using assms by (auto simp: read_limited_def Let_def split: if_splits option.splits)

lemma SynthesizeSettled_whole:
  assumes "SynthesizeSettled vh c text voice m w = (Inr (audio, truncated), w')" "0 < m" "m < 2 ^ 62"
  shows "audio \<noteq> [] \<and> int (length audio) \<le> m \<and>
    (\<exists>resp. vh_speak vh (vc_ttsURL c @ ''/v1/tts.mp3'') \<lparr>tr_Text = text, tr_Voice = voice, tr_Stream = False, tr_MaxBytes = m\<rparr> w = (Inr resp, w') \<and>
       is_2xx (vr_StatusCode resp) \<and> vr_fault resp = None \<and> audio = concat (vr_Body resp))"
proof -
  have lim: "i64 (m + readSlack) = m + readSlack" using assms(2,3) by (intro i64_id) (simp add: in_i64_def readSlack_def)
  obtain resp where resp: "vh_speak vh (vc_ttsURL c @ ''/v1/tts.mp3'') \<lparr>tr_Text = text, tr_Voice = voice, tr_Stream = False, tr_MaxBytes = m\<rparr> w = (Inr resp, w')"
      "is_2xx (vr_StatusCode resp)" "read_limited (m + readSlack) resp = Inr audio" "audio \<noteq> []" "int (length audio) \<le> m"
    using assms(1,2) unfolding SynthesizeSettled_def lim
    by (auto simp: voice_classifyStatus_def split: if_splits option.splits sum.splits prod.splits)
  have "int (length audio) < m + readSlack" using resp(5) by (simp add: readSlack_def)
  from read_limited_whole [OF resp(3) this] resp show ?thesis by blast
qed

text \<open>Errors of the network and of the standard library: none of the sentinels the retry decision looks for.\<close>

definition plain_error :: "go_error \<Rightarrow> bool" where
  "plain_error e \<longleftrightarrow> \<not> errors_Is e ErrBadAudio \<and> \<not> errors_Is e SkipRetry"

definition plain_errors :: "'c voice_http \<Rightarrow> bool" where
  "plain_errors vh \<longleftrightarrow>
     (\<forall>u. case vh_badURL vh u of None \<Rightarrow> True | Some e \<Rightarrow> plain_error e) \<and>
     (\<forall>u a w. case fst (vh_transcribe vh u a w) of Inl e \<Rightarrow> plain_error e
        | Inr resp \<Rightarrow> (case vr_fault resp of None \<Rightarrow> True | Some e \<Rightarrow> plain_error e))"

lemma bad_audio_is [simp]: "errors_Is (bad_audio m) x \<longleftrightarrow> x = ErrBadAudio"
  by (simp add: bad_audio_def)

text \<open>The sidecar's answer settles the fate of the job: it came in full, with a status that blames the request or with success.\<close>

definition final_answer :: "'c voice_http \<Rightarrow> voice_client \<Rightarrow> byte list \<Rightarrow> 'c \<Rightarrow> bool" where
  "final_answer vh c raw w \<longleftrightarrow>
     (case fst (vh_transcribe vh (vc_sttURL c @ ''/v1/transcribe'') raw w) of
        Inl e \<Rightarrow> False
      | Inr resp \<Rightarrow> \<not> isl (read_limited maxTranscriptionBody resp) \<and>
          (is_2xx (vr_StatusCode resp) \<or> vr_StatusCode resp \<in> {400, 413, 422}))"

lemma read_limited_fault: "read_limited n resp = Inl e \<Longrightarrow> vr_fault resp = Some e"
  by (auto simp: read_limited_def Let_def split: if_splits option.splits)

lemma Transcribe_error:
  assumes "plain_errors vh" "vc_sttURL c \<noteq> []" "format = [] \<or> strings_ToLower format = ''wav''" "raw \<noteq> []"
    and "vh_badURL vh (vc_sttURL c @ ''/v1/transcribe'') = None" "Transcribe vh c raw format w = (Inl e, w')"
  shows "\<not> errors_Is e SkipRetry \<and> (errors_Is e ErrBadAudio \<longleftrightarrow> final_answer vh c raw w)"
proof -
  let ?u = "vc_sttURL c @ ''/v1/transcribe''"
  obtain x w1 where x: "vh_transcribe vh ?u raw w = (x, w1)" by (metis prod.exhaust)
  have pl: "case x of Inl e \<Rightarrow> plain_error e | Inr resp \<Rightarrow> (case vr_fault resp of None \<Rightarrow> True | Some e \<Rightarrow> plain_error e)"
    using assms(1) x unfolding plain_errors_def by (metis fst_conv)
  show ?thesis
  proof (cases x)
    case (Inl e0)
    then show ?thesis using assms(2-) x pl by (auto simp: Transcribe_def final_answer_def plain_error_def)
  next
    case (Inr resp)
    show ?thesis
    proof (cases "read_limited maxTranscriptionBody resp")
      case (Inl e0)
      then show ?thesis using assms(2-) x Inr pl read_limited_fault [OF Inl]
        by (auto simp: Transcribe_def final_answer_def plain_error_def)
    next
      case body: (Inr b)
      then show ?thesis using assms(2-) x Inr
        by (auto simp: Transcribe_def final_answer_def voice_classifyStatus_def split: if_splits sum.splits)
    qed
  qed
qed

lemma Transcribe_ok:
  assumes "Transcribe vh c raw format w = (Inr t, w')"
  shows "final_answer vh c raw w"
  using assms by (auto simp: Transcribe_def final_answer_def voice_classifyStatus_def split: if_splits option.splits sum.splits prod.splits)

definition voice_env :: "'c voice_http \<Rightarrow> voice_client \<Rightarrow> 'c job_env \<Rightarrow> 'c job_env" where
  "voice_env vh c je = je\<lparr>je_Transcribe := Transcribe vh c, je_Synthesize := Synthesize vh c, je_SynthesizeSettled := SynthesizeSettled vh c\<rparr>"

lemma hask_run: "run_state (hask f ev) s = (case f (hs_env s) of (x, c) \<Rightarrow> (x, s\<lparr>hs_env := c, hs_trace := ev x @ hs_trace s\<rparr>))"
  by (simp add: hask_def)

section \<open>Properties\<close>

text \<open>A sidecar that speaks two bytes and transcribes, or answers every transcription with a status.\<close>

definition demo_voice :: "int \<Rightarrow> int voice_http" where
  "demo_voice status = \<lparr>vh_badURL = \<lambda>u. None,
     vh_transcribe = \<lambda>u a w. (Inr \<lparr>vr_StatusCode = status, vr_Body = [[7]], vr_fault = None, vr_XAudioTruncated = []\<rparr>, w),
     vh_speak = \<lambda>u r w. (Inr \<lparr>vr_StatusCode = 200, vr_Body = [[1], [2]], vr_fault = None, vr_XAudioTruncated = []\<rparr>, w),
     vh_text = \<lambda>b. Inr ''hi''\<rparr>"

definition demo_voice_client :: voice_client where
  "demo_voice_client = voice_New ''http://stt/'' ''http://tts'' 0 0"

definition demo_voice_handler :: "redis_map JobHandler" where
  "demo_voice_handler = (demo_handler demo_ckpt)\<lparr>jh_voiceEngine := True, jh_cfg := demo_config\<lparr>hc_STTEnabled := True\<rparr>\<rparr>"

text \<open>
  C23. A speech job settles the whole utterance or nothing: when the speech stage over the voice client returns an answer, the
  sidecar was asked once, without streaming, for the trimmed text, it answered with success, its body arrived without
  a fault, and the answer is the base64 text of exactly that body, which is not empty and at most 92000 bytes, so
  the answer has at most 122668 characters (a blob holds 126972 bytes). An answer over the limit is refused, never cut.
\<close>

theorem settled_audio_complete:
  assumes "run_state (runSpeechJob (voice_env vh c je) h text) s = (Inr answer, s')"
  shows "\<exists>resp voice. vh_speak vh (vc_ttsURL c @ ''/v1/tts.mp3'')
        \<lparr>tr_Text = TrimSpace text, tr_Voice = voice, tr_Stream = False, tr_MaxBytes = 92000\<rparr> (hs_env s) = (Inr resp, hs_env s') \<and>
      is_2xx (vr_StatusCode resp) \<and> vr_fault resp = None \<and> concat (vr_Body resp) \<noteq> [] \<and> length (concat (vr_Body resp)) \<le> 92000 \<and>
      base64_Decode answer = Some (concat (vr_Body resp)) \<and> length answer \<le> 122668 \<and> hs_trace s' = hs_trace s"
proof -
  let ?v = "if hc_TTSVoice (jh_cfg h) = [] then ''af_heart'' else hc_TTSVoice (jh_cfg h)"
  obtain r w' where r: "SynthesizeSettled vh c (TrimSpace text) ?v 92000 (hs_env s) = (r, w')" by (metis prod.exhaust)
  obtain audio tr where a: "r = Inr (audio, tr)" "answer = base64_Encode audio" "s' = s\<lparr>hs_env := w'\<rparr>"
    using assms r by (auto simp: runSpeechJob_def voice_env_def hask_run SettledAudioMaxBytes_def Let_def split: if_splits sum.splits prod.splits)
  have n: "audio \<noteq> [] \<and> int (length audio) \<le> 92000 \<and>
    (\<exists>resp. vh_speak vh (vc_ttsURL c @ ''/v1/tts.mp3'') \<lparr>tr_Text = TrimSpace text, tr_Voice = ?v, tr_Stream = False, tr_MaxBytes = 92000\<rparr> (hs_env s) = (Inr resp, w') \<and>
       is_2xx (vr_StatusCode resp) \<and> vr_fault resp = None \<and> audio = concat (vr_Body resp))"
    using SynthesizeSettled_whole [OF r [unfolded a(1)]] by simp
  moreover have "(length audio + 2) div 3 \<le> 92002 div 3" by (rule div_le_mono) (use n in linarith)
  ultimately show ?thesis by (auto simp: a(2,3) base64_length)
qed

theorem settled_audio_complete_witness:
  "\<exists>answer s'. run_state (runSpeechJob (voice_env (demo_voice 200) demo_voice_client demo_env) demo_voice_handler '' hello '') demo_start = (Inr answer, s') \<and>
     base64_Decode answer = Some [1, 2] \<and> length answer \<le> 122668"
proof -
  let ?r = "run_state (runSpeechJob (voice_env (demo_voice 200) demo_voice_client demo_env) demo_voice_handler '' hello '') demo_start"
  have "\<not> isl (fst ?r)" by code_simp
  then obtain answer s' where r: "?r = (Inr answer, s')" by (cases ?r; cases "fst ?r") auto
  from settled_audio_complete [OF r] have "base64_Decode answer = Some [1, 2] \<and> length answer \<le> 122668"
    by (auto simp: demo_voice_def)
  with r show ?thesis by blast
qed


definition demo_audio_prompt :: promptEnvelope where
  "demo_audio_prompt = \<lparr>pe_Text = [], pe_Images = [], pe_Audio = ''AQ=='', pe_AudioFormat = ''WAV'', pe_AudioResponse = False, pe_Voice = [], pe_Messages = []\<rparr>"

definition demo_transcription :: "int \<Rightarrow> (go_error + promptEnvelope) \<times> (int, redis_map) hst" where
  "demo_transcription status = run_state (maybeTranscribeAudio (voice_env (demo_voice status) demo_voice_client demo_env) demo_voice_handler
     demo_audio_prompt) demo_start"


end
