(* ===== verification/Service_Handler.thy ===== *)
theory Service_Handler
  imports Service_Lifecycle
begin

text \<open>
  The job handler as the service wires it (internal/pipeline/handler.go, NewJobHandler and its setters;
  internal/service/service.go): the table of model names, and which model a job of the chain runs on.
\<close>

section \<open>The constructor\<close>

text \<open>What the clients passed in implement: AsyncAckClient, JobDeadlineClient, StreamingInferenceClient and WithOverrides.\<close>

record handler_clients =
  hl_asyncAck :: bool
  hl_reportsDeadlines :: bool
  hl_streaming :: bool
  hl_overriding :: bool
  hl_options :: ClientOptions

definition normalize_names :: "(string \<times> string) list \<Rightarrow> (string \<times> string) list" where
  "normalize_names names = map (\<lambda>(k, v). (normalizeModelLookupKey k, v)) names"

text \<open>A nil publisher is replaced by the Redis publisher, which supports chunks, when there is a Redis client.\<close>

definition NewJobHandler ::
  "handler_clients \<Rightarrow> bool \<Rightarrow> HandlerConfig \<Rightarrow> bool option \<Rightarrow> ('r redis \<times> CheckpointStore) option \<Rightarrow> bool \<Rightarrow> 'r JobHandler" where
  "NewJobHandler cl redisClient cfg publisher checkpoints searcher =
     \<lparr>jh_cfg = cfg, jh_modelIDToName = normalize_names (hc_ModelIDToName cfg),
      jh_asyncAck = hl_asyncAck cl, jh_reportsDeadlines = hl_reportsDeadlines cl,
      jh_publisher = (if publisher = None \<and> redisClient then Some True else publisher),
      jh_checkpoints = checkpoints, jh_releaseTracker = False, jh_voiceEngine = False, jh_searcher = searcher,
      jh_priorJobs = False, jh_streamingClient = hl_streaming cl, jh_overridingClient = hl_overriding cl,
      jh_clientOptions = hl_options cl\<rparr>"

definition SetReleaseTracker :: "'r JobHandler \<Rightarrow> 'r JobHandler" where
  "SetReleaseTracker h = h\<lparr>jh_releaseTracker := True\<rparr>"

definition SetPriorJobLister :: "'r JobHandler \<Rightarrow> 'r JobHandler" where
  "SetPriorJobLister h = h\<lparr>jh_priorJobs := True\<rparr>"

definition SetVoiceEngine :: "'r JobHandler \<Rightarrow> 'r JobHandler" where
  "SetVoiceEngine h = h\<lparr>jh_voiceEngine := True\<rparr>"

section \<open>Keys of the table\<close>

lemma hex_digit_chars: "d < 16 \<Longrightarrow> hex_digit d \<noteq> CHR ''x'' \<and> hex_digit d \<noteq> CHR ''X'' \<and> to_lower_char (hex_digit d) = hex_digit d"
proof -
  assume d: "d < 16"
  have "hex_value (CHR ''x'') = None" "hex_value (CHR ''X'') = None" by (simp_all add: hex_value_def)
  then have "hex_digit d \<noteq> CHR ''x''" "hex_digit d \<noteq> CHR ''X''" using hex_value_digit [OF d] by auto
  then show ?thesis using d by (simp add: hex_digit_def to_lower_char_def of_char_of)
qed

lemma hex_string_digits:
  assumes "c \<in> set (hex_EncodeToString b)"
  shows "\<exists>d<16. c = hex_digit d"
proof -
  obtain x :: byte where x: "c = hex_digit (unat x div 16) \<or> c = hex_digit (unat x mod 16)"
    using assms by (auto simp: hex_EncodeToString_def)
  moreover have "unat x div 16 < 16" "unat x mod 16 < 16" using byte_lt [of x] by simp_all
  ultimately show ?thesis by blast
qed

lemma hex_string_chars: "c \<in> set (hex_EncodeToString b) \<Longrightarrow> c \<noteq> CHR ''x'' \<and> c \<noteq> CHR ''X'' \<and> to_lower_char c = c"
  using hex_digit_chars by (auto dest!: hex_string_digits)

lemma hex_lower: "strings_ToLower (hex_EncodeToString b) = hex_EncodeToString b"
  using hex_string_chars [of _ b] by (auto simp: strings_ToLower_def intro: map_idI)

lemma hex_no_prefix:
  assumes "c \<in> {CHR ''x'', CHR ''X''}"
  shows "TrimPrefix (hex_EncodeToString b) [CHR ''0'', c] = hex_EncodeToString b"
proof -
  have "c \<notin> set (take 2 (hex_EncodeToString b))"
    using hex_string_chars [of c b] set_take_subset [of 2 "hex_EncodeToString b"] assms by auto
  then have "take 2 (hex_EncodeToString b) \<noteq> [CHR ''0'', c]" by (metis list.set_intros(1,2))
  then show ?thesis by (simp add: TrimPrefix_def numeral_2_eq_2)
qed

lemma lookup_key: "normalizeModelLookupKey (hex_EncodeToString b) = hex_EncodeToString b"
    "normalizeModelLookupKey (modelIDToHex b) = hex_EncodeToString b"
proof -
  have x: "TrimPrefix (hex_EncodeToString b) ''0x'' = hex_EncodeToString b" "TrimPrefix (hex_EncodeToString b) ''0X'' = hex_EncodeToString b"
    by (simp_all add: hex_no_prefix)
  then show "normalizeModelLookupKey (hex_EncodeToString b) = hex_EncodeToString b"
    by (simp add: normalizeModelLookupKey_def hex_lower)
  have "TrimPrefix (modelIDToHex b) ''0x'' = hex_EncodeToString b" by (simp add: modelIDToHex_def TrimPrefix_def)
  then show "normalizeModelLookupKey (modelIDToHex b) = hex_EncodeToString b"
    using x by (simp add: normalizeModelLookupKey_def hex_lower)
qed

lemma lower_0x: "strings_ToLower (modelIDToHex b) = modelIDToHex b"
  using hex_lower [of b] by (simp add: modelIDToHex_def strings_ToLower_def to_lower_char_def)

lemma table_entries:
  "set (normalize_names (modelIDToName ids names)) = (\<lambda>(i, n). (hex_EncodeToString i, n)) ` set (zip ids names)"
proof -
  have "normalize_names (modelIDToName ids names) = concat (map (\<lambda>(i, n). replicate 2 (hex_EncodeToString i, n)) (zip ids names))"
    by (auto simp: normalize_names_def modelIDToName_def map_concat lower_0x lookup_key numeral_2_eq_2 intro!: arg_cong [where f = concat])
       (simp add: modelIDToHex_def lookup_key)
  then show ?thesis by auto
qed

text \<open>The table in any order of its entries, as Go iterates over a map.\<close>

lemma table_lookup:
  assumes "distinct ids" "length ids = length names" "set tbl = set (modelIDToName ids names)"
  shows "map_of (normalize_names tbl) (hex_EncodeToString x) = map_of (zip ids names) x"
proof -
  have s: "set (normalize_names tbl) = (\<lambda>(i, n). (hex_EncodeToString i, n)) ` set (zip ids names)"
    using table_entries [of ids names] assms(3) by (simp add: normalize_names_def)
  show ?thesis
  proof (cases "map_of (zip ids names) x")
    case None
    then have "(hex_EncodeToString x, n) \<notin> set (normalize_names tbl)" for n
      using s assms(2) by (auto simp: hex_inj map_of_zip_is_None [OF assms(2)] dest: set_zip_leftD)
    then show ?thesis using None by (metis map_of_SomeD not_None_eq)
  next
    case (Some n)
    have n': "m = n" if "(hex_EncodeToString x, m) \<in> set (normalize_names tbl)" for m
      using that s Some assms(1,2) by (auto simp: hex_inj dest: map_of_is_SomeI [rotated])
    have "(hex_EncodeToString x, n) \<in> set (normalize_names tbl)" using s map_of_SomeD [OF Some] by force
    then show ?thesis using Some n' by (metis map_of_SomeD weak_map_of_SomeI)
  qed
qed

lemma hex_digit_range:
  assumes "d < 16"
  shows "(CHR ''0'' \<le> hex_digit d \<and> hex_digit d \<le> CHR ''9'') \<or> (CHR ''a'' \<le> hex_digit d \<and> hex_digit d \<le> CHR ''f'')"
  using assms by (auto simp: hex_digit_def less_eq_char_def of_char_of)

lemma looks_like_hex: "length x = 32 \<Longrightarrow> looksLikeHexModelID (modelIDToHex x)"
  using hex_string_digits [of _ x] hex_digit_range
  by (fastforce simp: looksLikeHexModelID_def lookup_key Let_def Encode_length list_all_iff)

section \<open>Property\<close>

text \<open>
  A job of the chain runs on the model its id stands for. When the service accepted its model list, a job that carries
  a 32-byte model id, printed as the chain client prints it, resolves to the configured name with that id, whatever
  the order Go walks the table in, and fails when the worker serves no such model; it never reaches the inference server
  under a name that is not configured.
\<close>

theorem jobs_run_configured_model:
  assumes "service_model_ids lib models = Inr ids" "models \<noteq> []"
    and "set (hc_ModelIDToName cfg) = set (modelIDToName ids models)" "length x = 32"
  shows "resolveModelName (NewJobHandler cl redis cfg publisher checkpoints searcher) (modelIDToHex x) =
    (case map_of (zip ids models) x of
       Some name \<Rightarrow> Inr name
     | None \<Rightarrow> Inl (errorf ''no local Ollama model configured for queued model ID''))"
proof -
  have ids: "distinct ids" "length ids = length models"
    using assms(1) map_eq_imp_length_eq [of "ParseModelID lib" models Inr ids]
    by (auto simp: service_model_ids_def service_parse_iff first_duplicate_None split: sum.splits option.splits)
  have "zip ids models \<noteq> []" using ids(2) assms(2) by (cases ids; cases models) auto
  then have "normalize_names (hc_ModelIDToName cfg) \<noteq> []"
    using table_entries [of ids models] assms(3) by (auto simp: normalize_names_def)
  then show ?thesis using table_lookup [OF ids assms(3), of x] looks_like_hex [OF assms(4)]
    by (simp add: resolveModelName_def NewJobHandler_def lookup_key split: option.splits)
qed

end
