(* ===== verification/Cli_Main.thy ===== *)
theory Cli_Main
  imports Operator_Release Operator_Init Operator_Watch Heartbeat_Monitor Drain_Marker
begin

text \<open>
  The operator's command line (cmd/cli/main.go, watch.go): every command loads and checks the configuration, opens the
  worker key, connects to the chain and runs its handler; the outcome is the exit status, \<open>None\<close> for success and the
  reason for exit status 1 otherwise. The handlers are those of the other theories, on the state of the part of
  the world they work on. The flags of a command are arguments, already parsed; files, the key formats of go-ethereum
  and the connection to the node are the record \<open>cli_io\<close>. Log lines and usage texts are left out.
\<close>

section \<open>Loading\<close>

datatype exit_reason =
    ExUsage
  | ExConfig
  | ExSettlement
  | ExKeystore
  | ExModels
  | ExChain
  | ExReleaseConfig
  | ExStore
  | ExDrainTarget
  | ExRedisURL
  | ExAddress
  | ExImport
  | ExCommand

record cli_io =
  ci_env :: environment
  ci_readFile :: "string \<Rightarrow> go_error + string"
  ci_DecryptKey :: "string \<Rightarrow> string \<Rightarrow> go_error + address"
  ci_dial :: "RegistrationConfig \<Rightarrow> go_error option"
  ci_LoadOrGenerate :: "string \<Rightarrow> string \<Rightarrow> go_error + byte list"
  ci_ParseURL :: "string \<Rightarrow> parse_error + redis_options"

definition loadAndValidateCfg :: "config_lib \<Rightarrow> cli_io \<Rightarrow> exit_reason + RegistrationConfig" where
  "loadAndValidateCfg lib io =
     (case LoadRegistration lib (ci_env io) of
        Inl errs \<Rightarrow> Inl ExConfig
      | Inr cfg \<Rightarrow> if registration_Validate cfg \<noteq> [] then Inl ExConfig else Inr cfg)"

definition loadAndValidateForSettlement :: "config_lib \<Rightarrow> cli_io \<Rightarrow> exit_reason + RegistrationConfig" where
  "loadAndValidateForSettlement lib io =
     (case loadAndValidateCfg lib io of
        Inl r \<Rightarrow> Inl r
      | Inr cfg \<Rightarrow> if ValidateForSettlement cfg \<noteq> [] then Inl ExSettlement else Inr cfg)"

definition loadSigningKey :: "cli_io \<Rightarrow> RegistrationConfig \<Rightarrow> exit_reason + address" where
  "loadSigningKey io cfg =
     (case ci_readFile io (rg_WorkerKeystorePath cfg) of
        Inl e \<Rightarrow> Inl ExKeystore
      | Inr keystoreJSON \<Rightarrow>
          (case ci_DecryptKey io keystoreJSON (rg_WorkerKeystorePassword cfg) of Inl e \<Rightarrow> Inl ExKeystore | Inr addr \<Rightarrow> Inr addr))"

definition model_hash :: "byte list \<Rightarrow> hash" where
  "model_hash bs = foldl (\<lambda>a b. a * 256 + ucast b) 0 bs"

definition cli_parseModels :: "config_lib \<Rightarrow> RegistrationConfig \<Rightarrow> exit_reason + hash list \<times> string list" where
  "cli_parseModels lib cfg =
     (case ParseAndDeduplicateModelIDs lib (rg_SupportedModels cfg) of
        Inl e \<Rightarrow> Inl ExModels
      | Inr ids \<Rightarrow> Inr (map model_hash ids, rg_SupportedModels cfg))"

definition optional_models :: "config_lib \<Rightarrow> RegistrationConfig \<Rightarrow> exit_reason + hash list \<times> string list" where
  "optional_models lib cfg = (if rg_SupportedModels cfg = [] then Inr ([], []) else cli_parseModels lib cfg)"

definition dialChain :: "cli_io \<Rightarrow> RegistrationConfig \<Rightarrow> exit_reason option" where
  "dialChain io cfg = (case ci_dial io cfg of Some e \<Rightarrow> Some ExChain | None \<Rightarrow> None)"

definition exit_of :: "go_error option \<Rightarrow> exit_reason option" where
  "exit_of e = (case e of Some _ \<Rightarrow> Some ExCommand | None \<Rightarrow> None)"

definition exit_of_sum :: "go_error + 'a \<Rightarrow> exit_reason option" where
  "exit_of_sum r = (case r of Inl _ \<Rightarrow> Some ExCommand | Inr _ \<Rightarrow> None)"

text \<open>Configuration, key and connection, in this order; \<open>k\<close> is the rest of the command.\<close>

definition with_chain :: "cli_io \<Rightarrow> exit_reason + RegistrationConfig \<Rightarrow> 's \<Rightarrow>
    (RegistrationConfig \<Rightarrow> address \<Rightarrow> exit_reason option \<times> 's) \<Rightarrow> exit_reason option \<times> 's" where
  "with_chain io loaded st k =
     (case loaded of
        Inl r \<Rightarrow> (Some r, st)
      | Inr cfg \<Rightarrow>
     (case loadSigningKey io cfg of
        Inl r \<Rightarrow> (Some r, st)
      | Inr workerAddr \<Rightarrow>
     (case dialChain io cfg of Some r \<Rightarrow> (Some r, st) | None \<Rightarrow> k cfg workerAddr)))"

text \<open>The commands that need the models parse them after the key and before the connection.\<close>

definition with_models :: "config_lib \<Rightarrow> cli_io \<Rightarrow> 's \<Rightarrow>
    (RegistrationConfig \<Rightarrow> address \<Rightarrow> hash list \<Rightarrow> string list \<Rightarrow> exit_reason option \<times> 's) \<Rightarrow> exit_reason option \<times> 's" where
  "with_models lib io st k =
     (case loadAndValidateCfg lib io of
        Inl r \<Rightarrow> (Some r, st)
      | Inr cfg \<Rightarrow>
     (case loadSigningKey io cfg of
        Inl r \<Rightarrow> (Some r, st)
      | Inr workerAddr \<Rightarrow>
     (case cli_parseModels lib cfg of
        Inl r \<Rightarrow> (Some r, st)
      | Inr (ids, names) \<Rightarrow>
     (case dialChain io cfg of Some r \<Rightarrow> (Some r, st) | None \<Rightarrow> k cfg workerAddr ids names))))"

section \<open>Keys and registration\<close>

record import_io =
  im_HexToECDSA :: "string \<Rightarrow> go_error option"
  im_MkdirAll :: "string \<Rightarrow> go_error option"
  im_ImportECDSA :: "string \<Rightarrow> string \<Rightarrow> string \<Rightarrow> go_error option"

definition runImportKey :: "import_io \<Rightarrow> string \<Rightarrow> string \<Rightarrow> string \<Rightarrow> exit_reason option" where
  "runImportKey io privateKey password output =
     (if privateKey = [] \<or> password = [] then Some ExUsage
      else let hex = TrimPrefix0x privateKey in
        case im_HexToECDSA io hex of
          Some e \<Rightarrow> Some ExImport
        | None \<Rightarrow>
       (case im_MkdirAll io output of
          Some e \<Rightarrow> Some ExImport
        | None \<Rightarrow>
       (case im_ImportECDSA io output hex password of Some e \<Rightarrow> Some ExImport | None \<Rightarrow> None)))"

definition runKeygen :: "config_lib \<Rightarrow> cli_io \<Rightarrow> exit_reason + string" where
  "runKeygen lib io =
     (case loadAndValidateCfg lib io of
        Inl r \<Rightarrow> Inl r
      | Inr cfg \<Rightarrow>
          (case cli_Keygen \<lparr>ha_WorkerAddr = 0, ha_ModelIDs = [], ha_ModelNames = [], ha_WorkerStake = None,
                  ha_LoadECDHKey = ci_LoadOrGenerate io (rg_EncryptionKeystorePath cfg) (rg_WorkerKeystorePassword cfg),
                  ha_ReconcileSeed = None :: unit ReconcileSeed option\<rparr> of
             Inl e \<Rightarrow> Inl ExCommand
           | Inr pub \<Rightarrow> Inr pub))"

definition newReconcileSeed :: "config_lib \<Rightarrow> cli_io \<Rightarrow> RegistrationConfig \<Rightarrow> ('c \<Rightarrow> (go_error + HeadInfo) \<times> 'c) \<Rightarrow>
    (address \<Rightarrow> u64 \<Rightarrow> 'c \<Rightarrow> (go_error + u64) \<times> 'c) \<Rightarrow> 'c ReconcileSeed option" where
  "newReconcileSeed lib io cfg head nonceAt =
     (case ConfigFromEnv lib (ci_env io) of
        Inl errs \<Rightarrow> None
      | Inr releaseCfg \<Rightarrow> Some \<lparr>se_Head = head, se_NonceAt = nonceAt, se_ChainID = word_of_int (rg_ChainID cfg),
          se_JobRegistry = rg_JobRegistryAddress cfg, se_StatePath = StatePath releaseCfg, se_Confirmations = Confirmations releaseCfg\<rparr>)"

definition ecdh_key :: "cli_io \<Rightarrow> RegistrationConfig \<Rightarrow> go_error + byte list" where
  "ecdh_key io cfg = ci_LoadOrGenerate io (rg_EncryptionKeystorePath cfg) (rg_WorkerKeystorePassword cfg)"

definition runRegister :: "config_lib \<Rightarrow> addr_lib \<Rightarrow> cli_io \<Rightarrow> 'c reg_client \<Rightarrow> ('c \<Rightarrow> (go_error + HeadInfo) \<times> 'c) \<Rightarrow>
    (address \<Rightarrow> u64 \<Rightarrow> 'c \<Rightarrow> (go_error + u64) \<times> 'c) \<Rightarrow> seed_fs \<Rightarrow> 'c reg_st \<times> disk \<Rightarrow> exit_reason option \<times> 'c reg_st \<times> disk" where
  "runRegister lib al io rc head nonceAt fs st =
     with_models lib io st (\<lambda>cfg workerAddr ids names.
       case cli_Register al rc \<lparr>ha_WorkerAddr = workerAddr, ha_ModelIDs = ids, ha_ModelNames = names, ha_WorkerStake = rg_WorkerStake cfg,
              ha_LoadECDHKey = ecdh_key io cfg, ha_ReconcileSeed = newReconcileSeed lib io cfg head nonceAt\<rparr> fs (fst st) (snd st) of
         (err, st', d') \<Rightarrow> (exit_of err, st', d'))"

definition runAddModels :: "config_lib \<Rightarrow> cli_io \<Rightarrow> 'c reg_client \<Rightarrow> 'c reg_st \<Rightarrow> exit_reason option \<times> 'c reg_st" where
  "runAddModels lib io rc st =
     with_models lib io st (\<lambda>cfg workerAddr ids names.
       case run_state (cli_AddModels rc \<lparr>ha_WorkerAddr = workerAddr, ha_ModelIDs = ids, ha_ModelNames = names, ha_WorkerStake = None,
              ha_LoadECDHKey = Inl (errorf ''unset''), ha_ReconcileSeed = None\<rparr>) st of
         (err, st') \<Rightarrow> (exit_of err, st'))"

definition runDeregister :: "config_lib \<Rightarrow> cli_io \<Rightarrow> 'c reg_client \<Rightarrow> 'c reg_st \<Rightarrow> exit_reason option \<times> 'c reg_st" where
  "runDeregister lib io rc st =
     with_chain io (loadAndValidateCfg lib io) st (\<lambda>cfg workerAddr.
       case run_state (cli_Deregister rc) st of (err, st') \<Rightarrow> (exit_of err, st'))"

definition runStatus :: "config_lib \<Rightarrow> cli_io \<Rightarrow> 'c reg_client \<Rightarrow> 'c reg_st \<Rightarrow> exit_reason option \<times> 'c reg_st" where
  "runStatus lib io rc st =
     with_chain io (loadAndValidateCfg lib io) st (\<lambda>cfg workerAddr.
       case run_state (cli_Status rc \<lparr>ha_WorkerAddr = workerAddr, ha_ModelIDs = [], ha_ModelNames = [], ha_WorkerStake = None,
              ha_LoadECDHKey = ecdh_key io cfg, ha_ReconcileSeed = None\<rparr>) st of
         (r, st') \<Rightarrow> (exit_of_sum r, st'))"

section \<open>Stake and money\<close>

definition runReinstate :: "config_lib \<Rightarrow> cli_io \<Rightarrow> 'c op_chain \<Rightarrow> 'c op_st \<Rightarrow> exit_reason option \<times> 'c op_st" where
  "runReinstate lib io ch st =
     with_chain io (loadAndValidateCfg lib io) st (\<lambda>cfg workerAddr.
       case run_state (op_Reinstate ch) st of (r, st') \<Rightarrow> (exit_of_sum r, st'))"

definition runTopUpStake :: "config_lib \<Rightarrow> cli_io \<Rightarrow> 'c op_chain \<Rightarrow> bool \<Rightarrow> string list \<Rightarrow> 'c op_st \<Rightarrow> exit_reason option \<times> 'c op_st" where
  "runTopUpStake lib io ch yes args st =
     (case args of
        [arg] \<Rightarrow>
          (case ParseLCAI arg of
             Inl e \<Rightarrow> (Some ExUsage, st)
           | Inr amount \<Rightarrow>
               with_chain io (loadAndValidateCfg lib io) st (\<lambda>cfg workerAddr.
                 case run_state (op_TopUpStake ch yes amount) st of (r, st') \<Rightarrow> (exit_of_sum r, st')))
      | _ \<Rightarrow> (Some ExUsage, st))"

definition runBalance :: "config_lib \<Rightarrow> cli_io \<Rightarrow> 'c op_chain \<Rightarrow> 'c op_st \<Rightarrow> exit_reason option \<times> 'c op_st" where
  "runBalance lib io ch st =
     with_chain io (loadAndValidateForSettlement lib io) st (\<lambda>cfg workerAddr.
       case run_state (op_BalanceCmd (Some ch)) st of (r, st') \<Rightarrow> (exit_of_sum r, st'))"

definition runWithdraw :: "config_lib \<Rightarrow> cli_io \<Rightarrow> 'c op_chain \<Rightarrow> 'c op_st \<Rightarrow> exit_reason option \<times> 'c op_st" where
  "runWithdraw lib io ch st =
     with_chain io (loadAndValidateForSettlement lib io) st (\<lambda>cfg workerAddr.
       case run_state (op_Withdraw (Some ch)) st of (r, st') \<Rightarrow> (exit_of_sum r, st'))"

section \<open>Release\<close>

definition release_identity :: "RegistrationConfig \<Rightarrow> address \<Rightarrow> StoreIdentity" where
  "release_identity cfg w = \<lparr>IdChainID = word_of_int (rg_ChainID cfg), IdJobRegistry = rg_JobRegistryAddress cfg, IdWorkerAddress = w\<rparr>"

definition on_disk :: "disk \<Rightarrow> ('c, store_world) rel_st \<Rightarrow> ('c, store_world) rel_st" where
  "on_disk d st = st\<lparr>rl_store := (rl_store st)\<lparr>w_disk := d\<rparr>\<rparr>"

text \<open>\<open>flt\<close> is the fault that opening the state file meets; the later ones are in the store's world.\<close>

definition runRelease :: "config_lib \<Rightarrow> addr_lib \<Rightarrow> cli_io \<Rightarrow> 'c SettlementClient \<Rightarrow> nat \<Rightarrow> io_fault \<Rightarrow> bool \<Rightarrow> ('c, store_world) rel_st \<Rightarrow>
    (exit_reason option \<times> release_line list \<times> ('c, store_world) rel_st) option" where
  "runRelease lib al io ch fuel flt reconcileOnly st =
     (case loadAndValidateForSettlement lib io of
        Inl r \<Rightarrow> Some (Some r, [], st)
      | Inr cfg \<Rightarrow>
     (case loadSigningKey io cfg of
        Inl r \<Rightarrow> Some (Some r, [], st)
      | Inr workerAddr \<Rightarrow>
     (case dialChain io cfg of
        Some r \<Rightarrow> Some (Some r, [], st)
      | None \<Rightarrow>
     (case ConfigFromEnv lib (ci_env io) of
        Inl errs \<Rightarrow> Some (Some ExReleaseConfig, [], st)
      | Inr releaseCfg \<Rightarrow>
     (case NewFileStore al (StatePath releaseCfg) (release_identity cfg workerAddr) flt (w_disk (rl_store st)) of
        (Inl e, d) \<Rightarrow> Some (Some ExStore, [], on_disk d st)
      | (Inr store, d) \<Rightarrow>
     (case cli_Release fuel (Some ch) (Some (FileStore_ops al store)) workerAddr releaseCfg reconcileOnly (on_disk d st) of
        None \<Rightarrow> None
      | Some (err, out, st') \<Rightarrow> Some (exit_of err, out, st')))))))"

section \<open>Checks, drain, setup and watch\<close>

definition newPreflightHandler :: "RegistrationConfig \<Rightarrow> hash list \<Rightarrow> string list \<Rightarrow> PreflightHandler" where
  "newPreflightHandler cfg ids names = \<lparr>ph_ChainID = rg_ChainID cfg, ph_ModelIDs = ids, ph_ModelNames = names, ph_LoadECDHKey = True,
     ph_Gateway = (rg_WorkerGatewayURL cfg \<noteq> []), ph_OllamaURL = rg_OllamaURL cfg, ph_BeaconURL = rg_BeaconAPIURL cfg\<rparr>"

definition without_keystore :: "string list \<Rightarrow> string list" where
  "without_keystore errs = filter (\<lambda>e. \<not> prefix ''WORKER_KEYSTORE'' e) errs"

text \<open>\<open>gen\<close> is the error of generating the throw-away key of a read-only run, \<open>pr\<close> what the probes find for an address.\<close>

definition preflight_address :: "config_lib \<Rightarrow> cli_io \<Rightarrow> go_error option \<Rightarrow> string \<Rightarrow> RegistrationConfig \<Rightarrow> exit_reason + address" where
  "preflight_address lib io gen workerFlag cfg =
     (if workerFlag = [] then loadSigningKey io cfg
      else if \<not> cl_IsHexAddress lib workerFlag then Inl ExAddress
      else case gen of Some e \<Rightarrow> Inl ExKeystore | None \<Rightarrow> Inr (cl_HexToAddress lib workerFlag))"

definition read_only_preflight :: "cli_io \<Rightarrow> PreflightHandler \<Rightarrow> PreflightHandler" where
  "read_only_preflight io h = h\<lparr>ph_LoadECDHKey := False,
     ph_OllamaURL := (if ci_env io ''OLLAMA_URL'' = [] then [] else ph_OllamaURL h),
     ph_BeaconURL := (if ci_env io ''BEACON_API_URL'' = [] then [] else ph_BeaconURL h)\<rparr>"

definition runPreflight :: "config_lib \<Rightarrow> cli_io \<Rightarrow> go_error option \<Rightarrow> (address \<Rightarrow> probe) \<Rightarrow> string \<Rightarrow> exit_reason option" where
  "runPreflight lib io gen pr workerFlag =
     (let readOnly = (workerFlag \<noteq> []) in
      case LoadRegistration lib (ci_env io) of
        Inl errs \<Rightarrow> Some ExConfig
      | Inr cfg \<Rightarrow>
     (if (if readOnly then without_keystore (registration_Validate cfg) else registration_Validate cfg) \<noteq> [] then Some ExConfig
      else case preflight_address lib io gen workerFlag cfg of
        Inl r \<Rightarrow> Some r
      | Inr workerAddr \<Rightarrow>
     (case optional_models lib cfg of
        Inl r \<Rightarrow> Some r
      | Inr (ids, names) \<Rightarrow>
     (case dialChain io cfg of
        Some r \<Rightarrow> Some r
      | None \<Rightarrow>
          (let h = newPreflightHandler cfg ids names;
               h' = (if readOnly then read_only_preflight io h else h)
           in if fst (preflight_Run h' (pr workerAddr)) then None else Some ExCommand)))))"

definition newDrainHandler :: "cli_io \<Rightarrow> RegistrationConfig \<Rightarrow> bool \<Rightarrow> string list option \<Rightarrow> exit_reason + DrainHandler" where
  "newDrainHandler io cfg skipConfirm stdin =
     (let h = \<lparr>dh_RedisClient = False, dh_Gateway = False, dh_ChainClient = False, dh_DrainTTLOverride = rg_DrainTTLOverride cfg,
                dh_DrainSlack = rg_DrainSlack cfg, dh_SkipConfirm = skipConfirm, dh_Stdin = stdin\<rparr>
      in if rg_WorkerGatewayURL cfg \<noteq> [] then Inr (h\<lparr>dh_Gateway := True\<rparr>)
         else if rg_RedisURL cfg = [] then Inl ExDrainTarget
         else case RedisOptions (ci_ParseURL io) (rg_RedisURL cfg) (rg_RedisPassword cfg) of
           Inl e \<Rightarrow> Inl ExRedisURL
         | Inr opts \<Rightarrow> Inr (h\<lparr>dh_RedisClient := True, dh_ChainClient := (ci_dial io cfg = None)\<rparr>))"

definition drain_command :: "config_lib \<Rightarrow> cli_io \<Rightarrow> bool \<Rightarrow> string list option \<Rightarrow> (DrainHandler \<Rightarrow> go_error option \<times> drain_event list) \<Rightarrow>
    exit_reason option \<times> drain_event list" where
  "drain_command lib io skipConfirm stdin run =
     (case loadAndValidateCfg lib io of
        Inl r \<Rightarrow> (Some r, [])
      | Inr cfg \<Rightarrow>
     (case loadSigningKey io cfg of
        Inl r \<Rightarrow> (Some r, [])
      | Inr workerAddr \<Rightarrow>
     (case newDrainHandler io cfg skipConfirm stdin of
        Inl r \<Rightarrow> (Some r, [])
      | Inr h \<Rightarrow> (case run h of (err, evs) \<Rightarrow> (exit_of err, evs)))))"

definition runDrain :: "config_lib \<Rightarrow> cli_io \<Rightarrow> drain_env \<Rightarrow> exit_reason option \<times> drain_event list" where
  "runDrain lib io env = drain_command lib io False None (\<lambda>h. cli_Drain h env)"

definition runUndrain :: "config_lib \<Rightarrow> cli_io \<Rightarrow> drain_env \<Rightarrow> bool \<Rightarrow> string list \<Rightarrow> exit_reason option \<times> drain_event list" where
  "runUndrain lib io env yes stdin = drain_command lib io yes (Some stdin) (\<lambda>h. cli_Undrain h env)"

definition runInit :: "config_lib \<Rightarrow> addr_lib \<Rightarrow> cli_io \<Rightarrow> 'k key_io \<Rightarrow> ('k \<Rightarrow> address) \<Rightarrow> 'c InitChain \<Rightarrow> ('c \<Rightarrow> (go_error + HeadInfo) \<times> 'c) \<Rightarrow>
    (address \<Rightarrow> u64 \<Rightarrow> 'c \<Rightarrow> (go_error + u64) \<times> 'c) \<Rightarrow> seed_fs \<Rightarrow> bool \<Rightarrow> string \<Rightarrow> bool \<Rightarrow> 'c init_st \<Rightarrow>
    exit_reason option \<times> 'k key_event list \<times> 'c init_st" where
  "runInit lib al io kio addrOf ch head nonceAt fs generate importKeyFile yes st =
     (case loadAndValidateCfg lib io of
        Inl r \<Rightarrow> (Some r, [], st)
      | Inr cfg \<Rightarrow>
     (case optional_models lib cfg of
        Inl r \<Rightarrow> (Some r, [], st)
      | Inr (ids, names) \<Rightarrow>
     (case EnsureKey kio generate importKeyFile (is_in st) of
        (Inl e, kevs, inp) \<Rightarrow> (Some ExCommand, kevs, st\<lparr>is_in := inp\<rparr>)
      | (Inr key, kevs, inp) \<Rightarrow>
     (case dialChain io cfg of
        Some r \<Rightarrow> (Some r, kevs, st\<lparr>is_in := inp\<rparr>)
      | None \<Rightarrow>
     (case run_state (init_Run al ch fs \<lparr>ih_WorkerAddr = addrOf key, ih_ChainID = rg_ChainID cfg, ih_ModelIDs = ids, ih_ModelNames = names,
              ih_WorkerStake = rg_WorkerStake cfg, ih_LoadECDHKey = ecdh_key io cfg, ih_Preflight = newPreflightHandler cfg ids names,
              ih_Yes = yes, ih_ReconcileSeed = newReconcileSeed lib io cfg head nonceAt\<rparr>) (st\<lparr>is_in := inp\<rparr>) of
        (r, st') \<Rightarrow> (exit_of_sum r, kevs, st'))))))"

record 'c watch_io =
  wi_jsonAddress :: "string \<Rightarrow> go_error + string"
  wi_DialRPC :: "string \<Rightarrow> go_error option"
  wi_NewReadOnlyChain :: "address \<Rightarrow> address \<Rightarrow> address \<Rightarrow> go_error + 'c WatchChain"
  wi_redis :: "redis_options \<Rightarrow> 'c \<Rightarrow> (go_error + int option) \<times> 'c"
  wi_get :: "string \<Rightarrow> 'c \<Rightarrow> (go_error + int) \<times> 'c"
  wi_post :: "string \<Rightarrow> webhookMessage \<Rightarrow> 'c \<Rightarrow> (go_error + int) \<times> 'c"
  wi_now :: "'c \<Rightarrow> int \<times> 'c"

definition watch_heartbeat :: "cli_io \<Rightarrow> 'c watch_io \<Rightarrow> RegistrationConfig \<Rightarrow> WatchConfig \<Rightarrow>
    exit_reason + ('c \<Rightarrow> (go_error + int option) \<times> 'c) option" where
  "watch_heartbeat io wi cfg wcfg =
     (if rg_WorkerGatewayURL cfg \<noteq> [] then Inr None
      else case RedisOptions (ci_ParseURL io) (wg_RedisURL wcfg) (wg_RedisPassword wcfg) of
        Inl e \<Rightarrow> Inl ExRedisURL
      | Inr opts \<Rightarrow> Inr (Some (wi_redis wi opts)))"

text \<open>The handler and the interval of its loop, or the reason to exit.\<close>

definition runWatch :: "config_lib \<Rightarrow> cli_io \<Rightarrow> 'c watch_io \<Rightarrow> string \<Rightarrow> exit_reason + 'c WatchHandler \<times> int" where
  "runWatch lib io wi workerFlag =
     (case LoadRegistration lib (ci_env io) of
        Inl errs \<Rightarrow> Inl ExConfig
      | Inr cfg \<Rightarrow>
     (if without_keystore (registration_Validate cfg) \<noteq> [] then Inl ExConfig
      else case LoadWatch lib (ci_env io) of
        Inl errs \<Rightarrow> Inl ExConfig
      | Inr wcfg \<Rightarrow>
     (case WatchWorkerAddress lib (ci_readFile io) (wi_jsonAddress wi) workerFlag (wg_WorkerAddress wcfg) (rg_WorkerKeystorePath cfg) of
        Inl e \<Rightarrow> Inl ExAddress
      | Inr workerAddr \<Rightarrow>
     (case wi_DialRPC wi (rg_RPCURL cfg) of
        Some e \<Rightarrow> Inl ExChain
      | None \<Rightarrow>
     (case wi_NewReadOnlyChain wi (rg_WorkerRegistryAddress cfg) (rg_AIConfigAddress cfg) (wg_SessionManagerAddress wcfg) of
        Inl e \<Rightarrow> Inl ExChain
      | Inr chainReader \<Rightarrow>
     (case watch_heartbeat io wi cfg wcfg of
        Inl r \<Rightarrow> Inl r
      | Inr hb \<Rightarrow>
          Inr (\<lparr>wh_Chain = chainReader, wh_WorkerAddr = workerAddr, wh_ChainID = rg_ChainID cfg,
                wh_LivenessURL = ''http://'' @ wg_MetricsAddr wcfg @ ''/healthz'', wh_OllamaURL = rg_OllamaURL cfg,
                wh_Heartbeat = hb, wh_HeartbeatMaxAge = KeyTTL (wg_HeartbeatInterval wcfg),
                wh_MissedClaims = (if wg_SessionManagerAddress wcfg \<noteq> 0 then wg_MissedClaims wcfg else 0),
                wh_Cooldown = wg_Cooldown wcfg, wh_get = wi_get wi, wh_post = wi_post wi (wg_WebhookURL wcfg), wh_now = wi_now wi\<rparr>,
               wg_Interval wcfg)))))))"

section \<open>Dispatch\<close>

datatype command =
    CmdInit | CmdRun | CmdImportKey | CmdKeygen | CmdRegister | CmdAddModels | CmdReinstate | CmdTopUpStake | CmdDeregister
  | CmdDrain | CmdUndrain | CmdStatus | CmdPreflight | CmdWatch | CmdBalance | CmdWithdraw | CmdRelease | CmdHelp

definition commands :: "(string \<times> command) list" where
  "commands = [(''init'', CmdInit), (''run'', CmdRun), (''import-key'', CmdImportKey), (''keygen'', CmdKeygen), (''register'', CmdRegister),
     (''add-models'', CmdAddModels), (''reinstate'', CmdReinstate), (''top-up-stake'', CmdTopUpStake), (''deregister'', CmdDeregister),
     (''drain'', CmdDrain), (''undrain'', CmdUndrain), (''status'', CmdStatus), (''preflight'', CmdPreflight), (''watch'', CmdWatch),
     (''balance'', CmdBalance), (''withdraw'', CmdWithdraw), (''release'', CmdRelease), (''help'', CmdHelp), (''-h'', CmdHelp), (''--help'', CmdHelp)]"

definition cli_main :: "string list \<Rightarrow> exit_reason + command" where
  "cli_main args =
     (case args of
        [] \<Rightarrow> Inl ExUsage
      | cmd # _ \<Rightarrow> (case map_of commands cmd of None \<Rightarrow> Inl ExUsage | Some c \<Rightarrow> Inr c))"

section \<open>What a command needs\<close>

lemma with_chain_cases:
  assumes "with_chain io loaded st k = (r, st')"
  obtains (stopped) reason where "r = Some reason" "st' = st"
    | (ran) cfg workerAddr where "loaded = Inr cfg" "loadSigningKey io cfg = Inr workerAddr" "ci_dial io cfg = None" "k cfg workerAddr = (r, st')"
  using assms by (auto simp: with_chain_def dialChain_def split: sum.splits option.splits)

lemma exit_of_None [simp]: "exit_of e = None \<longleftrightarrow> e = None" "exit_of_sum r = None \<longleftrightarrow> \<not> isl r"
  by (auto simp: exit_of_def exit_of_sum_def split: option.splits sum.splits)

lemma settlement_config:
  assumes "loadAndValidateForSettlement lib io = Inr cfg"
  shows "0 < rg_ChainID cfg \<and> rg_WorkerRegistryAddress cfg \<noteq> 0 \<and> rg_JobRegistryAddress cfg \<noteq> 0 \<and> LoadRegistration lib (ci_env io) = Inr cfg"
  using assms
  by (auto simp: loadAndValidateForSettlement_def loadAndValidateCfg_def ValidateForSettlement_def registration_Validate_def split: sum.splits if_splits)

lemma drain_handler_target:
  "newDrainHandler io cfg skip stdin = Inr h \<Longrightarrow> dh_Gateway h \<noteq> dh_RedisClient h \<and> (dh_Gateway h \<longleftrightarrow> rg_WorkerGatewayURL cfg \<noteq> [])"
  by (auto simp: newDrainHandler_def Let_def split: if_splits sum.splits)

lemma opened_store:
  assumes "addr_lib_ok al" "d_data d = NoFile \<or> (\<exists>snap. d_data d = Doc snap \<and> distinct (map JobID (Pending snap)))"
    and "NewFileStore al path ident flt d = (Inr s, d')"
  shows "fs_inv al s \<lparr>w_disk = d', w_faults = fs\<rparr> \<and> (\<forall>snap. d_data d = Doc snap \<longrightarrow> d_data d' = Doc snap)"
  using NewFileStore_data [OF assms(3)] assms(1,2) by (auto simp: fs_inv_def snap_ok_def emptySnapshot_def)

section \<open>Properties\<close>

text \<open>
  The release command from the shell to the state file. With a configuration that passes the settlement checks and
  a key that opens, a run either ends before anything happened (node unreachable, release settings invalid, state
  file not openable), with the file as it was, or it ran the release command on the file opened for exactly this chain,
  registry and worker, with what that guarantees for every payout, and exits with success exactly when the command did.
\<close>

theorem release_end_to_end:
  assumes al: "addr_lib_ok al"
    and state: "d_data (w_disk (rl_store st)) = NoFile \<or> (\<exists>snap. d_data (w_disk (rl_store st)) = Doc snap \<and> distinct (map JobID (Pending snap)))"
    and cfg: "loadAndValidateForSettlement lib io = Inr cfg" "loadSigningKey io cfg = Inr w"
    and logs: "logs_complete \<lparr>rc_Head = sm_Head ch, rc_FilterJobCompleted = sm_FilterJobCompleted ch, rc_GetJobState = sm_GetJobState ch\<rparr> w completed"
    and run: "runRelease lib al io ch fuel flt reconcileOnly st = Some (r, out, st')"
  shows "(r \<in> Some ` {ExChain, ExReleaseConfig, ExStore} \<and> out = [] \<and> (\<exists>d. st' = on_disk d st \<and> d_data d = d_data (w_disk (rl_store st)))) \<or>
    (\<exists>rcfg s d err. ConfigFromEnv lib (ci_env io) = Inr rcfg \<and> fs_identity s = release_identity cfg w \<and>
       (\<forall>snap. d_data (w_disk (rl_store st)) = Doc snap \<longrightarrow> d_data d = Doc snap) \<and> (r = None \<longleftrightarrow> err = None) \<and>
       release_effect (fs_inv al s) fs_abs w rcfg completed reconcileOnly err out (on_disk d st) st')"
proof (cases "ci_dial io cfg = None \<and> (\<exists>rcfg. ConfigFromEnv lib (ci_env io) = Inr rcfg)")
  case True
  then obtain rcfg where rcfg: "ConfigFromEnv lib (ci_env io) = Inr rcfg" "ci_dial io cfg = None" by blast
  obtain o' d where o: "NewFileStore al (StatePath rcfg) (release_identity cfg w) flt (w_disk (rl_store st)) = (o', d)" by (metis prod.exhaust)
  note data = NewFileStore_data [OF o]
  show ?thesis
  proof (cases o')
    case (Inl e)
    then show ?thesis using run cfg rcfg o data by (auto simp: runRelease_def dialChain_def)
  next
    case (Inr s)
    note op = opened_store [OF al state o [unfolded Inr]]
    have inv: "fs_inv al s (rl_store (on_disk d st))" using op [of "w_faults (rl_store st)"] by (simp add: on_disk_def fs_inv_def)
    obtain err where rel: "cli_Release fuel (Some ch) (Some (FileStore_ops al s)) w rcfg reconcileOnly (on_disk d st) = Some (err, out, st')" "r = exit_of err"
      using run cfg rcfg o Inr by (auto simp: runRelease_def dialChain_def split: option.splits)
    show ?thesis
      using file_store.cli_Release_effect [OF inv logs rel(1)] rcfg data Inr op rel(2) by (intro disjI2 exI [of _ rcfg] exI [of _ s] exI [of _ d] exI [of _ err]) auto
  qed
next
  case False
  then have "r \<in> Some ` {ExChain, ExReleaseConfig} \<and> out = [] \<and> st' = st"
    using run cfg by (auto simp: runRelease_def dialChain_def split: option.splits sum.splits)
  then show ?thesis by (intro disjI1 conjI exI [of _ "w_disk (rl_store st)"]) (auto simp: on_disk_def)
qed

text \<open>
  A top-up from the shell moves exactly what was typed: a transaction is sent only if there was one amount argument that parses, the
  configuration is valid and the key opens; it carries that amount in wei; and the exit status is success exactly when it was sent and accepted.
\<close>

theorem top_up_end_to_end:
  assumes "op_log st = []" "runTopUpStake lib io ch yes args st = (r, st')"
  shows "if list_ex op_sends (op_log st')
    then \<exists>arg wei cfg w res. args = [arg] \<and> ParseLCAI arg = Inr wei \<and> loadAndValidateCfg lib io = Inr cfg \<and> loadSigningKey io cfg = Inr w \<and>
      topped_up yes wei (op_in st) res (op_log st') \<and> (r = None \<longleftrightarrow> res = Inr ())
    else r \<noteq> None"
proof (cases "\<exists>arg wei. args = [arg] \<and> ParseLCAI arg = Inr wei")
  case True
  then obtain arg wei where a: "args = [arg]" "ParseLCAI arg = Inr wei" by blast
  have run: "with_chain io (loadAndValidateCfg lib io) st (\<lambda>cfg workerAddr.
      case run_state (op_TopUpStake ch yes wei) st of (r, st') \<Rightarrow> (exit_of_sum r, st')) = (r, st')"
    using assms(2) a by (simp add: runTopUpStake_def)
  from run show ?thesis
  proof (cases rule: with_chain_cases)
    case (stopped reason)
    then show ?thesis using assms(1) by simp
  next
    case (ran cfg w)
    obtain res where res: "run_state (op_TopUpStake ch yes wei) st = (res, st')" "r = exit_of_sum res"
      using ran(4) by (auto split: prod.splits)
    have "r = None \<longleftrightarrow> res = Inr ()" by (cases res) (auto simp: res(2))
    then show ?thesis using wp_run [OF TopUp_wp [OF assms(1)] res(1)] a ran by auto
  qed
next
  case False
  then have "r = Some ExUsage \<and> st' = st" using assms(2)
    by (auto simp: runTopUpStake_def split: list.splits sum.splits)
  then show ?thesis using assms(1) by simp
qed

text \<open>
  The read-only commands do without the worker's secrets: preflight of a given address and watch behave the same
  whatever the keystore decrypts to or whatever loading the encryption key would do, so neither depends on a password, and no
  preflight, with or without an address, loads or creates the encryption key through the generating loader.
\<close>

theorem read_only_commands_need_no_key:
  assumes "workerFlag \<noteq> []"
  shows "runPreflight lib (io\<lparr>ci_DecryptKey := dec, ci_LoadOrGenerate := ecdh\<rparr>) gen pr workerFlag = runPreflight lib io gen pr workerFlag \<and>
    runPreflight lib (io\<lparr>ci_LoadOrGenerate := ecdh\<rparr>) gen pr flag = runPreflight lib io gen pr flag \<and>
    runWatch lib (io\<lparr>ci_DecryptKey := dec, ci_LoadOrGenerate := ecdh\<rparr>) wi flag = runWatch lib io wi flag"
proof -
  have d: "dialChain (io\<lparr>ci_DecryptKey := dec, ci_LoadOrGenerate := ecdh\<rparr>) = dialChain io" "dialChain (io\<lparr>ci_LoadOrGenerate := ecdh\<rparr>) = dialChain io"
    by (simp_all add: dialChain_def fun_eq_iff)
  have r: "read_only_preflight (io\<lparr>ci_DecryptKey := dec, ci_LoadOrGenerate := ecdh\<rparr>) = read_only_preflight io"
      "read_only_preflight (io\<lparr>ci_LoadOrGenerate := ecdh\<rparr>) = read_only_preflight io"
    by (simp_all add: read_only_preflight_def fun_eq_iff)
  have lk: "loadSigningKey (io\<lparr>ci_LoadOrGenerate := ecdh\<rparr>) = loadSigningKey io"
    by (rule ext) (simp add: loadSigningKey_def split: sum.split)
  have a: "preflight_address lib (io\<lparr>ci_DecryptKey := dec, ci_LoadOrGenerate := ecdh\<rparr>) gen workerFlag = preflight_address lib io gen workerFlag"
      "preflight_address lib (io\<lparr>ci_LoadOrGenerate := ecdh\<rparr>) gen flag = preflight_address lib io gen flag"
    using assms lk by (simp_all add: preflight_address_def fun_eq_iff)
  have w: "watch_heartbeat (io\<lparr>ci_DecryptKey := dec, ci_LoadOrGenerate := ecdh\<rparr>) wi = watch_heartbeat io wi"
    by (simp add: watch_heartbeat_def fun_eq_iff)
  show ?thesis by (simp add: runPreflight_def runWatch_def d r a w cong del: sum.case_cong_weak option.case_cong_weak prod.case_cong_weak if_weak_cong)
qed

end
