(* ===== verification/Spec2Isabelle.thy ===== *)
theory Spec2Isabelle
  imports Tx_Submit Release_Scheduler Release_Reconciler Session_Watcher Job_Watcher Job_Attempts Blob_Submit Streamed_Answer Key_Store Worker_Registration Response_Publisher Config_Properties Contract_Calls Rpc_Failover Operator_Preflight Operator_Registration Drain_Marker Operator_Watch Heartbeat_Monitor Service_Lifecycle Operator_Init Operator_Release Voice_Client Service_Handler Cli_Main
begin

text \<open>
  Verification of lightchain-worker, the process that serves inference jobs for the LightChain protocol: it takes
  sessions and jobs off the chain, runs them on a local model, delivers the encrypted answer, settles it with a blob
  transaction and collects the payout. This header describes the program as the development sees it, says which theory
  models what, how to read the theorems, and what is left out.

  \<^bold>\<open>The program.\<close> The service (internal/service) builds everything from the configuration (internal/config) and runs
  it. Two watchers (internal/sortition) read the chain's logs from a stored cursor: the session watcher claims
  sessions by sortition, the job watcher hands jobs to the pipeline. In gateway mode the jobs come over a WebSocket
  instead (internal/gateway), in the Redis profile over a task queue. The pipeline (internal/pipeline) acknowledges a
  job, decrypts the prompt with the session key (internal/keystore), calls the model (internal/ollama), web search and
  the voice sidecars, streams and publishes the encrypted answer, submits the ciphertext as a blob (internal/blob) and
  completes the job on chain. The chain client (internal/chain) sends all transactions of the worker key: it leases
  nonces, keeps blob and legacy transactions apart, and replaces stuck ones. The release subsystem (internal/release)
  keeps the completed jobs in a file, finds missed ones in the log, and releases the escrow when the dispute window is
  over. The operator's commands (internal/cli, internal/registration) register the worker, move its stake, check,
  drain, release and watch it.

  \<^bold>\<open>Conventions.\<close> Go's uint64 is the type \<open>u64\<close> of 64-bit words; signed integers and durations are \<open>int\<close>, wrapped by
  \<open>i64\<close> where the code can overflow; a Go error is a value of \<open>go_error\<close> (a sentinel, a message or a wrapped error, so that
  errors.Is and As are functions), a fallible call returns \<open>go_error + 'a\<close> or \<open>go_error option\<close>. Texts inside errors
  keep what the code matches on; numbers printed into messages are left out, as are logging and metrics unless a
  property is about them. Code outside the repository (the contracts and their generated bindings, the RPC node, Redis,
  HTTP peers, KZG and ECDH, the clock, the file system's failures) is always an argument: a record of functions or
  answers, over a state of arbitrary type where it can change. What is relied on of it is a named hypothesis, such as
  \<open>logs_complete\<close> and \<open>requests_complete\<close> (a successful log filter returns every event in its range) or \<open>nonce_law\<close>. A program that calls out
  many times is written in the library's state monad (Job\_Monad). Concurrency is explicit: an operation under a mutex is
  one step, and a property about interleavings quantifies over sequences of such steps. Records of events (traces) are
  the means to say what was sent, read or written, and in which order.

  \<^bold>\<open>Theories.\<close>
  \<^item> Go\_Prelude, Job\_Monad, Pipeline\_Types, Go\_Parse: words, durations, errors, the monad, byte strings, hex, and the
    parsers of Go's standard library the configuration uses.
  \<^item> Nonce\_Manager (chain/nonce.go), Send\_Errors (send\_errors.go, pause.go), Subpool\_Coordinator
    (subpool\_coordinator.go), Stuck\_Nonce (stuck\_nonce.go): the parts of transaction submission. The nonce manager
    hands out distinct leases (locale \<open>nonce_source\<close>), the coordinator never lets the two transaction classes overlap
    and loses no wake-up (locale \<open>broadcast_slots\<close>).
  \<^item> Tx\_Submit, Contract\_Calls (chain/client.go), Blob\_Submit (blob/blob\_tx.go): the submission paths over those parts.
    Leases and slots are given back on every path, a replacement pays more each time, and a contract operation sends only its own
    call, a second time only after a nonce desync.
  \<^item> Rpc\_Failover (chain/dial.go), Chain\_Reads (chain/client.go, interfaces.go): endpoints and reads.
  \<^item> Release\_Store (release/store.go, tracker.go), Release\_Config, Release\_Scheduler, Release\_Reconciler, and
    Operator\_Release (cli/settlement.go): the file store with I/O faults at every write refines a map and
    survives a power failure at any operation (locale \<open>release_store\<close>, interpreted on the file store as \<open>file_store\<close>); scheduler, reconciler and the release command are
    proved against that contract: no payout is forgotten, none is released on trust, the scan skips nothing and ends.
  \<^item> Cursor\_Store, Session\_Watcher, Job\_Watcher (internal/sortition): no request behind the cursor is forgotten while the process
    runs, a job that cannot be served is not passed over.
  \<^item> Checkpoint\_Store, Deadline\_Guard, Chunk\_Stream, Job\_Env, Inference\_Stages, Voice\_Client, Job\_Handler (internal/pipeline,
    internal/voice, internal/search): the pipeline from pickup to settlement. Job\_Trace, Job\_Settlement, Job\_Runs and Job\_Attempts hold the
    proofs: which events a program can emit, what one attempt commits to, and runs of many attempts of one job
    with other attempts writing to the checkpoint in between.
  \<^item> Ollama\_Client (internal/ollama), Streamed\_Answer: the model client, and the chunks a consumer sees against the
    answer that is settled.
  \<^item> Key\_Store (internal/keystore): worker key and session keys at rest (locale \<open>key_cache\<close>).
  \<^item> Gateway\_Client, Response\_Publisher (internal/gateway): authentication, the job socket, and the three
    publishers as interpretations of the locale \<open>frame_plane\<close> (\<open>redis\<close>, \<open>stream\<close>, and \<open>gateway\<close> in Service\_Lifecycle).
  \<^item> Worker\_Config, Config\_Checks, Config\_Properties (internal/config, service.go buildReleaseConfig, release/config.go):
    loading and validation, and the agreement of the two loaders.
  \<^item> Worker\_Registration (internal/registration), Operator\_Registration, Operator\_Stake, Operator\_Preflight,
    Operator\_Init, Operator\_Watch, Drain\_Marker (internal/cli, internal/config), Heartbeat\_Monitor (internal/heartbeat).
  \<^item> Service\_Lifecycle (internal/service): construction, run and shutdown of the process over all of the above;
    Service\_Handler: the job handler as the service builds it. Cli\_Main (cmd/cli): every command from the environment to its exit status.

  \<^bold>\<open>Loops and fuel.\<close> Loops over data are structural recursion. The scans over block numbers (the reconciler's, the two of the session
  watcher and the job watcher's) add a chunk size to a uint64 and take fuel; \<open>reconcile_terminates\<close>, \<open>session_requests_tracked\<close> and
  \<open>job_pass_covers\<close> show that the head's block number (and the cursor's) is enough as long as it fits in 64 bits together with the chunk
  size. Retry loops whose bound is in the code (blob replacement, RPC endpoints, resend) recurse over that bound. A loop that ends only by the
  outside world (the tickers, the socket's read loop, the watch daemon) is modelled by its body, and properties quantify over any
  sequence of iterations.

  \<^bold>\<open>Reading the claims.\<close> A claim is about what the worker does given the answers it gets. A send that the node answered with an error
  counts as not accepted, although the node may have taken it; a record in Redis does not expire; the error tag a failure carries is the
  code's own. Where a guarantee depends on such a condition, or holds within one process or one attempt only, the claim's text says so.
  The lemmas without a claim number complete the picture: termination of single passes, exact outcomes of helpers, and behaviours
  that fall short of what a comment promises.

  \<^bold>\<open>Not modelled.\<close> Flag parsing, usage texts and loggers of cmd/cli and the one-line cmd/sidecar; metrics (internal/metrics,
  release/metrics.go), which only count, apart from the check of the listen address; the beacon and Redis readers of internal/blob, which
  re-export a package outside the repository and are arguments of the pipeline; workertest, which is test support; ReadOnlyChain of
  cli/watch.go and the one-line read wrappers of chain/client.go, which forward to generated bindings. Wall-clock progress of
  goroutines, TLS, cryptographic strength and the Solidity contracts are outside.
\<close>

end
